(* ===== verification/Prelude.thy ===== *)
theory Prelude
  imports Complex_Main "HOL-Library.AList" "HOL-Library.Word" "HOL-Library.Sublist"
    "HOL-Library.Multiset" "HOL-Library.Char_ord" "HOL-Library.List_Lexorder"
begin

section \<open>Shared vocabulary of the uHorse development\<close>

text \<open>
  This theory holds what every component shares: the named collections of facts, the type
  synonyms for the Rust types the sources use, the model of \<^verbatim>\<open>std::collections::HashMap\<close>, the
  string functions of the standard library the sources call (\<open>split\<close>, \<open>starts_with\<close>, \<open>contains\<close>,
  \<open>to_lowercase\<close>, \<open>trim\<close>, decimal formatting and parsing), the serde JSON value, stable sorting
  lemmas, and three interfaces stated as locales: a keyed store, a step system with an
  invariant, and a list kept in descending priority order.
\<close>

named_theorems hm_simps \<open>lookup and key facts of the hash map model\<close>
named_theorems str_simps \<open>evaluation facts of the string functions\<close>

subsection \<open>Types\<close>

text \<open>
  \<open>u32\<close>, \<open>u64\<close> keep their width. A \<open>usize\<close> that counts elements of a collection is a \<open>nat\<close>.
  Rust strings are byte lists. An instant (\<^verbatim>\<open>chrono::DateTime<Utc>\<close>, \<^verbatim>\<open>std::time::Instant\<close>) is an
  \<open>int\<close> counting nanoseconds; the clock reading an operation takes is an argument of its model.
\<close>

type_synonym u8 = "8 word"
type_synonym u16 = "16 word"
type_synonym u32 = "32 word"
type_synonym u64 = "64 word"
type_synonym instant = int
type_synonym 'e result_unit = "'e + unit"

text \<open>
  The errors of \<^verbatim>\<open>uhorse-core/src/error.rs\<close> the modelled code returns, and the failure of a call
  that may also panic.
\<close>

datatype uhorse_error =
    InternalError string
  | ScheduleConflict string
  | JobNotFound string
  | TokenExpired
  | InvalidToken
  | DeviceNotPaired string

datatype failure = Fail uhorse_error | Panic string

definition nanos_per_sec :: int where
  "nanos_per_sec = 1000000000"

text \<open>\<^verbatim>\<open>Duration::seconds(secs as i64)\<close>: the cast reads the 64 bits as two's complement.\<close>

definition duration_seconds :: "u64 \<Rightarrow> int" where
  "duration_seconds secs = sint secs * nanos_per_sec"

text \<open>\<^verbatim>\<open>Duration::num_seconds\<close>: whole seconds, rounded towards zero.\<close>

definition num_seconds :: "int \<Rightarrow> int" where
  "num_seconds d = (if d < 0 then - ((- d) div nanos_per_sec) else d div nanos_per_sec)"

subsection \<open>Options\<close>

text \<open>\<^verbatim>\<open>Option::or\<close>, also for \<^verbatim>\<open>or_else\<close>, whose closures only read.\<close>

definition option_or :: "'a option \<Rightarrow> 'a option \<Rightarrow> 'a option" where
  "option_or a b = (case a of Some x \<Rightarrow> Some x | None \<Rightarrow> b)"

subsection \<open>Hash maps\<close>

text \<open>
  A \<^verbatim>\<open>HashMap<K, V>\<close> is an association list with distinct keys. The order of the list is the
  iteration order of the map, about which the code may assume nothing: the step relations have
  a rule that permutes it, and the statements that do not mention a step hold for every order.
\<close>

type_synonym ('k, 'v) hmap = "('k \<times> 'v) list"

abbreviation hm_get :: "('k, 'v) hmap \<Rightarrow> 'k \<Rightarrow> 'v option" where
  "hm_get \<equiv> map_of"

abbreviation hm_insert :: "'k \<Rightarrow> 'v \<Rightarrow> ('k, 'v) hmap \<Rightarrow> ('k, 'v) hmap" where
  "hm_insert \<equiv> AList.update"

abbreviation hm_remove :: "'k \<Rightarrow> ('k, 'v) hmap \<Rightarrow> ('k, 'v) hmap" where
  "hm_remove \<equiv> AList.delete"

abbreviation hm_keys :: "('k, 'v) hmap \<Rightarrow> 'k list" where
  "hm_keys m \<equiv> map fst m"

abbreviation hm_values :: "('k, 'v) hmap \<Rightarrow> 'v list" where
  "hm_values m \<equiv> map snd m"

abbreviation hm_wf :: "('k, 'v) hmap \<Rightarrow> bool" where
  "hm_wf m \<equiv> distinct (hm_keys m)"

text \<open>A lookup stays a lookup in the proofs; \<open>hm_get_iff\<close> turns it into membership on demand.\<close>

declare map_of_eq_Some_iff [simp del] map_of_eq_None_iff [simp del]

definition hm_contains :: "('k, 'v) hmap \<Rightarrow> 'k \<Rightarrow> bool" where
  "hm_contains m k = (hm_get m k \<noteq> None)"

definition hm_retain :: "('k \<Rightarrow> 'v \<Rightarrow> bool) \<Rightarrow> ('k, 'v) hmap \<Rightarrow> ('k, 'v) hmap" where
  "hm_retain P m = filter (\<lambda>(k, v). P k v) m"

text \<open>\<open>get_mut\<close> followed by a mutation of the entry; nothing happens on a missing key.\<close>

definition hm_modify :: "'k \<Rightarrow> ('v \<Rightarrow> 'v) \<Rightarrow> ('k, 'v) hmap \<Rightarrow> ('k, 'v) hmap" where
  "hm_modify k f m = (case hm_get m k of None \<Rightarrow> m | Some v \<Rightarrow> hm_insert k (f v) m)"

text \<open>\<open>for (k, v) in m.iter_mut()\<close>: every value rewritten in place.\<close>

definition hm_map :: "('k \<Rightarrow> 'v \<Rightarrow> 'w) \<Rightarrow> ('k, 'v) hmap \<Rightarrow> ('k, 'w) hmap" where
  "hm_map f m = map (\<lambda>(k, v). (k, f k v)) m"

lemma hm_get_insert [hm_simps]:
  "hm_get (hm_insert k v m) k' = (if k' = k then Some v else hm_get m k')"
  by (simp add: AList.update_conv')

lemma hm_get_remove [hm_simps]:
  "hm_get (hm_remove k m) k' = (if k' = k then None else hm_get m k')"
  by (simp add: AList.delete_conv')

lemma hm_wf_insert [simp, hm_simps]: "hm_wf m \<Longrightarrow> hm_wf (hm_insert k v m)"
  by (rule AList.distinct_update)

lemma hm_wf_remove [simp, hm_simps]: "hm_wf m \<Longrightarrow> hm_wf (hm_remove k m)"
  by (rule AList.distinct_delete)

lemma hm_keys_insert [hm_simps]: "set (hm_keys (hm_insert k v m)) = insert k (set (hm_keys m))"
  by (simp add: AList.dom_update)

lemma hm_keys_remove [hm_simps]: "set (hm_keys (hm_remove k m)) = set (hm_keys m) - {k}"
  by (simp add: AList.delete_keys)

lemma hm_contains_keys: "hm_contains m k \<longleftrightarrow> k \<in> set (hm_keys m)"
  by (auto simp: hm_contains_def map_of_eq_None_iff)

lemma hm_get_SomeD: "hm_get m k = Some v \<Longrightarrow> k \<in> set (hm_keys m)"
  by (drule map_of_SomeD) force

lemma hm_get_values: "hm_get m k = Some v \<Longrightarrow> v \<in> set (hm_values m)"
  by (drule map_of_SomeD) force

lemma hm_values_get: "hm_wf m \<Longrightarrow> v \<in> set (hm_values m) \<Longrightarrow> \<exists>k. hm_get m k = Some v"
  by (auto simp: map_of_eq_Some_iff)

lemma hm_get_iff: "hm_wf m \<Longrightarrow> hm_get m k = Some v \<longleftrightarrow> (k, v) \<in> set m"
  by (rule map_of_eq_Some_iff)

lemma hm_retain_wf [simp, hm_simps]: "hm_wf m \<Longrightarrow> hm_wf (hm_retain P m)"
  by (simp add: hm_retain_def distinct_map_filter)

lemma hm_get_retain [hm_simps]:
  assumes "hm_wf m"
  shows "hm_get (hm_retain P m) k =
    (case hm_get m k of None \<Rightarrow> None | Some v \<Rightarrow> if P k v then Some v else None)"
  using assms
proof (induction m)
  case (Cons x m)
  obtain a b where x: "x = (a, b)" by (cases x)
  have "a \<notin> set (hm_keys m)" using Cons.prems x by simp
  then have a: "hm_get m a = None" by (simp add: map_of_eq_None_iff)
  have IH: "hm_get (filter (\<lambda>(k, v). P k v) m) k =
    (case hm_get m k of None \<Rightarrow> None | Some v \<Rightarrow> if P k v then Some v else None)"
    using Cons by (simp add: hm_retain_def)
  show ?case using x a IH by (auto simp: hm_retain_def)
qed (simp add: hm_retain_def)

lemma hm_modify_wf [simp, hm_simps]: "hm_wf m \<Longrightarrow> hm_wf (hm_modify k f m)"
  by (simp add: hm_modify_def split: option.splits)

lemma hm_get_modify [hm_simps]:
  "hm_get (hm_modify k f m) k' = (if k' = k then map_option f (hm_get m k) else hm_get m k')"
  by (auto simp: hm_modify_def hm_get_insert split: option.splits)

lemma hm_keys_modify [simp, hm_simps]: "hm_keys (hm_modify k f m) = hm_keys m"
proof (cases "hm_get m k")
  case (Some v)
  then have "k \<in> set (hm_keys m)" by (rule hm_get_SomeD)
  then show ?thesis using Some by (simp add: hm_modify_def AList.update_keys)
qed (simp add: hm_modify_def)

lemma hm_keys_map [simp, hm_simps]: "hm_keys (hm_map f m) = hm_keys m"
  by (induction m) (auto simp: hm_map_def)

lemma hm_get_map [hm_simps]: "hm_get (hm_map f m) k = map_option (f k) (hm_get m k)"
  by (induction m) (auto simp: hm_map_def)

lemma hm_length_map [simp]: "length (hm_map f m) = length m"
  by (simp add: hm_map_def)

lemma hm_length_modify [simp]: "length (hm_modify k f m) = length m"
  by (metis hm_keys_modify length_map)

lemma hm_length_insert:
  "length (hm_insert k v m) = (if k \<in> set (hm_keys m) then length m else Suc (length m))"
  by (metis AList.update_keys length_append_singleton length_map)

lemma hm_values_insert: "set (hm_values (hm_insert k v m)) \<subseteq> insert v (set (hm_values m))"
  by (induction m) auto

lemma hm_values_remove: "set (hm_values (hm_remove k m)) \<subseteq> set (hm_values m)"
  by (auto simp: AList.delete_eq)

lemma hm_keys_mset_insert:
  "mset (hm_keys (hm_insert k v m)) =
     (if k \<in> set (hm_keys m) then mset (hm_keys m) else add_mset k (mset (hm_keys m)))"
  by (simp add: AList.update_keys)

lemma hm_keys_mset_remove:
  assumes "hm_wf m" and "k \<in> set (hm_keys m)"
  shows "mset (hm_keys m) = add_mset k (mset (hm_keys (hm_remove k m)))"
  using assms
proof (induction m)
  case (Cons x m)
  show ?case
  proof (cases "fst x = k")
    case True
    then have "k \<notin> set (hm_keys m)" using Cons.prems(1) by auto
    then show ?thesis using True by (cases x) (simp add: AList.delete_idem)
  next
    case False
    then show ?thesis using Cons by (cases x) auto
  qed
qed simp

text \<open>Replacing a list-valued entry exchanges its elements in the collection of all of them.\<close>

lemma hm_concat_mset_insert:
  "hm_get m k = Some q \<Longrightarrow>
     mset (concat (hm_values (hm_insert k q' m))) + mset q = mset (concat (hm_values m)) + mset q'"
  by (induction m) (auto split: if_splits simp: ac_simps)

lemma hm_length_remove_le: "length (hm_remove k m) \<le> length m"
  by (rule AList.length_delete_le)

lemma hm_get_perm:
  assumes "hm_wf m" and "mset m' = mset m"
  shows "hm_wf m'" and "hm_get m' k = hm_get m k"
proof -
  have "mset (hm_keys m') = mset (hm_keys m)"
    using assms(2) by simp
  then show wf: "hm_wf m'" using assms(1) by (metis mset_eq_imp_distinct_iff)
  have "set m' = set m" using assms(2) by (metis set_mset_mset)
  then show "hm_get m' k = hm_get m k"
    using wf assms(1) by (metis map_of_inject_set)
qed

text \<open>\<open>iter().find\<close> by a key that is unique in the list.\<close>

lemma find_by_key:
  "distinct (map f xs) \<Longrightarrow> x \<in> set xs \<Longrightarrow> find (\<lambda>y. f y = f x) xs = Some x"
  by (induction xs) auto

subsection \<open>Strings\<close>

abbreviation starts_with :: "string \<Rightarrow> string \<Rightarrow> bool" where
  "starts_with s p \<equiv> prefix p s"

fun str_contains :: "string \<Rightarrow> string \<Rightarrow> bool" where
  "str_contains [] p = (p = [])"
| "str_contains (c # s) p = (prefix p (c # s) \<or> str_contains s p)"

lemma str_contains_iff: "str_contains s p \<longleftrightarrow> (\<exists>a b. s = a @ p @ b)"
proof (induction s)
  case (Cons c s)
  have "(\<exists>a b. c # s = a @ p @ b) \<longleftrightarrow> prefix p (c # s) \<or> (\<exists>a b. s = a @ p @ b)"
  proof
    assume "\<exists>a b. c # s = a @ p @ b"
    then obtain a b where "c # s = a @ p @ b" by blast
    then show "prefix p (c # s) \<or> (\<exists>a b. s = a @ p @ b)"
      by (cases a) (auto simp: prefix_def)
  next
    assume "prefix p (c # s) \<or> (\<exists>a b. s = a @ p @ b)"
    then show "\<exists>a b. c # s = a @ p @ b"
    proof
      assume "prefix p (c # s)"
      then show ?thesis unfolding prefix_def by (metis append_Nil)
    next
      assume "\<exists>a b. s = a @ p @ b"
      then show ?thesis by (metis append_Cons)
    qed
  qed
  then show ?case using Cons.IH by simp
qed simp

text \<open>\<^verbatim>\<open>str::split(c)\<close>: one part more than there are separators, so the empty string has one part.\<close>

fun split_on :: "char \<Rightarrow> string \<Rightarrow> string list" where
  "split_on c [] = [[]]"
| "split_on c (x # xs) =
     (if x = c then [] # split_on c xs
      else (x # hd (split_on c xs)) # tl (split_on c xs))"

fun join_with :: "string \<Rightarrow> string list \<Rightarrow> string" where
  "join_with sep [] = []"
| "join_with sep [x] = x"
| "join_with sep (x # y # xs) = x @ sep @ join_with sep (y # xs)"

lemma split_on_nonempty [simp]: "split_on c s \<noteq> []"
  by (induction s) auto

lemma split_on_append:
  "c \<notin> set p \<Longrightarrow> split_on c (p @ c # s) = p # split_on c s"
  by (induction p) auto

lemma split_on_no_sep: "c \<notin> set p \<Longrightarrow> split_on c p = [p]"
  by (induction p) auto

lemma split_on_join:
  "ps \<noteq> [] \<Longrightarrow> \<forall>p\<in>set ps. c \<notin> set p \<Longrightarrow> split_on c (join_with [c] ps) = ps"
  by (induction "[c]" ps rule: join_with.induct) (auto simp: split_on_append split_on_no_sep)

lemma join_split_on: "join_with [c] (split_on c s) = s"
proof (induction s)
  case (Cons x s)
  obtain p ps where e: "split_on c s = p # ps" by (meson neq_Nil_conv split_on_nonempty)
  show ?case using Cons.IH e by (cases ps) auto
qed simp

lemma split_on_no_sep_parts: "p \<in> set (split_on c s) \<Longrightarrow> c \<notin> set p"
proof (induction s arbitrary: p)
  case (Cons x s)
  obtain q qs where e: "split_on c s = q # qs" by (meson neq_Nil_conv split_on_nonempty)
  show ?case using Cons e by (auto split: if_splits)
qed simp

text \<open>\<^verbatim>\<open>str::strip_prefix\<close>.\<close>

definition strip_prefix_str :: "string \<Rightarrow> string \<Rightarrow> string option" where
  "strip_prefix_str p s = (if prefix p s then Some (drop (length p) s) else None)"

text \<open>\<^verbatim>\<open>str::lines\<close>.\<close>

definition strip_cr :: "string \<Rightarrow> string" where
  "strip_cr l = (if l \<noteq> [] \<and> last l = CHR 0x0D then butlast l else l)"

definition str_lines :: "string \<Rightarrow> string list" where
  "str_lines s =
     (let ps = split_on (CHR 0x0A) s
      in map strip_cr (if last ps = [] then butlast ps else ps))"

text \<open>
  \<open>to_lowercase\<close> and \<open>trim\<close> on ASCII: letters outside ASCII keep their case here, and only the
  ASCII white space is trimmed.
\<close>

definition char_lower :: "char \<Rightarrow> char" where
  "char_lower c =
     (if 65 \<le> (of_char c :: nat) \<and> (of_char c :: nat) \<le> 90
      then char_of ((of_char c :: nat) + 32) else c)"

definition to_lowercase :: "string \<Rightarrow> string" where
  "to_lowercase s = map char_lower s"

lemma char_lower_idem [simp]: "char_lower (char_lower c) = char_lower c"
  by (auto simp: char_lower_def)

lemma to_lowercase_idem [simp]: "to_lowercase (to_lowercase s) = to_lowercase s"
  by (simp add: to_lowercase_def)

lemma to_lowercase_append: "to_lowercase (s @ t) = to_lowercase s @ to_lowercase t"
  by (simp add: to_lowercase_def)

definition is_whitespace :: "char \<Rightarrow> bool" where
  "is_whitespace c = (let n = (of_char c :: nat) in n = 32 \<or> (9 \<le> n \<and> n \<le> 13))"

definition trim :: "string \<Rightarrow> string" where
  "trim s = rev (dropWhile is_whitespace (rev (dropWhile is_whitespace s)))"

lemma trim_ends:
  assumes "trim s \<noteq> []"
  shows "\<not> is_whitespace (hd (trim s))" and "\<not> is_whitespace (last (trim s))"
proof -
  let ?a = "dropWhile is_whitespace s"
  let ?b = "dropWhile is_whitespace (rev ?a)"
  have ne: "?b \<noteq> []" using assms by (simp add: trim_def)
  then show "\<not> is_whitespace (last (trim s))"
    by (simp add: trim_def last_rev hd_dropWhile)
  have a: "?a \<noteq> []" using ne by force
  obtain z where z: "rev ?a = z @ ?b" by (metis takeWhile_dropWhile_id)
  then have "hd ?a = last ?b" using ne by (metis hd_rev last_appendR rev_rev_ident)
  then show "\<not> is_whitespace (hd (trim s))"
    using hd_dropWhile [OF a] by (simp add: trim_def hd_rev)
qed

lemma trim_eq_Nil: "trim t = [] \<longleftrightarrow> (\<forall>c\<in>set t. is_whitespace c)"
proof
  assume "trim t = []"
  then have a: "\<forall>c\<in>set (dropWhile is_whitespace t). is_whitespace c" by (simp add: trim_def)
  have "dropWhile is_whitespace t = []"
    using hd_dropWhile [of is_whitespace t] a hd_in_set by blast
  then show "\<forall>c\<in>set t. is_whitespace c" by simp
qed (simp add: trim_def dropWhile_eq_Nil_conv [THEN iffD2])

lemma trim_idem [simp]: "trim (trim s) = trim s"
proof (cases "trim s = []")
  case False
  then have h: "dropWhile is_whitespace (trim s) = trim s"
    using trim_ends(1) [OF False] False by (cases "trim s") auto
  have "dropWhile is_whitespace (rev (trim s)) = rev (trim s)"
    using trim_ends(2) [OF False] False by (cases "rev (trim s)") (auto simp: last_rev hd_rev)
  then show ?thesis by (simp add: trim_def [of "trim s"] h)
qed (simp add: trim_def [of "[]"])

lemma trim_no_whitespace: "list_all (\<lambda>c. \<not> is_whitespace c) s \<Longrightarrow> trim s = s"
proof -
  have d: "list_all (\<lambda>c. \<not> is_whitespace c) t \<Longrightarrow> dropWhile is_whitespace t = t" for t
    by (cases t) auto
  assume "list_all (\<lambda>c. \<not> is_whitespace c) s"
  then show ?thesis using d [of s] d [of "rev s"] by (simp add: trim_def list_all_rev)
qed

subsection \<open>Decimal numbers\<close>

text \<open>\<open>format!("{}", n)\<close> of an unsigned integer, and \<open>str::parse\<close> to \<open>u32\<close>.\<close>

definition digit_char :: "nat \<Rightarrow> char" where
  "digit_char d = char_of (48 + d)"

definition is_digit_char :: "char \<Rightarrow> bool" where
  "is_digit_char c = (48 \<le> (of_char c :: nat) \<and> (of_char c :: nat) \<le> 57)"

definition digit_val :: "char \<Rightarrow> nat" where
  "digit_val c = of_char c - 48"

fun dec_string :: "nat \<Rightarrow> string" where
  "dec_string n =
     (if n < 10 then [digit_char n] else dec_string (n div 10) @ [digit_char (n mod 10)])"

declare dec_string.simps [simp del]

definition dec_value :: "string \<Rightarrow> nat" where
  "dec_value s = foldl (\<lambda>a c. a * 10 + digit_val c) 0 s"

lemma of_char_digit [simp]: "d < 10 \<Longrightarrow> (of_char (digit_char d) :: nat) = 48 + d"
  by (simp add: digit_char_def)

lemma digit_val_char [simp]: "d < 10 \<Longrightarrow> digit_val (digit_char d) = d"
  by (simp add: digit_val_def)

lemma is_digit_char_digit [simp]: "d < 10 \<Longrightarrow> is_digit_char (digit_char d)"
  by (simp add: is_digit_char_def)

lemma dec_value_snoc: "dec_value (s @ [c]) = dec_value s * 10 + digit_val c"
  by (simp add: dec_value_def)

lemma dec_value_dec_string [simp]: "dec_value (dec_string n) = n"
proof (induction n rule: dec_string.induct)
  case (1 n)
  show ?case
  proof (cases "n < 10")
    case True
    then show ?thesis by (simp add: dec_string.simps [of n] dec_value_def)
  next
    case False
    then show ?thesis using 1 by (simp add: dec_string.simps [of n] dec_value_snoc)
  qed
qed

lemma dec_string_inject [simp]: "dec_string m = dec_string n \<longleftrightarrow> m = n"
  by (metis dec_value_dec_string)

lemma dec_string_digits: "c \<in> set (dec_string n) \<Longrightarrow> is_digit_char c"
proof (induction n rule: dec_string.induct)
  case (1 n)
  then show ?case
    by (cases "n < 10") (auto simp: dec_string.simps [of n])
qed

lemma dec_string_nonempty [simp]: "dec_string n \<noteq> []"
  by (subst dec_string.simps) simp

definition parse_u32 :: "string \<Rightarrow> u32 option" where
  "parse_u32 s =
     (let digits = (case s of [] \<Rightarrow> [] | c # r \<Rightarrow> if c = CHR ''+'' then r else s)
      in if digits = [] \<or> \<not> list_all is_digit_char digits \<or> 2 ^ 32 \<le> dec_value digits
         then None else Some (of_nat (dec_value digits)))"

lemma parse_u32_dec_string [simp]: "parse_u32 (dec_string (unat w)) = Some (w :: u32)"
proof -
  obtain c r where cr: "dec_string (unat w) = c # r" by (meson dec_string_nonempty neq_Nil_conv)
  have "is_digit_char c" using dec_string_digits [of c "unat w"] cr by simp
  then have "c \<noteq> CHR ''+''" by (auto simp: is_digit_char_def)
  moreover have "list_all is_digit_char (dec_string (unat w))"
    by (auto simp: list_all_iff dest: dec_string_digits)
  moreover have "unat w < 2 ^ 32"
    using unsigned_less [of w, where 'a = nat] by simp
  moreover have "dec_value (c # r) = unat w"
    using cr by (metis dec_value_dec_string)
  ultimately show ?thesis
    by (simp add: parse_u32_def Let_def cr)
qed

subsection \<open>JSON values\<close>

text \<open>
  \<^verbatim>\<open>serde_json::Value\<close>. An object is an association list in key order, as the ordered map behind
  it iterates.
\<close>

datatype json_number = PosInt u64 | NegInt u64 | FloatNum real

datatype json =
    JNull
  | JBool bool
  | JNumber json_number
  | JString string
  | JArray "json list"
  | JObject "(string \<times> json) list"

text \<open>\<open>value.get(key)\<close>: the field of an object, nothing on any other value.\<close>

fun json_get :: "json \<Rightarrow> string \<Rightarrow> json option" where
  "json_get (JObject fs) k = map_of fs k"
| "json_get _ k = None"

fun json_as_object :: "json \<Rightarrow> (string \<times> json) list option" where
  "json_as_object (JObject fs) = Some fs"
| "json_as_object _ = None"

subsection \<open>Interface: a keyed store\<close>

text \<open>
  What the managers rely on when they keep their entries in a map: what a lookup returns after
  an insertion or a removal, and that both keep the representation well formed.
\<close>

locale keyed_store =
  fixes lookup :: "'m \<Rightarrow> 'k \<Rightarrow> 'v option"
    and put :: "'k \<Rightarrow> 'v \<Rightarrow> 'm \<Rightarrow> 'm"
    and drop_key :: "'k \<Rightarrow> 'm \<Rightarrow> 'm"
    and ok :: "'m \<Rightarrow> bool"
  assumes lookup_put: "ok m \<Longrightarrow> lookup (put k v m) k' = (if k' = k then Some v else lookup m k')"
    and lookup_drop: "ok m \<Longrightarrow> lookup (drop_key k m) k' = (if k' = k then None else lookup m k')"
    and ok_put: "ok m \<Longrightarrow> ok (put k v m)"
    and ok_drop: "ok m \<Longrightarrow> ok (drop_key k m)"
begin

text \<open>Moving an entry from one store to another: it leaves the first and is found in the second.\<close>

lemma move_entry:
  assumes "ok m" and "ok h" and "lookup m k = Some v"
  shows "lookup (drop_key k m) k = None" and "lookup (put k w h) k = Some w"
    and "k' \<noteq> k \<Longrightarrow> lookup (drop_key k m) k' = lookup m k'"
    and "k' \<noteq> k \<Longrightarrow> lookup (put k w h) k' = lookup h k'"
  using assms by (simp_all add: lookup_put lookup_drop)

lemma move_disjoint:
  assumes "ok m" and "ok h" and "\<And>j. lookup m j = None \<or> lookup h j = None"
  shows "lookup (drop_key k m) j = None \<or> lookup (put k w h) j = None"
  using assms by (simp add: lookup_put lookup_drop)

text \<open>A fresh entry put under a key that neither store holds keeps two stores disjoint.\<close>

lemma put_disjoint:
  assumes "ok m" and "lookup h k = None" and "\<And>j. lookup m j = None \<or> lookup h j = None"
  shows "lookup (put k w m) j = None \<or> lookup h j = None"
  using assms by (auto simp: lookup_put)

lemma drop_absent_lookup: "ok m \<Longrightarrow> lookup m k = None \<Longrightarrow> lookup (drop_key k m) = lookup m"
  by (auto simp: lookup_drop)

lemma fold_drop_lookup:
  "ok m \<Longrightarrow> lookup (fold drop_key ks m) k = (if k \<in> set ks then None else lookup m k)"
  by (induction ks arbitrary: m) (auto simp: lookup_drop ok_drop)

lemma fold_drop_ok: "ok m \<Longrightarrow> ok (fold drop_key ks m)"
  by (induction ks arbitrary: m) (auto simp: ok_drop)

end

interpretation hm: keyed_store map_of AList.update AList.delete "\<lambda>m. distinct (map fst m)"
  by unfold_locales (auto simp: hm_get_insert hm_get_remove AList.distinct_update AList.distinct_delete)

subsection \<open>Interface: a stable ranking\<close>

text \<open>
  Several components sort a list stably by a key and take the first element that qualifies
  (\<open>sort_by\<close> then \<open>first\<close> or a loop with an early return). The interface is the contract of a
  stable sort; its lemmas say that what is taken has the least key among those that qualify.
\<close>

locale stable_ranking =
  fixes rank :: "'a list \<Rightarrow> 'a list"
    and key :: "'a \<Rightarrow> 'k::linorder"
  assumes rank_mset: "mset (rank xs) = mset xs"
    and rank_sorted: "sorted (map key (rank xs))"
    and rank_stable: "filter (\<lambda>x. key x = k) (rank xs) = filter (\<lambda>x. key x = k) xs"
begin

lemma rank_set [simp]: "set (rank xs) = set xs"
  by (metis rank_mset set_mset_mset)

lemma rank_Nil [simp]: "rank xs = [] \<longleftrightarrow> xs = []"
  by (metis rank_mset mset_zero_iff)

lemma first_ranked_best:
  assumes "find P (rank xs) = Some x" and "y \<in> set xs" and "P y"
  shows "key x \<le> key y"
proof -
  obtain i where i: "i < length (rank xs)" "P (rank xs ! i)" "x = rank xs ! i"
    and before: "\<forall>j<i. \<not> P (rank xs ! j)"
    using assms(1) by (auto simp: find_Some_iff)
  obtain j where j: "j < length (rank xs)" "y = rank xs ! j"
    using assms(2) by (metis in_set_conv_nth rank_set)
  have "i \<le> j" using before j assms(3) by (meson not_le_imp_less)
  then have "map key (rank xs) ! i \<le> map key (rank xs) ! j"
    using rank_sorted j(1) by (intro sorted_nth_mono) auto
  then show ?thesis using i j by simp
qed

lemma first_ranked_some: "find P (rank xs) = Some x \<Longrightarrow> x \<in> set xs \<and> P x"
  by (metis find_Some_iff nth_mem rank_set)

lemma first_ranked_none: "find P (rank xs) = None \<longleftrightarrow> (\<forall>x\<in>set xs. \<not> P x)"
  by (auto simp: find_None_iff)

lemma hd_ranked_best:
  assumes "xs \<noteq> []"
  shows "hd (rank xs) \<in> set xs" and "\<And>y. y \<in> set xs \<Longrightarrow> key (hd (rank xs)) \<le> key y"
proof -
  have r: "rank xs \<noteq> []" using assms by simp
  then show "hd (rank xs) \<in> set xs" using hd_in_set rank_set by blast
  show "key (hd (rank xs)) \<le> key y" if "y \<in> set xs" for y
    using first_ranked_best [of "\<lambda>_. True" xs "hd (rank xs)" y] that r
    by (cases "rank xs") auto
qed

text \<open>Among the elements with the least key, the one that came first is taken.\<close>

lemma first_ranked_earliest:
  assumes "find P (rank xs) = Some x"
  shows "find (\<lambda>y. P y \<and> key y = key x) xs = Some x"
proof -
  have f: "find (\<lambda>y. P y \<and> key y = key x) zs = find P (filter (\<lambda>y. key y = key x) zs)" for zs
    by (induction zs) auto
  have "find (\<lambda>y. P y \<and> key y = key x) zs = Some x" if "find P zs = Some x" for zs
    using that by (induction zs) (auto split: if_splits)
  then show ?thesis using assms by (metis f rank_stable)
qed

end

lemma stable_ranking_sort_key: "stable_ranking (sort_key f) f"
proof
  show "mset (sort_key f xs) = mset xs" for xs by simp
  show "sorted (map f (sort_key f xs))" for xs by simp
  show "filter (\<lambda>x. f x = k) (sort_key f xs) = filter (\<lambda>x. f x = k) xs" for k xs
    by (rule sort_key_stable)
qed

subsection \<open>Interface: a step system with an invariant\<close>

text \<open>
  A component that runs: initial states, steps, and a property the initial states have and every
  step keeps. Every reachable state then has it.
\<close>

locale step_system =
  fixes init :: "'s \<Rightarrow> bool"
    and step :: "'s \<Rightarrow> 's \<Rightarrow> bool"
    and good :: "'s \<Rightarrow> bool"
  assumes init_good: "init s \<Longrightarrow> good s"
    and step_good: "good s \<Longrightarrow> step s t \<Longrightarrow> good t"
begin

lemma steps_good: "step\<^sup>*\<^sup>* s t \<Longrightarrow> good s \<Longrightarrow> good t"
  by (induction rule: rtranclp_induct) (auto intro: step_good)

lemma reachable_good: "init s \<Longrightarrow> step\<^sup>*\<^sup>* s t \<Longrightarrow> good t"
  using steps_good init_good by blast

text \<open>A measure no step increases stays below its first value.\<close>

lemma steps_measure:
  assumes "step\<^sup>*\<^sup>* s t" and "good s" and "\<And>s t. good s \<Longrightarrow> step s t \<Longrightarrow> (f t :: nat) \<ge> f s"
  shows "f s \<le> f t"
  using assms
proof (induction rule: rtranclp_induct)
  case (step y z)
  then show ?case by (meson order_trans steps_good)
qed simp

end

end
