(* ===== verification/Protocol.thy ===== *)
theory Protocol
  imports Prelude
begin

section \<open>The Hub-Node protocol (\<^verbatim>\<open>uhorse-protocol\<close>)\<close>

text \<open>
  The data the Hub and its nodes exchange: identifiers, priorities, node capabilities and load
  (\<^verbatim>\<open>types.rs\<close>), commands with their target paths, durations and permissions (\<^verbatim>\<open>command.rs\<close>),
  results and errors (\<^verbatim>\<open>result.rs\<close>), and the messages of both directions (\<^verbatim>\<open>message.rs\<close>). A
  Rust enum is a datatype with the same constructors (with the enum's name in front where two
  enums share one), a struct is a record. A duration is a number of milliseconds.
\<close>

subsection \<open>Identifiers (\<^verbatim>\<open>types.rs\<close>)\<close>

datatype node_id = NodeId string
datatype task_id = TaskId string
datatype user_id = UserId string
datatype session_id = SessionId string
datatype message_id = MessageId string

fun node_id_as_str :: "node_id \<Rightarrow> string" where
  "node_id_as_str (NodeId s) = s"

fun task_id_as_str :: "task_id \<Rightarrow> string" where
  "task_id_as_str (TaskId s) = s"

fun user_id_as_str :: "user_id \<Rightarrow> string" where
  "user_id_as_str (UserId s) = s"

fun session_id_as_str :: "session_id \<Rightarrow> string" where
  "session_id_as_str (SessionId s) = s"

record skill_version =
  sv_major :: u32
  sv_minor :: u32
  sv_patch :: u32

definition skill_version_parse :: "string \<Rightarrow> skill_version option" where
  "skill_version_parse s =
     (case split_on (CHR ''.'') s of
        [a, b, c] \<Rightarrow>
          (case parse_u32 a of None \<Rightarrow> None | Some major \<Rightarrow>
            (case parse_u32 b of None \<Rightarrow> None | Some minor \<Rightarrow>
              (case parse_u32 c of None \<Rightarrow> None | Some patch \<Rightarrow>
                Some \<lparr>sv_major = major, sv_minor = minor, sv_patch = patch\<rparr>)))
      | _ \<Rightarrow> None)"

definition skill_version_display :: "skill_version \<Rightarrow> string" where
  "skill_version_display v =
     dec_string (unat (sv_major v)) @ ''.'' @ dec_string (unat (sv_minor v)) @ ''.''
       @ dec_string (unat (sv_patch v))"

subsection \<open>Priorities and status (\<^verbatim>\<open>types.rs\<close>)\<close>

datatype priority = Background | Low | Normal | High | Urgent | Critical

text \<open>From the lowest to the highest, as the variants are documented.\<close>

fun priority_rank :: "priority \<Rightarrow> nat" where
  "priority_rank Background = 0"
| "priority_rank Low = 1"
| "priority_rank Normal = 2"
| "priority_rank High = 3"
| "priority_rank Urgent = 4"
| "priority_rank Critical = 5"

lemma priority_rank_inject: "priority_rank p = priority_rank q \<Longrightarrow> p = q"
  by (cases p; cases q) simp_all

instantiation priority :: linorder
begin

definition less_eq_priority :: "priority \<Rightarrow> priority \<Rightarrow> bool" where
  "less_eq_priority p q = (priority_rank p \<le> priority_rank q)"

definition less_priority :: "priority \<Rightarrow> priority \<Rightarrow> bool" where
  "less_priority p q = (priority_rank p < priority_rank q)"

instance
  by standard (auto simp: less_eq_priority_def less_priority_def dest: priority_rank_inject)

end

fun priority_display :: "priority \<Rightarrow> string" where
  "priority_display Background = ''background''"
| "priority_display Low = ''low''"
| "priority_display Normal = ''normal''"
| "priority_display High = ''high''"
| "priority_display Urgent = ''urgent''"
| "priority_display Critical = ''critical''"

datatype task_status =
  Created | Queued | Assigned | Running | Completed | Failed | Cancelled | Timeout

fun task_status_display :: "task_status \<Rightarrow> string" where
  "task_status_display Created = ''created''"
| "task_status_display Queued = ''queued''"
| "task_status_display Assigned = ''assigned''"
| "task_status_display Running = ''running''"
| "task_status_display Completed = ''completed''"
| "task_status_display Failed = ''failed''"
| "task_status_display Cancelled = ''cancelled''"
| "task_status_display Timeout = ''timeout''"

datatype cmd_type =
  FileType | ShellType | CodeType | DatabaseType | ApiType | BrowserType | SkillType

text \<open>\<open>format!("{:?}", command_type).to_lowercase()\<close>.\<close>

fun command_type_name :: "cmd_type \<Rightarrow> string" where
  "command_type_name FileType = ''file''"
| "command_type_name ShellType = ''shell''"
| "command_type_name CodeType = ''code''"
| "command_type_name DatabaseType = ''database''"
| "command_type_name ApiType = ''api''"
| "command_type_name BrowserType = ''browser''"
| "command_type_name SkillType = ''skill''"

subsection \<open>Node capabilities, workspaces and load (\<^verbatim>\<open>types.rs\<close>)\<close>

record node_capabilities =
  nc_supported_commands :: "cmd_type list"
  nc_tags :: "string list"
  nc_max_concurrent_tasks :: nat
  nc_available_tools :: "string list"

definition node_capabilities_default :: node_capabilities where
  "node_capabilities_default =
     \<lparr>nc_supported_commands = [FileType, ShellType, CodeType], nc_tags = [''default''],
      nc_max_concurrent_tasks = 5, nc_available_tools = []\<rparr>"

definition capabilities_meets :: "node_capabilities \<Rightarrow> node_capabilities \<Rightarrow> bool" where
  "capabilities_meets c required =
     (if nc_max_concurrent_tasks c < nc_max_concurrent_tasks required then False
      else if \<not> list_all (\<lambda>cmd. cmd \<in> set (nc_supported_commands c)) (nc_supported_commands required)
      then False
      else list_all (\<lambda>tool. tool \<in> set (nc_available_tools c)) (nc_available_tools required))"

record workspace_info =
  wi_workspace_id :: "string option"
  wi_name :: string
  wi_path :: string
  wi_read_only :: bool
  wi_allowed_patterns :: "string list"
  wi_denied_patterns :: "string list"

record node_status =
  ns_node_id :: node_id
  ns_online :: bool
  ns_current_tasks :: nat
  ns_max_tasks :: nat
  ns_cpu_percent :: real
  ns_memory_mb :: u64
  ns_disk_gb :: real
  ns_network_latency_ms :: "u64 option"
  ns_last_heartbeat :: instant

record load_info =
  li_cpu_usage :: real
  li_memory_usage :: real
  li_task_count :: nat
  li_latency_ms :: "u64 option"

definition load_info_default :: load_info where
  "load_info_default =
     \<lparr>li_cpu_usage = 0, li_memory_usage = 0, li_task_count = 0, li_latency_ms = None\<rparr>"

text \<open>
  \<open>LoadInfo::score\<close>. The \<open>f32\<close> arithmetic rounds: \<open>rnd\<close> is the rounding the hardware applies
  after each operation and to each literal and cast; \<open>f32_rounding\<close> states what the proofs need
  of it. Infinities and NaN (a NaN compares as equal in the sorts) are outside the model.
\<close>

definition f32_rounding :: "(real \<Rightarrow> real) \<Rightarrow> bool" where
  "f32_rounding rnd \<longleftrightarrow> mono rnd \<and> rnd 0 = 0 \<and> rnd 1 = 1"

definition load_score :: "(real \<Rightarrow> real) \<Rightarrow> load_info \<Rightarrow> real" where
  "load_score rnd l =
     (let cpu_score = rnd (li_cpu_usage l * rnd 0.4);
          mem_score = rnd (li_memory_usage l * rnd 0.3);
          task_score = rnd (min (rnd (rnd (real (li_task_count l)) / 10)) 1 * rnd 0.2);
          latency_score =
            (case li_latency_ms l of
               None \<Rightarrow> 0
             | Some ms \<Rightarrow> min (rnd (rnd (real (unat ms)) / 1000)) (rnd 0.1))
      in min (rnd (rnd (rnd (cpu_score + mem_score) + task_score) + latency_score)) 1)"

record task_context =
  tc_user_id :: user_id
  tc_session_id :: session_id
  tc_channel :: string
  tc_execution_workspace_id :: "string option"
  tc_collaboration_workspace_id :: "string option"
  tc_intent :: "string option"
  tc_env :: "(string, string) hmap"
  tc_created_at :: instant

definition task_context_new :: "instant \<Rightarrow> user_id \<Rightarrow> session_id \<Rightarrow> string \<Rightarrow> task_context" where
  "task_context_new now u s channel =
     \<lparr>tc_user_id = u, tc_session_id = s, tc_channel = channel, tc_execution_workspace_id = None,
      tc_collaboration_workspace_id = None, tc_intent = None, tc_env = [], tc_created_at = now\<rparr>"

definition with_execution_workspace_id :: "task_context \<Rightarrow> string \<Rightarrow> task_context" where
  "with_execution_workspace_id c w = c\<lparr>tc_execution_workspace_id := Some w\<rparr>"

record execution_metrics =
  em_duration_ms :: u64
  em_cpu_time_ms :: u64
  em_peak_memory_mb :: u64
  em_bytes_read :: u64
  em_bytes_written :: u64
  em_network_requests :: u64

subsection \<open>Commands (\<^verbatim>\<open>command.rs\<close>)\<close>

datatype file_command =
    Read string "nat option" "nat option"
  | Write string string bool
  | Append string string
  | Delete string bool
  | ListDir string bool "string option"
  | Search string string bool "string option"
  | Copy string string bool
  | Move string string bool
  | Info string
  | CreateDir string bool
  | Exists string

fun target_path :: "file_command \<Rightarrow> string" where
  "target_path (Read path _ _) = path"
| "target_path (Write path _ _) = path"
| "target_path (Append path _) = path"
| "target_path (Delete path _) = path"
| "target_path (ListDir path _ _) = path"
| "target_path (Search _ path _ _) = path"
| "target_path (Copy src _ _) = src"
| "target_path (Move src _ _) = src"
| "target_path (Info path) = path"
| "target_path (CreateDir path _) = path"
| "target_path (Exists path) = path"

fun file_estimated_duration :: "file_command \<Rightarrow> nat" where
  "file_estimated_duration (Read _ _ _) = 100"
| "file_estimated_duration (Write _ _ _) = 100"
| "file_estimated_duration (Append _ _) = 50"
| "file_estimated_duration (Delete _ _) = 200"
| "file_estimated_duration (ListDir _ recursive _) = (if recursive then 5000 else 500)"
| "file_estimated_duration (Search _ _ _ _) = 10000"
| "file_estimated_duration (Copy _ _ _) = 2000"
| "file_estimated_duration (Move _ _ _) = 500"
| "file_estimated_duration (Info _) = 50"
| "file_estimated_duration (CreateDir _ _) = 50"
| "file_estimated_duration (Exists _) = 20"

fun file_required_permissions :: "file_command \<Rightarrow> string list" where
  "file_required_permissions (Read _ _ _) = [''file:read'']"
| "file_required_permissions (Write _ _ _) = [''file:write'']"
| "file_required_permissions (Append _ _) = [''file:write'']"
| "file_required_permissions (Delete _ _) = [''file:delete'']"
| "file_required_permissions (ListDir _ _ _) = [''file:read'']"
| "file_required_permissions (Search _ _ _ _) = [''file:read'']"
| "file_required_permissions (Copy _ _ _) = [''file:read'', ''file:write'']"
| "file_required_permissions (Move _ _ _) = [''file:read'', ''file:write'', ''file:delete'']"
| "file_required_permissions (Info _) = [''file:read'']"
| "file_required_permissions (CreateDir _ _) = [''file:write'']"
| "file_required_permissions (Exists _) = [''file:read'']"

record shell_command =
  sh_command :: string
  sh_args :: "string list"
  sh_cwd :: "string option"
  sh_env :: "(string, string) hmap"
  sh_timeout :: nat
  sh_capture_stderr :: bool

definition shell_command_new :: "string \<Rightarrow> shell_command" where
  "shell_command_new command =
     \<lparr>sh_command = command, sh_args = [], sh_cwd = None, sh_env = [], sh_timeout = 60000,
      sh_capture_stderr = True\<rparr>"

datatype code_language = Python | JavaScript | TypeScript | Rust | Go | ShellLang | Sql

record code_command =
  cc_language :: code_language
  cc_code :: string
  cc_entry_file :: "string option"
  cc_dependencies :: "string list"
  cc_timeout :: nat
  cc_env :: "(string, string) hmap"
  cc_workdir :: "string option"

definition code_command_new :: "code_language \<Rightarrow> string \<Rightarrow> code_command" where
  "code_command_new language code =
     \<lparr>cc_language = language, cc_code = code, cc_entry_file = None, cc_dependencies = [],
      cc_timeout = 60000, cc_env = [], cc_workdir = None\<rparr>"

datatype database_type = Postgres | Mysql | Sqlite | Mongodb | Redis

record database_command =
  db_type :: database_type
  db_connection_name :: "string option"
  db_connection_string :: "string option"
  db_query :: string
  db_params :: "json list"
  db_timeout :: nat
  db_limit :: "nat option"

datatype http_method = Get | Post | Put | DeleteMethod | Patch | Head

record api_command =
  api_method :: http_method
  api_url :: string
  api_headers :: "(string, string) hmap"
  api_query :: "(string, string) hmap"
  api_body :: "json option"
  api_timeout :: nat
  api_verify_ssl :: bool

datatype browser_command =
    OpenSystem string
  | Navigate string
  | Screenshot "string option" bool
  | Click string
  | TypeText string string
  | WaitFor string u64
  | GetText string
  | Evaluate string
  | ClosePage

fun browser_timeout :: "browser_command \<Rightarrow> nat" where
  "browser_timeout (OpenSystem _) = 10000"
| "browser_timeout (Navigate _) = 30000"
| "browser_timeout (Screenshot _ _) = 10000"
| "browser_timeout (Click _) = 5000"
| "browser_timeout (TypeText _ _) = 5000"
| "browser_timeout (WaitFor _ timeout_secs) = unat timeout_secs * 1000"
| "browser_timeout (GetText _) = 5000"
| "browser_timeout (Evaluate _) = 10000"
| "browser_timeout ClosePage = 5000"

record skill_command =
  sk_skill_name :: string
  sk_version :: "string option"
  sk_input :: json
  sk_timeout :: nat
  sk_options :: "(string, json) hmap"

datatype command =
    File file_command
  | Shell shell_command
  | Code code_command
  | Database database_command
  | Api api_command
  | Browser browser_command
  | Skill skill_command

fun command_type :: "command \<Rightarrow> cmd_type" where
  "command_type (File _) = FileType"
| "command_type (Shell _) = ShellType"
| "command_type (Code _) = CodeType"
| "command_type (Database _) = DatabaseType"
| "command_type (Api _) = ApiType"
| "command_type (Browser _) = BrowserType"
| "command_type (Skill _) = SkillType"

fun estimated_duration :: "command \<Rightarrow> nat" where
  "estimated_duration (File cmd) = file_estimated_duration cmd"
| "estimated_duration (Shell cmd) = sh_timeout cmd"
| "estimated_duration (Code cmd) = cc_timeout cmd"
| "estimated_duration (Database cmd) = db_timeout cmd"
| "estimated_duration (Api cmd) = api_timeout cmd"
| "estimated_duration (Browser cmd) = browser_timeout cmd"
| "estimated_duration (Skill cmd) = sk_timeout cmd"

fun required_permissions :: "command \<Rightarrow> string list" where
  "required_permissions (File cmd) = file_required_permissions cmd"
| "required_permissions (Shell _) = [''shell:execute'']"
| "required_permissions (Code _) = [''code:execute'']"
| "required_permissions (Database _) = [''database:query'']"
| "required_permissions (Api _) = [''api:call'']"
| "required_permissions (Browser _) = [''browser:operate'']"
| "required_permissions (Skill cmd) = [''skill:execute:'' @ sk_skill_name cmd]"

subsection \<open>Results (\<^verbatim>\<open>result.rs\<close>)\<close>

record resource_usage =
  ru_cpu_percent :: real
  ru_memory_mb :: u64
  ru_peak_memory_mb :: u64
  ru_disk_read_kb :: u64
  ru_disk_write_kb :: u64
  ru_network_sent_kb :: u64
  ru_network_recv_kb :: u64

definition resource_usage_default :: resource_usage where
  "resource_usage_default =
     \<lparr>ru_cpu_percent = 0, ru_memory_mb = 0, ru_peak_memory_mb = 0, ru_disk_read_kb = 0,
      ru_disk_write_kb = 0, ru_network_sent_kb = 0, ru_network_recv_kb = 0\<rparr>"

datatype browser_result =
    ResOpenSystem string
  | ResNavigate string "string option"
  | ResScreenshot string string u32 u32
  | ResGetText string
  | ResEvaluate json
  | ResOk
  | ResError string

record file_info =
  fi_path :: string
  fi_name :: string
  fi_is_dir :: bool
  fi_size :: u64
  fi_modified :: "instant option"
  fi_created :: "instant option"
  fi_mode :: "u32 option"
  fi_mime_type :: "string option"
  fi_extra :: "(string, json) hmap"

datatype command_output =
    OutText string
  | OutJson json
  | OutBinary string nat string
  | OutFileList "file_info list"
  | OutDatabase "string list" "json list list" "nat option"
  | OutApiResponse u16 "(string, string) hmap" "json option"
  | OutBrowser browser_result
  | OutSkill string json
  | OutNone

datatype error_source =
  SrcParser | SrcPermission | SrcValidation | SrcExecutor | SrcTimeout | SrcResource
| SrcExternal | SrcInternal

record execution_error =
  ee_code :: string
  ee_message :: string
  ee_details :: "json option"
  ee_source :: error_source
  ee_retryable :: bool
  ee_retry_after_ms :: "u64 option"

definition execution_error_new :: "string \<Rightarrow> string \<Rightarrow> error_source \<Rightarrow> execution_error" where
  "execution_error_new code message source =
     \<lparr>ee_code = code, ee_message = message, ee_details = None, ee_source = source,
      ee_retryable = False, ee_retry_after_ms = None\<rparr>"

definition with_retryable :: "execution_error \<Rightarrow> u64 \<Rightarrow> execution_error" where
  "with_retryable e ms = e\<lparr>ee_retryable := True, ee_retry_after_ms := Some ms\<rparr>"

definition execution_failed :: "string \<Rightarrow> execution_error" where
  "execution_failed message = execution_error_new ''EXECUTION_FAILED'' message SrcExecutor"

definition timeout_error :: "string \<Rightarrow> execution_error" where
  "timeout_error message = with_retryable (execution_error_new ''TIMEOUT'' message SrcTimeout) 1000"

definition permission_denied_error :: "string \<Rightarrow> execution_error" where
  "permission_denied_error message = execution_error_new ''PERMISSION_DENIED'' message SrcPermission"

record command_result =
  cr_success :: bool
  cr_output :: command_output
  cr_exit_code :: "int option"
  cr_duration_ms :: u64
  cr_resources :: resource_usage
  cr_error :: "execution_error option"
  cr_warnings :: "string list"
  cr_metadata :: "(string, json) hmap"

definition command_success :: "command_output \<Rightarrow> command_result" where
  "command_success output =
     \<lparr>cr_success = True, cr_output = output, cr_exit_code = Some 0, cr_duration_ms = 0,
      cr_resources = resource_usage_default, cr_error = None, cr_warnings = [], cr_metadata = []\<rparr>"

definition command_failure :: "execution_error \<Rightarrow> command_result" where
  "command_failure error =
     \<lparr>cr_success = False, cr_output = OutNone, cr_exit_code = Some 1, cr_duration_ms = 0,
      cr_resources = resource_usage_default, cr_error = Some error, cr_warnings = [],
      cr_metadata = []\<rparr>"

subsection \<open>Messages (\<^verbatim>\<open>message.rs\<close>)\<close>

datatype proto_resource_pattern =
    ProtoExact string
  | ProtoGlob string
  | ProtoRegex string
  | ProtoPrefix string

datatype proto_action =
  ProtoRead | ProtoWrite | ProtoDelete | ProtoExecute | ProtoList | ProtoAdmin

datatype proto_condition =
    ProtoTimeRange string string
  | ProtoIpWhitelist "string list"
  | ProtoUserRestriction "string list"
  | ProtoSizeLimit u64

record proto_permission_rule =
  pp_id :: string
  pp_name :: string
  pp_resource :: proto_resource_pattern
  pp_actions :: "proto_action list"
  pp_conditions :: "proto_condition list"
  pp_require_approval :: bool
  pp_enabled :: bool

record proto_node_error =
  pe_code :: string
  pe_message :: string
  pe_details :: "json option"
  pe_retryable :: bool
  pe_stack_trace :: "string option"

datatype notification_event_kind = KindTest | KindInfo | KindWarn | KindError

record notification_event =
  ev_event_id :: string
  ev_kind :: notification_event_kind
  ev_title :: string
  ev_body :: string
  ev_details_included :: bool
  ev_timestamp :: instant
  ev_dedupe_key :: "string option"

datatype skill_status = SkillActive | SkillDisabled | SkillError string

record installed_skill =
  is_name :: string
  is_version :: string
  is_installed_at :: instant
  is_status :: skill_status

datatype hub_to_node =
    TaskAssignment message_id task_id command priority "instant option" task_context u32 u32
  | TaskCancellation message_id task_id string
  | HeartbeatRequest message_id instant
  | ConfigUpdate message_id json
  | PermissionUpdate message_id "proto_permission_rule list"
  | SkillDeploy message_id string string string "u8 list option"
  | SkillRemove message_id string
  | ApprovalResponse message_id string bool string "string option" instant
  | Disconnect message_id string bool

fun hub_message_id :: "hub_to_node \<Rightarrow> message_id" where
  "hub_message_id (TaskAssignment message_id _ _ _ _ _ _ _) = message_id"
| "hub_message_id (TaskCancellation message_id _ _) = message_id"
| "hub_message_id (HeartbeatRequest message_id _) = message_id"
| "hub_message_id (ConfigUpdate message_id _) = message_id"
| "hub_message_id (PermissionUpdate message_id _) = message_id"
| "hub_message_id (SkillDeploy message_id _ _ _ _) = message_id"
| "hub_message_id (SkillRemove message_id _) = message_id"
| "hub_message_id (ApprovalResponse message_id _ _ _ _ _) = message_id"
| "hub_message_id (Disconnect message_id _ _) = message_id"

datatype node_to_hub =
    Register message_id node_id string node_capabilities workspace_info string instant
  | Heartbeat message_id node_id node_status load_info instant
  | TaskResultMsg message_id task_id command_result execution_metrics
  | TaskProgress message_id task_id real string instant
  | ErrorMsg message_id "task_id option" proto_node_error instant
  | ApprovalRequestMsg message_id string task_id command task_context string instant instant
  | Unregister message_id node_id string
  | SkillReport message_id node_id "installed_skill list"
  | NotificationEventMsg message_id node_id notification_event

fun node_message_type :: "node_to_hub \<Rightarrow> string" where
  "node_message_type (Register _ _ _ _ _ _ _) = ''register''"
| "node_message_type (Heartbeat _ _ _ _ _) = ''heartbeat''"
| "node_message_type (TaskResultMsg _ _ _ _) = ''task_result''"
| "node_message_type (TaskProgress _ _ _ _ _) = ''task_progress''"
| "node_message_type (ErrorMsg _ _ _ _) = ''error''"
| "node_message_type (ApprovalRequestMsg _ _ _ _ _ _ _ _) = ''approval_request''"
| "node_message_type (Unregister _ _ _) = ''unregister''"
| "node_message_type (SkillReport _ _ _) = ''skill_report''"
| "node_message_type (NotificationEventMsg _ _ _) = ''notification_event''"

fun node_message_node_id :: "node_to_hub \<Rightarrow> node_id option" where
  "node_message_node_id (Register _ node_id _ _ _ _ _) = Some node_id"
| "node_message_node_id (Heartbeat _ node_id _ _ _) = Some node_id"
| "node_message_node_id (Unregister _ node_id _) = Some node_id"
| "node_message_node_id (SkillReport _ node_id _) = Some node_id"
| "node_message_node_id (NotificationEventMsg _ node_id _) = Some node_id"
| "node_message_node_id _ = None"

subsection \<open>Facts\<close>

lemma dot_not_digit: "CHR ''.'' \<notin> set (dec_string n)"
  using dec_string_digits [of "CHR ''.''" n] by (auto simp: is_digit_char_def)

lemma skill_version_split:
  "split_on (CHR ''.'') (skill_version_display v) =
     [dec_string (unat (sv_major v)), dec_string (unat (sv_minor v)), dec_string (unat (sv_patch v))]"
  by (simp add: skill_version_display_def split_on_append split_on_no_sep dot_not_digit)

text \<open>
  Parsing the displayed form of a skill version gives the version back
  (\<open>SkillVersion::parse\<close> after \<open>Display\<close>), for every major, minor and patch number of 32 bits.
\<close>

theorem skill_version_roundtrip: "skill_version_parse (skill_version_display v) = Some v"
  by (simp add: skill_version_parse_def skill_version_split)

lemma capabilities_meets_iff:
  "capabilities_meets c r \<longleftrightarrow>
     nc_max_concurrent_tasks r \<le> nc_max_concurrent_tasks c \<and>
     set (nc_supported_commands r) \<subseteq> set (nc_supported_commands c) \<and>
     set (nc_available_tools r) \<subseteq> set (nc_available_tools c)"
  by (auto simp: capabilities_meets_def list_all_iff)

lemma capabilities_meets_trans:
  "capabilities_meets a b \<Longrightarrow> capabilities_meets b c \<Longrightarrow> capabilities_meets a c"
  by (auto simp: capabilities_meets_iff)

lemma f32_roundingD:
  assumes "f32_rounding rnd"
  shows "0 \<le> x \<Longrightarrow> 0 \<le> rnd x" and "x \<le> y \<Longrightarrow> rnd x \<le> rnd y"
  using assms by (metis f32_rounding_def monoD)+

lemma load_score_le_1: "load_score rnd l \<le> 1"
  by (simp add: load_score_def Let_def)

lemma load_score_nonneg:
  assumes r: "f32_rounding rnd" and "0 \<le> li_cpu_usage l" and "0 \<le> li_memory_usage l"
  shows "0 \<le> load_score rnd l"
proof -
  note n = f32_roundingD(1) [OF r]
  have cpu: "0 \<le> rnd (li_cpu_usage l * rnd 0.4)" and mem: "0 \<le> rnd (li_memory_usage l * rnd 0.3)"
    using assms n by (auto intro!: n mult_nonneg_nonneg)
  have task: "0 \<le> rnd (min (rnd (rnd (real (li_task_count l)) / 10)) 1 * rnd 0.2)"
    by (intro n mult_nonneg_nonneg min.boundedI divide_nonneg_nonneg) auto
  have lat: "0 \<le> min (rnd (rnd (real k) / 1000)) (rnd 0.1)" for k
    by (intro n min.boundedI divide_nonneg_nonneg) auto
  have latency: "0 \<le> (case li_latency_ms l of None \<Rightarrow> 0
      | Some ms \<Rightarrow> min (rnd (rnd (real (unat ms)) / 1000)) (rnd 0.1))"
    using lat [of "unat (the (li_latency_ms l))"] by (cases "li_latency_ms l") auto
  show ?thesis
    unfolding load_score_def Let_def
    by (intro min.boundedI n add_nonneg_nonneg cpu mem task latency) simp
qed

end
