(* ===== verification/Paths.thy ===== *)
theory Paths
  imports Prelude
begin

section \<open>Paths and the file system\<close>

text \<open>
  The part of \<^verbatim>\<open>std::path\<close> the sources use, on Unix: a path is the list of its components, as
  \<open>Path::components\<close> yields them (repeated separators and inner \<open>.\<close> components are gone), and
  paths are compared, prefixed, joined and popped by components. The file system is a parameter:
  a record with the answers of \<open>exists\<close>, \<open>is_dir\<close> and \<open>canonicalize\<close>; \<open>fs_canonical\<close> is the
  documented promise of \<open>canonicalize\<close>, that its result is absolute and has only normal
  components. The resolution of a path whose tail need not exist, which the Hub
  (\<^verbatim>\<open>node_manager.rs\<close>) and the node (\<^verbatim>\<open>workspace.rs\<close>) both contain, is built from the helpers here.
\<close>

datatype component = RootDir | CurDir | ParentDir | NormalComp string

type_synonym path = "component list"

definition path_segments :: "string \<Rightarrow> string list" where
  "path_segments s = filter (\<lambda>p. p \<noteq> []) (split_on (CHR ''/'') s)"

definition segment_component :: "string \<Rightarrow> component" where
  "segment_component s =
     (if s = ''.'' then CurDir else if s = ''..'' then ParentDir else NormalComp s)"

definition path_of_string :: "string \<Rightarrow> path" where
  "path_of_string s =
     (if starts_with s ''/''
      then RootDir # map segment_component (filter (\<lambda>p. p \<noteq> ''.'') (path_segments s))
      else (case path_segments s of
              [] \<Rightarrow> []
            | p # ps \<Rightarrow> segment_component p
                # map segment_component (filter (\<lambda>p. p \<noteq> ''.'') ps)))"

fun component_string :: "component \<Rightarrow> string" where
  "component_string RootDir = []"
| "component_string CurDir = ''.''"
| "component_string ParentDir = ''..''"
| "component_string (NormalComp s) = s"

definition path_to_string :: "path \<Rightarrow> string" where
  "path_to_string p = (if p = [RootDir] then ''/'' else join_with ''/'' (map component_string p))"

definition is_absolute :: "path \<Rightarrow> bool" where
  "is_absolute p = (case p of RootDir # _ \<Rightarrow> True | _ \<Rightarrow> False)"

definition path_parent :: "path \<Rightarrow> path option" where
  "path_parent p = (if p = [] \<or> last p = RootDir then None else Some (butlast p))"

definition path_pop :: "path \<Rightarrow> path" where
  "path_pop p = (case path_parent p of None \<Rightarrow> p | Some q \<Rightarrow> q)"

definition path_join :: "path \<Rightarrow> path \<Rightarrow> path" where
  "path_join p q =
     (if is_absolute q then q else if p = [] then q else p @ filter (\<lambda>c. c \<noteq> CurDir) q)"

abbreviation path_starts_with :: "path \<Rightarrow> path \<Rightarrow> bool" where
  "path_starts_with p base \<equiv> prefix base p"

definition strip_prefix :: "path \<Rightarrow> path \<Rightarrow> path option" where
  "strip_prefix p base = (if path_starts_with p base then Some (drop (length base) p) else None)"

subsection \<open>The file system\<close>

record filesystem =
  fs_exists :: "path \<Rightarrow> bool"
  fs_is_dir :: "path \<Rightarrow> bool"
  fs_canonicalize :: "path \<Rightarrow> path option"

definition valid_name :: "string \<Rightarrow> bool" where
  "valid_name s = (s \<noteq> [] \<and> CHR ''/'' \<notin> set s \<and> s \<noteq> ''.'' \<and> s \<noteq> ''..'')"

fun valid_component :: "component \<Rightarrow> bool" where
  "valid_component (NormalComp s) = valid_name s"
| "valid_component _ = True"

definition wf_path :: "path \<Rightarrow> bool" where
  "wf_path p = list_all valid_component p"

fun is_normal :: "component \<Rightarrow> bool" where
  "is_normal (NormalComp s) = valid_name s"
| "is_normal _ = False"

definition canonical :: "path \<Rightarrow> bool" where
  "canonical p = (case p of RootDir # cs \<Rightarrow> list_all is_normal cs | _ \<Rightarrow> False)"

definition fs_canonical :: "filesystem \<Rightarrow> bool" where
  "fs_canonical fs \<longleftrightarrow> (\<forall>p q. fs_canonicalize fs p = Some q \<longrightarrow> canonical q)"

subsection \<open>Resolving a path whose tail need not exist\<close>

text \<open>The loop over the ancestors, up to the first that exists.\<close>

function existing_ancestor :: "filesystem \<Rightarrow> path \<Rightarrow> path option" where
  "existing_ancestor fs p =
     (if fs_exists fs p then Some p
      else case path_parent p of None \<Rightarrow> None | Some q \<Rightarrow> existing_ancestor fs q)"
  by pat_completeness auto
termination
  by (relation "measure (\<lambda>(fs, p). length p)") (auto simp: path_parent_def split: if_splits)

declare existing_ancestor.simps [simp del]

text \<open>The loop over the components of the remainder.\<close>

fun push_component :: "path \<Rightarrow> component \<Rightarrow> path" where
  "push_component p CurDir = p"
| "push_component p (NormalComp part) = p @ [NormalComp part]"
| "push_component p ParentDir = path_pop p"
| "push_component p RootDir = p"

definition push_components :: "path \<Rightarrow> path \<Rightarrow> path" where
  "push_components p rest = foldl push_component p rest"

subsection \<open>Facts about paths\<close>

lemma path_segments_valid: "p \<in> set (path_segments s) \<Longrightarrow> p \<noteq> [] \<and> CHR ''/'' \<notin> set p"
  by (auto simp: path_segments_def split_on_no_sep_parts)

lemma segment_component_valid:
  "p \<in> set (path_segments s) \<Longrightarrow> valid_component (segment_component p)"
  by (auto simp: segment_component_def valid_name_def dest: path_segments_valid)

lemma wf_path_of_string [simp]: "wf_path (path_of_string s)"
proof -
  have "wf_path (map segment_component (filter P ps))" if "set ps \<subseteq> set (path_segments s)" for P ps
    using that segment_component_valid by (auto simp: wf_path_def list_all_iff)
  then show ?thesis
    using segment_component_valid [of "hd (path_segments s)" s]
    by (cases "path_segments s") (auto simp: path_of_string_def wf_path_def)
qed

lemma wf_path_append [simp]: "wf_path (p @ q) \<longleftrightarrow> wf_path p \<and> wf_path q"
  by (simp add: wf_path_def)

lemma is_normal_valid: "is_normal c \<Longrightarrow> valid_component c"
  by (cases c) auto

lemma canonical_wf: "canonical p \<Longrightarrow> wf_path p"
  by (auto simp: canonical_def wf_path_def list_all_iff is_normal_valid
      split: list.splits component.splits)

lemma canonical_absolute: "canonical p \<Longrightarrow> is_absolute p"
  by (auto simp: canonical_def is_absolute_def split: list.splits component.splits)

lemma canonical_Cons: "canonical p \<longleftrightarrow> (\<exists>cs. p = RootDir # cs \<and> list_all is_normal cs)"
  by (auto simp: canonical_def split: list.splits component.splits)

lemma canonical_no_dots: "canonical p \<Longrightarrow> ParentDir \<notin> set p \<and> CurDir \<notin> set p"
  by (force simp: canonical_Cons list_all_iff)

lemma canonical_pop: "canonical p \<Longrightarrow> canonical (path_pop p)"
proof -
  assume "canonical p"
  then obtain cs where cs: "p = RootDir # cs" "list_all is_normal cs" by (auto simp: canonical_Cons)
  show ?thesis
  proof (cases "cs = []")
    case True
    then show ?thesis using \<open>canonical p\<close> cs by (simp add: path_pop_def path_parent_def)
  next
    case False
    then have "is_normal (last cs)" using cs(2) by (simp add: list_all_iff)
    then have "path_pop p = RootDir # butlast cs"
      using cs False by (auto simp: path_pop_def path_parent_def)
    moreover have "list_all is_normal (butlast cs)"
      using cs(2) by (auto simp: list_all_iff dest: in_set_butlastD)
    ultimately show ?thesis by (simp add: canonical_Cons)
  qed
qed

lemma canonical_push_component:
  "canonical p \<Longrightarrow> valid_component c \<Longrightarrow> canonical (push_component p c)"
  by (cases c) (auto simp: canonical_pop, auto simp: canonical_Cons)

lemma canonical_push_components:
  "canonical p \<Longrightarrow> wf_path rest \<Longrightarrow> canonical (push_components p rest)"
  by (induction rest arbitrary: p)
     (auto simp: push_components_def wf_path_def canonical_push_component)

lemma existing_ancestor_sound:
  "existing_ancestor fs p = Some a \<Longrightarrow> path_starts_with p a \<and> fs_exists fs a"
proof (induction fs p rule: existing_ancestor.induct)
  case (1 fs p)
  show ?case
  proof (cases "fs_exists fs p")
    case True
    then show ?thesis using "1.prems" by (simp add: existing_ancestor.simps [of fs p])
  next
    case False
    then obtain q where q: "path_parent p = Some q" "existing_ancestor fs q = Some a"
      using "1.prems" by (auto simp: existing_ancestor.simps [of fs p] split: option.splits)
    then have "path_starts_with q a \<and> fs_exists fs a" using "1.IH" False by blast
    moreover have "path_starts_with p q"
      using q(1) by (auto simp: path_parent_def prefixeq_butlast split: if_splits)
    ultimately show ?thesis by (meson prefix_order.trans)
  qed
qed

text \<open>The longest existing ancestor is found: every longer one that was tried does not exist.\<close>

lemma existing_ancestor_longest:
  assumes "existing_ancestor fs p = Some a" and "path_starts_with p b" and "path_starts_with b a"
    and "fs_exists fs b"
  shows "b = a"
  using assms
proof (induction fs p rule: existing_ancestor.induct)
  case (1 fs p)
  show ?case
  proof (cases "fs_exists fs p")
    case True
    then have "a = p" using "1.prems"(1) by (simp add: existing_ancestor.simps [of fs p])
    then show ?thesis using "1.prems"(2,3) by (auto intro: prefix_order.antisym)
  next
    case False
    then obtain q where q: "path_parent p = Some q" "existing_ancestor fs q = Some a"
      using "1.prems"(1) by (auto simp: existing_ancestor.simps [of fs p] split: option.splits)
    have "b \<noteq> p" using False "1.prems"(4) by auto
    moreover have "p \<noteq> []" "q = butlast p" using q(1) by (auto simp: path_parent_def split: if_splits)
    ultimately have "path_starts_with q b"
      using "1.prems"(2) by (metis append_butlast_last_id prefix_snoc)
    then show ?thesis using "1.IH" False q "1.prems" by blast
  qed
qed

lemma existing_ancestor_absolute:
  assumes "is_absolute p" and "fs_exists fs [RootDir]" and "RootDir \<notin> set (tl p)"
  shows "\<exists>a. existing_ancestor fs p = Some a"
  using assms
proof (induction fs p rule: existing_ancestor.induct)
  case (1 fs p)
  obtain cs where p: "p = RootDir # cs"
    using "1.prems"(1) by (auto simp: is_absolute_def split: list.splits component.splits)
  show ?case
  proof (cases "fs_exists fs p")
    case True
    then show ?thesis by (simp add: existing_ancestor.simps [of fs p])
  next
    case False
    then have "cs \<noteq> []" using "1.prems"(2) p by auto
    moreover from this have "last cs \<noteq> RootDir"
      using "1.prems"(3) p by (metis last_in_set list.sel(3))
    ultimately have parent: "path_parent p = Some (RootDir # butlast cs)"
      using p by (simp add: path_parent_def)
    have "\<exists>a. existing_ancestor fs (RootDir # butlast cs) = Some a"
      using "1.IH" [OF False parent] "1.prems" p
      by (auto simp: is_absolute_def dest: in_set_butlastD)
    then show ?thesis using False parent by (simp add: existing_ancestor.simps [of fs p])
  qed
qed

lemma strip_prefix_ancestor:
  "existing_ancestor fs p = Some a \<Longrightarrow> strip_prefix p a = Some (drop (length a) p)"
  using existing_ancestor_sound by (simp add: strip_prefix_def)

lemma wf_path_drop: "wf_path p \<Longrightarrow> wf_path (drop n p)"
  by (auto simp: wf_path_def list_all_iff dest: in_set_dropD)

subsection \<open>Printing and parsing of canonical paths\<close>

lemma path_segments_join:
  assumes "list_all valid_name ns" and "ns \<noteq> []"
  shows "path_segments (join_with ''/'' ([] # ns)) = ns"
proof -
  have "split_on (CHR ''/'') (join_with ''/'' ([] # ns)) = [] # ns"
    using assms by (intro split_on_join) (auto simp: list_all_iff valid_name_def)
  moreover have "filter (\<lambda>p. p \<noteq> []) ns = ns"
    using assms by (auto simp: list_all_iff valid_name_def filter_id_conv)
  ultimately show ?thesis by (simp add: path_segments_def)
qed

lemma is_normal_names: "list_all is_normal cs \<Longrightarrow> \<exists>ns. cs = map NormalComp ns \<and> list_all valid_name ns"
proof (induction cs)
  case (Cons c cs)
  then obtain ns n where "cs = map NormalComp ns" "list_all valid_name ns" "c = NormalComp n" "valid_name n"
    by (cases c) auto
  then show ?case by (intro exI [of _ "n # ns"]) simp
qed simp

lemma path_string_roundtrip:
  assumes "canonical p"
  shows "path_of_string (path_to_string p) = p"
proof -
  obtain ns where ns: "p = RootDir # map NormalComp ns" "list_all valid_name ns"
    using assms is_normal_names by (auto simp: canonical_Cons)
  show ?thesis
  proof (cases "ns = []")
    case True
    then show ?thesis
      using ns by (simp add: path_to_string_def path_of_string_def path_segments_def)
  next
    case False
    have str: "path_to_string p = join_with ''/'' ([] # ns)"
      using ns False by (simp add: path_to_string_def comp_def)
    obtain n ns' where "ns = n # ns'" using False by (cases ns) auto
    then have "starts_with (path_to_string p) ''/''" by (simp add: str)
    moreover have "filter (\<lambda>p. p \<noteq> ''.'') ns = ns"
      using ns(2) by (auto simp: filter_id_conv list_all_iff valid_name_def)
    moreover have "map segment_component ns = map NormalComp ns"
      using ns(2) by (auto simp: segment_component_def list_all_iff valid_name_def)
    moreover have "path_segments (path_to_string p) = ns"
      using path_segments_join [OF ns(2) False] by (simp add: str)
    ultimately show ?thesis
      using ns(1) by (simp add: path_of_string_def)
  qed
qed

end
