(* ===== verification/Node_Manager.thy ===== *)
theory Node_Manager
  imports Protocol Paths
begin

section \<open>The node manager (\<^verbatim>\<open>uhorse-hub/src/node_manager.rs\<close>)\<close>

text \<open>
  The Hub's registry of connected nodes: the map of registered nodes, the index from execution
  workspace to node, the heartbeat timeout and the node limit. The model has every operation of
  the source, the matching of workspace hints, and the sending of a message to a node. The
  invariant \<open>nm_inv\<close> relates the two maps and bounds the number of nodes; every operation keeps
  it, and so does a change of the iteration order of the hash maps.
\<close>

subsection \<open>Errors, environment and channels\<close>

datatype hub_error =
    NodeNotFound node_id
  | NodeLimitReached
  | NodeErr string
  | TaskErr string
  | ScheduleErr string
  | CommunicationErr string
  | TimeoutErr string
  | PermissionErr string
  | ConfigErr string
  | InternalErr string
  | NotImplementedErr string

text \<open>The environment of the Hub: the file system and the rounding of \<open>f32\<close> arithmetic.\<close>

record env =
  env_fs :: filesystem
  env_f32 :: "real \<Rightarrow> real"

text \<open>
  The sending half of a tokio channel to a node: whether the receiver is still there, and what
  was sent. A send fails exactly when the receiver is gone; waiting for room in a full channel
  takes no time in the model.
\<close>

record sender =
  tx_open :: bool
  tx_sent :: "hub_to_node list"

definition mpsc_send :: "hub_to_node \<Rightarrow> sender \<Rightarrow> sender option" where
  "mpsc_send msg tx = (if tx_open tx then Some (tx\<lparr>tx_sent := tx_sent tx @ [msg]\<rparr>) else None)"

type_synonym senders = "(node_id, sender) hmap"

subsection \<open>State\<close>

datatype node_state = Online | Offline | Busy | Maintenance

record node_info =
  ni_node_id :: node_id
  ni_name :: string
  ni_state :: node_state
  ni_capabilities :: node_capabilities
  ni_workspace :: workspace_info
  ni_tags :: "string list"
  ni_last_heartbeat :: instant
  ni_load :: load_info
  ni_registered_at :: instant
  ni_current_tasks :: nat
  ni_completed_tasks :: u64
  ni_failed_tasks :: u64

record node_manager_stats =
  nms_total_nodes :: nat
  nms_online_nodes :: nat
  nms_offline_nodes :: nat
  nms_busy_nodes :: nat

record node_manager =
  nm_nodes :: "(node_id, node_info) hmap"
  nm_workspace_index :: "(string, node_id) hmap"
  nm_heartbeat_timeout_secs :: u64
  nm_max_nodes :: nat

definition node_manager_new :: "nat \<Rightarrow> u64 \<Rightarrow> node_manager" where
  "node_manager_new max_nodes heartbeat_timeout_secs =
     \<lparr>nm_nodes = [], nm_workspace_index = [],
      nm_heartbeat_timeout_secs = heartbeat_timeout_secs, nm_max_nodes = max_nodes\<rparr>"

subsection \<open>Workspace hints\<close>

definition canonicalize_existing_aware :: "filesystem \<Rightarrow> path \<Rightarrow> path option" where
  "canonicalize_existing_aware fs p =
     (case existing_ancestor fs p of
        None \<Rightarrow> None
      | Some ancestor \<Rightarrow>
          (case fs_canonicalize fs ancestor of
             None \<Rightarrow> None
           | Some normalized \<Rightarrow>
               (case strip_prefix p ancestor of
                  None \<Rightarrow> None
                | Some remainder \<Rightarrow> Some (push_components normalized remainder))))"

fun hint_component :: "path \<Rightarrow> component \<Rightarrow> path" where
  "hint_component p CurDir = p"
| "hint_component p (NormalComp part) = p @ [NormalComp part]"
| "hint_component p RootDir = [RootDir]"
| "hint_component p ParentDir = p @ [ParentDir]"

definition normalize_workspace_hint_path :: "filesystem \<Rightarrow> string \<Rightarrow> path" where
  "normalize_workspace_hint_path fs s =
     (let candidate = path_of_string s;
          normalized = foldl hint_component [] candidate;
          lexical = (if normalized = [] then [CurDir] else normalized)
      in if is_absolute candidate
         then (case canonicalize_existing_aware fs candidate of Some n \<Rightarrow> n | None \<Rightarrow> lexical)
         else lexical)"

definition workspace_matches_hint :: "filesystem \<Rightarrow> string \<Rightarrow> string \<Rightarrow> bool" where
  "workspace_matches_hint fs workspace_path hint =
     (let workspace = normalize_workspace_hint_path fs workspace_path;
          hint = normalize_workspace_hint_path fs hint
      in workspace = hint \<or> path_starts_with workspace hint)"

definition derive_workspace_id :: "node_id \<Rightarrow> string \<Rightarrow> string" where
  "derive_workspace_id n workspace_name = ''exec:'' @ node_id_as_str n @ '':'' @ workspace_name"

subsection \<open>Registration and heartbeats\<close>

definition register_node ::
  "instant \<Rightarrow> node_id \<Rightarrow> string \<Rightarrow> node_capabilities \<Rightarrow> workspace_info \<Rightarrow> string list \<Rightarrow>
   node_manager \<Rightarrow> hub_error + node_manager" where
  "register_node now n name capabilities workspace0 tags m =
     (if nm_max_nodes m \<le> length (nm_nodes m) \<and> \<not> hm_contains (nm_nodes m) n
      then Inl NodeLimitReached
      else
        let workspace =
              (if wi_workspace_id workspace0 = None
               then workspace0\<lparr>wi_workspace_id := Some (derive_workspace_id n (wi_name workspace0))\<rparr>
               else workspace0);
            index1 =
              (case hm_get (nm_nodes m) n of
                 None \<Rightarrow> nm_workspace_index m
               | Some previous \<Rightarrow>
                   (case wi_workspace_id (ni_workspace previous) of
                      None \<Rightarrow> nm_workspace_index m
                    | Some w \<Rightarrow> hm_remove w (nm_workspace_index m)));
            info = \<lparr>ni_node_id = n, ni_name = name, ni_state = Online,
                    ni_capabilities = capabilities, ni_workspace = workspace, ni_tags = tags,
                    ni_last_heartbeat = now, ni_load = load_info_default,
                    ni_registered_at = now, ni_current_tasks = 0, ni_completed_tasks = 0,
                    ni_failed_tasks = 0\<rparr>;
            index2 =
              (case wi_workspace_id (ni_workspace info) of
                 None \<Rightarrow> index1
               | Some w \<Rightarrow> hm_insert w n index1)
        in Inr (m\<lparr>nm_nodes := hm_insert n info (nm_nodes m), nm_workspace_index := index2\<rparr>))"

definition unregister_node :: "node_id \<Rightarrow> node_manager \<Rightarrow> hub_error + node_manager" where
  "unregister_node n m =
     (case hm_get (nm_nodes m) n of
        None \<Rightarrow> Inl (NodeNotFound n)
      | Some node \<Rightarrow>
          Inr (m\<lparr>nm_nodes := hm_remove n (nm_nodes m),
                 nm_workspace_index :=
                   (case wi_workspace_id (ni_workspace node) of
                      None \<Rightarrow> nm_workspace_index m
                    | Some w \<Rightarrow> hm_remove w (nm_workspace_index m))\<rparr>))"

definition heartbeat_info :: "instant \<Rightarrow> node_status \<Rightarrow> load_info \<Rightarrow> node_info \<Rightarrow> node_info" where
  "heartbeat_info now status load info =
     info\<lparr>ni_last_heartbeat := now, ni_load := load,
          ni_state :=
            (if nc_max_concurrent_tasks (ni_capabilities info) \<le> ns_current_tasks status
             then Busy else Online),
          ni_current_tasks := ns_current_tasks status\<rparr>"

definition update_heartbeat ::
  "instant \<Rightarrow> node_id \<Rightarrow> node_status \<Rightarrow> load_info \<Rightarrow> node_manager \<Rightarrow> hub_error + node_manager" where
  "update_heartbeat now n status load m =
     (case hm_get (nm_nodes m) n of
        None \<Rightarrow> Inl (NodeNotFound n)
      | Some info \<Rightarrow>
          Inr (m\<lparr>nm_nodes := hm_insert n (heartbeat_info now status load info) (nm_nodes m)\<rparr>))"

subsection \<open>Queries\<close>

definition get_node :: "node_manager \<Rightarrow> node_id \<Rightarrow> node_info option" where
  "get_node m n = hm_get (nm_nodes m) n"

definition get_online_nodes :: "node_manager \<Rightarrow> node_info list" where
  "get_online_nodes m = filter (\<lambda>i. ni_state i = Online) (hm_values (nm_nodes m))"

definition get_all_nodes :: "node_manager \<Rightarrow> node_info list" where
  "get_all_nodes m = hm_values (nm_nodes m)"

definition get_node_by_workspace_id :: "node_manager \<Rightarrow> string \<Rightarrow> node_info option" where
  "get_node_by_workspace_id m w =
     (case hm_get (nm_workspace_index m) w of None \<Rightarrow> None | Some n \<Rightarrow> get_node m n)"

definition node_load :: "(real \<Rightarrow> real) \<Rightarrow> node_info \<Rightarrow> real" where
  "node_load rnd i = load_score rnd (ni_load i)"

definition rank_by_load :: "(real \<Rightarrow> real) \<Rightarrow> node_info list \<Rightarrow> node_info list" where
  "rank_by_load rnd = sort_key (node_load rnd)"

definition select_eligible ::
  "filesystem \<Rightarrow> node_capabilities option \<Rightarrow> string list \<Rightarrow> string option \<Rightarrow> node_info \<Rightarrow> bool" where
  "select_eligible fs required tags workspace_hint i =
     (if ni_state i \<noteq> Online then False
      else if (case required of None \<Rightarrow> False | Some r \<Rightarrow> \<not> capabilities_meets (ni_capabilities i) r)
      then False
      else if tags \<noteq> [] \<and> \<not> list_ex (\<lambda>t. t \<in> set (ni_tags i)) tags then False
      else (case workspace_hint of
              None \<Rightarrow> True
            | Some hint \<Rightarrow> workspace_matches_hint fs (wi_path (ni_workspace i)) hint))"

definition select_node ::
  "env \<Rightarrow> node_capabilities option \<Rightarrow> string list \<Rightarrow> string option \<Rightarrow> node_manager \<Rightarrow>
   node_info option" where
  "select_node e required tags workspace_hint m =
     (let candidates = filter (select_eligible (env_fs e) required tags workspace_hint)
                         (hm_values (nm_nodes m))
      in if candidates = [] then None
         else (case rank_by_load (env_f32 e) candidates of [] \<Rightarrow> None | i # _ \<Rightarrow> Some i))"

definition node_timed_out :: "instant \<Rightarrow> u64 \<Rightarrow> node_info \<Rightarrow> bool" where
  "node_timed_out now timeout_secs i = (duration_seconds timeout_secs < now - ni_last_heartbeat i)"

definition check_node_timeouts :: "instant \<Rightarrow> node_manager \<Rightarrow> node_manager \<times> node_id list" where
  "check_node_timeouts now m =
     (let late = node_timed_out now (nm_heartbeat_timeout_secs m)
      in (m\<lparr>nm_nodes := hm_map (\<lambda>_ i. if late i then i\<lparr>ni_state := Offline\<rparr> else i) (nm_nodes m)\<rparr>,
          map fst (filter (\<lambda>(_, i). late i) (nm_nodes m))))"

definition send_to_node :: "node_id \<Rightarrow> hub_to_node \<Rightarrow> sender \<Rightarrow> hub_error + sender" where
  "send_to_node n msg tx =
     (case mpsc_send msg tx of
        None \<Rightarrow> Inl (CommunicationErr (''Failed to send message to '' @ node_id_as_str n))
      | Some tx' \<Rightarrow> Inr tx')"

definition node_manager_get_stats :: "node_manager \<Rightarrow> node_manager_stats" where
  "node_manager_get_stats m =
     (let count = (\<lambda>st. length (filter (\<lambda>i. ni_state i = st) (hm_values (nm_nodes m))))
      in \<lparr>nms_total_nodes = length (nm_nodes m), nms_online_nodes = count Online,
          nms_offline_nodes = count Offline, nms_busy_nodes = count Busy\<rparr>)"

subsection \<open>The invariant\<close>

definition index_sound :: "node_manager \<Rightarrow> bool" where
  "index_sound m \<longleftrightarrow>
     (\<forall>w n. hm_get (nm_workspace_index m) w = Some n \<longrightarrow>
        (\<exists>i. hm_get (nm_nodes m) n = Some i \<and> wi_workspace_id (ni_workspace i) = Some w))"

definition node_entries_ok :: "node_manager \<Rightarrow> bool" where
  "node_entries_ok m \<longleftrightarrow>
     (\<forall>n i. hm_get (nm_nodes m) n = Some i \<longrightarrow>
        ni_node_id i = n \<and> wi_workspace_id (ni_workspace i) \<noteq> None)"

definition nm_inv :: "node_manager \<Rightarrow> bool" where
  "nm_inv m \<longleftrightarrow> hm_wf (nm_nodes m) \<and> hm_wf (nm_workspace_index m) \<and>
     length (nm_nodes m) \<le> nm_max_nodes m \<and> node_entries_ok m \<and> index_sound m"

lemmas nm_inv_defs = nm_inv_def node_entries_ok_def index_sound_def

text \<open>One operation of the manager, whatever its arguments; a failed operation changes nothing.\<close>

inductive nm_step :: "node_manager \<Rightarrow> node_manager \<Rightarrow> bool" where
  nm_register: "register_node now n name caps ws tags m = Inr m' \<Longrightarrow> nm_step m m'"
| nm_unregister: "unregister_node n m = Inr m' \<Longrightarrow> nm_step m m'"
| nm_heartbeat: "update_heartbeat now n status load m = Inr m' \<Longrightarrow> nm_step m m'"
| nm_timeouts: "nm_step m (fst (check_node_timeouts now m))"
| nm_rehash: "mset ns = mset (nm_nodes m) \<Longrightarrow> mset ix = mset (nm_workspace_index m) \<Longrightarrow>
    nm_step m (m\<lparr>nm_nodes := ns, nm_workspace_index := ix\<rparr>)"

inductive_cases nm_stepE: "nm_step m m'"

subsection \<open>Every operation keeps the invariant\<close>

lemma nm_inv_new: "nm_inv (node_manager_new max_nodes t)"
  by (simp add: node_manager_new_def nm_inv_defs)

lemma nm_inv_I:
  assumes "hm_wf (nm_nodes m)" and "hm_wf (nm_workspace_index m)"
    and "length (nm_nodes m) \<le> nm_max_nodes m"
    and "\<And>n i. hm_get (nm_nodes m) n = Some i \<Longrightarrow> ni_node_id i = n"
    and "\<And>n i. hm_get (nm_nodes m) n = Some i \<Longrightarrow> wi_workspace_id (ni_workspace i) \<noteq> None"
    and "\<And>w n. hm_get (nm_workspace_index m) w = Some n \<Longrightarrow>
      \<exists>i. hm_get (nm_nodes m) n = Some i \<and> wi_workspace_id (ni_workspace i) = Some w"
  shows "nm_inv m"
  using assms unfolding nm_inv_defs by blast

lemma nm_invD:
  assumes "nm_inv m"
  shows "hm_wf (nm_nodes m)" and "hm_wf (nm_workspace_index m)"
    and "length (nm_nodes m) \<le> nm_max_nodes m"
    and "hm_get (nm_nodes m) n = Some i \<Longrightarrow> ni_node_id i = n"
    and "hm_get (nm_nodes m) n = Some i \<Longrightarrow> wi_workspace_id (ni_workspace i) \<noteq> None"
    and "hm_get (nm_workspace_index m) w = Some n \<Longrightarrow>
      \<exists>i. hm_get (nm_nodes m) n = Some i \<and> wi_workspace_id (ni_workspace i) = Some w"
  using assms unfolding nm_inv_defs by blast+

text \<open>
  The index after the entry of a node's own workspace is taken out: nothing in it points to the
  node any more, and what is left was there before.
\<close>

definition drop_index_of :: "node_info option \<Rightarrow> (string, node_id) hmap \<Rightarrow> (string, node_id) hmap" where
  "drop_index_of prev ix =
     (case prev of None \<Rightarrow> ix
      | Some p \<Rightarrow> (case wi_workspace_id (ni_workspace p) of None \<Rightarrow> ix | Some w \<Rightarrow> hm_remove w ix))"

lemma drop_index_of_wf: "hm_wf ix \<Longrightarrow> hm_wf (drop_index_of prev ix)"
  by (simp add: drop_index_of_def split: option.splits)

lemma drop_index_of_sound:
  assumes inv: "nm_inv m"
    and get: "hm_get (drop_index_of (hm_get (nm_nodes m) n) (nm_workspace_index m)) w = Some j"
  shows "j \<noteq> n" and "hm_get (nm_workspace_index m) w = Some j"
proof -
  show old: "hm_get (nm_workspace_index m) w = Some j"
    using get by (auto simp: drop_index_of_def hm_get_remove split: option.splits if_splits)
  obtain i where i: "hm_get (nm_nodes m) j = Some i" "wi_workspace_id (ni_workspace i) = Some w"
    using nm_invD(6) [OF inv old] by blast
  show "j \<noteq> n" using get i by (auto simp: drop_index_of_def hm_get_remove)
qed

lemma register_node_result:
  assumes "register_node now n name caps ws tags m = Inr m'"
  obtains info w where
    "m' = m\<lparr>nm_nodes := hm_insert n info (nm_nodes m),
       nm_workspace_index :=
         hm_insert w n (drop_index_of (hm_get (nm_nodes m) n) (nm_workspace_index m))\<rparr>"
    and "ni_node_id info = n" and "wi_workspace_id (ni_workspace info) = Some w"
    and "ni_state info = Online" and "ni_last_heartbeat info = now"
    and "n \<in> set (hm_keys (nm_nodes m)) \<or> length (nm_nodes m) < nm_max_nodes m"
    and "w = (case wi_workspace_id ws of None \<Rightarrow> derive_workspace_id n (wi_name ws) | Some v \<Rightarrow> v)"
proof -
  have room: "n \<in> set (hm_keys (nm_nodes m)) \<or> length (nm_nodes m) < nm_max_nodes m"
    using assms by (auto simp: register_node_def hm_contains_keys split: if_splits)
  show thesis
  proof (cases "wi_workspace_id ws")
    case None
    show thesis
      using assms None room
      by (intro that) (auto simp: register_node_def Let_def drop_index_of_def split: if_splits)
  next
    case (Some v)
    show thesis
      using assms Some room
      by (intro that) (auto simp: register_node_def Let_def drop_index_of_def split: if_splits)
  qed
qed

lemma register_node_inv:
  assumes inv: "nm_inv m" and reg: "register_node now n name caps ws tags m = Inr m'"
  shows "nm_inv m'"
proof -
  obtain info w where
    m': "m' = m\<lparr>nm_nodes := hm_insert n info (nm_nodes m),
       nm_workspace_index :=
         hm_insert w n (drop_index_of (hm_get (nm_nodes m) n) (nm_workspace_index m))\<rparr>"
    and info: "ni_node_id info = n" "wi_workspace_id (ni_workspace info) = Some w"
    and room: "n \<in> set (hm_keys (nm_nodes m)) \<or> length (nm_nodes m) < nm_max_nodes m"
    using reg by (rule register_node_result)
  let ?ix = "drop_index_of (hm_get (nm_nodes m) n) (nm_workspace_index m)"
  show ?thesis
  proof (rule nm_inv_I)
    show "hm_wf (nm_nodes m')" using nm_invD(1) [OF inv] by (simp add: m')
    show "hm_wf (nm_workspace_index m')" using nm_invD(2) [OF inv] by (simp add: m' drop_index_of_wf)
    show "length (nm_nodes m') \<le> nm_max_nodes m'"
      using room nm_invD(3) [OF inv] by (auto simp: m' hm_length_insert)
    show "ni_node_id i = j" if "hm_get (nm_nodes m') j = Some i" for i j
      using that info nm_invD(4) [OF inv, of j i] by (auto simp: m' hm_get_insert split: if_splits)
    show "wi_workspace_id (ni_workspace i) \<noteq> None" if "hm_get (nm_nodes m') j = Some i" for i j
      using that info nm_invD(5) [OF inv, of j i] by (auto simp: m' hm_get_insert split: if_splits)
    show "\<exists>i. hm_get (nm_nodes m') j = Some i \<and> wi_workspace_id (ni_workspace i) = Some v"
      if "hm_get (nm_workspace_index m') v = Some j" for v j
    proof (cases "v = w")
      case True
      then show ?thesis using that info by (simp add: m' hm_get_insert)
    next
      case False
      then have "hm_get ?ix v = Some j" using that by (simp add: m' hm_get_insert)
      then have "j \<noteq> n" and "hm_get (nm_workspace_index m) v = Some j"
        using drop_index_of_sound [OF inv] by blast+
      then show ?thesis using nm_invD(6) [OF inv, of v j] by (simp add: m' hm_get_insert)
    qed
  qed
qed

lemma unregister_node_inv:
  assumes inv: "nm_inv m" and un: "unregister_node n m = Inr m'"
  shows "nm_inv m'"
proof -
  let ?ix = "drop_index_of (hm_get (nm_nodes m) n) (nm_workspace_index m)"
  have m': "m' = m\<lparr>nm_nodes := hm_remove n (nm_nodes m), nm_workspace_index := ?ix\<rparr>"
    using un by (auto simp: unregister_node_def drop_index_of_def split: option.splits)
  show ?thesis
  proof (rule nm_inv_I)
    show "hm_wf (nm_nodes m')" using nm_invD(1) [OF inv] by (simp add: m')
    show "hm_wf (nm_workspace_index m')" using nm_invD(2) [OF inv] by (simp add: m' drop_index_of_wf)
    show "length (nm_nodes m') \<le> nm_max_nodes m'"
      using nm_invD(3) [OF inv] AList.length_delete_le [of n "nm_nodes m"] by (simp add: m')
    show "ni_node_id i = j" if "hm_get (nm_nodes m') j = Some i" for i j
      using that nm_invD(4) [OF inv, of j i] by (auto simp: m' hm_get_remove split: if_splits)
    show "wi_workspace_id (ni_workspace i) \<noteq> None" if "hm_get (nm_nodes m') j = Some i" for i j
      using that nm_invD(5) [OF inv, of j i] by (auto simp: m' hm_get_remove split: if_splits)
    show "\<exists>i. hm_get (nm_nodes m') j = Some i \<and> wi_workspace_id (ni_workspace i) = Some v"
      if "hm_get (nm_workspace_index m') v = Some j" for v j
    proof -
      have "hm_get ?ix v = Some j" using that by (simp add: m')
      then have "j \<noteq> n" and "hm_get (nm_workspace_index m) v = Some j"
        using drop_index_of_sound [OF inv] by blast+
      then show ?thesis using nm_invD(6) [OF inv, of v j] by (simp add: m' hm_get_remove)
    qed
  qed
qed

text \<open>A rewrite of the node entries in place that keeps identity and workspace.\<close>

lemma nm_inv_rewrite:
  assumes inv: "nm_inv m" and wf: "hm_wf ns" and len: "length ns = length (nm_nodes m)"
    and same: "\<And>n. map_option (\<lambda>i. (ni_node_id i, ni_workspace i)) (hm_get ns n) =
       map_option (\<lambda>i. (ni_node_id i, ni_workspace i)) (hm_get (nm_nodes m) n)"
  shows "nm_inv (m\<lparr>nm_nodes := ns\<rparr>)"
proof (rule nm_inv_I)
  have old: "\<exists>i'. hm_get (nm_nodes m) j = Some i' \<and> ni_node_id i' = ni_node_id i \<and>
      ni_workspace i' = ni_workspace i" if "hm_get ns j = Some i" for i j
    using same [of j] that by (cases "hm_get (nm_nodes m) j") auto
  have forth: "\<exists>i'. hm_get ns j = Some i' \<and> ni_workspace i' = ni_workspace i"
    if "hm_get (nm_nodes m) j = Some i" for i j
    using same [of j] that by (cases "hm_get ns j") auto
  show "ni_node_id i = j" if "hm_get (nm_nodes (m\<lparr>nm_nodes := ns\<rparr>)) j = Some i" for i j
    using old [of j i] that nm_invD(4) [OF inv, of j] by auto
  show "wi_workspace_id (ni_workspace i) \<noteq> None"
    if "hm_get (nm_nodes (m\<lparr>nm_nodes := ns\<rparr>)) j = Some i" for i j
    using old [of j i] that nm_invD(5) [OF inv, of j] by auto
  show "\<exists>i. hm_get (nm_nodes (m\<lparr>nm_nodes := ns\<rparr>)) j = Some i \<and> wi_workspace_id (ni_workspace i) = Some v"
    if "hm_get (nm_workspace_index (m\<lparr>nm_nodes := ns\<rparr>)) v = Some j" for v j
    using nm_invD(6) [OF inv, of v j] that forth [of j] by fastforce
qed (use wf len nm_invD(2,3) [OF inv] in simp_all)

lemma update_heartbeat_inv:
  assumes inv: "nm_inv m" and hb: "update_heartbeat now n status load m = Inr m'"
  shows "nm_inv m'"
proof -
  obtain info where i: "hm_get (nm_nodes m) n = Some info"
    and m': "m' = m\<lparr>nm_nodes := hm_insert n (heartbeat_info now status load info) (nm_nodes m)\<rparr>"
    using hb by (auto simp: update_heartbeat_def split: option.splits)
  have "n \<in> set (hm_keys (nm_nodes m))" using i by (rule hm_get_SomeD)
  then have "length (hm_insert n (heartbeat_info now status load info) (nm_nodes m)) = length (nm_nodes m)"
    by (simp add: hm_length_insert)
  then show ?thesis
    unfolding m' using i nm_invD(1) [OF inv]
    by (intro nm_inv_rewrite [OF inv]) (auto simp: hm_get_insert heartbeat_info_def)
qed

lemma check_node_timeouts_inv:
  assumes inv: "nm_inv m" shows "nm_inv (fst (check_node_timeouts now m))"
proof -
  let ?f = "\<lambda>_ :: node_id. \<lambda>i. if node_timed_out now (nm_heartbeat_timeout_secs m) i
    then i\<lparr>ni_state := Offline\<rparr> else i"
  have "map_option (\<lambda>i. (ni_node_id i, ni_workspace i)) (hm_get (hm_map ?f (nm_nodes m)) n) =
      map_option (\<lambda>i. (ni_node_id i, ni_workspace i)) (hm_get (nm_nodes m) n)" for n
    by (cases "hm_get (nm_nodes m) n") (simp_all add: hm_get_map)
  then show ?thesis
    using nm_invD(1) [OF inv]
    by (auto simp: check_node_timeouts_def Let_def intro!: nm_inv_rewrite [OF inv])
qed

lemma nm_inv_rehash:
  assumes inv: "nm_inv m" and ns: "mset ns = mset (nm_nodes m)" and ix: "mset ix = mset (nm_workspace_index m)"
  shows "nm_inv (m\<lparr>nm_nodes := ns, nm_workspace_index := ix\<rparr>)"
proof -
  note nsp = hm_get_perm [OF nm_invD(1) [OF inv] ns] and ixp = hm_get_perm [OF nm_invD(2) [OF inv] ix]
  have len: "length ns = length (nm_nodes m)" using ns by (metis size_mset)
  show ?thesis
    by (rule nm_inv_I) (use nsp ixp len nm_invD [OF inv] in simp_all)
qed

lemma nm_step_inv: "nm_inv m \<Longrightarrow> nm_step m m' \<Longrightarrow> nm_inv m'"
  by (auto elim!: nm_stepE intro: register_node_inv unregister_node_inv update_heartbeat_inv
      check_node_timeouts_inv nm_inv_rehash)

interpretation nm: step_system "\<lambda>m. \<exists>k t. m = node_manager_new k t" nm_step nm_inv
  by unfold_locales (auto simp: nm_inv_new intro: nm_step_inv)

interpretation load_rank: stable_ranking "rank_by_load rnd" "node_load rnd" for rnd
  unfolding rank_by_load_def by (rule stable_ranking_sort_key)


subsection \<open>Properties\<close>

lemma get_node_by_workspace_id_sound:
  assumes inv: "nm_inv m" and get: "get_node_by_workspace_id m w = Some i"
  shows "wi_workspace_id (ni_workspace i) = Some w \<and> get_node m (ni_node_id i) = Some i"
proof -
  obtain n where n: "hm_get (nm_workspace_index m) w = Some n" "hm_get (nm_nodes m) n = Some i"
    using get by (auto simp: get_node_by_workspace_id_def get_node_def split: option.splits)
  then show ?thesis
    using nm_invD(4) [OF inv n(2)] nm_invD(6) [OF inv n(1)] by (auto simp: get_node_def)
qed

text \<open>
  In every state the node manager reaches from a fresh one, through registrations,
  disconnections, heartbeats and timeout sweeps and whatever the iteration order of its maps, it
  holds at most \<open>max_nodes\<close> nodes, and looking a workspace up returns a node that is
  registered under its own id and declares that very workspace.
\<close>

theorem node_manager_reachable:
  assumes "nm_step\<^sup>*\<^sup>* (node_manager_new max_nodes t) m"
  shows "length (get_all_nodes m) \<le> nm_max_nodes m \<and>
    (\<forall>w. case get_node_by_workspace_id m w of None \<Rightarrow> True
       | Some i \<Rightarrow> wi_workspace_id (ni_workspace i) = Some w \<and> get_node m (ni_node_id i) = Some i)"
proof -
  have "nm_inv m" using assms by (blast intro: nm.reachable_good)
  then show ?thesis
    using get_node_by_workspace_id_sound
    by (auto simp: get_all_nodes_def nm_invD(3) split: option.splits)
qed

definition example_workspace :: workspace_info where
  "example_workspace = \<lparr>wi_workspace_id = Some ''ws'', wi_name = ''main'', wi_path = ''/srv/a'',
     wi_read_only = False, wi_allowed_patterns = [], wi_denied_patterns = []\<rparr>"

definition example_manager :: node_manager where
  "example_manager =
     projr (register_node 5 (NodeId ''a'') ''A'' node_capabilities_default example_workspace [''gpu'']
       (node_manager_new 2 30))"

lemma example_manager_step: "nm_step (node_manager_new 2 30) example_manager"
proof -
  have "register_node 5 (NodeId ''a'') ''A'' node_capabilities_default example_workspace [''gpu'']
      (node_manager_new 2 30) = Inr example_manager"
    by (simp add: example_manager_def register_node_def node_manager_new_def Let_def
        example_workspace_def hm_contains_def)
  then show ?thesis by (rule nm_register)
qed

lemmas example_manager_eval = example_manager_def register_node_def node_manager_new_def Let_def
  example_workspace_def hm_contains_def node_capabilities_default_def load_info_default_def

theorem node_manager_reachable_witness:
  "nm_step\<^sup>*\<^sup>* (node_manager_new 2 30) example_manager \<and> length (get_all_nodes example_manager) = 1 \<and>
   length (get_all_nodes example_manager) \<le> 2"
  using node_manager_reachable [of 2 30 example_manager] example_manager_step
  by (auto simp: get_all_nodes_def example_manager_eval)

text \<open>
  A successful registration (a re-registration included) makes the node known, online and
  idle with the given heartbeat time, makes it the node of its workspace (the declared id, or
  \<open>exec:node:name\<close> when it declares none), and leaves every other node as it was.
\<close>

theorem register_node_effect:
  assumes "register_node now n name caps ws tags m = Inr m'"
  shows "\<exists>i. get_node m' n = Some i \<and> ni_state i = Online \<and> ni_last_heartbeat i = now \<and>
       get_node_by_workspace_id m' (case wi_workspace_id ws of None \<Rightarrow> derive_workspace_id n (wi_name ws)
          | Some v \<Rightarrow> v) = Some i \<and>
       (\<forall>n'. n' = n \<or> get_node m' n' = get_node m n')"
proof -
  obtain info w where
    m': "m' = m\<lparr>nm_nodes := hm_insert n info (nm_nodes m),
       nm_workspace_index :=
         hm_insert w n (drop_index_of (hm_get (nm_nodes m) n) (nm_workspace_index m))\<rparr>"
    and w: "w = (case wi_workspace_id ws of None \<Rightarrow> derive_workspace_id n (wi_name ws) | Some v \<Rightarrow> v)"
    and i: "ni_state info = Online" "ni_last_heartbeat info = now"
    using assms by (rule register_node_result)
  show ?thesis
    unfolding w [symmetric] using i
    by (intro exI [of _ info]) (simp add: m' get_node_def get_node_by_workspace_id_def hm_get_insert)
qed

theorem register_node_effect_witness:
  "register_node 5 (NodeId ''a'') ''A'' node_capabilities_default example_workspace [''gpu'']
     (node_manager_new 2 30) = Inr example_manager \<and>
   (\<exists>i. get_node example_manager (NodeId ''a'') = Some i \<and> ni_state i = Online)"
proof -
  have "register_node 5 (NodeId ''a'') ''A'' node_capabilities_default example_workspace [''gpu'']
      (node_manager_new 2 30) = Inr example_manager"
    by (simp add: example_manager_def register_node_def node_manager_new_def Let_def
        example_workspace_def hm_contains_def)
  from this register_node_effect [OF this] show ?thesis by blast
qed

lemma rank_by_load_Nil [simp]: "rank_by_load rnd [] = []"
  by (simp add: rank_by_load_def)

lemma select_node_find:
  "select_node e required tags hint m =
     find (\<lambda>_. True) (rank_by_load (env_f32 e)
       (filter (select_eligible (env_fs e) required tags hint) (hm_values (nm_nodes m))))"
  by (auto simp: select_node_def Let_def load_rank.rank_Nil split: list.splits)

text \<open>
  Selection: \<open>select_node\<close> returns a node exactly when some registered node is online, meets the
  required capabilities, carries one of the requested tags (any, when none is requested) and lies
  under the workspace hint; the node it returns is such a node, and no other such node has a
  lower load score.
\<close>

theorem select_node_correct:
  "case select_node e required tags hint m of
     None \<Rightarrow> filter (select_eligible (env_fs e) required tags hint) (get_all_nodes m) = []
   | Some i \<Rightarrow>
       i \<in> set (get_all_nodes m) \<and> ni_state i = Online \<and>
       select_eligible (env_fs e) required tags hint i \<and>
       list_all (\<lambda>j. node_load (env_f32 e) i \<le> node_load (env_f32 e) j)
         (filter (select_eligible (env_fs e) required tags hint) (get_all_nodes m))"
proof (cases "select_node e required tags hint m")
  case None
  then have "filter (select_eligible (env_fs e) required tags hint) (get_all_nodes m) = []"
    by (auto simp: select_node_find load_rank.first_ranked_none get_all_nodes_def filter_empty_conv)
  then show ?thesis using None by simp
next
  case (Some i)
  note f = Some [unfolded select_node_find]
  have sel: "select_eligible (env_fs e) required tags hint i" "i \<in> set (get_all_nodes m)"
    using load_rank.first_ranked_some [OF f] by (auto simp: get_all_nodes_def)
  moreover have "ni_state i = Online" using sel(1) by (auto simp: select_eligible_def split: if_splits)
  ultimately show ?thesis
    using Some load_rank.first_ranked_best [OF f] by (auto simp: list_all_iff get_all_nodes_def)
qed

text \<open>
  The timeout sweep reports exactly the nodes whose last heartbeat is older than the limit,
  marks exactly those offline, and changes nothing else of any node.
\<close>

theorem check_node_timeouts_exact:
  assumes "nm_inv m"
  shows "get_node (fst (check_node_timeouts now m)) n =
      map_option (\<lambda>i. if node_timed_out now (nm_heartbeat_timeout_secs m) i
        then i\<lparr>ni_state := Offline\<rparr> else i) (get_node m n) \<and>
    (n \<in> set (snd (check_node_timeouts now m)) \<longleftrightarrow>
      (case get_node m n of None \<Rightarrow> False
       | Some i \<Rightarrow> node_timed_out now (nm_heartbeat_timeout_secs m) i))"
proof -
  have wf: "hm_wf (nm_nodes m)" using assms by (rule nm_invD)
  have "n \<in> set (snd (check_node_timeouts now m)) \<longleftrightarrow>
      (\<exists>i. hm_get (nm_nodes m) n = Some i \<and> node_timed_out now (nm_heartbeat_timeout_secs m) i)"
    by (force simp: check_node_timeouts_def Let_def hm_get_iff [OF wf])
  then show ?thesis
    by (auto simp: check_node_timeouts_def Let_def get_node_def hm_get_map split: option.splits)
qed

theorem check_node_timeouts_exact_witness:
  "nm_inv example_manager \<and>
   snd (check_node_timeouts 31000000005 example_manager) = [NodeId ''a''] \<and>
   NodeId ''a'' \<in> set (snd (check_node_timeouts 31000000005 example_manager))"
proof -
  have inv: "nm_inv example_manager" using nm_step_inv [OF nm_inv_new example_manager_step] .
  have "get_node example_manager (NodeId ''a'') \<noteq> None"
    by (simp add: get_node_def example_manager_eval)
  then have "NodeId ''a'' \<in> set (snd (check_node_timeouts 31000000005 example_manager))"
    using check_node_timeouts_exact [OF inv, of 31000000005 "NodeId ''a''"]
    by (auto simp: node_timed_out_def duration_seconds_def nanos_per_sec_def get_node_def example_manager_eval)
  with inv show ?thesis
    by (auto simp: check_node_timeouts_def node_timed_out_def duration_seconds_def nanos_per_sec_def
        example_manager_eval)
qed

text \<open>
  Two nodes may declare the same workspace id; the index then holds the later one. When the
  earlier one disconnects, its entry is taken out by workspace id, so the workspace no longer
  resolves although the later node is still registered with it, and every task bound to that
  workspace stays pending.
\<close>

theorem unregister_shared_workspace_lost:
  assumes "get_node m a = Some i" and "wi_workspace_id (ni_workspace i) = Some w"
    and "get_node m b = Some j" and "wi_workspace_id (ni_workspace j) = Some w" and "a \<noteq> b"
    and "unregister_node a m = Inr m'"
  shows "get_node m' b = Some j \<and> get_node_by_workspace_id m' w = None"
  using assms
  by (auto simp: unregister_node_def get_node_def get_node_by_workspace_id_def hm_get_remove)

definition example_shared :: node_manager where
  "example_shared =
     projr (register_node 6 (NodeId ''b'') ''B'' node_capabilities_default example_workspace []
       example_manager)"

theorem unregister_shared_workspace_lost_witness:
  "get_node_by_workspace_id example_shared ''ws'' \<noteq> None \<and>
   get_node_by_workspace_id (projr (unregister_node (NodeId ''a'') example_shared)) ''ws'' = None \<and>
   get_node (projr (unregister_node (NodeId ''a'') example_shared)) (NodeId ''b'') \<noteq> None"
proof -
  have "get_node example_shared (NodeId ''a'') \<noteq> None" "get_node example_shared (NodeId ''b'') \<noteq> None"
    "get_node_by_workspace_id example_shared ''ws'' \<noteq> None"
    by (simp_all add: get_node_def get_node_by_workspace_id_def example_shared_def example_manager_eval)
  moreover have "wi_workspace_id (ni_workspace (the (get_node example_shared (NodeId k)))) = Some ''ws''"
    if "k = ''a'' \<or> k = ''b''" for k
    using that by (auto simp: get_node_def example_shared_def example_manager_eval)
  moreover have "unregister_node (NodeId ''a'') example_shared =
      Inr (projr (unregister_node (NodeId ''a'') example_shared))"
    by (simp add: unregister_node_def example_shared_def example_manager_eval)
  ultimately show ?thesis
    using unregister_shared_workspace_lost [of example_shared "NodeId ''a''"
        "the (get_node example_shared (NodeId ''a''))" "''ws''" "NodeId ''b''"
        "the (get_node example_shared (NodeId ''b''))"
        "projr (unregister_node (NodeId ''a'') example_shared)"] by auto
qed

end
