(* ===== verification/Task_Scheduler.thy ===== *)
theory Task_Scheduler
  imports Node_Manager
begin

section \<open>The task scheduler (\<^verbatim>\<open>uhorse-hub/src/task_scheduler.rs\<close>)\<close>

text \<open>
  The Hub's queue of tasks: six queues of pending tasks, one per priority, the map of running
  tasks and the map of finished ones. The state and every operation of the source are here:
  submission, \<open>schedule_next\<close> with its search for a node, completion, cancellation, the
  timeout sweep, the bounded store of finished tasks, and the queries. \<open>sched_inv\<close> is the
  invariant: a task id is in exactly one place, every id was issued by the counter, retries stay
  under their limit and the store of finished tasks under its bound. An operation that reads the
  clock several times is given one reading. The node manager and the channels to the nodes are
  arguments.
\<close>

subsection \<open>State\<close>

record queued_task =
  qt_task_id :: task_id
  qt_command :: command
  qt_context :: task_context
  qt_priority :: priority
  qt_created_at :: instant
  qt_retry_count :: u32
  qt_max_retries :: u32
  qt_required_capabilities :: "node_capabilities option"
  qt_required_tags :: "string list"
  qt_workspace_hint :: "string option"

record running_task =
  rt_task_id :: task_id
  rt_command :: command
  rt_context :: task_context
  rt_priority :: priority
  rt_node_id :: node_id
  rt_started_at :: instant
  rt_timeout_at :: instant
  rt_retry_count :: u32

record completed_task =
  ct_task_id :: task_id
  ct_command :: command
  ct_context :: task_context
  ct_priority :: priority
  ct_node_id :: node_id
  ct_started_at :: instant
  ct_completed_at :: instant
  ct_status :: task_status
  ct_result :: command_result

record task_result =
  tr_task_id :: task_id
  tr_node_id :: node_id
  tr_result :: command_result

record scheduled_task =
  st_task_id :: task_id
  st_node_id :: node_id
  st_scheduled_at :: instant

record task_status_info =
  si_task_id :: task_id
  si_status :: task_status
  si_command_type :: "cmd_type option"
  si_priority :: "priority option"
  si_node_id :: "node_id option"
  si_started_at :: "instant option"
  si_completed_at :: "instant option"
  si_error :: "string option"

record scheduler_stats =
  ss_pending_tasks :: nat
  ss_running_tasks :: nat
  ss_completed_tasks :: nat
  ss_failed_tasks :: nat

text \<open>The channel of results keeps what was sent on it and whether its receiver is alive.\<close>

record task_scheduler =
  ts_pending_tasks :: "(priority, queued_task list) hmap"
  ts_running_tasks :: "(task_id, running_task) hmap"
  ts_completed_tasks :: "(task_id, completed_task) hmap"
  ts_task_counter :: u64
  ts_max_retries :: u32
  ts_task_timeout_secs :: u64
  ts_result_open :: bool
  ts_results :: "task_result list"

definition priorities :: "priority list" where
  "priorities = [Critical, Urgent, High, Normal, Low, Background]"

definition task_scheduler_new :: "u32 \<Rightarrow> u64 \<Rightarrow> task_scheduler" where
  "task_scheduler_new max_retries task_timeout_secs =
     \<lparr>ts_pending_tasks = foldl (\<lambda>m p. hm_insert p [] m) [] priorities,
      ts_running_tasks = [], ts_completed_tasks = [], ts_task_counter = 0,
      ts_max_retries = max_retries, ts_task_timeout_secs = task_timeout_secs,
      ts_result_open = True, ts_results = []\<rparr>"

subsection \<open>Submission\<close>

definition task_id_of :: "nat \<Rightarrow> task_id" where
  "task_id_of k = TaskId (''task-'' @ dec_string k)"

definition generate_task_id :: "task_scheduler \<Rightarrow> task_id \<times> task_scheduler" where
  "generate_task_id s =
     (task_id_of (unat (ts_task_counter s)), s\<lparr>ts_task_counter := ts_task_counter s + 1\<rparr>)"

definition terminal_status_from_result :: "command_result \<Rightarrow> task_status" where
  "terminal_status_from_result r = (if cr_success r then Completed else Failed)"

definition evict_completed :: "(task_id, completed_task) hmap \<Rightarrow> (task_id, completed_task) hmap" where
  "evict_completed m =
     (if 500 < length m
      then fold hm_remove (map fst (take 250 (sort_key (\<lambda>(_, t). ct_completed_at t) m))) m
      else m)"

definition store_completed_task :: "completed_task \<Rightarrow> task_scheduler \<Rightarrow> task_scheduler" where
  "store_completed_task completed s =
     s\<lparr>ts_completed_tasks :=
         evict_completed (hm_insert (ct_task_id completed) completed (ts_completed_tasks s))\<rparr>"

definition send_result :: "task_result \<Rightarrow> task_scheduler \<Rightarrow> task_scheduler" where
  "send_result r s =
     (if ts_result_open s then s\<lparr>ts_results := ts_results s @ [r]\<rparr> else s)"

definition sched_submit_task ::
  "instant \<Rightarrow> command \<Rightarrow> task_context \<Rightarrow> priority \<Rightarrow> node_capabilities option \<Rightarrow> string list \<Rightarrow>
   string option \<Rightarrow> task_scheduler \<Rightarrow> task_id \<times> task_scheduler" where
  "sched_submit_task now command context priority caps tags hint s0 =
     (let (tid, s) = generate_task_id s0;
          task = \<lparr>qt_task_id = tid, qt_command = command, qt_context = context,
                  qt_priority = priority, qt_created_at = now, qt_retry_count = 0,
                  qt_max_retries = ts_max_retries s, qt_required_capabilities = caps,
                  qt_required_tags = tags, qt_workspace_hint = hint\<rparr>
      in (tid, s\<lparr>ts_pending_tasks := hm_modify priority (\<lambda>q. q @ [task]) (ts_pending_tasks s)\<rparr>))"

subsection \<open>Scheduling\<close>

definition task_eligible :: "filesystem \<Rightarrow> senders \<Rightarrow> queued_task \<Rightarrow> node_info \<Rightarrow> bool" where
  "task_eligible fs senders task i =
     (if \<not> hm_contains senders (ni_node_id i) then False
      else if ni_state i \<noteq> Online then False
      else if (case qt_required_capabilities task of None \<Rightarrow> False
               | Some r \<Rightarrow> \<not> capabilities_meets (ni_capabilities i) r) then False
      else if qt_required_tags task \<noteq> [] \<and>
              \<not> list_ex (\<lambda>t. t \<in> set (ni_tags i)) (qt_required_tags task) then False
      else (case tc_execution_workspace_id (qt_context task) of
              Some w \<Rightarrow> wi_workspace_id (ni_workspace i) = Some w
            | None \<Rightarrow>
                (case qt_workspace_hint task of
                   None \<Rightarrow> True
                 | Some hint \<Rightarrow> workspace_matches_hint fs (wi_path (ni_workspace i)) hint)))"

definition task_candidates :: "filesystem \<Rightarrow> node_manager \<Rightarrow> senders \<Rightarrow> queued_task \<Rightarrow> node_info list" where
  "task_candidates fs nm senders task =
     filter (task_eligible fs senders task)
       (case tc_execution_workspace_id (qt_context task) of
          Some w \<Rightarrow> (case get_node_by_workspace_id nm w of None \<Rightarrow> [] | Some i \<Rightarrow> [i])
        | None \<Rightarrow> get_online_nodes nm)"

definition assignment_of :: "instant \<Rightarrow> message_id \<Rightarrow> u64 \<Rightarrow> queued_task \<Rightarrow> hub_to_node" where
  "assignment_of now mid timeout_secs t =
     TaskAssignment mid (qt_task_id t) (qt_command t) (qt_priority t)
       (Some (now + duration_seconds timeout_secs)) (qt_context t) (qt_retry_count t)
       (qt_max_retries t)"

text \<open>
  The loop over the candidates: the first one whose channel takes the message. A candidate
  without a sender is excluded by \<open>task_eligible\<close> (the source has an \<open>expect\<close> there).
\<close>

fun send_first :: "hub_to_node \<Rightarrow> node_info list \<Rightarrow> senders \<Rightarrow> (node_info \<times> senders) option" where
  "send_first msg [] senders = None"
| "send_first msg (i # is) senders =
     (case hm_get senders (ni_node_id i) of
        None \<Rightarrow> send_first msg is senders
      | Some tx \<Rightarrow>
          (case send_to_node (ni_node_id i) msg tx of
             Inl _ \<Rightarrow> send_first msg is senders
           | Inr tx' \<Rightarrow> Some (i, hm_insert (ni_node_id i) tx' senders)))"

definition running_of :: "instant \<Rightarrow> u64 \<Rightarrow> node_id \<Rightarrow> queued_task \<Rightarrow> running_task" where
  "running_of now timeout_secs n t =
     \<lparr>rt_task_id = qt_task_id t, rt_command = qt_command t, rt_context = qt_context t,
      rt_priority = qt_priority t, rt_node_id = n, rt_started_at = now,
      rt_timeout_at = now + duration_seconds timeout_secs, rt_retry_count = qt_retry_count t\<rparr>"

definition bump_retry :: "senders \<Rightarrow> queued_task \<Rightarrow> queued_task" where
  "bump_retry senders t =
     (if qt_retry_count t < qt_max_retries t \<and> senders \<noteq> []
      then t\<lparr>qt_retry_count := qt_retry_count t + 1\<rparr> else t)"

text \<open>The body of the loop over the priorities, and the loop.\<close>

fun schedule_from ::
  "env \<Rightarrow> instant \<Rightarrow> message_id \<Rightarrow> node_manager \<Rightarrow> priority list \<Rightarrow> senders \<Rightarrow> task_scheduler \<Rightarrow>
   scheduled_task option \<times> senders \<times> task_scheduler" where
  "schedule_from e now mid nm [] senders s = (None, senders, s)"
| "schedule_from e now mid nm (p # ps) senders s =
     (case hm_get (ts_pending_tasks s) p of
        Some (task # queue) \<Rightarrow>
          (let candidates = rank_by_load (env_f32 e) (task_candidates (env_fs e) nm senders task);
               msg = assignment_of now mid (ts_task_timeout_secs s) task
           in case send_first msg candidates senders of
                Some (i, senders') \<Rightarrow>
                  (Some \<lparr>st_task_id = qt_task_id task, st_node_id = ni_node_id i,
                         st_scheduled_at = now\<rparr>,
                   senders',
                   s\<lparr>ts_pending_tasks := hm_insert p queue (ts_pending_tasks s),
                     ts_running_tasks :=
                       hm_insert (qt_task_id task)
                         (running_of now (ts_task_timeout_secs s) (ni_node_id i) task)
                         (ts_running_tasks s)\<rparr>)
              | None \<Rightarrow>
                  schedule_from e now mid nm ps senders
                    (s\<lparr>ts_pending_tasks :=
                         hm_insert p (bump_retry senders task # queue) (ts_pending_tasks s)\<rparr>))
      | _ \<Rightarrow> schedule_from e now mid nm ps senders s)"

definition schedule_next ::
  "env \<Rightarrow> instant \<Rightarrow> message_id \<Rightarrow> node_manager \<Rightarrow> senders \<Rightarrow> task_scheduler \<Rightarrow>
   scheduled_task option \<times> senders \<times> task_scheduler" where
  "schedule_next e now mid nm senders s = schedule_from e now mid nm priorities senders s"

subsection \<open>Completion, cancellation, timeouts\<close>

definition completed_of :: "instant \<Rightarrow> task_status \<Rightarrow> command_result \<Rightarrow> running_task \<Rightarrow> task_id \<Rightarrow> completed_task" where
  "completed_of now status result r tid =
     \<lparr>ct_task_id = tid, ct_command = rt_command r, ct_context = rt_context r,
      ct_priority = rt_priority r, ct_node_id = rt_node_id r, ct_started_at = rt_started_at r,
      ct_completed_at = now, ct_status = status, ct_result = result\<rparr>"

text \<open>
  The end of a running task: out of the running map, into the store of finished tasks, and a
  notification on the result channel. Completion, cancellation and timeout all do this.
\<close>

definition finish_running ::
  "instant \<Rightarrow> task_status \<Rightarrow> command_result \<Rightarrow> node_id \<Rightarrow> task_id \<Rightarrow> running_task \<Rightarrow>
   task_scheduler \<Rightarrow> task_scheduler" where
  "finish_running now status result reporter tid r s =
     send_result \<lparr>tr_task_id = tid, tr_node_id = reporter, tr_result = result\<rparr>
       (store_completed_task (completed_of now status result r tid)
         (s\<lparr>ts_running_tasks := hm_remove tid (ts_running_tasks s)\<rparr>))"

definition complete_task ::
  "instant \<Rightarrow> task_id \<Rightarrow> node_id \<Rightarrow> command_result \<Rightarrow> task_scheduler \<Rightarrow> task_scheduler" where
  "complete_task now tid n result s =
     (case hm_get (ts_running_tasks s) tid of
        Some r \<Rightarrow> finish_running now (terminal_status_from_result result) result n tid r s
      | None \<Rightarrow> s)"

fun take_task :: "task_id \<Rightarrow> queued_task list \<Rightarrow> (queued_task \<times> queued_task list) option" where
  "take_task tid [] = None"
| "take_task tid (t # ts) =
     (if qt_task_id t = tid then Some (t, ts)
      else map_option (\<lambda>(u, us). (u, t # us)) (take_task tid ts))"

text \<open>The loop over \<open>pending.values_mut()\<close>, up to the first queue that has the task.\<close>

fun take_pending ::
  "task_id \<Rightarrow> (priority, queued_task list) hmap \<Rightarrow>
   (queued_task \<times> (priority, queued_task list) hmap) option" where
  "take_pending tid [] = None"
| "take_pending tid ((p, q) # m) =
     (case take_task tid q of
        Some (t, q') \<Rightarrow> Some (t, (p, q') # m)
      | None \<Rightarrow> map_option (\<lambda>(t, m'). (t, (p, q) # m')) (take_pending tid m))"

definition cancelled_result :: command_result where
  "cancelled_result = command_failure (execution_failed ''Task cancelled'')"

definition pending_cancelled :: node_id where
  "pending_cancelled = NodeId ''pending-cancelled''"

definition sched_cancel_task :: "instant \<Rightarrow> task_id \<Rightarrow> task_scheduler \<Rightarrow> hub_error + task_scheduler" where
  "sched_cancel_task now tid s =
     (case take_pending tid (ts_pending_tasks s) of
        Some (t, pending) \<Rightarrow>
          Inr (send_result \<lparr>tr_task_id = tid, tr_node_id = pending_cancelled,
                            tr_result = cancelled_result\<rparr>
                (store_completed_task
                  \<lparr>ct_task_id = qt_task_id t, ct_command = qt_command t, ct_context = qt_context t,
                   ct_priority = qt_priority t, ct_node_id = pending_cancelled,
                   ct_started_at = qt_created_at t, ct_completed_at = now, ct_status = Cancelled,
                   ct_result = cancelled_result\<rparr>
                  (s\<lparr>ts_pending_tasks := pending\<rparr>)))
      | None \<Rightarrow>
          (case hm_get (ts_running_tasks s) tid of
             Some r \<Rightarrow> Inr (finish_running now Cancelled cancelled_result (rt_node_id r) tid r s)
           | None \<Rightarrow> Inl (TaskErr (''Task not found: '' @ task_id_as_str tid))))"

definition timeout_result :: command_result where
  "timeout_result = command_failure (timeout_error ''Task timed out'')"

definition time_out_task :: "instant \<Rightarrow> task_id \<Rightarrow> task_scheduler \<Rightarrow> task_scheduler" where
  "time_out_task now tid s =
     (case hm_get (ts_running_tasks s) tid of
        Some r \<Rightarrow> finish_running now Timeout timeout_result (rt_node_id r) tid r s
      | None \<Rightarrow> s)"

definition check_task_timeouts :: "instant \<Rightarrow> task_scheduler \<Rightarrow> task_id list \<times> task_scheduler" where
  "check_task_timeouts now s =
     (let timed_out = map fst (filter (\<lambda>(_, r). rt_timeout_at r < now) (ts_running_tasks s))
      in (timed_out, fold (time_out_task now) timed_out s))"

subsection \<open>Queries\<close>

fun find_pending :: "task_id \<Rightarrow> (priority, queued_task list) hmap \<Rightarrow> queued_task option" where
  "find_pending tid [] = None"
| "find_pending tid ((_, q) # m) =
     (case find (\<lambda>t. qt_task_id t = tid) q of Some t \<Rightarrow> Some t | None \<Rightarrow> find_pending tid m)"

definition get_task_status :: "task_scheduler \<Rightarrow> task_id \<Rightarrow> task_status_info option" where
  "get_task_status s tid =
     (case hm_get (ts_running_tasks s) tid of
        Some r \<Rightarrow> Some \<lparr>si_task_id = tid, si_status = Running,
          si_command_type = Some (command_type (rt_command r)), si_priority = Some (rt_priority r),
          si_node_id = Some (rt_node_id r), si_started_at = Some (rt_started_at r),
          si_completed_at = None, si_error = None\<rparr>
      | None \<Rightarrow>
     (case hm_get (ts_completed_tasks s) tid of
        Some c \<Rightarrow> Some \<lparr>si_task_id = tid, si_status = ct_status c,
          si_command_type = Some (command_type (ct_command c)), si_priority = Some (ct_priority c),
          si_node_id = Some (ct_node_id c), si_started_at = Some (ct_started_at c),
          si_completed_at = Some (ct_completed_at c),
          si_error = map_option ee_message (cr_error (ct_result c))\<rparr>
      | None \<Rightarrow>
     (case find_pending tid (ts_pending_tasks s) of
        Some t \<Rightarrow> Some \<lparr>si_task_id = tid, si_status = Queued,
          si_command_type = Some (command_type (qt_command t)), si_priority = Some (qt_priority t),
          si_node_id = None, si_started_at = None, si_completed_at = None, si_error = None\<rparr>
      | None \<Rightarrow> None)))"

definition get_task_context :: "task_scheduler \<Rightarrow> task_id \<Rightarrow> task_context option" where
  "get_task_context s tid =
     (case hm_get (ts_running_tasks s) tid of
        Some r \<Rightarrow> Some (rt_context r)
      | None \<Rightarrow>
     (case hm_get (ts_completed_tasks s) tid of
        Some c \<Rightarrow> Some (ct_context c)
      | None \<Rightarrow> map_option qt_context (find_pending tid (ts_pending_tasks s))))"

definition get_completed_task :: "task_scheduler \<Rightarrow> task_id \<Rightarrow> completed_task option" where
  "get_completed_task s tid = hm_get (ts_completed_tasks s) tid"

definition scheduler_get_stats :: "task_scheduler \<Rightarrow> scheduler_stats" where
  "scheduler_get_stats s =
     \<lparr>ss_pending_tasks = sum_list (map length (hm_values (ts_pending_tasks s))),
      ss_running_tasks = length (ts_running_tasks s),
      ss_completed_tasks =
        length (filter (\<lambda>c. ct_status c = Completed) (hm_values (ts_completed_tasks s))),
      ss_failed_tasks =
        length (filter (\<lambda>c. ct_status c \<in> {Failed, Cancelled, Timeout})
          (hm_values (ts_completed_tasks s)))\<rparr>"


subsection \<open>The invariant\<close>

definition all_pending :: "task_scheduler \<Rightarrow> queued_task list" where
  "all_pending s = concat (hm_values (ts_pending_tasks s))"

definition task_ids :: "task_scheduler \<Rightarrow> task_id list" where
  "task_ids s =
     map qt_task_id (all_pending s) @ hm_keys (ts_running_tasks s) @ hm_keys (ts_completed_tasks s)"

definition issued :: "task_scheduler \<Rightarrow> task_id \<Rightarrow> bool" where
  "issued s tid \<longleftrightarrow> (\<exists>k < unat (ts_task_counter s). tid = task_id_of k)"

definition ids_ok :: "task_scheduler \<Rightarrow> bool" where
  "ids_ok s \<longleftrightarrow> distinct (task_ids s) \<and> (\<forall>tid \<in> set (task_ids s). issued s tid)"

definition queued_ok :: "u32 \<Rightarrow> priority \<Rightarrow> queued_task \<Rightarrow> bool" where
  "queued_ok limit p t \<longleftrightarrow>
     qt_priority t = p \<and> qt_max_retries t = limit \<and> qt_retry_count t \<le> qt_max_retries t"

definition queues_ok :: "task_scheduler \<Rightarrow> bool" where
  "queues_ok s \<longleftrightarrow> hm_wf (ts_pending_tasks s) \<and> set (hm_keys (ts_pending_tasks s)) = UNIV \<and>
     (\<forall>p q. hm_get (ts_pending_tasks s) p = Some q \<longrightarrow> list_all (queued_ok (ts_max_retries s) p) q)"

definition terminal :: "task_status \<Rightarrow> bool" where
  "terminal st \<longleftrightarrow> st \<in> {Completed, Failed, Cancelled, Timeout}"

definition store_ok :: "task_scheduler \<Rightarrow> bool" where
  "store_ok s \<longleftrightarrow> length (ts_completed_tasks s) \<le> 500 \<and>
     (\<forall>tid c. hm_get (ts_completed_tasks s) tid = Some c \<longrightarrow> ct_task_id c = tid \<and> terminal (ct_status c))"

definition sched_inv :: "task_scheduler \<Rightarrow> bool" where
  "sched_inv s \<longleftrightarrow> ids_ok s \<and> queues_ok s \<and> store_ok s"

text \<open>
  One operation of the scheduler. The counter is 64 bits wide: the model takes the steps of the
  first \<open>2^64 - 1\<close> submissions. \<open>sched_rehash\<close> changes the iteration order of the maps.
\<close>

inductive sched_step :: "task_scheduler \<Rightarrow> task_scheduler \<Rightarrow> bool" where
  sched_submit: "unat (ts_task_counter s) < 2 ^ 64 - 1 \<Longrightarrow>
    sched_submit_task now cmd ctx p caps tags hint s = (tid, s') \<Longrightarrow> sched_step s s'"
| sched_schedule: "schedule_next e now mid nm senders s = (r, senders', s') \<Longrightarrow> sched_step s s'"
| sched_complete: "sched_step s (complete_task now tid n result s)"
| sched_cancel: "sched_cancel_task now tid s = Inr s' \<Longrightarrow> sched_step s s'"
| sched_timeouts: "check_task_timeouts now s = (tids, s') \<Longrightarrow> sched_step s s'"
| sched_rehash: "mset pend = mset (ts_pending_tasks s) \<Longrightarrow> mset run = mset (ts_running_tasks s) \<Longrightarrow>
    mset fin = mset (ts_completed_tasks s) \<Longrightarrow>
    sched_step s (s\<lparr>ts_pending_tasks := pend, ts_running_tasks := run, ts_completed_tasks := fin\<rparr>)"

inductive_cases sched_stepE: "sched_step s s'"

subsection \<open>Task ids\<close>

lemma task_id_of_inject [simp]: "task_id_of j = task_id_of k \<longleftrightarrow> j = k"
  by (simp add: task_id_of_def)

lemma task_ids_mset:
  "mset (task_ids s) = image_mset qt_task_id (mset (all_pending s)) +
     mset (hm_keys (ts_running_tasks s)) + mset (hm_keys (ts_completed_tasks s))"
  by (simp add: task_ids_def)

lemma ids_ok_wf:
  assumes "ids_ok s"
  shows "hm_wf (ts_running_tasks s)" and "hm_wf (ts_completed_tasks s)"
    and "distinct (map qt_task_id (all_pending s))"
  using assms by (auto simp: ids_ok_def task_ids_def)

lemma ids_ok_disjoint:
  assumes "ids_ok s"
  shows "tid \<in> qt_task_id ` set (all_pending s) \<Longrightarrow>
      hm_get (ts_running_tasks s) tid = None \<and> hm_get (ts_completed_tasks s) tid = None"
    and "hm_get (ts_running_tasks s) tid = Some r \<Longrightarrow> hm_get (ts_completed_tasks s) tid = None"
proof -
  have d: "set (map qt_task_id (all_pending s)) \<inter> (set (hm_keys (ts_running_tasks s)) \<union>
      set (hm_keys (ts_completed_tasks s))) = {}"
    "set (hm_keys (ts_running_tasks s)) \<inter> set (hm_keys (ts_completed_tasks s)) = {}"
    using assms unfolding ids_ok_def task_ids_def by auto
  show "hm_get (ts_running_tasks s) tid = None \<and> hm_get (ts_completed_tasks s) tid = None"
    if "tid \<in> qt_task_id ` set (all_pending s)"
    using that d(1) unfolding map_of_eq_None_iff by auto
  show "hm_get (ts_completed_tasks s) tid = None" if "hm_get (ts_running_tasks s) tid = Some r"
    using hm_get_SomeD [OF that] d(2) unfolding map_of_eq_None_iff by auto
qed

lemma ids_ok_shrink:
  assumes "ids_ok s" and "mset (task_ids s') \<subseteq># mset (task_ids s)"
    and "ts_task_counter s' = ts_task_counter s"
  shows "ids_ok s'"
proof -
  have "set (task_ids s') \<subseteq> set (task_ids s)"
    using assms(2) by (metis set_mset_mono set_mset_mset)
  moreover have "distinct (task_ids s')"
  proof -
    obtain zs where "mset (task_ids s) = mset (task_ids s') + mset zs"
      using assms(2) by (metis ex_mset subset_mset.add_diff_inverse)
    then have "mset (task_ids s) = mset (task_ids s' @ zs)" by simp
    then have "distinct (task_ids s' @ zs)"
      using assms(1) by (metis ids_ok_def mset_eq_imp_distinct_iff)
    then show ?thesis by simp
  qed
  ultimately show ?thesis using assms by (auto simp: ids_ok_def issued_def)
qed

lemma ids_ok_same:
  "mset (task_ids s') = mset (task_ids s) \<Longrightarrow> ids_ok s \<Longrightarrow> ts_task_counter s' = ts_task_counter s \<Longrightarrow>
     ids_ok s'"
  using ids_ok_shrink [of s s'] by simp

subsection \<open>The store of finished tasks\<close>

lemma fold_remove_length: "length (fold hm_remove ks m) \<le> length m"
  by (induction ks arbitrary: m) (auto intro: order_trans hm_length_remove_le)

lemma hm_remove_keys_mset: "hm_wf m \<Longrightarrow> mset (hm_keys (hm_remove k m)) \<subseteq># mset (hm_keys m)"
proof (cases "k \<in> set (hm_keys m)")
  case True
  assume "hm_wf m"
  then have "mset (hm_keys m) = add_mset k (mset (hm_keys (hm_remove k m)))"
    using True by (rule hm_keys_mset_remove)
  then show ?thesis by (simp only: mset_subset_eq_add_mset_cancel subset_mset.add_increasing
        multi_self_add_other_not_self) (simp add: subset_mset.less_imp_le)
next
  case False
  then show ?thesis by (simp add: AList.delete_idem)
qed

lemma fold_remove_keys: "hm_wf m \<Longrightarrow> mset (hm_keys (fold hm_remove ks m)) \<subseteq># mset (hm_keys m)"
proof (induction ks arbitrary: m)
  case (Cons k ks)
  have "mset (hm_keys (fold hm_remove ks (hm_remove k m))) \<subseteq># mset (hm_keys (hm_remove k m))"
    using Cons.prems by (intro Cons.IH) simp
  also have "\<dots> \<subseteq># mset (hm_keys m)" using Cons.prems by (rule hm_remove_keys_mset)
  finally show ?case by simp
qed simp

lemma fold_remove_length_eq:
  assumes "hm_wf m" and "distinct ks" and "set ks \<subseteq> set (hm_keys m)"
  shows "length (fold hm_remove ks m) + length ks = length m"
  using assms
proof (induction ks arbitrary: m)
  case (Cons k ks)
  have "k \<in> set (hm_keys m)" using Cons.prems(3) by simp
  then have "size (mset (hm_keys m)) = Suc (size (mset (hm_keys (hm_remove k m))))"
    using hm_keys_mset_remove [OF Cons.prems(1)] by (metis size_add_mset)
  then have len: "length m = Suc (length (hm_remove k m))" by simp
  have "set ks \<subseteq> set (hm_keys (hm_remove k m))"
    using Cons.prems(2,3) unfolding hm_keys_remove by auto
  then have "length (fold hm_remove ks (hm_remove k m)) + length ks = length (hm_remove k m)"
    using Cons.prems by (intro Cons.IH) auto
  then show ?case using len by simp
qed simp

text \<open>What is evicted: the 250 oldest entries, when there are more than 500.\<close>

definition evicted :: "(task_id, completed_task) hmap \<Rightarrow> task_id list" where
  "evicted m = (if 500 < length m
     then map fst (take 250 (sort_key (\<lambda>(_, t). ct_completed_at t) m)) else [])"

lemma evict_completed_eq: "evict_completed m = fold hm_remove (evicted m) m"
  by (simp add: evict_completed_def evicted_def)

lemma evict_completed_get:
  "hm_wf m \<Longrightarrow> hm_get (evict_completed m) tid = (if tid \<in> set (evicted m) then None else hm_get m tid)"
  by (simp add: evict_completed_eq hm.fold_drop_lookup)

lemma evicted_distinct:
  assumes "hm_wf m" shows "distinct (evicted m)" and "set (evicted m) \<subseteq> set (hm_keys m)"
proof -
  let ?s = "sort_key (\<lambda>(_, t). ct_completed_at t) m"
  have "mset (map fst ?s) = mset (map fst m)" by simp
  then have "distinct (map fst ?s)" using assms by (metis mset_eq_imp_distinct_iff)
  then show "distinct (evicted m)" by (simp add: evicted_def take_map [symmetric] distinct_take)
  show "set (evicted m) \<subseteq> set (hm_keys m)"
    by (force simp: evicted_def dest: in_set_takeD)
qed

lemma evict_completed_length:
  assumes "hm_wf m" and "length m \<le> 501" shows "length (evict_completed m) \<le> 500"
proof (cases "500 < length m")
  case True
  then have "length (evicted m) = 250" by (simp add: evicted_def)
  then show ?thesis
    using fold_remove_length_eq [OF assms(1) evicted_distinct [OF assms(1)]] assms(2)
    by (simp add: evict_completed_eq)
qed (simp add: evict_completed_def)

text \<open>Every evicted entry finished no later than every entry that stays.\<close>

lemma evicted_oldest:
  assumes wf: "hm_wf m" and "a \<in> set (evicted m)" and "hm_get m a = Some ca"
    and "b \<notin> set (evicted m)" and "hm_get m b = Some cb"
  shows "ct_completed_at ca \<le> ct_completed_at cb"
proof -
  let ?f = "\<lambda>(_ :: task_id, t). ct_completed_at t"
  let ?s = "sort_key ?f m"
  have len: "500 < length m" using assms(2) by (auto simp: evicted_def split: if_splits)
  obtain i where i: "i < 250" "i < length ?s" "fst (?s ! i) = a"
    using assms(2) len by (auto simp: evicted_def in_set_conv_nth)
  have "(a, ca) \<in> set m" "(b, cb) \<in> set m" using assms(3,5) wf by (simp_all add: hm_get_iff)
  then obtain j where j: "j < length ?s" "?s ! j = (b, cb)" by (metis in_set_conv_nth set_sort)
  have "j \<ge> 250"
  proof (rule ccontr)
    assume "\<not> 250 \<le> j"
    then have "take 250 ?s ! j = (b, cb)" "j < length (take 250 ?s)" using j by auto
    then have "(b, cb) \<in> set (take 250 ?s)" by (metis nth_mem)
    then have "b \<in> set (evicted m)" using len by (force simp: evicted_def)
    then show False using assms(4) by blast
  qed
  then have "map ?f ?s ! i \<le> map ?f ?s ! j"
    using i j by (intro sorted_nth_mono) auto
  moreover have "?s ! i = (a, ca)"
  proof -
    have pair: "?s ! i = (a, snd (?s ! i))" using i(3) by (metis prod.collapse)
    then have "(a, snd (?s ! i)) \<in> set m" using i(2) by (metis nth_mem set_sort)
    then have "hm_get m a = Some (snd (?s ! i))" using wf by (simp only: hm_get_iff)
    with pair show ?thesis using assms(3) by simp
  qed
  ultimately show ?thesis using i j by simp
qed


lemma store_ok_store:
  assumes "store_ok s" and "hm_wf (ts_completed_tasks s)" and "terminal (ct_status c)"
  shows "store_ok (store_completed_task c s)"
proof -
  let ?m = "hm_insert (ct_task_id c) c (ts_completed_tasks s)"
  have wf: "hm_wf ?m" using assms(2) by simp
  have "length ?m \<le> 501"
    using assms(1) unfolding hm_length_insert by (simp add: store_ok_def)
  then have "length (evict_completed ?m) \<le> 500" using wf by (rule evict_completed_length [rotated])
  then show ?thesis
    using assms by (auto simp: store_ok_def store_completed_task_def evict_completed_get [OF wf]
        hm_get_insert split: if_splits)
qed

lemma store_completed_keys:
  assumes "hm_wf (ts_completed_tasks s)"
  shows "mset (hm_keys (ts_completed_tasks (store_completed_task c s))) \<subseteq>#
    add_mset (ct_task_id c) (mset (hm_keys (ts_completed_tasks s)))"
proof -
  let ?m = "hm_insert (ct_task_id c) c (ts_completed_tasks s)"
  have "mset (hm_keys (evict_completed ?m)) \<subseteq># mset (hm_keys ?m)"
    unfolding evict_completed_eq using assms by (intro fold_remove_keys) simp
  moreover have "mset (hm_keys ?m) \<subseteq># add_mset (ct_task_id c) (mset (hm_keys (ts_completed_tasks s)))"
    unfolding hm_keys_mset_insert by (simp add: subset_mset.less_imp_le)
  ultimately show ?thesis
    unfolding store_completed_task_def by (auto intro: subset_mset.order_trans)
qed

lemma store_completed_get:
  assumes "hm_wf (ts_completed_tasks s)"
  shows "get_completed_task (store_completed_task c s) tid =
    (if tid \<in> set (evicted (hm_insert (ct_task_id c) c (ts_completed_tasks s))) then None
     else if tid = ct_task_id c then Some c else get_completed_task s tid)"
  using assms by (simp add: get_completed_task_def store_completed_task_def evict_completed_get hm_get_insert)

lemma send_result_simps [simp]:
  "ts_pending_tasks (send_result r s) = ts_pending_tasks s"
  "ts_running_tasks (send_result r s) = ts_running_tasks s"
  "ts_completed_tasks (send_result r s) = ts_completed_tasks s"
  "ts_task_counter (send_result r s) = ts_task_counter s"
  "ts_max_retries (send_result r s) = ts_max_retries s"
  by (simp_all add: send_result_def)

lemma store_completed_simps [simp]:
  "ts_pending_tasks (store_completed_task c s) = ts_pending_tasks s"
  "ts_running_tasks (store_completed_task c s) = ts_running_tasks s"
  "ts_task_counter (store_completed_task c s) = ts_task_counter s"
  "ts_max_retries (store_completed_task c s) = ts_max_retries s"
  by (simp_all add: store_completed_task_def)

text \<open>
  The invariant depends on the maps and the two numbers only, and a task that leaves the pending
  or the running tasks and enters the store keeps it.
\<close>

lemma sched_inv_cong:
  assumes "sched_inv s" and "ts_pending_tasks t = ts_pending_tasks s"
    and "ts_running_tasks t = ts_running_tasks s" and "ts_completed_tasks t = ts_completed_tasks s"
    and "ts_task_counter t = ts_task_counter s" and "ts_max_retries t = ts_max_retries s"
  shows "sched_inv t"
  using assms
  by (simp add: sched_inv_def ids_ok_def queues_ok_def store_ok_def task_ids_def all_pending_def issued_def)

lemma sched_inv_store:
  assumes ids: "ids_ok s" and q: "queues_ok s" and st: "store_ok s" and trm: "terminal (ct_status c)"
    and gone: "mset (task_ids s0) = add_mset (ct_task_id c) (mset (task_ids s))"
    and ids0: "ids_ok s0" and cnt: "ts_task_counter s = ts_task_counter s0"
  shows "sched_inv (store_completed_task c s)"
proof -
  have "mset (task_ids (store_completed_task c s)) \<subseteq># mset (task_ids s0)"
    unfolding gone
    using store_completed_keys [OF ids_ok_wf(2) [OF ids], of c]
    by (simp add: task_ids_mset all_pending_def)
  then have "ids_ok (store_completed_task c s)"
    using ids_ok_shrink [OF ids0] cnt by simp
  moreover have "queues_ok (store_completed_task c s)" using q by (simp add: queues_ok_def)
  ultimately show ?thesis
    using store_ok_store [OF st ids_ok_wf(2) [OF ids] trm] by (simp add: sched_inv_def)
qed

lemma finish_running_inv:
  assumes inv: "sched_inv s" and r: "hm_get (ts_running_tasks s) tid = Some r" and "terminal st"
  shows "sched_inv (finish_running now st result rep tid r s)"
proof -
  let ?s = "s\<lparr>ts_running_tasks := hm_remove tid (ts_running_tasks s)\<rparr>"
  have ids: "ids_ok s" using inv by (simp add: sched_inv_def)
  have "mset (task_ids s) = add_mset tid (mset (task_ids ?s))"
    using hm_keys_mset_remove [OF ids_ok_wf(1) [OF ids] hm_get_SomeD [OF r]]
    by (simp add: task_ids_mset all_pending_def)
  moreover from this have "ids_ok ?s"
    by (intro ids_ok_shrink [OF ids]) (simp_all add: subset_mset.less_imp_le)
  moreover have "queues_ok ?s" "store_ok ?s"
    using inv by (simp_all add: sched_inv_def queues_ok_def store_ok_def)
  ultimately have "sched_inv (store_completed_task (completed_of now st result r tid) ?s)"
    using assms(3) ids by (auto intro!: sched_inv_store [of ?s _ s] simp: completed_of_def)
  then show ?thesis unfolding finish_running_def by (rule sched_inv_cong) simp_all
qed

lemma terminal_simps [simp]:
  "terminal Completed" "terminal Failed" "terminal Cancelled" "terminal Timeout"
  "\<not> terminal Queued" "\<not> terminal Running" "terminal (terminal_status_from_result r)"
  by (simp_all add: terminal_def terminal_status_from_result_def)

lemma complete_task_inv: "sched_inv s \<Longrightarrow> sched_inv (complete_task now tid n result s)"
  by (simp add: complete_task_def finish_running_inv split: option.splits)

lemma time_out_task_inv: "sched_inv s \<Longrightarrow> sched_inv (time_out_task now tid s)"
  by (simp add: time_out_task_def finish_running_inv split: option.splits)

lemma check_task_timeouts_inv: "sched_inv s \<Longrightarrow> sched_inv (snd (check_task_timeouts now s))"
proof -
  have "sched_inv (fold (time_out_task now) tids s)" if "sched_inv s" for tids s
    using that by (induction tids arbitrary: s) (auto intro: time_out_task_inv)
  then show "sched_inv s \<Longrightarrow> sched_inv (snd (check_task_timeouts now s))"
    by (simp add: check_task_timeouts_def Let_def)
qed


lemma timeouts_step_inv: "check_task_timeouts now s = (tids, s') \<Longrightarrow> sched_inv s \<Longrightarrow> sched_inv s'"
  by (metis check_task_timeouts_inv snd_conv)

lemma take_task_Some:
  "take_task tid q = Some (t, q') \<Longrightarrow> qt_task_id t = tid \<and> mset q = add_mset t (mset q')"
  by (induction q arbitrary: q') (auto split: if_splits)

lemma take_task_None: "take_task tid q = None \<longleftrightarrow> tid \<notin> qt_task_id ` set q"
  by (induction q) auto

lemma take_pending_Some:
  "take_pending tid m = Some (t, m') \<Longrightarrow>
     qt_task_id t = tid \<and> hm_keys m' = hm_keys m \<and>
     mset (concat (hm_values m)) = add_mset t (mset (concat (hm_values m'))) \<and>
     (\<forall>p q'. hm_get m' p = Some q' \<longrightarrow> (\<exists>q. hm_get m p = Some q \<and> set q' \<subseteq> set q))"
proof (induction m arbitrary: m')
  case (Cons x m)
  obtain p q where x: "x = (p, q)" by (cases x)
  show ?case
  proof (cases "take_task tid q")
    case None
    then obtain m'' where m'': "take_pending tid m = Some (t, m'')" "m' = (p, q) # m''"
      using Cons.prems x by auto
    then show ?thesis using Cons.IH [OF m''(1)] x by auto
  next
    case (Some tq)
    then obtain q' where q': "take_task tid q = Some (t, q')" "m' = (p, q') # m"
      using Cons.prems x by (cases tq) auto
    have "set q' \<subseteq> set q"
      using take_task_Some [OF q'(1)] by (metis set_mset_mset set_mset_add_mset_insert subset_insertI)
    then show ?thesis using take_task_Some [OF q'(1)] q'(2) x by auto
  qed
qed simp

lemma take_pending_None:
  "take_pending tid m = None \<longleftrightarrow> tid \<notin> qt_task_id ` set (concat (hm_values m))"
proof (induction m)
  case (Cons x m)
  obtain p q where x: "x = (p, q)" by (cases x)
  show ?case
    using Cons x take_task_None [of tid q] by (cases "take_task tid q") (auto simp: image_Un)
qed simp

lemma cancel_pending_inv:
  assumes inv: "sched_inv s" and t: "take_pending tid (ts_pending_tasks s) = Some (t, pend)"
    and c: "ct_task_id c = qt_task_id t" "terminal (ct_status c)"
  shows "sched_inv (store_completed_task c (s\<lparr>ts_pending_tasks := pend\<rparr>))"
proof -
  let ?s = "s\<lparr>ts_pending_tasks := pend\<rparr>"
  have ids: "ids_ok s" using inv by (simp add: sched_inv_def)
  note tp = take_pending_Some [OF t]
  have m: "mset (task_ids s) = add_mset (qt_task_id t) (mset (task_ids ?s))"
    using tp by (simp add: task_ids_mset all_pending_def)
  then have "ids_ok ?s"
    by (intro ids_ok_shrink [OF ids]) (simp_all add: subset_mset.less_imp_le)
  moreover have "queues_ok ?s"
    using inv tp by (fastforce simp: sched_inv_def queues_ok_def list_all_iff)
  moreover have "store_ok ?s" using inv by (simp add: sched_inv_def store_ok_def)
  ultimately show ?thesis
    using m ids c by (auto intro!: sched_inv_store [of ?s c s])
qed

lemma sched_cancel_task_inv:
  assumes inv: "sched_inv s" and "sched_cancel_task now tid s = Inr s'"
  shows "sched_inv s'"
proof (cases "take_pending tid (ts_pending_tasks s)")
  case None
  then show ?thesis
    using assms by (auto simp: sched_cancel_task_def finish_running_inv split: option.splits)
next
  case (Some tp)
  obtain t pend where tp: "tp = (t, pend)" by (cases tp)
  have "s' = send_result \<lparr>tr_task_id = tid, tr_node_id = pending_cancelled, tr_result = cancelled_result\<rparr>
     (store_completed_task \<lparr>ct_task_id = qt_task_id t, ct_command = qt_command t,
       ct_context = qt_context t, ct_priority = qt_priority t, ct_node_id = pending_cancelled,
       ct_started_at = qt_created_at t, ct_completed_at = now, ct_status = Cancelled,
       ct_result = cancelled_result\<rparr> (s\<lparr>ts_pending_tasks := pend\<rparr>))"
    (is "s' = send_result _ ?t")
    using assms(2) Some tp by (simp add: sched_cancel_task_def)
  moreover have "sched_inv ?t"
    using cancel_pending_inv [OF inv Some [unfolded tp]] by simp
  ultimately show ?thesis using sched_inv_cong by simp
qed

subsection \<open>Submission\<close>

text \<open>Replacing one queue by another.\<close>

lemma queues_ok_insert:
  assumes "queues_ok s" and "list_all (queued_ok (ts_max_retries s) p) q"
  shows "queues_ok (s\<lparr>ts_pending_tasks := hm_insert p q (ts_pending_tasks s)\<rparr>)"
  using assms by (auto simp: queues_ok_def hm_get_insert AList.dom_update [unfolded o_def] hm_keys_insert
      simp del: set_map split: if_splits)

lemma queues_ok_cong:
  "ts_pending_tasks t = ts_pending_tasks s \<Longrightarrow> ts_max_retries t = ts_max_retries s \<Longrightarrow>
     queues_ok t = queues_ok s"
  by (simp add: queues_ok_def)

lemma queues_ok_get:
  assumes "queues_ok s"
  obtains q where "hm_get (ts_pending_tasks s) p = Some q" and "list_all (queued_ok (ts_max_retries s) p) q"
proof -
  have "p \<in> set (hm_keys (ts_pending_tasks s))" using assms by (simp add: queues_ok_def)
  then obtain q where q: "hm_get (ts_pending_tasks s) p = Some q"
    by (metis map_of_eq_None_iff not_Some_eq set_map)
  then show thesis using that assms by (auto simp: queues_ok_def)
qed

lemma all_pending_insert:
  assumes "hm_get (ts_pending_tasks s) p = Some q"
  shows "mset (all_pending (s\<lparr>ts_pending_tasks := hm_insert p q' (ts_pending_tasks s)\<rparr>)) + mset q =
    mset (all_pending s) + mset q'"
  using hm_concat_mset_insert [OF assms, of q'] by (simp add: all_pending_def)

lemma issued_mono:
  "issued s tid \<Longrightarrow> unat (ts_task_counter s) \<le> unat (ts_task_counter s') \<Longrightarrow> issued s' tid"
  by (auto simp: issued_def)

lemma counter_Suc:
  "unat (c :: u64) < 2 ^ 64 - 1 \<Longrightarrow> unat (c + 1) = Suc (unat c)"
  by (simp add: unat_word_ariths)

definition submitted_task ::
  "instant \<Rightarrow> command \<Rightarrow> task_context \<Rightarrow> priority \<Rightarrow> node_capabilities option \<Rightarrow> string list \<Rightarrow>
   string option \<Rightarrow> task_scheduler \<Rightarrow> queued_task" where
  "submitted_task now command context priority caps tags hint s =
     \<lparr>qt_task_id = task_id_of (unat (ts_task_counter s)), qt_command = command, qt_context = context,
      qt_priority = priority, qt_created_at = now, qt_retry_count = 0,
      qt_max_retries = ts_max_retries s, qt_required_capabilities = caps,
      qt_required_tags = tags, qt_workspace_hint = hint\<rparr>"

lemma sched_submit_task_eq:
  assumes "queues_ok s"
  obtains q where "hm_get (ts_pending_tasks s) p = Some q"
    and "sched_submit_task now cmd ctx p caps tags hint s =
      (task_id_of (unat (ts_task_counter s)),
       s\<lparr>ts_task_counter := ts_task_counter s + 1,
         ts_pending_tasks :=
           hm_insert p (q @ [submitted_task now cmd ctx p caps tags hint s]) (ts_pending_tasks s)\<rparr>)"
proof -
  obtain q where q: "hm_get (ts_pending_tasks s) p = Some q" using assms by (rule queues_ok_get)
  show thesis
    by (rule that [OF q]) (simp add: sched_submit_task_def generate_task_id_def Let_def hm_modify_def q
        submitted_task_def)
qed

lemma sched_submit_task_inv:
  assumes inv: "sched_inv s" and room: "unat (ts_task_counter s) < 2 ^ 64 - 1"
    and sub: "sched_submit_task now cmd ctx p caps tags hint s = (tid, s')"
  shows "sched_inv s'"
proof -
  let ?t = "submitted_task now cmd ctx p caps tags hint s"
  let ?tid = "task_id_of (unat (ts_task_counter s))"
  have q: "queues_ok s" and ids: "ids_ok s" and st: "store_ok s" using inv by (auto simp: sched_inv_def)
  obtain qu where qu: "hm_get (ts_pending_tasks s) p = Some qu"
    and s': "s' = s\<lparr>ts_task_counter := ts_task_counter s + 1,
         ts_pending_tasks := hm_insert p (qu @ [?t]) (ts_pending_tasks s)\<rparr>"
    using sched_submit_task_eq [OF q, of p now cmd ctx caps tags hint] sub by auto
  have "mset (all_pending s') = add_mset ?t (mset (all_pending s))"
    using all_pending_insert [OF qu, of "qu @ [?t]"] by (simp add: s' all_pending_def)
  then have m: "mset (task_ids s') = mset (?tid # task_ids s)"
    by (simp add: task_ids_mset) (simp add: s' submitted_task_def)
  have fresh: "?tid \<notin> set (task_ids s)" using ids by (force simp: ids_ok_def issued_def)
  have cnt: "unat (ts_task_counter s') = Suc (unat (ts_task_counter s))"
    using counter_Suc [OF room] by (simp add: s')
  have "distinct (task_ids s')"
    using m fresh ids mset_eq_imp_distinct_iff [OF m] by (simp add: ids_ok_def)
  moreover have "issued s' j" if "j \<in> set (task_ids s')" for j
  proof -
    have "j = ?tid \<or> j \<in> set (task_ids s)" using that m by (metis insert_iff list.simps(15) mset_eq_setD)
    then show ?thesis
      using ids cnt issued_mono [of s j s'] by (auto simp: ids_ok_def issued_def)
  qed
  ultimately have "ids_ok s'" by (simp add: ids_ok_def)
  moreover have "queues_ok (s\<lparr>ts_pending_tasks := hm_insert p (qu @ [?t]) (ts_pending_tasks s)\<rparr>)"
    using q qu by (intro queues_ok_insert) (auto simp: queues_ok_def queued_ok_def submitted_task_def)
  then have "queues_ok s'" by (simp add: s' queues_ok_def)
  moreover have "store_ok s'" using st by (simp add: s' store_ok_def)
  ultimately show ?thesis by (simp add: sched_inv_def)
qed


subsection \<open>Scheduling\<close>

definition can_take :: "senders \<Rightarrow> node_info \<Rightarrow> bool" where
  "can_take senders i =
     (case hm_get senders (ni_node_id i) of None \<Rightarrow> False | Some tx \<Rightarrow> tx_open tx)"

definition deliver :: "hub_to_node \<Rightarrow> node_id \<Rightarrow> senders \<Rightarrow> senders" where
  "deliver msg n senders = hm_modify n (\<lambda>tx. tx\<lparr>tx_sent := tx_sent tx @ [msg]\<rparr>) senders"

lemma send_first_find:
  "send_first msg is senders =
     map_option (\<lambda>i. (i, deliver msg (ni_node_id i) senders)) (find (can_take senders) is)"
  by (induction "is")
     (auto simp: can_take_def deliver_def hm_modify_def send_to_node_def mpsc_send_def split: option.splits)

text \<open>The node a pending task goes to, if there is one that can take it.\<close>

definition chosen_node :: "env \<Rightarrow> node_manager \<Rightarrow> senders \<Rightarrow> queued_task \<Rightarrow> node_info option" where
  "chosen_node e nm senders t =
     find (can_take senders) (rank_by_load (env_f32 e) (task_candidates (env_fs e) nm senders t))"

definition blocked :: "env \<Rightarrow> node_manager \<Rightarrow> senders \<Rightarrow> task_scheduler \<Rightarrow> priority \<Rightarrow> bool" where
  "blocked e nm senders s p =
     (case hm_get (ts_pending_tasks s) p of
        Some (t # _) \<Rightarrow> chosen_node e nm senders t = None
      | _ \<Rightarrow> True)"

text \<open>A candidate without a sender is impossible, so the \<open>expect\<close> of the source never fails.\<close>

lemma candidate_has_sender:
  "i \<in> set (rank_by_load rnd (task_candidates fs nm senders t)) \<Longrightarrow> hm_contains senders (ni_node_id i)"
  by (auto simp: load_rank.rank_set task_candidates_def task_eligible_def split: if_splits)

lemma task_eligible_conditions:
  assumes "task_eligible fs senders t i"
  shows "hm_contains senders (ni_node_id i) \<and> ni_state i = Online \<and>
    (case qt_required_capabilities t of None \<Rightarrow> True | Some r \<Rightarrow> capabilities_meets (ni_capabilities i) r) \<and>
    (qt_required_tags t = [] \<or> list_ex (\<lambda>g. g \<in> set (ni_tags i)) (qt_required_tags t)) \<and>
    (case tc_execution_workspace_id (qt_context t) of
       Some w \<Rightarrow> wi_workspace_id (ni_workspace i) = Some w
     | None \<Rightarrow> (case qt_workspace_hint t of None \<Rightarrow> True
         | Some hint \<Rightarrow> workspace_matches_hint fs (wi_path (ni_workspace i)) hint))"
  using assms by (auto simp: task_eligible_def list_ex_iff split: if_splits option.splits)

lemma chosen_node_Some:
  assumes "chosen_node e nm senders t = Some i"
  shows "task_eligible (env_fs e) senders t i" and "can_take senders i"
    and "i \<in> set (task_candidates (env_fs e) nm senders t)"
    and "\<And>j. j \<in> set (task_candidates (env_fs e) nm senders t) \<Longrightarrow> can_take senders j \<Longrightarrow>
      node_load (env_f32 e) i \<le> node_load (env_f32 e) j"
proof -
  note f = assms [unfolded chosen_node_def]
  show "can_take senders i" and c: "i \<in> set (task_candidates (env_fs e) nm senders t)"
    using load_rank.first_ranked_some [OF f] by auto
  show "task_eligible (env_fs e) senders t i" using c by (simp add: task_candidates_def)
  show "node_load (env_f32 e) i \<le> node_load (env_f32 e) j"
    if "j \<in> set (task_candidates (env_fs e) nm senders t)" "can_take senders j" for j
    using load_rank.first_ranked_best [OF f that] .
qed

lemma chosen_node_None:
  "chosen_node e nm senders t = None \<longleftrightarrow>
     (\<forall>i\<in>set (task_candidates (env_fs e) nm senders t). \<not> can_take senders i)"
  by (simp add: chosen_node_def load_rank.first_ranked_none)

definition skip_head :: "senders \<Rightarrow> priority \<Rightarrow> task_scheduler \<Rightarrow> task_scheduler" where
  "skip_head senders p s =
     (case hm_get (ts_pending_tasks s) p of
        Some (t # q) \<Rightarrow>
          s\<lparr>ts_pending_tasks := hm_insert p (bump_retry senders t # q) (ts_pending_tasks s)\<rparr>
      | _ \<Rightarrow> s)"

definition start_head ::
  "instant \<Rightarrow> node_info \<Rightarrow> priority \<Rightarrow> queued_task \<Rightarrow> queued_task list \<Rightarrow> task_scheduler \<Rightarrow> task_scheduler" where
  "start_head now i p t q s =
     s\<lparr>ts_pending_tasks := hm_insert p q (ts_pending_tasks s),
       ts_running_tasks :=
         hm_insert (qt_task_id t) (running_of now (ts_task_timeout_secs s) (ni_node_id i) t)
           (ts_running_tasks s)\<rparr>"

lemma schedule_from_blocked:
  "blocked e nm senders s p \<Longrightarrow>
     schedule_from e now mid nm (p # ps) senders s =
       schedule_from e now mid nm ps senders (skip_head senders p s)"
  by (auto simp: blocked_def skip_head_def Let_def send_first_find chosen_node_def
      split: option.splits list.splits)

lemma schedule_from_ready:
  assumes "hm_get (ts_pending_tasks s) p = Some (t # q)" and "chosen_node e nm senders t = Some i"
  shows "schedule_from e now mid nm (p # ps) senders s =
    (Some \<lparr>st_task_id = qt_task_id t, st_node_id = ni_node_id i, st_scheduled_at = now\<rparr>,
     deliver (assignment_of now mid (ts_task_timeout_secs s) t) (ni_node_id i) senders,
     start_head now i p t q s)"
  using assms by (simp add: Let_def send_first_find chosen_node_def start_head_def)

declare schedule_from.simps(2) [simp del]

lemma not_blocked:
  "\<not> blocked e nm senders s p \<longleftrightarrow>
     (\<exists>t q i. hm_get (ts_pending_tasks s) p = Some (t # q) \<and> chosen_node e nm senders t = Some i)"
  by (auto simp: blocked_def split: option.splits list.splits)

text \<open>
  The whole loop: it skips the blocked priorities, and starts the head of the first one that is
  not blocked.
\<close>

lemma skip_head_other:
  "p' \<noteq> p \<Longrightarrow> hm_get (ts_pending_tasks (skip_head senders p s)) p' = hm_get (ts_pending_tasks s) p'"
  by (auto simp: skip_head_def hm_get_insert split: option.splits list.splits)

lemma skip_head_fields [simp]:
  "ts_running_tasks (skip_head senders p s) = ts_running_tasks s"
  "ts_completed_tasks (skip_head senders p s) = ts_completed_tasks s"
  "ts_task_counter (skip_head senders p s) = ts_task_counter s"
  "ts_max_retries (skip_head senders p s) = ts_max_retries s"
  "ts_task_timeout_secs (skip_head senders p s) = ts_task_timeout_secs s"
  by (auto simp: skip_head_def split: option.splits list.splits)

lemma blocked_skip_head:
  "p' \<noteq> p \<Longrightarrow> blocked e nm senders (skip_head senders p s) p' = blocked e nm senders s p'"
  by (simp add: blocked_def skip_head_other)

lemma blocked_skip_all:
  "p \<notin> set ps \<Longrightarrow> list_all (blocked e nm senders (skip_head senders p s)) ps =
     list_all (blocked e nm senders s) ps"
  unfolding list_all_iff by (metis blocked_skip_head)

lemma schedule_from_None:
  assumes "distinct ps" and "list_all (blocked e nm senders s) ps"
  shows "schedule_from e now mid nm ps senders s = (None, senders, fold (skip_head senders) ps s)"
  using assms
proof (induction ps arbitrary: s)
  case (Cons p ps)
  have "list_all (blocked e nm senders (skip_head senders p s)) ps"
    using Cons.prems by (simp add: blocked_skip_all)
  then show ?case using Cons by (simp add: schedule_from_blocked)
qed simp

lemma schedule_from_Some:
  assumes "distinct (ps1 @ p # ps2)" and "list_all (blocked e nm senders s) ps1"
    and "hm_get (ts_pending_tasks s) p = Some (t # q)" and "chosen_node e nm senders t = Some i"
  shows "schedule_from e now mid nm (ps1 @ p # ps2) senders s =
    (Some \<lparr>st_task_id = qt_task_id t, st_node_id = ni_node_id i, st_scheduled_at = now\<rparr>,
     deliver (assignment_of now mid (ts_task_timeout_secs s) t) (ni_node_id i) senders,
     start_head now i p t q (fold (skip_head senders) ps1 s))"
  using assms
proof (induction ps1 arbitrary: s)
  case Nil
  then show ?case by (simp add: schedule_from_ready)
next
  case (Cons p' ps1)
  have "list_all (blocked e nm senders (skip_head senders p' s)) ps1"
    using Cons.prems by (simp add: blocked_skip_all)
  moreover have "hm_get (ts_pending_tasks (skip_head senders p' s)) p = Some (t # q)"
    using Cons.prems skip_head_other [of p p' senders s] by auto
  ultimately show ?case using Cons by (simp add: schedule_from_blocked)
qed

lemma schedule_next_cases:
  obtains (idle) "list_all (blocked e nm senders s) priorities"
      and "schedule_next e now mid nm senders s = (None, senders, fold (skip_head senders) priorities s)"
  | (started) ps1 p ps2 t q i where "priorities = ps1 @ p # ps2"
      and "list_all (blocked e nm senders s) ps1"
      and "hm_get (ts_pending_tasks s) p = Some (t # q)" and "chosen_node e nm senders t = Some i"
      and "schedule_next e now mid nm senders s =
        (Some \<lparr>st_task_id = qt_task_id t, st_node_id = ni_node_id i, st_scheduled_at = now\<rparr>,
         deliver (assignment_of now mid (ts_task_timeout_secs s) t) (ni_node_id i) senders,
         start_head now i p t q (fold (skip_head senders) ps1 s))"
proof (cases "list_all (blocked e nm senders s) priorities")
  case True
  moreover have "distinct priorities" by (simp add: priorities_def)
  ultimately show thesis using idle schedule_from_None by (simp add: schedule_next_def)
next
  case False
  then obtain ps1 p ps2 where ps: "priorities = ps1 @ p # ps2" "list_all (blocked e nm senders s) ps1"
      "\<not> blocked e nm senders s p"
  proof -
    have "\<exists>p\<in>set priorities. \<not> blocked e nm senders s p" using False by (auto simp: list_all_iff)
    from split_list_first_prop [OF this] show thesis
      using that by (auto simp: list_all_iff)
  qed
  obtain t q i where t: "hm_get (ts_pending_tasks s) p = Some (t # q)" "chosen_node e nm senders t = Some i"
    using ps(3) unfolding not_blocked by blast
  have "distinct (ps1 @ p # ps2)" by (simp add: ps(1) [symmetric] priorities_def)
  note sf = schedule_from_Some [OF this ps(2) t, of now mid]
  show thesis
    by (rule started [OF ps(1,2) t]) (simp only: schedule_next_def ps(1) sf)
qed


lemma bump_retry_id [simp]:
  "qt_task_id (bump_retry senders t) = qt_task_id t" "qt_command (bump_retry senders t) = qt_command t"
  "qt_context (bump_retry senders t) = qt_context t" "qt_priority (bump_retry senders t) = qt_priority t"
  by (simp_all add: bump_retry_def)

lemma bump_retry_ok: "queued_ok limit p t \<Longrightarrow> queued_ok limit p (bump_retry senders t)"
  by (auto simp: queued_ok_def bump_retry_def inc_le)

lemma skip_head_ids: "image_mset qt_task_id (mset (all_pending (skip_head senders p s))) =
    image_mset qt_task_id (mset (all_pending s))"
proof (cases "hm_get (ts_pending_tasks s) p")
  case (Some q)
  show ?thesis
  proof (cases q)
    case (Cons t ts)
    note ins = all_pending_insert [OF Some, of "bump_retry senders t # ts"]
    have "image_mset qt_task_id (mset (all_pending (skip_head senders p s)) + mset q) =
        image_mset qt_task_id (mset (all_pending s) + mset (bump_retry senders t # ts))"
      using ins Some Cons by (simp only: skip_head_def option.case list.case)
    then show ?thesis by (simp add: Cons)
  qed (simp add: skip_head_def Some)
qed (simp add: skip_head_def)

lemma skip_head_queues_ok:
  assumes "queues_ok s" shows "queues_ok (skip_head senders p s)"
proof -
  obtain q where q: "hm_get (ts_pending_tasks s) p = Some q" "list_all (queued_ok (ts_max_retries s) p) q"
    using assms by (rule queues_ok_get)
  show ?thesis
  proof (cases q)
    case Nil
    then show ?thesis using assms q by (simp add: skip_head_def)
  next
    case (Cons t ts)
    then have "list_all (queued_ok (ts_max_retries s) p) (bump_retry senders t # ts)"
      using q(2) by (simp add: bump_retry_ok)
    from queues_ok_insert [OF assms this] show ?thesis
      using q Cons by (simp add: skip_head_def)
  qed
qed

lemma skip_head_inv: "sched_inv s \<Longrightarrow> sched_inv (skip_head senders p s)"
proof -
  assume inv: "sched_inv s"
  have "mset (task_ids (skip_head senders p s)) = mset (task_ids s)"
    by (simp add: task_ids_mset skip_head_ids)
  then have "ids_ok (skip_head senders p s)"
    by (rule ids_ok_same) (use inv in \<open>simp_all add: sched_inv_def\<close>)
  moreover have "queues_ok (skip_head senders p s)"
    using inv by (simp add: sched_inv_def skip_head_queues_ok)
  moreover have "store_ok (skip_head senders p s)" using inv by (simp add: sched_inv_def store_ok_def)
  ultimately show ?thesis by (simp add: sched_inv_def)
qed

lemma skip_heads_inv: "sched_inv s \<Longrightarrow> sched_inv (fold (skip_head senders) ps s)"
  by (induction ps arbitrary: s) (auto intro: skip_head_inv)

lemma skip_heads_ids: "image_mset qt_task_id (mset (all_pending (fold (skip_head senders) ps s))) =
    image_mset qt_task_id (mset (all_pending s))"
  by (induction ps arbitrary: s) (auto simp: skip_head_ids)

lemma skip_heads_fields [simp]:
  "ts_running_tasks (fold (skip_head senders) ps s) = ts_running_tasks s"
  "ts_completed_tasks (fold (skip_head senders) ps s) = ts_completed_tasks s"
  "ts_task_counter (fold (skip_head senders) ps s) = ts_task_counter s"
  "ts_max_retries (fold (skip_head senders) ps s) = ts_max_retries s"
  "ts_task_timeout_secs (fold (skip_head senders) ps s) = ts_task_timeout_secs s"
  by (induction ps arbitrary: s) auto

lemma skip_heads_other:
  "p \<notin> set ps \<Longrightarrow>
     hm_get (ts_pending_tasks (fold (skip_head senders) ps s)) p = hm_get (ts_pending_tasks s) p"
  by (induction ps arbitrary: s) (auto simp: skip_head_other)

lemma start_head_pending:
  assumes "hm_get (ts_pending_tasks s) p = Some (t # q)"
  shows "mset (all_pending s) = add_mset t (mset (all_pending (start_head now i p t q s)))"
  using all_pending_insert [OF assms, of q] by (simp add: start_head_def all_pending_def)

lemma start_head_inv:
  assumes inv: "sched_inv s" and h: "hm_get (ts_pending_tasks s) p = Some (t # q)"
  shows "sched_inv (start_head now i p t q s)"
proof -
  let ?s = "start_head now i p t q s"
  have ids: "ids_ok s" and qs: "queues_ok s" using inv by (auto simp: sched_inv_def)
  note pend = start_head_pending [OF h, of now i]
  have "t \<in> set (all_pending s)" using pend by (metis set_mset_mset union_single_eq_member)
  then have "hm_get (ts_running_tasks s) (qt_task_id t) = None"
    using ids_ok_disjoint(1) [OF ids] by blast
  then have run: "qt_task_id t \<notin> set (hm_keys (ts_running_tasks s))"
    by (simp add: map_of_eq_None_iff)
  have "mset (hm_keys (ts_running_tasks ?s)) = add_mset (qt_task_id t) (mset (hm_keys (ts_running_tasks s)))"
    using run by (simp add: start_head_def hm_keys_mset_insert del: mset_map)
  moreover have "ts_completed_tasks ?s = ts_completed_tasks s" by (simp add: start_head_def)
  ultimately have "mset (task_ids ?s) = mset (task_ids s)"
    unfolding task_ids_mset using pend by simp
  then have "ids_ok ?s" by (rule ids_ok_same) (use ids in \<open>simp_all add: start_head_def\<close>)
  moreover have "list_all (queued_ok (ts_max_retries s) p) q"
    by (rule queues_ok_get [OF qs, of p]) (use h in auto)
  then have "queues_ok (s\<lparr>ts_pending_tasks := hm_insert p q (ts_pending_tasks s)\<rparr>)"
    by (rule queues_ok_insert [OF qs])
  then have "queues_ok ?s"
    by (rule queues_ok_cong [THEN iffD2, rotated 2]) (simp_all add: start_head_def)
  moreover have "store_ok ?s" using inv by (simp add: start_head_def sched_inv_def store_ok_def)
  ultimately show ?thesis by (simp add: sched_inv_def)
qed

lemma priorities_descending: "sorted_wrt (>) priorities \<and> set priorities = UNIV"
proof -
  have "p \<in> set priorities" for p by (cases p) (simp_all add: priorities_def)
  then show ?thesis by (auto simp: priorities_def less_priority_def)
qed

text \<open>What comes before a priority in the loop is exactly what is higher.\<close>

lemma priorities_higher:
  assumes "priorities = higher @ p # lower"
  shows "set higher = {p'. p < p'}"
proof -
  have "sorted_wrt (>) (higher @ p # lower)" "set (higher @ p # lower) = UNIV"
    using priorities_descending assms by simp_all
  then have hi: "\<And>x. x \<in> set higher \<Longrightarrow> p < x" and lo: "\<And>x. x \<in> set lower \<Longrightarrow> x < p"
    by (simp_all add: sorted_wrt_append)
  have "x \<in> set higher" if "p < x" for x
  proof -
    have "x \<in> set (higher @ p # lower)" using \<open>set (higher @ p # lower) = UNIV\<close> by blast
    then show ?thesis using that lo [of x] by (auto dest: order.strict_trans)
  qed
  then show ?thesis using hi by blast
qed

lemma priorities_split_notin: "priorities = ps1 @ p # ps2 \<Longrightarrow> p \<notin> set ps1"
proof -
  assume "priorities = ps1 @ p # ps2"
  moreover have "distinct priorities" by (simp add: priorities_def)
  ultimately have "distinct (ps1 @ p # ps2)" by (simp only:)
  then show ?thesis by simp
qed

lemma schedule_next_inv:
  assumes inv: "sched_inv s" and sn: "schedule_next e now mid nm senders s = (r, senders', s')"
  shows "sched_inv s'"
  using schedule_next_cases [of e nm senders s now mid]
proof cases
  case idle
  then show ?thesis using sn skip_heads_inv [OF inv] by simp
next
  case (started ps1 p ps2 t q i)
  have "hm_get (ts_pending_tasks (fold (skip_head senders) ps1 s)) p = Some (t # q)"
    using started(3) skip_heads_other [OF priorities_split_notin [OF started(1)]] by simp
  then show ?thesis using started(5) sn start_head_inv [OF skip_heads_inv [OF inv]] by simp
qed

lemma sched_inv_rehash:
  assumes inv: "sched_inv s" and pend: "mset pend = mset (ts_pending_tasks s)"
    and run: "mset run = mset (ts_running_tasks s)" and fin: "mset fin = mset (ts_completed_tasks s)"
  shows "sched_inv (s\<lparr>ts_pending_tasks := pend, ts_running_tasks := run, ts_completed_tasks := fin\<rparr>)"
    (is "sched_inv ?s")
proof -
  have ids: "ids_ok s" and qs: "queues_ok s" using inv by (auto simp: sched_inv_def)
  have "mset (concat (hm_values pend)) = mset (concat (hm_values (ts_pending_tasks s)))"
    using pend by (simp add: mset_concat sum_mset_sum_list [symmetric])
  then have "mset (task_ids ?s) = mset (task_ids s)"
    using run fin by (simp add: task_ids_mset all_pending_def)
  then have "ids_ok ?s" by (rule ids_ok_same) (use ids in simp_all)
  moreover have "queues_ok ?s"
  proof -
    have wf: "hm_wf (ts_pending_tasks s)" using qs by (simp add: queues_ok_def)
    have "set (hm_keys pend) = set (hm_keys (ts_pending_tasks s))"
      using pend by (metis mset_eq_setD mset_map)
    then show ?thesis using qs hm_get_perm [OF wf pend] by (simp add: queues_ok_def)
  qed
  moreover have "store_ok ?s"
    using inv hm_get_perm [OF ids_ok_wf(2) [OF ids] fin] fin
    by (simp add: sched_inv_def store_ok_def) (metis size_mset)
  ultimately show ?thesis by (simp add: sched_inv_def)
qed

lemma sched_inv_new: "sched_inv (task_scheduler_new r t)"
proof -
  have "p \<in> {Critical, Urgent, High, Normal, Low, Background}" for p by (cases p) simp_all
  then show ?thesis
    by (auto simp: sched_inv_def ids_ok_def queues_ok_def store_ok_def task_ids_def all_pending_def
        task_scheduler_new_def priorities_def split: if_splits)
qed

lemma sched_step_inv: "sched_inv s \<Longrightarrow> sched_step s s' \<Longrightarrow> sched_inv s'"
  by (erule sched_stepE)
     (auto intro: sched_submit_task_inv schedule_next_inv complete_task_inv sched_cancel_task_inv
       sched_inv_rehash timeouts_step_inv)

interpretation sched: step_system "\<lambda>s. \<exists>r t. s = task_scheduler_new r t" sched_step sched_inv
  by unfold_locales (auto simp: sched_inv_new intro: sched_step_inv)


subsection \<open>The life of a task\<close>

definition status_of :: "task_scheduler \<Rightarrow> task_id \<Rightarrow> task_status option" where
  "status_of s tid = map_option si_status (get_task_status s tid)"

lemma find_pending_None: "find_pending tid m = None \<longleftrightarrow> tid \<notin> qt_task_id ` set (concat (hm_values m))"
proof (induction m)
  case (Cons x m)
  obtain p q where x: "x = (p, q)" by (cases x)
  have "find (\<lambda>t. qt_task_id t = tid) q = None \<longleftrightarrow> tid \<notin> qt_task_id ` set q"
    by (induction q) auto
  then show ?case
    using Cons x by (cases "find (\<lambda>t. qt_task_id t = tid) q") (simp_all add: image_Un)
qed simp

lemma status_of_eq:
  "status_of s tid =
     (case hm_get (ts_running_tasks s) tid of Some _ \<Rightarrow> Some Running
      | None \<Rightarrow> (case hm_get (ts_completed_tasks s) tid of Some c \<Rightarrow> Some (ct_status c)
        | None \<Rightarrow> if tid \<in> qt_task_id ` set (all_pending s) then Some Queued else None))"
  using find_pending_None [of tid "ts_pending_tasks s"]
  by (auto simp: status_of_def get_task_status_def all_pending_def split: option.splits)

lemma status_of_cong:
  assumes "hm_get (ts_running_tasks s) j = hm_get (ts_running_tasks t) j"
    and "hm_get (ts_completed_tasks s) j = hm_get (ts_completed_tasks t) j"
    and "j \<in> qt_task_id ` set (all_pending s) \<longleftrightarrow> j \<in> qt_task_id ` set (all_pending t)"
  shows "status_of s j = status_of t j"
  unfolding status_of_eq assms ..

text \<open>The legal changes of the status of one task in one operation; \<open>None\<close> is an unknown task.\<close>

fun lifecycle :: "task_status option \<Rightarrow> task_status option \<Rightarrow> bool" where
  "lifecycle None b = (b = None \<or> b = Some Queued)"
| "lifecycle (Some Queued) b = (b \<in> {Some Queued, Some Running, Some Cancelled, None})"
| "lifecycle (Some Running) b =
     (b \<in> {Some Running, Some Completed, Some Failed, Some Cancelled, Some Timeout, None})"
| "lifecycle (Some st) b = (b = Some st \<or> b = None)"

lemma lifecycle_refl [simp]: "lifecycle a a"
proof (cases a)
  case (Some st)
  then show ?thesis by (cases st) simp_all
qed simp

lemma lifecycle_terminal: "terminal st \<Longrightarrow> lifecycle (Some st) b \<longleftrightarrow> b = Some st \<or> b = None"
  by (auto simp: terminal_def)

text \<open>Entering the store: the task itself is finished (or evicted at once), others keep their status or are evicted.\<close>

lemma store_status:
  assumes wf: "hm_wf (ts_completed_tasks s)" and run: "hm_get (ts_running_tasks s) (ct_task_id c) = None"
    and pend: "ct_task_id c \<notin> qt_task_id ` set (all_pending s)"
  shows "status_of (store_completed_task c s) (ct_task_id c) \<in> {Some (ct_status c), None}"
    and "j \<noteq> ct_task_id c \<Longrightarrow> ids_ok s \<Longrightarrow> store_ok s \<Longrightarrow>
      lifecycle (status_of s j) (status_of (store_completed_task c s) j)"
proof -
  note get = store_completed_get [OF wf, of c, unfolded get_completed_task_def]
  show "status_of (store_completed_task c s) (ct_task_id c) \<in> {Some (ct_status c), None}"
    unfolding status_of_eq get using run pend by (simp add: all_pending_def)
  show "lifecycle (status_of s j) (status_of (store_completed_task c s) j)"
    if "j \<noteq> ct_task_id c" "ids_ok s" "store_ok s"
  proof (cases "hm_get (ts_completed_tasks s) j")
    case None
    then have "status_of (store_completed_task c s) j = status_of s j"
      using that by (intro status_of_cong) (simp_all add: get all_pending_def)
    then show ?thesis by simp
  next
    case (Some d)
    then have "terminal (ct_status d)" using that(3) by (simp add: store_ok_def)
    moreover have "hm_get (ts_running_tasks s) j = None" "j \<notin> qt_task_id ` set (all_pending s)"
      using ids_ok_disjoint [OF that(2), of j] Some by (cases "hm_get (ts_running_tasks s) j"; auto)+
    moreover from this have "status_of s j = Some (ct_status d)"
      using Some by (simp add: status_of_eq)
    ultimately show ?thesis
      unfolding status_of_eq [of "store_completed_task c s"] get
      using that Some by (simp add: all_pending_def lifecycle_terminal)
  qed
qed

lemma status_of_send [simp]: "status_of (send_result r s) = status_of s"
  by (intro ext status_of_cong) (simp_all add: all_pending_def)

lemma finish_running_status:
  assumes inv: "sched_inv s" and r: "hm_get (ts_running_tasks s) tid = Some r" and "terminal st"
  shows "lifecycle (status_of s j) (status_of (finish_running now st result rep tid r s) j)"
    and "status_of (finish_running now st result rep tid r s) tid \<in> {Some st, None}"
proof -
  let ?s = "s\<lparr>ts_running_tasks := hm_remove tid (ts_running_tasks s)\<rparr>"
  let ?c = "completed_of now st result r tid"
  have ids: "ids_ok s" using inv by (simp add: sched_inv_def)
  have c: "ct_task_id ?c = tid" "ct_status ?c = st" by (simp_all add: completed_of_def)
  have wf: "hm_wf (ts_completed_tasks ?s)" using ids_ok_wf(2) [OF ids] by simp
  have pend: "tid \<notin> qt_task_id ` set (all_pending s)" using ids_ok_disjoint(1) [OF ids, of tid] r by auto
  have "mset (task_ids s) = add_mset tid (mset (task_ids ?s))"
    using hm_keys_mset_remove [OF ids_ok_wf(1) [OF ids] hm_get_SomeD [OF r]]
    by (simp add: task_ids_mset all_pending_def)
  then have ids': "ids_ok ?s"
    by (intro ids_ok_shrink [OF ids]) (simp_all add: subset_mset.less_imp_le)
  have st': "store_ok ?s" using inv by (simp add: sched_inv_def store_ok_def)
  have run: "hm_get (ts_running_tasks ?s) (ct_task_id ?c) = None" by (simp add: c hm_get_remove)
  have pend': "ct_task_id ?c \<notin> qt_task_id ` set (all_pending ?s)" using pend by (simp add: c all_pending_def)
  note ss = store_status [OF wf run pend']
  show own: "status_of (finish_running now st result rep tid r s) tid \<in> {Some st, None}"
    using ss(1) by (simp add: finish_running_def c)
  show "lifecycle (status_of s j) (status_of (finish_running now st result rep tid r s) j)"
  proof (cases "j = tid")
    case True
    have "status_of s tid = Some Running" using r by (simp add: status_of_eq)
    then show ?thesis using own True assms(3) by (auto simp: terminal_def)
  next
    case False
    have "status_of ?s j = status_of s j"
      using False by (intro status_of_cong) (simp_all add: hm_get_remove all_pending_def)
    then show ?thesis using ss(2) [of j] False ids' st' by (simp add: finish_running_def c)
  qed
qed


lemma complete_task_lifecycle:
  "sched_inv s \<Longrightarrow> lifecycle (status_of s j) (status_of (complete_task now tid n result s) j)"
  by (auto simp: complete_task_def finish_running_status split: option.splits)

lemma time_out_task_lifecycle:
  "sched_inv s \<Longrightarrow> lifecycle (status_of s j) (status_of (time_out_task now tid s) j)"
  by (auto simp: time_out_task_def finish_running_status split: option.splits)

lemma lifecycle_no_start:
  "lifecycle a b \<Longrightarrow> lifecycle b c \<Longrightarrow> a \<notin> {None, Some Queued} \<Longrightarrow> b \<noteq> None \<Longrightarrow> lifecycle a c"
proof (cases a)
  case (Some st)
  assume "lifecycle a b" "lifecycle b c" "a \<notin> {None, Some Queued}" "b \<noteq> None"
  then show ?thesis using Some by (cases st) auto
qed simp

text \<open>A task that is unknown or queued is not touched when another one enters the store.\<close>

lemma not_stored:
  assumes "sched_inv s" and "status_of s j \<in> {None, Some Queued}"
  shows "hm_get (ts_running_tasks s) j = None" and "hm_get (ts_completed_tasks s) j = None"
proof -
  have term_j: "terminal (ct_status d)" if "hm_get (ts_completed_tasks s) j = Some d" for d
    using assms(1) that by (simp add: sched_inv_def store_ok_def)
  show "hm_get (ts_running_tasks s) j = None" "hm_get (ts_completed_tasks s) j = None"
    using assms(2) term_j unfolding status_of_eq by (auto split: option.splits if_splits)
qed

lemma store_keeps:
  assumes "hm_wf (ts_completed_tasks s)" and "j \<noteq> ct_task_id c" and "hm_get (ts_completed_tasks s) j = None"
  shows "status_of (store_completed_task c s) j = status_of s j"
  using assms store_completed_get [OF assms(1), unfolded get_completed_task_def]
  by (intro status_of_cong) (simp_all add: all_pending_def)

lemma finish_running_keeps:
  assumes inv: "sched_inv s" and j: "status_of s j \<in> {None, Some Queued}"
    and r: "hm_get (ts_running_tasks s) tid = Some r"
  shows "status_of (finish_running now st result rep tid r s) j = status_of s j"
proof -
  let ?s = "s\<lparr>ts_running_tasks := hm_remove tid (ts_running_tasks s)\<rparr>"
  note ns = not_stored [OF inv j]
  have "j \<noteq> tid" using ns(1) r by auto
  moreover have "hm_wf (ts_completed_tasks ?s)" using inv ids_ok_wf(2) by (simp add: sched_inv_def)
  ultimately have "status_of (store_completed_task (completed_of now st result r tid) ?s) j = status_of ?s j"
    using ns by (intro store_keeps) (simp_all add: completed_of_def)
  also have "\<dots> = status_of s j"
    using \<open>j \<noteq> tid\<close> by (intro status_of_cong) (simp_all add: hm_get_remove all_pending_def)
  finally show ?thesis by (simp add: finish_running_def)
qed

lemma time_out_keeps:
  "sched_inv s \<Longrightarrow> status_of s j \<in> {None, Some Queued} \<Longrightarrow>
     status_of (time_out_task now tid s) j = status_of s j"
  by (simp add: time_out_task_def finish_running_keeps split: option.splits)

lemma time_outs_keep:
  "sched_inv s \<Longrightarrow> status_of s j \<in> {None, Some Queued} \<Longrightarrow>
     status_of (fold (time_out_task now) tids s) j = status_of s j"
proof (induction tids arbitrary: s)
  case (Cons v vs)
  then show ?case using time_out_keeps [OF Cons.prems, of now v] time_out_task_inv by auto
qed simp

lemma time_outs_lifecycle:
  "sched_inv s \<Longrightarrow> lifecycle (status_of s j) (status_of (fold (time_out_task now) tids s) j)"
proof (induction tids arbitrary: s)
  case (Cons t ts)
  let ?t = "time_out_task now t s"
  have one: "lifecycle (status_of s j) (status_of ?t j)"
    using Cons.prems by (rule time_out_task_lifecycle)
  have more: "lifecycle (status_of ?t j) (status_of (fold (time_out_task now) ts ?t) j)"
    using Cons by (simp add: time_out_task_inv)
  show ?case
  proof (cases "status_of s j \<in> {None, Some Queued}")
    case True
    then show ?thesis using time_outs_keep [OF Cons.prems True, of now "t # ts"] by simp
  next
    case known: False
    show ?thesis
    proof (cases "status_of ?t j = None")
      case True
      then have "status_of (fold (time_out_task now) ts ?t) j = None"
        using time_outs_keep [of ?t j now ts] Cons.prems by (simp add: time_out_task_inv)
      then show ?thesis using one True by simp
    next
      case False
      then show ?thesis using lifecycle_no_start [OF one more known] by simp
    qed
  qed
qed simp

lemma submit_status:
  assumes inv: "sched_inv s" and sub: "sched_submit_task now cmd ctx p caps tags hint s = (tid, s')"
  shows "status_of s' j = (if j = tid then Some Queued else status_of s j)"
proof -
  have q: "queues_ok s" and ids: "ids_ok s" using inv by (auto simp: sched_inv_def)
  let ?t = "submitted_task now cmd ctx p caps tags hint s"
  obtain qu where qu: "hm_get (ts_pending_tasks s) p = Some qu"
    and s': "s' = s\<lparr>ts_task_counter := ts_task_counter s + 1,
         ts_pending_tasks := hm_insert p (qu @ [?t]) (ts_pending_tasks s)\<rparr>"
    and tid: "tid = task_id_of (unat (ts_task_counter s))"
    using sched_submit_task_eq [OF q, of p now cmd ctx caps tags hint] sub by auto
  have "mset (all_pending s') = add_mset ?t (mset (all_pending s))"
    using all_pending_insert [OF qu, of "qu @ [?t]"] by (simp add: s' all_pending_def)
  then have "set (all_pending s') = insert ?t (set (all_pending s))"
    by (metis set_mset_add_mset_insert set_mset_mset)
  then have pend: "qt_task_id ` set (all_pending s') = insert tid (qt_task_id ` set (all_pending s))"
    by (simp add: tid submitted_task_def)
  have "tid \<notin> set (task_ids s)" using ids by (force simp: ids_ok_def issued_def tid)
  then have "hm_get (ts_running_tasks s) tid = None" "hm_get (ts_completed_tasks s) tid = None"
    by (simp_all add: task_ids_def map_of_eq_None_iff)
  moreover have "ts_running_tasks s' = ts_running_tasks s" "ts_completed_tasks s' = ts_completed_tasks s"
    by (simp_all add: s')
  ultimately show ?thesis unfolding status_of_eq pend by (simp cong: option.case_cong)
qed

lemma skip_heads_status: "status_of (fold (skip_head senders) ps s) j = status_of s j"
proof (rule status_of_cong)
  have "set_mset (image_mset qt_task_id (mset (all_pending (fold (skip_head senders) ps s)))) =
      set_mset (image_mset qt_task_id (mset (all_pending s)))" by (simp only: skip_heads_ids)
  then show "j \<in> qt_task_id ` set (all_pending (fold (skip_head senders) ps s)) \<longleftrightarrow>
      j \<in> qt_task_id ` set (all_pending s)" by simp
qed simp_all

lemma start_head_status:
  assumes inv: "sched_inv s" and h: "hm_get (ts_pending_tasks s) p = Some (t # q)"
  shows "status_of (start_head now i p t q s) j = (if j = qt_task_id t then Some Running else status_of s j)"
    and "status_of s (qt_task_id t) = Some Queued"
proof -
  have ids: "ids_ok s" using inv by (simp add: sched_inv_def)
  have pend: "set (all_pending s) = insert t (set (all_pending (start_head now i p t q s)))"
    using start_head_pending [OF h, of now i] by (metis set_mset_add_mset_insert set_mset_mset)
  then have "qt_task_id t \<in> qt_task_id ` set (all_pending s)" by simp
  then show "status_of s (qt_task_id t) = Some Queued"
    using ids_ok_disjoint(1) [OF ids] by (simp add: status_of_eq)
  show "status_of (start_head now i p t q s) j = (if j = qt_task_id t then Some Running else status_of s j)"
  proof (cases "j = qt_task_id t")
    case True
    then show ?thesis by (simp add: status_of_eq) (simp add: start_head_def hm_get_insert)
  next
    case False
    then have "status_of (start_head now i p t q s) j = status_of s j"
      using pend by (intro status_of_cong) (simp_all add: start_head_def hm_get_insert)
    then show ?thesis using False by simp
  qed
qed


lemma schedule_next_status:
  assumes inv: "sched_inv s" and sn: "schedule_next e now mid nm senders s = (r, senders', s')"
  shows "status_of s' j =
    (if r \<noteq> None \<and> j = st_task_id (the r) then Some Running else status_of s j)"
    and "r \<noteq> None \<Longrightarrow> status_of s (st_task_id (the r)) = Some Queued"
proof -
  have "(status_of s' j =
      (if r \<noteq> None \<and> j = st_task_id (the r) then Some Running else status_of s j)) \<and>
      (r \<noteq> None \<longrightarrow> status_of s (st_task_id (the r)) = Some Queued)"
    using schedule_next_cases [of e nm senders s now mid]
  proof cases
    case idle
    then show ?thesis using sn by (simp add: skip_heads_status)
  next
    case (started ps1 p ps2 t q i)
    have "hm_get (ts_pending_tasks (fold (skip_head senders) ps1 s)) p = Some (t # q)"
      using started(3) skip_heads_other [OF priorities_split_notin [OF started(1)]] by simp
    note sh = start_head_status [OF skip_heads_inv [OF inv] this]
    then show ?thesis using started(5) sn by (auto simp: skip_heads_status)
  qed
  then show "status_of s' j =
      (if r \<noteq> None \<and> j = st_task_id (the r) then Some Running else status_of s j)"
    and "r \<noteq> None \<Longrightarrow> status_of s (st_task_id (the r)) = Some Queued" by blast+
qed

lemma take_pending_status:
  assumes inv: "sched_inv s" and t: "take_pending tid (ts_pending_tasks s) = Some (t, pend)"
    and c: "ct_task_id c = tid" "ct_status c = Cancelled"
  shows "lifecycle (status_of s j) (status_of (store_completed_task c (s\<lparr>ts_pending_tasks := pend\<rparr>)) j)"
    and "status_of s tid = Some Queued"
    and "status_of (store_completed_task c (s\<lparr>ts_pending_tasks := pend\<rparr>)) tid \<in> {Some Cancelled, None}"
proof -
  let ?s = "s\<lparr>ts_pending_tasks := pend\<rparr>"
  have ids: "ids_ok s" using inv by (simp add: sched_inv_def)
  note tp = take_pending_Some [OF t]
  have pend: "mset (all_pending s) = add_mset t (mset (all_pending ?s))"
    using tp by (simp add: all_pending_def)
  then have dist: "distinct (map qt_task_id (t # all_pending ?s))"
    using ids_ok_wf(3) [OF ids] by (metis mset.simps(2) mset_eq_imp_distinct_iff mset_map)
  have sets: "qt_task_id ` set (all_pending s) = insert tid (qt_task_id ` set (all_pending ?s))"
    using pend tp by (metis image_insert set_mset_add_mset_insert set_mset_mset)
  have none: "hm_get (ts_running_tasks s) tid = None" "hm_get (ts_completed_tasks s) tid = None"
    using ids_ok_disjoint(1) [OF ids, of tid] sets by simp_all
  show queued: "status_of s tid = Some Queued" using none sets by (simp add: status_of_eq)
  have "mset (task_ids s) = add_mset tid (mset (task_ids ?s))"
    using tp by (simp add: task_ids_mset all_pending_def)
  then have ids': "ids_ok ?s"
    by (intro ids_ok_shrink [OF ids]) (simp_all add: subset_mset.less_imp_le)
  have st': "store_ok ?s" using inv by (simp add: sched_inv_def store_ok_def)
  have gone: "ct_task_id c \<notin> qt_task_id ` set (all_pending ?s)" using dist tp c by simp
  have run: "hm_get (ts_running_tasks ?s) (ct_task_id c) = None" using none c by simp
  note ss = store_status [OF ids_ok_wf(2) [OF ids'] run gone]
  show own: "status_of (store_completed_task c ?s) tid \<in> {Some Cancelled, None}"
    using ss(1) c by simp
  show "lifecycle (status_of s j) (status_of (store_completed_task c ?s) j)"
  proof (cases "j = tid")
    case True
    then show ?thesis using own queued by auto
  next
    case False
    have "status_of ?s j = status_of s j"
      using False sets by (intro status_of_cong) simp_all
    then show ?thesis using ss(2) [of j] False ids' st' c by simp
  qed
qed

lemma sched_cancel_lifecycle:
  assumes inv: "sched_inv s" and can: "sched_cancel_task now tid s = Inr s'"
  shows "lifecycle (status_of s j) (status_of s' j)"
    and "status_of s' tid \<in> {Some Cancelled, None}" and "status_of s tid \<in> {Some Queued, Some Running}"
proof -
  have "lifecycle (status_of s j) (status_of s' j) \<and> status_of s' tid \<in> {Some Cancelled, None} \<and>
      status_of s tid \<in> {Some Queued, Some Running}"
  proof (cases "take_pending tid (ts_pending_tasks s)")
    case None
    then obtain r where r: "hm_get (ts_running_tasks s) tid = Some r"
      and s': "s' = finish_running now Cancelled cancelled_result (rt_node_id r) tid r s"
      using can by (auto simp: sched_cancel_task_def split: option.splits)
    have "status_of s tid = Some Running" using r by (simp add: status_of_eq)
    then show ?thesis
      using finish_running_status [OF inv r, of Cancelled] by (auto simp: s')
  next
    case (Some tp)
    obtain t pend where tp: "tp = (t, pend)" by (cases tp)
    obtain c where "status_of s' = status_of (store_completed_task c (s\<lparr>ts_pending_tasks := pend\<rparr>))"
        "ct_task_id c = tid" "ct_status c = Cancelled"
      using can Some tp take_pending_Some [OF Some [unfolded tp]]
      by (auto simp: sched_cancel_task_def)
    then show ?thesis using take_pending_status [OF inv Some [unfolded tp], of c] by simp
  qed
  then show "lifecycle (status_of s j) (status_of s' j)"
    and "status_of s' tid \<in> {Some Cancelled, None}" and "status_of s tid \<in> {Some Queued, Some Running}"
    by auto
qed

lemma sched_cancel_keeps:
  assumes inv: "sched_inv s" and j: "status_of s j = None" and can: "sched_cancel_task now tid s = Inr s'"
  shows "status_of s' j = None"
proof (cases "take_pending tid (ts_pending_tasks s)")
  case None
  then obtain r where "hm_get (ts_running_tasks s) tid = Some r"
    and "s' = finish_running now Cancelled cancelled_result (rt_node_id r) tid r s"
    using can by (auto simp: sched_cancel_task_def split: option.splits)
  then show ?thesis using finish_running_keeps [OF inv, of j] j by simp
next
  case (Some tp)
  obtain t pend where tp: "tp = (t, pend)" by (cases tp)
  let ?s = "s\<lparr>ts_pending_tasks := pend\<rparr>"
  obtain c where s': "status_of s' = status_of (store_completed_task c ?s)"
      and c: "ct_task_id c = tid" "ct_status c = Cancelled"
    using can Some tp take_pending_Some [OF Some [unfolded tp]]
    by (auto simp: sched_cancel_task_def)
  have "j \<noteq> tid" using take_pending_status(2) [OF inv Some [unfolded tp] c] j by auto
  moreover have "hm_wf (ts_completed_tasks ?s)" using inv ids_ok_wf(2) by (simp add: sched_inv_def)
  ultimately have "status_of (store_completed_task c ?s) j = status_of ?s j"
    using not_stored [OF inv, of j] j c by (intro store_keeps) simp_all
  moreover have "set (all_pending ?s) \<subseteq> set (all_pending s)"
    using take_pending_Some [OF Some [unfolded tp]]
    by (simp add: all_pending_def del: set_concat) (metis set_mset_add_mset_insert set_mset_mset subset_insertI)
  then have "status_of ?s j = None"
    using j by (auto simp: status_of_eq split: option.splits if_splits)
  ultimately show ?thesis using s' by simp
qed

lemma rehash_status:
  assumes inv: "sched_inv s" and pend: "mset pend = mset (ts_pending_tasks s)"
    and run: "mset run = mset (ts_running_tasks s)" and fin: "mset fin = mset (ts_completed_tasks s)"
  shows "status_of (s\<lparr>ts_pending_tasks := pend, ts_running_tasks := run, ts_completed_tasks := fin\<rparr>) j =
    status_of s j"
proof (rule status_of_cong)
  have ids: "ids_ok s" using inv by (simp add: sched_inv_def)
  have "set pend = set (ts_pending_tasks s)" using pend by (metis set_mset_mset)
  then show "j \<in> qt_task_id ` set (all_pending (s\<lparr>ts_pending_tasks := pend, ts_running_tasks := run,
      ts_completed_tasks := fin\<rparr>)) \<longleftrightarrow> j \<in> qt_task_id ` set (all_pending s)"
    by (simp add: all_pending_def)
  show "hm_get (ts_running_tasks (s\<lparr>ts_pending_tasks := pend, ts_running_tasks := run,
      ts_completed_tasks := fin\<rparr>)) j = hm_get (ts_running_tasks s) j"
    using hm_get_perm [OF ids_ok_wf(1) [OF ids] run] by simp
  show "hm_get (ts_completed_tasks (s\<lparr>ts_pending_tasks := pend, ts_running_tasks := run,
      ts_completed_tasks := fin\<rparr>)) j = hm_get (ts_completed_tasks s) j"
    using hm_get_perm [OF ids_ok_wf(2) [OF ids] fin] by simp
qed

lemma status_None_new_id:
  assumes "sched_inv s" and "sched_submit_task now cmd ctx p caps tags hint s = (tid, s')"
  shows "status_of s tid = None" and "\<not> issued s tid"
proof -
  have tid: "tid = task_id_of (unat (ts_task_counter s))"
    using assms(2) by (simp add: sched_submit_task_def generate_task_id_def)
  then show new: "\<not> issued s tid" by (simp add: issued_def)
  then have "tid \<notin> set (task_ids s)" using assms(1) by (auto simp: sched_inv_def ids_ok_def)
  then show "status_of s tid = None"
    by (auto simp: status_of_eq task_ids_def map_of_eq_None_iff split: option.splits)
qed


subsection \<open>Properties\<close>

text \<open>
  In every state the scheduler reaches, whatever the sequence of submissions, scheduling
  rounds, results, cancellations and timeout sweeps, the nodes and channels they meet, and the
  iteration order of its maps: no task id occurs twice among the pending, running and finished
  tasks, at most 500 finished tasks are kept, and every queued task is in the queue of its own
  priority with a retry count within its limit.
\<close>

theorem scheduler_reachable:
  assumes "sched_step\<^sup>*\<^sup>* (task_scheduler_new r t) s"
  shows "distinct (task_ids s) \<and> length (ts_completed_tasks s) \<le> 500 \<and>
    (\<forall>p q. hm_get (ts_pending_tasks s) p = Some q \<longrightarrow>
       list_all (\<lambda>u. qt_priority u = p \<and> qt_retry_count u \<le> qt_max_retries u) q)"
proof -
  have inv: "sched_inv s" using assms by (blast intro: sched.reachable_good)
  have "list_all (\<lambda>u. qt_priority u = p \<and> qt_retry_count u \<le> qt_max_retries u) q"
    if "hm_get (ts_pending_tasks s) p = Some q" for p q
  proof -
    have "list_all (queued_ok (ts_max_retries s) p) q"
      using inv that by (simp add: sched_inv_def queues_ok_def)
    then show ?thesis by (rule list.pred_mono_strong) (auto simp: queued_ok_def)
  qed
  then show ?thesis using inv by (simp add: sched_inv_def ids_ok_def store_ok_def)
qed

definition example_submit :: "task_id \<times> task_scheduler" where
  "example_submit =
     sched_submit_task 0 (Shell (shell_command_new ''ls''))
       (task_context_new 0 (UserId ''u'') (SessionId ''s'') ''cli'') High None [] None
       (task_scheduler_new 3 60)"

definition example_env :: env where
  "example_env = \<lparr>env_fs = \<lparr>fs_exists = \<lambda>_. True, fs_is_dir = \<lambda>_. True, fs_canonicalize = \<lambda>p. Some p\<rparr>,
     env_f32 = \<lambda>x. x\<rparr>"

definition example_senders :: senders where
  "example_senders = [(NodeId ''a'', \<lparr>tx_open = True, tx_sent = []\<rparr>)]"

definition example_running :: task_scheduler where
  "example_running =
     snd (snd (schedule_next example_env 7 (MessageId ''m'') example_manager example_senders
       (snd example_submit)))"

lemma example_submit_step: "sched_step (task_scheduler_new 3 60) (snd example_submit)"
  unfolding example_submit_def
  by (rule sched_submit [where tid = "fst example_submit"])
     (simp_all add: task_scheduler_new_def example_submit_def)

lemma example_submit_inv: "sched_inv (snd example_submit)"
  using sched_step_inv [OF sched_inv_new example_submit_step] .

lemma example_running_step: "sched_step (snd example_submit) example_running"
  unfolding example_running_def
  by (rule sched_schedule [of example_env 7 "MessageId ''m''" example_manager example_senders _
        "fst (schedule_next example_env 7 (MessageId ''m'') example_manager example_senders (snd example_submit))"
        "fst (snd (schedule_next example_env 7 (MessageId ''m'') example_manager example_senders (snd example_submit)))"])
     simp

lemma example_running_inv: "sched_inv example_running"
  using sched_step_inv [OF example_submit_inv example_running_step] .

lemma dec_string_0 [simp]: "dec_string 0 = ''0''"
  by code_simp

lemmas example_submit_eval = example_submit_def sched_submit_task_def generate_task_id_def
  task_scheduler_new_def priorities_def Let_def hm_modify_def task_id_of_def

lemmas example_running_eval = example_running_def schedule_next_def schedule_from.simps
  example_submit_eval task_candidates_def task_eligible_def get_online_nodes_def example_manager_eval
  example_senders_def task_context_new_def rank_by_load_def send_to_node_def mpsc_send_def

lemma example_running_open: "ts_result_open example_running"
  by (simp add: example_running_eval)

lemma example_running_get:
  "hm_get (ts_running_tasks example_running) (TaskId ''task-0'') =
     Some (running_of 7 60 (NodeId ''a'')
       (hd (the (hm_get (ts_pending_tasks (snd example_submit)) High))))"
  by (simp add: example_running_eval)

theorem scheduler_reachable_witness:
  "sched_step\<^sup>*\<^sup>* (task_scheduler_new 3 60) (snd example_submit) \<and> distinct (task_ids (snd example_submit)) \<and>
   task_ids (snd example_submit) = [TaskId ''task-0'']"
proof -
  have run: "sched_step\<^sup>*\<^sup>* (task_scheduler_new 3 60) (snd example_submit)"
    using example_submit_step by blast
  moreover have "task_ids (snd example_submit) = [TaskId ''task-0'']"
    by (simp add: task_ids_def all_pending_def example_submit_eval)
  ultimately show ?thesis using scheduler_reachable [OF run] by simp
qed



lemma task_step_lifecycle:
  assumes inv: "sched_inv s" and step: "sched_step s s'"
  shows "lifecycle (status_of s tid) (status_of s' tid)"
  using step
proof cases
  case (sched_submit now cmd ctx p caps tags hint j)
  then show ?thesis
    using submit_status [OF inv sched_submit(2), of tid] status_None_new_id [OF inv sched_submit(2)] by auto
next
  case (sched_schedule e now mid nm senders r senders')
  then show ?thesis
    using schedule_next_status(1) [OF inv sched_schedule, of tid] schedule_next_status(2) [OF inv sched_schedule]
    by auto
next
  case (sched_complete now j n result)
  then show ?thesis using complete_task_lifecycle [OF inv] by simp
next
  case (sched_cancel now j)
  then show ?thesis using sched_cancel_lifecycle [OF inv] by blast
next
  case (sched_timeouts now tids)
  then show ?thesis
    using time_outs_lifecycle [OF inv] by (auto simp: check_task_timeouts_def Let_def)
next
  case (sched_rehash pend run fin)
  then show ?thesis using rehash_status [OF inv sched_rehash(2-4)] by simp
qed

text \<open>
  Whatever operation runs, the status of every task moves only along its life cycle:
  unknown to queued, queued to running or cancelled, running to one of the four final statuses,
  and a final status never to another one (a finished task may only be forgotten).
\<close>

theorem task_lifecycle:
  assumes "sched_inv s" and "sched_step s s'"
  shows "lifecycle (status_of s tid) (status_of s' tid)"
  using assms by (rule task_step_lifecycle)

theorem task_lifecycle_witness:
  "sched_step (snd example_submit) example_running \<and>
   status_of (snd example_submit) (TaskId ''task-0'') = Some Queued \<and>
   status_of example_running (TaskId ''task-0'') = Some Running \<and>
   lifecycle (status_of (snd example_submit) (TaskId ''task-0''))
     (status_of example_running (TaskId ''task-0''))"
proof -
  have "status_of (snd example_submit) (TaskId ''task-0'') = Some Queued"
    by (simp add: status_of_eq all_pending_def example_submit_eval)
  moreover have "status_of example_running (TaskId ''task-0'') = Some Running"
    using example_running_get by (simp add: status_of_eq)
  ultimately show ?thesis
    using task_lifecycle [OF example_submit_inv example_running_step, of "TaskId ''task-0''"]
      example_running_step by simp
qed

lemma finish_running_counter [simp]:
  "ts_task_counter (finish_running now st result rep tid r s) = ts_task_counter s"
  by (simp add: finish_running_def)

lemma cancel_counter: "sched_cancel_task now tid s = Inr s' \<Longrightarrow> ts_task_counter s' = ts_task_counter s"
  by (auto simp: sched_cancel_task_def split: option.splits)

lemma schedule_next_counter:
  "schedule_next e now mid nm senders s = (r, senders', s') \<Longrightarrow> ts_task_counter s' = ts_task_counter s"
  using schedule_next_cases [of e nm senders s now mid]
  by cases (simp_all add: start_head_def, auto)

lemma counter_mono:
  assumes inv: "sched_inv s" and "sched_step s s'"
  shows "unat (ts_task_counter s) \<le> unat (ts_task_counter s')"
  using assms(2)
proof cases
  case (sched_submit now cmd ctx p caps tags hint j)
  then have "ts_task_counter s' = ts_task_counter s + 1"
    by (auto simp: sched_submit_task_def generate_task_id_def)
  then show ?thesis using counter_Suc [OF sched_submit(1)] by simp
next
  case (sched_schedule e now mid nm senders r senders')
  then show ?thesis by (simp add: schedule_next_counter)
next
  case (sched_complete now tid n result)
  then show ?thesis by (simp add: complete_task_def split: option.splits)
next
  case (sched_cancel now tid)
  then show ?thesis by (simp add: cancel_counter)
next
  case (sched_timeouts now tids)
  have "ts_task_counter (fold (time_out_task now) us u) = ts_task_counter u" for us u
    by (induction us arbitrary: u) (auto simp: time_out_task_def split: option.splits)
  then show ?thesis using sched_timeouts by (auto simp: check_task_timeouts_def Let_def)
qed simp

lemma not_issued_status: "sched_inv s \<Longrightarrow> status_of s tid \<noteq> None \<Longrightarrow> issued s tid"
  by (auto simp: sched_inv_def ids_ok_def status_of_eq task_ids_def
      split: option.splits if_splits dest!: hm_get_SomeD)

lemma unknown_issued_stays:
  assumes inv: "sched_inv s" and "issued s tid" and "status_of s tid = None" and step: "sched_step s s'"
  shows "status_of s' tid = None"
  using step
proof cases
  case (sched_submit now cmd ctx p caps tags hint j)
  then show ?thesis
    using submit_status [OF inv sched_submit(2), of tid] status_None_new_id(2) [OF inv sched_submit(2)] assms
    by auto
next
  case (sched_schedule e now mid nm senders r senders')
  then show ?thesis
    using schedule_next_status(1) [OF inv sched_schedule, of tid] schedule_next_status(2) [OF inv sched_schedule]
      assms(3) by auto
next
  case (sched_complete now j n result)
  then show ?thesis
    using finish_running_keeps [OF inv, of tid] assms(3) by (simp add: complete_task_def split: option.splits)
next
  case (sched_cancel now j)
  then show ?thesis using sched_cancel_keeps [OF inv assms(3)] by blast
next
  case (sched_timeouts now tids)
  then show ?thesis using time_outs_keep [OF inv] assms(3) by (auto simp: check_task_timeouts_def Let_def)
next
  case (sched_rehash pend run fin)
  then show ?thesis using rehash_status [OF inv sched_rehash(2-4)] assms(3) by simp
qed


text \<open>
  C3: once a task is finished, cancelled or timed out, no later operation, however many and in
  whatever order, runs it again or changes its outcome: its status is the same or, after the
  store evicted it, unknown. Late results of the node therefore change nothing.
\<close>

theorem terminal_status_stable:
  assumes "sched_inv s" and "status_of s tid = Some st" and "terminal st" and "sched_step\<^sup>*\<^sup>* s s'"
  shows "status_of s' tid = Some st \<or> status_of s' tid = None"
proof -
  have "sched_inv s' \<and> issued s' tid \<and> (status_of s' tid = Some st \<or> status_of s' tid = None)"
    using assms(4)
  proof (induction rule: rtranclp_induct)
    case base
    then show ?case using assms not_issued_status by simp
  next
    case (step y z)
    have inv: "sched_inv z" using step sched_step_inv by blast
    have iss: "issued z tid" using step counter_mono issued_mono by blast
    have "lifecycle (status_of y tid) (status_of z tid)" using step by (blast intro: task_step_lifecycle)
    then have "status_of z tid = Some st \<or> status_of z tid = None"
      using step unknown_issued_stays [of y tid z] assms(3) by (auto simp: lifecycle_terminal)
    then show ?case using inv iss by simp
  qed
  then show ?thesis by simp
qed

definition example_done :: task_scheduler where
  "example_done = complete_task 9 (TaskId ''task-0'') (NodeId ''a'') (command_success OutNone) example_running"

lemma example_done_status: "status_of example_done (TaskId ''task-0'') = Some Completed"
proof -
  have "ts_completed_tasks example_running = []"
    by (simp add: example_running_eval)
  then show ?thesis
    using example_running_get
    by (simp add: example_done_def complete_task_def finish_running_def status_of_eq hm_get_remove
        store_completed_task_def evict_completed_def completed_of_def terminal_status_from_result_def
        command_success_def)
qed

theorem terminal_status_stable_witness:
  "sched_step\<^sup>*\<^sup>* example_done (complete_task 12 (TaskId ''task-0'') (NodeId ''a'') timeout_result example_done) \<and>
   status_of (complete_task 12 (TaskId ''task-0'') (NodeId ''a'') timeout_result example_done)
     (TaskId ''task-0'') \<in> {Some Completed, None}"
proof -
  have inv: "sched_inv example_done"
    unfolding example_done_def using example_running_inv by (rule complete_task_inv)
  have step: "sched_step\<^sup>*\<^sup>* example_done
      (complete_task 12 (TaskId ''task-0'') (NodeId ''a'') timeout_result example_done)"
    using sched_complete by blast
  show ?thesis
    using terminal_status_stable [OF inv example_done_status _ step] step by simp
qed

text \<open>
  The store of finished tasks after another one is put in: everything in it before, and the
  new entry, is still there unless it was evicted; entries are evicted only when there are more
  than 500, then exactly 250 of them, and every evicted one finished no later than every one kept.
\<close>

theorem store_completed_evicts_oldest:
  assumes "hm_wf (ts_completed_tasks s)"
    and "before = hm_insert (ct_task_id c) c (ts_completed_tasks s)"
  shows "\<exists>out. (\<forall>tid. get_completed_task (store_completed_task c s) tid =
             (if tid \<in> set out then None else hm_get before tid)) \<and>
      length out = (if 500 < length before then 250 else 0) \<and> distinct out \<and>
      (\<forall>a b ca cb. a \<in> set out \<and> b \<notin> set out \<and> hm_get before a = Some ca \<and> hm_get before b = Some cb \<longrightarrow>
         ct_completed_at ca \<le> ct_completed_at cb)"
proof (intro exI [of _ "evicted before"] conjI allI impI)
  have wf: "hm_wf before" using assms by simp
  show "get_completed_task (store_completed_task c s) tid =
      (if tid \<in> set (evicted before) then None else hm_get before tid)" for tid
    using evict_completed_get [OF wf]
    by (simp add: get_completed_task_def store_completed_task_def assms(2))
  show "length (evicted before) = (if 500 < length before then 250 else 0)"
    by (simp add: evicted_def)
  show "distinct (evicted before)" using wf by (rule evicted_distinct)
  show "ct_completed_at ca \<le> ct_completed_at cb"
    if "a \<in> set (evicted before) \<and> b \<notin> set (evicted before) \<and> hm_get before a = Some ca \<and>
      hm_get before b = Some cb" for a b ca cb
    using evicted_oldest [OF wf] that by blast
qed

definition example_completed :: completed_task where
  "example_completed = completed_of 9 Completed (command_success OutNone)
     (the (hm_get (ts_running_tasks example_running) (TaskId ''task-0''))) (TaskId ''task-0'')"

theorem store_completed_evicts_oldest_witness:
  "\<exists>out. length out = 0 \<and>
     (\<forall>tid. get_completed_task (store_completed_task example_completed (task_scheduler_new 3 60)) tid =
        (if tid \<in> set out then None else hm_get [(TaskId ''task-0'', example_completed)] tid))"
proof -
  have "ct_task_id example_completed = TaskId ''task-0''"
    by (simp add: example_completed_def completed_of_def)
  then show ?thesis
    using store_completed_evicts_oldest [of "task_scheduler_new 3 60" _ example_completed]
    by (force simp: task_scheduler_new_def)
qed

lemma sched_cancel_error:
  assumes inv: "sched_inv s" and "sched_cancel_task now tid s = Inl err"
  shows "err = TaskErr (''Task not found: '' @ task_id_as_str tid)"
    and "status_of s tid \<notin> {Some Queued, Some Running}"
proof -
  have none: "take_pending tid (ts_pending_tasks s) = None" "hm_get (ts_running_tasks s) tid = None"
    using assms(2) by (auto simp: sched_cancel_task_def split: option.splits)
  show "err = TaskErr (''Task not found: '' @ task_id_as_str tid)"
    using assms(2) none by (simp add: sched_cancel_task_def)
  have fin: "terminal (ct_status d)" if "hm_get (ts_completed_tasks s) tid = Some d" for d
    using inv that by (simp add: sched_inv_def store_ok_def)
  have "tid \<notin> qt_task_id ` set (all_pending s)"
    using none(1) unfolding take_pending_None all_pending_def .
  then show "status_of s tid \<notin> {Some Queued, Some Running}"
    using none(2) fin unfolding status_of_eq by (auto split: option.splits)
qed

text \<open>
  Cancelling. A queued or running task becomes cancelled (its status is final at once) and
  the cancellation is reported once on the result channel, with the node it ran on or the
  placeholder node; a task that is unknown or already finished is an error, and nothing changes.
\<close>

theorem cancel_task_effect:
  assumes "sched_inv s" and "ts_result_open s"
  shows "case sched_cancel_task now tid s of
     Inl err \<Rightarrow> err = TaskErr (''Task not found: '' @ task_id_as_str tid) \<and>
       status_of s tid \<notin> {Some Queued, Some Running}
   | Inr s' \<Rightarrow> status_of s tid \<in> {Some Queued, Some Running} \<and>
       status_of s' tid \<in> {Some Cancelled, None} \<and>
       (\<exists>n. ts_results s' = ts_results s @ [\<lparr>tr_task_id = tid, tr_node_id = n, tr_result = cancelled_result\<rparr>])"
proof (cases "sched_cancel_task now tid s")
  case (Inl err)
  then show ?thesis using sched_cancel_error [OF assms(1) Inl] by simp
next
  case (Inr s')
  have "\<exists>n. ts_results s' = ts_results s @ [\<lparr>tr_task_id = tid, tr_node_id = n, tr_result = cancelled_result\<rparr>]"
    using Inr assms(2)
    by (auto simp: sched_cancel_task_def finish_running_def send_result_def store_completed_task_def
        split: option.splits)
  then show ?thesis using Inr sched_cancel_lifecycle [OF assms(1) Inr] by auto
qed

theorem cancel_task_effect_witness:
  "\<exists>s'. sched_cancel_task 11 (TaskId ''task-0'') example_running = Inr s' \<and>
     status_of s' (TaskId ''task-0'') \<in> {Some Cancelled, None}"
proof -
  have "status_of example_running (TaskId ''task-0'') = Some Running"
    using example_running_get by (simp add: status_of_eq)
  then show ?thesis
    using cancel_task_effect [OF example_running_inv example_running_open, where now = 11 and tid = "TaskId ''task-0''"]
    by (cases "sched_cancel_task 11 (TaskId ''task-0'') example_running") auto
qed

lemma time_outs_running:
  "sched_inv s \<Longrightarrow>
     hm_get (ts_running_tasks (fold (time_out_task now) tids s)) j =
       (if j \<in> set tids then None else hm_get (ts_running_tasks s) j)"
proof (induction tids arbitrary: s)
  case (Cons t ts)
  have "hm_get (ts_running_tasks (time_out_task now t s)) j =
      (if j = t then None else hm_get (ts_running_tasks s) j)"
    by (auto simp: time_out_task_def finish_running_def hm_get_remove split: option.splits)
  then show ?case using Cons by (cases "j = t") (simp_all add: time_out_task_inv)
qed simp

lemma time_outs_results:
  assumes "distinct tids" and "\<And>t. t \<in> set tids \<Longrightarrow> hm_get (ts_running_tasks s) t \<noteq> None"
    and "ts_result_open s"
  shows "map tr_task_id (ts_results (fold (time_out_task now) tids s)) = map tr_task_id (ts_results s) @ tids"
  using assms
proof (induction tids arbitrary: s)
  case (Cons t ts)
  obtain r where r: "hm_get (ts_running_tasks s) t = Some r" using Cons.prems(2) by fastforce
  let ?s = "time_out_task now t s"
  have run: "hm_get (ts_running_tasks ?s) u = hm_get (ts_running_tasks s) u" if "u \<noteq> t" for u
    using that r by (simp add: time_out_task_def finish_running_def hm_get_remove)
  have res: "map tr_task_id (ts_results ?s) = map tr_task_id (ts_results s) @ [t]" "ts_result_open ?s"
    using r Cons.prems(3)
    by (simp_all add: time_out_task_def finish_running_def send_result_def store_completed_task_def)
  have "map tr_task_id (ts_results (fold (time_out_task now) ts ?s)) = map tr_task_id (ts_results ?s) @ ts"
  proof (rule Cons.IH)
    show "hm_get (ts_running_tasks ?s) u \<noteq> None" if "u \<in> set ts" for u
      using that run [of u] Cons.prems(1,2) by fastforce
  qed (use Cons.prems res in simp_all)
  then show ?case using res by simp
qed simp

text \<open>
  The timeout sweep ends exactly the running tasks whose deadline has passed: they are the
  ones it returns, they are no longer running, every other running task runs on unchanged, and
  one result per timed-out task is reported, in the order they are returned.
\<close>

theorem task_timeouts_exact:
  assumes inv: "sched_inv s" and "check_task_timeouts now s = (tids, s')" and "ts_result_open s"
  shows "(\<forall>tid. tid \<in> set tids \<longleftrightarrow>
        (case hm_get (ts_running_tasks s) tid of None \<Rightarrow> False | Some r \<Rightarrow> rt_timeout_at r < now)) \<and>
    (\<forall>tid. hm_get (ts_running_tasks s') tid =
        (if tid \<in> set tids then None else hm_get (ts_running_tasks s) tid)) \<and>
    map tr_task_id (ts_results s') = map tr_task_id (ts_results s) @ tids"
proof -
  have wf: "hm_wf (ts_running_tasks s)" using inv ids_ok_wf(1) by (simp add: sched_inv_def)
  have tids: "tids = map fst (filter (\<lambda>(_, r). rt_timeout_at r < now) (ts_running_tasks s))"
    and s': "s' = fold (time_out_task now) tids s"
    using assms(2) by (auto simp: check_task_timeouts_def Let_def)
  have mem: "tid \<in> set tids \<longleftrightarrow>
      (case hm_get (ts_running_tasks s) tid of None \<Rightarrow> False | Some r \<Rightarrow> rt_timeout_at r < now)" for tid
  proof -
    have "tid \<in> set tids \<longleftrightarrow> (\<exists>r. (tid, r) \<in> set (ts_running_tasks s) \<and> rt_timeout_at r < now)"
      by (force simp: tids)
    then show ?thesis unfolding hm_get_iff [OF wf, symmetric] by (simp split: option.splits)
  qed
  have "distinct tids" unfolding tids using wf by (rule distinct_map_filter)
  moreover have "hm_get (ts_running_tasks s) t \<noteq> None" if "t \<in> set tids" for t
    using that mem [of t] by (auto split: option.splits)
  ultimately have "map tr_task_id (ts_results s') = map tr_task_id (ts_results s) @ tids"
    unfolding s' using assms(3) by (rule time_outs_results)
  then show ?thesis using mem time_outs_running [OF inv] by (simp add: s')
qed


theorem task_timeouts_exact_witness:
  "TaskId ''task-0'' \<in> set (fst (check_task_timeouts 60000000008 example_running)) \<and>
   TaskId ''task-0'' \<notin> set (fst (check_task_timeouts 60000000007 example_running))"
proof -
  obtain t where r: "hm_get (ts_running_tasks example_running) (TaskId ''task-0'') =
      Some (running_of 7 60 (NodeId ''a'') t)" using example_running_get by blast
  have dl: "rt_timeout_at (running_of 7 60 (NodeId ''a'') t) = 60000000007"
    by (simp add: running_of_def duration_seconds_def nanos_per_sec_def)
  show ?thesis
    using task_timeouts_exact [OF example_running_inv prod.collapse [symmetric] example_running_open,
        of 60000000008]
      task_timeouts_exact [OF example_running_inv prod.collapse [symmetric] example_running_open,
        of 60000000007] r dl by simp
qed

text \<open>
  A result is accepted from any node: the finished task that is stored does not depend on
  the node that reports it, and the notification names the reporter, even when the task was
  assigned to another node.
\<close>

theorem complete_task_any_reporter:
  assumes "hm_get (ts_running_tasks s) tid = Some r" and "ts_result_open s"
  shows "ts_completed_tasks (complete_task now tid n result s) =
      ts_completed_tasks (complete_task now tid (rt_node_id r) result s) \<and>
    last (ts_results (complete_task now tid n result s)) =
      \<lparr>tr_task_id = tid, tr_node_id = n, tr_result = result\<rparr>"
  using assms by (simp add: complete_task_def finish_running_def store_completed_task_def send_result_def)

theorem complete_task_any_reporter_witness:
  "last (ts_results (complete_task 9 (TaskId ''task-0'') (NodeId ''intruder'') timeout_result example_running)) =
     \<lparr>tr_task_id = TaskId ''task-0'', tr_node_id = NodeId ''intruder'', tr_result = timeout_result\<rparr>"
  using complete_task_any_reporter [OF example_running_get example_running_open,
      of 9 "NodeId ''intruder''" timeout_result] by simp

subsection \<open>Scheduling makes progress\<close>

lemma schedule_next_pending:
  assumes "schedule_next e now mid nm senders s = (r, senders', s')"
  shows "length (all_pending s) = length (all_pending s') + (if r = None then 0 else 1)"
  using schedule_next_cases [of e nm senders s now mid]
proof cases
  case idle
  then have "s' = fold (skip_head senders) priorities s" "r = None" using assms by simp_all
  then show ?thesis using skip_heads_ids [of senders priorities s] by (metis add_0_right size_image_mset size_mset)
next
  case (started ps1 p ps2 t q i)
  let ?s = "fold (skip_head senders) ps1 s"
  have h: "hm_get (ts_pending_tasks ?s) p = Some (t # q)"
    using started(3) skip_heads_other [OF priorities_split_notin [OF started(1)]] by simp
  have s': "s' = start_head now i p t q ?s" "r \<noteq> None" using started(5) assms by auto
  have "length (all_pending ?s) = length (all_pending s)"
    using skip_heads_ids [of senders ps1 s] by (metis size_image_mset size_mset)
  moreover have "length (all_pending ?s) = Suc (length (all_pending s'))"
    using start_head_pending [OF h, of now i] s'(1) by (metis size_add_mset size_mset)
  ultimately show ?thesis using s'(2) by simp
qed

end
