(* ===== verification/Idempotency.thy ===== *)
theory Idempotency
  imports Prelude
begin

section \<open>The idempotency cache (\<^verbatim>\<open>uhorse-security/src/idempotency.rs\<close>)\<close>

text \<open>
  A cache of responses by request key, each with an expiry in seconds since the epoch. The clock
  reading is an argument; sums of 64-bit seconds wrap as in a release build, and the statements
  name the bound under which they do not.
\<close>

record idempotency_record =
  ir_response :: json
  ir_expires_at :: u64

record idempotency_cache =
  ic_records :: "(string, idempotency_record) hmap"

definition idempotency_new :: idempotency_cache where
  "idempotency_new = \<lparr>ic_records = []\<rparr>"

definition drop_expired :: "u64 \<Rightarrow> idempotency_cache \<Rightarrow> idempotency_cache" where
  "drop_expired now c = c\<lparr>ic_records := hm_retain (\<lambda>_ r. now < ir_expires_at r) (ic_records c)\<rparr>"

definition check_or_record :: "u64 \<Rightarrow> string \<Rightarrow> u64 \<Rightarrow> idempotency_cache \<Rightarrow> json option \<times> idempotency_cache" where
  "check_or_record now key ttl_seconds c =
     (let c' = drop_expired now c
      in (map_option ir_response (hm_get (ic_records c') key), c'))"

definition store_response :: "u64 \<Rightarrow> string \<Rightarrow> json \<Rightarrow> u64 \<Rightarrow> idempotency_cache \<Rightarrow> idempotency_cache" where
  "store_response now key response ttl_seconds c =
     c\<lparr>ic_records :=
         hm_insert key \<lparr>ir_response = response, ir_expires_at = now + ttl_seconds\<rparr> (ic_records c)\<rparr>"

definition idempotency_cleanup :: "u64 \<Rightarrow> idempotency_cache \<Rightarrow> nat \<times> idempotency_cache" where
  "idempotency_cleanup now c =
     (let c' = drop_expired now c in (length (ic_records c) - length (ic_records c'), c'))"

definition ic_inv :: "idempotency_cache \<Rightarrow> bool" where
  "ic_inv c = hm_wf (ic_records c)"

inductive ic_step :: "idempotency_cache \<Rightarrow> idempotency_cache \<Rightarrow> bool" where
  ic_check: "ic_step c (snd (check_or_record now key ttl c))"
| ic_store: "ic_step c (store_response now key response ttl c)"
| ic_cleanup: "ic_step c (snd (idempotency_cleanup now c))"

lemma ic_step_inv: "ic_inv c \<Longrightarrow> ic_step c c' \<Longrightarrow> ic_inv c'"
  by (erule ic_step.cases)
     (auto simp: ic_inv_def check_or_record_def store_response_def idempotency_cleanup_def
       drop_expired_def Let_def)

interpretation ic: step_system "\<lambda>c. c = idempotency_new" ic_step ic_inv
  by unfold_locales (auto simp: idempotency_new_def ic_inv_def intro: ic_step_inv [unfolded ic_inv_def])

lemma drop_expired_get:
  "ic_inv c \<Longrightarrow> hm_get (ic_records (drop_expired now c)) key =
     (case hm_get (ic_records c) key of None \<Rightarrow> None
      | Some r \<Rightarrow> if now < ir_expires_at r then Some r else None)"
  by (simp add: drop_expired_def ic_inv_def hm_get_retain)

text \<open>Operations on other keys and clean-ups in between, at times before the expiry.\<close>

inductive quiet_steps :: "string \<Rightarrow> u64 \<Rightarrow> idempotency_cache \<Rightarrow> idempotency_cache \<Rightarrow> bool"
  for key :: string and limit :: u64 where
  quiet_refl: "quiet_steps key limit c c"
| quiet_check: "quiet_steps key limit c d \<Longrightarrow> now < limit \<Longrightarrow>
    quiet_steps key limit c (snd (check_or_record now other ttl d))"
| quiet_store: "quiet_steps key limit c d \<Longrightarrow> other \<noteq> key \<Longrightarrow>
    quiet_steps key limit c (store_response now other response ttl d)"
| quiet_cleanup: "quiet_steps key limit c d \<Longrightarrow> now < limit \<Longrightarrow>
    quiet_steps key limit c (snd (idempotency_cleanup now d))"

lemma quiet_steps_keep:
  assumes "quiet_steps key limit c d" and "ic_inv c"
    and "hm_get (ic_records c) key = Some r" and "limit \<le> ir_expires_at r"
  shows "ic_inv d \<and> hm_get (ic_records d) key = Some r"
  using assms
proof (induction rule: quiet_steps.induct)
  case (quiet_check c d now other ttl)
  then have "now < ir_expires_at r" by (meson order_less_le_trans)
  then show ?case
    using quiet_check ic_step_inv [OF _ ic_check] drop_expired_get [of d now key]
    by (simp add: check_or_record_def Let_def)
next
  case (quiet_cleanup c d now)
  then have "now < ir_expires_at r" by (meson order_less_le_trans)
  then show ?case
    using quiet_cleanup ic_step_inv [OF _ ic_cleanup] drop_expired_get [of d now key]
    by (simp add: idempotency_cleanup_def Let_def)
next
  case (quiet_store c d other now response ttl)
  then show ?case
    using ic_step_inv [OF _ ic_store] by (simp add: store_response_def hm_get_insert)
qed simp

text \<open>
  A stored response is returned for its key until it expires, whatever other keys are stored
  and however often expired entries are dropped in between, and never at or after its expiry
  (the expiry is the time of the store plus the time to live, which must fit 64 bits).
\<close>

theorem idempotency_window:
  assumes "ic_inv c" and "unat t0 + unat ttl < 2 ^ 64"
    and "quiet_steps key (t0 + ttl) (store_response t0 key response ttl c) d"
  shows "fst (check_or_record t key ttl' d) = (if unat t < unat t0 + unat ttl then Some response else None)"
proof -
  let ?r = "\<lparr>ir_response = response, ir_expires_at = t0 + ttl\<rparr>"
  have "ic_inv (store_response t0 key response ttl c)"
    using assms(1) ic_step_inv ic_store by blast
  then have d: "ic_inv d" "hm_get (ic_records d) key = Some ?r"
    using quiet_steps_keep [OF assms(3), of ?r] by (simp_all add: store_response_def hm_get_insert)
  have "t < t0 + ttl \<longleftrightarrow> unat t < unat t0 + unat ttl"
    using assms(2) by (simp add: word_less_nat_alt unat_add_lem [THEN iffD1])
  then show ?thesis
    using d drop_expired_get [OF d(1), of t key] by (simp add: check_or_record_def Let_def)
qed

theorem idempotency_window_witness:
  "fst (check_or_record 105 ''k'' 0 (store_response 100 ''k'' JNull 10 idempotency_new)) = Some JNull \<and>
   fst (check_or_record 110 ''k'' 0 (store_response 100 ''k'' JNull 10 idempotency_new)) = None"
proof -
  have inv: "ic_inv idempotency_new" by (simp add: ic_inv_def idempotency_new_def)
  show ?thesis
    using idempotency_window [OF inv, of 100 10 "''k''" JNull _ 105 0, OF _ quiet_refl]
      idempotency_window [OF inv, of 100 10 "''k''" JNull _ 110 0, OF _ quiet_refl]
    by simp
qed

end
