(* ===== verification/Approval.thy ===== *)
theory Approval
  imports Idempotency Node_Manager
begin

section \<open>Approval workflow (\<^verbatim>\<open>uhorse-security/src/approval.rs\<close>)\<close>

text \<open>
  Requests that people approve or reject: the request with its decisions and counters, the
  engine of automatic rules, the manager with its pending requests, its history and the index
  from approvers to requests, and the wrapper the Hub uses
  (\<^verbatim>\<open>SensitiveOperationApprover\<close> of \<^verbatim>\<open>uhorse-hub/src/security_integration.rs\<close>). Times are seconds
  since the epoch, 64 bits wide; the uuid of a new request is an argument. The invariant \<open>am_inv\<close>
  ties the counters to the decisions and separates pending from finished requests.
\<close>

subsection \<open>Requests\<close>

datatype approval_status = ApPending | ApApproved | ApRejected | ApCancelled | ApTimedOut

record approval_condition =
  ac_condition_type :: string
  ac_threshold :: json
  ac_required_approvers :: "string list"

datatype approval_level =
    Single
  | Sequential "string list"
  | Parallel nat
  | Conditional "approval_condition list"

record approver =
  apr_user_id :: string
  apr_name :: string
  apr_role :: string

record approval_decision =
  ad_approver_id :: string
  ad_approved :: bool
  ad_comment :: "string option"
  ad_decided_at :: u64

record approval_request =
  ar_id :: string
  ar_action :: string
  ar_requested_by :: string
  ar_level :: approval_level
  ar_status :: approval_status
  ar_created_at :: u64
  ar_expires_at :: u64
  ar_decisions :: "approval_decision list"
  ar_required_approvers :: "approver list"
  ar_approved_count :: nat
  ar_rejected_count :: nat
  ar_metadata :: json

definition approval_request_new ::
  "u64 \<Rightarrow> string \<Rightarrow> string \<Rightarrow> string \<Rightarrow> approval_level \<Rightarrow> approver list \<Rightarrow> approval_request" where
  "approval_request_new now uuid action requested_by level approvers =
     \<lparr>ar_id = uuid, ar_action = action, ar_requested_by = requested_by, ar_level = level,
      ar_status = ApPending, ar_created_at = now, ar_expires_at = now + 86400, ar_decisions = [],
      ar_required_approvers = approvers, ar_approved_count = 0, ar_rejected_count = 0,
      ar_metadata = JObject []\<rparr>"

definition is_expired :: "u64 \<Rightarrow> approval_request \<Rightarrow> bool" where
  "is_expired now r = (ar_expires_at r < now)"

definition add_decision :: "approval_decision \<Rightarrow> approval_request \<Rightarrow> uhorse_error + approval_request" where
  "add_decision d r =
     (if list_ex (\<lambda>e. ad_approver_id e = ad_approver_id d) (ar_decisions r)
      then Inl (InternalError ''Approver has already decided'')
      else
        let r' = r\<lparr>ar_decisions := ar_decisions r @ [d]\<rparr>
        in Inr (if ad_approved d then r'\<lparr>ar_approved_count := ar_approved_count r + 1\<rparr>
                else r'\<lparr>ar_rejected_count := ar_rejected_count r + 1\<rparr>))"

definition can_approve :: "approval_request \<Rightarrow> bool" where
  "can_approve r =
     (case ar_level r of
        Single \<Rightarrow> ar_approved_count r = 0
      | Sequential _ \<Rightarrow> True
      | Parallel required \<Rightarrow> ar_approved_count r < required
      | Conditional _ \<Rightarrow> True)"

definition is_completed :: "approval_request \<Rightarrow> bool" where
  "is_completed r =
     (case ar_level r of
        Single \<Rightarrow> 1 \<le> ar_approved_count r \<or> 1 \<le> ar_rejected_count r
      | Sequential levels \<Rightarrow> length levels \<le> ar_approved_count r \<or> 1 \<le> ar_rejected_count r
      | Parallel required \<Rightarrow> required \<le> ar_approved_count r \<or> 1 \<le> ar_rejected_count r
      | Conditional conditions \<Rightarrow> 1 \<le> ar_rejected_count r \<or> length conditions \<le> ar_approved_count r)"

definition update_status :: "u64 \<Rightarrow> approval_request \<Rightarrow> approval_request" where
  "update_status now r =
     (if is_expired now r then r\<lparr>ar_status := ApTimedOut\<rparr>
      else if 0 < ar_rejected_count r then r\<lparr>ar_status := ApRejected\<rparr>
      else if is_completed r then r\<lparr>ar_status := ApApproved\<rparr>
      else r)"

subsection \<open>The rule engine\<close>

record approval_rule =
  rl_rule_name :: string
  rl_condition :: json
  rl_action :: string

record approval_rule_engine =
  re_auto_approve_rules :: "approval_rule list"
  re_auto_reject_rules :: "approval_rule list"

definition rule_engine_new :: approval_rule_engine where
  "rule_engine_new = \<lparr>re_auto_approve_rules = [], re_auto_reject_rules = []\<rparr>"

definition add_auto_approve_rule :: "approval_rule \<Rightarrow> approval_rule_engine \<Rightarrow> approval_rule_engine" where
  "add_auto_approve_rule rule e = e\<lparr>re_auto_approve_rules := re_auto_approve_rules e @ [rule]\<rparr>"

definition add_auto_reject_rule :: "approval_rule \<Rightarrow> approval_rule_engine \<Rightarrow> approval_rule_engine" where
  "add_auto_reject_rule rule e = e\<lparr>re_auto_reject_rules := re_auto_reject_rules e @ [rule]\<rparr>"

definition matches_condition :: "json \<Rightarrow> json \<Rightarrow> bool" where
  "matches_condition condition metadata =
     (case json_as_object condition of
        None \<Rightarrow> False
      | Some obj \<Rightarrow> list_all (\<lambda>(key, value). json_get metadata key = Some value) obj)"

definition evaluate_auto_approve :: "approval_rule_engine \<Rightarrow> json \<Rightarrow> bool" where
  "evaluate_auto_approve e metadata =
     list_ex (\<lambda>rule. matches_condition (rl_condition rule) metadata) (re_auto_approve_rules e)"

definition evaluate_auto_reject :: "approval_rule_engine \<Rightarrow> json \<Rightarrow> bool" where
  "evaluate_auto_reject e metadata =
     list_ex (\<lambda>rule. matches_condition (rl_condition rule) metadata) (re_auto_reject_rules e)"

subsection \<open>The manager\<close>

record approval_manager =
  am_pending :: "(string, approval_request) hmap"
  am_history :: "(string, approval_request) hmap"
  am_rule_engine :: approval_rule_engine
  am_user_requests :: "(string, string list) hmap"

definition approval_manager_new :: approval_manager where
  "approval_manager_new =
     \<lparr>am_pending = [], am_history = [], am_rule_engine = rule_engine_new, am_user_requests = []\<rparr>"

definition with_rule_engine :: "approval_manager \<Rightarrow> approval_rule_engine \<Rightarrow> approval_manager" where
  "with_rule_engine m e = m\<lparr>am_rule_engine := e\<rparr>"

text \<open>\<open>entry(approver).or_insert_with(Vec::new).push(id)\<close>.\<close>

definition index_request :: "string \<Rightarrow> string \<Rightarrow> (string, string list) hmap \<Rightarrow> (string, string list) hmap" where
  "index_request rid user m =
     hm_insert user ((case hm_get m user of None \<Rightarrow> [] | Some ids \<Rightarrow> ids) @ [rid]) m"

definition create_request ::
  "u64 \<Rightarrow> string \<Rightarrow> string \<Rightarrow> string \<Rightarrow> approval_level \<Rightarrow> approver list \<Rightarrow> json \<Rightarrow>
   approval_manager \<Rightarrow> approval_request \<times> approval_manager" where
  "create_request now uuid action requested_by level approvers metadata m =
     (let request = approval_request_new now uuid action requested_by level approvers
      in if evaluate_auto_approve (am_rule_engine m) metadata
         then (request\<lparr>ar_status := ApApproved, ar_approved_count := 1\<rparr>, m)
         else if evaluate_auto_reject (am_rule_engine m) metadata
         then (request\<lparr>ar_status := ApRejected, ar_rejected_count := 1\<rparr>, m)
         else
           let request = request\<lparr>ar_metadata := metadata\<rparr>
           in (request,
               m\<lparr>am_pending := hm_insert uuid request (am_pending m),
                 am_user_requests :=
                   fold (index_request uuid) (map apr_user_id approvers) (am_user_requests m)\<rparr>))"

definition forget_request :: "string \<Rightarrow> (string, string list) hmap \<Rightarrow> (string, string list) hmap" where
  "forget_request rid = hm_map (\<lambda>_ ids. filter (\<lambda>i. i \<noteq> rid) ids)"

definition to_history :: "string \<Rightarrow> approval_request \<Rightarrow> approval_manager \<Rightarrow> approval_manager" where
  "to_history rid r m =
     m\<lparr>am_pending := hm_remove rid (am_pending m), am_history := hm_insert rid r (am_history m)\<rparr>"

definition approve_request ::
  "u64 \<Rightarrow> string \<Rightarrow> string \<Rightarrow> string option \<Rightarrow> approval_manager \<Rightarrow>
   uhorse_error + approval_request \<times> approval_manager" where
  "approve_request now rid approver_id comment m =
     (case hm_get (am_pending m) rid of
        None \<Rightarrow> Inl (InternalError ''Request not found'')
      | Some request \<Rightarrow>
          if \<not> can_approve request then Inl (InternalError ''Cannot approve at this stage'')
          else
            (case add_decision \<lparr>ad_approver_id = approver_id, ad_approved = True, ad_comment = comment,
                                ad_decided_at = now\<rparr> request of
               Inl e \<Rightarrow> Inl e
             | Inr decided \<Rightarrow>
                 let updated = update_status now decided
                 in Inr (updated,
                      if is_completed updated
                      then (to_history rid updated m)
                             \<lparr>am_user_requests := forget_request rid (am_user_requests m)\<rparr>
                      else m\<lparr>am_pending := hm_insert rid updated (am_pending m)\<rparr>)))"

definition reject_request ::
  "u64 \<Rightarrow> string \<Rightarrow> string \<Rightarrow> string option \<Rightarrow> approval_manager \<Rightarrow>
   uhorse_error + approval_request \<times> approval_manager" where
  "reject_request now rid approver_id comment m =
     (case hm_get (am_pending m) rid of
        None \<Rightarrow> Inl (InternalError ''Request not found'')
      | Some request \<Rightarrow>
          (case add_decision \<lparr>ad_approver_id = approver_id, ad_approved = False, ad_comment = comment,
                              ad_decided_at = now\<rparr> request of
             Inl e \<Rightarrow> Inl e
           | Inr decided \<Rightarrow>
               let updated = update_status now decided
               in Inr (updated,
                    (to_history rid updated m)
                      \<lparr>am_user_requests := forget_request rid (am_user_requests m)\<rparr>)))"

definition cancel_request :: "string \<Rightarrow> approval_manager \<Rightarrow> bool \<times> approval_manager" where
  "cancel_request rid m =
     (case hm_get (am_pending m) rid of
        None \<Rightarrow> (False, m)
      | Some request \<Rightarrow> (True, to_history rid (request\<lparr>ar_status := ApCancelled\<rparr>) m))"

definition get_user_pending_requests :: "string \<Rightarrow> approval_manager \<Rightarrow> approval_request list" where
  "get_user_pending_requests user m =
     List.map_filter (hm_get (am_pending m))
       (case hm_get (am_user_requests m) user of None \<Rightarrow> [] | Some ids \<Rightarrow> ids)"

definition get_request :: "string \<Rightarrow> approval_manager \<Rightarrow> approval_request option" where
  "get_request rid m =
     (case hm_get (am_pending m) rid of Some r \<Rightarrow> Some r | None \<Rightarrow> hm_get (am_history m) rid)"

definition list_pending :: "approval_manager \<Rightarrow> approval_request list" where
  "list_pending m = hm_values (am_pending m)"

definition expire_request :: "string \<Rightarrow> approval_manager \<Rightarrow> approval_manager" where
  "expire_request rid m =
     (case hm_get (am_pending m) rid of
        None \<Rightarrow> m
      | Some request \<Rightarrow> to_history rid (request\<lparr>ar_status := ApTimedOut\<rparr>) m)"

definition approval_cleanup :: "u64 \<Rightarrow> approval_manager \<Rightarrow> nat \<times> approval_manager" where
  "approval_cleanup now m =
     (let expired = map fst (filter (\<lambda>(_, r). is_expired now r) (am_pending m))
      in (length expired, fold expire_request expired m))"

text \<open>
  The task spawned with each request. \<open>acquire_write\<close> is the lock of the pending map: a second
  exclusive acquisition while the first guard is alive never returns, which is \<open>None\<close>. The guard
  of the \<open>if let\<close> lives to the end of its body.
\<close>

definition acquire_write :: "bool \<Rightarrow> bool option" where
  "acquire_write held = (if held then None else Some True)"

definition expiry_task :: "string \<Rightarrow> approval_manager \<Rightarrow> approval_manager option" where
  "expiry_task rid m =
     (case acquire_write False of
        None \<Rightarrow> None
      | Some held \<Rightarrow>
          (case hm_get (am_pending m) rid of
             None \<Rightarrow> Some m
           | Some req \<Rightarrow>
               if ar_status req = ApPending
               then (let req = req\<lparr>ar_status := ApTimedOut\<rparr>;
                         m = m\<lparr>am_pending := hm_insert rid req (am_pending m)\<rparr>
                     in case acquire_write held of
                          None \<Rightarrow> None
                        | Some _ \<Rightarrow> Some (to_history rid req m))
               else Some m))"

subsection \<open>The operation approver of the Hub (\<^verbatim>\<open>security_integration.rs\<close>)\<close>

record operation_approver =
  oa_approval_manager :: approval_manager
  oa_idempotency_cache :: idempotency_cache

definition operation_approver_new :: "approval_manager \<Rightarrow> operation_approver" where
  "operation_approver_new m = \<lparr>oa_approval_manager = m, oa_idempotency_cache = idempotency_new\<rparr>"

definition hub_admin :: approver where
  "hub_admin = \<lparr>apr_user_id = ''hub-admin'', apr_name = ''Hub Administrator'', apr_role = ''admin''\<rparr>"

definition request_approval ::
  "u64 \<Rightarrow> string \<Rightarrow> node_id \<Rightarrow> string \<Rightarrow> approval_level \<Rightarrow> json \<Rightarrow> operation_approver \<Rightarrow>
   string \<times> operation_approver" where
  "request_approval now uuid n operation level context a =
     (let (request, m) = create_request now uuid operation (node_id_as_str n) level [hub_admin] context
            (oa_approval_manager a)
      in (ar_id request, a\<lparr>oa_approval_manager := m\<rparr>))"

definition requires_approval :: "string \<Rightarrow> bool" where
  "requires_approval operation =
     (operation \<in> {''file_delete'', ''system_command'', ''network_access'', ''credential_access'',
                   ''config_change''})"

definition get_approval_status :: "string \<Rightarrow> operation_approver \<Rightarrow> hub_error + approval_status" where
  "get_approval_status rid a =
     (case get_request rid (oa_approval_manager a) of
        None \<Rightarrow> Inl (PermissionErr (''Approval request '' @ rid @ '' not found''))
      | Some r \<Rightarrow> Inr (ar_status r))"

fun uhorse_error_display :: "uhorse_error \<Rightarrow> string" where
  "uhorse_error_display (InternalError s) = ''Internal error: '' @ s"
| "uhorse_error_display (ScheduleConflict s) = ''Schedule conflict: '' @ s"
| "uhorse_error_display (JobNotFound s) = ''Job not found: '' @ s"
| "uhorse_error_display TokenExpired = ''Token expired''"
| "uhorse_error_display InvalidToken = ''Invalid token''"
| "uhorse_error_display (DeviceNotPaired s) = ''Device not paired: '' @ s"

definition approver_approve ::
  "u64 \<Rightarrow> string \<Rightarrow> string \<Rightarrow> string option \<Rightarrow> operation_approver \<Rightarrow> hub_error + operation_approver" where
  "approver_approve now rid who comment a =
     (case approve_request now rid who comment (oa_approval_manager a) of
        Inl e \<Rightarrow> Inl (PermissionErr (''Failed to approve: '' @ uhorse_error_display e))
      | Inr (_, m) \<Rightarrow> Inr (a\<lparr>oa_approval_manager := m\<rparr>))"

definition approver_reject ::
  "u64 \<Rightarrow> string \<Rightarrow> string \<Rightarrow> string option \<Rightarrow> operation_approver \<Rightarrow> hub_error + operation_approver" where
  "approver_reject now rid who comment a =
     (case reject_request now rid who comment (oa_approval_manager a) of
        Inl e \<Rightarrow> Inl (PermissionErr (''Failed to reject: '' @ uhorse_error_display e))
      | Inr (_, m) \<Rightarrow> Inr (a\<lparr>oa_approval_manager := m\<rparr>))"

definition check_idempotency :: "u64 \<Rightarrow> string \<Rightarrow> u64 \<Rightarrow> operation_approver \<Rightarrow> bool \<times> operation_approver" where
  "check_idempotency now operation_id ttl_seconds a =
     (let (result, c) = check_or_record now operation_id ttl_seconds (oa_idempotency_cache a)
      in (result \<noteq> None, a\<lparr>oa_idempotency_cache := c\<rparr>))"

definition store_idempotency_response ::
  "u64 \<Rightarrow> string \<Rightarrow> json \<Rightarrow> u64 \<Rightarrow> operation_approver \<Rightarrow> operation_approver" where
  "store_idempotency_response now operation_id response ttl_seconds a =
     a\<lparr>oa_idempotency_cache :=
         store_response now operation_id response ttl_seconds (oa_idempotency_cache a)\<rparr>"


subsection \<open>The invariant\<close>

definition needed_approvals :: "approval_level \<Rightarrow> nat" where
  "needed_approvals level =
     (case level of Single \<Rightarrow> 1 | Sequential levels \<Rightarrow> length levels | Parallel required \<Rightarrow> required
      | Conditional conditions \<Rightarrow> length conditions)"

definition approvers_of :: "approval_request \<Rightarrow> string list" where
  "approvers_of r = map ad_approver_id (filter ad_approved (ar_decisions r))"

definition request_ok :: "approval_request \<Rightarrow> bool" where
  "request_ok r \<longleftrightarrow> distinct (map ad_approver_id (ar_decisions r)) \<and>
     ar_approved_count r = length (filter ad_approved (ar_decisions r)) \<and>
     ar_rejected_count r = length (filter (\<lambda>d. \<not> ad_approved d) (ar_decisions r))"

definition pending_ok :: "approval_request \<Rightarrow> bool" where
  "pending_ok r \<longleftrightarrow> request_ok r \<and> ar_rejected_count r = 0 \<and> ar_status r \<in> {ApPending, ApTimedOut}"

definition history_ok :: "approval_request \<Rightarrow> bool" where
  "history_ok r \<longleftrightarrow> request_ok r \<and> ar_status r \<noteq> ApPending \<and>
     (ar_status r = ApApproved \<longrightarrow> ar_rejected_count r = 0 \<and> 0 < ar_approved_count r \<and>
        needed_approvals (ar_level r) \<le> ar_approved_count r) \<and>
     (ar_status r = ApRejected \<longrightarrow> 0 < ar_rejected_count r)"

definition indexed :: "approval_manager \<Rightarrow> string \<Rightarrow> string \<Rightarrow> bool" where
  "indexed m rid user \<longleftrightarrow>
     (case hm_get (am_user_requests m) user of None \<Rightarrow> False | Some ids \<Rightarrow> rid \<in> set ids)"

definition stores_ok :: "approval_manager \<Rightarrow> bool" where
  "stores_ok m \<longleftrightarrow> hm_wf (am_pending m) \<and> hm_wf (am_history m) \<and>
     (\<forall>rid. hm_get (am_pending m) rid = None \<or> hm_get (am_history m) rid = None)"

definition am_inv :: "approval_manager \<Rightarrow> bool" where
  "am_inv m \<longleftrightarrow> stores_ok m \<and>
     (\<forall>rid r. hm_get (am_pending m) rid = Some r \<longrightarrow> ar_id r = rid \<and> pending_ok r) \<and>
     (\<forall>rid r. hm_get (am_history m) rid = Some r \<longrightarrow> ar_id r = rid \<and> history_ok r) \<and>
     (\<forall>rid r. hm_get (am_pending m) rid = Some r \<longrightarrow>
        list_all (\<lambda>a. indexed m rid (apr_user_id a)) (ar_required_approvers r))"

text \<open>One operation; the id of a new request is one that is not in use (a random uuid).\<close>

inductive am_step :: "approval_manager \<Rightarrow> approval_manager \<Rightarrow> bool" where
  am_create: "get_request uuid m = None \<Longrightarrow>
    create_request now uuid action who level approvers metadata m = (r, m') \<Longrightarrow> am_step m m'"
| am_approve: "approve_request now rid who comment m = Inr (r, m') \<Longrightarrow> am_step m m'"
| am_reject: "reject_request now rid who comment m = Inr (r, m') \<Longrightarrow> am_step m m'"
| am_cancel: "am_step m (snd (cancel_request rid m))"
| am_cleanup: "am_step m (snd (approval_cleanup now m))"

inductive_cases am_stepE: "am_step m m'"

lemma am_invD:
  assumes "am_inv m"
  shows "stores_ok m"
    and "hm_get (am_pending m) rid = Some r \<Longrightarrow> ar_id r = rid"
    and "hm_get (am_pending m) rid = Some r \<Longrightarrow> pending_ok r"
    and "hm_get (am_history m) rid = Some r \<Longrightarrow> ar_id r = rid"
    and "hm_get (am_history m) rid = Some r \<Longrightarrow> history_ok r"
    and "hm_get (am_pending m) rid = Some r \<Longrightarrow> a \<in> set (ar_required_approvers r) \<Longrightarrow>
      indexed m rid (apr_user_id a)"
  using assms by (auto simp: am_inv_def list_all_iff)

lemma am_inv_I:
  assumes "stores_ok m"
    and "\<And>rid r. hm_get (am_pending m) rid = Some r \<Longrightarrow> ar_id r = rid \<and> pending_ok r"
    and "\<And>rid r. hm_get (am_history m) rid = Some r \<Longrightarrow> ar_id r = rid \<and> history_ok r"
    and "\<And>rid r a. hm_get (am_pending m) rid = Some r \<Longrightarrow> a \<in> set (ar_required_approvers r) \<Longrightarrow>
      indexed m rid (apr_user_id a)"
  shows "am_inv m"
  using assms by (auto simp: am_inv_def list_all_iff)

subsection \<open>Decisions\<close>

lemma add_decision_Inr:
  assumes "add_decision d r = Inr r'" and "request_ok r"
  shows "request_ok r'" and "ar_decisions r' = ar_decisions r @ [d]" and "ar_level r' = ar_level r"
    and "ar_id r' = ar_id r" and "ar_required_approvers r' = ar_required_approvers r"
    and "ar_status r' = ar_status r"
    and "ar_approved_count r' = ar_approved_count r + (if ad_approved d then 1 else 0)"
    and "ar_rejected_count r' = ar_rejected_count r + (if ad_approved d then 0 else 1)"
proof -
  have fresh: "ad_approver_id d \<notin> ad_approver_id ` set (ar_decisions r)"
    using assms(1) by (auto simp: add_decision_def list_ex_iff split: if_splits)
  have r': "r' = (if ad_approved d
      then r\<lparr>ar_decisions := ar_decisions r @ [d], ar_approved_count := ar_approved_count r + 1\<rparr>
      else r\<lparr>ar_decisions := ar_decisions r @ [d], ar_rejected_count := ar_rejected_count r + 1\<rparr>)"
    using assms(1) by (auto simp: add_decision_def Let_def split: if_splits)
  show "request_ok r'" using assms(2) fresh by (simp add: r' request_ok_def)
  show "ar_decisions r' = ar_decisions r @ [d]" "ar_level r' = ar_level r" "ar_id r' = ar_id r"
    "ar_required_approvers r' = ar_required_approvers r" "ar_status r' = ar_status r"
    "ar_approved_count r' = ar_approved_count r + (if ad_approved d then 1 else 0)"
    "ar_rejected_count r' = ar_rejected_count r + (if ad_approved d then 0 else 1)"
    by (simp_all add: r')
qed

lemma is_completed_iff:
  "is_completed r \<longleftrightarrow> needed_approvals (ar_level r) \<le> ar_approved_count r \<or> 0 < ar_rejected_count r"
  by (auto simp: is_completed_def needed_approvals_def split: approval_level.splits)

lemma status_update_completed [simp]: "is_completed (r\<lparr>ar_status := st\<rparr>) = is_completed r"
  by (simp add: is_completed_iff)

lemma update_status_fields [simp]:
  "ar_decisions (update_status now r) = ar_decisions r" "ar_level (update_status now r) = ar_level r"
  "ar_id (update_status now r) = ar_id r"
  "ar_required_approvers (update_status now r) = ar_required_approvers r"
  "ar_approved_count (update_status now r) = ar_approved_count r"
  "ar_rejected_count (update_status now r) = ar_rejected_count r"
  "is_completed (update_status now r) = is_completed r" "request_ok (update_status now r) = request_ok r"
  by (simp_all add: update_status_def request_ok_def)

lemma approve_step_ok:
  assumes "pending_ok r" and d: "add_decision d r = Inr r'" and "ad_approved d"
  shows "is_completed (update_status now r') \<Longrightarrow> history_ok (update_status now r')"
    and "\<not> is_completed (update_status now r') \<Longrightarrow> pending_ok (update_status now r')"
proof -
  have ok: "request_ok r" "ar_rejected_count r = 0" using assms(1) by (auto simp: pending_ok_def)
  note a = add_decision_Inr [OF d ok(1)]
  show "is_completed (update_status now r') \<Longrightarrow> history_ok (update_status now r')"
    using a ok assms(3) is_completed_iff [of r'] unfolding history_ok_def
    by (auto simp: update_status_def request_ok_def)
  show "\<not> is_completed (update_status now r') \<Longrightarrow> pending_ok (update_status now r')"
    using a ok assms(1,3) unfolding pending_ok_def by (auto simp: update_status_def request_ok_def)
qed

lemma reject_step_ok:
  assumes "pending_ok r" and d: "add_decision d r = Inr r'" and "\<not> ad_approved d"
  shows "history_ok (update_status now r')"
proof -
  have ok: "request_ok r" "ar_rejected_count r = 0" using assms(1) by (auto simp: pending_ok_def)
  note a = add_decision_Inr [OF d ok(1)]
  show ?thesis
    using a ok assms(3) unfolding history_ok_def by (auto simp: update_status_def request_ok_def)
qed

lemma close_ok:
  "pending_ok r \<Longrightarrow> st \<in> {ApCancelled, ApTimedOut} \<Longrightarrow> history_ok (r\<lparr>ar_status := st\<rparr>)"
  by (auto simp: pending_ok_def history_ok_def request_ok_def)

subsection \<open>Every operation keeps the invariant\<close>

lemma indexed_forget: "indexed m rid user \<Longrightarrow> rid \<noteq> gone \<Longrightarrow>
    indexed (m'\<lparr>am_user_requests := forget_request gone (am_user_requests m)\<rparr>) rid user"
  by (auto simp: indexed_def forget_request_def hm_get_map split: option.splits)

lemma stores_ok_move:
  assumes "stores_ok m" shows "stores_ok (to_history rid r m)"
  using assms hm.move_disjoint [of "am_pending m" "am_history m" rid]
  by (simp add: stores_ok_def to_history_def)

lemma to_history_inv:
  assumes inv: "am_inv m" and "ar_id r = rid" and "history_ok r"
    and idx: "\<And>j u. j \<noteq> rid \<Longrightarrow> indexed m j u \<Longrightarrow> indexed (to_history rid r m\<lparr>am_user_requests := ix\<rparr>) j u"
  shows "am_inv (to_history rid r m\<lparr>am_user_requests := ix\<rparr>)"
proof (rule am_inv_I)
  show "stores_ok (to_history rid r m\<lparr>am_user_requests := ix\<rparr>)"
    using stores_ok_move [OF am_invD(1) [OF inv], of rid r] by (simp add: stores_ok_def)
next
  fix j q
  assume "hm_get (am_pending (to_history rid r m\<lparr>am_user_requests := ix\<rparr>)) j = Some q"
  then have j: "j \<noteq> rid" "hm_get (am_pending m) j = Some q"
    by (auto simp: to_history_def hm_get_remove split: if_splits)
  then show "ar_id q = j \<and> pending_ok q" using am_invD(2,3) [OF inv] by blast
  show "indexed (to_history rid r m\<lparr>am_user_requests := ix\<rparr>) j (apr_user_id a)"
    if "a \<in> set (ar_required_approvers q)" for a
    using idx [OF j(1)] am_invD(6) [OF inv j(2) that] by blast
next
  fix j q
  assume "hm_get (am_history (to_history rid r m\<lparr>am_user_requests := ix\<rparr>)) j = Some q"
  then show "ar_id q = j \<and> history_ok q"
    using am_invD(4,5) [OF inv, of j q] assms(2,3)
    by (auto simp: to_history_def hm_get_insert split: if_splits)
qed

lemma to_history_plain_inv:
  assumes "am_inv m" and "ar_id r = rid" and "history_ok r"
  shows "am_inv (to_history rid r m)"
proof -
  have same: "to_history rid r m\<lparr>am_user_requests := am_user_requests m\<rparr> = to_history rid r m"
    by (simp add: to_history_def)
  have "am_inv (to_history rid r m\<lparr>am_user_requests := am_user_requests m\<rparr>)"
    using assms by (intro to_history_inv) (simp_all add: indexed_def)
  then show ?thesis by (simp only: same)
qed

lemma approve_request_inv:
  assumes inv: "am_inv m" and ap: "approve_request now rid who comment m = Inr (r, m')"
  shows "am_inv m'"
proof -
  let ?d = "\<lparr>ad_approver_id = who, ad_approved = True, ad_comment = comment, ad_decided_at = now\<rparr>"
  obtain q q' where q: "hm_get (am_pending m) rid = Some q" and d: "add_decision ?d q = Inr q'"
    and m': "m' = (if is_completed (update_status now q')
      then (to_history rid (update_status now q') m)\<lparr>am_user_requests := forget_request rid (am_user_requests m)\<rparr>
      else m\<lparr>am_pending := hm_insert rid (update_status now q') (am_pending m)\<rparr>)"
    using ap by (auto simp: approve_request_def Let_def split: option.splits sum.splits if_splits)
  have ok: "pending_ok q" "ar_id q = rid" using am_invD(2,3) [OF inv q] by auto
  have rok: "request_ok q" using ok by (simp add: pending_ok_def)
  note a = add_decision_Inr [OF d rok] and st = approve_step_ok [OF ok(1) d, of now]
  show ?thesis
  proof (cases "is_completed (update_status now q')")
    case True
    then show ?thesis
      unfolding m' using inv st(1) a(4) ok(2)
      by (simp del: update_status_fields(7)) (intro to_history_inv; simp add: indexed_forget)
  next
    case False
    then have m'': "m' = m\<lparr>am_pending := hm_insert rid (update_status now q') (am_pending m)\<rparr>"
      using m' by simp
    have "hm_get (am_history m) rid = None"
      using am_invD(1) [OF inv] q by (metis option.distinct(1) stores_ok_def)
    then have "stores_ok m'"
      using am_invD(1) [OF inv] hm.put_disjoint [of "am_pending m" "am_history m" rid]
      by (simp add: m'' stores_ok_def)
    moreover have "pending_ok (update_status now q')" using st(2) False by simp
    ultimately show ?thesis
      using am_invD [OF inv] a(4,5) ok(2) q
      by (intro am_inv_I) (auto simp: m'' hm_get_insert indexed_def split: if_splits)
  qed
qed


lemma reject_request_inv:
  assumes inv: "am_inv m" and rj: "reject_request now rid who comment m = Inr (r, m')"
  shows "am_inv m'"
proof -
  let ?d = "\<lparr>ad_approver_id = who, ad_approved = False, ad_comment = comment, ad_decided_at = now\<rparr>"
  obtain q q' where q: "hm_get (am_pending m) rid = Some q" and d: "add_decision ?d q = Inr q'"
    and m': "m' = (to_history rid (update_status now q') m)
      \<lparr>am_user_requests := forget_request rid (am_user_requests m)\<rparr>"
    using rj by (auto simp: reject_request_def Let_def split: option.splits sum.splits)
  have ok: "pending_ok q" "ar_id q = rid" using am_invD(2,3) [OF inv q] by auto
  have rok: "request_ok q" using ok by (simp add: pending_ok_def)
  show ?thesis
    unfolding m' using inv reject_step_ok [OF ok(1) d, of now] add_decision_Inr(4) [OF d rok] ok(2)
    by (intro to_history_inv) (simp_all add: indexed_forget)
qed

lemma cancel_request_inv: "am_inv m \<Longrightarrow> am_inv (snd (cancel_request rid m))"
  using am_invD(2,3) [of m rid]
  by (auto simp: cancel_request_def close_ok intro!: to_history_plain_inv split: option.splits)

lemma expire_request_inv: "am_inv m \<Longrightarrow> am_inv (expire_request rid m)"
  using am_invD(2,3) [of m rid]
  by (auto simp: expire_request_def close_ok intro!: to_history_plain_inv split: option.splits)

lemma approval_cleanup_inv: "am_inv m \<Longrightarrow> am_inv (snd (approval_cleanup now m))"
proof -
  have "am_inv (fold expire_request rids m)" if "am_inv m" for rids m
    using that by (induction rids arbitrary: m) (auto intro: expire_request_inv)
  then show "am_inv m \<Longrightarrow> am_inv (snd (approval_cleanup now m))"
    by (simp add: approval_cleanup_def Let_def)
qed

lemma index_request_get:
  "hm_get (index_request rid user ix) u =
     (if u = user then Some ((case hm_get ix user of None \<Rightarrow> [] | Some ids \<Rightarrow> ids) @ [rid]) else hm_get ix u)"
  by (simp add: index_request_def hm_get_insert)

lemma index_requests_keep:
  "\<exists>ids'. hm_get (fold (index_request rid) users ix) u = Some ids' \<and> set ids \<subseteq> set ids'"
  if "hm_get ix u = Some ids"
  using that
proof (induction users arbitrary: ix ids)
  case (Cons v vs)
  have "\<exists>ids1. hm_get (index_request rid v ix) u = Some ids1 \<and> set ids \<subseteq> set ids1"
    using Cons.prems by (auto simp: index_request_get)
  then obtain ids1 where ids1: "hm_get (index_request rid v ix) u = Some ids1" "set ids \<subseteq> set ids1"
    by blast
  then show ?case using Cons.IH [OF ids1(1)] by auto
qed simp

lemma index_requests_new:
  "u \<in> set users \<Longrightarrow> \<exists>ids. hm_get (fold (index_request rid) users ix) u = Some ids \<and> rid \<in> set ids"
proof (induction users arbitrary: ix)
  case (Cons v vs)
  show ?case
  proof (cases "u = v")
    case True
    obtain ids where "hm_get (index_request rid v ix) u = Some ids" "rid \<in> set ids"
      using True by (auto simp: index_request_get)
    then show ?thesis using index_requests_keep [of "index_request rid v ix" u ids rid vs] by auto
  next
    case False
    then show ?thesis using Cons by simp
  qed
qed simp

lemma create_request_inv:
  assumes inv: "am_inv m" and fresh: "get_request uuid m = None"
    and cr: "create_request now uuid action who level approvers metadata m = (r, m')"
  shows "am_inv m'"
proof (cases "m' = m")
  case False
  let ?q = "approval_request_new now uuid action who level approvers\<lparr>ar_metadata := metadata\<rparr>"
  let ?ix = "fold (index_request uuid) (map apr_user_id approvers) (am_user_requests m)"
  have m': "m' = m\<lparr>am_pending := hm_insert uuid ?q (am_pending m), am_user_requests := ?ix\<rparr>"
    using cr False by (auto simp: create_request_def Let_def split: if_splits)
  have new: "hm_get (am_pending m) uuid = None" "hm_get (am_history m) uuid = None"
    using fresh by (auto simp: get_request_def split: option.splits)
  have q: "pending_ok ?q" "ar_id ?q = uuid" "ar_required_approvers ?q = approvers"
    by (simp_all add: approval_request_new_def pending_ok_def request_ok_def)
  have idx: "indexed m' uuid (apr_user_id a)" if "a \<in> set approvers" for a
    using that index_requests_new [of "apr_user_id a" "map apr_user_id approvers" uuid "am_user_requests m"]
    by (auto simp: indexed_def m')
  have keep: "indexed m' j u" if "indexed m j u" for j u
    using that index_requests_keep [of "am_user_requests m" u _ uuid "map apr_user_id approvers"]
    by (fastforce simp: indexed_def m' split: option.splits)
  show ?thesis
  proof (rule am_inv_I)
    show "stores_ok m'"
      using am_invD(1) [OF inv] new hm.put_disjoint [of "am_pending m" "am_history m" uuid]
      by (simp add: m' stores_ok_def)
    show "ar_id p = j \<and> pending_ok p" if "hm_get (am_pending m') j = Some p" for j p
      using that q am_invD(2,3) [OF inv, of j p] by (auto simp: m' hm_get_insert split: if_splits)
    show "ar_id p = j \<and> history_ok p" if "hm_get (am_history m') j = Some p" for j p
      using that am_invD(4,5) [OF inv, of j p] by (simp add: m')
    show "indexed m' j (apr_user_id a)"
      if "hm_get (am_pending m') j = Some p" "a \<in> set (ar_required_approvers p)" for j p a
    proof (cases "j = uuid")
      case True
      then show ?thesis using that idx q(3) by (simp add: m' hm_get_insert)
    next
      case False
      then show ?thesis using that keep am_invD(6) [OF inv] by (simp add: m' hm_get_insert)
    qed
  qed
qed (use inv in simp)

lemma am_inv_new: "am_inv (with_rule_engine approval_manager_new e)"
  by (simp add: am_inv_def stores_ok_def approval_manager_new_def with_rule_engine_def)

lemma am_step_inv: "am_inv m \<Longrightarrow> am_step m m' \<Longrightarrow> am_inv m'"
  by (erule am_stepE)
     (auto intro: create_request_inv approve_request_inv reject_request_inv cancel_request_inv
       approval_cleanup_inv)

interpretation am: step_system "\<lambda>m. \<exists>e. m = with_rule_engine approval_manager_new e" am_step am_inv
  by unfold_locales (auto simp: am_inv_new intro: am_step_inv)

lemma set_map_filter: "y \<in> set (List.map_filter f xs) \<longleftrightarrow> (\<exists>x\<in>set xs. f x = Some y)"
  by (force simp: List.map_filter_def)

subsection \<open>Properties\<close>

text \<open>
  C24: in every state the approval manager reaches, a request that ended up approved was approved
  by as many different approvers as its level asks for (at least one), and nobody rejected it;
  no request is both pending and finished.
\<close>

theorem approved_only_with_enough_approvers:
  assumes "am_step\<^sup>*\<^sup>* (with_rule_engine approval_manager_new e) m"
    and "hm_get (am_history m) rid = Some r" and "ar_status r = ApApproved"
  shows "distinct (approvers_of r) \<and> 0 < length (approvers_of r) \<and>
    needed_approvals (ar_level r) \<le> length (approvers_of r) \<and>
    list_all ad_approved (ar_decisions r) \<and> hm_get (am_pending m) rid = None"
proof -
  have inv: "am_inv m" using assms(1) by (blast intro: am.reachable_good)
  note h = am_invD(5) [OF inv assms(2)]
  have "distinct (map ad_approver_id (filter ad_approved (ar_decisions r)))"
    using h by (simp add: history_ok_def request_ok_def distinct_map_filter)
  moreover have "filter (\<lambda>d. \<not> ad_approved d) (ar_decisions r) = []"
    using h assms(3) by (simp add: history_ok_def request_ok_def flip: length_0_conv)
  then have "list_all ad_approved (ar_decisions r)"
    by (auto simp: filter_empty_conv list_all_iff)
  moreover have "hm_get (am_pending m) rid = None"
    using am_invD(1) [OF inv] assms(2) by (metis option.distinct(1) stores_ok_def)
  ultimately show ?thesis
    using h assms(3) by (auto simp: approvers_of_def history_ok_def request_ok_def)
qed

text \<open>
  An approver listed in a pending request sees it among their pending requests, and
  everything an approver sees there is a request that is still pending.
\<close>

theorem user_pending_requests_exact:
  assumes "am_step\<^sup>*\<^sup>* (with_rule_engine approval_manager_new e) m"
  shows "(\<forall>r. r \<in> set (list_pending m) \<and> user \<in> apr_user_id ` set (ar_required_approvers r) \<longrightarrow>
       r \<in> set (get_user_pending_requests user m)) \<and>
    (\<forall>r. r \<in> set (get_user_pending_requests user m) \<longrightarrow> r \<in> set (list_pending m) \<and> ar_status r \<noteq> ApApproved)"
proof (intro conjI allI impI)
  have inv: "am_inv m" using assms by (blast intro: am.reachable_good)
  have wf: "hm_wf (am_pending m)" using am_invD(1) [OF inv] by (simp add: stores_ok_def)
  show "r \<in> set (get_user_pending_requests user m)"
    if r: "r \<in> set (list_pending m) \<and> user \<in> apr_user_id ` set (ar_required_approvers r)" for r
  proof -
    obtain rid where rid: "hm_get (am_pending m) rid = Some r"
      using r hm_values_get [OF wf] by (auto simp: list_pending_def)
    then have "indexed m rid user" using r am_invD(6) [OF inv rid] by blast
    then show ?thesis
      using rid by (auto simp: indexed_def get_user_pending_requests_def set_map_filter split: option.splits)
  qed
  fix r
  assume "r \<in> set (get_user_pending_requests user m)"
  then obtain rid where rid: "hm_get (am_pending m) rid = Some r"
    by (auto simp: get_user_pending_requests_def set_map_filter)
  then show "r \<in> set (list_pending m)" unfolding list_pending_def by (rule hm_get_values)
  show "ar_status r \<noteq> ApApproved" using am_invD(3) [OF inv rid] by (auto simp: pending_ok_def)
qed


definition example_pending :: approval_manager where
  "example_pending =
     snd (create_request 100 ''r1'' ''deploy'' ''ann'' (Parallel 2) [hub_admin] JNull
       (with_rule_engine approval_manager_new rule_engine_new))"

definition example_twice :: approval_manager where
  "example_twice =
     snd (projr (approve_request 102 ''r1'' ''bob'' None
       (snd (projr (approve_request 101 ''r1'' ''eve'' None example_pending)))))"

lemmas approval_eval = create_request_def approval_request_new_def Let_def evaluate_auto_approve_def
  evaluate_auto_reject_def with_rule_engine_def approval_manager_new_def rule_engine_new_def
  index_request_def hub_admin_def approve_request_def can_approve_def add_decision_def update_status_def
  is_completed_def is_expired_def to_history_def forget_request_def get_request_def hm_map_def

lemma create_step:
  "get_request uuid m = None \<Longrightarrow>
     am_step m (snd (create_request now uuid action who level approvers metadata m))"
  by (rule am_create [OF _ prod.collapse [symmetric]])

lemma no_request_new: "get_request uuid (with_rule_engine approval_manager_new e) = None"
  by (simp add: get_request_def approval_manager_new_def with_rule_engine_def)

lemma example_pending_step:
  "am_step (with_rule_engine approval_manager_new rule_engine_new) example_pending"
  unfolding example_pending_def by (rule create_step [OF no_request_new])

lemma example_approve_steps: "am_step\<^sup>*\<^sup>* example_pending example_twice"
proof -
  let ?m1 = "snd (projr (approve_request 101 ''r1'' ''eve'' None example_pending))"
  have "approve_request 101 ''r1'' ''eve'' None example_pending =
      Inr (fst (projr (approve_request 101 ''r1'' ''eve'' None example_pending)), ?m1)"
    by (simp add: example_pending_def approval_eval)
  moreover have "approve_request 102 ''r1'' ''bob'' None ?m1 =
      Inr (fst (projr (approve_request 102 ''r1'' ''bob'' None ?m1)), example_twice)"
    by (simp add: example_twice_def example_pending_def approval_eval)
  ultimately have "am_step example_pending ?m1" "am_step ?m1 example_twice"
    using am_approve by blast+
  then show ?thesis by simp
qed

theorem approved_only_with_enough_approvers_witness:
  "\<exists>r. hm_get (am_history example_twice) ''r1'' = Some r \<and> ar_status r = ApApproved \<and>
     approvers_of r = [''eve'', ''bob''] \<and> 2 \<le> length (approvers_of r)"
proof -
  obtain r where r: "hm_get (am_history example_twice) ''r1'' = Some r" "ar_status r = ApApproved"
      "approvers_of r = [''eve'', ''bob'']" "ar_level r = Parallel 2"
    by (simp add: example_twice_def example_pending_def approval_eval approvers_of_def)
  have "am_step\<^sup>*\<^sup>* (with_rule_engine approval_manager_new rule_engine_new) example_twice"
    using example_pending_step example_approve_steps by (rule converse_rtranclp_into_rtranclp)
  from approved_only_with_enough_approvers [OF this r(1,2)] show ?thesis
    using r by (simp add: needed_approvals_def)
qed

theorem user_pending_requests_exact_witness:
  "map ar_id (get_user_pending_requests ''hub-admin'' example_pending) = [''r1''] \<and>
   set (get_user_pending_requests ''hub-admin'' example_pending) \<subseteq> set (list_pending example_pending)"
proof -
  have "am_step\<^sup>*\<^sup>* (with_rule_engine approval_manager_new rule_engine_new) example_pending"
    using example_pending_step by blast
  from user_pending_requests_exact [OF this, of "''hub-admin''"] show ?thesis
    by (auto simp: get_user_pending_requests_def example_pending_def approval_eval List.map_filter_def)
qed

text \<open>
  A decision is taken from anybody: whoever approves a pending single-level request first,
  listed among its required approvers or not, finishes it as approved (unless it has expired).
\<close>

theorem any_user_can_approve:
  assumes "am_inv m" and "hm_get (am_pending m) rid = Some r" and "ar_level r = Single"
    and "ar_decisions r = []" and "\<not> is_expired now r"
  shows "\<exists>r' m'. approve_request now rid who comment m = Inr (r', m') \<and>
    hm_get (am_history m') rid = Some r' \<and> ar_status r' = ApApproved \<and> hm_get (am_pending m') rid = None"
proof -
  have "ar_approved_count r = 0" "ar_rejected_count r = 0"
    using am_invD(3) [OF assms(1,2)] assms(4) by (auto simp: pending_ok_def request_ok_def)
  then show ?thesis
    using assms by (simp add: approve_request_def can_approve_def add_decision_def Let_def update_status_def
        is_expired_def is_completed_def to_history_def hm_get_insert hm_get_remove)
qed

definition example_single :: approval_manager where
  "example_single =
     snd (create_request 100 ''r1'' ''deploy'' ''ann'' Single [hub_admin] JNull
       (with_rule_engine approval_manager_new rule_engine_new))"

lemma example_single_inv: "am_inv example_single"
  unfolding example_single_def by (rule am_step_inv [OF am_inv_new create_step [OF no_request_new]])

theorem any_user_can_approve_witness:
  "\<exists>r' m'. approve_request 105 ''r1'' ''ann'' None example_single = Inr (r', m') \<and> ar_status r' = ApApproved"
proof -
  obtain r where r: "hm_get (am_pending example_single) ''r1'' = Some r" "ar_level r = Single"
      "ar_decisions r = []" "\<not> is_expired 105 r"
    by (simp add: example_single_def approval_eval)
  show ?thesis using any_user_can_approve [OF example_single_inv r, of "''ann''" None] by blast
qed

text \<open>
  The task that is spawned with a request to expire it never returns when the request is
  still pending at its expiry: it asks for the lock of the pending requests while it holds it.
  No request is ever moved to the history by this task.
\<close>

theorem expiry_task_blocks:
  "expiry_task rid m =
     (case hm_get (am_pending m) rid of
        Some r \<Rightarrow> if ar_status r = ApPending then None else Some m
      | None \<Rightarrow> Some m)"
  by (simp add: expiry_task_def acquire_write_def Let_def split: option.splits)

end
