(* ===== verification/Session_Runtime.thy ===== *)
theory Session_Runtime
  imports Protocol
begin

section \<open>The session runtime (\<^verbatim>\<open>uhorse-hub/src/session_runtime.rs\<close>)\<close>

text \<open>
  What the Hub keeps per session while a turn runs: the turn, its transcript, the bindings from
  tasks to turns and the lanes that serialise the work of a session. Every operation of
  \<^verbatim>\<open>SessionRuntimeManager\<close> is here; a UUID or a clock reading an operation takes is an argument.
  The \<open>u32\<close> counters of a turn wrap as they do in a release build. The mutual exclusion of
  \<open>run_serialized\<close> is a step relation at the end, in which the two lock acquisitions of
  \<open>lane_for\<close> are separate steps.
\<close>

subsection \<open>State\<close>

datatype transcript_event_kind =
    UserMessage | AssistantStep | ToolCallPlanned | ToolCallDispatched | ApprovalRequested
  | ToolResultObserved | ApprovalApproved | ApprovalRejected | TurnResumed | PlannerRetry
  | AssistantFinal | TurnFailed | TurnCancelled | TurnCompacted

record transcript_event =
  te_seq :: u64
  te_created_at :: instant
  te_kind :: transcript_event_kind
  te_content :: string

record session_transcript =
  tx_turn_id :: string
  tx_events :: "transcript_event list"

datatype turn_status =
    Planning | Dispatching | WaitingForTool | WaitingForApproval | WaitingForUser | Resuming
  | StCompleted | StCancelled | StFailed

datatype tool_call_status = ToolRunning | ToolCompleted | ToolFailed

record tool_call_state =
  tl_tool_call_id :: string
  tl_tool_name :: string
  tl_task_id :: "task_id option"
  tl_status :: tool_call_status

record session_turn_state =
  tn_turn_id :: string
  tn_user_message :: string
  tn_status :: turn_status
  tn_step_count :: u32
  tn_max_steps :: u32
  tn_cancel_requested :: bool
  tn_planner_retry_count :: u32
  tn_max_planner_retries :: u32
  tn_compacted_summary :: "string option"
  tn_pruned_event_count :: nat
  tn_tool_call :: "tool_call_state option"

record ding_talk_reply_route =
  dr_conversation_id :: string
  dr_source_message_id :: "string option"
  dr_conversation_type :: "string option"
  dr_sender_user_id :: "string option"
  dr_sender_staff_id :: "string option"
  dr_session_webhook :: "string option"
  dr_session_webhook_expired_time :: "int option"
  dr_robot_code :: "string option"

record task_continuation_binding =
  tb_session_key :: string
  tb_turn_id :: string
  tb_tool_call_id :: string
  tb_agent_id :: string
  tb_route :: ding_talk_reply_route

text \<open>A lane is the identity of its mutex.\<close>

type_synonym lane = nat

record session_runtime =
  sr_lanes :: "(string, lane) hmap"
  sr_turns :: "(string, session_turn_state) hmap"
  sr_transcripts :: "(string, session_transcript) hmap"
  sr_task_bindings :: "(task_id, task_continuation_binding) hmap"

record session_mailbox_snapshot =
  sn_session_key :: string
  sn_has_lane :: bool
  sn_active_task_binding_count :: nat
  sn_transcript_event_count :: nat
  sn_turn :: "session_turn_state option"

definition session_runtime_new :: session_runtime where
  "session_runtime_new =
     \<lparr>sr_lanes = [], sr_turns = [], sr_transcripts = [], sr_task_bindings = []\<rparr>"

subsection \<open>Lanes and turns\<close>

text \<open>
  \<open>lane_for\<close> reads the map under the read lock and, on a miss, takes the write lock and inserts
  a new mutex unless there is one by then. \<open>fresh\<close> is the mutex \<open>Arc::new\<close> would allocate.
\<close>

definition lane_write :: "lane \<Rightarrow> string \<Rightarrow> (string, lane) hmap \<Rightarrow> lane \<times> (string, lane) hmap" where
  "lane_write fresh key lanes =
     (case hm_get lanes key of
        Some l \<Rightarrow> (l, lanes)
      | None \<Rightarrow> (fresh, hm_insert key fresh lanes))"

definition lane_for :: "lane \<Rightarrow> string \<Rightarrow> session_runtime \<Rightarrow> lane \<times> session_runtime" where
  "lane_for fresh key s =
     (case hm_get (sr_lanes s) key of
        Some l \<Rightarrow> (l, s)
      | None \<Rightarrow> (let (l, lanes) = lane_write fresh key (sr_lanes s) in (l, s\<lparr>sr_lanes := lanes\<rparr>)))"

definition turn_new :: "string \<Rightarrow> string \<Rightarrow> session_turn_state" where
  "turn_new turn_id user_message =
     \<lparr>tn_turn_id = turn_id, tn_user_message = user_message, tn_status = Planning,
      tn_step_count = 0, tn_max_steps = 4, tn_cancel_requested = False,
      tn_planner_retry_count = 0, tn_max_planner_retries = 1, tn_compacted_summary = None,
      tn_pruned_event_count = 0, tn_tool_call = None\<rparr>"

definition start_turn ::
  "instant \<Rightarrow> lane \<Rightarrow> string \<Rightarrow> string \<Rightarrow> string \<Rightarrow> session_runtime \<Rightarrow> string \<times> session_runtime" where
  "start_turn now fresh turn_id key user_message s0 =
     (let s = snd (lane_for fresh key s0)
      in (turn_id,
          s\<lparr>sr_turns := hm_insert key (turn_new turn_id user_message) (sr_turns s),
            sr_transcripts :=
              hm_insert key
                \<lparr>tx_turn_id = turn_id,
                 tx_events = [\<lparr>te_seq = 1, te_created_at = now, te_kind = UserMessage,
                               te_content = user_message\<rparr>]\<rparr>
                (sr_transcripts s)\<rparr>))"

definition begin_tool_call ::
  "string \<Rightarrow> string \<Rightarrow> string \<Rightarrow> session_runtime \<Rightarrow> string option \<times> session_runtime" where
  "begin_tool_call tool_call_id key tool_name s =
     (case hm_get (sr_turns s) key of
        None \<Rightarrow> (None, s)
      | Some turn \<Rightarrow>
          (Some tool_call_id,
           s\<lparr>sr_turns :=
               hm_insert key
                 (turn\<lparr>tn_status := Dispatching,
                       tn_tool_call := Some \<lparr>tl_tool_call_id = tool_call_id, tl_tool_name = tool_name,
                                             tl_task_id = None, tl_status = ToolRunning\<rparr>\<rparr>)
                 (sr_turns s)\<rparr>))"

subsection \<open>Transcripts\<close>

definition push_event ::
  "instant \<Rightarrow> transcript_event_kind \<Rightarrow> string \<Rightarrow> session_transcript \<Rightarrow> session_transcript" where
  "push_event now kind content t =
     t\<lparr>tx_events := tx_events t @
        [\<lparr>te_seq = of_nat (length (tx_events t)) + 1, te_created_at = now, te_kind = kind,
          te_content = content\<rparr>]\<rparr>"

definition append_transcript_event ::
  "instant \<Rightarrow> string \<Rightarrow> transcript_event_kind \<Rightarrow> string \<Rightarrow> session_runtime \<Rightarrow> session_runtime" where
  "append_transcript_event now key kind content s =
     (let transcript = (case hm_get (sr_transcripts s) key of
                          Some t \<Rightarrow> t
                        | None \<Rightarrow> \<lparr>tx_turn_id = '''', tx_events = []\<rparr>)
      in s\<lparr>sr_transcripts :=
             hm_insert key (push_event now kind content transcript) (sr_transcripts s)\<rparr>)"

definition transcript :: "session_runtime \<Rightarrow> string \<Rightarrow> session_transcript option" where
  "transcript s key = hm_get (sr_transcripts s) key"

definition key_event :: "transcript_event_kind \<Rightarrow> bool" where
  "key_event k = (k \<in> {UserMessage, AssistantFinal, TurnCompacted, TurnCancelled, TurnFailed})"

definition renumber :: "transcript_event list \<Rightarrow> transcript_event list" where
  "renumber es = map (\<lambda>(i, e). e\<lparr>te_seq := of_nat i + 1\<rparr>) (List.enumerate 0 es)"

definition prune_events :: "nat \<Rightarrow> transcript_event list \<Rightarrow> transcript_event list" where
  "prune_events tail_len es =
     (if length es \<le> tail_len then es
      else let tail_start = length es - tail_len
           in renumber (map snd (filter (\<lambda>(i, e). key_event (te_kind e) \<or> tail_start \<le> i)
                                  (List.enumerate 0 es))))"

definition prune_completed_turn_transcript :: "string \<Rightarrow> nat \<Rightarrow> session_runtime \<Rightarrow> session_runtime" where
  "prune_completed_turn_transcript key tail_len s =
     s\<lparr>sr_transcripts :=
        hm_modify key (\<lambda>t. t\<lparr>tx_events := prune_events tail_len (tx_events t)\<rparr>) (sr_transcripts s)\<rparr>"

subsection \<open>Tasks of a turn\<close>

text \<open>\<open>get_mut\<close> on the turns followed by assignments to the fields of the turn.\<close>

definition on_turn :: "string \<Rightarrow> (session_turn_state \<Rightarrow> session_turn_state) \<Rightarrow> session_runtime \<Rightarrow> session_runtime" where
  "on_turn key f s = s\<lparr>sr_turns := hm_modify key f (sr_turns s)\<rparr>"

definition bind_task_to_turn ::
  "instant \<Rightarrow> task_id \<Rightarrow> task_continuation_binding \<Rightarrow> session_runtime \<Rightarrow> session_runtime" where
  "bind_task_to_turn now tid b s =
     append_transcript_event now (tb_session_key b) ToolCallDispatched
       (tb_tool_call_id b @ '':'' @ task_id_as_str tid)
       (on_turn (tb_session_key b)
         (\<lambda>turn. turn\<lparr>tn_status := WaitingForTool,
            tn_tool_call := map_option
              (\<lambda>c. if tl_tool_call_id c = tb_tool_call_id b then c\<lparr>tl_task_id := Some tid\<rparr> else c)
              (tn_tool_call turn)\<rparr>)
         (s\<lparr>sr_task_bindings := hm_insert tid b (sr_task_bindings s)\<rparr>))"

definition task_binding :: "session_runtime \<Rightarrow> task_id \<Rightarrow> task_continuation_binding option" where
  "task_binding s tid = hm_get (sr_task_bindings s) tid"

definition find_task_binding :: "session_runtime \<Rightarrow> task_id \<Rightarrow> task_continuation_binding option" where
  "find_task_binding s tid = hm_get (sr_task_bindings s) tid"

definition take_task_binding ::
  "task_id \<Rightarrow> session_runtime \<Rightarrow> task_continuation_binding option \<times> session_runtime" where
  "take_task_binding tid s =
     (hm_get (sr_task_bindings s) tid, s\<lparr>sr_task_bindings := hm_remove tid (sr_task_bindings s)\<rparr>)"

text \<open>The tool call gets the status when no task is given or it is the call's task.\<close>

definition settle_tool_call ::
  "tool_call_status \<Rightarrow> task_id option \<Rightarrow> session_turn_state \<Rightarrow> session_turn_state" where
  "settle_tool_call st tid turn =
     turn\<lparr>tn_tool_call := map_option
       (\<lambda>c. if tid = None \<or> tl_task_id c = tid then c\<lparr>tl_status := st\<rparr> else c) (tn_tool_call turn)\<rparr>"

definition drop_binding :: "task_id option \<Rightarrow> session_runtime \<Rightarrow> session_runtime" where
  "drop_binding tid s =
     (case tid of
        None \<Rightarrow> s
      | Some t \<Rightarrow> s\<lparr>sr_task_bindings := hm_remove t (sr_task_bindings s)\<rparr>)"

definition complete_turn :: "string \<Rightarrow> task_id option \<Rightarrow> session_runtime \<Rightarrow> session_runtime" where
  "complete_turn key tid s =
     drop_binding tid
       (on_turn key (\<lambda>turn. settle_tool_call ToolCompleted tid (turn\<lparr>tn_status := StCompleted\<rparr>)) s)"

definition cancel_turn :: "instant \<Rightarrow> string \<Rightarrow> session_runtime \<Rightarrow> session_runtime" where
  "cancel_turn now key s =
     append_transcript_event now key TurnCancelled ''cancelled''
       (on_turn key
         (\<lambda>turn. turn\<lparr>tn_cancel_requested := True, tn_status := StCancelled,
            tn_tool_call := map_option (\<lambda>c. c\<lparr>tl_status := ToolFailed\<rparr>) (tn_tool_call turn)\<rparr>) s)"

definition fail_turn :: "string \<Rightarrow> task_id option \<Rightarrow> session_runtime \<Rightarrow> session_runtime" where
  "fail_turn key tid s =
     drop_binding tid
       (on_turn key (\<lambda>turn. settle_tool_call ToolFailed tid (turn\<lparr>tn_status := StFailed\<rparr>)) s)"

text \<open>The operations that return the turn they changed.\<close>

definition turn_state :: "session_runtime \<Rightarrow> string \<Rightarrow> session_turn_state option" where
  "turn_state s key = hm_get (sr_turns s) key"

definition update_turn ::
  "string \<Rightarrow> (session_turn_state \<Rightarrow> session_turn_state) \<Rightarrow> session_runtime \<Rightarrow>
   session_turn_state option \<times> session_runtime" where
  "update_turn key f s =
     (case hm_get (sr_turns s) key of
        None \<Rightarrow> (None, s)
      | Some turn \<Rightarrow> (Some (f turn), on_turn key f s))"

definition increment_step_count :: "string \<Rightarrow> session_runtime \<Rightarrow> session_turn_state option \<times> session_runtime" where
  "increment_step_count key = update_turn key (\<lambda>t. t\<lparr>tn_step_count := tn_step_count t + 1\<rparr>)"

definition mark_turn_resuming ::
  "string \<Rightarrow> task_id option \<Rightarrow> session_runtime \<Rightarrow> session_turn_state option \<times> session_runtime" where
  "mark_turn_resuming key tid =
     update_turn key (\<lambda>t. (settle_tool_call ToolCompleted tid t)\<lparr>tn_status := Resuming\<rparr>)"

definition mark_waiting_for_approval :: "string \<Rightarrow> session_runtime \<Rightarrow> session_turn_state option \<times> session_runtime" where
  "mark_waiting_for_approval key = update_turn key (\<lambda>t. t\<lparr>tn_status := WaitingForApproval\<rparr>)"

definition mark_waiting_for_user :: "string \<Rightarrow> session_runtime \<Rightarrow> session_turn_state option \<times> session_runtime" where
  "mark_waiting_for_user key = update_turn key (\<lambda>t. t\<lparr>tn_status := WaitingForUser\<rparr>)"

definition increment_planner_retry :: "string \<Rightarrow> session_runtime \<Rightarrow> session_turn_state option \<times> session_runtime" where
  "increment_planner_retry key =
     update_turn key (\<lambda>t. t\<lparr>tn_planner_retry_count := tn_planner_retry_count t + 1\<rparr>)"

definition reset_planner_retry :: "string \<Rightarrow> session_runtime \<Rightarrow> session_runtime" where
  "reset_planner_retry key = on_turn key (\<lambda>t. t\<lparr>tn_planner_retry_count := 0\<rparr>)"

definition record_compaction :: "string \<Rightarrow> string \<Rightarrow> nat \<Rightarrow> session_runtime \<Rightarrow> session_runtime" where
  "record_compaction key summary pruned =
     on_turn key (\<lambda>t. t\<lparr>tn_compacted_summary := Some summary, tn_pruned_event_count := pruned\<rparr>)"

subsection \<open>Snapshots\<close>

definition mailbox_snapshot :: "session_runtime \<Rightarrow> string \<Rightarrow> session_mailbox_snapshot" where
  "mailbox_snapshot s key =
     \<lparr>sn_session_key = key,
      sn_has_lane = hm_contains (sr_lanes s) key,
      sn_active_task_binding_count =
        length (filter (\<lambda>b. tb_session_key b = key) (hm_values (sr_task_bindings s))),
      sn_transcript_event_count =
        (case hm_get (sr_transcripts s) key of None \<Rightarrow> 0 | Some t \<Rightarrow> length (tx_events t)),
      sn_turn = hm_get (sr_turns s) key\<rparr>"

definition mailbox_snapshots :: "session_runtime \<Rightarrow> session_mailbox_snapshot list" where
  "mailbox_snapshots s =
     map (mailbox_snapshot s)
       (remdups_adj (sort (hm_keys (sr_turns s) @ hm_keys (sr_transcripts s) @ hm_keys (sr_lanes s))))"

subsection \<open>The invariant of the runtime\<close>

text \<open>Events carry the numbers 1, 2, \<dots> in their order.\<close>

definition numbered :: "transcript_event list \<Rightarrow> bool" where
  "numbered es = (map te_seq es = map (\<lambda>i. of_nat i + 1) [0..<length es])"

text \<open>
  The maps are well formed, every transcript is numbered, and the transcript of a session with a
  turn is the transcript of that turn.
\<close>

definition sr_inv :: "session_runtime \<Rightarrow> bool" where
  "sr_inv s =
     (hm_wf (sr_lanes s) \<and> hm_wf (sr_turns s) \<and> hm_wf (sr_transcripts s) \<and> hm_wf (sr_task_bindings s) \<and>
      (\<forall>key t. hm_get (sr_transcripts s) key = Some t \<longrightarrow> numbered (tx_events t)) \<and>
      (\<forall>key turn. hm_get (sr_turns s) key = Some turn \<longrightarrow>
         map_option tx_turn_id (hm_get (sr_transcripts s) key) = Some (tn_turn_id turn)))"

inductive sr_step :: "session_runtime \<Rightarrow> session_runtime \<Rightarrow> bool" where
  sr_lane: "sr_step s (snd (lane_for fresh key s))"
| sr_start: "sr_step s (snd (start_turn now fresh turn_id key msg s))"
| sr_begin: "sr_step s (snd (begin_tool_call call_id key name s))"
| sr_append: "sr_step s (append_transcript_event now key kind content s)"
| sr_bind: "sr_step s (bind_task_to_turn now tid b s)"
| sr_take: "sr_step s (snd (take_task_binding tid s))"
| sr_complete: "sr_step s (complete_turn key otid s)"
| sr_cancel: "sr_step s (cancel_turn now key s)"
| sr_fail: "sr_step s (fail_turn key otid s)"
| sr_count: "sr_step s (snd (increment_step_count key s))"
| sr_resume: "sr_step s (snd (mark_turn_resuming key otid s))"
| sr_wait_approval: "sr_step s (snd (mark_waiting_for_approval key s))"
| sr_wait_user: "sr_step s (snd (mark_waiting_for_user key s))"
| sr_retry: "sr_step s (snd (increment_planner_retry key s))"
| sr_reset: "sr_step s (reset_planner_retry key s)"
| sr_compact: "sr_step s (record_compaction key summary n s)"
| sr_prune: "sr_step s (prune_completed_turn_transcript key tail_len s)"

inductive_cases sr_stepE: "sr_step s s'"

lemma numbered_Nil [simp]: "numbered []"
  by (simp add: numbered_def)

lemma numbered_push [simp]: "numbered (tx_events t) \<Longrightarrow> numbered (tx_events (push_event now kind content t))"
  by (simp add: numbered_def push_event_def)

lemma length_renumber [simp]: "length (renumber es) = length es"
  by (simp add: renumber_def)

lemma nth_renumber: "i < length es \<Longrightarrow> renumber es ! i = (es ! i)\<lparr>te_seq := of_nat i + 1\<rparr>"
  by (simp add: renumber_def nth_enumerate_eq)

lemma numbered_nth: "numbered es \<longleftrightarrow> (\<forall>i<length es. te_seq (es ! i) = of_nat i + 1)"
  unfolding numbered_def list_eq_iff_nth_eq by simp

lemma numbered_renumber [simp]: "numbered (renumber es)"
  by (simp add: numbered_nth nth_renumber)

lemma renumber_numbered:
  assumes "numbered es"
  shows "renumber es = es"
proof (rule nth_equalityI)
  show "renumber es ! i = es ! i" if "i < length (renumber es)" for i
  proof -
    have seq: "te_seq (es ! i) = of_nat i + 1" using assms that by (simp add: numbered_nth)
    show ?thesis using that seq [symmetric] by (simp add: nth_renumber)
  qed
qed simp

lemma numbered_prune [simp]: "numbered es \<Longrightarrow> numbered (prune_events n es)"
  by (simp add: prune_events_def Let_def)

lemma push_event_turn [simp]: "tx_turn_id (push_event now kind content t) = tx_turn_id t"
  by (simp add: push_event_def)

lemma settle_turn_id [simp]: "tn_turn_id (settle_tool_call st tid t) = tn_turn_id t"
  by (simp add: settle_tool_call_def)

lemma sr_inv_append [simp]: "sr_inv s \<Longrightarrow> sr_inv (append_transcript_event now key kind content s)"
  by (fastforce simp: sr_inv_def append_transcript_event_def Let_def hm_simps split: option.splits)

lemma sr_inv_on_turn [simp]:
  "sr_inv s \<Longrightarrow> (\<And>t. tn_turn_id (f t) = tn_turn_id t) \<Longrightarrow> sr_inv (on_turn key f s)"
  by (auto simp: sr_inv_def on_turn_def hm_simps)

lemma sr_inv_bindings [simp]: "sr_inv s \<Longrightarrow> hm_wf b \<Longrightarrow> sr_inv (s\<lparr>sr_task_bindings := b\<rparr>)"
  by (simp add: sr_inv_def)

lemma sr_inv_wf_bindings [simp]: "sr_inv s \<Longrightarrow> hm_wf (sr_task_bindings s)"
  by (simp add: sr_inv_def)

lemma sr_inv_drop [simp]: "sr_inv s \<Longrightarrow> sr_inv (drop_binding tid s)"
  by (simp add: drop_binding_def split: option.splits)

lemma sr_inv_update [simp]:
  "sr_inv s \<Longrightarrow> (\<And>t. tn_turn_id (f t) = tn_turn_id t) \<Longrightarrow> sr_inv (snd (update_turn key f s))"
  by (simp add: update_turn_def split: option.splits)

lemma sr_inv_lane [simp]: "sr_inv s \<Longrightarrow> sr_inv (snd (lane_for fresh key s))"
  by (auto simp: sr_inv_def lane_for_def lane_write_def split: option.splits)

lemma sr_inv_start: "sr_inv s \<Longrightarrow> sr_inv (snd (start_turn now fresh tid key msg s))"
  using sr_inv_lane [of s fresh key]
  by (auto simp: sr_inv_def start_turn_def Let_def hm_simps numbered_def turn_new_def)

lemma sr_inv_begin: "sr_inv s \<Longrightarrow> sr_inv (snd (begin_tool_call c key name s))"
  by (auto simp: sr_inv_def begin_tool_call_def hm_simps split: option.splits)

lemma sr_inv_prune: "sr_inv s \<Longrightarrow> sr_inv (prune_completed_turn_transcript key n s)"
  by (fastforce simp: sr_inv_def prune_completed_turn_transcript_def hm_simps)

lemmas turn_ops =
  complete_turn_def fail_turn_def cancel_turn_def increment_step_count_def mark_turn_resuming_def
  mark_waiting_for_approval_def mark_waiting_for_user_def increment_planner_retry_def
  reset_planner_retry_def record_compaction_def bind_task_to_turn_def take_task_binding_def

lemma sr_step_inv: "sr_inv s \<Longrightarrow> sr_step s s' \<Longrightarrow> sr_inv s'"
  by (erule sr_stepE) (simp_all add: turn_ops sr_inv_start sr_inv_begin sr_inv_prune)

lemma sr_inv_new: "sr_inv session_runtime_new"
  by (simp add: session_runtime_new_def sr_inv_def)

interpretation sr: step_system "\<lambda>s. s = session_runtime_new" sr_step sr_inv
  by unfold_locales (auto simp: sr_inv_new intro: sr_step_inv)

text \<open>
  In every state the runtime reaches, the events of a session's transcript are numbered
  1, 2, \<dots>, n without gaps, also after pruning, and the transcript of a session that has a turn
  belongs to that turn.
\<close>

theorem session_transcripts_numbered:
  assumes "sr_step\<^sup>*\<^sup>* session_runtime_new s" and "transcript s key = Some t"
  shows "(\<forall>i<length (tx_events t). te_seq (tx_events t ! i) = of_nat (Suc i)) \<and>
    (case turn_state s key of None \<Rightarrow> True | Some turn \<Rightarrow> tx_turn_id t = tn_turn_id turn)"
proof -
  have "sr_inv s" using sr.reachable_good assms(1) by blast
  then have "numbered (tx_events t)" and
    "\<forall>turn. turn_state s key = Some turn \<longrightarrow> tx_turn_id t = tn_turn_id turn"
    using assms(2) by (fastforce simp: sr_inv_def transcript_def turn_state_def)+
  then show ?thesis by (auto simp: numbered_nth ac_simps split: option.splits)
qed

definition example_session :: session_runtime where
  "example_session = snd (start_turn 5 0 ''t1'' ''k'' ''hello'' session_runtime_new)"

theorem session_transcripts_numbered_witness:
  "te_seq (tx_events (the (transcript (cancel_turn 6 ''k'' example_session) ''k'')) ! 1) = 2"
proof -
  have "sr_step\<^sup>*\<^sup>* session_runtime_new example_session"
    unfolding example_session_def by (blast intro: sr_start)
  then have r: "sr_step\<^sup>*\<^sup>* session_runtime_new (cancel_turn 6 ''k'' example_session)"
    by (blast intro: sr_cancel rtranclp.rtrancl_into_rtrancl)
  obtain t where t: "transcript (cancel_turn 6 ''k'' example_session) ''k'' = Some t" "length (tx_events t) = 2"
    by (simp add: example_session_def start_turn_def session_runtime_new_def lane_for_def lane_write_def
        cancel_turn_def on_turn_def append_transcript_event_def push_event_def transcript_def hm_simps)
  then show ?thesis using session_transcripts_numbered [OF r t(1)] by simp
qed

subsection \<open>Pruning\<close>

lemma filter_enumerate_tail:
  "map snd (filter (\<lambda>(i, e). P e \<or> m + k \<le> i) (List.enumerate m es)) = filter P (take k es) @ drop k es"
proof (induction es arbitrary: m k)
  case (Cons e es)
  show ?case
  proof (cases k)
    case 0
    have "filter (\<lambda>(i, e). P e \<or> m \<le> i) (List.enumerate (Suc m) es) = List.enumerate (Suc m) es"
      by (rule filter_True) (auto simp: in_set_enumerate_eq)
    then show ?thesis using 0 by simp
  next
    case (Suc k')
    then show ?thesis using Cons.IH [of "Suc m" k'] by simp
  qed
qed simp

definition event_body :: "transcript_event \<Rightarrow> instant \<times> transcript_event_kind \<times> string" where
  "event_body e = (te_created_at e, te_kind e, te_content e)"

definition retained :: "nat \<Rightarrow> transcript_event list \<Rightarrow> transcript_event list" where
  "retained n es = filter (\<lambda>e. key_event (te_kind e)) (take (length es - n) es) @ drop (length es - n) es"

lemma prune_events_eq: "prune_events n es = (if length es \<le> n then es else renumber (retained n es))"
  using filter_enumerate_tail [of "\<lambda>e. key_event (te_kind e)" 0 "length es - n" es]
  by (simp add: prune_events_def retained_def)

lemma retained_short: "length es \<le> n \<Longrightarrow> retained n es = es"
  by (simp add: retained_def)

lemma event_body_renumber: "map event_body (renumber es) = map event_body es"
  by (rule nth_equalityI) (auto simp: nth_renumber event_body_def)

lemma key_renumber: "list_all (\<lambda>e. key_event (te_kind e)) (take k (renumber es)) =
    list_all (\<lambda>e. key_event (te_kind e)) (take k es)"
  by (auto simp: list_all_length nth_renumber)

lemma prune_events_idem: "prune_events n (prune_events n es) = prune_events n es"
proof (cases "length es \<le> n")
  case False
  let ?r = "renumber (retained n es)"
  define front where "front = filter (\<lambda>e. key_event (te_kind e)) (take (length es - n) es)"
  have r: "retained n es = front @ drop (length es - n) es" by (simp add: retained_def front_def)
  have len: "length ?r - n = length front" using False by (simp add: r)
  have "list_all (\<lambda>e. key_event (te_kind e)) (take (length front) (retained n es))"
    by (simp add: r front_def list_all_iff)
  then have "filter (\<lambda>e. key_event (te_kind e)) (take (length front) ?r) = take (length front) ?r"
    using key_renumber [of "length front" "retained n es"] by (simp add: list_all_iff filter_id_conv)
  then have "retained n ?r = ?r" unfolding retained_def [of n ?r] len by simp
  then show ?thesis using False by (simp add: prune_events_eq renumber_numbered)
qed (simp add: prune_events_eq)

text \<open>
  Pruning the transcript of a session. With \<open>n\<close> the requested tail, the events kept are
  exactly the key events (user message, final answer, compaction, cancellation, failure) among
  the older ones and every one of the last \<open>n\<close>, in their order and with their contents; they are
  numbered from 1 again when anything could be dropped; the other sessions keep their
  transcripts; and pruning a second time changes nothing.
\<close>

theorem prune_transcript_correct:
  assumes "transcript s key = Some t"
  shows "\<exists>t'. transcript (prune_completed_turn_transcript key n s) key = Some t' \<and>
      tx_turn_id t' = tx_turn_id t \<and>
      map event_body (tx_events t') =
        map event_body (filter (\<lambda>e. key_event (te_kind e)) (take (length (tx_events t) - n) (tx_events t)))
        @ map event_body (drop (length (tx_events t) - n) (tx_events t)) \<and>
      (length (tx_events t) \<le> n \<or> numbered (tx_events t')) \<and>
      transcript (prune_completed_turn_transcript key n (prune_completed_turn_transcript key n s)) key = Some t' \<and>
      (\<forall>other. other \<noteq> key \<longrightarrow>
         transcript (prune_completed_turn_transcript key n s) other = transcript s other)"
proof (intro exI conjI allI impI)
  let ?t = "t\<lparr>tx_events := prune_events n (tx_events t)\<rparr>"
  show "transcript (prune_completed_turn_transcript key n s) key = Some ?t"
    using assms by (simp add: transcript_def prune_completed_turn_transcript_def hm_simps)
  show "transcript (prune_completed_turn_transcript key n (prune_completed_turn_transcript key n s)) key = Some ?t"
    using assms by (simp add: transcript_def prune_completed_turn_transcript_def hm_simps prune_events_idem)
  show "map event_body (tx_events ?t) =
        map event_body (filter (\<lambda>e. key_event (te_kind e)) (take (length (tx_events t) - n) (tx_events t)))
        @ map event_body (drop (length (tx_events t) - n) (tx_events t))"
    by (simp add: prune_events_eq event_body_renumber) (simp add: retained_def)
  show "length (tx_events t) \<le> n \<or> numbered (tx_events ?t)"
    by (simp add: prune_events_eq)
qed (simp_all add: transcript_def prune_completed_turn_transcript_def hm_simps)

theorem prune_transcript_correct_witness:
  "\<exists>t'. transcript (prune_completed_turn_transcript ''k'' 0 example_session) ''k'' = Some t' \<and>
     map event_body (tx_events t') = [(5, UserMessage, ''hello'')]"
proof -
  have t: "transcript example_session ''k'' = Some \<lparr>tx_turn_id = ''t1'',
      tx_events = [\<lparr>te_seq = 1, te_created_at = 5, te_kind = UserMessage, te_content = ''hello''\<rparr>]\<rparr>"
    by (simp add: example_session_def start_turn_def session_runtime_new_def lane_for_def lane_write_def
        transcript_def hm_simps)
  show ?thesis
    using prune_transcript_correct [OF t, of 0] by (auto simp: key_event_def event_body_def)
qed

subsection \<open>The list of snapshots\<close>

lemma strict_sorted_remdups_adj:
  "sorted (xs :: string list) \<Longrightarrow> sorted_wrt (<) (remdups_adj xs)"
  by (induction xs rule: remdups_adj.induct) (auto simp: less_le)

text \<open>
  The list of mailbox snapshots has, in strictly increasing order of the key and so once
  each, exactly the sessions that have a turn, a transcript or a lane, and for each of them what
  \<open>mailbox_snapshot\<close> returns.
\<close>

theorem mailbox_snapshots_correct:
  "sorted_wrt (<) (map sn_session_key (mailbox_snapshots s)) \<and>
   (\<forall>key. key \<in> set (map sn_session_key (mailbox_snapshots s)) \<longleftrightarrow>
      turn_state s key \<noteq> None \<or> transcript s key \<noteq> None \<or> hm_contains (sr_lanes s) key) \<and>
   mailbox_snapshots s = map (mailbox_snapshot s) (map sn_session_key (mailbox_snapshots s))"
proof -
  let ?ks = "hm_keys (sr_turns s) @ hm_keys (sr_transcripts s) @ hm_keys (sr_lanes s)"
  have "map sn_session_key (mailbox_snapshots s) = remdups_adj (sort ?ks)"
    by (simp add: mailbox_snapshots_def o_def mailbox_snapshot_def)
  then show ?thesis
    using strict_sorted_remdups_adj [of "sort ?ks"]
    by (simp add: mailbox_snapshots_def turn_state_def transcript_def hm_contains_def map_of_eq_None_iff)
qed

subsection \<open>Serial execution per session\<close>

text \<open>
  \<open>run_serialized\<close> run by any number of concurrent calls. A call reads the map of lanes, takes
  the write lock when it missed, waits for the mutex of its lane, runs its future and releases
  the mutex when the guard is dropped. Other calls may step between any two of these. The
  mutexes are those held, each by one call; \<open>next_lane\<close> is the identity the next allocation
  gets.
\<close>

datatype call_pc = ReadLanes | WriteLanes | AwaitLane lane | RunFuture lane | Returned

record serial_call =
  sc_key :: string
  sc_pc :: call_pc

record lane_system =
  la_lanes :: "(string, lane) hmap"
  la_next_lane :: lane
  la_held :: "lane list"
  la_calls :: "(nat, serial_call) hmap"

definition goto :: "nat \<Rightarrow> call_pc \<Rightarrow> lane_system \<Rightarrow> lane_system" where
  "goto c pc s = s\<lparr>la_calls := hm_modify c (\<lambda>k. k\<lparr>sc_pc := pc\<rparr>) (la_calls s)\<rparr>"

definition call_read :: "nat \<Rightarrow> string \<Rightarrow> lane_system \<Rightarrow> lane_system" where
  "call_read c key s =
     (case hm_get (la_lanes s) key of
        Some l \<Rightarrow> goto c (AwaitLane l) s
      | None \<Rightarrow> goto c WriteLanes s)"

definition call_write :: "nat \<Rightarrow> string \<Rightarrow> lane_system \<Rightarrow> lane_system" where
  "call_write c key s =
     (let (l, lanes) = lane_write (la_next_lane s) key (la_lanes s)
      in goto c (AwaitLane l) (s\<lparr>la_lanes := lanes, la_next_lane := Suc (la_next_lane s)\<rparr>))"

definition call_acquire :: "nat \<Rightarrow> lane \<Rightarrow> lane_system \<Rightarrow> lane_system" where
  "call_acquire c l s = goto c (RunFuture l) (s\<lparr>la_held := l # la_held s\<rparr>)"

definition call_release :: "nat \<Rightarrow> lane \<Rightarrow> lane_system \<Rightarrow> lane_system" where
  "call_release c l s = goto c Returned (s\<lparr>la_held := removeAll l (la_held s)\<rparr>)"

inductive lane_step :: "lane_system \<Rightarrow> lane_system \<Rightarrow> bool" where
  ls_call: "hm_get (la_calls s) c = None \<Longrightarrow>
     lane_step s (s\<lparr>la_calls := hm_insert c \<lparr>sc_key = key, sc_pc = ReadLanes\<rparr> (la_calls s)\<rparr>)"
| ls_read: "hm_get (la_calls s) c = Some \<lparr>sc_key = key, sc_pc = ReadLanes\<rparr> \<Longrightarrow>
     lane_step s (call_read c key s)"
| ls_write: "hm_get (la_calls s) c = Some \<lparr>sc_key = key, sc_pc = WriteLanes\<rparr> \<Longrightarrow>
     lane_step s (call_write c key s)"
| ls_acquire: "hm_get (la_calls s) c = Some \<lparr>sc_key = key, sc_pc = AwaitLane l\<rparr> \<Longrightarrow>
     l \<notin> set (la_held s) \<Longrightarrow> lane_step s (call_acquire c l s)"
| ls_release: "hm_get (la_calls s) c = Some \<lparr>sc_key = key, sc_pc = RunFuture l\<rparr> \<Longrightarrow>
     lane_step s (call_release c l s)"

inductive_cases lane_stepE: "lane_step s s'"

definition lane_system_new :: lane_system where
  "lane_system_new = \<lparr>la_lanes = [], la_next_lane = 0, la_held = [], la_calls = []\<rparr>"

fun pc_lane :: "call_pc \<Rightarrow> lane option" where
  "pc_lane (AwaitLane l) = Some l"
| "pc_lane (RunFuture l) = Some l"
| "pc_lane _ = None"

definition lanes_ok :: "lane_system \<Rightarrow> bool" where
  "lanes_ok s =
     (\<forall>key l. hm_get (la_lanes s) key = Some l \<longrightarrow>
        l < la_next_lane s \<and> (\<forall>key'. hm_get (la_lanes s) key' = Some l \<longrightarrow> key' = key))"

definition calls_ok :: "lane_system \<Rightarrow> bool" where
  "calls_ok s =
     (\<forall>c k l. hm_get (la_calls s) c = Some k \<and> pc_lane (sc_pc k) = Some l \<longrightarrow>
        hm_get (la_lanes s) (sc_key k) = Some l)"

definition runs :: "lane_system \<Rightarrow> nat \<Rightarrow> lane \<Rightarrow> bool" where
  "runs s c l = (\<exists>k. hm_get (la_calls s) c = Some k \<and> sc_pc k = RunFuture l)"

definition held_ok :: "lane_system \<Rightarrow> bool" where
  "held_ok s = (\<forall>c l. runs s c l \<longrightarrow> l \<in> set (la_held s) \<and> (\<forall>c'. runs s c' l \<longrightarrow> c' = c))"

definition lane_inv :: "lane_system \<Rightarrow> bool" where
  "lane_inv s = (lanes_ok s \<and> calls_ok s \<and> held_ok s)"

lemma runs_goto:
  "hm_get (la_calls s) c = Some k \<Longrightarrow>
     runs (goto c pc s) c' l \<longleftrightarrow> (if c' = c then pc = RunFuture l else runs s c' l)"
  by (auto simp: runs_def goto_def hm_simps)

lemma calls_ok_goto:
  assumes "calls_ok s" and "hm_get (la_calls s) c = Some k"
    and "\<And>l. pc_lane pc = Some l \<Longrightarrow> hm_get (la_lanes s) (sc_key k) = Some l"
  shows "calls_ok (goto c pc s)"
  using assms by (auto simp: calls_ok_def goto_def hm_simps)

lemma goto_fields [simp]:
  "la_lanes (goto c pc s) = la_lanes s" "la_next_lane (goto c pc s) = la_next_lane s"
  "la_held (goto c pc s) = la_held s"
  by (simp_all add: goto_def)

lemma lanes_ok_goto [simp]: "lanes_ok (goto c pc s) = lanes_ok s"
  by (simp add: lanes_ok_def)

lemma held_ok_goto:
  assumes "held_ok s" and "hm_get (la_calls s) c = Some k" and "\<And>l. pc \<noteq> RunFuture l"
  shows "held_ok (goto c pc s)"
  using assms by (auto simp: held_ok_def runs_goto)

lemma lane_inv_read:
  assumes "lane_inv s" and "hm_get (la_calls s) c = Some \<lparr>sc_key = key, sc_pc = ReadLanes\<rparr>"
  shows "lane_inv (call_read c key s)"
  using assms
  by (auto simp: lane_inv_def call_read_def intro!: calls_ok_goto held_ok_goto split: option.splits)

lemma write_fields:
  assumes "lanes_ok s" and "lane_write (la_next_lane s) key (la_lanes s) = (l, lanes)"
    and "t = s\<lparr>la_lanes := lanes, la_next_lane := Suc (la_next_lane s)\<rparr>"
  shows "lanes_ok t" and "hm_get lanes key = Some l"
    and "\<And>k v. hm_get (la_lanes s) k = Some v \<Longrightarrow> hm_get lanes k = Some v"
  using assms
  by (auto simp: lane_write_def lanes_ok_def hm_simps less_Suc_eq split: option.splits if_splits)
    (metis less_irrefl)+

lemma lane_inv_write:
  assumes inv: "lane_inv s" and c: "hm_get (la_calls s) c = Some \<lparr>sc_key = key, sc_pc = WriteLanes\<rparr>"
  shows "lane_inv (call_write c key s)"
proof -
  obtain l lanes where w: "lane_write (la_next_lane s) key (la_lanes s) = (l, lanes)" by fastforce
  define t where "t = s\<lparr>la_lanes := lanes, la_next_lane := Suc (la_next_lane s)\<rparr>"
  have f: "lanes_ok t" "hm_get lanes key = Some l"
    "\<And>k v. hm_get (la_lanes s) k = Some v \<Longrightarrow> hm_get lanes k = Some v"
    using write_fields [OF _ w t_def] inv by (auto simp: lane_inv_def)
  have "calls_ok t" "held_ok t"
    using inv f(3) by (auto simp: lane_inv_def calls_ok_def held_ok_def runs_def t_def)
  then have "lane_inv (goto c (AwaitLane l) t)"
    using f c by (auto simp: lane_inv_def t_def intro!: calls_ok_goto held_ok_goto)
  then show ?thesis by (simp add: call_write_def w t_def)
qed

lemma lane_inv_acquire:
  assumes inv: "lane_inv s" and c: "hm_get (la_calls s) c = Some \<lparr>sc_key = key, sc_pc = AwaitLane l\<rparr>"
    and free: "l \<notin> set (la_held s)"
  shows "lane_inv (call_acquire c l s)"
proof -
  define t where "t = s\<lparr>la_held := l # la_held s\<rparr>"
  have t: "hm_get (la_calls t) c = Some \<lparr>sc_key = key, sc_pc = AwaitLane l\<rparr>" "lanes_ok t" "calls_ok t"
    using inv c by (auto simp: t_def lane_inv_def lanes_ok_def calls_ok_def)
  have l: "hm_get (la_lanes t) key = Some l"
    using inv c by (fastforce simp: t_def lane_inv_def calls_ok_def)
  have "\<not> runs s c' l" for c'
    using inv free by (auto simp: lane_inv_def held_ok_def)
  then have "held_ok (goto c (RunFuture l) t)"
    using inv by (auto simp: held_ok_def runs_goto [OF t(1)] lane_inv_def)
      (auto simp: t_def runs_def)
  moreover have "calls_ok (goto c (RunFuture l) t)"
    using t l by (auto intro: calls_ok_goto)
  ultimately show ?thesis using t by (simp add: lane_inv_def call_acquire_def t_def)
qed

lemma lane_inv_release:
  assumes inv: "lane_inv s" and c: "hm_get (la_calls s) c = Some \<lparr>sc_key = key, sc_pc = RunFuture l\<rparr>"
  shows "lane_inv (call_release c l s)"
proof -
  define t where "t = s\<lparr>la_held := removeAll l (la_held s)\<rparr>"
  have t: "hm_get (la_calls t) c = Some \<lparr>sc_key = key, sc_pc = RunFuture l\<rparr>" "lanes_ok t" "calls_ok t"
    using inv c by (auto simp: t_def lane_inv_def lanes_ok_def calls_ok_def)
  have "runs s c l" using c by (simp add: runs_def)
  then have "runs s c' l' \<Longrightarrow> c' \<noteq> c \<Longrightarrow> l' \<noteq> l" for c' l'
    using inv by (auto simp: lane_inv_def held_ok_def)
  moreover have "runs t c' l' = runs s c' l'" for c' l' by (simp add: runs_def t_def)
  moreover have "set (la_held t) = set (la_held s) - {l}" by (simp add: t_def)
  ultimately have "held_ok (goto c Returned t)"
    using inv by (auto simp: held_ok_def runs_goto [OF t(1)] lane_inv_def)
  then show ?thesis using t by (auto simp: lane_inv_def call_release_def t_def intro: calls_ok_goto)
qed

lemma lane_step_inv: "lane_inv s \<Longrightarrow> lane_step s s' \<Longrightarrow> lane_inv s'"
proof (erule lane_stepE)
  fix c key
  assume "lane_inv s" "hm_get (la_calls s) c = None"
    and "s' = s\<lparr>la_calls := hm_insert c \<lparr>sc_key = key, sc_pc = ReadLanes\<rparr> (la_calls s)\<rparr>"
  then show "lane_inv s'"
    by (auto simp: lane_inv_def lanes_ok_def calls_ok_def held_ok_def runs_def hm_simps split: if_splits)
qed (auto intro: lane_inv_read lane_inv_write lane_inv_acquire lane_inv_release)

interpretation lanes: step_system "\<lambda>s. s = lane_system_new" lane_step lane_inv
proof
  show "lane_inv s" if "s = lane_system_new" for s
    using that by (simp add: lane_system_new_def lane_inv_def lanes_ok_def calls_ok_def held_ok_def runs_def)
qed (rule lane_step_inv)

text \<open>
  C25: work submitted through \<open>run_serialized\<close> is serial per session: in every reachable state,
  whatever the interleaving of the calls (two calls that both miss the lane of a new session
  included), at most one call of a session runs its future; and calls of different sessions hold
  different lanes, so that none of them waits for the other.
\<close>

theorem run_serialized_exclusive:
  assumes "lane_step\<^sup>*\<^sup>* lane_system_new s"
    and "hm_get (la_calls s) a = Some \<lparr>sc_key = ka, sc_pc = RunFuture la\<rparr>"
    and "hm_get (la_calls s) b = Some \<lparr>sc_key = kb, sc_pc = RunFuture lb\<rparr>"
  shows "(ka = kb \<longrightarrow> a = b) \<and> (ka \<noteq> kb \<longrightarrow> la \<noteq> lb)"
proof -
  have inv: "lane_inv s" using assms(1) lanes.reachable_good by blast
  then have l: "hm_get (la_lanes s) ka = Some la" "hm_get (la_lanes s) kb = Some lb"
    using assms(2,3) by (fastforce simp: lane_inv_def calls_ok_def)+
  have "runs s a la" "runs s b lb" using assms(2,3) by (simp_all add: runs_def)
  then have "a = b" if "la = lb"
    using inv that unfolding lane_inv_def held_ok_def by blast
  moreover have "ka = kb" if "la = lb"
    using inv l that unfolding lane_inv_def lanes_ok_def by blast
  ultimately show ?thesis using l by auto
qed

definition example_lanes :: lane_system where
  "example_lanes =
     (let s = lane_system_new;
          s = s\<lparr>la_calls := hm_insert 0 \<lparr>sc_key = ''a'', sc_pc = ReadLanes\<rparr> (la_calls s)\<rparr>;
          s = s\<lparr>la_calls := hm_insert 1 \<lparr>sc_key = ''b'', sc_pc = ReadLanes\<rparr> (la_calls s)\<rparr>
      in call_acquire 1 1 (call_acquire 0 0
           (call_write 1 ''b'' (call_write 0 ''a'' (call_read 1 ''b'' (call_read 0 ''a'' s))))))"

lemma example_lanes_reachable: "lane_step\<^sup>*\<^sup>* lane_system_new example_lanes"
proof -
  define s0 where "s0 = lane_system_new\<lparr>la_calls := hm_insert 0 \<lparr>sc_key = ''a'', sc_pc = ReadLanes\<rparr> []\<rparr>"
  define s1 where "s1 = s0\<lparr>la_calls := hm_insert 1 \<lparr>sc_key = ''b'', sc_pc = ReadLanes\<rparr> (la_calls s0)\<rparr>"
  define s2 where "s2 = call_read 0 ''a'' s1"
  define s3 where "s3 = call_read 1 ''b'' s2"
  define s4 where "s4 = call_write 0 ''a'' s3"
  define s5 where "s5 = call_write 1 ''b'' s4"
  define s6 where "s6 = call_acquire 0 0 s5"
  note defs = s0_def s1_def s2_def s3_def s4_def s5_def s6_def lane_system_new_def call_read_def
    call_write_def call_acquire_def goto_def lane_write_def hm_modify_def
  have "lane_step lane_system_new s0" using ls_call [of lane_system_new 0 "''a''"]
    by (simp add: s0_def lane_system_new_def)
  moreover have "lane_step s0 s1" unfolding s1_def by (rule ls_call) (simp add: defs)
  moreover have "lane_step s1 s2" unfolding s2_def by (rule ls_read) (simp add: defs)
  moreover have "lane_step s2 s3" unfolding s3_def by (rule ls_read) (simp add: defs)
  moreover have "lane_step s3 s4" unfolding s4_def by (rule ls_write) (simp add: defs)
  moreover have "lane_step s4 s5" unfolding s5_def by (rule ls_write) (simp add: defs)
  moreover have "lane_step s5 s6" unfolding s6_def by (rule ls_acquire) (simp_all add: defs)
  moreover have "lane_step s6 example_lanes"
    using ls_acquire [of s6 1 "''b''" 1] by (simp add: defs example_lanes_def)
  ultimately show ?thesis by (meson converse_rtranclp_into_rtranclp rtranclp.rtrancl_refl)
qed

lemma example_lanes_calls:
  "hm_get (la_calls example_lanes) 0 = Some \<lparr>sc_key = ''a'', sc_pc = RunFuture 0\<rparr>"
  "hm_get (la_calls example_lanes) 1 = Some \<lparr>sc_key = ''b'', sc_pc = RunFuture 1\<rparr>"
  by (simp_all add: example_lanes_def lane_system_new_def call_read_def call_write_def call_acquire_def
      goto_def lane_write_def hm_modify_def)

theorem run_serialized_exclusive_witness:
  "hm_get (la_calls example_lanes) 0 = Some \<lparr>sc_key = ''a'', sc_pc = RunFuture 0\<rparr> \<and>
   hm_get (la_calls example_lanes) 1 = Some \<lparr>sc_key = ''b'', sc_pc = RunFuture 1\<rparr> \<and> (0::lane) \<noteq> 1"
  using run_serialized_exclusive [OF example_lanes_reachable example_lanes_calls] example_lanes_calls by simp

end
