(* ===== verification/Sessions.thy ===== *)
theory Sessions
  imports Prelude
begin

section \<open>Session keys and agent bindings (\<^verbatim>\<open>uhorse-agent\<close>)\<close>

text \<open>
  The key of a session with its printed form, the namespace of scopes derived from it
  (\<^verbatim>\<open>session_key.rs\<close>), the channel types, and the routing of a session to an agent by bindings in
  descending priority (\<^verbatim>\<open>bindings.rs\<close>). Strings are the bytes of their UTF-8 form.
\<close>

subsection \<open>Session keys\<close>

datatype agent_error = InvalidConfig string | AgentErr string

record session_key =
  sk_channel_type :: string
  sk_channel_user_id :: string
  sk_team_id :: "string option"

definition session_key_new :: "string \<Rightarrow> string \<Rightarrow> session_key" where
  "session_key_new channel user =
     \<lparr>sk_channel_type = channel, sk_channel_user_id = user, sk_team_id = None\<rparr>"

definition session_key_with_team :: "string \<Rightarrow> string \<Rightarrow> string \<Rightarrow> session_key" where
  "session_key_with_team channel user team =
     \<lparr>sk_channel_type = channel, sk_channel_user_id = user, sk_team_id = Some team\<rparr>"

definition session_key_parse :: "string \<Rightarrow> agent_error + session_key" where
  "session_key_parse s =
     (case split_on (CHR '':'') s of
        [channel, user] \<Rightarrow> Inr (session_key_new channel user)
      | [channel, user, team] \<Rightarrow> Inr (session_key_with_team channel user team)
      | _ \<Rightarrow> Inl (InvalidConfig (''Invalid session key format: '' @ [CHR 0x27] @ s @ [CHR 0x27] @
               ''. Expected: channel_type:user_id[:team_id]'')))"

definition session_key_as_str :: "session_key \<Rightarrow> string" where
  "session_key_as_str k =
     (case sk_team_id k of
        Some team \<Rightarrow> sk_channel_type k @ '':'' @ sk_channel_user_id k @ '':'' @ team
      | None \<Rightarrow> sk_channel_type k @ '':'' @ sk_channel_user_id k)"

definition matches_channel :: "session_key \<Rightarrow> string \<Rightarrow> bool" where
  "matches_channel k channel = (sk_channel_type k = channel)"

definition matches_team :: "session_key \<Rightarrow> string \<Rightarrow> bool" where
  "matches_team k team = (case sk_team_id k of None \<Rightarrow> False | Some t \<Rightarrow> t = team)"

definition user_key :: "session_key \<Rightarrow> string" where
  "user_key k = sk_channel_type k @ '':'' @ sk_channel_user_id k"

definition tenant_key :: "session_key \<Rightarrow> string option" where
  "tenant_key k = map_option (\<lambda>team. ''tenant:'' @ sk_channel_type k @ '':'' @ team) (sk_team_id k)"

subsection \<open>Namespaces\<close>

record access_context =
  ax_tenant :: "string option"
  ax_enterprise :: "string option"
  ax_department :: "string option"
  ax_roles :: "string list"

record session_namespace =
  ns_global :: string
  ns_tenant :: "string option"
  ns_enterprise :: "string option"
  ns_department :: "string option"
  ns_roles :: "string list"
  ns_user :: string
  ns_session :: string

definition normalize_optional_scope :: "string option \<Rightarrow> string option" where
  "normalize_optional_scope scope =
     (case scope of None \<Rightarrow> None | Some v \<Rightarrow> if trim v = [] then None else Some (trim v))"

text \<open>\<open>dedup\<close> drops adjacent repetitions.\<close>

definition normalize_role_scopes :: "string list \<Rightarrow> string list" where
  "normalize_role_scopes roles = remdups_adj (sort (filter (\<lambda>r. r \<noteq> []) (map trim roles)))"

definition normalized :: "access_context \<Rightarrow> access_context" where
  "normalized a =
     a\<lparr>ax_tenant := normalize_optional_scope (ax_tenant a),
       ax_enterprise := normalize_optional_scope (ax_enterprise a),
       ax_department := normalize_optional_scope (ax_department a),
       ax_roles := normalize_role_scopes (ax_roles a)\<rparr>"

definition from_session_key :: "session_key \<Rightarrow> session_namespace" where
  "from_session_key k =
     \<lparr>ns_global = ''global'', ns_tenant = tenant_key k, ns_enterprise = None, ns_department = None,
      ns_roles = [], ns_user = ''user:'' @ user_key k, ns_session = ''session:'' @ session_key_as_str k\<rparr>"

definition with_access_context :: "access_context option \<Rightarrow> session_namespace \<Rightarrow> session_namespace" where
  "with_access_context ac n =
     (case map_option normalized ac of
        None \<Rightarrow> n
      | Some a \<Rightarrow>
          n\<lparr>ns_tenant := (if ns_tenant n = None then ax_tenant a else ns_tenant n),
            ns_enterprise := ax_enterprise a, ns_department := ax_department a,
            ns_roles := ax_roles a\<rparr>)"

definition namespace_with_access_context :: "access_context option \<Rightarrow> session_key \<Rightarrow> session_namespace" where
  "namespace_with_access_context ac k = with_access_context ac (from_session_key k)"

definition option_list :: "'a option \<Rightarrow> 'a list" where
  "option_list x = (case x of None \<Rightarrow> [] | Some v \<Rightarrow> [v])"

definition memory_context_chain :: "session_namespace \<Rightarrow> string list" where
  "memory_context_chain n =
     [ns_global n] @ option_list (ns_tenant n) @ option_list (ns_enterprise n) @
     option_list (ns_department n) @ ns_roles n @ [ns_user n] @ [ns_session n]"

definition visibility_chain :: "session_namespace \<Rightarrow> string list" where
  "visibility_chain n =
     [ns_user n] @ ns_roles n @ option_list (ns_department n) @ option_list (ns_enterprise n) @
     option_list (ns_tenant n) @ [ns_global n]"

definition scope_layer_from_scope :: "string \<Rightarrow> string" where
  "scope_layer_from_scope scope =
     (if scope = ''global'' then ''global''
      else if starts_with scope ''session:'' then ''session''
      else if starts_with scope ''user:'' then ''user''
      else if starts_with scope ''role:'' then ''role''
      else if starts_with scope ''department:'' then ''department''
      else if starts_with scope ''enterprise:'' then ''enterprise''
      else if starts_with scope ''tenant:'' then ''tenant''
      else ''scope'')"

definition scope_layer_rank :: "string \<Rightarrow> nat" where
  "scope_layer_rank layer =
     (if layer = ''session'' then 0 else if layer = ''user'' then 1 else if layer = ''role'' then 2
      else if layer = ''department'' then 3 else if layer = ''enterprise'' then 4
      else if layer = ''tenant'' then 5 else if layer = ''global'' then 6 else 7)"

subsection \<open>Channel types\<close>

datatype channel_type =
    Telegram | Slack | Discord | WhatsApp | DingTalk | Feishu | WeWork | Signal | IMessage | Web
  | Custom string

definition dingtalk_zh :: string where
  "dingtalk_zh = [CHR 0xE9, CHR 0x92, CHR 0x89, CHR 0xE9, CHR 0x92, CHR 0x89]"

definition feishu_zh :: string where
  "feishu_zh = [CHR 0xE9, CHR 0xA3, CHR 0x9E, CHR 0xE4, CHR 0xB9, CHR 0xA6]"

definition wework_zh :: string where
  "wework_zh = [CHR 0xE4, CHR 0xBC, CHR 0x81, CHR 0xE4, CHR 0xB8, CHR 0x9A, CHR 0xE5, CHR 0xBE, CHR 0xAE,
     CHR 0xE4, CHR 0xBF, CHR 0xA1]"

definition channel_type_from_str :: "string \<Rightarrow> channel_type" where
  "channel_type_from_str s =
     (let l = to_lowercase s
      in if l = ''telegram'' then Telegram else if l = ''slack'' then Slack
         else if l = ''discord'' then Discord else if l = ''whatsapp'' then WhatsApp
         else if l = ''dingtalk'' \<or> l = dingtalk_zh then DingTalk
         else if l = ''feishu'' \<or> l = feishu_zh then Feishu
         else if l = ''wework'' \<or> l = wework_zh \<or> l = ''wecom'' then WeWork
         else if l = ''signal'' then Signal else if l = ''imessage'' \<or> l = ''imesg'' then IMessage
         else if l = ''web'' then Web else Custom l)"

fun channel_type_as_str :: "channel_type \<Rightarrow> string" where
  "channel_type_as_str Telegram = ''telegram''"
| "channel_type_as_str Slack = ''slack''"
| "channel_type_as_str Discord = ''discord''"
| "channel_type_as_str WhatsApp = ''whatsapp''"
| "channel_type_as_str DingTalk = ''dingtalk''"
| "channel_type_as_str Feishu = ''feishu''"
| "channel_type_as_str WeWork = ''wework''"
| "channel_type_as_str Signal = ''signal''"
| "channel_type_as_str IMessage = ''imessage''"
| "channel_type_as_str Web = ''web''"
| "channel_type_as_str (Custom s) = s"

subsection \<open>Bindings\<close>

record binding =
  bd_agent :: string
  bd_channel :: "string option"
  bd_team_id :: "string option"
  bd_priority :: "int option"
  bd_users :: "string list option"
  bd_enabled :: bool

definition binding_new :: "string \<Rightarrow> binding" where
  "binding_new agent =
     \<lparr>bd_agent = agent, bd_channel = None, bd_team_id = None, bd_priority = None, bd_users = None,
      bd_enabled = True\<rparr>"

definition binding_matches :: "session_key \<Rightarrow> binding \<Rightarrow> bool" where
  "binding_matches k b =
     (if \<not> bd_enabled b then False
      else if (case bd_channel b of None \<Rightarrow> False | Some c \<Rightarrow> \<not> matches_channel k c) then False
      else if (case bd_team_id b of None \<Rightarrow> False | Some t \<Rightarrow> \<not> matches_team k t) then False
      else if (case bd_users b of None \<Rightarrow> False | Some us \<Rightarrow> sk_channel_user_id k \<notin> set us) then False
      else True)"

definition get_priority :: "binding \<Rightarrow> int" where
  "get_priority b = (case bd_priority b of None \<Rightarrow> 0 | Some p \<Rightarrow> p)"

record bindings_config =
  bc_bindings :: "binding list"
  bc_default_agent :: string

definition bindings_config_default :: bindings_config where
  "bindings_config_default = \<lparr>bc_bindings = [], bc_default_agent = ''main''\<rparr>"

definition add_binding :: "binding \<Rightarrow> bindings_config \<Rightarrow> bindings_config" where
  "add_binding b c = c\<lparr>bc_bindings := bc_bindings c @ [b]\<rparr>"

record bindings_router =
  br_config :: bindings_config
  br_available_agents :: "string list"

definition rank_bindings :: "binding list \<Rightarrow> binding list" where
  "rank_bindings = sort_key (\<lambda>b. - get_priority b)"

definition route :: "bindings_router \<Rightarrow> session_key \<Rightarrow> agent_error + string" where
  "route r k =
     (let matched = filter (binding_matches k) (bc_bindings (br_config r))
      in case rank_bindings matched of
           [] \<Rightarrow> Inr (bc_default_agent (br_config r))
         | chosen # _ \<Rightarrow>
             if bd_agent chosen \<notin> set (br_available_agents r)
             then Inl (AgentErr (''Agent '' @ [CHR 0x27] @ bd_agent chosen @ [CHR 0x27] @ '' is not available''))
             else Inr (bd_agent chosen))"

subsection \<open>Properties\<close>

definition colon_free :: "session_key \<Rightarrow> bool" where
  "colon_free k \<longleftrightarrow> CHR '':'' \<notin> set (sk_channel_type k) \<and> CHR '':'' \<notin> set (sk_channel_user_id k) \<and>
     (case sk_team_id k of None \<Rightarrow> True | Some t \<Rightarrow> CHR '':'' \<notin> set t)"

lemma split_session_key:
  "colon_free k \<Longrightarrow> split_on (CHR '':'') (session_key_as_str k) =
     sk_channel_type k # sk_channel_user_id k # option_list (sk_team_id k)"
  by (auto simp: colon_free_def session_key_as_str_def option_list_def split_on_append split_on_no_sep
      split: option.splits)

lemma session_key_parse_as_str: "colon_free k \<Longrightarrow> session_key_parse (session_key_as_str k) = Inr k"
  by (cases "sk_team_id k")
     (simp_all add: session_key_parse_def split_session_key option_list_def session_key_new_def
       session_key_with_team_def)

lemma join_with_colon: "join_with [CHR '':''] (split_on (CHR '':'') s) = s"
  by (rule join_split_on)


text \<open>
  Sessions are isolated. The session scope in the memory chain of one key occurs in the
  memory chain of another key only when the keys are equal, and the user scope only when channel
  and user are equal (keys without colons in their parts, no access context).
\<close>

theorem session_scopes_isolated:
  assumes "colon_free k" and "colon_free k'"
  shows "(ns_session (from_session_key k) \<in> set (memory_context_chain (from_session_key k')) \<longleftrightarrow> k = k') \<and>
    (ns_user (from_session_key k) \<in> set (memory_context_chain (from_session_key k')) \<longleftrightarrow>
       sk_channel_type k = sk_channel_type k' \<and> sk_channel_user_id k = sk_channel_user_id k')"
proof -
  have inj: "session_key_as_str k = session_key_as_str k' \<longleftrightarrow> k = k'"
    using session_key_parse_as_str [OF assms(1)] session_key_parse_as_str [OF assms(2)]
    by (metis sum.inject(2))
  let ?u = "\<lambda>k. session_key_new (sk_channel_type k) (sk_channel_user_id k)"
  have u: "colon_free (?u k)" "colon_free (?u k')"
    using assms by (simp_all add: colon_free_def session_key_new_def)
  have "user_key k = session_key_as_str (?u k)" "user_key k' = session_key_as_str (?u k')"
    by (simp_all add: user_key_def session_key_as_str_def session_key_new_def)
  then have "user_key k = user_key k' \<longleftrightarrow> ?u k = ?u k'"
    using session_key_parse_as_str [OF u(1)] session_key_parse_as_str [OF u(2)]
    by (metis sum.inject(2))
  then have "user_key k = user_key k' \<longleftrightarrow>
      sk_channel_type k = sk_channel_type k' \<and> sk_channel_user_id k = sk_channel_user_id k'"
    by (simp add: session_key_new_def)
  then show ?thesis
    using inj by (auto simp: from_session_key_def memory_context_chain_def option_list_def tenant_key_def
        split: option.splits)
qed

theorem session_scopes_isolated_witness:
  "ns_session (from_session_key (session_key_new ''web'' ''ann'')) \<notin>
     set (memory_context_chain (from_session_key (session_key_new ''web'' ''bob'')))"
proof -
  have "colon_free (session_key_new ''web'' ''ann'')" "colon_free (session_key_new ''web'' ''bob'')"
    by (simp_all add: colon_free_def session_key_new_def)
  from session_scopes_isolated [OF this] show ?thesis by (simp add: session_key_new_def)
qed


lemma sorted_distinct_remdups_adj: "sorted (xs :: 'a::linorder list) \<Longrightarrow> distinct (remdups_adj xs)"
  by (induction xs rule: remdups_adj.induct) (auto dest: order.antisym)

lemma normalize_role_scopes_spec:
  "distinct (normalize_role_scopes roles)" "sorted (normalize_role_scopes roles)"
  "set (normalize_role_scopes roles) = {trim r | r. r \<in> set roles \<and> trim r \<noteq> []}"
  by (auto simp: normalize_role_scopes_def sorted_remdups_adj sorted_distinct_remdups_adj)

text \<open>
  Normalising an access context. Roles come out sorted, without repetition, trimmed and never
  empty, with exactly the roles that were given; blank scopes vanish; and normalising twice is
  the same as once.
\<close>

theorem access_context_normalized:
  "normalized (normalized a) = normalized a \<and>
   sorted (ax_roles (normalized a)) \<and> distinct (ax_roles (normalized a)) \<and>
   set (ax_roles (normalized a)) = {trim r | r. r \<in> set (ax_roles a) \<and> trim r \<noteq> []} \<and>
   ax_tenant (normalized a) \<noteq> Some []"
proof -
  let ?n = "normalize_role_scopes (ax_roles a)"
  note n = normalize_role_scopes_spec [of "ax_roles a"]
  have "map trim ?n = ?n" using n(3) by (intro map_idI) auto
  moreover have "filter (\<lambda>r. r \<noteq> []) ?n = ?n" using n(3) by (auto simp: filter_id_conv)
  ultimately have "normalize_role_scopes ?n = ?n"
    using n(1,2) by (simp add: normalize_role_scopes_def [of ?n] sorted_sort_id remdups_adj_distinct)
  moreover have "normalize_optional_scope (normalize_optional_scope x) = normalize_optional_scope x" for x
    by (simp add: normalize_optional_scope_def split: option.splits)
  moreover have "normalize_optional_scope x \<noteq> Some []" for x
    by (simp add: normalize_optional_scope_def split: option.splits)
  ultimately show ?thesis using n by (simp add: normalized_def)
qed

text \<open>
  The two chains hold the same scopes, except that only the memory chain has the session
  scope, last; the visibility chain goes from the user to the global scope, so that the rank of
  the layers rises along it when every scope carries the prefix of its layer.
\<close>

theorem visibility_chain_order:
  assumes "list_all (\<lambda>r. starts_with r ''role:'') (ns_roles n)"
    and "list_all (\<lambda>r. starts_with r ''department:'') (option_list (ns_department n))"
    and "list_all (\<lambda>r. starts_with r ''enterprise:'') (option_list (ns_enterprise n))"
    and "list_all (\<lambda>r. starts_with r ''tenant:'') (option_list (ns_tenant n))"
    and "starts_with (ns_user n) ''user:''" and "ns_global n = ''global''"
  shows "sorted (map (\<lambda>s. scope_layer_rank (scope_layer_from_scope s)) (visibility_chain n)) \<and>
    mset (memory_context_chain n) = add_mset (ns_session n) (mset (visibility_chain n)) \<and>
    last (memory_context_chain n) = ns_session n"
proof -
  let ?rank = "\<lambda>s. scope_layer_rank (scope_layer_from_scope s)"
  have rank: "?rank (''role:'' @ x) = 2" "?rank (''department:'' @ x) = 3" "?rank (''enterprise:'' @ x) = 4"
    "?rank (''tenant:'' @ x) = 5" "?rank (''user:'' @ x) = 1" "?rank ''global'' = 6" for x
    by (simp_all add: scope_layer_from_scope_def scope_layer_rank_def)
  have const: "map ?rank xs = replicate (length xs) k" if "list_all (\<lambda>r. starts_with r p) xs"
    "\<And>x. ?rank (p @ x) = k" for xs p k
    using that by (induction xs) (auto simp: prefix_def)
  have u: "?rank (ns_user n) = 1" using assms(5) rank(5) by (auto simp: prefix_def)
  have "map ?rank (visibility_chain n) = [1] @ replicate (length (ns_roles n)) 2 @
      replicate (length (option_list (ns_department n))) 3 @
      replicate (length (option_list (ns_enterprise n))) 4 @
      replicate (length (option_list (ns_tenant n))) 5 @ [6]"
    unfolding visibility_chain_def map_append
    using const [OF assms(1) rank(1)] const [OF assms(2) rank(2)] const [OF assms(3) rank(3)]
      const [OF assms(4) rank(4)] u rank(6) assms(6) by simp
  then have "sorted (map ?rank (visibility_chain n))" by (auto simp: sorted_append)
  then show ?thesis by (simp add: memory_context_chain_def visibility_chain_def)
qed

theorem visibility_chain_order_witness:
  "sorted (map (\<lambda>s. scope_layer_rank (scope_layer_from_scope s))
     (visibility_chain (namespace_with_access_context
        (Some \<lparr>ax_tenant = None, ax_enterprise = Some ''enterprise:x'', ax_department = None,
           ax_roles = [''role:dev'']\<rparr>) (session_key_with_team ''slack'' ''ann'' ''T1''))))"
proof -
  let ?n = "namespace_with_access_context
        (Some \<lparr>ax_tenant = None, ax_enterprise = Some ''enterprise:x'', ax_department = None,
           ax_roles = [''role:dev'']\<rparr>) (session_key_with_team ''slack'' ''ann'' ''T1'')"
  have "trim ''role:dev'' = ''role:dev''" "trim ''enterprise:x'' = ''enterprise:x''"
    by (simp_all add: trim_def is_whitespace_def)
  then have n: "ns_roles ?n = [''role:dev'']" "ns_department ?n = None" "ns_enterprise ?n = Some ''enterprise:x''"
    "ns_tenant ?n = Some ''tenant:slack:T1''" "ns_user ?n = ''user:slack:ann''" "ns_global ?n = ''global''"
    by (simp_all add: namespace_with_access_context_def with_access_context_def from_session_key_def
        normalized_def normalize_role_scopes_def normalize_optional_scope_def tenant_key_def user_key_def
        session_key_with_team_def)
  show ?thesis
    using visibility_chain_order [of ?n] by (simp add: n option_list_def)
qed

lemma find_filter: "find P (filter Q xs) = find (\<lambda>x. Q x \<and> P x) xs"
  by (induction xs) auto

interpretation bind_rank: stable_ranking rank_bindings "\<lambda>b. - get_priority b"
  unfolding rank_bindings_def by (rule stable_ranking_sort_key)

text \<open>
  Routing. The agent of a session is that of the matching binding of highest priority, the
  earliest in the configuration among equals, and it must be available, otherwise routing fails
  even when a binding of lower priority has an available agent; with no matching binding the
  default agent is returned.
\<close>

theorem route_correct:
  "case find (\<lambda>b. binding_matches k b \<and>
        list_all (\<lambda>c. get_priority c \<le> get_priority b) (filter (binding_matches k) (bc_bindings (br_config r))))
      (bc_bindings (br_config r)) of
     None \<Rightarrow> filter (binding_matches k) (bc_bindings (br_config r)) = [] \<and>
       route r k = Inr (bc_default_agent (br_config r))
   | Some b \<Rightarrow>
       route r k = (if bd_agent b \<in> set (br_available_agents r) then Inr (bd_agent b)
         else Inl (AgentErr (''Agent '' @ [CHR 0x27] @ bd_agent b @ [CHR 0x27] @ '' is not available'')))"
proof -
  let ?m = "filter (binding_matches k) (bc_bindings (br_config r))"
  show ?thesis
  proof (cases "rank_bindings ?m")
    case Nil
    then have empty: "?m = []" by (simp add: bind_rank.rank_Nil)
    then have "find (\<lambda>b. binding_matches k b \<and> list_all (\<lambda>c. get_priority c \<le> get_priority b) ?m)
        (bc_bindings (br_config r)) = None"
      by (auto simp: find_None_iff filter_empty_conv)
    then show ?thesis using empty by (simp add: route_def Let_def rank_bindings_def)
  next
    case (Cons b bs)
    then have f: "find (\<lambda>_. True) (rank_bindings ?m) = Some b" by simp
    have best: "get_priority c \<le> get_priority b" if "c \<in> set ?m" for c
      using bind_rank.first_ranked_best [OF f that] by simp
    have bm: "b \<in> set ?m" using bind_rank.first_ranked_some [OF f] by simp
    have eq: "binding_matches k c \<and> list_all (\<lambda>c'. get_priority c' \<le> get_priority c) ?m \<longleftrightarrow>
        binding_matches k c \<and> - get_priority c = - get_priority b"
      if "c \<in> set (bc_bindings (br_config r))" for c
      using best bm that unfolding list_all_iff by (auto intro: antisym)
    have "find (\<lambda>c. binding_matches k c \<and> list_all (\<lambda>c'. get_priority c' \<le> get_priority c) ?m)
        (bc_bindings (br_config r)) =
        find (\<lambda>c. binding_matches k c \<and> - get_priority c = - get_priority b) (bc_bindings (br_config r))"
      using eq by (intro find_cong) auto
    also have "\<dots> = find (\<lambda>c. True \<and> - get_priority c = - get_priority b) ?m"
      by (simp add: find_filter)
    also have "\<dots> = Some b" using bind_rank.first_ranked_earliest [OF f] .
    finally show ?thesis using Cons by (simp add: route_def Let_def)
  qed
qed

end
