(* ===== verification/Notifications.thy ===== *)
theory Notifications
  imports Node_Manager Sessions
begin

section \<open>Channels and notification bindings\<close>

text \<open>
  The channel types and capability flags of \<^verbatim>\<open>uhorse-core/src/types.rs\<close>, the registry of channels
  (\<^verbatim>\<open>uhorse-channel/src/registry.rs\<close>), the bindings from nodes to recipients
  (\<^verbatim>\<open>uhorse-hub/src/notification_binding.rs\<close>) and the forwarding of a node's notification
  (\<^verbatim>\<open>forward_notification_to_binding\<close> of \<^verbatim>\<open>uhorse-hub/src/message_router.rs\<close>). A channel is the
  messaging service behind it: what its \<open>send_to_recipient\<close> answers is a field of the channel,
  and the calls made to it are logged. The Chinese texts are their UTF-8 bytes.
\<close>

unbundle bit_operations_syntax

subsection \<open>Channel types and capabilities\<close>

datatype core_channel_type =
    ChTelegram | ChSlack | ChDiscord | ChWhatsApp | ChDingTalk | ChFeishu | ChWeWork

fun core_channel_display :: "core_channel_type \<Rightarrow> string" where
  "core_channel_display ChTelegram = ''Telegram''"
| "core_channel_display ChSlack = ''Slack''"
| "core_channel_display ChDiscord = ''Discord''"
| "core_channel_display ChWhatsApp = ''WhatsApp''"
| "core_channel_display ChDingTalk = ''DingTalk''"
| "core_channel_display ChFeishu = ''Feishu''"
| "core_channel_display ChWeWork = ''WeWork''"

definition core_channel_from_str :: "string \<Rightarrow> core_channel_type option" where
  "core_channel_from_str s =
     (let l = to_lowercase s
      in if l = ''telegram'' then Some ChTelegram else if l = ''slack'' then Some ChSlack
         else if l = ''discord'' then Some ChDiscord else if l = ''whatsapp'' then Some ChWhatsApp
         else if l = ''dingtalk'' \<or> l = dingtalk_zh then Some ChDingTalk
         else if l = ''feishu'' \<or> l = feishu_zh then Some ChFeishu
         else if l = ''wework'' \<or> l = wework_zh \<or> l = ''wecom'' then Some ChWeWork
         else None)"

datatype capability_flags = Flags u8

fun flags_bits :: "capability_flags \<Rightarrow> u8" where
  "flags_bits (Flags b) = b"

definition flags_none :: capability_flags where
  "flags_none = Flags 0"

definition send_to_recipient_flag :: capability_flags where
  "send_to_recipient_flag = Flags (push_bit 0 1)"

definition inbound_webhook_flag :: capability_flags where
  "inbound_webhook_flag = Flags (push_bit 1 1)"

definition reply_context_flag :: capability_flags where
  "reply_context_flag = Flags (push_bit 2 1)"

fun flags_contains :: "capability_flags \<Rightarrow> capability_flags \<Rightarrow> bool" where
  "flags_contains (Flags a) (Flags b) = (a AND b = b)"

fun flags_or :: "capability_flags \<Rightarrow> capability_flags \<Rightarrow> capability_flags" where
  "flags_or (Flags a) (Flags b) = Flags (a OR b)"

definition flags_as_strs :: "capability_flags \<Rightarrow> string list" where
  "flags_as_strs f =
     (if flags_contains f send_to_recipient_flag then [''send_to_recipient''] else []) @
     (if flags_contains f inbound_webhook_flag then [''inbound_webhook''] else []) @
     (if flags_contains f reply_context_flag then [''reply_context''] else [])"

record channel_recipient =
  rc_channel_type :: core_channel_type
  rc_recipient :: string

datatype message_content =
    TextContent string
  | ImageContent string "string option"
  | AudioContent string "u32 option"
  | StructuredContent json

subsection \<open>The registry of channels\<close>

record channel =
  ch_type :: core_channel_type
  ch_flags :: capability_flags
  ch_answer :: "channel_recipient \<Rightarrow> message_content \<Rightarrow> string + unit"
  ch_log :: "(channel_recipient \<times> message_content) list"

type_synonym channel_registry = "(core_channel_type, channel) hmap"

definition channel_send ::
  "channel_recipient \<Rightarrow> message_content \<Rightarrow> channel \<Rightarrow> (string + unit) \<times> channel" where
  "channel_send r msg ch = (ch_answer ch r msg, ch\<lparr>ch_log := ch_log ch @ [(r, msg)]\<rparr>)"

definition registry_new :: channel_registry where
  "registry_new = []"

definition with_channel :: "channel \<Rightarrow> channel_registry \<Rightarrow> channel_registry" where
  "with_channel ch reg = hm_insert (ch_type ch) ch reg"

definition registry_get :: "channel_registry \<Rightarrow> core_channel_type \<Rightarrow> channel option" where
  "registry_get reg t = hm_get reg t"

definition has_channel :: "channel_registry \<Rightarrow> core_channel_type \<Rightarrow> bool" where
  "has_channel reg t = hm_contains reg t"

definition registry_flags :: "channel_registry \<Rightarrow> core_channel_type \<Rightarrow> capability_flags option" where
  "registry_flags reg t = map_option ch_flags (hm_get reg t)"

definition registered_channel_types :: "channel_registry \<Rightarrow> core_channel_type list" where
  "registered_channel_types reg = sort_key core_channel_display (hm_keys reg)"

definition registered_channels :: "channel_registry \<Rightarrow> (core_channel_type \<times> capability_flags) list" where
  "registered_channels reg =
     sort_key (\<lambda>(t, _). core_channel_display t) (map (\<lambda>(t, ch). (t, ch_flags ch)) reg)"

subsection \<open>Bindings\<close>

record notification_binding =
  nb_channel_type :: core_channel_type
  nb_recipient :: string

definition as_recipient :: "notification_binding \<Rightarrow> channel_recipient" where
  "as_recipient b = \<lparr>rc_channel_type = nb_channel_type b, rc_recipient = nb_recipient b\<rparr>"

record ding_talk_notification_binding =
  dn_node_id :: string
  dn_user_id :: string

record binding_manager =
  nm_seed_bindings :: "(string, notification_binding) hmap"
  nm_runtime_bindings :: "(string, notification_binding option) hmap"

definition binding_manager_new :: "ding_talk_notification_binding list \<Rightarrow> binding_manager" where
  "binding_manager_new seeds =
     \<lparr>nm_seed_bindings =
        fold (\<lambda>b m. hm_insert (dn_node_id b)
                \<lparr>nb_channel_type = ChDingTalk, nb_recipient = dn_user_id b\<rparr> m) seeds [],
      nm_runtime_bindings = []\<rparr>"

definition get_binding :: "binding_manager \<Rightarrow> string \<Rightarrow> notification_binding option" where
  "get_binding m node =
     (case hm_get (nm_runtime_bindings m) node of
        Some b \<Rightarrow> b
      | None \<Rightarrow> hm_get (nm_seed_bindings m) node)"

definition get_user_id :: "binding_manager \<Rightarrow> string \<Rightarrow> string option" where
  "get_user_id m node =
     (case get_binding m node of
        Some b \<Rightarrow> if nb_channel_type b = ChDingTalk then Some (nb_recipient b) else None
      | None \<Rightarrow> None)"

definition set_channel_binding ::
  "string \<Rightarrow> core_channel_type \<Rightarrow> string \<Rightarrow> binding_manager \<Rightarrow> binding_manager" where
  "set_channel_binding node t r m =
     m\<lparr>nm_runtime_bindings :=
        hm_insert node (Some \<lparr>nb_channel_type = t, nb_recipient = r\<rparr>) (nm_runtime_bindings m)\<rparr>"

definition set_binding :: "string \<Rightarrow> string \<Rightarrow> binding_manager \<Rightarrow> binding_manager" where
  "set_binding node user m = set_channel_binding node ChDingTalk user m"

definition clear_runtime_binding :: "string \<Rightarrow> binding_manager \<Rightarrow> binding_manager" where
  "clear_runtime_binding node m = m\<lparr>nm_runtime_bindings := hm_remove node (nm_runtime_bindings m)\<rparr>"

definition unbind :: "string \<Rightarrow> binding_manager \<Rightarrow> binding_manager" where
  "unbind node m = m\<lparr>nm_runtime_bindings := hm_insert node None (nm_runtime_bindings m)\<rparr>"

definition seed_count :: "binding_manager \<Rightarrow> nat" where
  "seed_count m = length (nm_seed_bindings m)"

subsection \<open>Forwarding a notification\<close>

fun notification_kind_name :: "notification_event_kind \<Rightarrow> string" where
  "notification_kind_name KindTest = ''test''"
| "notification_kind_name KindInfo = ''info''"
| "notification_kind_name KindWarn = ''warn''"
| "notification_kind_name KindError = ''error''"

fun notification_kind_zh :: "notification_event_kind \<Rightarrow> string" where
  "notification_kind_zh KindTest = [CHR 0xE6, CHR 0xB5, CHR 0x8B, CHR 0xE8, CHR 0xAF, CHR 0x95]"
| "notification_kind_zh KindInfo = [CHR 0xE4, CHR 0xBF, CHR 0xA1, CHR 0xE6, CHR 0x81, CHR 0xAF]"
| "notification_kind_zh KindWarn = [CHR 0xE8, CHR 0xAD, CHR 0xA6, CHR 0xE5, CHR 0x91, CHR 0x8A]"
| "notification_kind_zh KindError = [CHR 0xE9, CHR 0x94, CHR 0x99, CHR 0xE8, CHR 0xAF, CHR 0xAF]"

definition header_zh :: string where
  "header_zh =
     [CHR ''['', CHR ''u'', CHR ''H'', CHR ''o'', CHR ''r'', CHR ''s'', CHR ''e'', CHR '' '',
     CHR 0xE8, CHR 0x8A, CHR 0x82, CHR 0xE7, CHR 0x82, CHR 0xB9, CHR 0xE9, CHR 0x80,
     CHR 0x9A, CHR 0xE7, CHR 0x9F, CHR 0xA5, CHR '']'', CHR 0x0A, CHR 0xE7, CHR 0xB1,
     CHR 0xBB, CHR 0xE5, CHR 0x9E, CHR 0x8B, CHR 0xEF, CHR 0xBC, CHR 0x9A]"

definition node_line_zh :: string where
  "node_line_zh =
     [CHR 0x0A, CHR 0xE8, CHR 0x8A, CHR 0x82, CHR 0xE7, CHR 0x82, CHR 0xB9, CHR 0xEF,
     CHR 0xBC, CHR 0x9A]"

definition title_line_zh :: string where
  "title_line_zh =
     [CHR 0x0A, CHR 0xE6, CHR 0xA0, CHR 0x87, CHR 0xE9, CHR 0xA2, CHR 0x98, CHR 0xEF,
     CHR 0xBC, CHR 0x9A]"

definition body_line_zh :: string where
  "body_line_zh =
     [CHR 0x0A, CHR 0xE5, CHR 0x86, CHR 0x85, CHR 0xE5, CHR 0xAE, CHR 0xB9, CHR 0xEF,
     CHR 0xBC, CHR 0x9A]"

definition render_notification_message :: "node_id \<Rightarrow> notification_event \<Rightarrow> string" where
  "render_notification_message n e =
     header_zh @ notification_kind_zh (ev_kind e) @ node_line_zh @ node_id_as_str n @
     title_line_zh @ ev_title e @ body_line_zh @ ev_body e"

definition forward_notification_to_binding ::
  "node_id \<Rightarrow> notification_event \<Rightarrow> binding_manager \<Rightarrow> channel_registry \<Rightarrow>
   (hub_error + unit) \<times> channel_registry" where
  "forward_notification_to_binding n e m reg =
     (case get_binding m (node_id_as_str n) of
        None \<Rightarrow> (Inr (), reg)
      | Some b \<Rightarrow>
          (let r = as_recipient b
           in case registry_get reg (rc_channel_type r) of
                None \<Rightarrow> (Inr (), reg)
              | Some ch \<Rightarrow>
                  if \<not> flags_contains (ch_flags ch) send_to_recipient_flag then (Inr (), reg)
                  else let (answer, ch') = channel_send r (TextContent (render_notification_message n e)) ch
                       in (case answer of
                             Inl err \<Rightarrow>
                               Inl (CommunicationErr (''Failed to send channel notification via '' @
                                      core_channel_display (rc_channel_type r) @ '': '' @ err))
                           | Inr u \<Rightarrow> Inr u,
                           hm_insert (rc_channel_type r) ch' reg)))"

subsection \<open>Facts\<close>

lemma core_channel_roundtrip: "core_channel_from_str (core_channel_display c) = Some c"
  by (cases c; simp only:; code_simp)

lemma flags_contains_or:
  "flags_contains f h \<Longrightarrow> flags_contains (flags_or f g) h"
  by (cases f; cases g; cases h) (auto simp: bit_eq_iff bit_simps)

lemma seeds_get:
  "hm_get (fold (\<lambda>b m. hm_insert (dn_node_id b) (v b) m) seeds m0) node =
     (case find (\<lambda>b. dn_node_id b = node) (rev seeds) of Some b \<Rightarrow> Some (v b) | None \<Rightarrow> hm_get m0 node)"
proof (induction seeds rule: rev_induct)
  case (snoc b seeds)
  then show ?case by (simp add: hm_get_insert)
qed simp

text \<open>
  The binding in effect, as a function of the node, is what the operations say: a fresh
  manager has the last seed of each node; a runtime binding and an explicit unbinding override
  the seed for that node and no other; clearing the override brings the seed back.
\<close>

theorem notification_binding_refinement:
  "get_binding (binding_manager_new seeds) =
     (\<lambda>node. map_option (\<lambda>b. \<lparr>nb_channel_type = ChDingTalk, nb_recipient = dn_user_id b\<rparr>)
        (find (\<lambda>b. dn_node_id b = node) (rev seeds))) \<and>
   get_binding (set_channel_binding n t r m) =
     (get_binding m)(n := Some \<lparr>nb_channel_type = t, nb_recipient = r\<rparr>) \<and>
   get_binding (unbind n m) = (get_binding m)(n := None) \<and>
   get_binding (clear_runtime_binding n m) = (get_binding m)(n := hm_get (nm_seed_bindings m) n) \<and>
   nm_seed_bindings (set_channel_binding n t r m) = nm_seed_bindings m \<and>
   nm_seed_bindings (unbind n m) = nm_seed_bindings m"
proof (intro conjI ext)
  show "get_binding (binding_manager_new seeds) node =
      map_option (\<lambda>b. \<lparr>nb_channel_type = ChDingTalk, nb_recipient = dn_user_id b\<rparr>)
        (find (\<lambda>b. dn_node_id b = node) (rev seeds))" for node
    by (simp add: get_binding_def binding_manager_new_def seeds_get split: option.splits)
qed (simp_all add: get_binding_def set_channel_binding_def unbind_def clear_runtime_binding_def hm_simps
    split: option.splits)

text \<open>What is to be sent for a notification of a node, and on which channel.\<close>

definition delivery ::
  "node_id \<Rightarrow> notification_event \<Rightarrow> binding_manager \<Rightarrow> channel_registry \<Rightarrow> (channel \<times> channel_recipient) option" where
  "delivery n e m reg =
     (case get_binding m (node_id_as_str n) of
        None \<Rightarrow> None
      | Some b \<Rightarrow>
          (case registry_get reg (nb_channel_type b) of
             None \<Rightarrow> None
           | Some ch \<Rightarrow>
               if flags_contains (ch_flags ch) send_to_recipient_flag then Some (ch, as_recipient b) else None))"

lemma forward_eq:
  "forward_notification_to_binding n e m reg =
     (case delivery n e m reg of
        None \<Rightarrow> (Inr (), reg)
      | Some (ch, r) \<Rightarrow>
          (case ch_answer ch r (TextContent (render_notification_message n e)) of
             Inl err \<Rightarrow> Inl (CommunicationErr (''Failed to send channel notification via '' @
                            core_channel_display (rc_channel_type r) @ '': '' @ err))
           | Inr u \<Rightarrow> Inr u,
           hm_insert (rc_channel_type r)
             (ch\<lparr>ch_log := ch_log ch @ [(r, TextContent (render_notification_message n e))]\<rparr>) reg))"
  by (simp add: forward_notification_to_binding_def delivery_def as_recipient_def channel_send_def
      split: option.splits)

text \<open>
  A node's notification is sent exactly once, to the recipient bound to that node and on the
  channel of the binding, when the node has a binding in effect, the channel is registered and
  it can send to a recipient; otherwise nothing is sent. It is an error exactly when the channel
  refused the message.
\<close>

theorem notification_forwarded:
  "case forward_notification_to_binding n e m reg of (res, reg') \<Rightarrow>
     (\<forall>t. map_option ch_log (registry_get reg' t) =
        (case registry_get reg t of
           None \<Rightarrow> None
         | Some ch \<Rightarrow>
             Some (ch_log ch @
               (case get_binding m (node_id_as_str n) of
                  None \<Rightarrow> []
                | Some b \<Rightarrow>
                    if nb_channel_type b = t \<and> flags_contains (ch_flags ch) send_to_recipient_flag
                    then [(\<lparr>rc_channel_type = t, rc_recipient = nb_recipient b\<rparr>,
                           TextContent (render_notification_message n e))]
                    else [])))) \<and>
     (isl res \<longleftrightarrow>
        (case delivery n e m reg of
           None \<Rightarrow> False
         | Some (ch, r) \<Rightarrow> isl (ch_answer ch r (TextContent (render_notification_message n e)))))"
  by (auto simp: forward_eq delivery_def registry_get_def as_recipient_def hm_simps
      split: option.splits sum.splits)

end
