(* ===== verification/Hub.thy ===== *)
theory Hub
  imports Task_Scheduler Approval Session_Runtime Notifications
begin

section \<open>The Hub and its message router\<close>

text \<open>
  \<^verbatim>\<open>uhorse-hub/src/hub.rs\<close> and \<^verbatim>\<open>uhorse-hub/src/message_router.rs\<close>: the handlers that put the node
  manager, the scheduler, the approver, the session runtime and the notification bindings
  together. A handler returns its result and the Hub after it, since several of them change
  something before they fail. The clock readings and identifiers a handler takes are in an
  \<open>inputs\<close> record; each round of the dispatch loop has its own. What \<open>serde\<close> makes of a command, a
  context or an instant is a field of the environment. Logging, metrics and the audit log are
  left out: they are written and never read here.
\<close>

subsection \<open>State\<close>

record hub_config =
  hc_hub_id :: string
  hc_bind_address :: string
  hc_port :: u16
  hc_max_nodes :: nat
  hc_heartbeat_timeout_secs :: u64
  hc_task_timeout_secs :: u64
  hc_max_retries :: u32

definition hub_config_default :: hub_config where
  "hub_config_default =
     \<lparr>hc_hub_id = ''default-hub'', hc_bind_address = ''0.0.0.0'', hc_port = 8765, hc_max_nodes = 100,
      hc_heartbeat_timeout_secs = 30, hc_task_timeout_secs = 300, hc_max_retries = 3\<rparr>"

record hub =
  hb_config :: hub_config
  hb_started_at :: instant
  hb_nodes :: node_manager
  hb_scheduler :: task_scheduler
  hb_senders :: senders
  hb_channels :: channel_registry
  hb_bindings :: binding_manager
  hb_runtime :: session_runtime
  hb_approver :: "operation_approver option"

record hub_stats =
  hs_hub_id :: string
  hs_uptime_secs :: u64
  hs_nodes :: node_manager_stats
  hs_scheduler :: scheduler_stats
  hs_updated_at :: instant

record hub_env =
  he_env :: env
  he_command_json :: "command \<Rightarrow> json"
  he_context_json :: "task_context \<Rightarrow> json"
  he_instant_json :: "instant \<Rightarrow> json"

record inputs =
  in_now :: instant
  in_unix :: u64
  in_uuid :: string
  in_message_id :: message_id
  in_rounds :: "nat \<Rightarrow> instant \<times> message_id"

definition hub_new_with_components ::
  "instant \<Rightarrow> hub_config \<Rightarrow> operation_approver option \<Rightarrow> channel_registry \<Rightarrow> binding_manager \<Rightarrow> hub" where
  "hub_new_with_components now config approver channels bindings =
     \<lparr>hb_config = config, hb_started_at = now,
      hb_nodes = node_manager_new (hc_max_nodes config) (hc_heartbeat_timeout_secs config),
      hb_scheduler = task_scheduler_new (hc_max_retries config) (hc_task_timeout_secs config),
      hb_senders = [], hb_channels = channels, hb_bindings = bindings,
      hb_runtime = session_runtime_new, hb_approver = approver\<rparr>"

definition hub_new_with_security :: "instant \<Rightarrow> hub_config \<Rightarrow> operation_approver option \<Rightarrow> hub" where
  "hub_new_with_security now config approver =
     hub_new_with_components now config approver registry_new (binding_manager_new [])"

definition hub_new :: "instant \<Rightarrow> hub_config \<Rightarrow> hub" where
  "hub_new now config = hub_new_with_components now config None registry_new (binding_manager_new [])"

subsection \<open>Dispatching\<close>

text \<open>
  The loop of \<open>dispatch_pending_tasks\<close>: until there is no channel to a node or a round starts
  nothing. A round that starts a task takes it out of a queue, which is why the loop ends.
\<close>

function dispatch_rounds ::
  "env \<Rightarrow> (nat \<Rightarrow> instant \<times> message_id) \<Rightarrow> nat \<Rightarrow> node_manager \<Rightarrow> senders \<Rightarrow> task_scheduler \<Rightarrow>
   senders \<times> task_scheduler" where
  "dispatch_rounds e rounds k nm senders s =
     (if senders = [] then (senders, s)
      else case schedule_next e (fst (rounds k)) (snd (rounds k)) nm senders s of
             (None, senders', s') \<Rightarrow> (senders', s')
           | (Some _, senders', s') \<Rightarrow> dispatch_rounds e rounds (Suc k) nm senders' s')"
  by pat_completeness auto

termination
  by (relation "measure (\<lambda>(_, _, _, _, _, s). length (all_pending s))")
     (auto dest: schedule_next_pending [OF sym] schedule_next_pending)

declare dispatch_rounds.simps [simp del]

definition dispatch_pending_tasks :: "hub_env \<Rightarrow> inputs \<Rightarrow> hub \<Rightarrow> hub" where
  "dispatch_pending_tasks e i h =
     (let (senders, s) = dispatch_rounds (he_env e) (in_rounds i) 0 (hb_nodes h) (hb_senders h) (hb_scheduler h)
      in h\<lparr>hb_senders := senders, hb_scheduler := s\<rparr>)"

subsection \<open>The router\<close>

definition register_node_sender :: "node_id \<Rightarrow> sender \<Rightarrow> hub \<Rightarrow> hub" where
  "register_node_sender n tx h = h\<lparr>hb_senders := hm_insert n tx (hb_senders h)\<rparr>"

definition unregister_node_sender :: "node_id \<Rightarrow> hub \<Rightarrow> hub" where
  "unregister_node_sender n h = h\<lparr>hb_senders := hm_remove n (hb_senders h)\<rparr>"

definition approval_operation_for_command :: "command \<Rightarrow> string" where
  "approval_operation_for_command c =
     (case command_type c of
        FileType \<Rightarrow> ''file_delete''
      | ShellType \<Rightarrow> ''system_command''
      | ApiType \<Rightarrow> ''network_access''
      | BrowserType \<Rightarrow> ''network_access''
      | DatabaseType \<Rightarrow> ''network_access''
      | CodeType \<Rightarrow> ''config_change''
      | SkillType \<Rightarrow> ''config_change'')"

definition approval_request_ttl_seconds :: "instant \<Rightarrow> instant \<Rightarrow> u64" where
  "approval_request_ttl_seconds requested_at expires_at =
     (let d = expires_at - requested_at
      in if d < 0 then 1 else word_of_int (max (d div nanos_per_sec) 1))"

definition approval_metadata ::
  "hub_env \<Rightarrow> node_id \<Rightarrow> string \<Rightarrow> task_id \<Rightarrow> command \<Rightarrow> task_context \<Rightarrow> string \<Rightarrow> instant \<Rightarrow> instant \<Rightarrow> json" where
  "approval_metadata e n request_id tid command context reason timestamp expires_at =
     JObject
       [(''command'', he_command_json e command),
        (''command_type'', JString (command_type_name (command_type command))),
        (''context'', he_context_json e context),
        (''expires_at'', he_instant_json e expires_at),
        (''node_id'', JString (node_id_as_str n)),
        (''reason'', JString reason),
        (''request_id'', JString request_id),
        (''requested_at'', he_instant_json e timestamp),
        (''task_id'', JString (task_id_as_str tid))]"

text \<open>The session of the task waits for the approval, if the task belongs to one.\<close>

definition note_approval_wait ::
  "instant \<Rightarrow> task_id \<Rightarrow> string \<Rightarrow> string \<Rightarrow> session_runtime \<Rightarrow> session_runtime" where
  "note_approval_wait now tid request_id reason r =
     (case task_binding r tid of
        None \<Rightarrow> r
      | Some b \<Rightarrow>
          append_transcript_event now (tb_session_key b) ApprovalRequested
            (''request_id='' @ request_id @ ''; reason='' @ reason)
            (snd (mark_waiting_for_approval (tb_session_key b) r)))"

definition handle_approval_request ::
  "hub_env \<Rightarrow> inputs \<Rightarrow> node_id \<Rightarrow> string \<Rightarrow> task_id \<Rightarrow> command \<Rightarrow> task_context \<Rightarrow> string \<Rightarrow> instant \<Rightarrow> instant \<Rightarrow>
   hub \<Rightarrow> (hub_error + unit) \<times> hub" where
  "handle_approval_request e i n request_id tid command context reason timestamp expires_at h =
     (case hb_approver h of
        None \<Rightarrow> (Inl (PermissionErr ''Approval request requires security manager''), h)
      | Some a0 \<Rightarrow>
          (let operation = approval_operation_for_command command;
               ttl = approval_request_ttl_seconds timestamp expires_at;
               (known, a1) = check_idempotency (in_unix i) request_id ttl a0
           in if known then (Inr (), h\<lparr>hb_approver := Some a1\<rparr>)
              else
                let runtime = note_approval_wait (in_now i) tid request_id reason (hb_runtime h);
                    metadata = approval_metadata e n request_id tid command context reason timestamp expires_at;
                    (approval_id, a2) = request_approval (in_unix i) (in_uuid i) n operation Single metadata a1;
                    a3 = store_idempotency_response (in_unix i) request_id
                           (JObject [(''approval_id'', JString approval_id)]) ttl a2
                in (Inr (), h\<lparr>hb_approver := Some a3, hb_runtime := runtime\<rparr>)))"

text \<open>What an operation of the node manager returns, put into the Hub.\<close>

definition with_nodes :: "hub_error + node_manager \<Rightarrow> hub \<Rightarrow> (hub_error + unit) \<times> hub" where
  "with_nodes r h = (case r of Inl err \<Rightarrow> (Inl err, h) | Inr m \<Rightarrow> (Inr (), h\<lparr>hb_nodes := m\<rparr>))"

fun route_node_message :: "hub_env \<Rightarrow> inputs \<Rightarrow> node_id \<Rightarrow> node_to_hub \<Rightarrow> hub \<Rightarrow> (hub_error + unit) \<times> hub" where
  "route_node_message e i n (Heartbeat _ _ status load _) h =
     with_nodes (update_heartbeat (in_now i) n status load (hb_nodes h)) h"
| "route_node_message e i n (TaskProgress _ _ _ _ _) h = (Inr (), h)"
| "route_node_message e i n (TaskResultMsg _ tid result _) h =
     (Inr (), h\<lparr>hb_scheduler := complete_task (in_now i) tid n result (hb_scheduler h)\<rparr>)"
| "route_node_message e i n (ErrorMsg _ otid error _) h =
     (case otid of
        Some tid \<Rightarrow>
          (Inr (), h\<lparr>hb_scheduler :=
             complete_task (in_now i) tid n
               (command_failure (execution_error_new (pe_code error) (pe_message error) SrcExecutor))
               (hb_scheduler h)\<rparr>)
      | None \<Rightarrow> (Inr (), h))"
| "route_node_message e i n (ApprovalRequestMsg _ request_id tid command context reason timestamp expires_at) h =
     handle_approval_request e i n request_id tid command context reason timestamp expires_at h"
| "route_node_message e i n (NotificationEventMsg _ _ event) h =
     (Inr (), h\<lparr>hb_channels := snd (forward_notification_to_binding n event (hb_bindings h) (hb_channels h))\<rparr>)"
| "route_node_message e i n (Unregister _ unregister_id _) h =
     with_nodes (unregister_node unregister_id (hb_nodes h)) h"
| "route_node_message e i n _ h = (Inr (), h)"

fun broadcast_to :: "hub_to_node \<Rightarrow> node_info list \<Rightarrow> senders \<Rightarrow> nat \<times> senders" where
  "broadcast_to msg [] senders = (0, senders)"
| "broadcast_to msg (j # is) senders =
     (case hm_get senders (ni_node_id j) of
        None \<Rightarrow> broadcast_to msg is senders
      | Some tx \<Rightarrow>
          (case mpsc_send msg tx of
             None \<Rightarrow> broadcast_to msg is senders
           | Some tx' \<Rightarrow>
               (let (reached, senders') = broadcast_to msg is (hm_insert (ni_node_id j) tx' senders)
                in (Suc reached, senders'))))"

definition broadcast :: "hub_to_node \<Rightarrow> hub \<Rightarrow> nat \<times> hub" where
  "broadcast msg h =
     (let (reached, senders) = broadcast_to msg (get_online_nodes (hb_nodes h)) (hb_senders h)
      in (reached, h\<lparr>hb_senders := senders\<rparr>))"

text \<open>
  The node of the task, by its status, and the cancellation to it. The sending can fail only when
  the node has a channel whose receiver is gone.
\<close>

definition send_cancellation :: "message_id \<Rightarrow> task_id \<Rightarrow> string \<Rightarrow> hub \<Rightarrow> hub_error + senders" where
  "send_cancellation mid tid reason h =
     (case get_task_status (hb_scheduler h) tid of
        None \<Rightarrow> Inr (hb_senders h)
      | Some status \<Rightarrow>
          (case si_node_id status of
             None \<Rightarrow> Inr (hb_senders h)
           | Some n \<Rightarrow>
               (case hm_get (hb_senders h) n of
                  None \<Rightarrow> Inr (hb_senders h)
                | Some tx \<Rightarrow>
                    (case mpsc_send (TaskCancellation mid tid reason) tx of
                       None \<Rightarrow> Inl (CommunicationErr ''Failed to send cancellation: channel closed'')
                     | Some tx' \<Rightarrow> Inr (hm_insert n tx' (hb_senders h))))))"

definition router_cancel_task :: "inputs \<Rightarrow> task_id \<Rightarrow> string \<Rightarrow> hub \<Rightarrow> (hub_error + unit) \<times> hub" where
  "router_cancel_task i tid reason h =
     (case send_cancellation (in_message_id i) tid reason h of
        Inl err \<Rightarrow> (Inl err, h)
      | Inr senders \<Rightarrow>
          (let h = h\<lparr>hb_senders := senders\<rparr>
           in case sched_cancel_task (in_now i) tid (hb_scheduler h) of
                Inl err \<Rightarrow> (Inl err, h)
              | Inr s \<Rightarrow> (Inr (), h\<lparr>hb_scheduler := s\<rparr>)))"

subsection \<open>The handlers of the Hub\<close>

definition handle_node_connection ::
  "hub_env \<Rightarrow> inputs \<Rightarrow> node_id \<Rightarrow> string \<Rightarrow> node_capabilities \<Rightarrow> workspace_info \<Rightarrow> string list \<Rightarrow> hub \<Rightarrow>
   (hub_error + unit) \<times> hub" where
  "handle_node_connection e i n name capabilities workspace tags h =
     (case with_nodes (register_node (in_now i) n name capabilities workspace tags (hb_nodes h)) h of
        (Inl err, h') \<Rightarrow> (Inl err, h')
      | (Inr _, h') \<Rightarrow> (Inr (), dispatch_pending_tasks e i h'))"

definition handle_node_disconnect :: "node_id \<Rightarrow> hub \<Rightarrow> (hub_error + unit) \<times> hub" where
  "handle_node_disconnect n h = with_nodes (unregister_node n (hb_nodes h)) h"

definition should_dispatch :: "node_to_hub \<Rightarrow> bool" where
  "should_dispatch msg =
     (case msg of
        TaskResultMsg _ _ _ _ \<Rightarrow> True
      | Heartbeat _ _ _ _ _ \<Rightarrow> True
      | ErrorMsg _ otid _ _ \<Rightarrow> otid \<noteq> None
      | _ \<Rightarrow> False)"

definition handle_node_message :: "hub_env \<Rightarrow> inputs \<Rightarrow> node_id \<Rightarrow> node_to_hub \<Rightarrow> hub \<Rightarrow> (hub_error + unit) \<times> hub" where
  "handle_node_message e i n msg h =
     (case route_node_message e i n msg h of
        (Inl err, h') \<Rightarrow> (Inl err, h')
      | (Inr _, h') \<Rightarrow> (Inr (), if should_dispatch msg then dispatch_pending_tasks e i h' else h'))"

definition submit_task ::
  "hub_env \<Rightarrow> inputs \<Rightarrow> command \<Rightarrow> task_context \<Rightarrow> priority \<Rightarrow> node_capabilities option \<Rightarrow> string list \<Rightarrow>
   string option \<Rightarrow> hub \<Rightarrow> task_id \<times> hub" where
  "submit_task e i command context priority caps tags hint h =
     (let (tid, s) = sched_submit_task (in_now i) command context priority caps tags hint (hb_scheduler h)
      in (tid, dispatch_pending_tasks e i (h\<lparr>hb_scheduler := s\<rparr>)))"

definition cancel_task :: "inputs \<Rightarrow> task_id \<Rightarrow> string \<Rightarrow> hub \<Rightarrow> (hub_error + unit) \<times> hub" where
  "cancel_task i tid reason h = router_cancel_task i tid reason h"

text \<open>One tick of the background task: the heartbeat sweep, then the deadline sweep.\<close>

definition background_tick :: "inputs \<Rightarrow> hub \<Rightarrow> hub" where
  "background_tick i h =
     (let nodes = fst (check_node_timeouts (in_now i) (hb_nodes h));
          s = snd (check_task_timeouts (in_now i) (hb_scheduler h))
      in h\<lparr>hb_nodes := nodes, hb_scheduler := s\<rparr>)"

definition hub_get_stats :: "instant \<Rightarrow> hub \<Rightarrow> hub_stats" where
  "hub_get_stats now h =
     \<lparr>hs_hub_id = hc_hub_id (hb_config h),
      hs_uptime_secs = word_of_int (num_seconds (now - hb_started_at h)),
      hs_nodes = node_manager_get_stats (hb_nodes h),
      hs_scheduler = scheduler_get_stats (hb_scheduler h),
      hs_updated_at = now\<rparr>"

subsection \<open>What a round leaves as it is\<close>

text \<open>Which node a task can go to depends neither on the messages already sent nor on its retries.\<close>

lemma can_take_deliver [simp]: "can_take (deliver msg n senders) = can_take senders"
proof (rule ext)
  show "can_take (deliver msg n senders) j = can_take senders j" for j
    by (auto simp: can_take_def deliver_def hm_simps split: option.splits)
qed

lemma contains_deliver [simp]: "hm_contains (deliver msg n senders) k = hm_contains senders k"
  by (simp add: hm_contains_def deliver_def hm_simps)

lemma chosen_node_deliver [simp]: "chosen_node e nm (deliver msg n senders) t = chosen_node e nm senders t"
  by (simp add: chosen_node_def task_candidates_def task_eligible_def [abs_def])

lemma blocked_deliver [simp]: "blocked e nm (deliver msg n senders) s = blocked e nm senders s"
  unfolding blocked_def [abs_def] chosen_node_deliver ..

definition without_retries :: "queued_task \<Rightarrow> queued_task" where
  "without_retries t = t\<lparr>qt_retry_count := 0\<rparr>"

lemma without_retries_bump [simp]: "without_retries (bump_retry senders t) = without_retries t"
  by (simp add: without_retries_def bump_retry_def)

lemma chosen_node_cong:
  assumes "without_retries t = without_retries u"
  shows "chosen_node e nm senders t = chosen_node e nm senders u"
proof -
  have "qt_context t = qt_context u" "qt_required_capabilities t = qt_required_capabilities u"
    "qt_required_tags t = qt_required_tags u" "qt_workspace_hint t = qt_workspace_hint u"
    using assms by (metis (lifting) without_retries_def queued_task.select_convs queued_task.update_convs queued_task.surjective)+
  note eqs = this
  show ?thesis unfolding chosen_node_def task_candidates_def task_eligible_def [abs_def] eqs ..
qed

text \<open>The queue of a priority, up to the retry counts.\<close>

definition queue_of :: "task_scheduler \<Rightarrow> priority \<Rightarrow> queued_task list" where
  "queue_of s p = (case hm_get (ts_pending_tasks s) p of None \<Rightarrow> [] | Some q \<Rightarrow> map without_retries q)"

lemma blocked_queue:
  "blocked e nm senders s p \<longleftrightarrow>
     (case queue_of s p of [] \<Rightarrow> True | t # _ \<Rightarrow> chosen_node e nm senders t = None)"
proof -
  have "chosen_node e nm senders (without_retries t) = chosen_node e nm senders t" for t
    by (rule chosen_node_cong) (simp add: without_retries_def)
  then show ?thesis by (auto simp: blocked_def queue_of_def split: option.splits list.splits)
qed

lemma queue_of_skip [simp]: "queue_of (skip_head senders p s) p' = queue_of s p'"
  by (auto simp: queue_of_def skip_head_def hm_get_insert split: option.splits list.splits)

lemma queue_of_skips [simp]: "queue_of (fold (skip_head senders) ps s) p = queue_of s p"
  by (induction ps arbitrary: s) simp_all

lemma round_queue:
  assumes "schedule_next e now mid nm senders s = (r, senders', s')"
  obtains (idle) "r = None" "senders' = senders" "queue_of s' = queue_of s"
      "list_all (blocked e nm senders' s') priorities"
  | (started) msg n p where "r \<noteq> None" "senders' = deliver msg n senders" "hm_contains senders n"
      "queue_of s p \<noteq> []" "queue_of s' = (queue_of s)(p := tl (queue_of s p))"
  using schedule_next_cases [of e nm senders s now mid]
proof cases
  case idle
  have "queue_of s' = queue_of s" using idle(2) assms by (auto simp: fun_eq_iff)
  moreover have "list_all (blocked e nm senders s') priorities"
    using idle(1) calculation by (simp add: list_all_iff blocked_queue)
  ultimately show thesis using that(1) idle(2) assms by simp
next
  case (started ps1 p ps2 t q i)
  have "queue_of s' = (queue_of s)(p := tl (queue_of s p))"
  proof
    have "queue_of (fold (skip_head senders) ps1 s) p' = queue_of s p'" for p' by simp
    then show "queue_of s' p' = ((queue_of s)(p := tl (queue_of s p))) p'" for p'
      using started(3,5) assms unfolding queue_of_def by (auto simp: start_head_def hm_get_insert)
  qed
  moreover have "queue_of s p \<noteq> []" using started(3) by (simp add: queue_of_def)
  moreover have "hm_contains senders (ni_node_id i)"
    using chosen_node_Some(2) [OF started(4)] by (auto simp: can_take_def hm_contains_def split: option.splits)
  ultimately show thesis using that(2) started(5) assms by force
qed

subsection \<open>The dispatch loop\<close>

definition sent_total :: "senders \<Rightarrow> nat" where
  "sent_total senders = sum_list (map (\<lambda>tx. length (tx_sent tx)) (hm_values senders))"

lemma sum_list_insert:
  "hm_get m k = Some v \<Longrightarrow>
     sum_list (map f (hm_values (hm_insert k w m))) + f v = sum_list (map f (hm_values m)) + (f w :: nat)"
  by (induction m) (auto split: if_splits)

lemma sent_total_deliver:
  assumes "hm_contains senders n"
  shows "sent_total (deliver msg n senders) = Suc (sent_total senders)"
proof -
  obtain tx where tx: "hm_get senders n = Some tx" using assms by (auto simp: hm_contains_def)
  show ?thesis
    using sum_list_insert [OF tx, of "\<lambda>tx. length (tx_sent tx)" "tx\<lparr>tx_sent := tx_sent tx @ [msg]\<rparr>"]
    by (simp add: sent_total_def deliver_def hm_modify_def tx)
qed

lemma deliver_Nil [simp]: "deliver msg n senders = [] \<longleftrightarrow> senders = []"
  by (metis deliver_def hm_length_modify length_0_conv)

lemma dispatch_steps:
  "dispatch_rounds e rounds k nm senders s = (senders', s') \<Longrightarrow> sched_step\<^sup>*\<^sup>* s s'"
proof (induction e rounds k nm senders s rule: dispatch_rounds.induct)
  case (1 e rounds k nm senders s)
  obtain r s1 senders1 where sn: "schedule_next e (fst (rounds k)) (snd (rounds k)) nm senders s = (r, senders1, s1)"
    by (metis prod_cases3)
  then have step: "sched_step s s1" by (rule sched_schedule)
  show ?case
  proof (cases "senders = [] \<or> r = None")
    case True
    then show ?thesis
      using 1(2) sn step by (auto simp: dispatch_rounds.simps [of e rounds k] split: if_splits)
  next
    case False
    then have "sched_step\<^sup>*\<^sup>* s1 s'" using 1 sn by (auto simp: dispatch_rounds.simps [of e rounds k])
    with step show ?thesis by (rule converse_rtranclp_into_rtranclp)
  qed
qed

lemma dispatch_facts:
  assumes "dispatch_rounds e rounds k nm senders s = (senders', s')"
  shows "(senders = [] \<or> list_all (blocked e nm senders' s') priorities) \<and>
    (\<forall>p. suffix (queue_of s' p) (queue_of s p)) \<and>
    chosen_node e nm senders' = chosen_node e nm senders \<and>
    sent_total senders' + length (all_pending s') = sent_total senders + length (all_pending s)"
  using assms
proof (induction e rounds k nm senders s rule: dispatch_rounds.induct)
  case (1 e rounds k nm senders s)
  obtain r s1 senders1 where sn: "schedule_next e (fst (rounds k)) (snd (rounds k)) nm senders s = (r, senders1, s1)"
    by (metis prod_cases3)
  note pend = schedule_next_pending [OF sn]
  note unfold = 1(2) [unfolded dispatch_rounds.simps [of e rounds k]]
  show ?case
  proof (cases "senders = []")
    case True
    then show ?thesis using unfold by simp
  next
    case False
    show ?thesis using sn
    proof (cases rule: round_queue)
      case idle
      then show ?thesis using unfold False sn pend by (simp add: fun_eq_iff)
    next
      case (started msg n p)
      obtain t where r: "r = Some t" using started(1) by auto
      have IH: "(senders1 = [] \<or> list_all (blocked e nm senders' s') priorities) \<and>
          (\<forall>p. suffix (queue_of s' p) (queue_of s1 p)) \<and>
          chosen_node e nm senders' = chosen_node e nm senders1 \<and>
          sent_total senders' + length (all_pending s') = sent_total senders1 + length (all_pending s1)"
        using 1(1) [OF False sn [symmetric] r] unfold False sn r by simp
      have "suffix (queue_of s1 p') (queue_of s p')" for p'
        using started(5) by (simp add: suffix_tl)
      then show ?thesis
        using IH started(2,3) False pend r by (auto simp: sent_total_deliver fun_eq_iff intro: suffix_order.trans)
    qed
  qed
qed

lemma dispatch_status:
  assumes "dispatch_rounds e rounds k nm senders s = (senders', s')" and "sched_inv s"
  shows "status_of s' j = status_of s j \<or> (status_of s j = Some Queued \<and> status_of s' j = Some Running)"
  using assms
proof (induction e rounds k nm senders s rule: dispatch_rounds.induct)
  case (1 e rounds k nm senders s)
  obtain r s1 senders1 where sn: "schedule_next e (fst (rounds k)) (snd (rounds k)) nm senders s = (r, senders1, s1)"
    by (metis prod_cases3)
  note st = schedule_next_status [OF 1(3) sn]
  have inv: "sched_inv s1" using 1(3) sched_step_inv sched_schedule [OF sn] by blast
  note unfold = 1(2) [unfolded dispatch_rounds.simps [of e rounds k]]
  show ?case
  proof (cases "senders = []")
    case False
    show ?thesis
    proof (cases r)
      case None
      then show ?thesis using unfold False sn st(1) [of j] by simp
    next
      case (Some t)
      have "status_of s' j = status_of s1 j \<or> (status_of s1 j = Some Queued \<and> status_of s' j = Some Running)"
        using 1(1) [OF False sn [symmetric] Some refl _ inv] unfold False sn Some by simp
      then show ?thesis using st(1) [of j] st(2) Some by (auto split: if_splits)
    qed
  qed (use unfold in simp)
qed

text \<open>
  C4: \<open>dispatch_pending_tasks\<close> returns, and when it does, either no node has a channel or the head
  of every priority has no node that can take it. In between it only moved tasks from queued to
  running, from the front of their queues and in queue order, and it sent exactly one message per
  task it started.
\<close>

theorem dispatch_settles:
  assumes "sched_inv (hb_scheduler h)"
  shows "let h' = dispatch_pending_tasks e i h in
    (hb_senders h = [] \<or> list_all (blocked (he_env e) (hb_nodes h') (hb_senders h') (hb_scheduler h')) priorities) \<and>
    (\<forall>p. suffix (queue_of (hb_scheduler h') p) (queue_of (hb_scheduler h) p)) \<and>
    sent_total (hb_senders h') + length (all_pending (hb_scheduler h')) =
      sent_total (hb_senders h) + length (all_pending (hb_scheduler h)) \<and>
    (\<forall>tid. status_of (hb_scheduler h') tid = status_of (hb_scheduler h) tid \<or>
       (status_of (hb_scheduler h) tid = Some Queued \<and> status_of (hb_scheduler h') tid = Some Running))"
proof -
  obtain senders' s' where d: "dispatch_rounds (he_env e) (in_rounds i) 0 (hb_nodes h) (hb_senders h)
      (hb_scheduler h) = (senders', s')" by fastforce
  show ?thesis
    using dispatch_facts [OF d] dispatch_status [OF d assms]
    by (simp add: dispatch_pending_tasks_def d Let_def)
qed

definition example_inputs :: inputs where
  "example_inputs = \<lparr>in_now = 7, in_unix = 100, in_uuid = ''u1'', in_message_id = MessageId ''c'',
     in_rounds = \<lambda>k. (7, MessageId (dec_string k))\<rparr>"

definition example_hub_env :: hub_env where
  "example_hub_env = \<lparr>he_env = example_env, he_command_json = \<lambda>_. JNull, he_context_json = \<lambda>_. JNull,
     he_instant_json = \<lambda>_. JNull\<rparr>"

definition example_hub :: hub where
  "example_hub = (hub_new_with_security 0 hub_config_default (Some (operation_approver_new approval_manager_new)))
     \<lparr>hb_nodes := example_manager, hb_senders := example_senders\<rparr>"

lemma example_hub_fields [simp]:
  "hb_scheduler example_hub = task_scheduler_new 3 300" "hb_nodes example_hub = example_manager"
  "hb_senders example_hub = example_senders"
  by (simp_all add: example_hub_def hub_new_with_security_def hub_new_with_components_def hub_config_default_def)

theorem dispatch_settles_witness:
  "list_all (blocked example_env example_manager (hb_senders (dispatch_pending_tasks example_hub_env example_inputs example_hub))
     (hb_scheduler (dispatch_pending_tasks example_hub_env example_inputs example_hub))) priorities"
proof -
  have inv: "sched_inv (hb_scheduler example_hub)" by (simp add: sched_inv_new)
  have nodes: "hb_nodes (dispatch_pending_tasks example_hub_env example_inputs example_hub) = example_manager"
    by (simp add: dispatch_pending_tasks_def Let_def split: prod.split)
  have "example_senders \<noteq> []" by (simp add: example_senders_def)
  then show ?thesis
    using dispatch_settles [OF inv, of example_hub_env example_inputs] nodes
    by (simp add: Let_def example_hub_env_def)
qed

subsection \<open>A submitted task starts when a node is ready\<close>

lemma pending_in_queue:
  assumes "queues_ok s" and "tid \<in> qt_task_id ` set (all_pending s)"
  obtains p t where "t \<in> set (queue_of s p)" "qt_task_id t = tid"
proof -
  obtain t where t: "t \<in> set (all_pending s)" "qt_task_id t = tid" using assms(2) by blast
  then obtain p q where q: "(p, q) \<in> set (ts_pending_tasks s)" "t \<in> set q"
    by (force simp: all_pending_def)
  then have "hm_get (ts_pending_tasks s) p = Some q"
    using assms(1) by (simp add: queues_ok_def hm_get_iff)
  then have "without_retries t \<in> set (queue_of s p)" using q(2) by (simp add: queue_of_def)
  then show thesis using that [of "without_retries t" p] t(2) by (simp add: without_retries_def)
qed

lemma queue_unique:
  assumes inv: "sched_inv s" and "a \<in> set (queue_of s p)" and "b \<in> set (queue_of s p')"
    and "qt_task_id a = qt_task_id b"
  shows "p = p'"
proof -
  have "distinct (map qt_task_id (all_pending s))" and q: "queues_ok s"
    using inv by (simp_all add: sched_inv_def ids_ok_def task_ids_def)
  then have inj: "inj_on qt_task_id (set (all_pending s))" by (simp add: distinct_map)
  have get: "\<exists>t q. hm_get (ts_pending_tasks s) p = Some q \<and> t \<in> set q \<and> x = without_retries t \<and>
      t \<in> set (all_pending s) \<and> qt_priority t = p" if x: "x \<in> set (queue_of s p)" for x p
  proof -
    obtain t qu where t: "hm_get (ts_pending_tasks s) p = Some qu" "t \<in> set qu" "x = without_retries t"
      using x by (cases "hm_get (ts_pending_tasks s) p") (auto simp: queue_of_def)
    have "list_all (queued_ok (ts_max_retries s) p) qu" using q t(1) by (simp add: queues_ok_def)
    then have "qt_priority t = p" using t(2) by (auto simp: list_all_iff queued_ok_def)
    moreover have "t \<in> set (all_pending s)" using hm_get_values [OF t(1)] t(2) by (auto simp: all_pending_def)
    ultimately show ?thesis using t by blast
  qed
  obtain t u where "a = without_retries t" "b = without_retries u" "t \<in> set (all_pending s)"
    "u \<in> set (all_pending s)" "qt_priority t = p" "qt_priority u = p'"
    using get [OF assms(2)] get [OF assms(3)] by blast
  moreover from this have "t = u" using inj assms(4) by (auto simp: without_retries_def dest: inj_onD)
  ultimately show ?thesis by simp
qed

text \<open>
  C2: a task submitted to the Hub whose priority has nothing queued is running when \<open>submit_task\<close>
  returns, if some candidate node (connected, online, with the capabilities, tags and workspace
  the task asks for) can take a message; the task was unknown before.
\<close>

theorem submit_runs_when_ready:
  assumes inv: "sched_inv (hb_scheduler h)" and room: "unat (ts_task_counter (hb_scheduler h)) < 2 ^ 64 - 1"
    and empty: "hm_get (ts_pending_tasks (hb_scheduler h)) p = Some []"
    and node: "j \<in> set (task_candidates (env_fs (he_env e)) (hb_nodes h) (hb_senders h)
      (submitted_task (in_now i) cmd ctx p caps tags hint (hb_scheduler h)))" "can_take (hb_senders h) j"
    and sub: "submit_task e i cmd ctx p caps tags hint h = (tid, h')"
  shows "status_of (hb_scheduler h) tid = None \<and> status_of (hb_scheduler h') tid = Some Running"
proof -
  let ?s = "hb_scheduler h"
  define t where "t = submitted_task (in_now i) cmd ctx p caps tags hint ?s"
  obtain s1 where s1: "sched_submit_task (in_now i) cmd ctx p caps tags hint ?s = (tid, s1)"
    using sub by (auto simp: submit_task_def split: prod.splits)
  have inv1: "sched_inv s1" using sched_submit_task_inv [OF inv room s1] .
  obtain q where q: "hm_get (ts_pending_tasks ?s) p = Some q" "(tid, s1) =
      (task_id_of (unat (ts_task_counter ?s)), ?s\<lparr>ts_task_counter := ts_task_counter ?s + 1,
         ts_pending_tasks := hm_insert p (q @ [t]) (ts_pending_tasks ?s)\<rparr>)"
    using sched_submit_task_eq [of ?s p "in_now i" cmd ctx caps tags hint] inv s1
    by (auto simp: sched_inv_def t_def)
  then have queue1: "queue_of s1 p = [without_retries t]" and tid: "qt_task_id t = tid"
    using empty by (simp_all add: queue_of_def hm_get_insert t_def submitted_task_def)
  obtain senders' s' where d: "dispatch_rounds (he_env e) (in_rounds i) 0 (hb_nodes h) (hb_senders h) s1 =
      (senders', s')" by fastforce
  then have h': "hb_scheduler h' = s'" using sub s1 by (auto simp: submit_task_def dispatch_pending_tasks_def)
  have chosen: "chosen_node (he_env e) (hb_nodes h) (hb_senders h) t \<noteq> None"
    using node chosen_node_None by (auto simp: t_def)
  have "hb_senders h \<noteq> []" using node(2) by (auto simp: can_take_def)
  then have facts: "list_all (blocked (he_env e) (hb_nodes h) senders' s') priorities"
      "\<And>p. suffix (queue_of s' p) (queue_of s1 p)"
      "chosen_node (he_env e) (hb_nodes h) senders' = chosen_node (he_env e) (hb_nodes h) (hb_senders h)"
    using dispatch_facts [OF d] by auto
  have "blocked (he_env e) (hb_nodes h) senders' s' p"
    using facts(1) by (cases p) (auto simp: list_all_iff priorities_def)
  moreover have "chosen_node (he_env e) (hb_nodes h) senders' (without_retries t) \<noteq> None"
    using chosen facts(3) chosen_node_cong [of "without_retries t" t] by (simp add: without_retries_def)
  ultimately have gone: "queue_of s' p = []"
    using facts(2) [of p] queue1 by (auto simp: blocked_queue suffix_Cons)
  have "tid \<notin> qt_task_id ` set (all_pending s')"
  proof
    assume "tid \<in> qt_task_id ` set (all_pending s')"
    moreover have "queues_ok s'"
      using sched.steps_good [OF dispatch_steps [OF d] inv1] by (simp add: sched_inv_def)
    ultimately obtain p' u where u: "u \<in> set (queue_of s' p')" "qt_task_id u = tid"
      by (metis pending_in_queue)
    then have "u \<in> set (queue_of s1 p')" using facts(2) by (meson set_mono_suffix subsetD)
    then have "p' = p" using queue_unique [OF inv1, of u p' "without_retries t" p] u(2) queue1 tid
      by (simp add: without_retries_def)
    then show False using u(1) gone by simp
  qed
  then have "status_of s' tid \<noteq> Some Queued"
    using sched.steps_good [OF dispatch_steps [OF d] inv1]
    by (fastforce simp: status_of_eq sched_inv_def store_ok_def terminal_def split: option.splits)
  then have "status_of s' tid = Some Running"
    using dispatch_status [OF d inv1, of tid] submit_status [OF inv s1, of tid] by auto
  then show ?thesis using h' status_None_new_id(1) [OF inv s1] by simp
qed

theorem submit_runs_when_ready_witness:
  "status_of (hb_scheduler (snd (submit_task example_hub_env example_inputs (Shell (shell_command_new ''ls''))
      (task_context_new 0 (UserId ''u'') (SessionId ''s'') ''cli'') High None [] None example_hub)))
      (TaskId ''task-0'') = Some Running"
proof -
  let ?cmd = "Shell (shell_command_new ''ls'')"
  let ?ctx = "task_context_new 0 (UserId ''u'') (SessionId ''s'') ''cli''"
  let ?sub = "submit_task example_hub_env example_inputs ?cmd ?ctx High None [] None example_hub"
  have inv: "sched_inv (hb_scheduler example_hub)" by (simp add: sched_inv_new)
  have sub: "?sub = (TaskId ''task-0'', snd ?sub)"
    by (simp add: submit_task_def sched_submit_task_def generate_task_id_def task_scheduler_new_def
        task_id_of_def split: prod.split)
  have "\<exists>j. j \<in> set (task_candidates (env_fs (he_env example_hub_env)) (hb_nodes example_hub)
      (hb_senders example_hub) (submitted_task (in_now example_inputs) ?cmd ?ctx High None [] None
      (hb_scheduler example_hub))) \<and> can_take (hb_senders example_hub) j"
    by (simp add: task_candidates_def task_eligible_def get_online_nodes_def example_manager_eval
        example_senders_def task_context_new_def submitted_task_def can_take_def hm_contains_def)
  then obtain j where j: "j \<in> set (task_candidates (env_fs (he_env example_hub_env)) (hb_nodes example_hub)
      (hb_senders example_hub) (submitted_task (in_now example_inputs) ?cmd ?ctx High None [] None
      (hb_scheduler example_hub)))" "can_take (hb_senders example_hub) j" by blast
  show ?thesis
    using submit_runs_when_ready [OF inv _ _ j sub] by (simp add: task_scheduler_new_def priorities_def)
qed

subsection \<open>The Hub is a composition of its components\<close>

text \<open>
  One handler of the Hub, or a change to one of its parts made through the handle the Hub gives
  out. The id of a new approval request is one not in use.
\<close>

definition uuid_fresh :: "inputs \<Rightarrow> hub \<Rightarrow> bool" where
  "uuid_fresh i h =
     (case hb_approver h of None \<Rightarrow> True | Some a \<Rightarrow> get_request (in_uuid i) (oa_approval_manager a) = None)"

inductive hub_step :: "hub \<Rightarrow> hub \<Rightarrow> bool" where
  hub_connect: "hub_step h (snd (handle_node_connection e i n name caps ws tags h))"
| hub_disconnect: "hub_step h (snd (handle_node_disconnect n h))"
| hub_message: "uuid_fresh i h \<Longrightarrow> hub_step h (snd (handle_node_message e i n msg h))"
| hub_submit: "unat (ts_task_counter (hb_scheduler h)) < 2 ^ 64 - 1 \<Longrightarrow>
    hub_step h (snd (submit_task e i cmd ctx p rcaps tags hint h))"
| hub_cancel: "hub_step h (snd (cancel_task i tid reason h))"
| hub_dispatch: "hub_step h (dispatch_pending_tasks e i h)"
| hub_tick: "hub_step h (background_tick i h)"
| hub_add_sender: "hub_step h (register_node_sender n tx h)"
| hub_drop_sender: "hub_step h (unregister_node_sender n h)"
| hub_broadcast: "hub_step h (snd (broadcast msg h))"
| hub_runtime: "sr_step (hb_runtime h) r \<Longrightarrow> hub_step h (h\<lparr>hb_runtime := r\<rparr>)"
| hub_approver: "hb_approver h = Some a \<Longrightarrow> am_step (oa_approval_manager a) m \<Longrightarrow>
    hub_step h (h\<lparr>hb_approver := Some (a\<lparr>oa_approval_manager := m\<rparr>)\<rparr>)"
| hub_bindings: "hub_step h (h\<lparr>hb_bindings := b\<rparr>)"

inductive_cases hub_stepE: "hub_step h h'"

text \<open>Every part of the Hub moves by steps of its own.\<close>

definition approver_steps :: "operation_approver option \<Rightarrow> operation_approver option \<Rightarrow> bool" where
  "approver_steps oa oa' =
     (case oa of
        None \<Rightarrow> oa' = None
      | Some a \<Rightarrow>
          (case oa' of
             None \<Rightarrow> False
           | Some a' \<Rightarrow> am_step\<^sup>*\<^sup>* (oa_approval_manager a) (oa_approval_manager a') \<and>
               ic_step\<^sup>*\<^sup>* (oa_idempotency_cache a) (oa_idempotency_cache a')))"

definition parts_step :: "hub \<Rightarrow> hub \<Rightarrow> bool" where
  "parts_step h h' \<longleftrightarrow>
     nm_step\<^sup>*\<^sup>* (hb_nodes h) (hb_nodes h') \<and> sched_step\<^sup>*\<^sup>* (hb_scheduler h) (hb_scheduler h') \<and>
     sr_step\<^sup>*\<^sup>* (hb_runtime h) (hb_runtime h') \<and> approver_steps (hb_approver h) (hb_approver h')"

lemma approver_steps_refl [simp]: "approver_steps oa oa"
  by (simp add: approver_steps_def split: option.splits)

lemma parts_step_refl [simp]: "parts_step h h"
  by (simp add: parts_step_def)

lemma parts_step_fields [simp]:
  "parts_step h (h\<lparr>hb_senders := x\<rparr>)" "parts_step h (h\<lparr>hb_bindings := b\<rparr>)" "parts_step h (h\<lparr>hb_channels := c\<rparr>)"
  by (simp_all add: parts_step_def)

lemma parts_step_runtime: "sr_step (hb_runtime h) r \<Longrightarrow> parts_step h (h\<lparr>hb_runtime := r\<rparr>)"
  by (auto simp: parts_step_def)

lemma parts_step_approver:
  "hb_approver h = Some a \<Longrightarrow> am_step (oa_approval_manager a) m \<Longrightarrow>
     parts_step h (h\<lparr>hb_approver := Some (a\<lparr>oa_approval_manager := m\<rparr>)\<rparr>)"
  by (auto simp: parts_step_def approver_steps_def)

lemma approver_steps_trans: "approver_steps a b \<Longrightarrow> approver_steps b c \<Longrightarrow> approver_steps a c"
  by (auto simp: approver_steps_def split: option.splits intro: rtranclp_trans)

lemma parts_step_trans: "parts_step a b \<Longrightarrow> parts_step b c \<Longrightarrow> parts_step a c"
  by (auto simp: parts_step_def intro: rtranclp_trans approver_steps_trans)

lemma parts_step_dispatch [simp]: "parts_step h (dispatch_pending_tasks e i h)"
  by (auto simp: parts_step_def dispatch_pending_tasks_def Let_def split: prod.splits dest: dispatch_steps)

lemma with_nodes_parts:
  "(\<And>m. r = Inr m \<Longrightarrow> nm_step (hb_nodes h) m) \<Longrightarrow> parts_step h (snd (with_nodes r h))"
  by (auto simp: with_nodes_def parts_step_def split: sum.splits)

lemma parts_step_nodes [simp]:
  "parts_step h (snd (with_nodes (register_node now n name caps ws tags (hb_nodes h)) h))"
  "parts_step h (snd (with_nodes (unregister_node n (hb_nodes h)) h))"
  "parts_step h (snd (with_nodes (update_heartbeat now n status load (hb_nodes h)) h))"
  by (auto intro!: with_nodes_parts intro: nm_register nm_unregister nm_heartbeat)

lemma complete_task_parts [simp]:
  "parts_step h (h\<lparr>hb_scheduler := complete_task now tid n result (hb_scheduler h)\<rparr>)"
  by (auto simp: parts_step_def intro: sched_complete)

lemma note_approval_wait_steps: "sr_step\<^sup>*\<^sup>* r (note_approval_wait now tid rid reason r)"
proof (cases "task_binding r tid")
  case (Some b)
  have "sr_step r (snd (mark_waiting_for_approval (tb_session_key b) r))" by (rule sr_wait_approval)
  then show ?thesis
    unfolding note_approval_wait_def Some option.case
    by (meson r_into_rtranclp rtranclp.rtrancl_into_rtrancl sr_append)
qed (simp add: note_approval_wait_def)

lemma approval_request_parts:
  assumes "uuid_fresh i h"
  shows "parts_step h (snd (handle_approval_request e i n rid tid cmd ctx reason t0 t1 h))"
proof (cases "hb_approver h")
  case (Some a)
  let ?ttl = "approval_request_ttl_seconds t0 t1"
  obtain known c where chk: "check_or_record (in_unix i) rid ?ttl (oa_idempotency_cache a) = (known, c)"
    by fastforce
  define md where "md = approval_metadata e n rid tid cmd ctx reason t0 t1"
  obtain req m where cr: "create_request (in_unix i) (in_uuid i) (approval_operation_for_command cmd)
      (node_id_as_str n) Single [hub_admin] md (oa_approval_manager a) = (req, m)" by fastforce
  have am: "am_step (oa_approval_manager a) m"
    using assms Some by (intro am_create [OF _ cr]) (simp add: uuid_fresh_def)
  have ic: "ic_step (oa_idempotency_cache a) c"
    using ic_check [of "oa_idempotency_cache a" "in_unix i" rid ?ttl] by (simp add: chk)
  then have ic2: "ic_step\<^sup>*\<^sup>* (oa_idempotency_cache a) (store_response now rid v ttl c)" for now v ttl
    by (meson ic_store r_into_rtranclp rtranclp.rtrancl_into_rtrancl)
  have "approver_steps (Some a) (hb_approver (snd (handle_approval_request e i n rid tid cmd ctx reason t0 t1 h)))"
    using am ic ic2
    by (auto simp: handle_approval_request_def Some approver_steps_def check_idempotency_def chk
        request_approval_def store_idempotency_response_def md_def [symmetric] cr Let_def)
  moreover have "sr_step\<^sup>*\<^sup>* (hb_runtime h) (hb_runtime (snd (handle_approval_request e i n rid tid cmd ctx reason t0 t1 h)))"
    by (auto simp: handle_approval_request_def Some Let_def note_approval_wait_steps split: prod.splits)
  ultimately show ?thesis
    by (auto simp: parts_step_def Some handle_approval_request_def Let_def split: prod.splits)
qed (simp add: handle_approval_request_def)

lemma route_parts: "uuid_fresh i h \<Longrightarrow> parts_step h (snd (route_node_message e i n msg h))"
proof (cases msg)
  case (NotificationEventMsg a b c)
  then show ?thesis by (simp add: parts_step_def)
qed (simp_all add: approval_request_parts split: option.splits)

lemma submit_parts:
  assumes room: "unat (ts_task_counter (hb_scheduler h)) < 2 ^ 64 - 1"
  shows "parts_step h (snd (submit_task e i cmd ctx p rcaps tags hint h))"
proof -
  obtain tid s where s: "sched_submit_task (in_now i) cmd ctx p rcaps tags hint (hb_scheduler h) = (tid, s)" by fastforce
  have "parts_step h (h\<lparr>hb_scheduler := s\<rparr>)"
    using sched_submit [OF room s] by (auto simp: parts_step_def)
  then show ?thesis by (auto simp: submit_task_def s intro: parts_step_trans)
qed

lemma hub_step_parts: "hub_step h h' \<Longrightarrow> parts_step h h'"
proof (erule hub_stepE)
  fix e i n name caps ws tags
  assume "h' = snd (handle_node_connection e i n name caps ws tags h)"
  moreover obtain r h1 where "with_nodes (register_node (in_now i) n name caps ws tags (hb_nodes h)) h = (r, h1)"
    by fastforce
  moreover from this have "parts_step h h1"
    using parts_step_nodes(1) [of h "in_now i" n name caps ws tags] by simp
  ultimately show ?thesis
    by (auto simp: handle_node_connection_def split: sum.splits intro: parts_step_trans)
next
  fix e i n msg
  assume "uuid_fresh i h" and "h' = snd (handle_node_message e i n msg h)"
  moreover obtain r h1 where "route_node_message e i n msg h = (r, h1)" by fastforce
  moreover from calculation have "parts_step h h1" using route_parts [of i h e n msg] by simp
  ultimately show ?thesis
    by (auto simp: handle_node_message_def split: sum.splits intro: parts_step_trans)
next
  fix i tid reason
  assume "h' = snd (cancel_task i tid reason h)"
  then show ?thesis
    by (auto simp: cancel_task_def router_cancel_task_def parts_step_def Let_def split: sum.splits intro: sched_cancel)
next
  fix i
  assume "h' = background_tick i h"
  then show ?thesis
    using nm_timeouts sched_timeouts [OF prod.collapse [symmetric]]
    by (auto simp: background_tick_def parts_step_def)
qed (auto simp: submit_parts handle_node_disconnect_def register_node_sender_def unregister_node_sender_def
    broadcast_def parts_step_runtime parts_step_approver split: prod.splits)

definition approver_ok :: "operation_approver option \<Rightarrow> bool" where
  "approver_ok oa =
     (case oa of None \<Rightarrow> True | Some a \<Rightarrow> am_inv (oa_approval_manager a) \<and> ic_inv (oa_idempotency_cache a))"

definition hub_inv :: "hub \<Rightarrow> bool" where
  "hub_inv h \<longleftrightarrow> nm_inv (hb_nodes h) \<and> sched_inv (hb_scheduler h) \<and> sr_inv (hb_runtime h) \<and>
     approver_ok (hb_approver h)"

definition hub_start :: "hub \<Rightarrow> bool" where
  "hub_start h \<longleftrightarrow> (\<exists>now config oa channels bindings.
     h = hub_new_with_components now config oa channels bindings \<and> approver_ok oa)"

lemma parts_step_inv: "hub_inv h \<Longrightarrow> parts_step h h' \<Longrightarrow> hub_inv h'"
  by (auto simp: hub_inv_def parts_step_def approver_ok_def approver_steps_def split: option.splits
      intro: nm.steps_good sched.steps_good sr.steps_good am.steps_good ic.steps_good)

interpretation hubs: step_system hub_start hub_step hub_inv
proof
  show "hub_inv h" if "hub_start h" for h
    using that by (auto simp: hub_start_def hub_inv_def hub_new_with_components_def nm_inv_new sched_inv_new
        sr_inv_new)
qed (rule parts_step_inv [OF _ hub_step_parts])

text \<open>
  C5: in every state the running Hub reaches, through connections, disconnections, node messages,
  submissions, cancellations, dispatches, background sweeps and the operations on its parts: no
  task id occurs twice, at most 500 finished tasks are kept, at most the configured number of
  nodes is registered, a workspace is served by a node that declares it, the transcripts are
  numbered without gaps, and an approval that was granted has as many different approvers as its
  level asks for.
\<close>

theorem hub_reachable:
  assumes "approver_ok oa" and "hub_step\<^sup>*\<^sup>* (hub_new_with_components now config oa channels bindings) h"
  shows "distinct (task_ids (hb_scheduler h)) \<and> length (ts_completed_tasks (hb_scheduler h)) \<le> 500 \<and>
    length (nm_nodes (hb_nodes h)) \<le> nm_max_nodes (hb_nodes h) \<and>
    (\<forall>w i. get_node_by_workspace_id (hb_nodes h) w = Some i \<longrightarrow> wi_workspace_id (ni_workspace i) = Some w) \<and>
    (\<forall>key t. transcript (hb_runtime h) key = Some t \<longrightarrow> numbered (tx_events t)) \<and>
    (\<forall>a rid r. hb_approver h = Some a \<and> get_approval_status rid a = Inr ApApproved \<and>
        hm_get (am_history (oa_approval_manager a)) rid = Some r \<longrightarrow>
        distinct (approvers_of r) \<and> needed_approvals (ar_level r) \<le> length (approvers_of r))"
proof -
  have "hub_start (hub_new_with_components now config oa channels bindings)"
    using assms(1) unfolding hub_start_def by blast
  then have inv: "hub_inv h" using assms(2) by (rule hubs.reachable_good)
  have sched: "distinct (task_ids (hb_scheduler h)) \<and> length (ts_completed_tasks (hb_scheduler h)) \<le> 500"
    using inv by (simp add: hub_inv_def sched_inv_def ids_ok_def store_ok_def)
  have nm: "nm_inv (hb_nodes h)" using inv by (simp add: hub_inv_def)
  have nodes: "length (nm_nodes (hb_nodes h)) \<le> nm_max_nodes (hb_nodes h) \<and>
    (\<forall>w i. get_node_by_workspace_id (hb_nodes h) w = Some i \<longrightarrow> wi_workspace_id (ni_workspace i) = Some w)"
    using nm_invD(3) [OF nm] get_node_by_workspace_id_sound [OF nm] by blast
  have tr: "\<forall>key t. transcript (hb_runtime h) key = Some t \<longrightarrow> numbered (tx_events t)"
    using inv by (simp add: hub_inv_def sr_inv_def transcript_def)
  have "distinct (approvers_of r) \<and> needed_approvals (ar_level r) \<le> length (approvers_of r)"
    if g: "hb_approver h = Some a" "get_approval_status rid a = Inr ApApproved"
      "hm_get (am_history (oa_approval_manager a)) rid = Some r" for a rid r
  proof -
    let ?m = "oa_approval_manager a"
    have am: "am_inv ?m" using inv g(1) by (simp add: hub_inv_def approver_ok_def)
    have "hm_get (am_pending ?m) rid = None"
      using am_invD(1) [OF am] g(3) by (metis option.distinct(1) stores_ok_def)
    then have "ar_status r = ApApproved" using g(2,3) by (simp add: get_approval_status_def get_request_def)
    then show ?thesis
      using am_invD(5) [OF am g(3)]
      by (simp add: history_ok_def request_ok_def approvers_of_def distinct_map_filter)
  qed
  then show ?thesis using sched nodes tr by blast
qed

theorem hub_reachable_witness:
  "hub_step\<^sup>*\<^sup>* (hub_new_with_components 0 hub_config_default None registry_new (binding_manager_new []))
     (snd (submit_task example_hub_env example_inputs (Shell (shell_command_new ''ls''))
       (task_context_new 0 (UserId ''u'') (SessionId ''s'') ''cli'') High None [] None (hub_new 0 hub_config_default))) \<and>
   distinct (task_ids (hb_scheduler (snd (submit_task example_hub_env example_inputs (Shell (shell_command_new ''ls''))
       (task_context_new 0 (UserId ''u'') (SessionId ''s'') ''cli'') High None [] None (hub_new 0 hub_config_default)))))"
proof -
  have "approver_ok None" by (simp add: approver_ok_def)
  moreover have run: "hub_step\<^sup>*\<^sup>* (hub_new_with_components 0 hub_config_default None registry_new (binding_manager_new []))
     (snd (submit_task example_hub_env example_inputs (Shell (shell_command_new ''ls''))
       (task_context_new 0 (UserId ''u'') (SessionId ''s'') ''cli'') High None [] None (hub_new 0 hub_config_default)))"
    unfolding hub_new_def
    by (intro r_into_rtranclp hub_submit) (simp add: hub_new_with_components_def task_scheduler_new_def)
  ultimately show ?thesis using hub_reachable by blast
qed



subsection \<open>Cancellation through the router\<close>

text \<open>The channel to the node a task was assigned to, if the task has a node and the node a channel.\<close>

definition task_channel :: "hub \<Rightarrow> task_id \<Rightarrow> (node_id \<times> sender) option" where
  "task_channel h tid =
     (case get_task_status (hb_scheduler h) tid of
        None \<Rightarrow> None
      | Some st \<Rightarrow>
          (case si_node_id st of
             None \<Rightarrow> None
           | Some n \<Rightarrow> map_option (\<lambda>tx. (n, tx)) (hm_get (hb_senders h) n)))"

lemma send_cancellation_eq:
  "send_cancellation mid tid reason h =
     (case task_channel h tid of
        None \<Rightarrow> Inr (hb_senders h)
      | Some (n, tx) \<Rightarrow>
          if tx_open tx then Inr (deliver (TaskCancellation mid tid reason) n (hb_senders h))
          else Inl (CommunicationErr ''Failed to send cancellation: channel closed''))"
  by (auto simp: send_cancellation_def task_channel_def mpsc_send_def deliver_def hm_modify_def split: option.splits)

text \<open>
  C27: cancelling a task through the Hub. When the node of the task has a channel, the
  cancellation is sent to it, also when the task is already finished; with a channel whose
  receiver is gone the call fails and nothing changes, a running task included. Apart from that,
  it succeeds exactly for a queued or running task, which is then cancelled; otherwise the tasks
  stay as they are.
\<close>

theorem hub_cancel_effect:
  assumes inv: "sched_inv (hb_scheduler h)" and c: "cancel_task i tid reason h = (res, h')"
  shows "(case task_channel h tid of
      Some (n, tx) \<Rightarrow>
        if tx_open tx
        then hb_senders h' = deliver (TaskCancellation (in_message_id i) tid reason) n (hb_senders h) \<and>
          (isl res \<longleftrightarrow> status_of (hb_scheduler h) tid \<notin> {Some Queued, Some Running})
        else h' = h \<and> res = Inl (CommunicationErr ''Failed to send cancellation: channel closed'')
    | None \<Rightarrow> hb_senders h' = hb_senders h \<and>
        (isl res \<longleftrightarrow> status_of (hb_scheduler h) tid \<notin> {Some Queued, Some Running})) \<and>
    (if isl res then hb_scheduler h' = hb_scheduler h
      else status_of (hb_scheduler h') tid \<in> {Some Cancelled, None})"
proof
  have sc: "case sched_cancel_task (in_now i) tid (hb_scheduler h) of
      Inl err \<Rightarrow> status_of (hb_scheduler h) tid \<notin> {Some Queued, Some Running}
    | Inr s' \<Rightarrow> status_of (hb_scheduler h) tid \<in> {Some Queued, Some Running} \<and>
        status_of s' tid \<in> {Some Cancelled, None}"
    using sched_cancel_error(2) [OF inv] sched_cancel_lifecycle(2,3) [OF inv]
    by (auto split: sum.splits)
  note e = c [unfolded cancel_task_def router_cancel_task_def send_cancellation_eq]
  show "case task_channel h tid of
      Some (n, tx) \<Rightarrow>
        if tx_open tx
        then hb_senders h' = deliver (TaskCancellation (in_message_id i) tid reason) n (hb_senders h) \<and>
          (isl res \<longleftrightarrow> status_of (hb_scheduler h) tid \<notin> {Some Queued, Some Running})
        else h' = h \<and> res = Inl (CommunicationErr ''Failed to send cancellation: channel closed'')
    | None \<Rightarrow> hb_senders h' = hb_senders h \<and>
        (isl res \<longleftrightarrow> status_of (hb_scheduler h) tid \<notin> {Some Queued, Some Running})"
    using e sc by (fastforce simp: Let_def split: option.splits sum.splits if_splits)
  show "if isl res then hb_scheduler h' = hb_scheduler h
      else status_of (hb_scheduler h') tid \<in> {Some Cancelled, None}"
    using e sc by (fastforce simp: Let_def split: option.splits sum.splits if_splits)
qed

text \<open>A Hub with a finished task: the cancellation is sent and the call fails.\<close>

theorem hub_cancel_effect_witness:
  "isl (fst (cancel_task example_inputs (TaskId ''task-0'') ''late'' (example_hub\<lparr>hb_scheduler := example_done\<rparr>))) \<and>
   hb_senders (snd (cancel_task example_inputs (TaskId ''task-0'') ''late'' (example_hub\<lparr>hb_scheduler := example_done\<rparr>))) =
     deliver (TaskCancellation (MessageId ''c'') (TaskId ''task-0'') ''late'') (NodeId ''a'') example_senders"
proof -
  let ?h = "example_hub\<lparr>hb_scheduler := example_done\<rparr>"
  have inv: "sched_inv (hb_scheduler ?h)"
    unfolding example_done_def using example_running_inv by (simp add: complete_task_inv)
  have run: "ts_completed_tasks example_running = []" by (simp add: example_running_eval)
  have "task_channel ?h (TaskId ''task-0'') = Some (NodeId ''a'', \<lparr>tx_open = True, tx_sent = []\<rparr>)"
    using example_running_get run
    by (simp add: task_channel_def get_task_status_def example_done_def complete_task_def finish_running_def
        hm_get_remove store_completed_task_def evict_completed_def completed_of_def running_of_def example_senders_def
        send_result_def)
  then show ?thesis
    using hub_cancel_effect [OF inv prod.collapse [symmetric], of example_inputs "TaskId ''task-0''" "''late''"]
      example_done_status by (simp add: example_inputs_def)
qed

subsection \<open>Messages of nodes\<close>

text \<open>
  An approval request the Hub has processed is not processed again: the same request id
  within its time to live, from whatever node and with whatever contents, is accepted and neither
  creates another approval nor touches the sessions. (The expiry must fit 64 bits.)
\<close>

theorem approval_request_once:
  assumes a: "hb_approver h = Some a" and ic: "ic_inv (oa_idempotency_cache a)"
    and new: "\<not> fst (check_idempotency (in_unix i) rid (approval_request_ttl_seconds t0 t1) a)"
    and first: "handle_node_message e i n (ApprovalRequestMsg mid rid tid cmd ctx reason t0 t1) h = (res, h1)"
    and fits: "unat (in_unix i) + unat (approval_request_ttl_seconds t0 t1) < 2 ^ 64"
    and early: "unat (in_unix i') < unat (in_unix i) + unat (approval_request_ttl_seconds t0 t1)"
    and second: "handle_node_message e i' n' (ApprovalRequestMsg mid' rid tid' cmd' ctx' reason' t0' t1') h1 = (res', h2)"
  shows "res' = Inr () \<and> hb_runtime h2 = hb_runtime h1 \<and>
    map_option oa_approval_manager (hb_approver h2) = map_option oa_approval_manager (hb_approver h1)"
proof -
  let ?ttl = "approval_request_ttl_seconds t0 t1"
  obtain c where c: "check_or_record (in_unix i) rid ?ttl (oa_idempotency_cache a) = (None, c)"
    using new by (cases "check_or_record (in_unix i) rid ?ttl (oa_idempotency_cache a)")
      (auto simp: check_idempotency_def)
  have "ic_inv c" using ic_step_inv [OF ic ic_check, of "in_unix i" rid ?ttl] c by simp
  obtain a1 v where a1: "hb_approver h1 = Some a1"
      "oa_idempotency_cache a1 = store_response (in_unix i) rid v ?ttl c"
    using first
    by (auto simp: handle_node_message_def should_dispatch_def handle_approval_request_def a check_idempotency_def c
        Let_def store_idempotency_response_def request_approval_def split: prod.splits)
  define d where "d = store_response (in_unix i) rid v ?ttl c"
  have d: "ic_inv d" "hm_get (ic_records d) rid = Some \<lparr>ir_response = v, ir_expires_at = in_unix i + ?ttl\<rparr>"
    using \<open>ic_inv c\<close> ic_step_inv ic_store by (auto simp: d_def store_response_def hm_get_insert)
  have "in_unix i' < in_unix i + ?ttl"
    using early fits by (simp add: word_less_nat_alt unat_add_lem [THEN iffD1])
  then have "fst (check_or_record (in_unix i') rid ttl' d) = Some v" for ttl'
    using d drop_expired_get [OF d(1)] by (simp add: check_or_record_def Let_def)
  then have "fst (check_idempotency (in_unix i') rid ttl' a1)" for ttl'
    using a1(2) by (simp add: check_idempotency_def d_def [symmetric] split: prod.splits) (metis fst_conv option.distinct(1))
  moreover have "oa_approval_manager (snd (check_idempotency now rid ttl' a1)) = oa_approval_manager a1" for now ttl'
    by (simp add: check_idempotency_def split: prod.splits)
  ultimately show ?thesis
    using second
    by (auto simp: handle_node_message_def should_dispatch_def handle_approval_request_def a1(1) Let_def
        split: prod.splits if_splits) (metis fst_conv snd_conv)+
qed

theorem approval_request_once_witness:
  "let msg = ApprovalRequestMsg (MessageId ''m'') ''q1'' (TaskId ''task-0'') (Shell (shell_command_new ''ls''))
               (task_context_new 0 (UserId ''u'') (SessionId ''s'') ''cli'') ''why'' 0 10000000000;
       h1 = snd (handle_node_message example_hub_env example_inputs (NodeId ''a'') msg example_hub);
       h2 = snd (handle_node_message example_hub_env (example_inputs\<lparr>in_unix := 109, in_uuid := ''u2''\<rparr>) (NodeId ''a'') msg h1)
   in map_option oa_approval_manager (hb_approver h2) = map_option oa_approval_manager (hb_approver h1)"
proof -
  let ?a = "operation_approver_new approval_manager_new"
  have a: "hb_approver example_hub = Some ?a"
    by (simp add: example_hub_def hub_new_with_security_def hub_new_with_components_def)
  have ic: "ic_inv (oa_idempotency_cache ?a)"
    by (simp add: operation_approver_new_def idempotency_new_def ic_inv_def)
  have ttl: "approval_request_ttl_seconds 0 10000000000 = 10"
    by (simp add: approval_request_ttl_seconds_def nanos_per_sec_def)
  have new: "\<not> fst (check_idempotency (in_unix example_inputs) ''q1'' (approval_request_ttl_seconds 0 10000000000) ?a)"
    by (simp add: check_idempotency_def check_or_record_def drop_expired_def operation_approver_new_def
        idempotency_new_def hm_retain_def)
  show ?thesis
    unfolding Let_def
    by (rule approval_request_once [OF a ic new prod.collapse [symmetric] _ _ prod.collapse [symmetric],
          THEN conjunct2, THEN conjunct2])
       (simp_all add: ttl example_inputs_def)
qed

text \<open>
  The \<open>Unregister\<close> message takes out the node it names, whichever node sent it; the other
  nodes stay registered.
\<close>

theorem unregister_message_any_node:
  assumes "get_node (hb_nodes h) victim \<noteq> None"
  shows "get_node (hb_nodes (snd (handle_node_message e i n (Unregister mid victim reason) h))) victim = None \<and>
    (\<forall>m. m \<noteq> victim \<longrightarrow> get_node (hb_nodes (snd (handle_node_message e i n (Unregister mid victim reason) h))) m =
       get_node (hb_nodes h) m)"
  using assms
  by (auto simp: handle_node_message_def should_dispatch_def with_nodes_def unregister_node_def get_node_def hm_simps)

theorem unregister_message_any_node_witness:
  "get_node (hb_nodes (snd (handle_node_message example_hub_env example_inputs (NodeId ''intruder'')
     (Unregister (MessageId ''m'') (NodeId ''a'') ''bye'') example_hub))) (NodeId ''a'') = None"
  using unregister_message_any_node [of example_hub "NodeId ''a''"]
  by (simp add: get_node_def example_manager_eval)

subsection \<open>Broadcasts\<close>

lemma broadcast_to_spec:
  assumes "distinct (map ni_node_id is)" and "broadcast_to msg is senders = (reached, senders')"
  shows "reached = length (filter (can_take senders) is) \<and>
    (\<forall>n. hm_get senders' n =
       map_option (\<lambda>tx. if tx_open tx \<and> n \<in> ni_node_id ` set is then tx\<lparr>tx_sent := tx_sent tx @ [msg]\<rparr> else tx)
         (hm_get senders n))"
  using assms
proof (induction "is" arbitrary: senders reached)
  case Nil
  then show ?case by (auto simp: option.map_ident)
next
  case (Cons j "is")
  show ?case
  proof (cases "can_take senders j")
    case False
    then have "broadcast_to msg (j # is) senders = broadcast_to msg is senders"
      by (auto simp: can_take_def mpsc_send_def split: option.splits)
    then have IH: "reached = length (filter (can_take senders) is)" and get: "\<And>n. hm_get senders' n =
       map_option (\<lambda>tx. if tx_open tx \<and> n \<in> ni_node_id ` set is then tx\<lparr>tx_sent := tx_sent tx @ [msg]\<rparr> else tx)
         (hm_get senders n)"
      using Cons by auto
    have "\<not> tx_open tx" if "hm_get senders (ni_node_id j) = Some tx" for tx
      using False that by (simp add: can_take_def)
    then show ?thesis using IH get False by (auto intro!: map_option_cong)
  next
    case True
    then obtain tx where tx: "hm_get senders (ni_node_id j) = Some tx" "tx_open tx"
      by (auto simp: can_take_def split: option.splits)
    let ?senders = "deliver msg (ni_node_id j) senders"
    obtain c where c: "broadcast_to msg is ?senders = (c, senders')" "reached = Suc c"
      using Cons.prems(2) tx by (auto simp: mpsc_send_def deliver_def hm_modify_def split: prod.splits)
    have IH: "c = length (filter (can_take ?senders) is)" and get: "\<And>n. hm_get senders' n =
       map_option (\<lambda>tx. if tx_open tx \<and> n \<in> ni_node_id ` set is then tx\<lparr>tx_sent := tx_sent tx @ [msg]\<rparr> else tx)
         (hm_get ?senders n)"
      using Cons.IH [OF _ c(1)] Cons.prems(1) by auto
    have "hm_get senders' n =
       map_option (\<lambda>tx. if tx_open tx \<and> n \<in> ni_node_id ` set (j # is) then tx\<lparr>tx_sent := tx_sent tx @ [msg]\<rparr> else tx)
         (hm_get senders n)" for n
    proof (cases "n = ni_node_id j")
      case True
      then show ?thesis using Cons.prems(1) tx by (simp add: get deliver_def hm_simps)
    next
      case False
      then show ?thesis by (simp add: get deliver_def hm_simps)
    qed
    then show ?thesis using IH c(2) True by simp
  qed
qed

lemma online_distinct: "nm_inv m \<Longrightarrow> distinct (map ni_node_id (get_online_nodes m))"
proof -
  assume inv: "nm_inv m"
  have "map ni_node_id (hm_values (nm_nodes m)) = hm_keys (nm_nodes m)"
    using nm_invD(1) [OF inv] nm_invD(4) [OF inv] by (auto simp: hm_get_iff)
  then show ?thesis
    using nm_invD(1) [OF inv] by (metis distinct_map_filter get_online_nodes_def)
qed

text \<open>
  A broadcast reaches every online node whose channel takes it exactly once and no other
  node, and the count it returns is the number of nodes it reached.
\<close>

theorem broadcast_exact:
  assumes "nm_inv (hb_nodes h)" and "broadcast msg h = (reached, h')"
  shows "reached = length (filter (can_take (hb_senders h)) (get_online_nodes (hb_nodes h))) \<and>
    (\<forall>n. map_option tx_sent (hm_get (hb_senders h') n) =
       map_option (\<lambda>tx. tx_sent tx @
           (if tx_open tx \<and> n \<in> ni_node_id ` set (get_online_nodes (hb_nodes h)) then [msg] else []))
         (hm_get (hb_senders h) n))"
proof -
  obtain senders' where b: "broadcast_to msg (get_online_nodes (hb_nodes h)) (hb_senders h) = (reached, senders')"
      "hb_senders h' = senders'"
    using assms(2) by (auto simp: broadcast_def split: prod.splits)
  show ?thesis
    using broadcast_to_spec [OF online_distinct [OF assms(1)] b(1)] b(2)
    by (auto simp: option.map_comp o_def intro!: map_option_cong)
qed

theorem broadcast_exact_witness:
  "fst (broadcast (Disconnect (MessageId ''m'') ''bye'' False) example_hub) = 1"
proof -
  have inv: "nm_inv (hb_nodes example_hub)"
    using nm_step_inv [OF nm_inv_new example_manager_step] by simp
  show ?thesis
    using broadcast_exact [OF inv prod.collapse [symmetric], of "Disconnect (MessageId ''m'') ''bye'' False"]
    by (simp add: get_online_nodes_def example_manager_eval example_senders_def can_take_def)
qed

end
