(* ===== verification/Workspace.thy ===== *)
theory Workspace
  imports Protocol Paths
begin

section \<open>The node's workspace (\<^verbatim>\<open>uhorse-node-runtime/src/workspace.rs\<close>)\<close>

text \<open>
  The directory a node may work in: how a path of a command is resolved against the root, and
  when it may be accessed. The file system and the matching of glob patterns (the \<^verbatim>\<open>glob_match\<close>
  package) are parameters, in the record \<open>node_env\<close>. The walk that fills the file index and the
  reading of directories are input and output and are not modelled.
\<close>

datatype workspace_failure =
    PathDoesNotExist path
  | PathNotDirectory path
  | CannotCanonicalizeRoot path
  | CannotResolve path
  | CannotCanonicalizeAncestor path
  | CannotRelativize path
  | MetadataFailed string
  | ReadDirFailed path string

datatype node_error =
    WorkspaceErr workspace_failure
  | PermissionError string
  | ExecutionErr string
  | ConnectionErr string
  | ConfigurationErr string
  | ProtocolErr string
  | IoErr string
  | SerializationErr string
  | TimeoutError string
  | InternalNodeErr string

record node_env =
  ne_fs :: filesystem
  ne_glob :: "string \<Rightarrow> string \<Rightarrow> bool"

record workspace_config =
  wc_name :: string
  wc_root_path :: path
  wc_read_only :: bool
  wc_allowed_patterns :: "string list"
  wc_denied_patterns :: "string list"
  wc_max_file_size :: u64
  wc_allow_symlinks :: bool
  wc_allow_execution :: bool

definition workspace_config_default :: workspace_config where
  "workspace_config_default =
     \<lparr>wc_name = ''default'', wc_root_path = [CurDir], wc_read_only = False,
      wc_allowed_patterns = [''**/*''], wc_denied_patterns = [], wc_max_file_size = 104857600,
      wc_allow_symlinks = False, wc_allow_execution = False\<rparr>"

record workspace =
  ws_config :: workspace_config
  ws_file_index :: "path list"
  ws_last_index_update :: "instant option"
  ws_index_enabled :: bool

definition canonicalize_root :: "filesystem \<Rightarrow> path \<Rightarrow> node_error + path" where
  "canonicalize_root fs p =
     (if \<not> fs_exists fs p then Inl (WorkspaceErr (PathDoesNotExist p))
      else if \<not> fs_is_dir fs p then Inl (WorkspaceErr (PathNotDirectory p))
      else case fs_canonicalize fs p of
             None \<Rightarrow> Inl (WorkspaceErr (CannotCanonicalizeRoot p))
           | Some q \<Rightarrow> Inr q)"

text \<open>\<open>Path::file_name\<close>: the last component when it is a normal one.\<close>

definition file_name :: "path \<Rightarrow> string option" where
  "file_name p = (case rev p of NormalComp n # _ \<Rightarrow> Some n | _ \<Rightarrow> None)"

definition workspace_new :: "filesystem \<Rightarrow> path \<Rightarrow> node_error + workspace" where
  "workspace_new fs p =
     (case canonicalize_root fs p of
        Inl e \<Rightarrow> Inl e
      | Inr rt \<Rightarrow>
          Inr \<lparr>ws_config = workspace_config_default
                 \<lparr>wc_name := (case file_name rt of Some n \<Rightarrow> n | None \<Rightarrow> ''workspace''),
                  wc_root_path := rt\<rparr>,
               ws_file_index = [], ws_last_index_update = None, ws_index_enabled = True\<rparr>)"

definition with_config :: "filesystem \<Rightarrow> workspace_config \<Rightarrow> node_error + workspace" where
  "with_config fs config =
     (case canonicalize_root fs (wc_root_path config) of
        Inl e \<Rightarrow> Inl e
      | Inr rt \<Rightarrow>
          Inr \<lparr>ws_config = config\<lparr>wc_root_path := rt\<rparr>, ws_file_index = [],
               ws_last_index_update = None, ws_index_enabled = True\<rparr>)"

definition update_config :: "filesystem \<Rightarrow> workspace_config \<Rightarrow> workspace \<Rightarrow> node_error + workspace" where
  "update_config fs config w =
     (case canonicalize_root fs (wc_root_path config) of
        Inl e \<Rightarrow> Inl e
      | Inr rt \<Rightarrow>
          Inr (w\<lparr>ws_config := config\<lparr>wc_root_path := rt\<rparr>, ws_file_index := [],
                 ws_last_index_update := None\<rparr>))"

abbreviation ws_root :: "workspace \<Rightarrow> path" where
  "ws_root w \<equiv> wc_root_path (ws_config w)"

subsection \<open>Resolution and access\<close>

definition normalize_existing_aware :: "filesystem \<Rightarrow> path \<Rightarrow> node_error + path" where
  "normalize_existing_aware fs p =
     (case existing_ancestor fs p of
        None \<Rightarrow> Inl (WorkspaceErr (CannotResolve p))
      | Some ancestor \<Rightarrow>
          (case fs_canonicalize fs ancestor of
             None \<Rightarrow> Inl (WorkspaceErr (CannotCanonicalizeAncestor ancestor))
           | Some normalized \<Rightarrow>
               (case strip_prefix p ancestor of
                  None \<Rightarrow> Inl (WorkspaceErr (CannotRelativize p))
                | Some remainder \<Rightarrow> Inr (push_components normalized remainder))))"

definition resolve_path :: "filesystem \<Rightarrow> workspace \<Rightarrow> string \<Rightarrow> node_error + path" where
  "resolve_path fs w s =
     (let p = path_of_string s;
          candidate = (if is_absolute p then p else path_join (ws_root w) p)
      in normalize_existing_aware fs candidate)"

definition workspace_contains :: "filesystem \<Rightarrow> workspace \<Rightarrow> string \<Rightarrow> bool" where
  "workspace_contains fs w s =
     (case resolve_path fs w s of Inl _ \<Rightarrow> False | Inr resolved \<Rightarrow> path_starts_with resolved (ws_root w))"

definition backslash_to_slash :: "string \<Rightarrow> string" where
  "backslash_to_slash s = map (\<lambda>c. if c = CHR 0x5C then CHR ''/'' else c) s"

definition relative_string :: "path \<Rightarrow> path \<Rightarrow> string" where
  "relative_string rt resolved =
     (case strip_prefix resolved rt of
        None \<Rightarrow> ''.''
      | Some [] \<Rightarrow> ''.''
      | Some relative \<Rightarrow> backslash_to_slash (path_to_string relative))"

definition can_access :: "node_env \<Rightarrow> workspace \<Rightarrow> string \<Rightarrow> bool \<Rightarrow> node_error + bool" where
  "can_access e w s wr =
     (case resolve_path (ne_fs e) w s of
        Inl err \<Rightarrow> Inl err
      | Inr resolved \<Rightarrow>
          if \<not> path_starts_with resolved (ws_root w) then Inr False
          else if wr \<and> wc_read_only (ws_config w) then Inr False
          else
            let relative_str = relative_string (ws_root w) resolved
            in if list_ex (\<lambda>pattern. ne_glob e pattern relative_str) (wc_denied_patterns (ws_config w))
               then Inr False
               else if relative_str = ''.'' then Inr True
               else Inr (list_ex (\<lambda>pattern. ne_glob e pattern relative_str)
                          (wc_allowed_patterns (ws_config w))))"

definition can_execute :: "node_env \<Rightarrow> workspace \<Rightarrow> string \<Rightarrow> bool" where
  "can_execute e w s =
     (if \<not> wc_allow_execution (ws_config w) then False
      else case can_access e w s False of Inl _ \<Rightarrow> False | Inr b \<Rightarrow> b)"

definition to_protocol :: "workspace \<Rightarrow> workspace_info" where
  "to_protocol w =
     \<lparr>wi_workspace_id = None, wi_name = wc_name (ws_config w),
      wi_path = path_to_string (ws_root w), wi_read_only = wc_read_only (ws_config w),
      wi_allowed_patterns = wc_allowed_patterns (ws_config w),
      wi_denied_patterns = wc_denied_patterns (ws_config w)\<rparr>"

subsection \<open>Facts\<close>

lemma canonicalize_root_canonical:
  "fs_canonical fs \<Longrightarrow> canonicalize_root fs p = Inr q \<Longrightarrow> canonical q"
  by (auto simp: canonicalize_root_def fs_canonical_def split: if_splits option.splits)

lemma workspace_root_canonical:
  assumes "fs_canonical fs"
  shows "workspace_new fs p = Inr w \<Longrightarrow> canonical (ws_root w)"
    and "with_config fs c = Inr w \<Longrightarrow> canonical (ws_root w)"
    and "update_config fs c w0 = Inr w \<Longrightarrow> canonical (ws_root w)"
  using canonicalize_root_canonical [OF assms]
  by (auto simp: workspace_new_def with_config_def update_config_def split: sum.splits)

lemma wf_path_join: "wf_path p \<Longrightarrow> wf_path q \<Longrightarrow> wf_path (path_join p q)"
  by (auto simp: path_join_def wf_path_def list_all_iff)

lemma normalize_canonical:
  assumes "fs_canonical fs" and "wf_path p" and "normalize_existing_aware fs p = Inr q"
  shows "canonical q"
proof -
  obtain a n r where "existing_ancestor fs p = Some a" "fs_canonicalize fs a = Some n"
      and r: "strip_prefix p a = Some r" and q: "q = push_components n r"
    using assms(3) by (auto simp: normalize_existing_aware_def split: option.splits)
  then have "canonical n" using assms(1) by (auto simp: fs_canonical_def)
  moreover have "wf_path r"
    using r assms(2) by (auto simp: strip_prefix_def wf_path_drop split: if_splits)
  ultimately show ?thesis using q by (simp add: canonical_push_components)
qed

lemma resolve_path_canonical:
  assumes "fs_canonical fs" and "canonical (ws_root w)" and "resolve_path fs w s = Inr q"
  shows "canonical q"
proof -
  have "wf_path (if is_absolute (path_of_string s) then path_of_string s
      else path_join (ws_root w) (path_of_string s))"
    using canonical_wf [OF assms(2)] by (simp add: wf_path_join)
  then show ?thesis
    using assms normalize_canonical by (simp add: resolve_path_def Let_def split: if_splits)
qed

lemma can_access_True:
  assumes "can_access e w s wr = Inr True"
  obtains resolved where "resolve_path (ne_fs e) w s = Inr resolved"
    and "path_starts_with resolved (ws_root w)" and "\<not> (wr \<and> wc_read_only (ws_config w))"
    and "list_all (\<lambda>p. \<not> ne_glob e p (relative_string (ws_root w) resolved)) (wc_denied_patterns (ws_config w))"
    and "relative_string (ws_root w) resolved = ''.'' \<or>
      list_ex (\<lambda>p. ne_glob e p (relative_string (ws_root w) resolved)) (wc_allowed_patterns (ws_config w))"
proof -
  obtain resolved where r: "resolve_path (ne_fs e) w s = Inr resolved"
    using assms by (auto simp: can_access_def split: sum.splits)
  have "list_all (\<lambda>p. \<not> ne_glob e p (relative_string (ws_root w) resolved)) (wc_denied_patterns (ws_config w))"
    using assms r by (auto simp: can_access_def Let_def list_all_iff list_ex_iff split: if_splits)
  then show thesis
    using assms r that by (auto simp: can_access_def Let_def split: if_splits)
qed

text \<open>
  A path a command names is accessible only when it resolves, through symbolic links of the
  part that exists and by components for the rest, to a canonical path (absolute, without
  \<open>.\<close> or \<open>..\<close>) under the workspace root, is not matched by a denied pattern, is matched by an
  allowed one unless it is the root, and is not written in a read-only workspace.
\<close>

theorem can_access_confined:
  assumes "fs_canonical (ne_fs e)" and "canonical (ws_root w)" and "can_access e w s wr = Inr True"
  shows "\<exists>resolved rest. resolve_path (ne_fs e) w s = Inr resolved \<and> canonical resolved \<and>
    resolved = ws_root w @ rest \<and> ParentDir \<notin> set resolved \<and> \<not> (wr \<and> wc_read_only (ws_config w)) \<and>
    list_all (\<lambda>p. \<not> ne_glob e p (relative_string (ws_root w) resolved)) (wc_denied_patterns (ws_config w)) \<and>
    (rest = [] \<or> relative_string (ws_root w) resolved = ''.'' \<or>
     list_ex (\<lambda>p. ne_glob e p (relative_string (ws_root w) resolved)) (wc_allowed_patterns (ws_config w)))"
proof -
  obtain resolved where r: "resolve_path (ne_fs e) w s = Inr resolved"
    "path_starts_with resolved (ws_root w)" "\<not> (wr \<and> wc_read_only (ws_config w))"
    "list_all (\<lambda>p. \<not> ne_glob e p (relative_string (ws_root w) resolved)) (wc_denied_patterns (ws_config w))"
    "relative_string (ws_root w) resolved = ''.'' \<or>
      list_ex (\<lambda>p. ne_glob e p (relative_string (ws_root w) resolved)) (wc_allowed_patterns (ws_config w))"
    using assms(3) by (rule can_access_True)
  have "canonical resolved" using resolve_path_canonical [OF assms(1,2) r(1)] .
  then show ?thesis using r canonical_no_dots by (auto simp: prefix_def)
qed


definition example_node_env :: node_env where
  "example_node_env =
     \<lparr>ne_fs = \<lparr>fs_exists = \<lambda>p. p = [RootDir] \<or> p = [RootDir, NormalComp ''srv''],
               fs_is_dir = \<lambda>_. True, fs_canonicalize = \<lambda>p. if canonical p then Some p else None\<rparr>,
      ne_glob = \<lambda>pattern s. pattern = ''**/*''\<rparr>"

definition example_ws :: workspace where
  "example_ws =
     \<lparr>ws_config = workspace_config_default\<lparr>wc_root_path := [RootDir, NormalComp ''srv'']\<rparr>,
      ws_file_index = [], ws_last_index_update = None, ws_index_enabled = True\<rparr>"

lemma example_node_env_canonical: "fs_canonical (ne_fs example_node_env)"
  by (simp add: fs_canonical_def example_node_env_def)

lemma example_ws_canonical: "canonical (ws_root example_ws)"
  by (simp add: example_ws_def canonical_def valid_name_def)

lemmas access_eval = can_access_def resolve_path_def normalize_existing_aware_def
  existing_ancestor.simps path_of_string_def path_segments_def path_join_def is_absolute_def
  segment_component_def path_parent_def strip_prefix_def push_components_def path_pop_def
  relative_string_def path_to_string_def backslash_to_slash_def workspace_config_default_def
  example_node_env_def example_ws_def Let_def canonical_def valid_name_def

theorem can_access_confined_witness:
  "can_access example_node_env example_ws ''a/../b'' True = Inr True \<and>
   can_access example_node_env example_ws ''a/../../etc'' False = Inr False \<and>
   (\<exists>resolved rest. resolve_path (ne_fs example_node_env) example_ws ''a/../b'' = Inr resolved \<and>
      resolved = ws_root example_ws @ rest)"
proof -
  have ok: "can_access example_node_env example_ws ''a/../b'' True = Inr True"
    by (simp add: access_eval)
  moreover have "can_access example_node_env example_ws ''a/../../etc'' False = Inr False"
    by (simp add: access_eval)
  ultimately show ?thesis
    using can_access_confined [OF example_node_env_canonical example_ws_canonical ok] by blast
qed

end
