(* ===== verification/Permission.thy ===== *)
theory Permission
  imports Workspace
begin

section \<open>Permissions on the node (\<^verbatim>\<open>uhorse-node-runtime/src/permission.rs\<close>)\<close>

text \<open>
  The gate every command of a task passes on the node: confinement to the workspace, the list of
  dangerous git commands, and the rules in descending priority, whose first match decides. Then
  the approvals a rule may ask for: creation, response, expiry. A refusal carries a value with
  one constructor per message of the source. What a condition reads of the wall clock (the time
  as \<open>HH:MM\<close>, the day of the week) is an argument; ids of new approval requests are too.
\<close>

subsection \<open>Rules\<close>

definition DANGEROUS_GIT_PATTERNS :: "string list" where
  "DANGEROUS_GIT_PATTERNS =
     [''git reset --hard'', ''git clean -fd'', ''git clean -f -d'', ''git checkout --'',
      ''git restore --source'', ''git push --force'', ''git push -f'']"

datatype deny_reason =
    OutsideWorkspace string
  | ShellOutsideWorkspace string
  | CodeOutsideWorkspace string
  | WorkspaceFailed node_error
  | DangerousGit string
  | NoMatchingRule

datatype permission_result =
    Allowed
  | Denied deny_reason
  | RequiresApproval string string

datatype action = ActRead | ActWrite | ActDelete | ActExecute | ActAdmin

datatype condition =
    TimeRange string string
  | UserRestriction "string list"
  | SizeLimit u64
  | WeekdayRestriction "u8 list"
  | IpWhitelist "string list"

datatype resource_pattern =
    AllowAll
  | ExactPath string
  | PathPrefix string
  | Glob string
  | Regex string
  | CommandTypes "string list"
  | AllOf "resource_pattern list"
  | AnyOf "resource_pattern list"

record permission_rule =
  pr_id :: string
  pr_name :: string
  pr_description :: "string option"
  pr_resource :: resource_pattern
  pr_actions :: "action list"
  pr_conditions :: "condition list"
  pr_require_approval :: bool
  pr_priority :: int
  pr_enabled :: bool
  pr_created_at :: instant
  pr_updated_at :: instant

definition permission_rule_new :: "instant \<Rightarrow> string \<Rightarrow> string \<Rightarrow> permission_rule" where
  "permission_rule_new now rid name =
     \<lparr>pr_id = rid, pr_name = name, pr_description = None, pr_resource = AllowAll,
      pr_actions = [ActRead], pr_conditions = [], pr_require_approval = False, pr_priority = 0,
      pr_enabled = True, pr_created_at = now, pr_updated_at = now\<rparr>"

text \<open>The wall clock as the conditions read it.\<close>

record wall_clock =
  wl_hhmm :: string
  wl_weekday :: u8

fun condition_evaluate :: "wall_clock \<Rightarrow> task_context \<Rightarrow> condition \<Rightarrow> bool" where
  "condition_evaluate clk ctx (TimeRange start stop) = (start \<le> wl_hhmm clk \<and> wl_hhmm clk \<le> stop)"
| "condition_evaluate clk ctx (UserRestriction allowed) = (user_id_as_str (tc_user_id ctx) \<in> set allowed)"
| "condition_evaluate clk ctx (SizeLimit _) = True"
| "condition_evaluate clk ctx (WeekdayRestriction allowed) = (wl_weekday clk \<in> set allowed)"
| "condition_evaluate clk ctx (IpWhitelist _) = True"

fun command_involves_path :: "command \<Rightarrow> string \<Rightarrow> bool" where
  "command_involves_path (File cmd) target = (target_path cmd = target)"
| "command_involves_path (Shell cmd) target = (sh_cwd cmd = Some target)"
| "command_involves_path (Code cmd) target = (cc_workdir cmd = Some target)"
| "command_involves_path _ target = False"

fun command_path_starts_with :: "command \<Rightarrow> string \<Rightarrow> bool" where
  "command_path_starts_with (File cmd) p = starts_with (target_path cmd) p"
| "command_path_starts_with (Shell cmd) p =
     (case sh_cwd cmd of None \<Rightarrow> False | Some cwd \<Rightarrow> starts_with cwd p)"
| "command_path_starts_with (Code cmd) p =
     (case cc_workdir cmd of None \<Rightarrow> False | Some dir \<Rightarrow> starts_with dir p)"
| "command_path_starts_with _ p = False"

fun command_path_matches_glob :: "node_env \<Rightarrow> command \<Rightarrow> string \<Rightarrow> bool" where
  "command_path_matches_glob e (File cmd) pattern = ne_glob e pattern (target_path cmd)"
| "command_path_matches_glob e _ pattern = False"

fun command_path_contains :: "command \<Rightarrow> string \<Rightarrow> bool" where
  "command_path_contains (File cmd) sub = str_contains (target_path cmd) sub"
| "command_path_contains _ sub = False"

fun resource_matches :: "node_env \<Rightarrow> command \<Rightarrow> resource_pattern \<Rightarrow> bool" where
  "resource_matches e cmd AllowAll = True"
| "resource_matches e cmd (ExactPath p) = command_involves_path cmd p"
| "resource_matches e cmd (PathPrefix p) = command_path_starts_with cmd p"
| "resource_matches e cmd (Glob p) = command_path_matches_glob e cmd p"
| "resource_matches e cmd (Regex p) = command_path_contains cmd p"
| "resource_matches e cmd (CommandTypes types) =
     list_ex (\<lambda>t. to_lowercase t = command_type_name (command_type cmd)) types"
| "resource_matches e cmd (AllOf ps) = list_all (resource_matches e cmd) ps"
| "resource_matches e cmd (AnyOf ps) = list_ex (resource_matches e cmd) ps"

fun file_required_actions :: "file_command \<Rightarrow> action list" where
  "file_required_actions (Read _ _ _) = [ActRead]"
| "file_required_actions (ListDir _ _ _) = [ActRead]"
| "file_required_actions (Search _ _ _ _) = [ActRead]"
| "file_required_actions (Info _) = [ActRead]"
| "file_required_actions (Exists _) = [ActRead]"
| "file_required_actions (Write _ _ _) = [ActWrite]"
| "file_required_actions (Append _ _) = [ActWrite]"
| "file_required_actions (Delete _ _) = [ActDelete]"
| "file_required_actions (Copy _ _ _) = [ActRead, ActWrite]"
| "file_required_actions (Move _ _ _) = [ActRead, ActWrite, ActDelete]"
| "file_required_actions (CreateDir _ _) = [ActWrite]"

fun get_required_actions :: "command \<Rightarrow> action list" where
  "get_required_actions (File cmd) = file_required_actions cmd"
| "get_required_actions _ = [ActExecute]"

definition rule_matches :: "node_env \<Rightarrow> wall_clock \<Rightarrow> command \<Rightarrow> task_context \<Rightarrow> permission_rule \<Rightarrow> bool" where
  "rule_matches e clk cmd ctx rule =
     (if \<not> pr_enabled rule then False
      else if \<not> resource_matches e cmd (pr_resource rule) then False
      else if \<not> list_all (\<lambda>a. a \<in> set (pr_actions rule)) (get_required_actions cmd) then False
      else list_all (condition_evaluate clk ctx) (pr_conditions rule))"

subsection \<open>The manager\<close>

datatype node_approval_status =
    NaPending
  | NaApproved string instant
  | NaRejected string instant string
  | NaExpired

record node_approval_request =
  na_id :: string
  na_task_id :: string
  na_command :: command
  na_context :: task_context
  na_reason :: string
  na_requested_at :: instant
  na_expires_at :: instant
  na_status :: node_approval_status

datatype approval_resolution =
    ResolvedApproved node_approval_request task_id
  | ResolvedRejected node_approval_request task_id

record permission_manager =
  pm_rules :: "permission_rule list"
  pm_workspace :: workspace
  pm_git_protection_enabled :: bool
  pm_pending_approvals :: "(string, node_approval_request) hmap"
  pm_approval_timeout_secs :: u64

definition permission_manager_new :: "workspace \<Rightarrow> bool \<Rightarrow> permission_manager" where
  "permission_manager_new w git =
     \<lparr>pm_rules = [], pm_workspace = w, pm_git_protection_enabled = git,
      pm_pending_approvals = [], pm_approval_timeout_secs = 300\<rparr>"

definition sort_rules :: "permission_rule list \<Rightarrow> permission_rule list" where
  "sort_rules = sort_key (\<lambda>r. - pr_priority r)"

definition add_rule :: "permission_rule \<Rightarrow> permission_manager \<Rightarrow> permission_manager" where
  "add_rule rule m = m\<lparr>pm_rules := sort_rules (pm_rules m @ [rule])\<rparr>"

definition remove_rule :: "string \<Rightarrow> permission_manager \<Rightarrow> bool \<times> permission_manager" where
  "remove_rule rid m =
     (let rules = filter (\<lambda>r. pr_id r \<noteq> rid) (pm_rules m)
      in (length rules < length (pm_rules m), m\<lparr>pm_rules := rules\<rparr>))"

definition replace_rules :: "permission_rule list \<Rightarrow> permission_manager \<Rightarrow> permission_manager" where
  "replace_rules rules m = m\<lparr>pm_rules := sort_rules rules\<rparr>"

definition validate_file_path :: "node_env \<Rightarrow> permission_manager \<Rightarrow> string \<Rightarrow> bool \<Rightarrow> deny_reason option" where
  "validate_file_path e m p wr =
     (case can_access e (pm_workspace m) p wr of
        Inr True \<Rightarrow> None
      | Inr False \<Rightarrow> Some (OutsideWorkspace p)
      | Inl err \<Rightarrow> Some (WorkspaceFailed err))"

definition root_string :: "permission_manager \<Rightarrow> string" where
  "root_string m = path_to_string (ws_root (pm_workspace m))"

definition validate_shell_workspace :: "node_env \<Rightarrow> permission_manager \<Rightarrow> shell_command \<Rightarrow> deny_reason option" where
  "validate_shell_workspace e m cmd =
     (let cwd = (case sh_cwd cmd of Some d \<Rightarrow> d | None \<Rightarrow> root_string m)
      in case can_access e (pm_workspace m) cwd False of
           Inr True \<Rightarrow> None
         | Inr False \<Rightarrow> Some (ShellOutsideWorkspace cwd)
         | Inl err \<Rightarrow> Some (WorkspaceFailed err))"

definition validate_code_workspace :: "node_env \<Rightarrow> permission_manager \<Rightarrow> code_command \<Rightarrow> deny_reason option" where
  "validate_code_workspace e m cmd =
     (let workdir = (case cc_workdir cmd of Some d \<Rightarrow> d | None \<Rightarrow> root_string m)
      in case can_access e (pm_workspace m) workdir False of
           Inr True \<Rightarrow> None
         | Inr False \<Rightarrow> Some (CodeOutsideWorkspace workdir)
         | Inl err \<Rightarrow> Some (WorkspaceFailed err))"

definition or_else :: "'a option \<Rightarrow> 'a option \<Rightarrow> 'a option" where
  "or_else a b = (case a of Some x \<Rightarrow> Some x | None \<Rightarrow> b)"

fun check_file_workspace :: "node_env \<Rightarrow> permission_manager \<Rightarrow> file_command \<Rightarrow> deny_reason option" where
  "check_file_workspace e m (Read path _ _) = validate_file_path e m path False"
| "check_file_workspace e m (ListDir path _ _) = validate_file_path e m path False"
| "check_file_workspace e m (Info path) = validate_file_path e m path False"
| "check_file_workspace e m (Exists path) = validate_file_path e m path False"
| "check_file_workspace e m (Search _ path _ _) = validate_file_path e m path False"
| "check_file_workspace e m (Write path _ _) = validate_file_path e m path True"
| "check_file_workspace e m (Append path _) = validate_file_path e m path True"
| "check_file_workspace e m (Delete path _) = validate_file_path e m path True"
| "check_file_workspace e m (CreateDir path _) = validate_file_path e m path True"
| "check_file_workspace e m (Copy src dst _) =
     or_else (validate_file_path e m src False) (validate_file_path e m dst True)"
| "check_file_workspace e m (Move src dst _) =
     or_else (validate_file_path e m src True) (validate_file_path e m dst True)"

fun check_workspace :: "node_env \<Rightarrow> permission_manager \<Rightarrow> command \<Rightarrow> deny_reason option" where
  "check_workspace e m (File cmd) = check_file_workspace e m cmd"
| "check_workspace e m (Shell cmd) = validate_shell_workspace e m cmd"
| "check_workspace e m (Code cmd) = validate_code_workspace e m cmd"
| "check_workspace e m _ = None"

definition shell_line :: "shell_command \<Rightarrow> string" where
  "shell_line cmd = to_lowercase (join_with '' '' (sh_command cmd # sh_args cmd))"

fun check_git_safety :: "permission_manager \<Rightarrow> command \<Rightarrow> deny_reason option" where
  "check_git_safety m (Shell cmd) =
     (if \<not> pm_git_protection_enabled m then None
      else map_option DangerousGit (find (str_contains (shell_line cmd)) DANGEROUS_GIT_PATTERNS))"
| "check_git_safety m _ = None"

definition permission_check ::
  "node_env \<Rightarrow> wall_clock \<Rightarrow> string \<Rightarrow> permission_manager \<Rightarrow> command \<Rightarrow> task_context \<Rightarrow> permission_result" where
  "permission_check e clk uuid m cmd ctx =
     (case check_workspace e m cmd of
        Some reason \<Rightarrow> Denied reason
      | None \<Rightarrow>
     (case check_git_safety m cmd of
        Some reason \<Rightarrow> Denied reason
      | None \<Rightarrow>
     (case find (rule_matches e clk cmd ctx) (pm_rules m) of
        Some rule \<Rightarrow>
          (if pr_require_approval rule
           then RequiresApproval uuid (''Rule '' @ [CHR 0x27] @ pr_name rule @ [CHR 0x27] @ '' requires approval'')
           else Allowed)
      | None \<Rightarrow> Denied NoMatchingRule)))"

subsection \<open>Approvals\<close>

definition create_approval_request ::
  "instant \<Rightarrow> string \<Rightarrow> string \<Rightarrow> command \<Rightarrow> task_context \<Rightarrow> string \<Rightarrow> permission_manager \<Rightarrow>
   node_approval_request \<times> permission_manager" where
  "create_approval_request now uuid task_id cmd ctx reason m =
     (let request = \<lparr>na_id = uuid, na_task_id = task_id, na_command = cmd, na_context = ctx,
                     na_reason = reason, na_requested_at = now,
                     na_expires_at = now + duration_seconds (pm_approval_timeout_secs m),
                     na_status = NaPending\<rparr>
      in (request, m\<lparr>pm_pending_approvals := hm_insert uuid request (pm_pending_approvals m)\<rparr>))"

definition handle_approval_response ::
  "instant \<Rightarrow> string \<Rightarrow> bool \<Rightarrow> string \<Rightarrow> string option \<Rightarrow> permission_manager \<Rightarrow>
   (node_error + approval_resolution) \<times> permission_manager" where
  "handle_approval_response now rid approved responder reason m =
     (case hm_get (pm_pending_approvals m) rid of
        None \<Rightarrow> (Inl (PermissionError (''Approval request not found: '' @ rid)), m)
      | Some request \<Rightarrow>
          (let m' = m\<lparr>pm_pending_approvals := hm_remove rid (pm_pending_approvals m)\<rparr>;
               tid = TaskId (na_task_id request)
           in if na_expires_at request < now
              then (Inl (PermissionError ''Approval request expired''), m')
              else if approved
              then (Inr (ResolvedApproved (request\<lparr>na_status := NaApproved responder now\<rparr>) tid), m')
              else (Inr (ResolvedRejected (request\<lparr>na_status := NaRejected responder now
                      (case reason of Some r \<Rightarrow> r | None \<Rightarrow> ''No reason provided'')\<rparr>) tid), m')))"

definition get_pending_approvals :: "permission_manager \<Rightarrow> node_approval_request list" where
  "get_pending_approvals m = filter (\<lambda>r. na_status r = NaPending) (hm_values (pm_pending_approvals m))"

definition permission_cleanup :: "instant \<Rightarrow> permission_manager \<Rightarrow> permission_manager" where
  "permission_cleanup now m =
     m\<lparr>pm_pending_approvals :=
         hm_retain (\<lambda>_ r. \<not> (na_status r = NaPending \<and> na_expires_at r < now)) (pm_pending_approvals m)\<rparr>"

definition default_rule :: "instant \<Rightarrow> string \<Rightarrow> string \<Rightarrow> action \<Rightarrow> int \<Rightarrow> permission_rule" where
  "default_rule now rid name act prio =
     permission_rule_new now rid name
       \<lparr>pr_resource := AllowAll, pr_actions := [act], pr_require_approval := False, pr_priority := prio\<rparr>"

definition load_default_rules :: "instant \<Rightarrow> permission_manager \<Rightarrow> permission_manager" where
  "load_default_rules now m =
     add_rule (default_rule now ''default-execute'' ''Allow execution in workspace'' ActExecute 4)
    (add_rule (default_rule now ''default-delete'' ''Allow deleting files in workspace'' ActDelete 3)
    (add_rule (default_rule now ''default-write'' ''Allow writing files in workspace'' ActWrite 2)
    (add_rule (default_rule now ''default-read'' ''Allow reading files in workspace'' ActRead 1) m)))"


subsection \<open>The rules stay sorted\<close>

definition pm_inv :: "permission_manager \<Rightarrow> bool" where
  "pm_inv m \<longleftrightarrow> sorted (map (\<lambda>r. - pr_priority r) (pm_rules m)) \<and> hm_wf (pm_pending_approvals m) \<and>
     (\<forall>rid r. hm_get (pm_pending_approvals m) rid = Some r \<longrightarrow> na_id r = rid \<and> na_status r = NaPending)"

inductive pm_step :: "permission_manager \<Rightarrow> permission_manager \<Rightarrow> bool" where
  pm_add: "pm_step m (add_rule rule m)"
| pm_remove: "pm_step m (snd (remove_rule rid m))"
| pm_replace: "pm_step m (replace_rules rules m)"
| pm_defaults: "pm_step m (load_default_rules now m)"
| pm_create: "pm_step m (snd (create_approval_request now uuid tid cmd ctx reason m))"
| pm_response: "pm_step m (snd (handle_approval_response now rid ok who reason m))"
| pm_clean: "pm_step m (permission_cleanup now m)"

interpretation rule_rank: stable_ranking sort_rules "\<lambda>r. - pr_priority r"
  unfolding sort_rules_def by (rule stable_ranking_sort_key)

lemma add_rule_inv: "pm_inv m \<Longrightarrow> pm_inv (add_rule rule m)"
  by (simp add: pm_inv_def add_rule_def sort_rules_def)

lemma handle_approval_response_inv:
  "pm_inv m \<Longrightarrow> pm_inv (snd (handle_approval_response now rid ok who reason m))"
  by (auto simp: pm_inv_def handle_approval_response_def Let_def hm_get_remove split: option.splits)

lemma permission_cleanup_inv: "pm_inv m \<Longrightarrow> pm_inv (permission_cleanup now m)"
  by (auto simp: pm_inv_def permission_cleanup_def hm_get_retain split: option.splits if_splits)

lemma pm_step_inv: "pm_inv m \<Longrightarrow> pm_step m m' \<Longrightarrow> pm_inv m'"
proof (erule pm_step.cases, goal_cases)
  case (2 n rid)
  then show ?case by (simp add: pm_inv_def remove_rule_def Let_def sorted_filter)
next
  case (5 n now uuid tid cmd ctx reason)
  then show ?case
    by (auto simp: pm_inv_def create_approval_request_def Let_def hm_get_insert split: if_splits)
qed (auto simp: add_rule_inv load_default_rules_def handle_approval_response_inv permission_cleanup_inv,
     simp add: pm_inv_def replace_rules_def sort_rules_def)

interpretation pm: step_system "\<lambda>m. \<exists>w g. m = permission_manager_new w g" pm_step pm_inv
  by unfold_locales (auto simp: permission_manager_new_def pm_inv_def [of "permission_manager_new _ _"]
      intro: pm_step_inv, simp add: pm_inv_def)

subsection \<open>Properties\<close>

text \<open>The first rule that matches has the highest priority among the rules that match.\<close>

lemma first_rule_best:
  assumes "pm_inv m" and "find P (pm_rules m) = Some rule"
  shows "rule \<in> set (pm_rules m)" and "P rule"
    and "r \<in> set (pm_rules m) \<Longrightarrow> P r \<Longrightarrow> pr_priority r \<le> pr_priority rule"
proof -
  have "sort_rules (pm_rules m) = pm_rules m"
    using assms(1) by (simp add: pm_inv_def sort_rules_def sort_key_id_if_sorted)
  then have f: "find P (sort_rules (pm_rules m)) = Some rule" using assms(2) by simp
  show "rule \<in> set (pm_rules m)" "P rule" using rule_rank.first_ranked_some [OF f] by auto
  show "pr_priority r \<le> pr_priority rule" if "r \<in> set (pm_rules m)" "P r"
    using rule_rank.first_ranked_best [OF f that] by simp
qed

text \<open>
  The decision. In every state the manager reaches, a command is allowed exactly when its
  paths are inside the workspace, it is not a dangerous git command, and the matching rule of
  highest priority (the earliest of them) does not ask for approval; when that rule asks for it,
  the answer is that approval is required; in every other case the command is refused.
\<close>

theorem permission_decision:
  assumes "pm_step\<^sup>*\<^sup>* (permission_manager_new w git) m"
  shows "case permission_check e clk uuid m cmd ctx of
      Denied reason \<Rightarrow>
        check_workspace e m cmd = Some reason \<or> check_git_safety m cmd = Some reason \<or>
        (reason = NoMatchingRule \<and> list_all (\<lambda>r. \<not> rule_matches e clk cmd ctx r) (pm_rules m))
    | res \<Rightarrow>
        check_workspace e m cmd = None \<and> check_git_safety m cmd = None \<and>
        (\<exists>rule \<in> set (pm_rules m). rule_matches e clk cmd ctx rule \<and>
           pr_require_approval rule = (res \<noteq> Allowed) \<and>
           list_all (\<lambda>r. pr_priority r \<le> pr_priority rule) (filter (rule_matches e clk cmd ctx) (pm_rules m)))"
proof -
  have inv: "pm_inv m" using assms by (blast intro: pm.reachable_good)
  show ?thesis
  proof (cases "find (rule_matches e clk cmd ctx) (pm_rules m)")
    case None
    then have "list_all (\<lambda>r. \<not> rule_matches e clk cmd ctx r) (pm_rules m)"
      by (simp add: find_None_iff list_all_iff)
    then show ?thesis using None by (simp add: permission_check_def split: option.splits)
  next
    case (Some rule)
    note best = first_rule_best [OF inv Some]
    have "list_all (\<lambda>r. pr_priority r \<le> pr_priority rule) (filter (rule_matches e clk cmd ctx) (pm_rules m))"
      using best(3) by (auto simp: list_all_iff)
    then show ?thesis
      using Some best(1,2) by (auto simp: permission_check_def split: option.splits)
  qed
qed

fun touched_paths :: "file_command \<Rightarrow> (string \<times> bool) list" where
  "touched_paths (Read path _ _) = [(path, False)]"
| "touched_paths (ListDir path _ _) = [(path, False)]"
| "touched_paths (Search _ path _ _) = [(path, False)]"
| "touched_paths (Info path) = [(path, False)]"
| "touched_paths (Exists path) = [(path, False)]"
| "touched_paths (Write path _ _) = [(path, True)]"
| "touched_paths (Append path _) = [(path, True)]"
| "touched_paths (Delete path _) = [(path, True)]"
| "touched_paths (CreateDir path _) = [(path, True)]"
| "touched_paths (Copy src dst _) = [(src, False), (dst, True)]"
| "touched_paths (Move src dst _) = [(src, True), (dst, True)]"

lemma validate_file_path_None:
  "validate_file_path e m p wr = None \<longleftrightarrow> can_access e (pm_workspace m) p wr = Inr True"
  by (auto simp: validate_file_path_def split: sum.splits bool.splits)

lemma or_else_None [simp]: "or_else a b = None \<longleftrightarrow> a = None \<and> b = None"
  by (simp add: or_else_def split: option.splits)

lemma check_file_workspace_None:
  "check_file_workspace e m cmd = None \<longleftrightarrow>
     list_all (\<lambda>(p, wr). can_access e (pm_workspace m) p wr = Inr True) (touched_paths cmd)"
  by (cases cmd) (simp_all add: validate_file_path_None)

text \<open>
  C6: confinement. A file command that is allowed or sent for approval touches, for every path it
  names (the destination of a copy or move too), only a canonical path under the workspace root,
  and writes nothing in a read-only workspace.
\<close>

theorem file_command_confined:
  assumes "fs_canonical (ne_fs e)" and "canonical (ws_root (pm_workspace m))"
    and "permission_check e clk uuid m (File cmd) ctx = Allowed \<or>
      (\<exists>rid reason. permission_check e clk uuid m (File cmd) ctx = RequiresApproval rid reason)"
    and "(p, wr) \<in> set (touched_paths cmd)"
  shows "\<exists>resolved rest. resolve_path (ne_fs e) (pm_workspace m) p = Inr resolved \<and> canonical resolved \<and>
    resolved = ws_root (pm_workspace m) @ rest \<and> \<not> (wr \<and> wc_read_only (ws_config (pm_workspace m)))"
proof -
  have "check_file_workspace e m cmd = None"
    using assms(3) by (auto simp: permission_check_def split: option.splits)
  then have "can_access e (pm_workspace m) p wr = Inr True"
    using assms(4) unfolding check_file_workspace_None list_all_iff by auto
  then obtain resolved where r: "resolve_path (ne_fs e) (pm_workspace m) p = Inr resolved"
    "path_starts_with resolved (ws_root (pm_workspace m))"
    "\<not> (wr \<and> wc_read_only (ws_config (pm_workspace m)))"
    by (rule can_access_True) blast
  then show ?thesis
    using resolve_path_canonical [OF assms(1,2) r(1)] by (auto simp: prefix_def)
qed


definition example_clock :: wall_clock where
  "example_clock = \<lparr>wl_hhmm = ''09:30'', wl_weekday = 1\<rparr>"

definition example_ctx :: task_context where
  "example_ctx = task_context_new 0 (UserId ''u'') (SessionId ''s'') ''cli''"

definition example_pm :: permission_manager where
  "example_pm = load_default_rules 0 (permission_manager_new example_ws True)"

lemma example_pm_step: "pm_step (permission_manager_new example_ws True) example_pm"
  unfolding example_pm_def by (rule pm_defaults)

lemmas permission_eval = permission_check_def rule_matches_def default_rule_def permission_rule_new_def
  load_default_rules_def add_rule_def sort_rules_def permission_manager_new_def

lemma example_pm_allows:
  "permission_check example_node_env example_clock ''id'' example_pm (File (Write ''a/../b'' ''x'' True)) example_ctx =
     Allowed"
proof -
  have "can_access example_node_env example_ws ''a/../b'' True = Inr True"
    by (simp add: access_eval)
  then show ?thesis
    by (simp add: example_pm_def permission_eval validate_file_path_def)
qed

theorem permission_decision_witness:
  "permission_check example_node_env example_clock ''id'' example_pm (File (Write ''a/../b'' ''x'' True)) example_ctx =
     Allowed \<and>
   check_workspace example_node_env example_pm (File (Write ''a/../b'' ''x'' True)) = None"
proof -
  have "pm_step\<^sup>*\<^sup>* (permission_manager_new example_ws True) example_pm" using example_pm_step by blast
  from permission_decision [OF this, where e = example_node_env and clk = example_clock and uuid = "''id''"
      and cmd = "File (Write ''a/../b'' ''x'' True)" and ctx = example_ctx] example_pm_allows
  show ?thesis by simp
qed

theorem file_command_confined_witness:
  "\<exists>resolved rest. resolve_path (ne_fs example_node_env) example_ws ''a/../b'' = Inr resolved \<and>
     canonical resolved \<and> resolved = ws_root example_ws @ rest"
proof -
  have ws: "pm_workspace example_pm = example_ws"
    by (simp add: example_pm_def load_default_rules_def add_rule_def permission_manager_new_def)
  show ?thesis
    using file_command_confined [where e = example_node_env and m = example_pm and clk = example_clock
        and uuid = "''id''" and cmd = "Write ''a/../b'' ''x'' True" and ctx = example_ctx
        and p = "''a/../b''" and wr = True]
      example_node_env_canonical example_ws_canonical example_pm_allows by (auto simp: ws)
qed

text \<open>
  With the default rules, every command inside the workspace that is not a dangerous git
  command is allowed, except that copying and moving a file is always refused: each default rule
  allows a single kind of action, and these two need several at once.
\<close>

theorem default_rules_decision:
  "permission_check e clk uuid (load_default_rules now (permission_manager_new w git)) cmd ctx =
     (case check_workspace e (permission_manager_new w git) cmd of
        Some reason \<Rightarrow> Denied reason
      | None \<Rightarrow>
     (case check_git_safety (permission_manager_new w git) cmd of
        Some reason \<Rightarrow> Denied reason
      | None \<Rightarrow>
     (case cmd of
        File (Copy _ _ _) \<Rightarrow> Denied NoMatchingRule
      | File (Move _ _ _) \<Rightarrow> Denied NoMatchingRule
      | _ \<Rightarrow> Allowed)))"
proof -
  let ?m = "load_default_rules now (permission_manager_new w git)"
  have ws: "pm_workspace ?m = w" "pm_git_protection_enabled ?m = git"
    by (simp_all add: load_default_rules_def add_rule_def permission_manager_new_def)
  have ws0: "pm_workspace (permission_manager_new w git) = w"
    "pm_git_protection_enabled (permission_manager_new w git) = git"
    by (simp_all add: permission_manager_new_def)
  have access: "validate_file_path e ?m = validate_file_path e (permission_manager_new w git)"
    by (intro ext) (simp only: validate_file_path_def ws ws0)
  have roots: "root_string ?m = root_string (permission_manager_new w git)"
    by (simp only: root_string_def ws ws0)
  have files: "check_file_workspace e ?m c = check_file_workspace e (permission_manager_new w git) c" for c
    by (cases c) (simp_all add: access)
  have shells: "validate_shell_workspace e ?m c = validate_shell_workspace e (permission_manager_new w git) c"
    and codes: "validate_code_workspace e ?m d = validate_code_workspace e (permission_manager_new w git) d" for c d
    unfolding validate_shell_workspace_def validate_code_workspace_def ws ws0 roots by simp_all
  have "check_workspace e ?m cmd = check_workspace e (permission_manager_new w git) cmd"
    by (cases cmd) (simp_all add: files shells codes)
  moreover have "check_git_safety ?m cmd = check_git_safety (permission_manager_new w git) cmd"
    by (cases cmd) (simp_all add: ws ws0)
  moreover have "find (rule_matches e clk cmd ctx) (pm_rules ?m) = None \<longleftrightarrow>
      (case cmd of File (Copy _ _ _) \<Rightarrow> True | File (Move _ _ _) \<Rightarrow> True | _ \<Rightarrow> False)"
  proof (cases cmd)
    case (File c)
    then show ?thesis by (cases c) (simp_all add: permission_eval)
  qed (simp_all add: permission_eval)
  moreover have "\<not> pr_require_approval rule"
    if "find (rule_matches e clk cmd ctx) (pm_rules ?m) = Some rule" for rule
  proof -
    have "rule \<in> set (pm_rules ?m)" using that by (metis find_Some_iff nth_mem)
    then show ?thesis by (auto simp: permission_eval)
  qed
  ultimately show ?thesis
    by (auto simp: permission_check_def [of e clk uuid ?m] split: option.splits command.splits file_command.splits)
qed

text \<open>
  An approval is answered once. A response to a request that was created for a task, not
  later than its expiry, resolves to that task with the requested command and the outcome the
  responder gave; any later response is an error; after the expiry every response is an error.
\<close>

theorem approval_response_once:
  assumes "pm_inv m" and "create_approval_request now uuid tid cmd ctx reason m = (r, m1)"
    and "handle_approval_response t uuid ok who why m1 = (res, m2)"
  shows "(case res of
       Inr (ResolvedApproved r' task) \<Rightarrow> ok \<and> t \<le> na_expires_at r \<and> task = TaskId tid \<and> na_command r' = cmd \<and>
         na_status r' = NaApproved who t
     | Inr (ResolvedRejected r' task) \<Rightarrow> \<not> ok \<and> t \<le> na_expires_at r \<and> task = TaskId tid \<and> na_command r' = cmd
     | Inl err \<Rightarrow> na_expires_at r < t \<and> err = PermissionError ''Approval request expired'') \<and>
    handle_approval_response t' uuid ok' who' why' m2 =
      (Inl (PermissionError (''Approval request not found: '' @ uuid)), m2)"
proof -
  have r: "r = \<lparr>na_id = uuid, na_task_id = tid, na_command = cmd, na_context = ctx, na_reason = reason,
      na_requested_at = now, na_expires_at = now + duration_seconds (pm_approval_timeout_secs m),
      na_status = NaPending\<rparr>"
    and m1: "m1 = m\<lparr>pm_pending_approvals := hm_insert uuid r (pm_pending_approvals m)\<rparr>"
    using assms(2) by (auto simp: create_approval_request_def Let_def)
  have get: "hm_get (pm_pending_approvals m1) uuid = Some r" by (simp add: m1 hm_get_insert)
  have "pm_pending_approvals m2 = hm_remove uuid (pm_pending_approvals m1)"
    using assms(3) get by (auto simp: handle_approval_response_def Let_def split: if_splits)
  then have "hm_get (pm_pending_approvals m2) uuid = None" by (simp add: hm_get_remove)
  then have "handle_approval_response t' uuid ok' who' why' m2 =
      (Inl (PermissionError (''Approval request not found: '' @ uuid)), m2)"
    by (simp add: handle_approval_response_def)
  moreover have "res = (if na_expires_at r < t then Inl (PermissionError ''Approval request expired'')
      else if ok then Inr (ResolvedApproved (r\<lparr>na_status := NaApproved who t\<rparr>) (TaskId (na_task_id r)))
      else Inr (ResolvedRejected (r\<lparr>na_status := NaRejected who t
        (case why of Some x \<Rightarrow> x | None \<Rightarrow> ''No reason provided'')\<rparr>) (TaskId (na_task_id r))))"
    using assms(3) get by (auto simp: handle_approval_response_def Let_def split: if_splits)
  ultimately show ?thesis by (auto simp: r)
qed

theorem approval_response_once_witness:
  "\<exists>r m2. handle_approval_response 5 ''a1'' True ''bob'' None
       (snd (create_approval_request 0 ''a1'' ''task-0'' (File (Info ''x'')) example_ctx ''why'' example_pm)) =
       (Inr (ResolvedApproved r (TaskId ''task-0'')), m2) \<and>
     fst (handle_approval_response 6 ''a1'' True ''bob'' None m2) =
       Inl (PermissionError ''Approval request not found: a1'')"
proof -
  let ?c = "create_approval_request 0 ''a1'' ''task-0'' (File (Info ''x'')) example_ctx ''why'' example_pm"
  let ?h = "handle_approval_response 5 ''a1'' True ''bob'' None (snd ?c)"
  have inv: "pm_inv example_pm"
    using example_pm_step by (blast intro: pm.reachable_good)
  have "na_expires_at (fst ?c) = 300000000000"
    by (simp add: create_approval_request_def Let_def example_pm_def load_default_rules_def add_rule_def
        permission_manager_new_def duration_seconds_def nanos_per_sec_def)
  then show ?thesis
    using approval_response_once [OF inv prod.collapse [symmetric, of ?c] prod.collapse [symmetric, of ?h],
        of 6 True "''bob''" None]
    by (cases "fst ?h") (auto split: approval_resolution.splits simp: prod_eq_iff)
qed

text \<open>
  Git protection looks for fixed substrings. With protection on, a shell command whose
  lower-cased line contains one of the patterns is refused whatever the rules; a force push that
  names its remote before the flag does not contain any of them and passes this check.
\<close>

theorem git_protection:
  "(\<forall>cmd pattern a b. pm_git_protection_enabled m \<and> pattern \<in> set DANGEROUS_GIT_PATTERNS \<and>
      shell_line cmd = a @ pattern @ b \<longrightarrow>
      (\<exists>reason. permission_check e clk uuid m (Shell cmd) ctx = Denied reason)) \<and>
   check_git_safety m (Shell (shell_command_new ''git''
     \<lparr>sh_args := [''push'', ''origin'', ''main'', ''--force'']\<rparr>)) = None"
proof (intro conjI allI impI)
  fix cmd pattern a b
  assume h: "pm_git_protection_enabled m \<and> pattern \<in> set DANGEROUS_GIT_PATTERNS \<and>
    shell_line cmd = a @ pattern @ b"
  then have "str_contains (shell_line cmd) pattern" unfolding str_contains_iff by blast
  then have "find (str_contains (shell_line cmd)) DANGEROUS_GIT_PATTERNS \<noteq> None"
    using h by (auto simp: find_None_iff)
  then show "\<exists>reason. permission_check e clk uuid m (Shell cmd) ctx = Denied reason"
    using h by (auto simp: permission_check_def split: option.splits)
next
  have "find (str_contains (shell_line (shell_command_new ''git''
      \<lparr>sh_args := [''push'', ''origin'', ''main'', ''--force'']\<rparr>))) DANGEROUS_GIT_PATTERNS = None"
    by (simp add: shell_line_def shell_command_new_def to_lowercase_def char_lower_def
        DANGEROUS_GIT_PATTERNS_def)
  then show "check_git_safety m (Shell (shell_command_new ''git''
     \<lparr>sh_args := [''push'', ''origin'', ''main'', ''--force'']\<rparr>)) = None" by simp
qed

theorem git_protection_witness:
  "\<exists>reason. permission_check example_node_env example_clock ''u'' (example_pm\<lparr>pm_git_protection_enabled := True\<rparr>)
     (Shell (shell_command_new ''git push --force'')) example_ctx = Denied reason"
proof -
  have line: "shell_line (shell_command_new ''git push --force'') = [] @ ''git push --force'' @ []"
    by (simp add: shell_line_def shell_command_new_def to_lowercase_def char_lower_def)
  have "''git push --force'' \<in> set DANGEROUS_GIT_PATTERNS" by (simp add: DANGEROUS_GIT_PATTERNS_def)
  then show ?thesis
    using git_protection [of "example_pm\<lparr>pm_git_protection_enabled := True\<rparr>" example_node_env example_clock
        "''u''" example_ctx, THEN conjunct1, rule_format, OF conjI [OF _ conjI [OF _ line]]] by simp
qed

end
