(* ===== verification/Disk.thy ===== *)
theory Disk
  imports Workspace
begin

section \<open>A disk and the file operations of \<^verbatim>\<open>std::fs\<close>\<close>

text \<open>
  The files a node's commands work on: a map from canonical paths to files and directories, without
  symbolic links (the resolution of links is the parameter of \<open>Workspace\<close>). The operations are those
  of \<^verbatim>\<open>std::fs\<close> the node runtime calls, with the errors they report on Linux; a disk induces the
  file system \<open>disk_fs\<close> the workspace resolves paths in. A file's content is its bytes.
\<close>

datatype disk_entry = DiskFile string | DiskDir

type_synonym disk = "(path, disk_entry) hmap"

datatype io_error =
    NotFound
  | AlreadyExists
  | NotADirectory
  | IsADirectory
  | DirectoryNotEmpty
  | InvalidInput
  | InvalidData
  | NotRegularFile
  | ResourceBusy

subsection \<open>Resolution\<close>

fun disk_walk :: "disk \<Rightarrow> path \<Rightarrow> path \<Rightarrow> path option" where
  "disk_walk d cur [] = Some cur"
| "disk_walk d cur (c # cs) =
     (if hm_get d cur \<noteq> Some DiskDir then None
      else (case c of
              NormalComp n \<Rightarrow>
                if hm_contains d (cur @ [c]) then disk_walk d (cur @ [c]) cs else None
            | ParentDir \<Rightarrow> disk_walk d (path_pop cur) cs
            | _ \<Rightarrow> disk_walk d cur cs))"

definition disk_resolve :: "disk \<Rightarrow> path \<Rightarrow> path option" where
  "disk_resolve d p =
     (case p of
        RootDir # cs \<Rightarrow> if hm_get d [RootDir] = Some DiskDir then disk_walk d [RootDir] cs else None
      | _ \<Rightarrow> None)"

definition disk_fs :: "disk \<Rightarrow> filesystem" where
  "disk_fs d =
     \<lparr>fs_exists = (\<lambda>p. disk_resolve d p \<noteq> None),
      fs_is_dir = (\<lambda>p. case disk_resolve d p of Some q \<Rightarrow> hm_get d q = Some DiskDir | None \<Rightarrow> False),
      fs_canonicalize = disk_resolve d\<rparr>"

subsection \<open>Operations\<close>

definition is_file_entry :: "disk_entry option \<Rightarrow> bool" where
  "is_file_entry e = (case e of Some (DiskFile _) \<Rightarrow> True | _ \<Rightarrow> False)"

text \<open>The error for a path that is not there: a component on the way may be a file.\<close>

definition missing :: "disk \<Rightarrow> path \<Rightarrow> io_error" where
  "missing d p =
     (if list_ex (\<lambda>n. is_file_entry (hm_get d (take n p))) [0..<length p] then NotADirectory else NotFound)"

definition fs_read :: "disk \<Rightarrow> path \<Rightarrow> io_error + string" where
  "fs_read d p =
     (case hm_get d p of
        Some (DiskFile content) \<Rightarrow> Inr content
      | Some DiskDir \<Rightarrow> Inl IsADirectory
      | None \<Rightarrow> Inl (missing d p))"

text \<open>What an operation reports, and the disk it leaves.\<close>

definition put_file :: "disk \<Rightarrow> path \<Rightarrow> string \<Rightarrow> io_error option \<times> disk" where
  "put_file d p content =
     (if hm_get d p = Some DiskDir then (Some IsADirectory, d)
      else if p = [] \<or> hm_get d (butlast p) \<noteq> Some DiskDir then (Some (missing d p), d)
      else (None, hm_insert p (DiskFile content) d))"

definition fs_write :: "disk \<Rightarrow> path \<Rightarrow> string \<Rightarrow> io_error option \<times> disk" where
  "fs_write d p content = put_file d p content"

definition file_content :: "disk \<Rightarrow> path \<Rightarrow> string" where
  "file_content d p = (case hm_get d p of Some (DiskFile c) \<Rightarrow> c | _ \<Rightarrow> [])"

definition fs_append :: "disk \<Rightarrow> path \<Rightarrow> string \<Rightarrow> io_error option \<times> disk" where
  "fs_append d p content = put_file d p (file_content d p @ content)"

definition fs_create_dir :: "disk \<Rightarrow> path \<Rightarrow> io_error option \<times> disk" where
  "fs_create_dir d p =
     (if hm_contains d p then (Some AlreadyExists, d)
      else if p = [] \<or> hm_get d (butlast p) \<noteq> Some DiskDir then (Some (missing d p), d)
      else (None, hm_insert p DiskDir d))"

fun create_dirs :: "disk \<Rightarrow> path \<Rightarrow> path \<Rightarrow> io_error option \<times> disk" where
  "create_dirs d cur [] = (None, d)"
| "create_dirs d cur (c # cs) =
     (case hm_get d (cur @ [c]) of
        Some DiskDir \<Rightarrow> create_dirs d (cur @ [c]) cs
      | Some (DiskFile _) \<Rightarrow> (Some (if cs = [] then AlreadyExists else NotADirectory), d)
      | None \<Rightarrow> create_dirs (hm_insert (cur @ [c]) DiskDir d) (cur @ [c]) cs)"

definition fs_create_dir_all :: "disk \<Rightarrow> path \<Rightarrow> io_error option \<times> disk" where
  "fs_create_dir_all d p = create_dirs d [] p"

definition fs_remove_file :: "disk \<Rightarrow> path \<Rightarrow> io_error option \<times> disk" where
  "fs_remove_file d p =
     (case hm_get d p of
        Some (DiskFile _) \<Rightarrow> (None, hm_remove p d)
      | Some DiskDir \<Rightarrow> (Some IsADirectory, d)
      | None \<Rightarrow> (Some (missing d p), d))"

definition below :: "path \<Rightarrow> path \<Rightarrow> bool" where
  "below p k = strict_prefix p k"

definition fs_remove_dir :: "disk \<Rightarrow> path \<Rightarrow> io_error option \<times> disk" where
  "fs_remove_dir d p =
     (case hm_get d p of
        Some DiskDir \<Rightarrow>
          if list_ex (below p) (hm_keys d) then (Some DirectoryNotEmpty, d)
          else if p = [RootDir] then (Some ResourceBusy, d)
          else (None, hm_remove p d)
      | Some (DiskFile _) \<Rightarrow> (Some NotADirectory, d)
      | None \<Rightarrow> (Some (missing d p), d))"

definition fs_remove_dir_all :: "disk \<Rightarrow> path \<Rightarrow> io_error option \<times> disk" where
  "fs_remove_dir_all d p =
     (case hm_get d p of
        Some DiskDir \<Rightarrow>
          if p = [RootDir] then (Some ResourceBusy, hm_retain (\<lambda>k _. \<not> below p k) d)
          else (None, hm_retain (\<lambda>k _. \<not> prefix p k) d)
      | Some (DiskFile _) \<Rightarrow> (Some NotADirectory, d)
      | None \<Rightarrow> (Some (missing d p), d))"

text \<open>
  \<^verbatim>\<open>std::fs::copy\<close> with the number of bytes copied. The destination is truncated when it is opened, so
  a file copied to itself is emptied, as the library documents.
\<close>

definition fs_copy :: "disk \<Rightarrow> path \<Rightarrow> path \<Rightarrow> (io_error + nat) \<times> disk" where
  "fs_copy d src dst =
     (case hm_get d src of
        None \<Rightarrow> (Inl (missing d src), d)
      | Some DiskDir \<Rightarrow> (Inl NotRegularFile, d)
      | Some (DiskFile content) \<Rightarrow>
          (let copied = (if src = dst then [] else content)
           in case put_file d dst copied of
                (Some err, d') \<Rightarrow> (Inl err, d')
              | (None, d') \<Rightarrow> (Inr (length copied), d')))"

definition move_key :: "path \<Rightarrow> path \<Rightarrow> path \<Rightarrow> path" where
  "move_key src dst k = (if prefix src k then dst @ drop (length src) k else k)"

definition move_tree :: "path \<Rightarrow> path \<Rightarrow> disk \<Rightarrow> disk" where
  "move_tree src dst d = map (\<lambda>(k, v). (move_key src dst k, v)) (hm_remove dst d)"

definition fs_rename :: "disk \<Rightarrow> path \<Rightarrow> path \<Rightarrow> io_error option \<times> disk" where
  "fs_rename d src dst =
     (case hm_get d src of
        None \<Rightarrow> (Some (missing d src), d)
      | Some entry \<Rightarrow>
          if src = dst then (None, d)
          else if strict_prefix src dst then (Some InvalidInput, d)
          else if dst = [] \<or> hm_get d (butlast dst) \<noteq> Some DiskDir then (Some (missing d dst), d)
          else (case (entry, hm_get d dst) of
                  (DiskFile _, Some DiskDir) \<Rightarrow> (Some IsADirectory, d)
                | (DiskDir, Some (DiskFile _)) \<Rightarrow> (Some NotADirectory, d)
                | (DiskDir, Some DiskDir) \<Rightarrow>
                    if list_ex (below dst) (hm_keys d) then (Some DirectoryNotEmpty, d)
                    else (None, move_tree src dst d)
                | _ \<Rightarrow> (None, move_tree src dst d)))"

definition child_name :: "path \<Rightarrow> path \<Rightarrow> string option" where
  "child_name p k =
     (case rev k of
        NormalComp n # r \<Rightarrow> if rev r = p then Some n else None
      | _ \<Rightarrow> None)"

definition fs_read_dir :: "disk \<Rightarrow> path \<Rightarrow> io_error + string list" where
  "fs_read_dir d p =
     (case disk_resolve d p of
        None \<Rightarrow> Inl (missing d p)
      | Some q \<Rightarrow>
          if hm_get d q = Some DiskDir then Inr (List.map_filter (child_name q) (hm_keys d))
          else Inl NotADirectory)"

subsection \<open>Well formed disks\<close>

text \<open>Entries have canonical paths, and every entry but the root lies in a directory.\<close>

definition disk_ok :: "disk \<Rightarrow> bool" where
  "disk_ok d =
     (hm_wf d \<and> hm_get d [RootDir] = Some DiskDir
      \<and> list_all (\<lambda>k. canonical k \<and> (k = [RootDir] \<or> hm_get d (butlast k) = Some DiskDir)) (hm_keys d))"

lemma disk_okD:
  assumes "disk_ok d" and "hm_get d k = Some v"
  shows "canonical k" and "k = [RootDir] \<or> hm_get d (butlast k) = Some DiskDir"
  using assms hm_get_SomeD [of d k v] by (auto simp: disk_ok_def list_all_iff)

lemma disk_ok_root: "disk_ok d \<Longrightarrow> hm_get d [RootDir] = Some DiskDir"
  by (simp add: disk_ok_def)

lemma disk_ok_wf: "disk_ok d \<Longrightarrow> hm_wf d"
  by (simp add: disk_ok_def)

lemma disk_okI:
  assumes "hm_wf d" and "hm_get d [RootDir] = Some DiskDir"
    and "\<And>k v. hm_get d k = Some v \<Longrightarrow> canonical k \<and> (k = [RootDir] \<or> hm_get d (butlast k) = Some DiskDir)"
  shows "disk_ok d"
proof -
  have "hm_get d k \<noteq> None" if "k \<in> set (hm_keys d)" for k
    using that by (simp add: map_of_eq_None_iff)
  then show ?thesis using assms by (fastforce simp: disk_ok_def list_all_iff)
qed

lemma canonical_snoc: "canonical (p @ [c]) \<longleftrightarrow> (p = [] \<and> c = RootDir) \<or> (canonical p \<and> is_normal c)"
  by (cases p) (auto simp: canonical_def split: component.splits)

lemma canonical_prefix: "canonical (p @ q) \<Longrightarrow> p \<noteq> [] \<Longrightarrow> canonical p"
  by (cases p) (auto simp: canonical_def split: component.splits)

text \<open>Every prefix of an entry's path is a directory.\<close>

lemma disk_ok_prefix:
  assumes "disk_ok d" and "hm_get d (p @ q) = Some v" and "p \<noteq> []" and "q \<noteq> []"
  shows "hm_get d p = Some DiskDir"
  using assms(2-4)
proof (induction q arbitrary: v rule: rev_induct)
  case (snoc c q)
  have "p @ q @ [c] \<noteq> [RootDir]" using snoc.prems(2) by (cases p) auto
  then have "hm_get d (p @ q) = Some DiskDir" using disk_okD(2) [OF assms(1) snoc.prems(1)] by (auto simp: butlast_append)
  then show ?case using snoc.IH snoc.prems(2) by (cases "q = []") auto
qed simp

lemma pop_entry:
  assumes "disk_ok d" and "hm_contains d cur"
  shows "hm_contains d (path_pop cur)"
proof -
  obtain v where v: "hm_get d cur = Some v" using assms(2) by (auto simp: hm_contains_def)
  show ?thesis
  proof (cases "cur = [] \<or> last cur = RootDir")
    case True
    then show ?thesis using assms(2) by (auto simp: path_pop_def path_parent_def)
  next
    case False
    then have "hm_get d (butlast cur) = Some DiskDir" using disk_okD(2) [OF assms(1) v] by auto
    then show ?thesis using False by (simp add: path_pop_def path_parent_def hm_contains_def)
  qed
qed

lemma disk_walk_sound:
  assumes "disk_ok d"
  shows "disk_walk d cur cs = Some q \<Longrightarrow> hm_contains d cur \<Longrightarrow> hm_contains d q"
proof (induction cs arbitrary: cur)
  case (Cons c cs)
  then show ?case
    using pop_entry [OF assms, of cur] Cons.IH
    by (cases c) (auto split: if_splits)
qed simp

lemma disk_resolve_sound: "disk_ok d \<Longrightarrow> disk_resolve d p = Some q \<Longrightarrow> hm_contains d q"
  using disk_walk_sound [of d "[RootDir]"]
  by (auto simp: disk_resolve_def hm_contains_def split: list.splits component.splits if_splits)

lemma disk_fs_canonical:
  assumes "disk_ok d"
  shows "fs_canonical (disk_fs d)"
  using disk_resolve_sound [OF assms] disk_okD(1) [OF assms]
  by (fastforce simp: fs_canonical_def disk_fs_def hm_contains_def)

lemma disk_walk_normal: "disk_walk d cur cs = Some q \<Longrightarrow> list_all is_normal cs \<Longrightarrow> q = cur @ cs"
proof (induction cs arbitrary: cur)
  case (Cons c cs)
  obtain n where n: "c = NormalComp n" using Cons.prems(2) by (cases c) auto
  then have "disk_walk d (cur @ [c]) cs = Some q" using Cons.prems(1) by (auto split: if_splits)
  then have "q = (cur @ [c]) @ cs" using Cons.IH [of "cur @ [c]"] Cons.prems(2) by auto
  then show ?case by simp
qed simp

lemma disk_walk_entry:
  assumes "disk_ok d" and "hm_contains d (cur @ cs)" and "canonical cur" and "list_all is_normal cs"
  shows "disk_walk d cur cs = Some (cur @ cs)"
  using assms(2-4)
proof (induction cs arbitrary: cur)
  case (Cons c cs)
  obtain v where v: "hm_get d (cur @ c # cs) = Some v" using Cons.prems(1) by (auto simp: hm_contains_def)
  have ne: "cur \<noteq> []" using Cons.prems(2) by (auto simp: canonical_def)
  then have dir: "hm_get d cur = Some DiskDir" using disk_ok_prefix [OF assms(1) v] by simp
  obtain n where n: "c = NormalComp n" using Cons.prems(3) by (cases c) auto
  have "hm_contains d (cur @ [c])"
  proof (cases "cs = []")
    case False
    then show ?thesis using disk_ok_prefix [OF assms(1), of "cur @ [c]" cs] v by (simp add: hm_contains_def)
  qed (use Cons.prems(1) in simp)
  moreover have "canonical (cur @ [c])" using Cons.prems(2,3) by (simp add: canonical_snoc)
  ultimately show ?case using Cons.IH [of "cur @ [c]"] Cons.prems dir n by simp
qed simp

text \<open>A canonical path resolves to itself when it is there.\<close>

lemma disk_resolve_canonical:
  assumes "disk_ok d" and "canonical p"
  shows "disk_resolve d p = (if hm_contains d p then Some p else None)"
proof -
  obtain cs where p: "p = RootDir # cs" "list_all is_normal cs" using assms(2) by (auto simp: canonical_Cons)
  have r: "disk_resolve d p = disk_walk d [RootDir] cs"
    using p disk_ok_root [OF assms(1)] by (simp add: disk_resolve_def)
  have root: "hm_contains d [RootDir]" using disk_ok_root [OF assms(1)] by (simp add: hm_contains_def)
  show ?thesis
  proof (cases "hm_contains d p")
    case True
    then show ?thesis using r disk_walk_entry [OF assms(1), of "[RootDir]" cs] p by (simp add: canonical_def)
  next
    case False
    then have "disk_walk d [RootDir] cs = None"
      using disk_walk_normal [OF _ p(2), of d "[RootDir]"] disk_walk_sound [OF assms(1), of "[RootDir]" cs] root p
      by (cases "disk_walk d [RootDir] cs") auto
    then show ?thesis using r False by simp
  qed
qed

lemma push_normal: "list_all is_normal cs \<Longrightarrow> push_components p cs = p @ cs"
proof (induction cs arbitrary: p)
  case (Cons c cs)
  then show ?case by (cases c) (auto simp: push_components_def)
qed (simp add: push_components_def)

lemma canonical_drop: "canonical p \<Longrightarrow> n > 0 \<Longrightarrow> list_all is_normal (drop n p)"
  by (cases n) (use in_set_dropD in \<open>fastforce simp: canonical_Cons list_all_iff\<close>)+

lemma normalize_canonical_id:
  assumes "disk_ok d" and "canonical p"
  shows "normalize_existing_aware (disk_fs d) p = Inr p"
proof -
  have cs: "is_absolute p" "RootDir \<notin> set (tl p)"
    using assms(2) by (force simp: canonical_Cons is_absolute_def list_all_iff)+
  moreover have "fs_exists (disk_fs d) [RootDir]"
    using disk_ok_root [OF assms(1)] by (simp add: disk_fs_def disk_resolve_def)
  ultimately obtain a where a: "existing_ancestor (disk_fs d) p = Some a"
    using existing_ancestor_absolute by blast
  obtain r where r: "p = a @ r" and ex: "fs_exists (disk_fs d) a"
    using existing_ancestor_sound [OF a] by (auto simp: prefix_def)
  have ne: "a \<noteq> []" using ex by (auto simp: disk_fs_def disk_resolve_def)
  then have can: "canonical a" using assms(2) r canonical_prefix by blast
  then have "disk_resolve d a = Some a"
    using ex disk_resolve_canonical [OF assms(1) can] by (auto simp: disk_fs_def split: if_splits)
  moreover have "list_all is_normal r" using canonical_drop [OF assms(2), of "length a"] r ne by simp
  ultimately show ?thesis
    using a r by (simp add: normalize_existing_aware_def strip_prefix_ancestor disk_fs_def push_normal)
qed

lemma resolve_path_id:
  assumes "disk_ok d" and "canonical p"
  shows "resolve_path (disk_fs d) w (path_to_string p) = Inr p"
proof -
  have "is_absolute p" using canonical_absolute [OF assms(2)] .
  then show ?thesis
    using normalize_canonical_id [OF assms] path_string_roundtrip [OF assms(2)] by (simp add: resolve_path_def Let_def)
qed

subsection \<open>What the operations keep\<close>

text \<open>
  The entries outside the subtree of a path are the same on both disks.
\<close>

definition same_outside :: "path \<Rightarrow> disk \<Rightarrow> disk \<Rightarrow> bool" where
  "same_outside p d d' =
     list_all (\<lambda>k. prefix p k \<or> hm_get d' k = hm_get d k) (hm_keys d @ hm_keys d')"

lemma same_outside_iff: "same_outside p d d' \<longleftrightarrow> (\<forall>k. \<not> prefix p k \<longrightarrow> hm_get d' k = hm_get d k)"
proof -
  have "hm_get d' k = hm_get d k" if "k \<notin> set (hm_keys d @ hm_keys d')" for k
    using that map_of_eq_None_iff by (metis UnCI image_set set_append)
  then show ?thesis unfolding same_outside_def list_all_iff by blast
qed

lemma same_outside_refl [simp]: "same_outside p d d"
  by (simp add: same_outside_iff)

lemma same_outside_trans: "same_outside p d1 d2 \<Longrightarrow> same_outside p d2 d3 \<Longrightarrow> same_outside p d1 d3"
  by (simp add: same_outside_iff)

lemma same_outside_wider: "same_outside q d d' \<Longrightarrow> prefix p q \<Longrightarrow> same_outside p d d'"
  using prefix_order.trans by (fastforce simp: same_outside_iff)

lemma canonical_ne: "canonical p \<Longrightarrow> p \<noteq> []"
  by (auto simp: canonical_def)

lemma disk_ok_insert:
  assumes "disk_ok d" and "canonical p" and "p = [RootDir] \<or> hm_get d (butlast p) = Some DiskDir"
    and "v = DiskDir \<or> hm_get d p \<noteq> Some DiskDir"
  shows "disk_ok (hm_insert p v d)"
proof (rule disk_okI)
  have p: "p \<noteq> [RootDir]" if "v \<noteq> DiskDir" using that assms(4) disk_ok_root [OF assms(1)] by auto
  show "hm_wf (hm_insert p v d)" using disk_ok_wf [OF assms(1)] by (simp add: hm_simps)
  show "hm_get (hm_insert p v d) [RootDir] = Some DiskDir"
    using disk_ok_root [OF assms(1)] p by (auto simp: hm_get_insert)
  fix k w assume k: "hm_get (hm_insert p v d) k = Some w"
  have stays: "hm_get (hm_insert p v d) q = Some DiskDir" if "hm_get d q = Some DiskDir" for q
    using that assms(4) by (auto simp: hm_get_insert)
  show "canonical k \<and> (k = [RootDir] \<or> hm_get (hm_insert p v d) (butlast k) = Some DiskDir)"
  proof (cases "k = p")
    case True
    then show ?thesis using assms(2,3) stays by blast
  next
    case False
    then have "hm_get d k = Some w" using k by (simp add: hm_get_insert)
    then show ?thesis using disk_okD [OF assms(1)] stays by blast
  qed
qed

lemma put_file_ok:
  assumes "disk_ok d" and "canonical p"
  shows "disk_ok (snd (put_file d p c))"
  using assms disk_ok_insert [OF assms, of "DiskFile c"] by (simp add: put_file_def)

lemma put_file_outside: "same_outside p d (snd (put_file d p c))"
  by (auto simp: put_file_def same_outside_iff hm_get_insert)

lemma fs_create_dir_ok: "disk_ok d \<Longrightarrow> canonical p \<Longrightarrow> disk_ok (snd (fs_create_dir d p))"
  by (auto simp: fs_create_dir_def intro: disk_ok_insert)

lemma fs_create_dir_outside: "same_outside p d (snd (fs_create_dir d p))"
  by (auto simp: fs_create_dir_def same_outside_iff hm_get_insert)

lemma create_dirs_ok:
  "disk_ok d \<Longrightarrow> canonical (cur @ cs) \<Longrightarrow> cur = [] \<or> hm_get d cur = Some DiskDir \<Longrightarrow>
   disk_ok (snd (create_dirs d cur cs))"
proof (induction d cur cs rule: create_dirs.induct)
  case (2 d cur c cs)
  have can: "canonical (cur @ [c])" using 2(4) canonical_prefix [of "cur @ [c]" cs] by simp
  show ?case
  proof (cases "hm_get d (cur @ [c])")
    case None
    have "cur \<noteq> []" using None disk_ok_root [OF 2(3)] can by (cases c) (auto simp: canonical_def)
    then have "disk_ok (hm_insert (cur @ [c]) DiskDir d)" using disk_ok_insert [OF 2(3) can] 2(5) by simp
    then show ?thesis using 2(1) [OF None] 2(4) None by (simp add: hm_get_insert)
  next
    case (Some e)
    then show ?thesis using 2 by (cases e) auto
  qed
qed simp

text \<open>Creating the directories of a path adds nothing when a directory of them is there, above it.\<close>

lemma create_dirs_outside:
  assumes "disk_ok d" and "canonical p" and "hm_get d r = Some DiskDir" and "prefix r p"
  shows "same_outside r d (snd (fs_create_dir_all d p))"
proof -
  obtain s where p: "p = r @ s" using assms(4) by (auto simp: prefix_def)
  have skip: "create_dirs d cur (pre @ s) = create_dirs d (cur @ pre) s" if "r = cur @ pre" for cur pre
    using that
  proof (induction pre arbitrary: cur)
    case (Cons c pre)
    have "hm_get d (cur @ [c]) = Some DiskDir"
    proof (cases "pre = []")
      case False
      then show ?thesis using disk_ok_prefix [OF assms(1), of "cur @ [c]" pre] assms(3) Cons.prems by simp
    qed (use Cons.prems assms(3) in simp)
    then show ?case using Cons.IH [of "cur @ [c]"] Cons.prems by simp
  qed simp
  have tail: "same_outside cur d' (snd (create_dirs d' cur cs))" for d' cur cs
  proof (induction d' cur cs rule: create_dirs.induct)
    case (2 d cur c cs)
    show ?case
    proof (cases "hm_get d (cur @ [c])")
      case None
      have "same_outside cur d (hm_insert (cur @ [c]) DiskDir d)"
        by (auto simp: same_outside_iff hm_get_insert)
      then show ?thesis
        using same_outside_wider [OF 2(1) [OF None], of cur] None same_outside_trans by auto
    next
      case (Some e)
      then show ?thesis using same_outside_wider [OF 2(2) [OF Some], of cur] by (cases e) auto
    qed
  qed simp
  show ?thesis using skip [of "[]" r] tail [of r d s] p by (simp add: fs_create_dir_all_def)
qed

lemma fs_create_dir_all_ok: "disk_ok d \<Longrightarrow> canonical p \<Longrightarrow> disk_ok (snd (fs_create_dir_all d p))"
  by (simp add: fs_create_dir_all_def create_dirs_ok)

lemma disk_ok_retain:
  assumes "disk_ok d" and "\<not> P [RootDir]" and "\<And>k. P (butlast k) \<Longrightarrow> k \<noteq> [RootDir] \<Longrightarrow> P k"
  shows "disk_ok (hm_retain (\<lambda>k _. \<not> P k) d)"
proof (rule disk_okI)
  show "hm_wf (hm_retain (\<lambda>k _. \<not> P k) d)" using disk_ok_wf [OF assms(1)] by (simp add: hm_simps)
  show "hm_get (hm_retain (\<lambda>k _. \<not> P k) d) [RootDir] = Some DiskDir"
    using disk_ok_root [OF assms(1)] disk_ok_wf [OF assms(1)] assms(2) by (simp add: hm_get_retain)
  fix k v assume k: "hm_get (hm_retain (\<lambda>k _. \<not> P k) d) k = Some v"
  then have kv: "hm_get d k = Some v" "\<not> P k"
    using disk_ok_wf [OF assms(1)] by (auto simp: hm_get_retain split: option.splits if_splits)
  then show "canonical k \<and> (k = [RootDir] \<or> hm_get (hm_retain (\<lambda>k _. \<not> P k) d) (butlast k) = Some DiskDir)"
    using disk_okD [OF assms(1) kv(1)] assms(3) [of k] disk_ok_wf [OF assms(1)] kv(2)
    by (cases "k = [RootDir]") (auto simp: hm_get_retain)
qed

lemma disk_ok_remove:
  assumes "disk_ok d" and "p \<noteq> [RootDir]" and "\<not> list_ex (below p) (hm_keys d)"
  shows "disk_ok (hm_remove p d)"
proof (rule disk_okI)
  show "hm_wf (hm_remove p d)" using disk_ok_wf [OF assms(1)] by (simp add: hm_simps)
  show "hm_get (hm_remove p d) [RootDir] = Some DiskDir"
    using disk_ok_root [OF assms(1)] assms(2) by (simp add: hm_get_remove)
  fix k v assume "hm_get (hm_remove p d) k = Some v"
  then have kv: "hm_get d k = Some v" "k \<noteq> p" by (auto simp: hm_get_remove split: if_splits)
  have "butlast k \<noteq> p" if "k \<noteq> [RootDir]"
  proof
    assume "butlast k = p"
    moreover have "k \<noteq> []" using disk_okD(1) [OF assms(1) kv(1)] by (auto simp: canonical_def)
    ultimately have "below p k" by (metis append_butlast_last_id below_def strict_prefixI')
    then show False using assms(3) hm_get_SomeD [OF kv(1)] by (auto simp: list_ex_iff)
  qed
  then show "canonical k \<and> (k = [RootDir] \<or> hm_get (hm_remove p d) (butlast k) = Some DiskDir)"
    using disk_okD [OF assms(1) kv(1)] by (auto simp: hm_get_remove)
qed

text \<open>Nothing lies below what is not a directory.\<close>

lemma nothing_below:
  assumes "disk_ok d" and "hm_get d p \<noteq> Some DiskDir" and "p \<noteq> []"
  shows "\<not> list_ex (below p) (hm_keys d)"
proof
  assume "list_ex (below p) (hm_keys d)"
  then obtain k where k: "k \<in> set (hm_keys d)" "strict_prefix p k" by (auto simp: list_ex_iff below_def)
  then obtain q where "k = p @ q" "q \<noteq> []" by (auto elim: strict_prefixE')
  moreover obtain v where "hm_get d k = Some v" using k(1) by (metis map_of_eq_None_iff not_None_eq list.set_map)
  ultimately show False using disk_ok_prefix [OF assms(1)] assms(2,3) by blast
qed

lemma fs_remove_ok:
  assumes "disk_ok d" and "canonical p"
  shows "disk_ok (snd (fs_remove_file d p))" and "disk_ok (snd (fs_remove_dir d p))"
    and "disk_ok (snd (fs_remove_dir_all d p))"
proof -
  have "p \<noteq> []" using assms(2) by (rule canonical_ne)
  then have "disk_ok (hm_remove p d)" if "hm_get d p = Some (DiskFile c)" for c
    using that nothing_below [OF assms(1), of p] disk_ok_root [OF assms(1)] disk_ok_remove [OF assms(1), of p]
    by (cases "p = [RootDir]") auto
  then show "disk_ok (snd (fs_remove_file d p))"
    using assms by (auto simp: fs_remove_file_def split: option.split disk_entry.split)
  show "disk_ok (snd (fs_remove_dir d p))"
    using assms disk_ok_remove [OF assms(1), of p]
    by (auto simp: fs_remove_dir_def split: option.split disk_entry.split)
  have "disk_ok (hm_retain (\<lambda>k _. \<not> below [RootDir] k) d)"
    by (rule disk_ok_retain [OF assms(1)])
       (auto simp: below_def dest: prefix_order.less_le_trans [OF _ prefixeq_butlast])
  moreover have "disk_ok (hm_retain (\<lambda>k _. \<not> prefix p k) d)" if "p \<noteq> [RootDir]"
    by (rule disk_ok_retain [OF assms(1)])
       (use that assms(2) prefix_order.trans [OF _ prefixeq_butlast] in \<open>auto simp: canonical_Cons\<close>)
  ultimately show "disk_ok (snd (fs_remove_dir_all d p))"
    using assms(1) by (auto simp: fs_remove_dir_all_def split: option.split disk_entry.split)
qed

lemma fs_remove_outside:
  assumes "disk_ok d"
  shows "same_outside p d (snd (fs_remove_file d p))" and "same_outside p d (snd (fs_remove_dir d p))"
    and "same_outside p d (snd (fs_remove_dir_all d p))"
  using disk_ok_wf [OF assms]
  by (auto simp: fs_remove_file_def fs_remove_dir_def fs_remove_dir_all_def same_outside_iff hm_get_remove
      hm_get_retain below_def split: option.split disk_entry.split)

subsection \<open>Moving a subtree\<close>

lemma move_key_cases:
  assumes "disk_ok d" and "\<not> list_ex (below dst) (hm_keys d)" and "k \<in> set (hm_keys (hm_remove dst d))"
  shows "(prefix src k \<and> move_key src dst k = dst @ drop (length src) k) \<or>
    (\<not> prefix src k \<and> move_key src dst k = k \<and> \<not> prefix dst k)"
proof -
  have "k \<in> set (hm_keys d) - {dst}" using assms(3) by (simp only: hm_keys_remove)
  then have "k \<noteq> dst" "\<not> strict_prefix dst k" using assms(2) by (auto simp: list_ex_iff below_def)
  then show ?thesis by (auto simp: move_key_def strict_prefix_def)
qed

lemma move_tree_member:
  assumes "disk_ok d" and "\<not> list_ex (below dst) (hm_keys d)" and "\<not> prefix src dst"
  shows "(k, v) \<in> set (move_tree src dst d) \<longleftrightarrow>
    (if prefix dst k then (src @ drop (length dst) k, v) \<in> set d else \<not> prefix src k \<and> (k, v) \<in> set d)"
proof -
  have "(src @ q, v) \<in> set (hm_remove dst d) \<longleftrightarrow> (src @ q, v) \<in> set d" for q
    using assms(3) by (auto simp: AList.delete_eq)
  moreover have "(k, v) \<in> set (move_tree src dst d) \<longleftrightarrow>
    (\<exists>j. (j, v) \<in> set (hm_remove dst d) \<and> move_key src dst j = k)"
    by (force simp: move_tree_def)
  moreover have "(\<exists>j. (j, v) \<in> set (hm_remove dst d) \<and> move_key src dst j = k) \<longleftrightarrow>
    (if prefix dst k then (src @ drop (length dst) k, v) \<in> set (hm_remove dst d)
     else \<not> prefix src k \<and> (k, v) \<in> set (hm_remove dst d))" (is "?L \<longleftrightarrow> ?R")
  proof
    assume ?L
    then obtain j where j: "(j, v) \<in> set (hm_remove dst d)" "move_key src dst j = k" by auto
    then have "j \<in> set (hm_keys (hm_remove dst d))" by force
    from move_key_cases [OF assms(1,2) this, of src] show ?R
    proof
      assume a: "prefix src j \<and> move_key src dst j = dst @ drop (length src) j"
      then have "src @ drop (length dst) k = j" using j(2) by (auto simp: prefix_def)
      then show ?R using a j by auto
    qed (use j in auto)
  next
    assume r: ?R
    show ?L
    proof (cases "prefix dst k")
      case True
      then have "move_key src dst (src @ drop (length dst) k) = k" by (auto simp: move_key_def prefix_def)
      then show ?thesis using r True by auto
    next
      case False
      then have "move_key src dst k = k" using r by (simp add: move_key_def)
      then show ?thesis using r False by auto
    qed
  qed
  moreover have "(k, v) \<in> set (hm_remove dst d) \<longleftrightarrow> (k, v) \<in> set d" if "\<not> prefix dst k"
    using that by (auto simp: AList.delete_eq)
  ultimately show ?thesis by auto
qed

lemma move_tree_wf:
  assumes "disk_ok d" and "\<not> list_ex (below dst) (hm_keys d)" and "\<not> prefix src dst"
  shows "hm_wf (move_tree src dst d)"
proof -
  have "inj_on (move_key src dst) (set (hm_keys (hm_remove dst d)))"
  proof (rule inj_onI)
    fix i j assume ij: "i \<in> set (hm_keys (hm_remove dst d))" "j \<in> set (hm_keys (hm_remove dst d))"
      and eq: "move_key src dst i = move_key src dst j"
    show "i = j"
      using move_key_cases [OF assms(1,2) ij(1), of src] move_key_cases [OF assms(1,2) ij(2), of src] eq
      by (auto simp: prefix_def)
  qed
  moreover have "hm_wf (hm_remove dst d)" using disk_ok_wf [OF assms(1)] by (simp add: hm_simps)
  moreover have "hm_keys (move_tree src dst d) = map (move_key src dst) (hm_keys (hm_remove dst d))"
    by (simp add: move_tree_def case_prod_beta comp_def)
  ultimately show ?thesis by (metis distinct_map)
qed

lemma move_tree_get:
  assumes "disk_ok d" and "\<not> list_ex (below dst) (hm_keys d)" and "\<not> prefix src dst"
  shows "hm_get (move_tree src dst d) k =
    (if prefix dst k then hm_get d (src @ drop (length dst) k) else if prefix src k then None else hm_get d k)"
proof -
  have eq: "a = b" if "\<And>v. a = Some v \<longleftrightarrow> b = Some v" for a b :: "disk_entry option"
    using that by (metis option.exhaust)
  note get = hm_get_iff [OF move_tree_wf [OF assms]] hm_get_iff [OF disk_ok_wf [OF assms(1)]]
  have "hm_get (move_tree src dst d) k = Some v \<longleftrightarrow>
    (if prefix dst k then hm_get d (src @ drop (length dst) k) else if prefix src k then None else hm_get d k) = Some v" for v
    unfolding get(1) move_tree_member [OF assms]
    by (cases "prefix dst k"; cases "prefix src k") (simp_all only: if_True if_False get(2) simp_thms option.distinct)
  then show ?thesis by (rule eq)
qed

text \<open>When a rename succeeds, and what it then gives.\<close>

lemma fs_rename_cases:
  assumes "disk_ok d" and "canonical src" and "canonical dst"
  shows "snd (fs_rename d src dst) = d \<or>
    (snd (fs_rename d src dst) = move_tree src dst d \<and> hm_contains d src \<and> \<not> prefix src dst \<and>
     hm_get d (butlast dst) = Some DiskDir \<and> \<not> list_ex (below dst) (hm_keys d))"
proof -
  have ne: "dst \<noteq> []" using assms(3) by (rule canonical_ne)
  show ?thesis
    using nothing_below [OF assms(1) _ ne]
    by (auto simp: fs_rename_def hm_contains_def strict_prefix_def split: option.split disk_entry.split)
qed

lemma move_tree_ok:
  assumes "disk_ok d" and "canonical src" and "canonical dst" and "\<not> prefix src dst"
    and "hm_get d (butlast dst) = Some DiskDir" and "\<not> list_ex (below dst) (hm_keys d)"
  shows "disk_ok (move_tree src dst d)"
proof (rule disk_okI)
  note get = move_tree_get [OF assms(1,6,4)]
  have dst: "dst \<noteq> []" "dst \<noteq> [RootDir]"
    using assms(3,5) disk_okD(1) [OF assms(1), of "[]" DiskDir] by (auto simp: canonical_def)
  then have rt: "\<not> prefix dst [RootDir]" by (auto simp: prefix_Cons)
  have "\<not> prefix src [RootDir]" using assms(2,3,4) by (auto simp: canonical_Cons)
  then show "hm_get (move_tree src dst d) [RootDir] = Some DiskDir"
    using rt disk_ok_root [OF assms(1)] by (simp add: get)
  show "hm_wf (move_tree src dst d)" by (rule move_tree_wf [OF assms(1,6,4)])
  fix k v assume k: "hm_get (move_tree src dst d) k = Some v"
  show "canonical k \<and> (k = [RootDir] \<or> hm_get (move_tree src dst d) (butlast k) = Some DiskDir)"
  proof (cases "prefix dst k")
    case True
    then obtain q where q: "k = dst @ q" by (auto simp: prefix_def)
    then have v: "hm_get d (src @ q) = Some v" using k by (simp add: get)
    have "list_all is_normal q"
      using canonical_drop [OF disk_okD(1) [OF assms(1) v], of "length src"] canonical_ne [OF assms(2)] by simp
    then have "canonical k" using assms(3) q by (auto simp: canonical_Cons)
    moreover have "hm_get (move_tree src dst d) (butlast k) = Some DiskDir"
    proof (cases "q = []")
      case True
      have "\<not> prefix dst (butlast dst)" using dst(1) by (metis append_butlast_last_id not_Cons_self2 prefix_order.antisym prefixeq_butlast same_append_eq append_Nil2)
      moreover have "\<not> prefix src (butlast dst)" using assms(4) prefix_order.trans [OF _ prefixeq_butlast] by blast
      ultimately show ?thesis using q True assms(5) by (simp add: get)
    next
      case False
      have "src @ q \<noteq> [RootDir]" using False canonical_ne [OF assms(2)] by (cases src) auto
      then have "hm_get d (src @ butlast q) = Some DiskDir"
        using disk_okD(2) [OF assms(1) v] False by (simp add: butlast_append)
      then show ?thesis using q False by (simp add: get butlast_append)
    qed
    ultimately show ?thesis by simp
  next
    case False
    then have kd: "hm_get d k = Some v" "\<not> prefix src k" using k by (auto simp: get split: if_splits)
    have "\<not> prefix dst (butlast k)" "\<not> prefix src (butlast k)"
      using False kd(2) prefix_order.trans [OF _ prefixeq_butlast] by blast+
    then show ?thesis using disk_okD [OF assms(1) kd(1)] by (auto simp: get)
  qed
qed

lemma fs_rename_ok:
  assumes "disk_ok d" and "canonical src" and "canonical dst"
  shows "disk_ok (snd (fs_rename d src dst))"
  using fs_rename_cases [OF assms] move_tree_ok [OF assms] assms(1) by metis

lemma fs_rename_outside:
  assumes "disk_ok d" and "canonical src" and "canonical dst" and "prefix r src" and "prefix r dst"
  shows "same_outside r d (snd (fs_rename d src dst))"
  using fs_rename_cases [OF assms(1-3)]
proof
  assume m: "snd (fs_rename d src dst) = move_tree src dst d \<and> hm_contains d src \<and> \<not> prefix src dst \<and>
     hm_get d (butlast dst) = Some DiskDir \<and> \<not> list_ex (below dst) (hm_keys d)"
  have "\<not> prefix src k \<and> \<not> prefix dst k" if "\<not> prefix r k" for k
    using that assms(4,5) prefix_order.trans by blast
  then show ?thesis using m move_tree_get [OF assms(1)] by (simp add: same_outside_iff)
qed simp

lemma fs_copy_snd:
  "snd (fs_copy d src dst) = d \<or> (\<exists>c. snd (fs_copy d src dst) = snd (put_file d dst c))"
proof (cases "hm_get d src")
  case (Some e)
  show ?thesis
  proof (cases e)
    case (DiskFile c)
    have "snd (fs_copy d src dst) = snd (put_file d dst (if src = dst then [] else c))"
      using Some DiskFile by (simp add: fs_copy_def Let_def split: prod.split option.split)
    then show ?thesis by blast
  qed (use Some in \<open>simp add: fs_copy_def\<close>)
qed (simp add: fs_copy_def)

lemma fs_copy_ok: "disk_ok d \<Longrightarrow> canonical dst \<Longrightarrow> disk_ok (snd (fs_copy d src dst))"
  using fs_copy_snd [of d src dst] put_file_ok by metis

lemma fs_copy_outside: "same_outside dst d (snd (fs_copy d src dst))"
  using fs_copy_snd [of d src dst] put_file_outside by (metis same_outside_refl)

lemmas disk_ops_ok = put_file_ok fs_create_dir_ok fs_create_dir_all_ok fs_remove_ok fs_rename_ok fs_copy_ok
lemmas disk_ops_outside = put_file_outside fs_create_dir_outside fs_remove_outside fs_copy_outside

subsection \<open>Resolution is lexical\<close>

lemma push_snoc: "push_components p (cs @ [c]) = push_component (push_components p cs) c"
  by (simp add: push_components_def)

lemma push_Cons: "push_components p (c # cs) = push_components (push_component p c) cs"
  by (simp add: push_components_def)

lemma push_append: "push_components p (cs @ ds) = push_components (push_components p cs) ds"
  by (simp add: push_components_def)

text \<open>Without links, resolving what is there is a matter of the path alone.\<close>

lemma disk_walk_push: "disk_walk d cur cs = Some q \<Longrightarrow> q = push_components cur cs"
proof (induction cs arbitrary: cur)
  case (Cons c cs)
  have "disk_walk d (push_component cur c) cs = Some q"
    using Cons.prems by (cases c) (auto split: if_splits)
  then show ?case using Cons.IH push_Cons by metis
qed (simp add: push_components_def)

lemma disk_resolve_push: "disk_resolve d p = Some q \<Longrightarrow> q = push_components [RootDir] (tl p)"
  by (auto simp: disk_resolve_def disk_walk_push split: list.splits component.splits if_splits)

lemma normalize_lexical:
  assumes "disk_ok d" and "is_absolute p" and "RootDir \<notin> set (tl p)"
  shows "normalize_existing_aware (disk_fs d) p = Inr (push_components [RootDir] (tl p))"
proof -
  have "fs_exists (disk_fs d) [RootDir]"
    using disk_ok_root [OF assms(1)] by (simp add: disk_fs_def disk_resolve_def)
  then obtain a where a: "existing_ancestor (disk_fs d) p = Some a"
    using existing_ancestor_absolute assms by blast
  obtain r where r: "p = a @ r" and ex: "fs_exists (disk_fs d) a"
    using existing_ancestor_sound [OF a] by (auto simp: prefix_def)
  obtain q where q: "disk_resolve d a = Some q" using ex by (auto simp: disk_fs_def)
  then have "a \<noteq> []" by (auto simp: disk_resolve_def)
  then have "push_components q r = push_components [RootDir] (tl p)"
    using disk_resolve_push [OF q] r by (simp add: push_append)
  then show ?thesis
    using a r q by (simp add: normalize_existing_aware_def strip_prefix_ancestor disk_fs_def)
qed

definition candidate :: "workspace \<Rightarrow> string \<Rightarrow> path" where
  "candidate w s = (let p = path_of_string s in if is_absolute p then p else path_join (ws_root w) p)"

lemma path_of_string_tail: "RootDir \<notin> set (tl (path_of_string s))" "\<not> is_absolute (path_of_string s) \<Longrightarrow> RootDir \<notin> set (path_of_string s)"
  by (auto simp: path_of_string_def segment_component_def is_absolute_def split: list.splits if_splits)

lemma candidate_absolute:
  assumes "canonical (ws_root w)"
  shows "is_absolute (candidate w s)" and "RootDir \<notin> set (tl (candidate w s))"
proof -
  obtain cs where cs: "ws_root w = RootDir # cs" "list_all is_normal cs" using assms by (auto simp: canonical_Cons)
  have "RootDir \<notin> set cs" using cs(2) by (auto simp: list_all_iff)
  then show "is_absolute (candidate w s)" "RootDir \<notin> set (tl (candidate w s))"
    using cs path_of_string_tail [of s] by (auto simp: candidate_def Let_def path_join_def is_absolute_def)
qed

lemma resolve_path_lexical:
  assumes "disk_ok d" and "canonical (ws_root w)"
  shows "resolve_path (disk_fs d) w s = Inr (push_components [RootDir] (tl (candidate w s)))"
  using normalize_lexical [OF assms(1) candidate_absolute [OF assms(2)]]
  by (simp add: resolve_path_def candidate_def Let_def)

text \<open>A directory that is there, with its parents, is created without a change.\<close>

lemma create_dirs_there:
  assumes "disk_ok d" and "hm_get d (cur @ cs) = Some DiskDir"
  shows "create_dirs d cur cs = (None, d)"
  using assms(2)
proof (induction cs arbitrary: cur)
  case (Cons c cs)
  have "hm_get d (cur @ [c]) = Some DiskDir"
  proof (cases "cs = []")
    case False
    then show ?thesis using disk_ok_prefix [OF assms(1), of "cur @ [c]" cs] Cons.prems by simp
  qed (use Cons.prems in simp)
  then show ?case using Cons.IH [of "cur @ [c]"] Cons.prems by simp
qed simp

lemma fs_create_dir_all_there:
  "disk_ok d \<Longrightarrow> hm_get d p = Some DiskDir \<Longrightarrow> fs_create_dir_all d p = (None, d)"
  by (simp add: fs_create_dir_all_def create_dirs_there)

text \<open>What a file operation that succeeds leaves behind.\<close>

lemma put_file_get: "put_file d p c = (None, d') \<Longrightarrow> d' = hm_insert p (DiskFile c) d"
  by (auto simp: put_file_def split: if_splits)

lemma create_dirs_keeps:
  "hm_get d k = Some v \<Longrightarrow> hm_get (snd (create_dirs d cur cs)) k = Some v"
proof (induction d cur cs rule: create_dirs.induct)
  case (2 d cur c cs)
  show ?case
  proof (cases "hm_get d (cur @ [c])")
    case None
    then have "hm_get (hm_insert (cur @ [c]) DiskDir d) k = Some v" using 2(3) by (auto simp: hm_get_insert)
    then show ?thesis using 2(1) None by simp
  next
    case (Some e)
    then show ?thesis using 2 by (cases e) auto
  qed
qed simp

end
