(* ===== verification/Node_Files.thy ===== *)
theory Node_Files
  imports Permission Disk
begin

section \<open>File commands on a node (\<^verbatim>\<open>uhorse-node-runtime/src/executor.rs\<close>)\<close>

text \<open>
  What a node does for a file command: the path is resolved against the workspace, access is checked
  again, and the file operations are made on the disk. The environment gives the glob matcher, the
  debug formatting of a path, failures the operating system reports for reasons outside the disk (such
  as permissions), the size it reports for a directory and the time stamps of an entry.
\<close>

datatype fs_call =
    FsRead path
  | FsWrite path
  | FsAppend path
  | FsOpenAppend path
  | FsCreateDirAll path
  | FsCreateDir path
  | FsRemoveFile path
  | FsRemoveDir path
  | FsRemoveDirAll path
  | FsReadDir path
  | FsCopy path path
  | FsRename path path
  | FsMetadata path
  | FsTryExists path

record file_env =
  fe_glob_match :: "string \<Rightarrow> string \<Rightarrow> bool"
  fe_debug :: "path \<Rightarrow> string"
  fe_os :: "fs_call \<Rightarrow> string option"
  fe_dir_size :: "path \<Rightarrow> u64"
  fe_times :: "path \<Rightarrow> json \<times> json"

definition env_on :: "file_env \<Rightarrow> disk \<Rightarrow> node_env" where
  "env_on env d = \<lparr>ne_fs = disk_fs d, ne_glob = fe_glob_match env\<rparr>"

fun io_text :: "io_error \<Rightarrow> string" where
  "io_text NotFound = ''No such file or directory (os error 2)''"
| "io_text AlreadyExists = ''File exists (os error 17)''"
| "io_text NotADirectory = ''Not a directory (os error 20)''"
| "io_text IsADirectory = ''Is a directory (os error 21)''"
| "io_text DirectoryNotEmpty = ''Directory not empty (os error 39)''"
| "io_text InvalidInput = ''Invalid argument (os error 22)''"
| "io_text InvalidData = ''stream did not contain valid UTF-8''"
| "io_text NotRegularFile = ''the source path is neither a regular file nor a symlink to a regular file''"
| "io_text ResourceBusy = ''Device or resource busy (os error 16)''"

text \<open>One call: a failure of the system leaves the disk alone, otherwise the operation decides.\<close>

definition os_change :: "file_env \<Rightarrow> fs_call \<Rightarrow> disk \<Rightarrow> io_error option \<times> disk \<Rightarrow> string option \<times> disk" where
  "os_change env call d res =
     (case fe_os env call of
        Some msg \<Rightarrow> (Some msg, d)
      | None \<Rightarrow> (map_option io_text (fst res), snd res))"

definition os_query :: "file_env \<Rightarrow> fs_call \<Rightarrow> io_error + 'a \<Rightarrow> string + 'a" where
  "os_query env call res =
     (case fe_os env call of
        Some msg \<Rightarrow> Inl msg
      | None \<Rightarrow> (case res of Inl err \<Rightarrow> Inl (io_text err) | Inr x \<Rightarrow> Inr x))"

definition exec_failed :: "string \<Rightarrow> string \<Rightarrow> node_error" where
  "exec_failed what err = ExecutionErr (what @ '': '' @ err)"

subsection \<open>UTF-8\<close>

text \<open>The length of the encoded character a byte sequence starts with, zero when there is none.\<close>

definition byte :: "char \<Rightarrow> nat" where
  "byte c = of_char c"

definition continuation :: "char \<Rightarrow> bool" where
  "continuation c = (128 \<le> byte c \<and> byte c \<le> 191)"

fun utf8_char :: "string \<Rightarrow> nat" where
  "utf8_char [] = 0"
| "utf8_char (a # s) =
     (let n = byte a
      in if n \<le> 127 then 1
         else if 194 \<le> n \<and> n \<le> 223
         then (case s of b # _ \<Rightarrow> if continuation b then 2 else 0 | _ \<Rightarrow> 0)
         else if 224 \<le> n \<and> n \<le> 239
         then (case s of
                 b # c # _ \<Rightarrow>
                   if continuation b \<and> continuation c \<and> (n = 224 \<longrightarrow> 160 \<le> byte b) \<and> (n = 237 \<longrightarrow> byte b \<le> 159)
                   then 3 else 0
               | _ \<Rightarrow> 0)
         else if 240 \<le> n \<and> n \<le> 244
         then (case s of
                 b # c # d # _ \<Rightarrow>
                   if continuation b \<and> continuation c \<and> continuation d
                      \<and> (n = 240 \<longrightarrow> 144 \<le> byte b) \<and> (n = 244 \<longrightarrow> byte b \<le> 143)
                   then 4 else 0
               | _ \<Rightarrow> 0)
         else 0)"

function valid_utf8 :: "string \<Rightarrow> bool" where
  "valid_utf8 s =
     (if s = [] then True else if utf8_char s = 0 then False else valid_utf8 (drop (utf8_char s) s))"
  by pat_completeness auto

termination
  by (relation "measure length") auto

declare valid_utf8.simps [simp del]

text \<open>What is left after \<open>n\<close> characters, and those characters.\<close>

fun skip_chars :: "nat \<Rightarrow> string \<Rightarrow> string" where
  "skip_chars 0 s = s"
| "skip_chars (Suc n) s = (if s = [] then [] else skip_chars n (drop (max 1 (utf8_char s)) s))"

definition take_chars :: "nat \<Rightarrow> string \<Rightarrow> string" where
  "take_chars n s = take (length s - length (skip_chars n s)) s"

subsection \<open>Paths\<close>

definition resolve_file_path :: "file_env \<Rightarrow> workspace \<Rightarrow> disk \<Rightarrow> string \<Rightarrow> bool \<Rightarrow> node_error + path" where
  "resolve_file_path env w d path write =
     (case resolve_path (disk_fs d) w path of
        Inl err \<Rightarrow> Inl err
      | Inr resolved \<Rightarrow>
          (case can_access (env_on env d) w (path_to_string resolved) write of
             Inl err \<Rightarrow> Inl err
           | Inr ok \<Rightarrow>
               if ok then Inr resolved
               else Inl (PermissionError (''Cannot access path: '' @ fe_debug env resolved))))"

subsection \<open>Reading and writing\<close>

definition read_to_string :: "file_env \<Rightarrow> disk \<Rightarrow> path \<Rightarrow> string + string" where
  "read_to_string env d p =
     os_query env (FsRead p)
       (case fs_read d p of
          Inl err \<Rightarrow> Inl err
        | Inr content \<Rightarrow> if valid_utf8 content then Inr content else Inl InvalidData)"

definition file_read ::
  "file_env \<Rightarrow> workspace \<Rightarrow> disk \<Rightarrow> string \<Rightarrow> nat option \<Rightarrow> nat option \<Rightarrow> node_error + command_output" where
  "file_read env w d path limit offset =
     (case resolve_file_path env w d path False of
        Inl err \<Rightarrow> Inl err
      | Inr p \<Rightarrow>
          (case read_to_string env d p of
             Inl msg \<Rightarrow> Inl (exec_failed (''Failed to read file '' @ fe_debug env p) msg)
           | Inr content \<Rightarrow>
               (let content = (case offset of Some k \<Rightarrow> skip_chars k content | None \<Rightarrow> content);
                    content = (case limit of Some k \<Rightarrow> take_chars k content | None \<Rightarrow> content)
                in Inr (OutText content))))"

definition json_count :: "nat \<Rightarrow> json" where
  "json_count n = JNumber (PosInt (of_nat n))"

type_synonym file_result = "(node_error + command_output) \<times> disk"

text \<open>The parent directory, with its parents.\<close>

definition create_parent :: "file_env \<Rightarrow> path \<Rightarrow> disk \<Rightarrow> node_error option \<times> disk" where
  "create_parent env p d =
     (case path_parent p of
        None \<Rightarrow> (None, d)
      | Some parent \<Rightarrow>
          (case os_change env (FsCreateDirAll parent) d (fs_create_dir_all d parent) of
             (Some msg, d') \<Rightarrow>
               (Some (exec_failed (''Failed to create parent directory '' @ fe_debug env parent) msg), d')
           | (None, d') \<Rightarrow> (None, d')))"

text \<open>One change, with the text of its failure and the output of its success.\<close>

definition then_output ::
  "string \<Rightarrow> command_output \<Rightarrow> string option \<times> disk \<Rightarrow> file_result" where
  "then_output failure output res =
     (case res of
        (Some msg, d) \<Rightarrow> (Inl (exec_failed failure msg), d)
      | (None, d) \<Rightarrow> (Inr output, d))"

definition path_json :: "path \<Rightarrow> json" where
  "path_json p = JString (path_to_string p)"

definition file_write ::
  "file_env \<Rightarrow> workspace \<Rightarrow> disk \<Rightarrow> string \<Rightarrow> string \<Rightarrow> bool \<Rightarrow> file_result" where
  "file_write env w d path content overwrite =
     (case resolve_file_path env w d path True of
        Inl err \<Rightarrow> (Inl err, d)
      | Inr p \<Rightarrow>
          if fs_exists (disk_fs d) p \<and> \<not> overwrite
          then (Inl (exec_failed ''File already exists'' (fe_debug env p)), d)
          else (case create_parent env p d of
                  (Some err, d1) \<Rightarrow> (Inl err, d1)
                | (None, d1) \<Rightarrow>
                    then_output (''Failed to write file '' @ fe_debug env p)
                      (OutJson (JObject
                         [(''action'', JString ''write''), (''bytes_written'', json_count (length content)),
                          (''kind'', JString ''file_operation''), (''path'', path_json p)]))
                      (os_change env (FsWrite p) d1 (fs_write d1 p content))))"

text \<open>The file is opened, and created when it is not there, before anything is written.\<close>

definition file_append :: "file_env \<Rightarrow> workspace \<Rightarrow> disk \<Rightarrow> string \<Rightarrow> string \<Rightarrow> file_result" where
  "file_append env w d path content =
     (case resolve_file_path env w d path True of
        Inl err \<Rightarrow> (Inl err, d)
      | Inr p \<Rightarrow>
          (case create_parent env p d of
             (Some err, d1) \<Rightarrow> (Inl err, d1)
           | (None, d1) \<Rightarrow>
               (case os_change env (FsOpenAppend p) d1 (fs_append d1 p []) of
                  (Some msg, d2) \<Rightarrow> (Inl (exec_failed (''Failed to open file '' @ fe_debug env p) msg), d2)
                | (None, d2) \<Rightarrow>
                    then_output (''Failed to append to file '' @ fe_debug env p)
                      (OutJson (JObject
                         [(''action'', JString ''append''), (''bytes_appended'', json_count (length content)),
                          (''kind'', JString ''file_operation''), (''path'', path_json p)]))
                      (os_change env (FsAppend p) d2 (fs_append d2 p content)))))"

definition file_delete :: "file_env \<Rightarrow> workspace \<Rightarrow> disk \<Rightarrow> string \<Rightarrow> bool \<Rightarrow> file_result" where
  "file_delete env w d path recursive =
     (case resolve_file_path env w d path True of
        Inl err \<Rightarrow> (Inl err, d)
      | Inr p \<Rightarrow>
          if fs_is_dir (disk_fs d) p
          then then_output (''Failed to delete directory '' @ fe_debug env p) (OutText ''Deleted successfully'')
                 (if recursive then os_change env (FsRemoveDirAll p) d (fs_remove_dir_all d p)
                  else os_change env (FsRemoveDir p) d (fs_remove_dir d p))
          else then_output (''Failed to delete file '' @ fe_debug env p) (OutText ''Deleted successfully'')
                 (os_change env (FsRemoveFile p) d (fs_remove_file d p)))"

definition destination_exists :: "file_env \<Rightarrow> path \<Rightarrow> node_error" where
  "destination_exists env p = exec_failed ''Destination already exists'' (fe_debug env p)"

definition two_paths :: "path \<Rightarrow> path \<Rightarrow> (string \<times> json) list" where
  "two_paths src dst =
     [(''destination_path'', path_json dst), (''kind'', JString ''file_operation''), (''path'', path_json dst),
      (''source_path'', path_json src)]"

definition file_copy :: "file_env \<Rightarrow> workspace \<Rightarrow> disk \<Rightarrow> string \<Rightarrow> string \<Rightarrow> bool \<Rightarrow> file_result" where
  "file_copy env w d src_path dst_path overwrite =
     (case resolve_file_path env w d src_path False of
        Inl err \<Rightarrow> (Inl err, d)
      | Inr src \<Rightarrow>
          (case resolve_file_path env w d dst_path True of
             Inl err \<Rightarrow> (Inl err, d)
           | Inr dst \<Rightarrow>
               if fs_exists (disk_fs d) dst \<and> \<not> overwrite then (Inl (destination_exists env dst), d)
               else (case create_parent env dst d of
                       (Some err, d1) \<Rightarrow> (Inl err, d1)
                     | (None, d1) \<Rightarrow>
                         (case fe_os env (FsCopy src dst) of
                            Some msg \<Rightarrow> (Inl (exec_failed ''Failed to copy'' msg), d1)
                          | None \<Rightarrow>
                              (case fs_copy d1 src dst of
                                 (Inl err, d2) \<Rightarrow> (Inl (exec_failed ''Failed to copy'' (io_text err)), d2)
                               | (Inr n, d2) \<Rightarrow>
                                   (Inr (OutJson (JObject ((''action'', JString ''copy'')
                                      # (''bytes_copied'', json_count n) # two_paths src dst))), d2))))))"

definition file_move :: "file_env \<Rightarrow> workspace \<Rightarrow> disk \<Rightarrow> string \<Rightarrow> string \<Rightarrow> bool \<Rightarrow> file_result" where
  "file_move env w d src_path dst_path overwrite =
     (case resolve_file_path env w d src_path True of
        Inl err \<Rightarrow> (Inl err, d)
      | Inr src \<Rightarrow>
          (case resolve_file_path env w d dst_path True of
             Inl err \<Rightarrow> (Inl err, d)
           | Inr dst \<Rightarrow>
               if fs_exists (disk_fs d) dst \<and> \<not> overwrite then (Inl (destination_exists env dst), d)
               else (case create_parent env dst d of
                       (Some err, d1) \<Rightarrow> (Inl err, d1)
                     | (None, d1) \<Rightarrow>
                         then_output ''Failed to move''
                           (OutJson (JObject ((''action'', JString ''move'') # two_paths src dst)))
                           (os_change env (FsRename src dst) d1 (fs_rename d1 src dst)))))"

definition file_create_dir :: "file_env \<Rightarrow> workspace \<Rightarrow> disk \<Rightarrow> string \<Rightarrow> bool \<Rightarrow> file_result" where
  "file_create_dir env w d path recursive =
     (case resolve_file_path env w d path True of
        Inl err \<Rightarrow> (Inl err, d)
      | Inr p \<Rightarrow>
          then_output (''Failed to create directory '' @ fe_debug env p)
            (OutJson (JObject
               [(''action'', JString ''create_dir''), (''kind'', JString ''file_operation''),
                (''path'', path_json p), (''recursive'', JBool recursive)]))
            (if recursive then os_change env (FsCreateDirAll p) d (fs_create_dir_all d p)
             else os_change env (FsCreateDir p) d (fs_create_dir d p)))"

definition file_exists :: "file_env \<Rightarrow> workspace \<Rightarrow> disk \<Rightarrow> string \<Rightarrow> node_error + command_output" where
  "file_exists env w d path =
     (case resolve_file_path env w d path False of
        Inl err \<Rightarrow> Inl err
      | Inr p \<Rightarrow>
          (case fe_os env (FsTryExists p) of
             Some msg \<Rightarrow> Inl (exec_failed (''Failed to check file '' @ fe_debug env p) msg)
           | None \<Rightarrow> Inr (OutJson (JObject [(''exists'', JBool (fs_exists (disk_fs d) p))]))))"

subsection \<open>Listing and searching\<close>

definition read_dir :: "file_env \<Rightarrow> disk \<Rightarrow> path \<Rightarrow> node_error + string list" where
  "read_dir env d p =
     (case os_query env (FsReadDir p) (fs_read_dir d p) of
        Inl msg \<Rightarrow> Inl (exec_failed (''Failed to read directory '' @ fe_debug env p) msg)
      | Inr names \<Rightarrow> Inr names)"

definition entry_size :: "file_env \<Rightarrow> disk \<Rightarrow> path \<Rightarrow> u64" where
  "entry_size env d p =
     (case hm_get d p of
        Some (DiskFile c) \<Rightarrow> of_nat (length c)
      | Some DiskDir \<Rightarrow> fe_dir_size env p
      | None \<Rightarrow> 0)"

definition name_matches :: "file_env \<Rightarrow> string option \<Rightarrow> string \<Rightarrow> bool" where
  "name_matches env pattern n = (case pattern of None \<Rightarrow> True | Some p \<Rightarrow> fe_glob_match env p n)"

text \<open>\<^verbatim>\<open>entry.metadata().ok()\<close>: without metadata an entry is no directory and has no size.\<close>

definition entry_json :: "file_env \<Rightarrow> disk \<Rightarrow> path \<Rightarrow> string \<Rightarrow> json" where
  "entry_json env d p n =
     (let known = (fe_os env (FsMetadata p) = None)
      in JObject [(''is_dir'', JBool (known \<and> hm_get d p = Some DiskDir)), (''name'', JString n),
                  (''path'', path_json p),
                  (''size'', JNumber (PosInt (if known then entry_size env d p else 0)))])"

definition listed :: "file_env \<Rightarrow> disk \<Rightarrow> string option \<Rightarrow> path \<Rightarrow> string \<Rightarrow> json list" where
  "listed env d pattern p n = (if name_matches env pattern n then [entry_json env d p n] else [])"

definition search_hit :: "file_env \<Rightarrow> disk \<Rightarrow> string \<Rightarrow> string option \<Rightarrow> path \<Rightarrow> string \<Rightarrow> json list" where
  "search_hit env d pattern content_pattern p n =
     (if \<not> fe_glob_match env pattern n then []
      else case content_pattern of
             None \<Rightarrow> [JObject [(''name'', JString n), (''path'', path_json p)]]
           | Some wanted \<Rightarrow>
               if \<not> is_file_entry (hm_get d p) then []
               else (case read_to_string env d p of
                       Inl _ \<Rightarrow> []
                     | Inr content \<Rightarrow>
                         if str_contains content wanted
                         then [JObject [(''matched_content'', JBool True), (''name'', JString n),
                                        (''path'', path_json p)]]
                         else []))"

text \<open>
  The walk over a directory that listing and searching share: \<open>visit\<close> gives what an entry adds. An
  entry that may not be accessed is left out with everything below it; a directory is entered when the
  walk is recursive, after the entry itself.
\<close>

definition entries_below :: "disk \<Rightarrow> path \<Rightarrow> nat" where
  "entries_below d p = length (filter (below p) (hm_keys d))"

lemma entries_below_less:
  assumes "hm_get d (p @ [c]) = Some v"
  shows "entries_below d (p @ [c]) < entries_below d p"
proof -
  let ?k = "p @ [c]"
  have sub: "below ?k k \<Longrightarrow> below p k" for k
    by (metis below_def prefix_order.less_trans strict_prefixI')
  have "filter (below ?k) (hm_keys d) = filter (below ?k) (filter (below p) (hm_keys d))"
    unfolding filter_filter by (rule filter_cong) (use sub in auto)
  moreover have "?k \<in> set (filter (below p) (hm_keys d))"
    using hm_get_SomeD [OF assms] by (simp add: below_def strict_prefixI')
  moreover have "\<not> below ?k ?k" by (simp add: below_def)
  ultimately show ?thesis
    unfolding entries_below_def using length_filter_less [of ?k "filter (below p) (hm_keys d)" "below ?k"] by simp
qed

lemma read_dir_length: "read_dir env d p = Inr names \<Longrightarrow> length names \<le> length d"
proof -
  have le: "length (List.map_filter f xs) \<le> length xs" for f :: "path \<Rightarrow> string option" and xs
    by (induction xs) (auto simp: List.map_filter_simps split: option.split)
  have "length (List.map_filter f (hm_keys d)) \<le> length d" for f :: "path \<Rightarrow> string option"
    using le [of f "hm_keys d"] by simp
  then show "read_dir env d p = Inr names \<Longrightarrow> length names \<le> length d"
    by (auto simp: read_dir_def os_query_def fs_read_dir_def split: option.splits sum.splits if_splits)
qed

function walk_dir ::
    "file_env \<Rightarrow> workspace \<Rightarrow> disk \<Rightarrow> bool \<Rightarrow> (path \<Rightarrow> string \<Rightarrow> json list) \<Rightarrow> path \<Rightarrow> node_error + json list"
  and walk_entries ::
    "file_env \<Rightarrow> workspace \<Rightarrow> disk \<Rightarrow> bool \<Rightarrow> (path \<Rightarrow> string \<Rightarrow> json list) \<Rightarrow> path \<Rightarrow> string list \<Rightarrow>
     node_error + json list"
where
  "walk_dir env w d recursive visit p =
     (case read_dir env d p of
        Inl err \<Rightarrow> Inl err
      | Inr names \<Rightarrow> walk_entries env w d recursive visit p names)"
| "walk_entries env w d recursive visit p [] = Inr []"
| "walk_entries env w d recursive visit p (n # ns) =
     (let entry_path = p @ [NormalComp n]
      in case can_access (env_on env d) w (path_to_string entry_path) False of
           Inl err \<Rightarrow> Inl err
         | Inr ok \<Rightarrow>
             if \<not> ok then walk_entries env w d recursive visit p ns
             else (case (if recursive \<and> hm_get d entry_path = Some DiskDir
                         then walk_dir env w d recursive visit entry_path else Inr []) of
                     Inl err \<Rightarrow> Inl err
                   | Inr inner \<Rightarrow>
                       (case walk_entries env w d recursive visit p ns of
                          Inl err \<Rightarrow> Inl err
                        | Inr others \<Rightarrow> Inr (visit entry_path n @ inner @ others))))"
  by pat_completeness auto

termination
proof (relation "inv_image (less_than <*lex*> less_than)
    (\<lambda>x. case x of
       Inl (env, w, d, recursive, visit, p) \<Rightarrow> (entries_below d p, Suc (length d))
     | Inr (env, w, d, recursive, visit, p, ns) \<Rightarrow> (entries_below d p, length ns))", goal_cases)
  case (2 env w d recursive visit p names)
  then show ?case using read_dir_length [of env d p names] by simp
next
  case (4 env w d recursive visit p n ns)
  then show ?case using entries_below_less [of d p "NormalComp n" DiskDir] by simp
qed auto

definition file_list ::
  "file_env \<Rightarrow> workspace \<Rightarrow> disk \<Rightarrow> string \<Rightarrow> bool \<Rightarrow> string option \<Rightarrow> node_error + command_output" where
  "file_list env w d path recursive pattern =
     (case resolve_file_path env w d path False of
        Inl err \<Rightarrow> Inl err
      | Inr p \<Rightarrow>
          (case walk_dir env w d recursive (listed env d pattern) p of
             Inl err \<Rightarrow> Inl err
           | Inr entries \<Rightarrow> Inr (OutJson (JObject [(''entries'', JArray entries)]))))"

definition file_search ::
  "file_env \<Rightarrow> workspace \<Rightarrow> disk \<Rightarrow> string \<Rightarrow> string \<Rightarrow> bool \<Rightarrow> string option \<Rightarrow> node_error + command_output" where
  "file_search env w d pattern path recursive content_pattern =
     (case resolve_file_path env w d path False of
        Inl err \<Rightarrow> Inl err
      | Inr p \<Rightarrow>
          (case walk_dir env w d recursive (search_hit env d pattern content_pattern) p of
             Inl err \<Rightarrow> Inl err
           | Inr results \<Rightarrow> Inr (OutJson (JObject [(''results'', JArray results)]))))"

text \<open>\<^verbatim>\<open>Workspace::get_file_info\<close> and its JSON form; \<open>mode\<close> is never filled in.\<close>

definition get_file_info :: "file_env \<Rightarrow> workspace \<Rightarrow> disk \<Rightarrow> string \<Rightarrow> node_error + json" where
  "get_file_info env w d path =
     (case resolve_file_path env w d path False of
        Inl err \<Rightarrow> Inl err
      | Inr p \<Rightarrow>
          (case os_query env (FsMetadata p)
                  (case hm_get d p of None \<Rightarrow> Inl (missing d p) | Some e \<Rightarrow> Inr (e = DiskDir)) of
             Inl msg \<Rightarrow> Inl (WorkspaceErr (MetadataFailed msg))
           | Inr is_dir \<Rightarrow>
               Inr (JObject
                 [(''created'', snd (fe_times env p)), (''is_dir'', JBool is_dir), (''mode'', JNull),
                  (''modified'', fst (fe_times env p)),
                  (''name'', JString (case file_name p of Some n \<Rightarrow> n | None \<Rightarrow> ''unknown'')),
                  (''path'', path_json p), (''size'', JNumber (PosInt (entry_size env d p)))])))"

definition file_info_output :: "file_env \<Rightarrow> workspace \<Rightarrow> disk \<Rightarrow> string \<Rightarrow> node_error + command_output" where
  "file_info_output env w d path =
     (case get_file_info env w d path of Inl err \<Rightarrow> Inl err | Inr j \<Rightarrow> Inr (OutJson j))"

subsection \<open>The command\<close>

fun execute_file :: "file_env \<Rightarrow> workspace \<Rightarrow> disk \<Rightarrow> file_command \<Rightarrow> file_result" where
  "execute_file env w d (Read path limit offset) = (file_read env w d path limit offset, d)"
| "execute_file env w d (Write path content overwrite) = file_write env w d path content overwrite"
| "execute_file env w d (Append path content) = file_append env w d path content"
| "execute_file env w d (Delete path recursive) = file_delete env w d path recursive"
| "execute_file env w d (ListDir path recursive pattern) = (file_list env w d path recursive pattern, d)"
| "execute_file env w d (Search pattern path recursive content_pattern) =
     (file_search env w d pattern path recursive content_pattern, d)"
| "execute_file env w d (Copy src dst overwrite) = file_copy env w d src dst overwrite"
| "execute_file env w d (Move src dst overwrite) = file_move env w d src dst overwrite"
| "execute_file env w d (Info path) = (file_info_output env w d path, d)"
| "execute_file env w d (CreateDir path recursive) = file_create_dir env w d path recursive"
| "execute_file env w d (Exists path) = (file_exists env w d path, d)"

subsection \<open>Confinement\<close>

lemma env_on_fs [simp]: "ne_fs (env_on env d) = disk_fs d"
  by (simp add: env_on_def)

lemma resolved_path:
  assumes "disk_ok d" and "canonical (ws_root w)" and "resolve_file_path env w d s write = Inr p"
  shows "canonical p" and "prefix (ws_root w) p" and "\<not> (write \<and> wc_read_only (ws_config w))"
    and "p = push_components [RootDir] (tl (candidate w s))"
proof -
  have r: "resolve_path (disk_fs d) w s = Inr p"
    and a: "can_access (env_on env d) w (path_to_string p) write = Inr True"
    using assms(3) by (auto simp: resolve_file_path_def split: sum.splits if_splits)
  show can: "canonical p" using resolve_path_canonical [OF disk_fs_canonical [OF assms(1)] assms(2) r] .
  have id: "resolve_path (disk_fs d) w (path_to_string p) = Inr p" by (rule resolve_path_id [OF assms(1) can])
  show "prefix (ws_root w) p" "\<not> (write \<and> wc_read_only (ws_config w))"
    using can_access_True [OF a] id by auto
  show "p = push_components [RootDir] (tl (candidate w s))"
    using r resolve_path_lexical [OF assms(1,2)] by simp
qed

text \<open>
  What a command may do to a disk: it stays well formed, keeps everything outside the root, and is
  untouched when the workspace is read-only.
\<close>

definition confined :: "workspace \<Rightarrow> disk \<Rightarrow> disk \<Rightarrow> bool" where
  "confined w d d' \<longleftrightarrow>
     disk_ok d' \<and> same_outside (ws_root w) d d' \<and> (wc_read_only (ws_config w) \<longrightarrow> d' = d)"

lemma confined_refl: "disk_ok d \<Longrightarrow> confined w d d"
  by (simp add: confined_def)

lemma confined_trans: "confined w d1 d2 \<Longrightarrow> confined w d2 d3 \<Longrightarrow> confined w d1 d3"
  using same_outside_trans by (auto simp: confined_def)

lemma root_stays:
  assumes "disk_ok d" and "hm_get d (ws_root w) = Some DiskDir" and "create_parent env p d = (e, d1)"
  shows "hm_get d1 (ws_root w) = Some DiskDir"
  using assms create_dirs_keeps [OF assms(2)]
  by (auto simp: create_parent_def os_change_def fs_create_dir_all_def split: option.splits prod.splits)

lemma confined_change:
  assumes "disk_ok d" and "\<not> wc_read_only (ws_config w)" and "prefix (ws_root w) p"
    and "disk_ok (snd res)" and "same_outside p d (snd res)"
  shows "confined w d (snd (os_change env call d res))"
  using assms same_outside_wider [OF assms(5,3)] by (auto simp: confined_def os_change_def split: option.split)

lemma create_parent_confined:
  assumes "disk_ok d" and "hm_get d (ws_root w) = Some DiskDir" and "\<not> wc_read_only (ws_config w)"
    and "prefix (ws_root w) p" and "canonical p"
  shows "confined w d (snd (create_parent env p d))"
proof (cases "path_parent p")
  case (Some parent)
  then have par: "parent = butlast p" by (auto simp: path_parent_def split: if_splits)
  have snd: "snd (create_parent env p d) = snd (os_change env (FsCreateDirAll parent) d (fs_create_dir_all d parent))"
    using Some by (simp add: create_parent_def split: prod.split option.split)
  have can: "canonical parent"
    using canonical_pop [OF assms(5)] Some by (simp add: path_pop_def)
  show ?thesis
  proof (cases "ws_root w = p")
    case True
    have "p \<noteq> [RootDir]" using Some by (auto simp: path_parent_def)
    then have "hm_get d parent = Some DiskDir" using disk_okD(2) [OF assms(1,2)] True par by simp
    then have "fs_create_dir_all d parent = (None, d)" by (rule fs_create_dir_all_there [OF assms(1)])
    then show ?thesis
      unfolding snd using confined_refl [OF assms(1)] by (simp add: os_change_def split: option.split)
  next
    case False
    then have "prefix (ws_root w) parent"
      using assms(4) par by (metis append_butlast_last_id canonical_ne [OF assms(5)] prefix_snoc)
    then show ?thesis
      unfolding snd
      using confined_change [OF assms(1,3) prefix_order.refl fs_create_dir_all_ok [OF assms(1) can]]
        create_dirs_outside [OF assms(1) can assms(2)] by blast
  qed
qed (simp add: create_parent_def confined_refl [OF assms(1)])

lemma then_output_snd [simp]: "snd (then_output f out res) = snd res"
  by (simp add: then_output_def split: prod.split option.split)

text \<open>The two steps of a change below the root: its parent directories, then the change itself.\<close>

lemma parent_then:
  assumes "disk_ok d" and "hm_get d (ws_root w) = Some DiskDir" and "\<not> wc_read_only (ws_config w)"
    and "prefix (ws_root w) p" and "canonical p" and "create_parent env p d = (e, d1)"
    and "\<And>d1. disk_ok d1 \<Longrightarrow> disk_ok (f d1) \<and> same_outside (ws_root w) d1 (f d1)"
  shows "confined w d d1" and "confined w d (f d1)"
proof -
  show c: "confined w d d1" using create_parent_confined [OF assms(1-5), of env] assms(6) by simp
  then have "disk_ok d1" by (simp add: confined_def)
  then have "confined w d1 (f d1)" using assms(3,7) by (simp add: confined_def)
  then show "confined w d (f d1)" using c confined_trans by blast
qed

lemma os_change_ok:
  "disk_ok d \<Longrightarrow> disk_ok (snd res) \<Longrightarrow> disk_ok (snd (os_change env call d res))"
  "same_outside r d (snd res) \<Longrightarrow> same_outside r d (snd (os_change env call d res))"
  by (auto simp: os_change_def split: option.split)

lemma file_write_confined:
  assumes "disk_ok d" and "hm_get d (ws_root w) = Some DiskDir"
  shows "confined w d (snd (file_write env w d path content overwrite))"
proof (cases "resolve_file_path env w d path True")
  case (Inr p)
  note p = resolved_path [OF assms(1) disk_okD(1) [OF assms] Inr]
  obtain e d1 where cp: "create_parent env p d = (e, d1)" by fastforce
  have "confined w d d1" "confined w d (snd (os_change env (FsWrite p) d1 (fs_write d1 p content)))"
    using parent_then [OF assms _ p(2,1) cp, of "\<lambda>d1. snd (os_change env (FsWrite p) d1 (fs_write d1 p content))"]
      p(3) put_file_ok p(1) same_outside_wider [OF put_file_outside p(2)]
    by (auto simp: fs_write_def os_change_ok)
  then show ?thesis
    using Inr cp confined_refl [OF assms(1)] by (auto simp: file_write_def split: option.split)
qed (simp add: file_write_def confined_refl [OF assms(1)])

lemma file_append_confined:
  assumes "disk_ok d" and "hm_get d (ws_root w) = Some DiskDir"
  shows "confined w d (snd (file_append env w d path content))"
proof (cases "resolve_file_path env w d path True")
  case (Inr p)
  note p = resolved_path [OF assms(1) disk_okD(1) [OF assms] Inr]
  obtain e d1 where cp: "create_parent env p d = (e, d1)" by fastforce
  let ?f = "\<lambda>d1. snd (os_change env (FsOpenAppend p) d1 (fs_append d1 p []))"
  let ?g = "\<lambda>d2. snd (os_change env (FsAppend p) d2 (fs_append d2 p content))"
  have step: "disk_ok d1 \<Longrightarrow> disk_ok (?f d1) \<and> same_outside (ws_root w) d1 (?f d1)"
    "disk_ok d1 \<Longrightarrow> disk_ok (?g d1) \<and> same_outside (ws_root w) d1 (?g d1)" for d1
    using put_file_ok p(1) same_outside_wider [OF put_file_outside p(2)] by (auto simp: fs_append_def os_change_ok)
  have wr: "\<not> wc_read_only (ws_config w)" using p(3) by simp
  note c = parent_then [OF assms wr p(2,1) cp]
  have both: "disk_ok (?g (?f d)) \<and> same_outside (ws_root w) d (?g (?f d))" if "disk_ok d" for d
    using step(1) [OF that] step(2) [of "?f d"] same_outside_trans [of "ws_root w" d "?f d"] by simp
  have all: "confined w d d1" "confined w d (?f d1)" "confined w d (?g (?f d1))"
    using c(1) [of "\<lambda>d. d"] c(2) [of ?f, OF step(1)] c(2) [of "\<lambda>d. ?g (?f d)", OF both] by simp_all
  obtain m d2 where o: "os_change env (FsOpenAppend p) d1 (fs_append d1 p []) = (m, d2)" by fastforce
  show ?thesis
  proof (cases e)
    case None
    then show ?thesis using Inr cp o all by (cases m) (simp_all add: file_append_def)
  qed (use Inr cp all in \<open>simp add: file_append_def\<close>)
qed (simp add: file_append_def confined_refl [OF assms(1)])

lemma file_delete_confined:
  assumes "disk_ok d" and "hm_get d (ws_root w) = Some DiskDir"
  shows "confined w d (snd (file_delete env w d path recursive))"
proof (cases "resolve_file_path env w d path True")
  case (Inr p)
  note p = resolved_path [OF assms(1) disk_okD(1) [OF assms] Inr]
  show ?thesis
    using Inr p(3) confined_change [OF assms(1) _ p(2)] fs_remove_ok [OF assms(1) p(1)] fs_remove_outside [OF assms(1)]
    by (simp add: file_delete_def)
qed (simp add: file_delete_def confined_refl [OF assms(1)])

lemma file_create_dir_confined:
  assumes "disk_ok d" and "hm_get d (ws_root w) = Some DiskDir"
  shows "confined w d (snd (file_create_dir env w d path recursive))"
proof (cases "resolve_file_path env w d path True")
  case (Inr p)
  note p = resolved_path [OF assms(1) disk_okD(1) [OF assms] Inr]
  have "confined w d (snd (os_change env (FsCreateDirAll p) d (fs_create_dir_all d p)))"
    using p(3) confined_change [OF assms(1) _ prefix_order.refl fs_create_dir_all_ok [OF assms(1) p(1)]
        create_dirs_outside [OF assms(1) p(1) assms(2) p(2)]] by simp
  moreover have "confined w d (snd (os_change env (FsCreateDir p) d (fs_create_dir d p)))"
    using p(3) confined_change [OF assms(1) _ p(2) fs_create_dir_ok [OF assms(1) p(1)] fs_create_dir_outside] by simp
  ultimately show ?thesis using Inr by (simp add: file_create_dir_def)
qed (simp add: file_create_dir_def confined_refl [OF assms(1)])

text \<open>Copying and moving share everything up to the last step.\<close>

lemma two_path_confined:
  assumes "disk_ok d" and "hm_get d (ws_root w) = Some DiskDir"
    and "resolve_file_path env w d src_path write = Inr src" and "resolve_file_path env w d dst_path True = Inr dst"
    and "\<And>d1. disk_ok d1 \<Longrightarrow> canonical src \<Longrightarrow> canonical dst \<Longrightarrow> prefix (ws_root w) src \<Longrightarrow> prefix (ws_root w) dst \<Longrightarrow>
      disk_ok (f d1) \<and> same_outside (ws_root w) d1 (f d1)"
    and "create_parent env dst d = (e, d1)"
  shows "confined w d d1 \<and> confined w d (f d1)"
proof -
  note s = resolved_path [OF assms(1) disk_okD(1) [OF assms(1,2)] assms(3)]
  note t = resolved_path [OF assms(1) disk_okD(1) [OF assms(1,2)] assms(4)]
  show ?thesis using parent_then [OF assms(1,2) _ t(2,1) assms(6), of f] t(3) assms(5) s(1,2) t(1,2) by blast
qed

lemma file_copy_confined:
  assumes "disk_ok d" and "hm_get d (ws_root w) = Some DiskDir"
  shows "confined w d (snd (file_copy env w d src_path dst_path overwrite))"
proof (cases "resolve_file_path env w d src_path False")
  case src: (Inr src)
  show ?thesis
  proof (cases "resolve_file_path env w d dst_path True")
    case dst: (Inr dst)
    obtain e d1 where cp: "create_parent env dst d = (e, d1)" by fastforce
    have c: "confined w d d1 \<and> confined w d (snd (fs_copy d1 src dst))"
      by (rule two_path_confined [OF assms src dst _ cp])
         (use fs_copy_ok same_outside_wider [OF fs_copy_outside] in blast)
    show ?thesis
    proof (cases e)
      case None
      obtain r d2 where r: "fs_copy d1 src dst = (r, d2)" by fastforce
      then show ?thesis
        using src dst cp c None confined_refl [OF assms(1)]
        by (cases r) (simp_all add: file_copy_def split: option.split)
    qed (use src dst cp c confined_refl [OF assms(1)] in \<open>simp add: file_copy_def\<close>)
  qed (simp add: file_copy_def src confined_refl [OF assms(1)])
qed (simp add: file_copy_def confined_refl [OF assms(1)])

lemma file_move_confined:
  assumes "disk_ok d" and "hm_get d (ws_root w) = Some DiskDir"
  shows "confined w d (snd (file_move env w d src_path dst_path overwrite))"
proof (cases "resolve_file_path env w d src_path True")
  case src: (Inr src)
  show ?thesis
  proof (cases "resolve_file_path env w d dst_path True")
    case dst: (Inr dst)
    obtain e d1 where cp: "create_parent env dst d = (e, d1)" by fastforce
    have "confined w d d1 \<and> confined w d (snd (os_change env (FsRename src dst) d1 (fs_rename d1 src dst)))"
      by (rule two_path_confined [OF assms src dst _ cp]) (simp add: os_change_ok fs_rename_ok fs_rename_outside)
    then show ?thesis
      using src dst cp confined_refl [OF assms(1)] by (auto simp: file_move_def split: option.split)
  qed (simp add: file_move_def src confined_refl [OF assms(1)])
qed (simp add: file_move_def confined_refl [OF assms(1)])


definition example_disk :: disk where
  "example_disk =
     [([RootDir], DiskDir), ([RootDir, NormalComp ''srv''], DiskDir),
      ([RootDir, NormalComp ''srv'', NormalComp ''a''], DiskFile ''old'')]"

definition example_file_env :: file_env where
  "example_file_env =
     \<lparr>fe_glob_match = (\<lambda>pattern s. pattern = ''**/*''), fe_debug = path_to_string, fe_os = (\<lambda>c. None),
      fe_dir_size = (\<lambda>p. 4096), fe_times = (\<lambda>p. (JNull, JNull))\<rparr>"

lemma example_disk_ok: "disk_ok example_disk" "hm_get example_disk (ws_root example_ws) = Some DiskDir"
  by (auto simp: disk_ok_def example_disk_def canonical_def valid_name_def example_ws_def workspace_config_default_def)


subsection \<open>Reading back\<close>

text \<open>Access to a resolved path does not depend on what is on the disk.\<close>

lemma access_resolved:
  assumes "disk_ok d" and "disk_ok d'" and "canonical p"
    and "can_access (env_on env d) w (path_to_string p) write = Inr True"
  shows "can_access (env_on env d') w (path_to_string p) False = Inr True"
  using assms(4) resolve_path_id [OF assms(1,3)] resolve_path_id [OF assms(2,3)]
  by (auto simp: can_access_def Let_def env_on_def split: if_splits)

lemma resolve_file_again:
  assumes "disk_ok d" and "disk_ok d'" and "canonical (ws_root w)" and "resolve_file_path env w d s write = Inr p"
  shows "resolve_file_path env w d' s False = Inr p"
proof -
  have r: "resolve_path (disk_fs d) w s = Inr p"
    and a: "can_access (env_on env d) w (path_to_string p) write = Inr True"
    using assms(4) by (auto simp: resolve_file_path_def split: sum.splits if_splits)
  have "resolve_path (disk_fs d') w s = Inr p"
    using r resolve_path_lexical assms(1-3) by metis
  moreover have "can_access (env_on env d') w (path_to_string p) False = Inr True"
    using access_resolved [OF assms(1,2) resolved_path(1) [OF assms(1,3,4)] a] .
  ultimately show ?thesis by (simp add: resolve_file_path_def)
qed

text \<open>What a successful write and a successful append leave at the resolved path.\<close>

lemma file_write_success:
  assumes "file_write env w d path content overwrite = (Inr out, d')"
  obtains p d1 where "resolve_file_path env w d path True = Inr p" "create_parent env p d = (None, d1)"
    "d' = hm_insert p (DiskFile content) d1" "\<not> (fs_exists (disk_fs d) p \<and> \<not> overwrite)"
proof -
  obtain p where p: "resolve_file_path env w d path True = Inr p" "\<not> (fs_exists (disk_fs d) p \<and> \<not> overwrite)"
    using assms by (auto simp: file_write_def split: sum.splits if_splits)
  obtain d1 where d1: "create_parent env p d = (None, d1)"
    using assms p by (cases "create_parent env p d") (auto simp: file_write_def split: option.splits)
  have "fs_write d1 p content = (None, d')"
    using assms p d1
    by (cases "fs_write d1 p content")
       (auto simp: file_write_def then_output_def os_change_def split: option.splits)
  then show ?thesis using that [OF p(1) d1 _ p(2)] by (simp add: fs_write_def put_file_get)
qed

text \<open>
  C15: what a successful write command stored is what a read command of the same path returns, however
  the path is spelled and whatever directories the write had to create.
\<close>

theorem write_then_read:
  assumes "disk_ok d" and "hm_get d (ws_root w) = Some DiskDir" and "valid_utf8 content"
    and "\<And>p. fe_os env (FsRead p) = None"
    and "execute_file env w d (Write path content overwrite) = (Inr out, d')"
  shows "execute_file env w d' (Read path None None) = (Inr (OutText content), d')"
proof -
  have wr: "file_write env w d path content overwrite = (Inr out, d')" using assms(5) by simp
  then obtain p d1 where p: "resolve_file_path env w d path True = Inr p"
    and d': "d' = hm_insert p (DiskFile content) d1"
    by (rule file_write_success)
  have "disk_ok d'" using file_write_confined [OF assms(1,2), of env path content overwrite] wr by (simp add: confined_def)
  then have "resolve_file_path env w d' path False = Inr p"
    using resolve_file_again [OF assms(1) _ disk_okD(1) [OF assms(1,2)] p] by blast
  moreover have "read_to_string env d' p = Inr content"
    using assms(3,4) d' by (simp add: read_to_string_def os_query_def fs_read_def hm_get_insert)
  ultimately show ?thesis by (simp add: file_read_def)
qed

theorem write_then_read_witness:
  "fst (execute_file example_file_env example_ws
      (snd (execute_file example_file_env example_ws example_disk (Write ''n/../x/y'' ''hi'' False)))
      (Read ''n/../x/y'' None None)) = Inr (OutText ''hi'')"
proof -
  let ?r = "execute_file example_file_env example_ws example_disk (Write ''n/../x/y'' ''hi'' False)"
  have ok: "(case fst ?r of Inr _ \<Rightarrow> True | Inl _ \<Rightarrow> False)" "valid_utf8 ''hi''" by code_simp+
  obtain out where "?r = (Inr out, snd ?r)" using ok(1) by (cases "fst ?r") (auto simp: prod_eq_iff)
  from write_then_read [OF example_disk_ok ok(2) _ this] show ?thesis by (simp add: example_file_env_def)
qed

subsection \<open>Reading in pages\<close>

lemma utf8_char_le: "utf8_char s \<le> length s"
  by (cases s) (auto simp: Let_def split: list.split)

lemma skip_chars_suffix: "\<exists>a. s = a @ skip_chars n s"
proof (induction n s rule: skip_chars.induct)
  case (2 n s)
  show ?case
  proof (cases "s = []")
    case False
    then obtain a where "drop (max 1 (utf8_char s)) s = a @ skip_chars (Suc n) s" using 2 by auto
    then show ?thesis by (metis append_assoc append_take_drop_id)
  qed simp
qed simp

lemma take_skip_chars: "take_chars n s @ skip_chars n s = s"
proof -
  obtain a where a: "s = a @ skip_chars n s" using skip_chars_suffix by blast
  then have "length s - length (skip_chars n s) = length a" by (metis add_diff_cancel_right' length_append)
  then show ?thesis using a unfolding take_chars_def by (metis append_eq_conv_conj)
qed

lemma skip_chars_valid: "valid_utf8 s \<Longrightarrow> valid_utf8 (skip_chars n s)"
proof (induction n s rule: skip_chars.induct)
  case (2 n s)
  then show ?case by (cases "s = []") (auto simp: valid_utf8.simps [of s] max_def Suc_le_eq split: if_splits)
qed simp

lemma skip_chars_add: "skip_chars (n + m) s = skip_chars m (skip_chars n s)"
proof (induction n s rule: skip_chars.induct)
  case (2 n s)
  have "skip_chars m [] = []" by (cases m) simp_all
  then show ?case using 2 by (cases "s = []") simp_all
qed simp

text \<open>
  Two reads of consecutive pages give what one read of both gives; no page splits a character.
\<close>

lemma pages_join:
  assumes "file_read env w d path (Some n) (Some k) = Inr (OutText a)"
    and "file_read env w d path (Some m) (Some (k + n)) = Inr (OutText b)"
    and "file_read env w d path (Some (n + m)) (Some k) = Inr (OutText c)"
  shows "c = a @ b"
proof -
  obtain content where eq: "a = take_chars n (skip_chars k content)" "b = take_chars m (skip_chars (k + n) content)"
    "c = take_chars (n + m) (skip_chars k content)"
    using assms by (auto simp: file_read_def Let_def split: sum.splits)
  let ?s = "skip_chars k content"
  have "take_chars (n + m) ?s @ skip_chars (n + m) ?s = take_chars n ?s @ take_chars m (skip_chars n ?s) @ skip_chars (n + m) ?s"
    using take_skip_chars [of "n + m" ?s] take_skip_chars [of n ?s] take_skip_chars [of m "skip_chars n ?s"]
    by (simp add: skip_chars_add)
  then show ?thesis using eq by (simp add: skip_chars_add)
qed

subsection \<open>Gaps\<close>

text \<open>The root of the workspace is a path like any other: a delete command may remove it.\<close>

lemma delete_removes_root:
  "execute_file example_file_env example_ws example_disk (Delete ''.'' True) =
     (Inr (OutText ''Deleted successfully''), [([RootDir], DiskDir)])"
  by code_simp

text \<open>A file copied to another spelling of its own path is emptied.\<close>

lemma copy_to_itself_empties:
  "hm_get (snd (execute_file example_file_env example_ws example_disk (Copy ''a'' ''./a'' True)))
     [RootDir, NormalComp ''srv'', NormalComp ''a''] = Some (DiskFile [])"
  by code_simp

end
