(* ===== verification/Browser.thy ===== *)
theory Browser
  imports Workspace
begin

section \<open>The node's browser (\<^verbatim>\<open>uhorse-node-runtime/src/browser.rs\<close>)\<close>

text \<open>
  Browser commands over one browser session that is started on the first navigation. The browser
  itself (the \<^verbatim>\<open>headless_chrome\<close> and \<^verbatim>\<open>open\<close> packages) is the record \<open>chrome\<close>: what its calls answer,
  \<open>None\<close> or the text of an error. \<open>ch_enabled\<close> is the \<^verbatim>\<open>browser\<close> feature of the build.
\<close>

record browser_config =
  bc_headless :: bool
  bc_width :: u32
  bc_height :: u32
  bc_user_agent :: "string option"
  bc_screenshot_dir :: string
  bc_default_timeout_secs :: u64

definition browser_config_default :: browser_config where
  "browser_config_default =
     \<lparr>bc_headless = True, bc_width = 1920, bc_height = 1080, bc_user_agent = None,
      bc_screenshot_dir = ''/tmp/uhorse-browser'', bc_default_timeout_secs = 30\<rparr>"

text \<open>
  The answers may depend on the number of calls made before, \<open>bs_calls\<close>; \<open>ch_found\<close> and \<open>ch_elapsed\<close>
  are, for a wait, whether the element is there and how many milliseconds have passed at its \<open>k\<close>-th look.
\<close>

record chrome =
  ch_enabled :: bool
  ch_open :: "string \<Rightarrow> string option"
  ch_options :: "string option"
  ch_launch :: "string option"
  ch_new_tab :: "string option"
  ch_navigate :: "nat \<Rightarrow> string \<Rightarrow> string option"
  ch_wait :: "nat \<Rightarrow> string option"
  ch_evaluate :: "nat \<Rightarrow> string \<Rightarrow> string + json option"
  ch_find :: "nat \<Rightarrow> string \<Rightarrow> string option"
  ch_click :: "nat \<Rightarrow> string \<Rightarrow> string option"
  ch_type :: "nat \<Rightarrow> string \<Rightarrow> string \<Rightarrow> string option"
  ch_found :: "string \<Rightarrow> nat \<Rightarrow> bool"
  ch_elapsed :: "nat \<Rightarrow> nat"
  ch_quote :: "string \<Rightarrow> string"

record browser =
  bs_session :: bool
  bs_calls :: nat

definition browser_new :: browser where
  "browser_new = \<lparr>bs_session = False, bs_calls = 0\<rparr>"

type_synonym browser_reply = "(node_error + command_output) \<times> browser"

definition browser_disabled :: "node_error + 'a" where
  "browser_disabled =
     Inl (ExecutionErr (''Browser support not enabled. Compile with '' @ [CHR 0x27] @ ''browser'' @ [CHR 0x27] @ '' feature''))"

definition browser_output :: "browser_result \<Rightarrow> node_error + command_output" where
  "browser_output r = Inr (OutBrowser r)"

definition open_system :: "chrome \<Rightarrow> string \<Rightarrow> browser \<Rightarrow> browser_reply" where
  "open_system c url b =
     (case ch_open c url of
        Some err \<Rightarrow> (Inl (ExecutionErr (''Failed to open system browser: '' @ err)), b)
      | None \<Rightarrow> (browser_output (ResOpenSystem url), b))"

definition ensure_tab :: "chrome \<Rightarrow> browser \<Rightarrow> (node_error + unit) \<times> browser" where
  "ensure_tab c b =
     (if bs_session b then (Inr (), b)
      else case ch_options c of
             Some err \<Rightarrow> (Inl (ExecutionErr (''Failed to build browser options: '' @ err)), b)
           | None \<Rightarrow>
               (case ch_launch c of
                  Some err \<Rightarrow> (Inl (ExecutionErr (''Failed to launch browser: '' @ err)), b)
                | None \<Rightarrow>
                    (case ch_new_tab c of
                       Some err \<Rightarrow> (Inl (ExecutionErr (''Failed to create tab: '' @ err)), b)
                     | None \<Rightarrow> (Inr (), b\<lparr>bs_session := True\<rparr>))))"

definition active_tab :: "browser \<Rightarrow> node_error + unit" where
  "active_tab b = (if bs_session b then Inr () else Inl (ExecutionErr ''No active browser session''))"

text \<open>One call of the browser.\<close>

definition chrome_call :: "browser \<Rightarrow> browser" where
  "chrome_call b = b\<lparr>bs_calls := Suc (bs_calls b)\<rparr>"

definition evaluate_value :: "chrome \<Rightarrow> browser \<Rightarrow> string \<Rightarrow> string \<Rightarrow> node_error + json" where
  "evaluate_value c b script action =
     (case ch_evaluate c (bs_calls b) script of
        Inl err \<Rightarrow> Inl (ExecutionErr (action @ '' failed: '' @ err))
      | Inr v \<Rightarrow> Inr (case v of Some j \<Rightarrow> j | None \<Rightarrow> JNull))"

fun as_text :: "json \<Rightarrow> string option" where
  "as_text (JString s) = Some s"
| "as_text _ = None"

definition summary_script :: string where
  "summary_script = ''(() => ({ final_url: window.location.href, title: document.title || null }))()''"

definition navigate :: "chrome \<Rightarrow> string \<Rightarrow> browser \<Rightarrow> browser_reply" where
  "navigate c url b =
     (if \<not> ch_enabled c then (browser_disabled, b)
      else case ensure_tab c b of
             (Inl err, b) \<Rightarrow> (Inl err, b)
           | (Inr _, b) \<Rightarrow>
               (case ch_navigate c (bs_calls b) url of
                  Some err \<Rightarrow> (Inl (ExecutionErr (''Navigation failed: '' @ err)), chrome_call b)
                | None \<Rightarrow>
                    (let b = chrome_call b
                     in case ch_wait c (bs_calls b) of
                          Some err \<Rightarrow> (Inl (ExecutionErr (''Wait for navigation failed: '' @ err)), chrome_call b)
                        | None \<Rightarrow>
                            (let b = chrome_call b
                             in case evaluate_value c b summary_script ''Read page summary'' of
                                  Inl err \<Rightarrow> (Inl err, chrome_call b)
                                | Inr summary \<Rightarrow>
                                    (browser_output (ResNavigate
                                       (case Option.bind (json_get summary ''final_url'') as_text of
                                          Some u \<Rightarrow> u | None \<Rightarrow> url)
                                       (Option.bind (json_get summary ''title'') as_text)), chrome_call b)))))"

definition screenshot :: "chrome \<Rightarrow> node_error + command_output" where
  "screenshot c =
     (if ch_enabled c
      then Inl (ExecutionErr ''Screenshot feature temporarily disabled due to headless_chrome API changes'')
      else browser_disabled)"

definition element_not_found :: "string \<Rightarrow> string \<Rightarrow> node_error + 'a" where
  "element_not_found selector err =
     Inl (ExecutionErr (''Element not found '' @ [CHR 0x27] @ selector @ [CHR 0x27] @ '': '' @ err))"

definition click :: "chrome \<Rightarrow> string \<Rightarrow> browser \<Rightarrow> browser_reply" where
  "click c selector b =
     (if \<not> ch_enabled c then (browser_disabled, b)
      else case active_tab b of
             Inl err \<Rightarrow> (Inl err, b)
           | Inr _ \<Rightarrow>
               (case ch_find c (bs_calls b) selector of
                  Some err \<Rightarrow> (element_not_found selector err, chrome_call b)
                | None \<Rightarrow>
                    (let b = chrome_call b
                     in case ch_click c (bs_calls b) selector of
                          Some err \<Rightarrow> (Inl (ExecutionErr (''Click failed: '' @ err)), chrome_call b)
                        | None \<Rightarrow> (browser_output ResOk, chrome_call b))))"

definition type_text :: "chrome \<Rightarrow> string \<Rightarrow> string \<Rightarrow> browser \<Rightarrow> browser_reply" where
  "type_text c selector input b =
     (case click c selector b of
        (Inl err, b) \<Rightarrow> (Inl err, b)
      | (Inr _, b) \<Rightarrow>
          (case ch_type c (bs_calls b) selector input of
             Some err \<Rightarrow> (Inl (ExecutionErr (''Type failed: '' @ err)), chrome_call b)
           | None \<Rightarrow> (browser_output ResOk, chrome_call b)))"

text \<open>
  The loop of \<open>wait_for\<close> from its \<open>k\<close>-th look; it ends by itself only when the clock does, so not
  ending is the value \<open>None\<close>.
\<close>

partial_function (option) wait_loop :: "chrome \<Rightarrow> string \<Rightarrow> nat \<Rightarrow> nat \<Rightarrow> (node_error + command_output) option" where
  "wait_loop c selector timeout_ms k =
     (if ch_found c selector k then Some (browser_output ResOk)
      else if timeout_ms \<le> ch_elapsed c k
      then Some (Inl (ExecutionErr (''Timeout waiting for element: '' @ selector)))
      else wait_loop c selector timeout_ms (Suc k))"

declare wait_loop.simps [code]

definition wait_for :: "chrome \<Rightarrow> string \<Rightarrow> u64 \<Rightarrow> browser \<Rightarrow> (node_error + command_output) option" where
  "wait_for c selector timeout_secs b =
     (if \<not> ch_enabled c then Some browser_disabled
      else case active_tab b of
             Inl err \<Rightarrow> Some (Inl err)
           | Inr _ \<Rightarrow> wait_loop c selector (max (unat timeout_secs) 1 * 1000) 0)"

definition selector_script :: "chrome \<Rightarrow> string \<Rightarrow> string \<Rightarrow> string" where
  "selector_script c selector expr =
     ''(() => { const el = document.querySelector('' @ ch_quote c selector
       @ ''); if (!el) return null; return '' @ expr @ ''; })()''"

definition text_content :: string where
  "text_content = ''el.textContent ?? '' @ [CHR 0x27, CHR 0x27]"

definition get_text :: "chrome \<Rightarrow> string \<Rightarrow> browser \<Rightarrow> browser_reply" where
  "get_text c selector b =
     (if \<not> ch_enabled c then (browser_disabled, b)
      else case active_tab b of
             Inl err \<Rightarrow> (Inl err, b)
           | Inr _ \<Rightarrow>
               (case evaluate_value c b (selector_script c selector text_content) ''Get text'' of
                  Inl err \<Rightarrow> (Inl err, chrome_call b)
                | Inr v \<Rightarrow>
                    (case as_text v of
                       None \<Rightarrow>
                         (Inl (ExecutionErr (''Element not found '' @ [CHR 0x27] @ selector @ [CHR 0x27])), chrome_call b)
                     | Some s \<Rightarrow> (browser_output (ResGetText s), chrome_call b))))"

definition evaluate :: "chrome \<Rightarrow> string \<Rightarrow> browser \<Rightarrow> browser_reply" where
  "evaluate c script b =
     (if \<not> ch_enabled c then (browser_disabled, b)
      else case active_tab b of
             Inl err \<Rightarrow> (Inl err, b)
           | Inr _ \<Rightarrow>
               (case evaluate_value c b script ''Script execution'' of
                  Inl err \<Rightarrow> (Inl err, chrome_call b)
                | Inr v \<Rightarrow> (browser_output (ResEvaluate v), chrome_call b)))"

definition browser_close :: "chrome \<Rightarrow> browser \<Rightarrow> browser_reply" where
  "browser_close c b =
     (if \<not> ch_enabled c then (browser_disabled, b) else (browser_output ResOk, b\<lparr>bs_session := False\<rparr>))"

fun browser_execute :: "chrome \<Rightarrow> browser_command \<Rightarrow> browser \<Rightarrow> browser_reply option" where
  "browser_execute c (OpenSystem url) b = Some (open_system c url b)"
| "browser_execute c (Navigate url) b = Some (navigate c url b)"
| "browser_execute c (Screenshot selector full_page) b = Some (screenshot c, b)"
| "browser_execute c (Click selector) b = Some (click c selector b)"
| "browser_execute c (TypeText selector input) b = Some (type_text c selector input b)"
| "browser_execute c (WaitFor selector timeout_secs) b =
     map_option (\<lambda>r. (r, b)) (wait_for c selector timeout_secs b)"
| "browser_execute c (GetText selector) b = Some (get_text c selector b)"
| "browser_execute c (Evaluate script) b = Some (evaluate c script b)"
| "browser_execute c ClosePage b = Some (browser_close c b)"

subsection \<open>Facts\<close>

text \<open>A look every 100 milliseconds: the wait ends, at the latest when its time is up.\<close>

definition polls :: "chrome \<Rightarrow> bool" where
  "polls c \<longleftrightarrow> (\<forall>k. 100 * k \<le> ch_elapsed c k)"

lemma wait_loop_first:
  assumes "\<And>i. k \<le> i \<Longrightarrow> i < n \<Longrightarrow> \<not> ch_found c s i \<and> ch_elapsed c i < t" and "k \<le> n"
    and "ch_found c s n \<or> t \<le> ch_elapsed c n"
  shows "wait_loop c s t k =
    Some (if ch_found c s n then browser_output ResOk
          else Inl (ExecutionErr (''Timeout waiting for element: '' @ s)))"
  using assms(1,2)
proof (induction "n - k" arbitrary: k)
  case 0
  then have "k = n" by simp
  then show ?case using assms(3) by (auto simp: wait_loop.simps [of c s t n])
next
  case (Suc m)
  then have "\<not> ch_found c s k" "ch_elapsed c k < t" "m = n - Suc k" "Suc k \<le> n" by auto
  moreover have "wait_loop c s t (Suc k) =
    Some (if ch_found c s n then browser_output ResOk
          else Inl (ExecutionErr (''Timeout waiting for element: '' @ s)))"
    by (rule Suc.hyps) (use Suc.prems calculation in auto)
  ultimately show ?case by (simp add: wait_loop.simps [of c s t k])
qed

lemma wait_loop_ends:
  assumes "polls c"
  shows "\<exists>n. (ch_found c s n \<or> t \<le> ch_elapsed c n) \<and> 100 * n \<le> t + 99 \<and>
    (\<forall>i<n. \<not> ch_found c s i \<and> ch_elapsed c i < t)"
proof -
  let ?P = "\<lambda>n. ch_found c s n \<or> t \<le> ch_elapsed c n"
  have "t \<le> 100 * ((t + 99) div 100)" by simp
  then have ex: "?P ((t + 99) div 100)" using assms by (meson le_trans polls_def)
  define m where "m = (LEAST n. ?P n)"
  have le: "m \<le> (t + 99) div 100" unfolding m_def using ex by (rule Least_le)
  have at: "?P m" unfolding m_def using ex by (rule LeastI)
  have before: "\<not> ?P i" if "i < m" for i using not_less_Least that unfolding m_def by blast
  have "100 * m \<le> t + 99" using le by simp
  moreover have "\<forall>i<m. \<not> ch_found c s i \<and> ch_elapsed c i < t" using before by (meson not_le)
  ultimately show ?thesis using at by blast
qed

text \<open>Every browser command returns, given that the clock advances.\<close>

lemma browser_execute_returns:
  assumes "polls c"
  shows "\<exists>r. browser_execute c cmd b = Some r"
proof (cases cmd)
  case (WaitFor s t)
  obtain n where n: "ch_found c s n \<or> max (unat t) 1 * 1000 \<le> ch_elapsed c n"
    "\<forall>i<n. \<not> ch_found c s i \<and> ch_elapsed c i < max (unat t) 1 * 1000"
    using wait_loop_ends [OF assms] by blast
  have "\<exists>r. wait_loop c s (max (unat t) 1 * 1000) 0 = Some r"
    using wait_loop_first [of 0 n c s "max (unat t) 1 * 1000"] n by auto
  then show ?thesis using WaitFor by (auto simp: wait_for_def split: sum.split)
qed auto

text \<open>Only a navigation starts a session and only a close ends it.\<close>

lemma browser_session:
  assumes "browser_execute c cmd b = Some (r, b')"
  shows "bs_session b' = bs_session b
    \<or> (bs_session b' \<and> (\<exists>url. cmd = Navigate url)) \<or> (\<not> bs_session b' \<and> cmd = ClosePage)"
proof (cases cmd)
  case (Navigate url)
  have "bs_session (snd (navigate c url b)) \<or> bs_session (snd (navigate c url b)) = bs_session b"
    by (auto simp: navigate_def ensure_tab_def chrome_call_def Let_def split: option.split sum.split)
  then show ?thesis using assms Navigate by auto
next
  case (Click s)
  have "bs_session (snd (click c s b)) = bs_session b"
    by (auto simp: click_def chrome_call_def Let_def split: option.split sum.split)
  then show ?thesis using assms Click by auto
next
  case (TypeText s t)
  have "bs_session (snd (click c s b)) = bs_session b"
    by (auto simp: click_def chrome_call_def Let_def split: option.split sum.split)
  then have "bs_session (snd (type_text c s t b)) = bs_session b"
    by (auto simp: type_text_def chrome_call_def split: prod.split sum.split option.split)
  then show ?thesis using assms TypeText by auto
qed (use assms in \<open>auto simp: open_system_def get_text_def evaluate_def browser_close_def chrome_call_def
      split: option.splits sum.splits if_splits\<close>)

end
