(* ===== verification/Node_Exec.thy ===== *)
theory Node_Exec
  imports Node_Files Browser
begin

section \<open>The node's executor (\<^verbatim>\<open>uhorse-node-runtime/src/executor.rs\<close>)\<close>

text \<open>
  What a node does for a command: files are changed on the disk, shell and code commands become
  processes, API and browser commands calls of the outside. A process and an HTTP call are parameters;
  a process may leave any disk behind. A panic is the value \<open>None\<close>, as is a wait that never ends.
\<close>

record process_spec =
  ps_program :: string
  ps_args :: "string list"
  ps_cwd :: path
  ps_env :: "(string, string) hmap"

datatype process_end =
    TimedOut
  | NotStarted string
  | Exited "int option" bool string string

datatype api_end =
    ClientFailed string
  | RequestFailed string
  | Responded u16 "(string, string) hmap" "json option"

record exec_env =
  xe_files :: file_env
  xe_run :: "process_spec \<Rightarrow> nat \<Rightarrow> disk \<Rightarrow> process_end \<times> disk"
  xe_http :: "api_command \<Rightarrow> api_end"
  xe_chrome :: chrome
  xe_round :: "real \<Rightarrow> real"
  xe_duration_debug :: "nat \<Rightarrow> string"

record executor_stats =
  es_total_executions :: u64
  es_successful_executions :: u64
  es_failed_executions :: u64
  es_timeout_count :: u64
  es_avg_duration_ms :: real
  es_total_duration_ms :: u64

definition executor_stats_default :: executor_stats where
  "executor_stats_default =
     \<lparr>es_total_executions = 0, es_successful_executions = 0, es_failed_executions = 0,
      es_timeout_count = 0, es_avg_duration_ms = 0, es_total_duration_ms = 0\<rparr>"

text \<open>The executor with its browser, on a disk.\<close>

record command_executor =
  ce_workspace :: workspace
  ce_internal_work_dir :: string
  ce_default_timeout :: nat
  ce_max_output_size :: nat
  ce_stats :: executor_stats
  ce_browser :: browser
  ce_disk :: disk

definition executor_new :: "workspace \<Rightarrow> string \<Rightarrow> disk \<Rightarrow> command_executor" where
  "executor_new w internal d =
     \<lparr>ce_workspace = w, ce_internal_work_dir = internal, ce_default_timeout = 60000,
      ce_max_output_size = 10 * 1024 * 1024, ce_stats = executor_stats_default,
      ce_browser = browser_new, ce_disk = d\<rparr>"

subsection \<open>Processes\<close>

text \<open>The slice panics when it would cut a character in two.\<close>

definition limit_output :: "nat \<Rightarrow> string \<Rightarrow> string option" where
  "limit_output max_size out =
     (if length out \<le> max_size then Some out
      else if continuation (out ! max_size) then None
      else Some (take max_size out @ CHR 0x0A # ''... output truncated ...''))"

definition exit_debug :: "int option \<Rightarrow> string" where
  "exit_debug code =
     (case code of
        None \<Rightarrow> ''None''
      | Some n \<Rightarrow> ''Some('' @ (if n < 0 then CHR ''-'' # dec_string (nat (- n)) else dec_string (nat n)) @ '')'')"

definition process_output :: "string \<Rightarrow> nat \<Rightarrow> process_end \<Rightarrow> (node_error + command_output) option" where
  "process_output limit_debug max_size e =
     (case e of
        TimedOut \<Rightarrow> Some (Inl (TimeoutError (''Command timed out after '' @ limit_debug)))
      | NotStarted err \<Rightarrow> Some (Inl (exec_failed ''Failed to execute command'' err))
      | Exited code success out err \<Rightarrow>
          (case (limit_output max_size out, limit_output max_size err) of
             (Some out, Some err) \<Rightarrow>
               Some (if success
                     then Inr (OutText (if err = [] then out
                            else out @ (if out = [] then [] else [CHR 0x0A]) @ err))
                     else Inl (ExecutionErr (''Command failed with exit code '' @ exit_debug code
                            @ (if err = [] then [] else '': '' @ err))))
           | _ \<Rightarrow> None))"

type_synonym execution_result = "(node_error + command_output) option \<times> command_executor"

definition run_process :: "exec_env \<Rightarrow> process_spec \<Rightarrow> nat \<Rightarrow> command_executor \<Rightarrow> execution_result" where
  "run_process env spec timeout x =
     (let limit = (if timeout = 0 then ce_default_timeout x else timeout);
          (e, d) = xe_run env spec limit (ce_disk x)
      in (process_output (xe_duration_debug env limit) (ce_max_output_size x) e, x\<lparr>ce_disk := d\<rparr>))"

definition resolve_execution_dir :: "exec_env \<Rightarrow> command_executor \<Rightarrow> string option \<Rightarrow> node_error + path" where
  "resolve_execution_dir env x dir =
     (case (case dir of
              Some s \<Rightarrow> resolve_path (disk_fs (ce_disk x)) (ce_workspace x) s
            | None \<Rightarrow> Inr (ws_root (ce_workspace x))) of
        Inl err \<Rightarrow> Inl err
      | Inr resolved \<Rightarrow>
          (case can_access (env_on (xe_files env) (ce_disk x)) (ce_workspace x) (path_to_string resolved) False of
             Inl err \<Rightarrow> Inl err
           | Inr ok \<Rightarrow>
               if ok then Inr resolved
               else Inl (PermissionError
                 (''Working directory outside workspace: '' @ fe_debug (xe_files env) resolved))))"

definition looks_like_shell_script :: "string \<Rightarrow> bool" where
  "looks_like_shell_script cmd =
     list_ex (\<lambda>c. c \<in> set cmd) [CHR '' '', CHR ''|'', CHR ''&'', CHR '';'', CHR ''>'', CHR ''<'']"

definition execute_shell :: "exec_env \<Rightarrow> shell_command \<Rightarrow> command_executor \<Rightarrow> execution_result" where
  "execute_shell env cmd x =
     (case resolve_execution_dir env x (sh_cwd cmd) of
        Inl err \<Rightarrow> (Some (Inl err), x)
      | Inr cwd \<Rightarrow>
          (let spec = (if sh_args cmd = [] \<and> looks_like_shell_script (sh_command cmd)
                       then \<lparr>ps_program = ''sh'', ps_args = [''-c'', sh_command cmd], ps_cwd = cwd,
                             ps_env = sh_env cmd\<rparr>
                       else \<lparr>ps_program = sh_command cmd, ps_args = sh_args cmd, ps_cwd = cwd,
                             ps_env = sh_env cmd\<rparr>)
           in run_process env spec (sh_timeout cmd) x))"

subsection \<open>Code\<close>

definition ensure_internal_work_dir :: "exec_env \<Rightarrow> command_executor \<Rightarrow> (node_error + path) \<times> disk" where
  "ensure_internal_work_dir env x =
     (let d = ce_disk x; fe = xe_files env;
          internal = path_join (ws_root (ce_workspace x)) (path_of_string (ce_internal_work_dir x))
      in case can_access (env_on fe d) (ce_workspace x) (path_to_string internal) True of
           Inl err \<Rightarrow> (Inl err, d)
         | Inr ok \<Rightarrow>
             if \<not> ok
             then (Inl (PermissionError (''Internal work directory outside workspace: '' @ fe_debug fe internal)), d)
             else (case os_change fe (FsCreateDirAll internal) d (fs_create_dir_all d internal) of
                     (Some msg, d1) \<Rightarrow>
                       (Inl (exec_failed (''Failed to create internal work directory '' @ fe_debug fe internal) msg), d1)
                   | (None, d1) \<Rightarrow> (Inr internal, d1)))"

definition create_temp_code_file ::
  "exec_env \<Rightarrow> string \<Rightarrow> string \<Rightarrow> string \<Rightarrow> command_executor \<Rightarrow> (node_error + path) \<times> disk" where
  "create_temp_code_file env uuid extension content x =
     (let fe = xe_files env
      in case ensure_internal_work_dir env x of
           (Inl err, d) \<Rightarrow> (Inl err, d)
         | (Inr internal, d) \<Rightarrow>
             (let file_path = path_join internal (path_of_string (''code-'' @ uuid @ ''.'' @ extension))
              in case os_change fe (FsWrite file_path) d (fs_write d file_path content) of
                   (Some msg, d1) \<Rightarrow>
                     (Inl (exec_failed (''Failed to write temp file '' @ fe_debug fe file_path) msg), d1)
                 | (None, d1) \<Rightarrow> (Inr file_path, d1)))"

text \<open>Python, JavaScript and TypeScript: a temporary file, its runner, and the file removed again.\<close>

definition execute_script ::
  "exec_env \<Rightarrow> string \<Rightarrow> string \<Rightarrow> string \<Rightarrow> code_command \<Rightarrow> command_executor \<Rightarrow> execution_result" where
  "execute_script env uuid runner extension cmd x =
     (case resolve_execution_dir env x (cc_workdir cmd) of
        Inl err \<Rightarrow> (Some (Inl err), x)
      | Inr workdir \<Rightarrow>
          (case create_temp_code_file env uuid extension (cc_code cmd) x of
             (Inl err, d) \<Rightarrow> (Some (Inl err), x\<lparr>ce_disk := d\<rparr>)
           | (Inr temp_path, d) \<Rightarrow>
               (case run_process env
                       \<lparr>ps_program = runner, ps_args = [path_to_string temp_path], ps_cwd = workdir,
                        ps_env = cc_env cmd\<rparr> (cc_timeout cmd) (x\<lparr>ce_disk := d\<rparr>) of
                  (None, x1) \<Rightarrow> (None, x1)
                | (Some res, x1) \<Rightarrow>
                    (Some res,
                     x1\<lparr>ce_disk := snd (os_change (xe_files env) (FsRemoveFile temp_path) (ce_disk x1)
                                       (fs_remove_file (ce_disk x1) temp_path))\<rparr>))))"

definition execute_code :: "exec_env \<Rightarrow> string \<Rightarrow> code_command \<Rightarrow> command_executor \<Rightarrow> execution_result" where
  "execute_code env uuid cmd x =
     (case cc_language cmd of
        Python \<Rightarrow> execute_script env uuid ''python3'' ''py'' cmd x
      | JavaScript \<Rightarrow> execute_script env uuid ''node'' ''js'' cmd x
      | TypeScript \<Rightarrow> execute_script env uuid ''ts-node'' ''ts'' cmd x
      | ShellLang \<Rightarrow>
          execute_shell env
            \<lparr>sh_command = ''sh'', sh_args = [''-c'', cc_code cmd], sh_cwd = cc_workdir cmd,
             sh_env = cc_env cmd, sh_timeout = cc_timeout cmd, sh_capture_stderr = True\<rparr> x
      | Sql \<Rightarrow> (Some (Inl (ExecutionErr ''SQL should be executed via Database command'')), x)
      | Rust \<Rightarrow> (Some (Inl (ExecutionErr ''Rust execution not yet supported'')), x)
      | Go \<Rightarrow> (Some (Inl (ExecutionErr ''Go execution not yet supported'')), x))"

definition execute_api :: "exec_env \<Rightarrow> api_command \<Rightarrow> node_error + command_output" where
  "execute_api env cmd =
     (case xe_http env cmd of
        ClientFailed err \<Rightarrow> Inl (exec_failed ''Failed to create HTTP client'' err)
      | RequestFailed err \<Rightarrow> Inl (exec_failed ''API request failed'' err)
      | Responded status headers body \<Rightarrow> Inr (OutApiResponse status headers body))"

subsection \<open>The command\<close>

text \<open>Milliseconds the execution took and the UUID of a temporary file are arguments.\<close>

definition run_command :: "exec_env \<Rightarrow> string \<Rightarrow> command \<Rightarrow> command_executor \<Rightarrow> execution_result" where
  "run_command env uuid cmd x =
     (case cmd of
        File c \<Rightarrow>
          (case execute_file (xe_files env) (ce_workspace x) (ce_disk x) c of
             (res, d) \<Rightarrow> (Some res, x\<lparr>ce_disk := d\<rparr>))
      | Shell c \<Rightarrow> execute_shell env c x
      | Code c \<Rightarrow> execute_code env uuid c x
      | Database c \<Rightarrow> (Some (Inl (ExecutionErr ''Database execution not yet implemented'')), x)
      | Api c \<Rightarrow> (Some (execute_api env c), x)
      | Browser c \<Rightarrow>
          (case browser_execute (xe_chrome env) c (ce_browser x) of
             None \<Rightarrow> (None, x)
           | Some (res, b) \<Rightarrow> (Some res, x\<lparr>ce_browser := b\<rparr>))
      | Skill c \<Rightarrow> (Some (Inl (ExecutionErr ''Skill execution not yet implemented'')), x))"

fun is_timeout :: "node_error + 'a \<Rightarrow> bool" where
  "is_timeout (Inl (TimeoutError _)) = True"
| "is_timeout _ = False"

fun succeeded :: "node_error + 'a \<Rightarrow> bool" where
  "succeeded (Inr _) = True"
| "succeeded (Inl _) = False"

definition record_stats ::
  "(real \<Rightarrow> real) \<Rightarrow> u64 \<Rightarrow> node_error + 'a \<Rightarrow> executor_stats \<Rightarrow> executor_stats" where
  "record_stats rnd duration res s =
     (let total = es_total_executions s + 1; total_ms = es_total_duration_ms s + duration
      in \<lparr>es_total_executions = total,
          es_successful_executions = es_successful_executions s + (if succeeded res then 1 else 0),
          es_failed_executions = es_failed_executions s + (if succeeded res then 0 else 1),
          es_timeout_count = es_timeout_count s + (if is_timeout res then 1 else 0),
          es_avg_duration_ms = rnd (rnd (real (unat total_ms)) / rnd (real (unat total))),
          es_total_duration_ms = total_ms\<rparr>)"

definition with_duration :: "command_result \<Rightarrow> u64 \<Rightarrow> command_result" where
  "with_duration r ms = r\<lparr>cr_duration_ms := ms\<rparr>"

definition execute_unchecked ::
  "exec_env \<Rightarrow> string \<Rightarrow> u64 \<Rightarrow> command \<Rightarrow> command_executor \<Rightarrow>
   (node_error + command_result) option \<times> command_executor" where
  "execute_unchecked env uuid duration cmd x =
     (case run_command env uuid cmd x of
        (None, x1) \<Rightarrow> (None, x1)
      | (Some res, x1) \<Rightarrow>
          (let x2 = x1\<lparr>ce_stats := record_stats (xe_round env) duration res (ce_stats x1)\<rparr>
           in case res of
                Inl err \<Rightarrow> (Some (Inl err), x2)
              | Inr output \<Rightarrow> (Some (Inr (with_duration (command_success output) duration)), x2)))"

text \<open>With the permission check in front; the text of a refusal is the reason's.\<close>

definition execute_checked ::
  "exec_env \<Rightarrow> wall_clock \<Rightarrow> (deny_reason \<Rightarrow> string) \<Rightarrow> string \<Rightarrow> u64 \<Rightarrow> permission_manager \<Rightarrow> command \<Rightarrow>
   task_context \<Rightarrow> command_executor \<Rightarrow> (node_error + command_result) option \<times> command_executor" where
  "execute_checked env clk reason_text uuid duration pm cmd ctx x =
     (case permission_check (env_on (xe_files env) (ce_disk x)) clk uuid pm cmd ctx of
        Allowed \<Rightarrow> execute_unchecked env uuid duration cmd x
      | Denied reason \<Rightarrow> (Some (Inr (command_failure (permission_denied_error (reason_text reason)))), x)
      | RequiresApproval request_id reason \<Rightarrow>
          (Some (Inr (command_failure (with_retryable (permission_denied_error
             (''Operation requires approval. Request ID: '' @ request_id @ '', Reason: '' @ reason)) 1000))), x))"

end
