(* ===== verification/Node_Connection.thy ===== *)
theory Node_Connection
  imports Workspace
begin

section \<open>The node's connection to the Hub (\<^verbatim>\<open>uhorse-node-runtime/src/connection.rs\<close>)\<close>

text \<open>
  The loop that connects, registers, forwards what the Hub sends, sends what the node has to say, and
  reconnects. The WebSocket is a parameter: an attempt is what happened to it, in order, and a send is
  told to succeed or fail. \<open>hc_inbound\<close> is what was forwarded to the message handler and \<open>hc_wire\<close> what
  was written to the Hub, both oldest first. Another task may stop the connection at any time.
\<close>

record connection_config =
  cg_hub_url :: string
  cg_reconnect_interval_secs :: u64
  cg_heartbeat_interval_secs :: u64
  cg_connect_timeout_secs :: u64
  cg_max_reconnect_attempts :: u32
  cg_auth_token :: "string option"

definition connection_config_default :: connection_config where
  "connection_config_default =
     \<lparr>cg_hub_url = ''ws://localhost:8765/ws'', cg_reconnect_interval_secs = 5,
      cg_heartbeat_interval_secs = 30, cg_connect_timeout_secs = 10,
      cg_max_reconnect_attempts = 10, cg_auth_token = None\<rparr>"

datatype connection_state =
    ConnDisconnected
  | ConnConnecting
  | ConnConnected instant
  | ConnAuthenticating
  | ConnAuthenticated instant
  | ConnReconnecting u32
  | ConnFailed string

fun connection_state_display :: "connection_state \<Rightarrow> string" where
  "connection_state_display ConnDisconnected = ''disconnected''"
| "connection_state_display ConnConnecting = ''connecting''"
| "connection_state_display (ConnConnected _) = ''connected''"
| "connection_state_display ConnAuthenticating = ''authenticating''"
| "connection_state_display (ConnAuthenticated _) = ''authenticated''"
| "connection_state_display (ConnReconnecting attempt) =
     ''reconnecting(attempt='' @ dec_string (unat attempt) @ '')''"
| "connection_state_display (ConnFailed err) = ''failed('' @ err @ '')''"

record heartbeat_snapshot =
  hs_status :: node_status
  hs_load :: load_info

record hub_connection =
  hc_config :: connection_config
  hc_node_id :: node_id
  hc_node_name :: string
  hc_workspace_path :: string
  hc_capabilities :: node_capabilities
  hc_state :: connection_state
  hc_running :: bool
  hc_heartbeat_snapshot :: "heartbeat_snapshot option"
  hc_inbound :: "hub_to_node list"
  hc_wire :: "node_to_hub list"

definition connection_new ::
  "node_id \<Rightarrow> connection_config \<Rightarrow> string \<Rightarrow> string \<Rightarrow> node_capabilities \<Rightarrow> heartbeat_snapshot option \<Rightarrow> hub_connection" where
  "connection_new n config name workspace_path caps snapshot =
     \<lparr>hc_config = config, hc_node_id = n, hc_node_name = name, hc_workspace_path = workspace_path,
      hc_capabilities = caps, hc_state = ConnDisconnected, hc_running = False,
      hc_heartbeat_snapshot = snapshot, hc_inbound = [], hc_wire = []\<rparr>"

definition connection_start :: "hub_connection \<Rightarrow> node_error option \<times> hub_connection" where
  "connection_start c =
     (if hc_running c then (Some (ConnectionErr ''Connection already running''), c)
      else (None, c\<lparr>hc_running := True, hc_state := ConnConnecting\<rparr>))"

definition connection_stop :: "hub_connection \<Rightarrow> hub_connection" where
  "connection_stop c = c\<lparr>hc_running := False, hc_state := ConnDisconnected\<rparr>"

definition is_connected :: "hub_connection \<Rightarrow> bool" where
  "is_connected c =
     (case hc_state c of
        ConnConnected _ \<Rightarrow> True
      | ConnAuthenticating \<Rightarrow> True
      | ConnAuthenticated _ \<Rightarrow> True
      | _ \<Rightarrow> False)"

subsection \<open>One session\<close>

text \<open>
  What a pass of the select sees, with the time it is handled at and, for a message to send or to
  forward, whether that succeeds (\<open>Some\<close> is the error). A binary frame carries what it decodes to.
\<close>

datatype session_event =
    WsBinary "hub_to_node option" bool
  | WsPing bool
  | WsClose "string option"
  | WsOther
  | WsError string
  | WsEnded
  | Outbound node_to_hub "string option"
  | OutboundClosed
  | HeartbeatDue message_id "string option"
  | StopRequested

text \<open>Written to the Hub unless the send failed.\<close>

definition send_node_message ::
  "node_to_hub \<Rightarrow> string option \<Rightarrow> hub_connection \<Rightarrow> string option \<times> hub_connection" where
  "send_node_message msg failure c =
     (case failure of
        Some err \<Rightarrow> (Some err, c)
      | None \<Rightarrow> (None, c\<lparr>hc_wire := hc_wire c @ [msg]\<rparr>))"

definition register_message :: "message_id \<Rightarrow> instant \<Rightarrow> hub_connection \<Rightarrow> node_to_hub" where
  "register_message mid now c =
     Register mid (hc_node_id c) (hc_node_name c) (hc_capabilities c)
       \<lparr>wi_workspace_id = None,
        wi_name = (case file_name (path_of_string (hc_workspace_path c)) of Some n \<Rightarrow> n | None \<Rightarrow> ''workspace''),
        wi_path = hc_workspace_path c, wi_read_only = False,
        wi_allowed_patterns = [''**/*''], wi_denied_patterns = []\<rparr>
       (case cg_auth_token (hc_config c) of Some t \<Rightarrow> t | None \<Rightarrow> [])
       now"

definition close_reason :: "string option \<Rightarrow> string" where
  "close_reason frame =
     (case frame of
        Some reason \<Rightarrow>
          if trim reason = [] then ''Hub rejected node registration before confirmation'' else reason
      | None \<Rightarrow> ''Hub rejected node registration before confirmation'')"

text \<open>
  One event: whether the session goes on (\<open>None\<close>) or ends, and with which error. The flag says whether
  the Hub has confirmed the registration, which its first message does.
\<close>

type_synonym session_end = "node_error option"

fun session_event_step ::
  "instant \<Rightarrow> session_event \<Rightarrow> bool \<times> hub_connection \<Rightarrow> session_end option \<times> bool \<times> hub_connection" where
  "session_event_step now (WsBinary None _) (confirmed, c) = (None, confirmed, c)"
| "session_event_step now (WsBinary (Some msg) forwarded) (confirmed, c) =
     (let c1 = (if confirmed then c else c\<lparr>hc_state := ConnAuthenticated now\<rparr>)
      in if forwarded then (None, True, c1\<lparr>hc_inbound := hc_inbound c1 @ [msg]\<rparr>)
         else (Some None, True, c1))"
| "session_event_step now (WsPing answered) (confirmed, c) =
     ((if answered then None else Some None), confirmed, c)"
| "session_event_step now (WsClose frame) (confirmed, c) =
     ((if confirmed then Some None else Some (Some (ConnectionErr (close_reason frame)))), confirmed, c)"
| "session_event_step now WsOther (confirmed, c) = (None, confirmed, c)"
| "session_event_step now (WsError _) (confirmed, c) = (Some None, confirmed, c)"
| "session_event_step now WsEnded (confirmed, c) =
     ((if confirmed then Some None
       else Some (Some (ConnectionErr ''Hub closed connection before registration confirmation''))), confirmed, c)"
| "session_event_step now (Outbound msg failure) (confirmed, c) =
     (case send_node_message msg failure c of
        (Some _, c1) \<Rightarrow> (Some None, confirmed, c1)
      | (None, c1) \<Rightarrow> (None, confirmed, c1))"
| "session_event_step now OutboundClosed (confirmed, c) = (Some None, confirmed, c)"
| "session_event_step now (HeartbeatDue mid failure) (confirmed, c) =
     (case hc_heartbeat_snapshot c of
        None \<Rightarrow> (None, confirmed, c)
      | Some s \<Rightarrow>
          (case send_node_message (Heartbeat mid (hc_node_id c) (hs_status s) (hs_load s) now) failure c of
             (Some _, c1) \<Rightarrow> (Some None, confirmed, c1)
           | (None, c1) \<Rightarrow> (None, confirmed, c1)))"
| "session_event_step now StopRequested (confirmed, c) = (None, confirmed, connection_stop c)"

text \<open>
  The loop: \<open>running\<close> is read before each wait, so a stop during a wait takes effect only after the
  event waited for. A session that is still waiting has no end.
\<close>

fun session_wait ::
  "(instant \<times> session_event) list \<Rightarrow> bool \<times> hub_connection \<Rightarrow> session_end option \<times> bool \<times> hub_connection" where
  "session_wait [] s = (None, s)"
| "session_wait ((now, e) # es) s =
     (case session_event_step now e s of
        (Some r, s1) \<Rightarrow> (Some r, s1)
      | (None, s1) \<Rightarrow>
          if e \<noteq> StopRequested \<and> \<not> hc_running (snd s1) then (Some None, s1) else session_wait es s1)"

definition session_loop ::
  "(instant \<times> session_event) list \<Rightarrow> hub_connection \<Rightarrow> session_end option \<times> bool \<times> hub_connection" where
  "session_loop es c = (if hc_running c then session_wait es (False, c) else (Some None, False, c))"

datatype connect_end =
    ConnectTimedOut
  | ConnectFailed string
  | ConnectOk

text \<open>An attempt: how connecting ended and when, whether it was stopped meanwhile, the registration and its fate, and what followed.\<close>

record attempt =
  at_connect :: connect_end
  at_stop_in_connect :: bool
  at_connected_at :: instant
  at_registered_at :: instant
  at_message_id :: message_id
  at_register_failure :: "string option"
  at_events :: "(instant \<times> session_event) list"
  at_stop_in_pause :: bool

definition connect_and_run :: "attempt \<Rightarrow> hub_connection \<Rightarrow> session_end option \<times> hub_connection" where
  "connect_and_run a c0 =
     (let c = (if at_stop_in_connect a then connection_stop c0 else c0)
      in case at_connect a of
        ConnectTimedOut \<Rightarrow> (Some (Some (TimeoutError ''Connection timeout'')), c)
      | ConnectFailed err \<Rightarrow> (Some (Some (ConnectionErr (''Failed to connect: '' @ err))), c)
      | ConnectOk \<Rightarrow>
          (let c1 = c\<lparr>hc_state := ConnConnected (at_connected_at a)\<rparr>;
               reg = register_message (at_message_id a) (at_registered_at a) c1;
               c2 = c1\<lparr>hc_state := ConnAuthenticating\<rparr>
           in case send_node_message reg (at_register_failure a) c2 of
                (Some err, c3) \<Rightarrow> (Some (Some (ConnectionErr (''Failed to send register message: '' @ err))), c3)
              | (None, c3) \<Rightarrow>
                  (case session_loop (at_events a) c3 of (r, _, c4) \<Rightarrow> (r, c4))))"

subsection \<open>Reconnecting\<close>

text \<open>
  The attempts one after the other, with the count of failures in a row; the text of an error is a
  parameter. \<open>True\<close> says the loop has ended.
\<close>

fun connection_loop ::
  "(node_error \<Rightarrow> string) \<Rightarrow> u32 \<Rightarrow> attempt list \<Rightarrow> hub_connection \<Rightarrow> bool \<times> hub_connection" where
  "connection_loop render failures ats c =
     (if \<not> hc_running c then (True, c\<lparr>hc_state := ConnDisconnected\<rparr>)
      else case ats of
        [] \<Rightarrow> (False, c)
      | a # rest \<Rightarrow>
          (case connect_and_run a c of
             (None, c1) \<Rightarrow> (False, c1)
           | (Some None, c1) \<Rightarrow> connection_loop render 0 rest c1
           | (Some (Some err), c1) \<Rightarrow>
               (let failures1 = failures + 1
                in if cg_max_reconnect_attempts (hc_config c1) < failures1
                   then (let c2 = c1\<lparr>hc_state := ConnFailed (render err)\<rparr>
                         in (True, c2\<lparr>hc_state := ConnDisconnected\<rparr>))
                   else (let c2 = c1\<lparr>hc_state := ConnReconnecting failures1\<rparr>
                         in connection_loop render failures1 rest
                              (if at_stop_in_pause a then connection_stop c2 else c2)))))"

declare connection_loop.simps [simp del]

subsection \<open>Facts\<close>

lemma connection_stop_fields [simp]:
  "hc_running (connection_stop c) = False" "hc_state (connection_stop c) = ConnDisconnected"
  "hc_config (connection_stop c) = hc_config c" "hc_wire (connection_stop c) = hc_wire c"
  "hc_node_id (connection_stop c) = hc_node_id c" "hc_inbound (connection_stop c) = hc_inbound c"
  by (simp_all add: connection_stop_def)

text \<open>What a step does to the record.\<close>

definition forwarded_by :: "session_event \<Rightarrow> hub_to_node list" where
  "forwarded_by e = (case e of WsBinary (Some msg) True \<Rightarrow> [msg] | _ \<Rightarrow> [])"

definition own_message :: "node_id \<Rightarrow> (instant \<times> session_event) list \<Rightarrow> node_to_hub \<Rightarrow> bool" where
  "own_message n es msg \<longleftrightarrow> list_ex (\<lambda>(t, e). case e of
     Outbound m None \<Rightarrow> m = msg
   | HeartbeatDue mid None \<Rightarrow> (case msg of Heartbeat mid' n' _ _ t' \<Rightarrow> mid' = mid \<and> n' = n \<and> t' = t | _ \<Rightarrow> False)
   | _ \<Rightarrow> False) es"

lemma step_inbound:
  "session_event_step now e (conf, c) = (r, conf', c') \<Longrightarrow> hc_inbound c' = hc_inbound c @ forwarded_by e"
  by (cases "(now, e, (conf, c))" rule: session_event_step.cases)
     (auto simp: forwarded_by_def send_node_message_def Let_def split: option.splits if_splits)

lemma step_fixed:
  "session_event_step now e (conf, c) = (r, conf', c') \<Longrightarrow>
     hc_config c' = hc_config c \<and> hc_node_id c' = hc_node_id c"
  by (cases "(now, e, (conf, c))" rule: session_event_step.cases)
     (auto simp: send_node_message_def Let_def split: option.splits if_splits)

lemma step_wire:
  "session_event_step now e (conf, c) = (r, conf', c') \<Longrightarrow>
     \<exists>sent. hc_wire c' = hc_wire c @ sent \<and> list_all (own_message (hc_node_id c) [(now, e)]) sent"
  by (cases "(now, e, (conf, c))" rule: session_event_step.cases)
     (auto simp: send_node_message_def own_message_def Let_def split: option.splits if_splits)

lemma step_state:
  "session_event_step now e (conf, c) = (r, conf', c') \<Longrightarrow>
     hc_state c' = hc_state c \<or> hc_state c' = ConnDisconnected \<or>
     (\<not> conf \<and> hc_state c' = ConnAuthenticated now \<and> (\<exists>msg ok. e = WsBinary (Some msg) ok))"
  by (cases "(now, e, (conf, c))" rule: session_event_step.cases)
     (auto simp: send_node_message_def Let_def split: option.splits if_splits)

lemma wait_fixed:
  "session_wait es s = (r, s') \<Longrightarrow> hc_config (snd s') = hc_config (snd s) \<and> hc_node_id (snd s') = hc_node_id (snd s)"
proof (induction es s rule: session_wait.induct)
  case (2 now e es s)
  obtain r1 conf1 c1 where step: "session_event_step now e s = (r1, conf1, c1)" by (metis prod_cases3)
  have "hc_config c1 = hc_config (snd s)" "hc_node_id c1 = hc_node_id (snd s)"
    using step_fixed [of now e "fst s" "snd s"] step by auto
  then show ?case using 2 step by (auto split: option.splits if_splits)
qed auto

lemma own_message_mono: "own_message n es msg \<Longrightarrow> set es \<subseteq> set fs \<Longrightarrow> own_message n fs msg"
  by (auto simp: own_message_def list_ex_iff)

lemma wait_wire:
  "session_wait es s = (r, s') \<Longrightarrow>
     \<exists>sent. hc_wire (snd s') = hc_wire (snd s) @ sent \<and> list_all (own_message (hc_node_id (snd s)) es) sent"
proof (induction es s rule: session_wait.induct)
  case (2 now e es s)
  obtain r1 conf1 c1 where step: "session_event_step now e s = (r1, conf1, c1)" by (metis prod_cases3)
  obtain sent where sent: "hc_wire c1 = hc_wire (snd s) @ sent"
      "list_all (own_message (hc_node_id (snd s)) [(now, e)]) sent"
    using step_wire [of now e "fst s" "snd s"] step by auto
  have node: "hc_node_id c1 = hc_node_id (snd s)"
    using step_fixed [of now e "fst s" "snd s"] step by auto
  have here: "list_all (own_message (hc_node_id (snd s)) ((now, e) # es)) sent"
    using sent(2) by (auto simp: list_all_iff intro: own_message_mono)
  show ?case
  proof (cases "r1 = None \<and> \<not> (e \<noteq> StopRequested \<and> \<not> hc_running c1)")
    case True
    then obtain sent' where "hc_wire (snd s') = hc_wire c1 @ sent'"
        "list_all (own_message (hc_node_id c1) es) sent'"
      using 2 step by (auto split: if_splits)
    moreover have "list_all (own_message (hc_node_id (snd s)) ((now, e) # es)) sent'"
      using calculation(2) node by (auto simp: list_all_iff intro: own_message_mono)
    ultimately show ?thesis using sent(1) here by auto
  next
    case False
    then have "snd s' = c1" using 2 step by (auto split: option.splits if_splits)
    then show ?thesis using sent(1) here by auto
  qed
qed auto

lemma wait_state:
  "session_wait es s = (r, s') \<Longrightarrow>
     hc_state (snd s') = hc_state (snd s) \<or> hc_state (snd s') = ConnDisconnected \<or>
     (\<exists>t msg ok. hc_state (snd s') = ConnAuthenticated t \<and> (t, WsBinary (Some msg) ok) \<in> set es)"
proof (induction es s rule: session_wait.induct)
  case (2 now e es s)
  obtain r1 conf1 c1 where step: "session_event_step now e s = (r1, conf1, c1)" by (metis prod_cases3)
  have one: "hc_state c1 = hc_state (snd s) \<or> hc_state c1 = ConnDisconnected \<or>
      (hc_state c1 = ConnAuthenticated now \<and> (\<exists>msg ok. e = WsBinary (Some msg) ok))"
    using step_state [of now e "fst s" "snd s"] step by auto
  show ?case
  proof (cases "r1 = None \<and> \<not> (e \<noteq> StopRequested \<and> \<not> hc_running c1)")
    case True
    then have "hc_state (snd s') = hc_state c1 \<or> hc_state (snd s') = ConnDisconnected \<or>
        (\<exists>t msg ok. hc_state (snd s') = ConnAuthenticated t \<and> (t, WsBinary (Some msg) ok) \<in> set es)"
      using 2 step by (auto split: if_splits)
    then show ?thesis using one by (metis list.set_intros(1,2))
  next
    case False
    then have "snd s' = c1" using 2 step by (auto split: option.splits if_splits)
    then show ?thesis using one by auto
  qed
qed auto

subsection \<open>Properties\<close>

text \<open>
  C14: registration comes first. What a connection attempt writes to the Hub is nothing, or the
  registration with the node's own id and the configured token followed only by messages the node
  handed over and heartbeats of this node; and the node counts as authenticated only at the time it
  handled a message of the Hub that it could decode.
\<close>

theorem registration_first:
  assumes "connect_and_run a c = (r, c')"
  shows "(hc_wire c' = hc_wire c \<or>
      (\<exists>sent. hc_wire c' = hc_wire c @ register_message (at_message_id a) (at_registered_at a) c # sent \<and>
         list_all (own_message (hc_node_id c) (at_events a)) sent)) \<and>
    (\<forall>t. hc_state c' = ConnAuthenticated t \<longrightarrow>
       hc_state c = ConnAuthenticated t \<or> (\<exists>msg ok. (t, WsBinary (Some msg) ok) \<in> set (at_events a)))"
proof -
  define c0 where "c0 = (if at_stop_in_connect a then connection_stop c else c)"
  have c0: "hc_wire c0 = hc_wire c" "hc_node_id c0 = hc_node_id c"
    "hc_state c0 = hc_state c \<or> hc_state c0 = ConnDisconnected"
    "register_message m t (c0\<lparr>hc_state := st\<rparr>) = register_message m t c" for m t st
    by (simp_all add: c0_def connection_stop_def register_message_def)
  show ?thesis
  proof (cases "at_connect a = ConnectOk \<and> at_register_failure a = None")
    case False
    then have "hc_wire c' = hc_wire c" "hc_state c' = hc_state c0 \<or> hc_state c' = ConnAuthenticating"
      using assms c0 unfolding connect_and_run_def c0_def [symmetric]
      by (auto simp: send_node_message_def Let_def split: connect_end.splits option.splits)
    then show ?thesis using c0(3) by auto
  next
    case True
    let ?reg = "register_message (at_message_id a) (at_registered_at a) c"
    let ?c3 = "c0\<lparr>hc_state := ConnAuthenticating, hc_wire := hc_wire c @ [?reg]\<rparr>"
    obtain conf where "session_loop (at_events a) ?c3 = (r, conf, c')"
      using assms True c0 unfolding connect_and_run_def c0_def [symmetric]
      by (auto simp: send_node_message_def Let_def split: prod.splits)
    then have "c' = ?c3 \<or> session_wait (at_events a) (False, ?c3) = (r, conf, c')"
      by (auto simp: session_loop_def split: if_splits)
    then show ?thesis
    proof
      assume w: "session_wait (at_events a) (False, ?c3) = (r, conf, c')"
      show ?thesis using wait_wire [OF w] wait_state [OF w] c0 by auto
    qed auto
  qed
qed

definition example_attempt :: attempt where
  "example_attempt =
     \<lparr>at_connect = ConnectOk, at_stop_in_connect = False, at_connected_at = 1, at_registered_at = 2,
      at_message_id = MessageId ''m'', at_register_failure = None,
      at_events = [(3, WsBinary (Some (HeartbeatRequest (MessageId ''h'') 3)) True)],
      at_stop_in_pause = False\<rparr>"

definition example_connection :: hub_connection where
  "example_connection =
     snd (connection_start (connection_new (NodeId ''n'') (connection_config_default\<lparr>cg_auth_token := Some ''secret''\<rparr>)
       ''node'' ''/w'' node_capabilities_default None))"

theorem registration_first_witness:
  "hc_wire (snd (connect_and_run example_attempt example_connection)) =
     [register_message (MessageId ''m'') 2 example_connection] \<and>
   hc_state (snd (connect_and_run example_attempt example_connection)) = ConnAuthenticated 3"
proof -
  have "hc_wire (snd (connect_and_run example_attempt example_connection)) \<noteq> hc_wire example_connection"
    "length (hc_wire (snd (connect_and_run example_attempt example_connection))) = 1"
    "hc_wire example_connection = []"
    "hc_state (snd (connect_and_run example_attempt example_connection)) = ConnAuthenticated 3"
    by (simp_all add: connect_and_run_def example_attempt_def example_connection_def connection_new_def
        connection_start_def session_loop_def send_node_message_def Let_def)
  then show ?thesis
    using registration_first [OF prod.collapse [symmetric], of example_attempt example_connection]
    by (auto simp: example_attempt_def)
qed

lemma connection_loop_end: "connection_loop render k ats c = (True, c') \<Longrightarrow> hc_state c' = ConnDisconnected"
proof (induction ats arbitrary: k c)
  case Nil
  then show ?case unfolding connection_loop.simps [of render k "[]" c] by (auto split: if_splits)
next
  case (Cons a ats)
  then show ?case
    unfolding connection_loop.simps [of render k "a # ats" c]
    by (auto simp: Let_def split: if_splits prod.splits option.splits)
qed

lemma failed_attempt:
  "at_connect a \<noteq> ConnectOk \<Longrightarrow> \<not> at_stop_in_connect a \<Longrightarrow> \<exists>err. connect_and_run a c = (Some (Some err), c)"
  by (cases "at_connect a") (simp_all add: connect_and_run_def)

lemma reconnect_count:
  assumes "list_all (\<lambda>a. at_connect a \<noteq> ConnectOk \<and> \<not> at_stop_in_connect a \<and> \<not> at_stop_in_pause a) ats"
    and "hc_running c" and "cg_max_reconnect_attempts (hc_config c) = m" and "m \<noteq> - 1" and "k \<le> m"
  shows "connection_loop render k ats c =
     (if unat k + length ats \<le> unat m
      then (False, if ats = [] then c else c\<lparr>hc_state := ConnReconnecting (k + of_nat (length ats))\<rparr>)
      else (True, c\<lparr>hc_state := ConnDisconnected\<rparr>))"
  using assms
proof (induction ats arbitrary: k c)
  case Nil
  then show ?case by (simp add: connection_loop.simps [of render k "[]" c] word_le_nat_alt)
next
  case (Cons a ats)
  obtain err where run: "connect_and_run a c = (Some (Some err), c)"
    using failed_attempt Cons.prems(1) by auto
  have "unat m \<noteq> 4294967295"
  proof
    assume "unat m = 4294967295"
    then have "m = word_of_nat 4294967295" by (metis of_nat_unat ucast_id)
    then show False using \<open>m \<noteq> - 1\<close> by simp
  qed
  moreover have "unat k \<le> unat m" "unat m < 4294967296"
    using \<open>k \<le> m\<close> unsigned_less [of m, where 'a = nat] by (simp_all add: word_le_nat_alt)
  ultimately have next_k: "unat (k + 1) = unat k + 1"
    by (simp add: unat_word_ariths)
  show ?case
  proof (cases "m < k + 1")
    case True
    then have "unat k = unat m" using \<open>k \<le> m\<close> next_k by (simp add: word_le_nat_alt word_less_nat_alt)
    then show ?thesis
      using True Cons.prems run by (simp add: connection_loop.simps [of render k "a # ats" c] Let_def)
  next
    case False
    have "connection_loop render k (a # ats) c =
        connection_loop render (k + 1) ats (c\<lparr>hc_state := ConnReconnecting (k + 1)\<rparr>)"
      using False Cons.prems run by (simp add: connection_loop.simps [of render k "a # ats" c] Let_def)
    also have "\<dots> = (if unat (k + 1) + length ats \<le> unat m
      then (False, if ats = [] then c\<lparr>hc_state := ConnReconnecting (k + 1)\<rparr>
            else c\<lparr>hc_state := ConnReconnecting (k + 1 + of_nat (length ats))\<rparr>)
      else (True, c\<lparr>hc_state := ConnDisconnected\<rparr>))"
      using Cons.IH [of "c\<lparr>hc_state := ConnReconnecting (k + 1)\<rparr>" "k + 1"] Cons.prems False by simp
    finally show ?thesis using next_k by (simp add: add.assoc)
  qed
qed

text \<open>
  C16: the node gives up after a bounded number of failures. When no connection comes about and nobody
  stops the node, the loop ends exactly when there were more attempts than the configured maximum, and
  until then the state shows how many failed; after it, the state is disconnected.
\<close>

theorem reconnect_bounded:
  assumes "list_all (\<lambda>a. at_connect a \<noteq> ConnectOk \<and> \<not> at_stop_in_connect a \<and> \<not> at_stop_in_pause a) ats"
    and "hc_running c" and "cg_max_reconnect_attempts (hc_config c) \<noteq> - 1"
  shows "connection_loop render 0 ats c =
     (if length ats \<le> unat (cg_max_reconnect_attempts (hc_config c))
      then (False, if ats = [] then c else c\<lparr>hc_state := ConnReconnecting (of_nat (length ats))\<rparr>)
      else (True, c\<lparr>hc_state := ConnDisconnected\<rparr>))"
  using reconnect_count [OF assms(1,2) refl assms(3), of 0 render] by simp

definition refused_attempt :: attempt where
  "refused_attempt = example_attempt\<lparr>at_connect := ConnectFailed ''refused''\<rparr>"

theorem reconnect_bounded_witness:
  "connection_loop (\<lambda>_. ''err'') 0 (replicate 11 refused_attempt) example_connection =
     (True, example_connection\<lparr>hc_state := ConnDisconnected\<rparr>) \<and>
   hc_state (snd (connection_loop (\<lambda>_. ''err'') 0 (replicate 10 refused_attempt) example_connection)) =
     ConnReconnecting 10"
proof -
  have c: "hc_running example_connection" "cg_max_reconnect_attempts (hc_config example_connection) = 10"
    by (simp_all add: example_connection_def connection_start_def connection_new_def connection_config_default_def)
  have a: "list_all (\<lambda>a. at_connect a \<noteq> ConnectOk \<and> \<not> at_stop_in_connect a \<and> \<not> at_stop_in_pause a)
      (replicate n refused_attempt)" for n
    by (simp add: refused_attempt_def example_attempt_def list_all_iff)
  show ?thesis
    using reconnect_bounded [OF a c(1), of "\<lambda>_. ''err''"] c by simp
qed

end
