(* ===== verification/Versioning.thy ===== *)
theory Versioning
  imports Node_Files
begin

section \<open>Versions of a workspace (\<^verbatim>\<open>uhorse-node-runtime/src/versioning.rs\<close>)\<close>

text \<open>
  What the node asks git for and what it reads from its answers. Git is a parameter, a function of the
  directory, the arguments and the state of its repository; the parser of RFC 3339 times is one too. A
  slice inside a character panics, which is the value \<open>None\<close>. The audit entries are not modelled.
\<close>

datatype git_end =
    GitNotRun string
  | GitDone bool string string

type_synonym 'g git = "path \<Rightarrow> string list \<Rightarrow> 'g \<Rightarrow> git_end \<times> 'g"

text \<open>Steps after each other, an error ending the sequence.\<close>

type_synonym ('a, 'g) git_step = "'g \<Rightarrow> (node_error + 'a) \<times> 'g"

definition git_then :: "('a, 'g) git_step \<Rightarrow> ('a \<Rightarrow> ('b, 'g) git_step) \<Rightarrow> ('b, 'g) git_step" where
  "git_then m f g =
     (case m g of
        (Inl err, g') \<Rightarrow> (Inl err, g')
      | (Inr x, g') \<Rightarrow> f x g')"

definition git_pure :: "node_error + 'a \<Rightarrow> ('a, 'g) git_step" where
  "git_pure res g = (res, g)"

definition is_git_repo :: "'g git \<Rightarrow> workspace \<Rightarrow> 'g \<Rightarrow> bool \<times> 'g" where
  "is_git_repo git w g =
     (case git (ws_root w) [''rev-parse'', ''--is-inside-work-tree''] g of
        (GitNotRun _, g') \<Rightarrow> (False, g')
      | (GitDone success out _, g') \<Rightarrow> (success \<and> trim out = ''true'', g'))"

definition ensure_git_repo :: "'g git \<Rightarrow> workspace \<Rightarrow> (unit, 'g) git_step" where
  "ensure_git_repo git w g =
     (case is_git_repo git w g of
        (ok, g') \<Rightarrow>
          (if ok then Inr ()
           else Inl (ExecutionErr (''Workspace is not a git repository: '' @ path_to_string (ws_root w))), g'))"

definition run_git :: "'g git \<Rightarrow> workspace \<Rightarrow> string list \<Rightarrow> (string, 'g) git_step" where
  "run_git git w args g =
     (case git (ws_root w) args g of
        (GitNotRun err, g') \<Rightarrow> (Inl (ExecutionErr (''Failed to run git: '' @ err)), g')
      | (GitDone success out err, g') \<Rightarrow>
          (if success then Inr (trim out)
           else Inl (ExecutionErr (''git '' @ join_with '' '' args @ '' failed: '' @ trim err)), g'))"

subsection \<open>Reading git's answers\<close>

datatype file_change_kind =
    Unmodified | AddedFile | Modified | Deleted | Renamed | Copied | Untracked | Unmerged | UnknownChange

definition from_porcelain :: "char \<Rightarrow> file_change_kind" where
  "from_porcelain c =
     (if c = CHR '' '' then Unmodified
      else if c = CHR ''A'' then AddedFile
      else if c = CHR ''M'' then Modified
      else if c = CHR ''D'' then Deleted
      else if c = CHR ''R'' then Renamed
      else if c = CHR ''C'' then Copied
      else if c = CHR ''?'' then Untracked
      else if c = CHR ''U'' then Unmerged
      else UnknownChange)"

record version_status_entry =
  ve_path :: string
  ve_staged_status :: file_change_kind
  ve_unstaged_status :: file_change_kind

definition first_char :: "string \<Rightarrow> char" where
  "first_char s = (case s of [] \<Rightarrow> CHR '' '' | c # _ \<Rightarrow> c)"

text \<open>The slice from byte three panics inside a character.\<close>

definition from_porcelain_line :: "path \<Rightarrow> string \<Rightarrow> (node_error + version_status_entry) option" where
  "from_porcelain_line rt line =
     (if length line < 4
      then Some (Inl (ExecutionErr (''Invalid git status line in '' @ path_to_string rt @ '': '' @ line)))
      else if continuation (line ! 3) then None
      else Some (Inr \<lparr>ve_path = trim (drop 3 line),
                      ve_staged_status = from_porcelain (first_char line),
                      ve_unstaged_status = from_porcelain (first_char (skip_chars 1 line))\<rparr>))"

record version_status =
  vs_branch :: string
  vs_dirty :: bool
  vs_entries :: "version_status_entry list"
  vs_generated_at :: instant

fun before_text :: "string \<Rightarrow> string \<Rightarrow> string" where
  "before_text sep [] = []"
| "before_text sep (c # s) = (if starts_with (c # s) sep then [] else c # before_text sep s)"

fun status_lines ::
  "path \<Rightarrow> string list \<Rightarrow> string \<times> version_status_entry list \<Rightarrow>
   (node_error + string \<times> version_status_entry list) option" where
  "status_lines rt [] acc = Some (Inr acc)"
| "status_lines rt (line # rest) (branch, entries) =
     (if starts_with line ''## ''
      then status_lines rt rest (trim (before_text ''...'' (drop 3 line)), entries)
      else if trim line = [] then status_lines rt rest (branch, entries)
      else case from_porcelain_line rt line of
             None \<Rightarrow> None
           | Some (Inl err) \<Rightarrow> Some (Inl err)
           | Some (Inr e) \<Rightarrow> status_lines rt rest (branch, entries @ [e]))"

definition from_git_status :: "path \<Rightarrow> instant \<Rightarrow> string \<Rightarrow> (node_error + version_status) option" where
  "from_git_status rt now output =
     (case status_lines rt (str_lines output) (''HEAD'', []) of
        None \<Rightarrow> None
      | Some (Inl err) \<Rightarrow> Some (Inl err)
      | Some (Inr (branch, entries)) \<Rightarrow>
          Some (Inr \<lparr>vs_branch = branch, vs_dirty = (entries \<noteq> []), vs_entries = entries,
                     vs_generated_at = now\<rparr>))"

record checkpoint_record =
  ck_revision :: string
  ck_message :: string
  ck_created_at :: instant

definition from_log_line :: "(string \<Rightarrow> string + instant) \<Rightarrow> string \<Rightarrow> node_error + checkpoint_record" where
  "from_log_line parse_time line =
     (let parts = split_on (CHR 0x1F) line; revision = parts ! 0
      in if revision = [] then Inl (ExecutionErr ''Missing checkpoint revision'')
         else if length parts < 2 \<or> parts ! 1 = [] then Inl (ExecutionErr ''Missing checkpoint message'')
         else if length parts < 3 then Inl (ExecutionErr ''Missing checkpoint timestamp'')
         else case parse_time (parts ! 2) of
                Inl err \<Rightarrow> Inl (ExecutionErr (''Invalid checkpoint timestamp: '' @ err))
              | Inr t \<Rightarrow> Inr \<lparr>ck_revision = revision, ck_message = parts ! 1, ck_created_at = t\<rparr>)"

text \<open>Collecting results stops at the first error.\<close>

fun collect_results :: "('e + 'a) list \<Rightarrow> 'e + 'a list" where
  "collect_results [] = Inr []"
| "collect_results (Inl err # rest) = Inl err"
| "collect_results (Inr x # rest) =
     (case collect_results rest of Inl err \<Rightarrow> Inl err | Inr xs \<Rightarrow> Inr (x # xs))"

subsection \<open>The manager\<close>

text \<open>A result that may be a panic.\<close>

definition git_read :: "(string \<Rightarrow> (node_error + 'a) option) \<Rightarrow> (node_error + string) \<times> 'g \<Rightarrow> (node_error + 'a) option \<times> 'g" where
  "git_read f res =
     (case res of
        (Inl err, g) \<Rightarrow> (Some (Inl err), g)
      | (Inr out, g) \<Rightarrow> (f out, g))"

definition vm_status :: "'g git \<Rightarrow> workspace \<Rightarrow> instant \<Rightarrow> 'g \<Rightarrow> (node_error + version_status) option \<times> 'g" where
  "vm_status git w now g =
     git_read (from_git_status (ws_root w) now)
       (git_then (ensure_git_repo git w) (\<lambda>_. run_git git w [''status'', ''--short'', ''--branch'']) g)"

datatype diff_target =
    WorkingTree
  | Staged
  | RevisionRange string string

fun diff_args :: "diff_target \<Rightarrow> string list" where
  "diff_args WorkingTree = [''diff'', ''--'']"
| "diff_args Staged = [''diff'', ''--cached'', ''--'']"
| "diff_args (RevisionRange start stop) = [''diff'', start, stop, ''--'']"

record workspace_diff =
  wd_target :: diff_target
  wd_patch :: string
  wd_generated_at :: instant

definition vm_diff :: "'g git \<Rightarrow> workspace \<Rightarrow> instant \<Rightarrow> diff_target \<Rightarrow> (workspace_diff, 'g) git_step" where
  "vm_diff git w now target =
     git_then (ensure_git_repo git w) (\<lambda>_.
     git_then (run_git git w (diff_args target)) (\<lambda>output.
       git_pure (Inr \<lparr>wd_target = target, wd_patch = output, wd_generated_at = now\<rparr>)))"

definition log_format :: string where
  "log_format = ''--pretty=format:%H%x1f%s%x1f%cI''"

definition current_checkpoint ::
  "'g git \<Rightarrow> (string \<Rightarrow> string + instant) \<Rightarrow> workspace \<Rightarrow> (checkpoint_record, 'g) git_step" where
  "current_checkpoint git parse_time w =
     git_then (ensure_git_repo git w) (\<lambda>_.
     git_then (run_git git w [''log'', ''-1'', log_format]) (\<lambda>output.
       git_pure (from_log_line parse_time output)))"

definition create_checkpoint ::
  "'g git \<Rightarrow> (string \<Rightarrow> string + instant) \<Rightarrow> workspace \<Rightarrow> string \<Rightarrow> bool \<Rightarrow> (checkpoint_record, 'g) git_step" where
  "create_checkpoint git parse_time w message include_untracked =
     git_then (ensure_git_repo git w) (\<lambda>_.
     git_then (run_git git w (if include_untracked then [''add'', ''.''] else [''add'', ''-u''])) (\<lambda>_.
     git_then (run_git git w [''status'', ''--short'']) (\<lambda>status.
       if trim status = [] then git_pure (Inl (ExecutionErr ''No workspace changes available for checkpoint''))
       else git_then (run_git git w [''commit'', ''-m'', message]) (\<lambda>_.
              current_checkpoint git parse_time w))))"

definition list_checkpoints ::
  "'g git \<Rightarrow> (string \<Rightarrow> string + instant) \<Rightarrow> workspace \<Rightarrow> nat \<Rightarrow> (checkpoint_record list, 'g) git_step" where
  "list_checkpoints git parse_time w limit =
     git_then (ensure_git_repo git w) (\<lambda>_.
     git_then (run_git git w [''log'', CHR ''-'' # dec_string (max limit 1), log_format]) (\<lambda>output.
       git_pure (collect_results
         (map (from_log_line parse_time) (filter (\<lambda>l. trim l \<noteq> []) (str_lines output))))))"

record restore_preview =
  rp_revision :: string
  rp_patch :: string
  rp_status_before :: version_status
  rp_generated_at :: instant

definition preview_restore ::
  "'g git \<Rightarrow> workspace \<Rightarrow> instant \<Rightarrow> string \<Rightarrow> 'g \<Rightarrow> (node_error + restore_preview) option \<times> 'g" where
  "preview_restore git w now revision g =
     (case git_then (ensure_git_repo git w) (\<lambda>_. run_git git w [''diff'', revision, ''--'']) g of
        (Inl err, g1) \<Rightarrow> (Some (Inl err), g1)
      | (Inr patch, g1) \<Rightarrow>
          (case vm_status git w now g1 of
             (None, g2) \<Rightarrow> (None, g2)
           | (Some (Inl err), g2) \<Rightarrow> (Some (Inl err), g2)
           | (Some (Inr before), g2) \<Rightarrow>
               (Some (Inr \<lparr>rp_revision = revision, rp_patch = patch, rp_status_before = before,
                           rp_generated_at = now\<rparr>), g2)))"

record restore_result =
  rr_revision :: string
  rr_restored_at :: instant
  rr_status_before :: version_status
  rr_status_after :: version_status

definition version_restore ::
  "'g git \<Rightarrow> workspace \<Rightarrow> instant \<Rightarrow> string \<Rightarrow> 'g \<Rightarrow> (node_error + restore_result) option \<times> 'g" where
  "version_restore git w now revision g =
     (case ensure_git_repo git w g of
        (Inl err, g1) \<Rightarrow> (Some (Inl err), g1)
      | (Inr _, g1) \<Rightarrow>
          (case vm_status git w now g1 of
             (None, g2) \<Rightarrow> (None, g2)
           | (Some (Inl err), g2) \<Rightarrow> (Some (Inl err), g2)
           | (Some (Inr before), g2) \<Rightarrow>
               (case run_git git w [''reset'', ''--soft'', revision] g2 of
                  (Inl err, g3) \<Rightarrow> (Some (Inl err), g3)
                | (Inr _, g3) \<Rightarrow>
                    (case vm_status git w now g3 of
                       (None, g4) \<Rightarrow> (None, g4)
                     | (Some (Inl err), g4) \<Rightarrow> (Some (Inl err), g4)
                     | (Some (Inr after), g4) \<Rightarrow>
                         (Some (Inr \<lparr>rr_revision = revision, rr_restored_at = now,
                                     rr_status_before = before, rr_status_after = after\<rparr>), g4)))))"

subsection \<open>Facts\<close>

text \<open>What an operation that only asks leaves as it is.\<close>

definition asks_only :: "('g \<Rightarrow> 'r \<times> 'g) \<Rightarrow> bool" where
  "asks_only m \<longleftrightarrow> (\<forall>g. snd (m g) = g)"

lemma asks_onlyD: "asks_only m \<Longrightarrow> m g = (r, g') \<Longrightarrow> g' = g"
  unfolding asks_only_def by (metis snd_conv)

lemma asks_only_then:
  assumes "asks_only m" and "\<And>x. asks_only (f x)"
  shows "asks_only (git_then m f)"
  unfolding asks_only_def
proof
  fix g
  obtain r g1 where m: "m g = (r, g1)" by (metis surj_pair)
  have "g1 = g" using asks_onlyD [OF assms(1) m] .
  then show "snd (git_then m f g) = g"
    using m assms(2) by (cases r) (simp_all add: git_then_def asks_only_def)
qed

lemma asks_only_pure: "asks_only (git_pure res)"
  by (simp add: asks_only_def git_pure_def)

lemma asks_only_run: "(\<And>g. snd (git (ws_root w) args g) = g) \<Longrightarrow> asks_only (run_git git w args)"
  unfolding asks_only_def run_git_def by (auto split: prod.splits git_end.splits) (metis snd_conv)+

lemma asks_only_ensure:
  "(\<And>g. snd (git (ws_root w) [''rev-parse'', ''--is-inside-work-tree''] g) = g) \<Longrightarrow>
     asks_only (ensure_git_repo git w)"
  unfolding asks_only_def ensure_git_repo_def is_git_repo_def
  by (auto split: prod.splits git_end.splits) (metis snd_conv)+

lemma asks_only_read: "asks_only m \<Longrightarrow> asks_only (\<lambda>g. git_read f (m g))"
  unfolding asks_only_def git_read_def by (auto split: prod.splits sum.splits) (metis snd_conv)+

definition asking_command :: "string list \<Rightarrow> bool" where
  "asking_command args \<longleftrightarrow> args \<noteq> [] \<and> hd args \<in> set [''rev-parse'', ''status'', ''diff'', ''log'']"

lemmas asks_only_rules = asks_only_then asks_only_pure asks_only_run asks_only_ensure asks_only_read

lemma version_status_asks:
  assumes "\<And>args g. asking_command args \<Longrightarrow> snd (git (ws_root w) args g) = g"
  shows "asks_only (vm_status git w now)"
proof -
  have "asks_only (git_then (ensure_git_repo git w) (\<lambda>_. run_git git w [''status'', ''--short'', ''--branch'']))"
    by (intro asks_only_rules assms) (simp_all add: asking_command_def)
  then show ?thesis unfolding vm_status_def by (rule asks_only_read)
qed

text \<open>
  Looking changes nothing. When the subcommands that only ask leave the repository as it is, so do
  the status, every diff, the latest and the listed checkpoints and the preview of a restore, whatever
  they answer and whether they succeed.
\<close>

theorem version_queries_change_nothing:
  assumes "\<And>args g. asking_command args \<Longrightarrow> snd (git (ws_root w) args g) = g"
  shows "snd (vm_status git w now g) = g \<and> snd (vm_diff git w now target g) = g \<and>
    snd (current_checkpoint git parse_time w g) = g \<and> snd (list_checkpoints git parse_time w limit g) = g \<and>
    snd (preview_restore git w now revision g) = g"
proof (intro conjI)
  have ask: "asks_only (run_git git w args)" if "asking_command args" for args
    by (intro asks_only_run assms that)
  have repo: "asks_only (ensure_git_repo git w)"
    by (intro asks_only_ensure assms) (simp add: asking_command_def)
  have status: "asks_only (vm_status git w now)" using assms by (rule version_status_asks)
  show "snd (vm_status git w now g) = g" using status by (simp add: asks_only_def)
  have "asks_only (vm_diff git w now target)"
    unfolding vm_diff_def
    by (intro asks_only_then asks_only_pure repo ask) (cases target; simp add: asking_command_def)
  then show "snd (vm_diff git w now target g) = g" by (simp add: asks_only_def)
  have "asks_only (current_checkpoint git parse_time w)"
    unfolding current_checkpoint_def
    by (intro asks_only_then asks_only_pure repo ask) (simp add: asking_command_def)
  then show "snd (current_checkpoint git parse_time w g) = g" by (simp add: asks_only_def)
  have "asks_only (list_checkpoints git parse_time w limit)"
    unfolding list_checkpoints_def
    by (intro asks_only_then asks_only_pure repo ask) (simp add: asking_command_def)
  then show "snd (list_checkpoints git parse_time w limit g) = g" by (simp add: asks_only_def)
  have diff: "asks_only (git_then (ensure_git_repo git w) (\<lambda>_. run_git git w [''diff'', revision, ''--'']))"
    (is "asks_only ?diff")
    by (intro asks_only_then asks_only_pure repo ask) (simp add: asking_command_def)
  obtain r1 where r1: "?diff g = (r1, g)" using diff unfolding asks_only_def by (metis prod.collapse)
  obtain r2 where r2: "vm_status git w now g = (r2, g)"
    using status unfolding asks_only_def by (metis prod.collapse)
  show "snd (preview_restore git w now revision g) = g"
    unfolding preview_restore_def r1 by (simp add: r2 split: sum.splits option.splits)
qed

text \<open>A repository whose state is the list of the commands that changed it.\<close>

definition example_git :: "string list list git" where
  "example_git rt args g =
     (GitDone True (if hd args = ''rev-parse'' then ''true'' else ''## main'' @ CHR 0x0A # '' M a.txt'') [],
      if asking_command args then g else g @ [args])"

theorem version_queries_change_nothing_witness:
  "snd (vm_status example_git example_ws 0 []) = [] \<and>
   snd (preview_restore example_git example_ws 0 ''HEAD'' []) = []"
  using version_queries_change_nothing [where git = example_git and w = example_ws and g = "[]"]
  by (simp add: example_git_def)

subsection \<open>Reading back a status\<close>

fun kind_char :: "file_change_kind \<Rightarrow> char" where
  "kind_char Unmodified = CHR '' ''"
| "kind_char AddedFile = CHR ''A''"
| "kind_char Modified = CHR ''M''"
| "kind_char Deleted = CHR ''D''"
| "kind_char Renamed = CHR ''R''"
| "kind_char Copied = CHR ''C''"
| "kind_char Untracked = CHR ''?''"
| "kind_char Unmerged = CHR ''U''"
| "kind_char UnknownChange = CHR ''T''"

lemma from_porcelain_kind: "from_porcelain (kind_char k) = k"
  by (cases k) (simp_all add: from_porcelain_def)

text \<open>The short format of git: two columns, a blank and the path.\<close>

definition porcelain_line :: "version_status_entry \<Rightarrow> string" where
  "porcelain_line e = [kind_char (ve_staged_status e), kind_char (ve_unstaged_status e), CHR '' ''] @ ve_path e"

definition plain_path :: "string \<Rightarrow> bool" where
  "plain_path p \<longleftrightarrow> p \<noteq> [] \<and> trim p = p \<and> CHR 0x0A \<notin> set p \<and> \<not> continuation (hd p)"

lemma kind_char_skip: "skip_chars (Suc 0) (kind_char k # s) = s"
proof -
  have "utf8_char (kind_char k # s) = 1" by (cases k) (simp_all add: byte_def)
  then show ?thesis by simp
qed

lemma porcelain_line_back:
  assumes "plain_path (ve_path e)"
  shows "from_porcelain_line rt (porcelain_line e) = Some (Inr e)"
proof -
  obtain c p where p: "ve_path e = c # p" using assms by (cases "ve_path e") (auto simp: plain_path_def)
  then show ?thesis
    using assms by (simp add: from_porcelain_line_def porcelain_line_def plain_path_def first_char_def
        from_porcelain_kind kind_char_skip del: skip_chars.simps utf8_char.simps)
qed

lemma kind_char_plain: "kind_char k \<noteq> CHR 0x0A" "kind_char k \<noteq> CHR ''#''"
  by (cases k; simp)+

lemma porcelain_line_shape:
  assumes "plain_path (ve_path e)"
  shows "CHR 0x0A \<notin> set (porcelain_line e)" and "strip_cr (porcelain_line e) = porcelain_line e"
    and "\<not> starts_with (porcelain_line e) ''## ''" and "trim (porcelain_line e) \<noteq> []"
proof -
  show "CHR 0x0A \<notin> set (porcelain_line e)"
    using assms by (auto simp: porcelain_line_def plain_path_def kind_char_plain kind_char_plain [symmetric])
  have last: "last (porcelain_line e) = last (ve_path e)" "ve_path e \<noteq> []"
    using assms by (auto simp: porcelain_line_def plain_path_def)
  have "\<not> is_whitespace (last (ve_path e))"
    using assms trim_ends(2) [of "ve_path e"] by (auto simp: plain_path_def)
  then show "strip_cr (porcelain_line e) = porcelain_line e"
    using last(1) by (auto simp: strip_cr_def is_whitespace_def)
  show "\<not> starts_with (porcelain_line e) ''## ''"
    using kind_char_plain(2) by (auto simp: porcelain_line_def)
  have "last (ve_path e) \<in> set (porcelain_line e)" using last(2) by (simp add: porcelain_line_def)
  then show "trim (porcelain_line e) \<noteq> []"
    using \<open>\<not> is_whitespace (last (ve_path e))\<close> by (auto simp: trim_eq_Nil)
qed

lemma status_lines_entries:
  "list_all (\<lambda>e. plain_path (ve_path e)) es \<Longrightarrow>
     status_lines rt (map porcelain_line es) (branch, acc) = Some (Inr (branch, acc @ es))"
proof (induction es arbitrary: acc)
  case (Cons e es)
  then have e: "plain_path (ve_path e)" by simp
  show ?case
    using Cons porcelain_line_shape [OF e] porcelain_line_back [OF e] by simp
qed simp

lemma before_text_none: "\<not> str_contains s sep \<Longrightarrow> sep \<noteq> [] \<Longrightarrow> before_text sep s = s"
  by (induction s) auto

text \<open>What git prints for a branch without an upstream and some changed files.\<close>

definition status_text :: "string \<Rightarrow> version_status_entry list \<Rightarrow> string" where
  "status_text branch es = join_with [CHR 0x0A] ((''## '' @ branch) # map porcelain_line es)"

text \<open>
  A status reads back. From the short format git prints for a branch and its changed files, the
  node reads that branch and those files with both of their change kinds, in order, and calls the
  workspace dirty exactly when there are some.
\<close>

theorem status_roundtrip:
  assumes "list_all (\<lambda>e. plain_path (ve_path e)) es"
    and "plain_path branch" and "\<not> str_contains branch ''...''"
  shows "from_git_status rt now (status_text branch es) =
    Some (Inr \<lparr>vs_branch = branch, vs_dirty = (es \<noteq> []), vs_entries = es, vs_generated_at = now\<rparr>)"
proof -
  let ?ls = "(''## '' @ branch) # map porcelain_line es"
  have branch: "CHR 0x0A \<notin> set branch" "branch \<noteq> []" "trim branch = branch"
    using assms(2) by (auto simp: plain_path_def)
  have nl: "\<forall>l\<in>set ?ls. CHR 0x0A \<notin> set l"
    using assms(1) branch porcelain_line_shape(1) by (auto simp: list_all_iff)
  have split: "split_on (CHR 0x0A) (status_text branch es) = ?ls"
    unfolding status_text_def by (rule split_on_join) (use nl in auto)
  have "\<not> is_whitespace (last branch)" using branch trim_ends(2) [of branch] by auto
  then have cr: "strip_cr (''## '' @ branch) = ''## '' @ branch"
    using branch by (auto simp: strip_cr_def is_whitespace_def)
  have "map strip_cr ?ls = ?ls"
    using cr assms(1) porcelain_line_shape(2) by (auto simp: list_all_iff)
  moreover have "last ?ls \<noteq> []" by (simp add: porcelain_line_def last_map)
  ultimately have lines: "str_lines (status_text branch es) = ?ls"
    unfolding str_lines_def Let_def split by simp
  have "before_text ''...'' branch = branch" using assms(3) by (simp add: before_text_none)
  then show ?thesis
    unfolding from_git_status_def lines
    using status_lines_entries [OF assms(1), of rt branch "[]"] branch by simp
qed

theorem status_roundtrip_witness:
  "from_git_status [RootDir] 7 (status_text ''main''
     [\<lparr>ve_path = ''a b.txt'', ve_staged_status = Renamed, ve_unstaged_status = Modified\<rparr>]) =
   Some (Inr \<lparr>vs_branch = ''main'', vs_dirty = True,
     vs_entries = [\<lparr>ve_path = ''a b.txt'', ve_staged_status = Renamed, ve_unstaged_status = Modified\<rparr>],
     vs_generated_at = 7\<rparr>)"
proof -
  have "plain_path ''a b.txt''" "plain_path ''main''" "\<not> str_contains ''main'' ''...''" by code_simp+
  then show ?thesis
    using status_roundtrip [of "[\<lparr>ve_path = ''a b.txt'', ve_staged_status = Renamed, ve_unstaged_status = Modified\<rparr>]"
        "''main''" "[RootDir]" 7] by simp
qed

text \<open>The path of a renamed file holds both names.\<close>

lemma rename_entry_path:
  "from_porcelain_line rt ''R  old.txt -> new.txt'' =
     Some (Inr \<lparr>ve_path = ''old.txt -> new.txt'', ve_staged_status = Renamed, ve_unstaged_status = Unmodified\<rparr>)"
  by (simp add: from_porcelain_line_def from_porcelain_def first_char_def byte_def continuation_def trim_def
      is_whitespace_def)

text \<open>One commit without a message makes the list of checkpoints an error.\<close>

lemma empty_message_hides_checkpoints:
  "from_log_line parse_time (''abc'' @ CHR 0x1F # CHR 0x1F # time) =
     Inl (ExecutionErr ''Missing checkpoint message'')"
  by (cases "split_on (CHR 0x1F) time") (simp_all add: from_log_line_def)

text \<open>A restore hands git whatever the revision is, an option too.\<close>

lemma restore_passes_options:
  assumes "ensure_git_repo git w g = (Inr (), g1)" and "vm_status git w now g1 = (Some (Inr s), g2)"
    and "git (ws_root w) [''reset'', ''--soft'', ''--hard''] g2 = (GitDone True out err, g3)"
    and "vm_status git w now g3 = (Some (Inr s'), g4)"
  shows "fst (version_restore git w now ''--hard'' g) =
    Some (Inr \<lparr>rr_revision = ''--hard'', rr_restored_at = now, rr_status_before = s, rr_status_after = s'\<rparr>)"
  using assms by (simp add: version_restore_def run_git_def)

end
