(* ===== verification/Node_Agent.thy ===== *)
theory Node_Agent
  imports Node_Exec Node_Connection Versioning
begin

section \<open>The node (\<^verbatim>\<open>uhorse-node-runtime/src/node.rs\<close>, \<^verbatim>\<open>status.rs\<close>)\<close>

text \<open>
  The node's side of the protocol: what it does for each message of the Hub, with its permission
  manager, its executor, its metrics and the tasks it counts as running, and what it sends back. The
  handler awaits each step before it takes the next message, so it is one step here. A panic ends the
  task that handles messages and is the value \<open>None\<close>.
\<close>

subsection \<open>Rules from the configuration and from the Hub\<close>

datatype permission_resource_config =
    CfgAllowAll
  | CfgExactPath string
  | CfgPathPrefix string
  | CfgGlob string
  | CfgRegex string
  | CfgCommandType "string list"
  | CfgAll "permission_resource_config list"
  | CfgAny "permission_resource_config list"

fun resource_into_runtime :: "permission_resource_config \<Rightarrow> resource_pattern" where
  "resource_into_runtime CfgAllowAll = AllowAll"
| "resource_into_runtime (CfgExactPath path) = ExactPath path"
| "resource_into_runtime (CfgPathPrefix path) = PathPrefix path"
| "resource_into_runtime (CfgGlob pattern) = Glob pattern"
| "resource_into_runtime (CfgRegex pattern) = Regex pattern"
| "resource_into_runtime (CfgCommandType types) = CommandTypes types"
| "resource_into_runtime (CfgAll patterns) = AllOf (map resource_into_runtime patterns)"
| "resource_into_runtime (CfgAny patterns) = AnyOf (map resource_into_runtime patterns)"

record permission_rule_config =
  prc_id :: string
  prc_name :: string
  prc_description :: "string option"
  prc_resource :: permission_resource_config
  prc_actions :: "action list"
  prc_require_approval :: bool
  prc_priority :: int
  prc_enabled :: bool

definition rule_into_runtime :: "instant \<Rightarrow> permission_rule_config \<Rightarrow> permission_rule" where
  "rule_into_runtime now c =
     permission_rule_new now (prc_id c) (prc_name c)
       \<lparr>pr_resource := resource_into_runtime (prc_resource c), pr_actions := prc_actions c,
        pr_require_approval := prc_require_approval c, pr_priority := prc_priority c,
        pr_description := prc_description c, pr_enabled := prc_enabled c\<rparr>"

fun convert_protocol_resource_pattern :: "proto_resource_pattern \<Rightarrow> resource_pattern" where
  "convert_protocol_resource_pattern (ProtoExact path) = ExactPath path"
| "convert_protocol_resource_pattern (ProtoGlob pattern) = Glob pattern"
| "convert_protocol_resource_pattern (ProtoRegex pattern) = Regex pattern"
| "convert_protocol_resource_pattern (ProtoPrefix path) = PathPrefix path"

fun convert_protocol_action :: "proto_action \<Rightarrow> action option" where
  "convert_protocol_action ProtoRead = Some ActRead"
| "convert_protocol_action ProtoWrite = Some ActWrite"
| "convert_protocol_action ProtoDelete = Some ActDelete"
| "convert_protocol_action ProtoExecute = Some ActExecute"
| "convert_protocol_action ProtoAdmin = Some ActAdmin"
| "convert_protocol_action ProtoList = None"

definition convert_protocol_permission_rule :: "instant \<Rightarrow> proto_permission_rule \<Rightarrow> permission_rule" where
  "convert_protocol_permission_rule now r =
     permission_rule_new now (pp_id r) (pp_name r)
       \<lparr>pr_resource := convert_protocol_resource_pattern (pp_resource r),
        pr_actions := List.map_filter convert_protocol_action (pp_actions r),
        pr_require_approval := pp_require_approval r, pr_enabled := pp_enabled r\<rparr>"

subsection \<open>Metrics (\<^verbatim>\<open>status.rs\<close>)\<close>

record metrics =
  mt_total_executions :: u64
  mt_successful_executions :: u64
  mt_failed_executions :: u64
  mt_total_duration_ms :: u64
  mt_avg_duration_ms :: real
  mt_total_cpu_time_ms :: u64
  mt_total_memory_mb :: u64
  mt_total_disk_read_kb :: u64
  mt_total_disk_write_kb :: u64
  mt_total_network_sent_kb :: u64
  mt_total_network_recv_kb :: u64

definition metrics_default :: metrics where
  "metrics_default =
     \<lparr>mt_total_executions = 0, mt_successful_executions = 0, mt_failed_executions = 0,
      mt_total_duration_ms = 0, mt_avg_duration_ms = 0, mt_total_cpu_time_ms = 0,
      mt_total_memory_mb = 0, mt_total_disk_read_kb = 0, mt_total_disk_write_kb = 0,
      mt_total_network_sent_kb = 0, mt_total_network_recv_kb = 0\<rparr>"

definition record_execution :: "(real \<Rightarrow> real) \<Rightarrow> bool \<Rightarrow> u64 \<Rightarrow> metrics \<Rightarrow> metrics" where
  "record_execution rnd success duration m =
     (let total = mt_total_executions m + 1; total_ms = mt_total_duration_ms m + duration
      in m\<lparr>mt_total_executions := total,
           mt_successful_executions := mt_successful_executions m + (if success then 1 else 0),
           mt_failed_executions := mt_failed_executions m + (if success then 0 else 1),
           mt_total_duration_ms := total_ms,
           mt_avg_duration_ms := rnd (rnd (real (unat total_ms)) / rnd (real (unat total)))\<rparr>)"

definition record_resources :: "u64 \<Rightarrow> u64 \<Rightarrow> u64 \<Rightarrow> u64 \<Rightarrow> u64 \<Rightarrow> u64 \<Rightarrow> metrics \<Rightarrow> metrics" where
  "record_resources cpu_time_ms memory_mb disk_read_kb disk_write_kb network_sent_kb network_recv_kb m =
     m\<lparr>mt_total_cpu_time_ms := mt_total_cpu_time_ms m + cpu_time_ms,
       mt_total_memory_mb := mt_total_memory_mb m + memory_mb,
       mt_total_disk_read_kb := mt_total_disk_read_kb m + disk_read_kb,
       mt_total_disk_write_kb := mt_total_disk_write_kb m + disk_write_kb,
       mt_total_network_sent_kb := mt_total_network_sent_kb m + network_sent_kb,
       mt_total_network_recv_kb := mt_total_network_recv_kb m + network_recv_kb\<rparr>"

definition success_rate :: "(real \<Rightarrow> real) \<Rightarrow> metrics \<Rightarrow> real" where
  "success_rate rnd m =
     (if mt_total_executions m = 0 then 0
      else rnd (rnd (real (unat (mt_successful_executions m))) / rnd (real (unat (mt_total_executions m)))))"

text \<open>The snapshot a heartbeat carries, from what the system reports.\<close>

record system_reading =
  sy_cpu_percent :: real
  sy_total_memory :: u64
  sy_used_memory :: u64
  sy_disk_gb :: real
  sy_now :: instant

definition collect_snapshot ::
  "(real \<Rightarrow> real) \<Rightarrow> node_id \<Rightarrow> system_reading \<Rightarrow> nat \<Rightarrow> nat \<Rightarrow> u64 option \<Rightarrow> heartbeat_snapshot" where
  "collect_snapshot rnd n sy current_tasks max_tasks latency =
     (let total = rnd (real (unat (sy_total_memory sy))); used = rnd (real (unat (sy_used_memory sy)))
      in \<lparr>hs_status =
            \<lparr>ns_node_id = n, ns_online = True, ns_current_tasks = current_tasks, ns_max_tasks = max_tasks,
             ns_cpu_percent = sy_cpu_percent sy, ns_memory_mb = sy_used_memory sy div (1024 * 1024),
             ns_disk_gb = sy_disk_gb sy, ns_network_latency_ms = latency, ns_last_heartbeat = sy_now sy\<rparr>,
          hs_load =
            \<lparr>li_cpu_usage = rnd (sy_cpu_percent sy / 100),
             li_memory_usage = (if 0 < total then rnd (used / total) else 0),
             li_task_count = current_tasks, li_latency_ms = latency\<rparr>\<rparr>)"

subsection \<open>Errors as results\<close>

fun workspace_text :: "(path \<Rightarrow> string) \<Rightarrow> workspace_failure \<Rightarrow> string" where
  "workspace_text dbg (PathDoesNotExist p) = ''Path does not exist: '' @ dbg p"
| "workspace_text dbg (PathNotDirectory p) = ''Path is not a directory: '' @ dbg p"
| "workspace_text dbg (CannotCanonicalizeRoot p) = ''Failed to canonicalize path: '' @ io_text NotFound"
| "workspace_text dbg (CannotResolve p) = ''Failed to resolve path: '' @ dbg p"
| "workspace_text dbg (CannotCanonicalizeAncestor p) =
     ''Failed to canonicalize ancestor '' @ dbg p @ '': '' @ io_text NotFound"
| "workspace_text dbg (CannotRelativize p) = ''Failed to resolve relative path for '' @ dbg p"
| "workspace_text dbg (MetadataFailed err) = ''Failed to get metadata: '' @ err"
| "workspace_text dbg (ReadDirFailed p err) = ''Failed to read directory '' @ dbg p @ '': '' @ err"

fun node_error_text :: "(path \<Rightarrow> string) \<Rightarrow> node_error \<Rightarrow> string" where
  "node_error_text dbg (WorkspaceErr f) = ''Workspace error: '' @ workspace_text dbg f"
| "node_error_text dbg (PermissionError s) = ''Permission denied: '' @ s"
| "node_error_text dbg (ExecutionErr s) = ''Execution error: '' @ s"
| "node_error_text dbg (ConnectionErr s) = ''Connection error: '' @ s"
| "node_error_text dbg (ConfigurationErr s) = ''Configuration error: '' @ s"
| "node_error_text dbg (ProtocolErr s) = ''Protocol error: '' @ s"
| "node_error_text dbg (IoErr s) = ''IO error: '' @ s"
| "node_error_text dbg (SerializationErr s) = ''Serialization error: '' @ s"
| "node_error_text dbg (TimeoutError s) = ''Timeout: '' @ s"
| "node_error_text dbg (InternalNodeErr s) = ''Internal error: '' @ s"

fun deny_text :: "(path \<Rightarrow> string) \<Rightarrow> deny_reason \<Rightarrow> string" where
  "deny_text dbg (OutsideWorkspace p) = ''Operation outside workspace: '' @ p"
| "deny_text dbg (ShellOutsideWorkspace cwd) = ''Shell working directory outside workspace: '' @ cwd"
| "deny_text dbg (CodeOutsideWorkspace d) = ''Code working directory outside workspace: '' @ d"
| "deny_text dbg (WorkspaceFailed err) = node_error_text dbg err"
| "deny_text dbg (DangerousGit pattern) = ''Dangerous git command is denied: '' @ pattern"
| "deny_text dbg NoMatchingRule = ''No matching permission rule''"

definition validation_failed_error :: "string \<Rightarrow> execution_error" where
  "validation_failed_error msg = execution_error_new ''VALIDATION_FAILED'' msg SrcValidation"

fun execution_error_of :: "(path \<Rightarrow> string) \<Rightarrow> node_error \<Rightarrow> execution_error" where
  "execution_error_of dbg (PermissionError msg) = permission_denied_error msg"
| "execution_error_of dbg (TimeoutError msg) = timeout_error msg"
| "execution_error_of dbg (ExecutionErr msg) = execution_failed msg"
| "execution_error_of dbg (WorkspaceErr f) = validation_failed_error (workspace_text dbg f)"
| "execution_error_of dbg (ConfigurationErr msg) = validation_failed_error msg"
| "execution_error_of dbg (ConnectionErr msg) = execution_error_new ''CONNECTION_FAILED'' msg SrcExternal"
| "execution_error_of dbg (ProtocolErr msg) = execution_error_new ''PROTOCOL_ERROR'' msg SrcInternal"
| "execution_error_of dbg (IoErr msg) = execution_error_new ''IO_ERROR'' msg SrcExecutor"
| "execution_error_of dbg (SerializationErr msg) =
     execution_error_new ''SERIALIZATION_ERROR'' msg SrcInternal"
| "execution_error_of dbg (InternalNodeErr msg) = execution_error_new ''INTERNAL_ERROR'' msg SrcInternal"

definition command_result_from_node_error :: "(path \<Rightarrow> string) \<Rightarrow> node_error \<Rightarrow> u64 \<Rightarrow> command_result" where
  "command_result_from_node_error dbg err duration =
     with_duration (command_failure (execution_error_of dbg err)) duration"

subsection \<open>The node\<close>

record node_config =
  nf_node_id :: "node_id option"
  nf_name :: string
  nf_connection :: connection_config
  nf_workspace_path :: string
  nf_heartbeat_interval_secs :: u64
  nf_status_interval_secs :: u64
  nf_max_concurrent_tasks :: nat
  nf_capabilities :: node_capabilities
  nf_tags :: "string list"
  nf_git_protection_enabled :: bool
  nf_watch_workspace :: bool
  nf_auto_git_add_new_files :: bool
  nf_require_git_repo :: bool
  nf_internal_work_dir :: string
  nf_permission_rules :: "permission_rule_config list"

definition node_config_default :: node_config where
  "node_config_default =
     \<lparr>nf_node_id = None, nf_name = ''uHorse-Node'', nf_connection = connection_config_default,
      nf_workspace_path = ''.'', nf_heartbeat_interval_secs = 30, nf_status_interval_secs = 60,
      nf_max_concurrent_tasks = 5, nf_capabilities = node_capabilities_default, nf_tags = [''default''],
      nf_git_protection_enabled = True, nf_watch_workspace = True, nf_auto_git_add_new_files = True,
      nf_require_git_repo = True, nf_internal_work_dir = ''.uhorse'', nf_permission_rules = []\<rparr>"

text \<open>
  The node. A running task holds only the sender of a cancellation nobody listens to, so it is a key
  without a value. \<open>ag_outbox\<close> is what was put into the outbound channel, oldest first;
  \<open>ag_outbound_open\<close> says that its receiver is still there.
\<close>

record node_agent =
  ag_config :: node_config
  ag_node_id :: node_id
  ag_workspace :: workspace
  ag_connection :: hub_connection
  ag_executor :: command_executor
  ag_permissions :: permission_manager
  ag_metrics :: metrics
  ag_running_tasks :: "(task_id, unit) hmap"
  ag_running :: bool
  ag_heartbeat_snapshot :: "heartbeat_snapshot option"
  ag_watching :: bool
  ag_outbound :: bool
  ag_outbound_open :: bool
  ag_outbox :: "node_to_hub list"

definition node_new ::
  "'g git \<Rightarrow> node_id \<Rightarrow> node_config \<Rightarrow> disk \<Rightarrow> 'g \<Rightarrow> (node_error + node_agent) \<times> 'g" where
  "node_new git fresh config d g =
     (case workspace_new (disk_fs d) (path_of_string (nf_workspace_path config)) of
        Inl err \<Rightarrow> (Inl err, g)
      | Inr w \<Rightarrow>
          (let (repo, g1) = (if nf_require_git_repo config then is_git_repo git w g else (True, g))
           in if nf_require_git_repo config \<and> \<not> repo
              then (Inl (ConfigurationErr
                      (''Workspace must be a git repository when require_git_repo is enabled: ''
                       @ path_to_string (ws_root w))), g1)
              else
                (let n = (case nf_node_id config of Some n \<Rightarrow> n | None \<Rightarrow> fresh)
                 in (Inr \<lparr>ag_config = config, ag_node_id = n, ag_workspace = w,
                          ag_connection = connection_new n (nf_connection config) (nf_name config)
                            (path_to_string (ws_root w)) (nf_capabilities config) None,
                          ag_executor = executor_new w (nf_internal_work_dir config) d,
                          ag_permissions = permission_manager_new w (nf_git_protection_enabled config),
                          ag_metrics = metrics_default, ag_running_tasks = [], ag_running = False,
                          ag_heartbeat_snapshot = None, ag_watching = False, ag_outbound = False,
                          ag_outbound_open = False, ag_outbox = []\<rparr>, g1))))"

text \<open>Starting; the watcher of the workspace is a parameter, \<open>Some\<close> being the error it reports.\<close>

definition node_start :: "instant \<Rightarrow> string option \<Rightarrow> node_agent \<Rightarrow> node_error option \<times> node_agent" where
  "node_start now watcher_failure a =
     (if ag_running a then (Some (InternalNodeErr ''Node already running''), a)
      else
        (let pm = foldl (\<lambda>m rule. add_rule (rule_into_runtime now rule) m)
                    (load_default_rules now (ag_permissions a)) (nf_permission_rules (ag_config a));
             a1 = a\<lparr>ag_running := True, ag_permissions := pm\<rparr>
         in case connection_start (ag_connection a1) of
              (Some err, c) \<Rightarrow> (Some err, a1\<lparr>ag_connection := c\<rparr>)
            | (None, c) \<Rightarrow>
                (case (if nf_watch_workspace (ag_config a) then watcher_failure else None) of
                   Some msg \<Rightarrow>
                     (Some (ExecutionErr msg),
                      a1\<lparr>ag_running := False, ag_connection := connection_stop c\<rparr>)
                 | None \<Rightarrow>
                     (None, a1\<lparr>ag_connection := c, ag_watching := nf_watch_workspace (ag_config a) \<or> ag_watching a,
                               ag_outbound := True, ag_outbound_open := True\<rparr>))))"

definition node_stop :: "node_agent \<Rightarrow> node_agent" where
  "node_stop a =
     (if \<not> ag_running a then a
      else a\<lparr>ag_running := False, ag_watching := False, ag_outbound := False,
             ag_connection := connection_stop (ag_connection a)\<rparr>)"

text \<open>The status task: the latest snapshot, which the heartbeats of the connection carry too.\<close>

definition node_status_tick :: "(real \<Rightarrow> real) \<Rightarrow> system_reading \<Rightarrow> node_agent \<Rightarrow> node_agent" where
  "node_status_tick rnd sy a =
     (if \<not> ag_running a then a
      else (let snapshot = collect_snapshot rnd (ag_node_id a) sy (length (ag_running_tasks a))
                  (nf_max_concurrent_tasks (ag_config a)) None
            in a\<lparr>ag_heartbeat_snapshot := Some snapshot,
                 ag_connection := (ag_connection a)\<lparr>hc_heartbeat_snapshot := Some snapshot\<rparr>\<rparr>))"

text \<open>Notifications are tried at once: \<open>Some\<close> is why the channel did not take the message.\<close>

definition report_notification_nowait ::
  "message_id \<Rightarrow> string option \<Rightarrow> notification_event \<Rightarrow> node_agent \<Rightarrow> node_error option \<times> node_agent" where
  "report_notification_nowait mid failure event a =
     (if \<not> ag_running a then (Some (ConnectionErr ''Node is not running''), a)
      else if \<not> ag_outbound a then (Some (ConnectionErr ''Outbound channel is not available''), a)
      else case failure of
             Some err \<Rightarrow> (Some (ConnectionErr (''Failed to send notification event: '' @ err)), a)
           | None \<Rightarrow> (None, a\<lparr>ag_outbox := ag_outbox a @ [NotificationEventMsg mid (ag_node_id a) event]\<rparr>))"

subsection \<open>The watched workspace\<close>

definition should_skip_watched_path :: "path \<Rightarrow> string \<Rightarrow> path \<Rightarrow> bool" where
  "should_skip_watched_path rt internal p =
     (case strip_prefix p rt of
        None \<Rightarrow> True
      | Some [] \<Rightarrow> True
      | Some (first # _) \<Rightarrow>
          component_string first = ''.git'' \<or> component_string first = internal)"

definition git_add_path :: "'g git \<Rightarrow> path \<Rightarrow> path \<Rightarrow> (unit, 'g) git_step" where
  "git_add_path git rt p g =
     (case strip_prefix p rt of
        None \<Rightarrow> (Inl (ExecutionErr (''Failed to derive relative path for watched file: '' @ path_to_string p)), g)
      | Some relative \<Rightarrow>
          (case git rt [''add'', ''--'', path_to_string relative] g of
             (GitNotRun err, g1) \<Rightarrow> (Inl (ExecutionErr (''Failed to run git add: '' @ err)), g1)
           | (GitDone success out err, g1) \<Rightarrow>
               (if success then Inr ()
                else Inl (ExecutionErr (''git add failed for '' @ path_to_string relative @ '': '' @ trim err)), g1)))"

fun add_watched_paths :: "'g git \<Rightarrow> disk \<Rightarrow> path \<Rightarrow> string \<Rightarrow> path list \<Rightarrow> (unit, 'g) git_step" where
  "add_watched_paths git d rt internal [] = git_pure (Inr ())"
| "add_watched_paths git d rt internal (p # ps) =
     (if should_skip_watched_path rt internal p then add_watched_paths git d rt internal ps
      else if fs_is_dir (disk_fs d) p then add_watched_paths git d rt internal ps
      else git_then (git_add_path git rt p) (\<lambda>_. add_watched_paths git d rt internal ps))"

definition handle_workspace_event ::
  "'g git \<Rightarrow> disk \<Rightarrow> path \<Rightarrow> string \<Rightarrow> bool \<Rightarrow> bool \<Rightarrow> path list \<Rightarrow> (unit, 'g) git_step" where
  "handle_workspace_event git d rt internal auto_add is_create paths =
     (if \<not> auto_add \<or> \<not> is_create then git_pure (Inr ()) else add_watched_paths git d rt internal paths)"

subsection \<open>Messages of the Hub\<close>

text \<open>
  What a step reads of the outside: the time, the clock of the conditions, fresh ids, and how many
  milliseconds the node and the executor measured.
\<close>

record handling =
  hd_now :: instant
  hd_clock :: wall_clock
  hd_check_id :: string
  hd_approval_id :: string
  hd_file_id :: string
  hd_message_id :: message_id
  hd_duration :: u64
  hd_exec_duration :: u64

definition metrics_of_duration :: "u64 \<Rightarrow> execution_metrics" where
  "metrics_of_duration ms =
     \<lparr>em_duration_ms = ms, em_cpu_time_ms = 0, em_peak_memory_mb = 0, em_bytes_read = 0,
      em_bytes_written = 0, em_network_requests = 0\<rparr>"

definition send_outbound :: "string \<Rightarrow> node_to_hub \<Rightarrow> node_agent \<Rightarrow> node_error option \<times> node_agent" where
  "send_outbound what msg a =
     (if ag_outbound_open a then (None, a\<lparr>ag_outbox := ag_outbox a @ [msg]\<rparr>)
      else (Some (ConnectionErr (''Failed to send '' @ what @ '': channel closed'')), a))"

text \<open>A result is counted, its task no longer runs, and the Hub is told.\<close>

definition finish_task ::
  "exec_env \<Rightarrow> handling \<Rightarrow> task_id \<Rightarrow> u64 \<Rightarrow> command_result \<Rightarrow> node_agent \<Rightarrow> node_error option \<times> node_agent" where
  "finish_task env i tid duration result a =
     send_outbound ''task result''
       (TaskResultMsg (hd_message_id i) tid result (metrics_of_duration duration))
       (a\<lparr>ag_metrics := record_execution (xe_round env) (cr_success result) duration (ag_metrics a),
          ag_running_tasks := hm_remove tid (ag_running_tasks a)\<rparr>)"

definition run_task ::
  "exec_env \<Rightarrow> handling \<Rightarrow> task_id \<Rightarrow> command \<Rightarrow> node_agent \<Rightarrow> node_error option option \<times> node_agent" where
  "run_task env i tid cmd a =
     (case execute_unchecked env (hd_file_id i) (hd_exec_duration i) cmd (ag_executor a) of
        (None, x) \<Rightarrow> (None, a\<lparr>ag_executor := x\<rparr>)
      | (Some execution, x) \<Rightarrow>
          (let result = (case execution of
                           Inr r \<Rightarrow> r
                         | Inl err \<Rightarrow>
                             command_result_from_node_error (fe_debug (xe_files env)) err (hd_duration i));
               (res, a1) = finish_task env i tid (hd_duration i) result (a\<lparr>ag_executor := x\<rparr>)
           in (Some res, a1)))"

definition agent_check ::
  "exec_env \<Rightarrow> handling \<Rightarrow> node_agent \<Rightarrow> command \<Rightarrow> task_context \<Rightarrow> permission_result" where
  "agent_check env i a cmd ctx =
     permission_check (env_on (xe_files env) (ce_disk (ag_executor a))) (hd_clock i) (hd_check_id i)
       (ag_permissions a) cmd ctx"

definition denied_result :: "exec_env \<Rightarrow> deny_reason \<Rightarrow> u64 \<Rightarrow> command_result" where
  "denied_result env reason duration =
     with_duration (command_failure (permission_denied_error (deny_text (fe_debug (xe_files env)) reason))) duration"

fun task_id_str :: "task_id \<Rightarrow> string" where
  "task_id_str (TaskId s) = s"

definition handle_assignment ::
  "exec_env \<Rightarrow> handling \<Rightarrow> task_id \<Rightarrow> command \<Rightarrow> task_context \<Rightarrow> node_agent \<Rightarrow>
   node_error option option \<times> node_agent" where
  "handle_assignment env i tid cmd ctx a0 =
     (let a = a0\<lparr>ag_running_tasks := hm_insert tid () (ag_running_tasks a0)\<rparr>
      in case agent_check env i a cmd ctx of
           Allowed \<Rightarrow> run_task env i tid cmd a
         | Denied reason \<Rightarrow>
             (let (res, a1) = finish_task env i tid (hd_duration i) (denied_result env reason (hd_duration i)) a
              in (Some res, a1))
         | RequiresApproval _ reason \<Rightarrow>
             (let (approval, pm) = create_approval_request (hd_now i) (hd_approval_id i) (task_id_str tid) cmd ctx
                    reason (ag_permissions a);
                  (res, a1) = send_outbound ''approval request''
                    (ApprovalRequestMsg (hd_message_id i) (na_id approval) tid cmd ctx (na_reason approval)
                       (na_requested_at approval) (na_expires_at approval))
                    (a\<lparr>ag_permissions := pm\<rparr>)
              in (Some res, a1)))"

definition handle_approval ::
  "exec_env \<Rightarrow> handling \<Rightarrow> string \<Rightarrow> bool \<Rightarrow> string \<Rightarrow> string option \<Rightarrow> node_agent \<Rightarrow>
   node_error option option \<times> node_agent" where
  "handle_approval env i rid approved responder reason a0 =
     (case handle_approval_response (hd_now i) rid approved responder reason (ag_permissions a0) of
        (res, pm) \<Rightarrow>
          (let a = a0\<lparr>ag_permissions := pm\<rparr>
           in case res of
                Inl err \<Rightarrow> (Some (Some err), a)
              | Inr (ResolvedApproved request tid) \<Rightarrow>
                  run_task env i tid (na_command request)
                    (a\<lparr>ag_running_tasks := hm_insert tid () (ag_running_tasks a)\<rparr>)
              | Inr (ResolvedRejected request tid) \<Rightarrow>
                  (let result = command_failure (permission_denied_error
                                  (case reason of Some r \<Rightarrow> r | None \<Rightarrow> ''Approval rejected''));
                       (res, a1) = finish_task env i tid 0 result a
                   in (Some res, a1))))"

fun handle_hub_message ::
  "exec_env \<Rightarrow> handling \<Rightarrow> hub_to_node \<Rightarrow> node_agent \<Rightarrow> node_error option option \<times> node_agent" where
  "handle_hub_message env i (TaskAssignment _ tid cmd _ _ ctx _ _) a = handle_assignment env i tid cmd ctx a"
| "handle_hub_message env i (TaskCancellation _ tid _) a =
     (Some None, a\<lparr>ag_running_tasks := hm_remove tid (ag_running_tasks a)\<rparr>)"
| "handle_hub_message env i (PermissionUpdate _ rules) a =
     (Some None, a\<lparr>ag_permissions :=
        replace_rules (map (convert_protocol_permission_rule (hd_now i)) rules) (ag_permissions a)\<rparr>)"
| "handle_hub_message env i (ApprovalResponse _ rid approved responder reason _) a =
     handle_approval env i rid approved responder reason a"
| "handle_hub_message env i (HeartbeatRequest _ _) a = (Some None, a)"
| "handle_hub_message env i (ConfigUpdate _ _) a = (Some None, a)"
| "handle_hub_message env i (SkillDeploy _ _ _ _ _) a = (Some None, a)"
| "handle_hub_message env i (SkillRemove _ _) a = (Some None, a)"
| "handle_hub_message env i (Disconnect _ _ _) a = (Some None, a)"

text \<open>
  The task that handles messages, over the messages it receives: it goes on after an error, and a
  panic or a wait that never ends is its end. It stops when the node stops.
\<close>

fun message_step :: "exec_env \<Rightarrow> handling \<times> hub_to_node \<Rightarrow> bool \<times> node_agent \<Rightarrow> bool \<times> node_agent" where
  "message_step env (i, msg) (alive, a) =
     (if alive \<and> ag_running a
      then (case handle_hub_message env i msg a of
              (None, a1) \<Rightarrow> (False, a1)
            | (Some _, a1) \<Rightarrow> (True, a1))
      else (alive, a))"

definition message_loop ::
  "exec_env \<Rightarrow> (handling \<times> hub_to_node) list \<Rightarrow> bool \<times> node_agent \<Rightarrow> bool \<times> node_agent" where
  "message_loop env history s = foldl (\<lambda>s e. message_step env e s) s history"

subsection \<open>What a message leaves alone\<close>

lemma send_outbound_fields [simp]:
  "ag_executor (snd (send_outbound what msg a)) = ag_executor a"
  "ag_permissions (snd (send_outbound what msg a)) = ag_permissions a"
  "ag_metrics (snd (send_outbound what msg a)) = ag_metrics a"
  "ag_running_tasks (snd (send_outbound what msg a)) = ag_running_tasks a"
  "ag_running (snd (send_outbound what msg a)) = ag_running a"
  "ag_outbound_open (snd (send_outbound what msg a)) = ag_outbound_open a"
  "ag_workspace (snd (send_outbound what msg a)) = ag_workspace a"
  by (simp_all add: send_outbound_def)

lemma send_outbound_open:
  "ag_outbound_open a \<Longrightarrow> send_outbound what msg a = (None, a\<lparr>ag_outbox := ag_outbox a @ [msg]\<rparr>)"
  by (simp add: send_outbound_def)

lemma finish_task_fields [simp]:
  "ag_executor (snd (finish_task env i tid ms r a)) = ag_executor a"
  "ag_permissions (snd (finish_task env i tid ms r a)) = ag_permissions a"
  "ag_metrics (snd (finish_task env i tid ms r a)) = record_execution (xe_round env) (cr_success r) ms (ag_metrics a)"
  "ag_running_tasks (snd (finish_task env i tid ms r a)) = hm_remove tid (ag_running_tasks a)"
  "ag_running (snd (finish_task env i tid ms r a)) = ag_running a"
  "ag_outbound_open (snd (finish_task env i tid ms r a)) = ag_outbound_open a"
  "ag_workspace (snd (finish_task env i tid ms r a)) = ag_workspace a"
  by (simp_all add: finish_task_def)

lemma run_task_fields [simp]:
  "ag_permissions (snd (run_task env i tid cmd a)) = ag_permissions a"
  "ag_running (snd (run_task env i tid cmd a)) = ag_running a"
  "ag_outbound_open (snd (run_task env i tid cmd a)) = ag_outbound_open a"
  "ag_workspace (snd (run_task env i tid cmd a)) = ag_workspace a"
proof -
  obtain e x where x: "execute_unchecked env (hd_file_id i) (hd_exec_duration i) cmd (ag_executor a) = (e, x)"
    by (metis surj_pair)
  have "ag_permissions (snd (run_task env i tid cmd a)) = ag_permissions a \<and>
      ag_running (snd (run_task env i tid cmd a)) = ag_running a \<and>
      ag_outbound_open (snd (run_task env i tid cmd a)) = ag_outbound_open a \<and>
      ag_workspace (snd (run_task env i tid cmd a)) = ag_workspace a"
  proof (cases e)
    case None
    then show ?thesis by (simp add: run_task_def x)
  next
    case (Some execution)
    let ?r = "case execution of Inr r \<Rightarrow> r
      | Inl err \<Rightarrow> command_result_from_node_error (fe_debug (xe_files env)) err (hd_duration i)"
    obtain res a1 where "finish_task env i tid (hd_duration i) ?r (a\<lparr>ag_executor := x\<rparr>) = (res, a1)"
      by (metis surj_pair)
    then show ?thesis
      using Some finish_task_fields [of env i tid "hd_duration i" ?r "a\<lparr>ag_executor := x\<rparr>"]
      by (simp add: run_task_def x Let_def)
  qed
  then show "ag_permissions (snd (run_task env i tid cmd a)) = ag_permissions a"
    "ag_running (snd (run_task env i tid cmd a)) = ag_running a"
    "ag_outbound_open (snd (run_task env i tid cmd a)) = ag_outbound_open a"
    "ag_workspace (snd (run_task env i tid cmd a)) = ag_workspace a" by simp_all
qed

lemma run_task_result:
  assumes "ag_outbound_open a" and "run_task env i tid cmd a = (Some res, a')"
  shows "res = None \<and> ag_running_tasks a' = hm_remove tid (ag_running_tasks a) \<and>
    (\<exists>r. ag_outbox a' = ag_outbox a @ [TaskResultMsg (hd_message_id i) tid r (metrics_of_duration (hd_duration i))] \<and>
       ag_metrics a' = record_execution (xe_round env) (cr_success r) (hd_duration i) (ag_metrics a))"
  using assms by (auto simp: run_task_def finish_task_def send_outbound_def Let_def split: prod.splits option.splits)

lemma run_task_panic:
  assumes "run_task env i tid cmd a = (None, a')"
  shows "ag_outbox a' = ag_outbox a \<and> ag_metrics a' = ag_metrics a"
  using assms by (auto simp: run_task_def finish_task_def send_outbound_def Let_def split: prod.splits option.splits)

text \<open>
  C13: every task is answered. When the channel to the Hub is open and handling an assignment comes to
  an end, the node has put exactly one message into it, for that task: a result after the command ran
  when the permission check allowed it; a refusal with the reason when it denied it, and a request for
  approval when it asked for one, both without the executor having done anything.
\<close>

theorem assignment_answered:
  assumes "ag_outbound_open a"
    and "handle_hub_message env i (TaskAssignment mid tid cmd prio deadline ctx timeout retries) a = (Some res, a')"
  shows "res = None \<and> (\<exists>answer. ag_outbox a' = ag_outbox a @ [answer] \<and>
    (case agent_check env i a cmd ctx of
       Allowed \<Rightarrow>
         (\<exists>r. answer = TaskResultMsg (hd_message_id i) tid r (metrics_of_duration (hd_duration i))) \<and>
         ag_running_tasks a' = hm_remove tid (hm_insert tid () (ag_running_tasks a))
     | Denied reason \<Rightarrow>
         answer = TaskResultMsg (hd_message_id i) tid (denied_result env reason (hd_duration i))
           (metrics_of_duration (hd_duration i)) \<and>
         ag_executor a' = ag_executor a
     | RequiresApproval _ reason \<Rightarrow>
         answer = ApprovalRequestMsg (hd_message_id i) (hd_approval_id i) tid cmd ctx reason (hd_now i)
           (hd_now i + duration_seconds (pm_approval_timeout_secs (ag_permissions a))) \<and>
         hm_contains (pm_pending_approvals (ag_permissions a')) (hd_approval_id i) \<and>
         hm_contains (ag_running_tasks a') tid \<and> ag_executor a' = ag_executor a))"
proof -
  let ?a = "a\<lparr>ag_running_tasks := hm_insert tid () (ag_running_tasks a)\<rparr>"
  have check: "agent_check env i ?a cmd ctx = agent_check env i a cmd ctx" by (simp add: agent_check_def)
  show ?thesis
  proof (cases "agent_check env i a cmd ctx")
    case Allowed
    then have "run_task env i tid cmd ?a = (Some res, a')" using assms(2) check by (simp add: handle_assignment_def)
    moreover have "ag_outbound_open ?a" using assms(1) by simp
    ultimately have "res = None \<and> ag_running_tasks a' = hm_remove tid (ag_running_tasks ?a) \<and>
        (\<exists>r. ag_outbox a' = ag_outbox ?a @
           [TaskResultMsg (hd_message_id i) tid r (metrics_of_duration (hd_duration i))])"
      using run_task_result [of ?a env i tid cmd res a'] by blast
    then show ?thesis using Allowed by (elim conjE exE) simp
  next
    case (Denied reason)
    have "(Some res, a') = (Some None, snd (finish_task env i tid (hd_duration i)
        (denied_result env reason (hd_duration i)) ?a))"
      using assms check Denied by (simp add: handle_assignment_def finish_task_def send_outbound_def)
    then show ?thesis using Denied assms(1) by (simp add: finish_task_def send_outbound_def)
  next
    case (RequiresApproval x reason)
    let ?c = "create_approval_request (hd_now i) (hd_approval_id i) (task_id_str tid) cmd ctx reason (ag_permissions a)"
    have pm: "hm_contains (pm_pending_approvals (snd ?c)) (hd_approval_id i)"
      by (simp add: create_approval_request_def hm_contains_def hm_get_insert Let_def)
    have "(Some res, a') = (Some None, ?a\<lparr>ag_permissions := snd ?c, ag_outbox := ag_outbox a @
        [ApprovalRequestMsg (hd_message_id i) (hd_approval_id i) tid cmd ctx reason (hd_now i)
           (hd_now i + duration_seconds (pm_approval_timeout_secs (ag_permissions a)))]\<rparr>)"
      using assms check RequiresApproval
      by (simp add: handle_assignment_def create_approval_request_def send_outbound_def Let_def)
    then show ?thesis using RequiresApproval pm by (simp add: hm_contains_def hm_get_insert)
  qed
qed

subsection \<open>Accounting\<close>

fun task_result_of :: "node_to_hub \<Rightarrow> command_result option" where
  "task_result_of (TaskResultMsg _ _ r _) = Some r"
| "task_result_of _ = None"

definition metrics_agree :: "node_agent \<Rightarrow> bool" where
  "metrics_agree a \<longleftrightarrow>
     (let rs = List.map_filter task_result_of (ag_outbox a)
      in mt_total_executions (ag_metrics a) = of_nat (length rs) \<and>
         mt_successful_executions (ag_metrics a) = of_nat (length (filter cr_success rs)) \<and>
         mt_failed_executions (ag_metrics a) = of_nat (length (filter (\<lambda>r. \<not> cr_success r) rs)))"

lemma map_filter_snoc: "List.map_filter f (xs @ [x]) = List.map_filter f xs @ (case f x of None \<Rightarrow> [] | Some y \<Rightarrow> [y])"
  by (cases "f x") (simp_all add: List.map_filter_def)

lemma metrics_agree_result:
  assumes "metrics_agree a" and "ag_outbox a' = ag_outbox a @ [TaskResultMsg m tid r e]"
    and "ag_metrics a' = record_execution rnd (cr_success r) ms (ag_metrics a)"
  shows "metrics_agree a'"
  using assms by (simp add: metrics_agree_def record_execution_def map_filter_snoc Let_def)

lemma metrics_agree_same:
  "metrics_agree a \<Longrightarrow> ag_outbox a' = ag_outbox a \<Longrightarrow> ag_metrics a' = ag_metrics a \<Longrightarrow> metrics_agree a'"
  by (simp add: metrics_agree_def)

lemma metrics_agree_other:
  "metrics_agree a \<Longrightarrow> ag_outbox a' = ag_outbox a @ [m] \<Longrightarrow> task_result_of m = None \<Longrightarrow>
     ag_metrics a' = ag_metrics a \<Longrightarrow> metrics_agree a'"
  by (simp add: metrics_agree_def map_filter_snoc)

lemma run_task_agrees:
  assumes "metrics_agree a" and "ag_outbound_open a"
  shows "metrics_agree (snd (run_task env i tid cmd a))"
proof (cases "fst (run_task env i tid cmd a)")
  case None
  then show ?thesis
    using run_task_panic [of env i tid cmd a] assms(1) metrics_agree_same by (metis prod.collapse)
next
  case (Some res)
  then show ?thesis
    using run_task_result [OF assms(2), of env i tid cmd res] metrics_agree_result [OF assms(1)]
    by (metis prod.collapse)
qed

lemma handle_agrees:
  assumes "metrics_agree a" and "ag_outbound_open a"
  shows "metrics_agree (snd (handle_hub_message env i msg a)) \<and>
    ag_outbound_open (snd (handle_hub_message env i msg a)) \<and>
    ag_running (snd (handle_hub_message env i msg a)) = ag_running a"
proof (cases msg)
  case (TaskAssignment mid tid cmd prio deadline ctx timeout retries)
  let ?a = "a\<lparr>ag_running_tasks := hm_insert tid () (ag_running_tasks a)\<rparr>"
  have a: "metrics_agree ?a" "ag_outbound_open ?a"
    using assms by (auto intro: metrics_agree_same)
  show ?thesis
  proof (cases "agent_check env i ?a cmd ctx")
    case Allowed
    then show ?thesis
      using run_task_agrees [OF a, of env i tid cmd] assms TaskAssignment by (simp add: handle_assignment_def)
  next
    case (Denied reason)
    then show ?thesis
      using TaskAssignment assms metrics_agree_result [OF a(1)]
      by (simp add: handle_assignment_def finish_task_def send_outbound_open Let_def denied_result_def)
  next
    case (RequiresApproval x reason)
    then show ?thesis
      using TaskAssignment assms metrics_agree_other [OF a(1)]
      by (simp add: handle_assignment_def create_approval_request_def send_outbound_open Let_def)
  qed
next
  case (ApprovalResponse mid rid approved responder reason t)
  obtain res pm where h: "handle_approval_response (hd_now i) rid approved responder reason (ag_permissions a) = (res, pm)"
    by (metis surj_pair)
  have a: "metrics_agree (a\<lparr>ag_permissions := pm\<rparr>)"
    and b: "metrics_agree (a\<lparr>ag_permissions := pm, ag_running_tasks := q\<rparr>)" for q
    using assms by (auto intro: metrics_agree_same)
  show ?thesis
  proof (cases res)
    case (Inl err)
    then show ?thesis using ApprovalResponse h a assms by (simp add: handle_approval_def)
  next
    case (Inr resolution)
    then show ?thesis
    proof (cases resolution)
      case (ResolvedApproved request tid)
      then show ?thesis
        using ApprovalResponse h Inr run_task_agrees [OF b] assms by (simp add: handle_approval_def)
    next
      case (ResolvedRejected request tid)
      then show ?thesis
        using ApprovalResponse h Inr assms metrics_agree_result [OF a]
        by (simp add: handle_approval_def finish_task_def send_outbound_open Let_def)
    qed
  qed
qed (use assms in \<open>auto intro: metrics_agree_same\<close>)

text \<open>
  The node's metrics are the results it sent. From a node that starts with none and an open
  channel, after any sequence of messages, the count of executions is the number of task results sent
  (modulo 2^64), and the counts of successes and failures are those of the successful and the failed ones.
\<close>

theorem metrics_account:
  assumes "metrics_agree a" and "ag_outbound_open a"
  shows "metrics_agree (snd (message_loop env history (True, a)))"
proof -
  have "metrics_agree (snd s) \<and> ag_outbound_open (snd s) \<Longrightarrow>
      metrics_agree (snd (message_loop env history s)) \<and> ag_outbound_open (snd (message_loop env history s))" for s
  proof (induction history arbitrary: s)
    case (Cons e history)
    obtain i msg where e: "e = (i, msg)" by (metis surj_pair)
    obtain alive b where s: "s = (alive, b)" by (metis surj_pair)
    have "metrics_agree (snd (message_step env e s)) \<and> ag_outbound_open (snd (message_step env e s))"
      using handle_agrees [of b env i msg] Cons.prems e s by (auto split: prod.splits option.splits)
    then show ?case using Cons.IH by (simp add: message_loop_def)
  qed (simp add: message_loop_def)
  then show ?thesis using assms by simp
qed

definition example_exec_env :: exec_env where
  "example_exec_env =
     \<lparr>xe_files = example_file_env, xe_run = (\<lambda>spec limit d. (Exited (Some 0) True ''done'' [], d)),
      xe_http = (\<lambda>c. RequestFailed ''offline''),
      xe_chrome = \<lparr>ch_enabled = False, ch_open = (\<lambda>u. None), ch_options = None, ch_launch = None,
        ch_new_tab = None, ch_navigate = (\<lambda>n u. None), ch_wait = (\<lambda>n. None),
        ch_evaluate = (\<lambda>n s. Inr None), ch_find = (\<lambda>n s. None), ch_click = (\<lambda>n s. None),
        ch_type = (\<lambda>n s t. None), ch_found = (\<lambda>s n. True), ch_elapsed = (\<lambda>n. n), ch_quote = (\<lambda>s. s)\<rparr>,
      xe_round = (\<lambda>x. x), xe_duration_debug = (\<lambda>n. dec_string n)\<rparr>"

definition example_handling :: handling where
  "example_handling =
     \<lparr>hd_now = 10, hd_clock = example_clock, hd_check_id = ''c'', hd_approval_id = ''q'', hd_file_id = ''f'',
      hd_message_id = MessageId ''m'', hd_duration = 5, hd_exec_duration = 4\<rparr>"

text \<open>A started node on the example disk, with the default rules.\<close>

definition example_agent :: node_agent where
  "example_agent =
     \<lparr>ag_config = node_config_default, ag_node_id = NodeId ''n'', ag_workspace = example_ws,
      ag_connection = example_connection, ag_executor = executor_new example_ws ''.uhorse'' example_disk,
      ag_permissions = load_default_rules 0 (permission_manager_new example_ws True),
      ag_metrics = metrics_default, ag_running_tasks = [], ag_running = True, ag_heartbeat_snapshot = None,
      ag_watching = False, ag_outbound = True, ag_outbound_open = True, ag_outbox = []\<rparr>"

definition example_assignment :: "command \<Rightarrow> hub_to_node" where
  "example_assignment cmd = TaskAssignment (MessageId ''h'') (TaskId ''t'') cmd Normal None example_ctx 60 3"

lemma example_agent_check:
  "agent_check example_exec_env example_handling example_agent (File (Write ''b'' ''new'' True)) example_ctx = Allowed"
proof -
  have "permission_check (env_on example_file_env example_disk) example_clock ''c''
      (load_default_rules 0 (permission_manager_new example_ws True)) (File (Write ''b'' ''new'' True)) example_ctx =
    Allowed"
    by code_simp
  then show ?thesis
    by (simp add: agent_check_def example_exec_env_def example_handling_def example_agent_def executor_new_def)
qed

lemma file_command_returns: "fst (run_command env uuid (File c) x) \<noteq> None"
  by (simp add: run_command_def split: prod.splits)

lemma file_task_returns: "fst (run_task env i tid (File c) a) \<noteq> None"
proof -
  obtain res x where r: "run_command env (hd_file_id i) (File c) (ag_executor a) = (Some res, x)"
    using file_command_returns [of env "hd_file_id i" c "ag_executor a"] by (metis option.exhaust prod.collapse)
  show ?thesis by (cases res) (simp_all add: run_task_def execute_unchecked_def r Let_def split_beta)
qed

theorem assignment_answered_witness:
  "\<exists>r a'. handle_hub_message example_exec_env example_handling
       (example_assignment (File (Write ''b'' ''new'' True))) example_agent = (Some None, a') \<and>
     ag_outbox a' = [TaskResultMsg (MessageId ''m'') (TaskId ''t'') r (metrics_of_duration 5)]"
proof -
  let ?h = "handle_hub_message example_exec_env example_handling
    (example_assignment (File (Write ''b'' ''new'' True))) example_agent"
  have "fst ?h \<noteq> None"
    using example_agent_check file_task_returns
    by (simp add: example_assignment_def handle_assignment_def agent_check_def)
  then obtain res a' where h: "?h = (Some res, a')" by (metis option.exhaust surj_pair fst_conv)
  have "ag_outbound_open example_agent" "ag_outbox example_agent = []" by (simp_all add: example_agent_def)
  moreover have "hd_message_id example_handling = MessageId ''m''" "hd_duration example_handling = 5"
    by (simp_all add: example_handling_def)
  ultimately show ?thesis
    using h assignment_answered [OF _ h [unfolded example_assignment_def]] example_agent_check by auto
qed

theorem metrics_account_witness:
  "metrics_agree (snd (message_loop example_exec_env
     [(example_handling, example_assignment (File (Write ''b'' ''new'' True))),
      (example_handling, example_assignment (File (Info ''/etc'')))] (True, example_agent)))"
  by (rule metrics_account)
     (simp_all add: example_agent_def metrics_agree_def metrics_default_def List.map_filter_def)

subsection \<open>What may run\<close>

lemma run_task_executor:
  "ag_executor (snd (run_task env i tid cmd a)) =
     snd (execute_unchecked env (hd_file_id i) (hd_exec_duration i) cmd (ag_executor a))"
proof -
  obtain e x where x: "execute_unchecked env (hd_file_id i) (hd_exec_duration i) cmd (ag_executor a) = (e, x)"
    by (metis surj_pair)
  show ?thesis
  proof (cases e)
    case None
    then show ?thesis by (simp add: run_task_def x)
  next
    case (Some execution)
    let ?r = "case execution of Inr r \<Rightarrow> r
      | Inl err \<Rightarrow> command_result_from_node_error (fe_debug (xe_files env)) err (hd_duration i)"
    obtain res a1 where "finish_task env i tid (hd_duration i) ?r (a\<lparr>ag_executor := x\<rparr>) = (res, a1)"
      by (metis surj_pair)
    then show ?thesis
      using Some finish_task_fields(1) [of env i tid "hd_duration i" ?r "a\<lparr>ag_executor := x\<rparr>"]
      by (simp add: run_task_def x Let_def)
  qed
qed

definition task_runs :: "exec_env \<Rightarrow> handling \<Rightarrow> command \<Rightarrow> node_agent \<Rightarrow> node_agent \<Rightarrow> bool" where
  "task_runs env i cmd a a' \<longleftrightarrow>
     ag_executor a' = snd (execute_unchecked env (hd_file_id i) (hd_exec_duration i) cmd (ag_executor a))"

lemma assignment_cases:
  obtains (run) "agent_check env i a cmd ctx = Allowed"
      "handle_assignment env i tid cmd ctx a =
         run_task env i tid cmd (a\<lparr>ag_running_tasks := hm_insert tid () (ag_running_tasks a)\<rparr>)"
  | (deny) reason where "agent_check env i a cmd ctx = Denied reason"
      "ag_executor (snd (handle_assignment env i tid cmd ctx a)) = ag_executor a"
      "ag_permissions (snd (handle_assignment env i tid cmd ctx a)) = ag_permissions a"
  | (ask) x reason where "agent_check env i a cmd ctx = RequiresApproval x reason"
      "ag_executor (snd (handle_assignment env i tid cmd ctx a)) = ag_executor a"
      "ag_permissions (snd (handle_assignment env i tid cmd ctx a)) =
         snd (create_approval_request (hd_now i) (hd_approval_id i) (task_id_str tid) cmd ctx reason (ag_permissions a))"
proof -
  let ?a = "a\<lparr>ag_running_tasks := hm_insert tid () (ag_running_tasks a)\<rparr>"
  have check: "agent_check env i ?a cmd ctx = agent_check env i a cmd ctx" by (simp add: agent_check_def)
  show thesis
  proof (cases "agent_check env i a cmd ctx")
    case Allowed
    then show ?thesis using run check by (simp add: handle_assignment_def)
  next
    case (Denied reason)
    then show ?thesis
      using deny check finish_task_fields [of env i tid "hd_duration i" "denied_result env reason (hd_duration i)" ?a]
      by (simp add: handle_assignment_def split_beta Let_def)
  next
    case (RequiresApproval x reason)
    let ?c = "create_approval_request (hd_now i) (hd_approval_id i) (task_id_str tid) cmd ctx reason (ag_permissions a)"
    obtain approval pm where c: "?c = (approval, pm)" by (metis surj_pair)
    show ?thesis
      using ask [OF RequiresApproval] check RequiresApproval c
      by (simp add: handle_assignment_def Let_def send_outbound_def)
  qed
qed

lemma approval_cases:
  obtains (run) req tid pm where "approved" "hm_get (pm_pending_approvals (ag_permissions a)) rid = Some req"
      "hd_now i \<le> na_expires_at req"
      "handle_approval env i rid approved who why a =
         run_task env i tid (na_command req)
           (a\<lparr>ag_permissions := pm, ag_running_tasks := hm_insert tid () (ag_running_tasks a)\<rparr>)"
      "pm = (ag_permissions a)\<lparr>pm_pending_approvals := hm_remove rid (pm_pending_approvals (ag_permissions a))\<rparr>"
  | (stay) "ag_executor (snd (handle_approval env i rid approved who why a)) = ag_executor a"
      "ag_permissions (snd (handle_approval env i rid approved who why a)) = ag_permissions a \<or>
       ag_permissions (snd (handle_approval env i rid approved who why a)) =
         (ag_permissions a)\<lparr>pm_pending_approvals := hm_remove rid (pm_pending_approvals (ag_permissions a))\<rparr>"
proof -
  let ?pm = "(ag_permissions a)\<lparr>pm_pending_approvals := hm_remove rid (pm_pending_approvals (ag_permissions a))\<rparr>"
  show thesis
  proof (cases "hm_get (pm_pending_approvals (ag_permissions a)) rid")
    case None
    then show ?thesis using stay by (simp add: handle_approval_def handle_approval_response_def)
  next
    case (Some req)
    consider (late) "na_expires_at req < hd_now i" | (yes) "\<not> na_expires_at req < hd_now i" "approved"
      | (no) "\<not> na_expires_at req < hd_now i" "\<not> approved" by blast
    then show ?thesis
    proof cases
      case late
      then show ?thesis using stay Some by (simp add: handle_approval_def handle_approval_response_def Let_def)
    next
      case yes
      then show ?thesis
        using run [OF _ Some _ _ refl, of "TaskId (na_task_id req)"] Some
        by (simp add: handle_approval_def handle_approval_response_def Let_def)
    next
      case no
      then show ?thesis
        using stay Some
        by (simp add: handle_approval_def handle_approval_response_def Let_def finish_task_def send_outbound_def)
    qed
  qed
qed

text \<open>Where a pending request comes from: an assignment, earlier in the history, that needed approval.\<close>

definition asked_for :: "exec_env \<Rightarrow> node_agent \<Rightarrow> (handling \<times> hub_to_node) list \<Rightarrow> string \<Rightarrow> command \<Rightarrow> bool" where
  "asked_for env a0 history rid cmd \<longleftrightarrow>
     (\<exists>earlier j mid tid prio deadline ctx timeout retries later x reason.
        history = earlier @ (j, TaskAssignment mid tid cmd prio deadline ctx timeout retries) # later \<and>
        hd_approval_id j = rid \<and>
        agent_check env j (snd (message_loop env earlier (True, a0))) cmd ctx = RequiresApproval x reason)"

lemma asked_for_later: "asked_for env a0 history rid cmd \<Longrightarrow> asked_for env a0 (history @ [e]) rid cmd"
  unfolding asked_for_def by (metis append_Cons append_assoc)

lemma handle_pending:
  assumes "hm_get (pm_pending_approvals (ag_permissions (snd (handle_hub_message env i msg a)))) rid = Some req"
  shows "hm_get (pm_pending_approvals (ag_permissions a)) rid = Some req \<or>
    (\<exists>mid tid prio deadline ctx timeout retries x reason.
       msg = TaskAssignment mid tid (na_command req) prio deadline ctx timeout retries \<and> hd_approval_id i = rid \<and>
       agent_check env i a (na_command req) ctx = RequiresApproval x reason)"
proof (cases msg)
  case (TaskAssignment mid tid cmd prio deadline ctx timeout retries)
  show ?thesis
  proof (cases rule: assignment_cases [of env i a cmd ctx tid])
    case run
    then show ?thesis using assms TaskAssignment by simp
  next
    case (deny reason)
    then show ?thesis using assms TaskAssignment by simp
  next
    case (ask x reason)
    show ?thesis
    proof (cases "hd_approval_id i = rid")
      case True
      then have "na_command req = cmd"
        using ask assms TaskAssignment by (auto simp: create_approval_request_def hm_get_insert Let_def)
      then show ?thesis using True ask(1) TaskAssignment by blast
    next
      case False
      then show ?thesis
        using ask assms TaskAssignment by (auto simp: create_approval_request_def hm_get_insert Let_def)
    qed
  qed
next
  case (ApprovalResponse mid r ok who why t)
  show ?thesis
    by (cases rule: approval_cases [of ok a r i env who why])
       (use assms ApprovalResponse in \<open>auto simp: hm_get_remove split: if_splits\<close>)
qed (use assms in \<open>auto simp: replace_rules_def\<close>)

lemma message_loop_snoc: "message_loop env (history @ [e]) s = message_step env e (message_loop env history s)"
  by (simp add: message_loop_def)

lemma pending_asked_for:
  assumes "pm_pending_approvals (ag_permissions a0) = []"
    and "hm_get (pm_pending_approvals (ag_permissions (snd (message_loop env history (True, a0))))) rid = Some req"
  shows "asked_for env a0 history rid (na_command req)"
  using assms(2)
proof (induction history rule: rev_induct)
  case Nil
  then show ?case using assms(1) by (simp add: message_loop_def)
next
  case (snoc e history)
  obtain i msg where e: "e = (i, msg)" by (metis surj_pair)
  obtain alive a where s: "message_loop env history (True, a0) = (alive, a)" by (metis surj_pair)
  have "hm_get (pm_pending_approvals (ag_permissions a)) rid = Some req \<or>
      hm_get (pm_pending_approvals (ag_permissions (snd (handle_hub_message env i msg a)))) rid = Some req"
    using snoc.prems by (auto simp: message_loop_snoc e s split: prod.splits option.splits if_splits)
  then have "hm_get (pm_pending_approvals (ag_permissions a)) rid = Some req \<or>
      (\<exists>mid tid prio deadline ctx timeout retries x reason.
         msg = TaskAssignment mid tid (na_command req) prio deadline ctx timeout retries \<and> hd_approval_id i = rid \<and>
         agent_check env i a (na_command req) ctx = RequiresApproval x reason)"
    using handle_pending [of env i msg a rid req] by (elim disjE) simp_all
  then consider "hm_get (pm_pending_approvals (ag_permissions a)) rid = Some req"
    | mid tid prio deadline ctx timeout retries x reason where
       "msg = TaskAssignment mid tid (na_command req) prio deadline ctx timeout retries" "hd_approval_id i = rid"
       "agent_check env i a (na_command req) ctx = RequiresApproval x reason"
    by (elim disjE exE conjE) simp_all
  then show ?case
  proof cases
    case 1
    then show ?thesis using snoc.IH s by (auto intro: asked_for_later)
  next
    case (2 mid tid prio deadline ctx timeout retries x reason)
    have "history @ [e] = history @ (i, TaskAssignment mid tid (na_command req) prio deadline ctx timeout retries) # []"
      using 2 e by simp
    moreover have "agent_check env i (snd (message_loop env history (True, a0))) (na_command req) ctx =
        RequiresApproval x reason" using 2 s by simp
    ultimately show ?thesis using 2(2) unfolding asked_for_def by blast
  qed
qed

text \<open>
  C7: nothing runs without permission. From a node with no request pending, at any point of any history
  of messages, the executor's state (its disk, its browser, its statistics) changes only by executing
  one command, and that command was allowed by the permission check of its assignment, or is the
  command of an earlier assignment whose check asked for approval, under the id of a request that is
  still pending, has not expired and is now approved.
\<close>

theorem nothing_runs_unpermitted:
  assumes "pm_pending_approvals (ag_permissions a0) = []"
    and "message_loop env history (True, a0) = (alive, a)" and "handle_hub_message env i msg a = (res, a')"
  shows "ag_executor a' = ag_executor a \<or>
    (\<exists>cmd. task_runs env i cmd a a' \<and>
      ((\<exists>mid tid prio deadline ctx timeout retries.
          msg = TaskAssignment mid tid cmd prio deadline ctx timeout retries \<and>
          agent_check env i a cmd ctx = Allowed) \<or>
       (\<exists>mid rid who why t req.
          msg = ApprovalResponse mid rid True who why t \<and>
          hm_get (pm_pending_approvals (ag_permissions a)) rid = Some req \<and> na_command req = cmd \<and>
          hd_now i \<le> na_expires_at req \<and> asked_for env a0 history rid cmd)))"
proof (cases msg)
  case (TaskAssignment mid tid cmd prio deadline ctx timeout retries)
  have a': "a' = snd (handle_assignment env i tid cmd ctx a)"
    using assms(3) TaskAssignment by (metis handle_hub_message.simps(1) snd_conv)
  show ?thesis
  proof (cases rule: assignment_cases [of env i a cmd ctx tid])
    case run
    then have "task_runs env i cmd a a'" using a' by (simp add: task_runs_def run_task_executor)
    then show ?thesis using run(1) TaskAssignment by blast
  qed (use a' in auto)
next
  case (ApprovalResponse mid rid ok who why t)
  have a': "a' = snd (handle_approval env i rid ok who why a)"
    using assms(3) ApprovalResponse by (metis handle_hub_message.simps(4) snd_conv)
  show ?thesis
  proof (cases rule: approval_cases [of ok a rid i env who why])
    case (run req tid pm)
    then have "task_runs env i (na_command req) a a'" using a' by (simp add: task_runs_def run_task_executor)
    moreover have "asked_for env a0 history rid (na_command req)"
      using pending_asked_for [OF assms(1)] run(2) assms(2) by simp
    ultimately show ?thesis using run(1-3) ApprovalResponse by blast
  qed (use a' in auto)
qed (use assms(3) in auto)

text \<open>A node that asks before it writes.\<close>

definition asking_agent :: node_agent where
  "asking_agent = example_agent
     \<lparr>ag_permissions := replace_rules
        [default_rule 0 ''ask'' ''Ask'' ActWrite 9\<lparr>pr_require_approval := True\<rparr>] (ag_permissions example_agent)\<rparr>"

lemma asking_agent_check:
  "agent_check example_exec_env example_handling asking_agent (File (Write ''b'' ''new'' True)) example_ctx =
     RequiresApproval ''c'' (''Rule '' @ [CHR 0x27] @ ''Ask'' @ [CHR 0x27] @ '' requires approval'')"
proof -
  have "permission_check (env_on example_file_env example_disk) example_clock ''c''
      (replace_rules [default_rule 0 ''ask'' ''Ask'' ActWrite 9\<lparr>pr_require_approval := True\<rparr>]
        (load_default_rules 0 (permission_manager_new example_ws True)))
      (File (Write ''b'' ''new'' True)) example_ctx =
    RequiresApproval ''c'' (''Rule '' @ [CHR 0x27] @ ''Ask'' @ [CHR 0x27] @ '' requires approval'')"
    by code_simp
  then show ?thesis
    by (simp add: agent_check_def example_exec_env_def example_handling_def asking_agent_def example_agent_def
        executor_new_def)
qed

lemma file_command_counted:
  "es_total_executions (ce_stats (snd (execute_unchecked env uuid ms (File c) x))) =
     es_total_executions (ce_stats x) + 1"
  by (simp add: execute_unchecked_def run_command_def record_stats_def Let_def split: prod.splits sum.splits)

theorem nothing_runs_unpermitted_witness:
  "\<exists>a a'. message_loop example_exec_env
        [(example_handling, example_assignment (File (Write ''b'' ''new'' True)))] (True, asking_agent) = (True, a) \<and>
     a' = snd (handle_hub_message example_exec_env example_handling
       (ApprovalResponse (MessageId ''r'') ''q'' True ''bob'' None 11) a) \<and>
     ag_executor a' \<noteq> ag_executor a \<and>
     asked_for example_exec_env asking_agent
       [(example_handling, example_assignment (File (Write ''b'' ''new'' True)))] ''q'' (File (Write ''b'' ''new'' True))"
proof -
  let ?env = example_exec_env and ?i = example_handling and ?cmd = "File (Write ''b'' ''new'' True)"
  let ?h = "[(?i, example_assignment ?cmd)]" and ?msg = "ApprovalResponse (MessageId ''r'') ''q'' True ''bob'' None 11"
  let ?a = "snd (handle_assignment ?env ?i (TaskId ''t'') ?cmd example_ctx asking_agent)"
  have run: "ag_running asking_agent" "pm_pending_approvals (ag_permissions asking_agent) = []"
    by (simp_all add: asking_agent_def example_agent_def replace_rules_def load_default_rules_def add_rule_def
        permission_manager_new_def)
  have "fst (handle_assignment ?env ?i (TaskId ''t'') ?cmd example_ctx asking_agent) \<noteq> None"
    using asking_agent_check by (simp add: handle_assignment_def agent_check_def split_beta Let_def)
  then have loop: "message_loop ?env ?h (True, asking_agent) = (True, ?a)"
    using run(1) by (auto simp: message_loop_def example_assignment_def split: prod.splits option.splits)
  have "\<exists>req. hm_get (pm_pending_approvals (ag_permissions ?a)) ''q'' = Some req \<and> na_command req = ?cmd \<and>
      hd_now ?i \<le> na_expires_at req"
  proof (cases rule: assignment_cases [of ?env ?i asking_agent ?cmd example_ctx "TaskId ''t''"])
    case (ask x reason)
    then show ?thesis
      by (simp add: create_approval_request_def hm_get_insert Let_def example_handling_def asking_agent_def
          example_agent_def replace_rules_def load_default_rules_def add_rule_def permission_manager_new_def
          duration_seconds_def nanos_per_sec_def)
  qed (simp_all add: asking_agent_check)
  then obtain req where req: "hm_get (pm_pending_approvals (ag_permissions ?a)) ''q'' = Some req"
      "na_command req = ?cmd" "hd_now ?i \<le> na_expires_at req" by blast
  let ?b = "snd (handle_hub_message ?env ?i ?msg ?a)"
  have "ag_executor ?b = snd (execute_unchecked ?env (hd_file_id ?i) (hd_exec_duration ?i) ?cmd (ag_executor ?a))"
    using req by (simp add: handle_approval_def handle_approval_response_def Let_def run_task_executor)
  then have changed: "ag_executor ?b \<noteq> ag_executor ?a"
    using file_command_counted [of ?env "hd_file_id ?i" "hd_exec_duration ?i" "Write ''b'' ''new'' True" "ag_executor ?a"]
    by (metis add_cancel_right_right zero_neq_one)
  have "asked_for ?env asking_agent ?h ''q'' ?cmd"
    using nothing_runs_unpermitted [OF run(2) loop prod.collapse [symmetric], of ?i ?msg] changed req by auto
  then show ?thesis using loop changed by blast
qed

subsection \<open>What the handler does not do\<close>

text \<open>A cancelled task that waits for approval runs when the approval comes.\<close>

lemma cancelled_task_runs:
  assumes "hm_get (pm_pending_approvals (ag_permissions a)) rid = Some req" and "hd_now i \<le> na_expires_at req"
  shows "let b = snd (handle_hub_message env j (TaskCancellation mid (TaskId (na_task_id req)) why) a)
    in \<not> hm_contains (ag_running_tasks b) (TaskId (na_task_id req)) \<and>
       task_runs env i (na_command req) b (snd (handle_hub_message env i (ApprovalResponse mid' rid True who reason t) b))"
  using assms
  by (simp add: task_runs_def handle_approval_def handle_approval_response_def run_task_executor hm_contains_def
      hm_get_remove Let_def)

text \<open>An answer after the expiry ends the request, but its task stays among the running ones.\<close>

lemma late_answer_leaves_task:
  assumes "hm_get (pm_pending_approvals (ag_permissions a)) rid = Some req" and "na_expires_at req < hd_now i"
    and "handle_hub_message env i (ApprovalResponse mid rid ok who reason t) a = (res, a')"
  shows "ag_running_tasks a' = ag_running_tasks a \<and> ag_outbox a' = ag_outbox a \<and>
    \<not> hm_contains (pm_pending_approvals (ag_permissions a')) rid"
  using assms
  by (auto simp: handle_approval_def handle_approval_response_def hm_contains_def hm_get_remove Let_def)

text \<open>Conditions and the list action of a rule of the Hub are lost.\<close>

lemma hub_rule_loses_conditions:
  "pr_conditions (convert_protocol_permission_rule now r) = []"
  "pp_actions r = [ProtoList] \<Longrightarrow> pr_actions (convert_protocol_permission_rule now r) = []"
  by (simp_all add: convert_protocol_permission_rule_def permission_rule_new_def List.map_filter_def)

text \<open>A node that is stopped and started again adds its rules a second time.\<close>

lemma add_rule_length: "length (pm_rules (add_rule r m)) = Suc (length (pm_rules m))"
  by (simp add: add_rule_def sort_rules_def)

lemma restart_adds_rules:
  assumes "ag_running a" and "nf_watch_workspace (ag_config a) = False"
  shows "length (pm_rules (ag_permissions (snd (node_start now None (node_stop a))))) =
    length (pm_rules (ag_permissions a)) + 4 + length (nf_permission_rules (ag_config a))"
proof -
  have fold: "length (pm_rules (foldl (\<lambda>m rule. add_rule (rule_into_runtime now rule) m) m rs)) =
      length (pm_rules m) + length rs" for m rs
    by (induction rs arbitrary: m) (simp_all add: add_rule_length)
  show ?thesis
    using assms
    by (simp add: node_start_def node_stop_def connection_start_def connection_stop_def fold load_default_rules_def
        add_rule_length Let_def)
qed

text \<open>Output longer than the limit is cut at a byte: inside a character that is a panic.\<close>

lemma limit_output_panics:
  "limit_output 1 [CHR 0xC3, CHR 0xA9] = None" and "valid_utf8 [CHR 0xC3, CHR 0xA9]"
  by code_simp+

end
