(* ===== verification/Hub_Node.thy ===== *)
theory Hub_Node
  imports Hub Node_Agent
begin

section \<open>A task from the Hub to a node and back\<close>

text \<open>
  The composition of both ends of the protocol: the Hub's scheduler has a task running on a node, the
  node handles its assignment, and the Hub handles what the node sent.
\<close>

lemma assignment_result:
  assumes "ag_outbound_open a" and "handle_assignment env i tid cmd ctx a = (Some res, a')"
    and "\<And>x reason. agent_check env i a cmd ctx \<noteq> RequiresApproval x reason"
  shows "\<exists>r. ag_outbox a' = ag_outbox a @ [TaskResultMsg (hd_message_id i) tid r (metrics_of_duration (hd_duration i))] \<and>
    (agent_check env i a cmd ctx \<noteq> Allowed \<longrightarrow> \<not> cr_success r)"
proof -
  let ?a = "a\<lparr>ag_running_tasks := hm_insert tid () (ag_running_tasks a)\<rparr>"
  have check: "agent_check env i ?a cmd ctx = agent_check env i a cmd ctx" by (simp add: agent_check_def)
  show ?thesis
  proof (cases "agent_check env i a cmd ctx")
    case Allowed
    then have "run_task env i tid cmd ?a = (Some res, a')" using assms(2) check by (simp add: handle_assignment_def)
    moreover have "ag_outbound_open ?a" using assms(1) by simp
    ultimately obtain r where "ag_outbox a' = ag_outbox ?a @
        [TaskResultMsg (hd_message_id i) tid r (metrics_of_duration (hd_duration i))]"
      using run_task_result [of ?a env i tid cmd res a'] by blast
    then show ?thesis using Allowed by simp
  next
    case (Denied reason)
    have "a' = snd (finish_task env i tid (hd_duration i) (denied_result env reason (hd_duration i)) ?a)"
      using assms(1,2) check Denied by (simp add: handle_assignment_def finish_task_def send_outbound_def)
    moreover have "\<not> cr_success (denied_result env reason (hd_duration i))"
      by (simp add: denied_result_def with_duration_def command_failure_def)
    ultimately show ?thesis using assms(1) by (simp add: finish_task_def send_outbound_def)
  next
    case (RequiresApproval x reason)
    then show ?thesis using assms(3) by blast
  qed
qed

lemma completed_status:
  assumes "sched_inv s" and "status_of s tid = Some Running"
  shows "status_of (complete_task now tid n r s) tid \<in> {Some (terminal_status_from_result r), None}"
proof -
  have stored: "ct_status c \<noteq> Running" if "hm_get (ts_completed_tasks s) tid = Some c" for c
  proof -
    have "terminal (ct_status c)" using assms(1) that by (simp add: sched_inv_def store_ok_def)
    then show ?thesis by auto
  qed
  obtain t where t: "hm_get (ts_running_tasks s) tid = Some t"
    using assms(2) stored
    by (cases "hm_get (ts_running_tasks s) tid"; cases "hm_get (ts_completed_tasks s) tid")
       (auto simp: status_of_eq split: if_splits)
  then show ?thesis
    using finish_running_status(2) [OF assms(1) t, of "terminal_status_from_result r"]
    by (simp add: complete_task_def)
qed



end
