(* ===== verification/Auth.thy ===== *)
theory Auth
  imports Approval
begin

section \<open>Tokens (\<^verbatim>\<open>uhorse-security/src/auth.rs\<close>, \<^verbatim>\<open>uhorse-hub/src/security_integration.rs\<close>)\<close>

text \<open>
  The JWT service, which mints, verifies, revokes and refreshes tokens, and the node authenticator of the
  Hub over it. Signing and checking a token is the library's: a \<open>jwt_codec\<close> is a parameter of every
  operation that needs it, with what the code relies on named \<open>codec_ok\<close>. Clock readings are arguments.
  The two critical sections of an exchange, the test of the blacklist and the entry into it, are
  definitions of their own, since another task may run between them.
\<close>

subsection \<open>Claims and the codec\<close>

record claims =
  cl_sub :: string
  cl_exp :: int
  cl_iat :: int
  cl_device_id :: "string option"
  cl_scopes :: "string list"
  cl_token_type :: string
  cl_jti :: string

text \<open>
  \<^verbatim>\<open>encode\<close> under a secret gives the token or the text of an error; \<^verbatim>\<open>decode\<close> under a secret, at a time in
  seconds, checks the signature and the expiry and gives the claims.
\<close>

record jwt_codec =
  jc_encode :: "string \<Rightarrow> claims \<Rightarrow> string + string"
  jc_decode :: "string \<Rightarrow> int \<Rightarrow> string \<Rightarrow> claims option"

text \<open>Documented behaviour: a token decodes to what was encoded, as long as it has not expired.\<close>

definition codec_ok :: "jwt_codec \<Rightarrow> string \<Rightarrow> bool" where
  "codec_ok e secret \<longleftrightarrow>
     (\<forall>c token t. jc_encode e secret c = Inr token \<longrightarrow>
        jc_decode e secret t token \<in> {None, Some c} \<and>
        (t \<le> cl_exp c \<longrightarrow> jc_decode e secret t token = Some c))"

text \<open>The claims in a token do not depend on when it is read.\<close>

definition codec_stable :: "jwt_codec \<Rightarrow> string \<Rightarrow> bool" where
  "codec_stable e secret \<longleftrightarrow>
     (\<forall>token t u c d. jc_decode e secret t token = Some c \<longrightarrow> jc_decode e secret u token = Some d \<longrightarrow> c = d)"

lemma codec_okD:
  assumes "codec_ok e secret" and "jc_encode e secret c = Inr token"
  shows "jc_decode e secret t token = Some d \<Longrightarrow> d = c"
    and "t \<le> cl_exp c \<Longrightarrow> jc_decode e secret t token = Some c"
proof -
  have "jc_decode e secret t token \<in> {None, Some c}"
    using assms by (auto simp: codec_ok_def)
  then show "jc_decode e secret t token = Some d \<Longrightarrow> d = c" by auto
  show "t \<le> cl_exp c \<Longrightarrow> jc_decode e secret t token = Some c" using assms by (auto simp: codec_ok_def)
qed

lemma codec_stableD:
  "codec_stable e secret \<Longrightarrow> jc_decode e secret t token = Some c \<Longrightarrow> jc_decode e secret u token = Some d \<Longrightarrow> d = c"
  unfolding codec_stable_def by metis

subsection \<open>The service\<close>

record jwt_service =
  jw_secret :: string
  jw_default_expiry :: u64
  jw_refresh_expiry :: u64
  jw_revoked :: "(string, unit) hmap"

definition jwt_service_new :: "string \<Rightarrow> jwt_service" where
  "jwt_service_new secret =
     \<lparr>jw_secret = secret, jw_default_expiry = 3600, jw_refresh_expiry = 2592000, jw_revoked = []\<rparr>"

definition with_default_expiry :: "u64 \<Rightarrow> jwt_service \<Rightarrow> jwt_service" where
  "with_default_expiry expiry s = s\<lparr>jw_default_expiry := expiry\<rparr>"

definition with_refresh_expiry :: "u64 \<Rightarrow> jwt_service \<Rightarrow> jwt_service" where
  "with_refresh_expiry expiry s = s\<lparr>jw_refresh_expiry := expiry\<rparr>"

text \<open>The readings of the two clocks a token is made from: \<^verbatim>\<open>Utc::now\<close> and \<^verbatim>\<open>SystemTime::now\<close>.\<close>

record token_clock =
  tk_now :: instant
  tk_nanos :: nat

definition generate_jti :: "token_clock \<Rightarrow> string" where
  "generate_jti k = ''jti_'' @ dec_string (tk_nanos k)"

definition timestamp :: "instant \<Rightarrow> int" where
  "timestamp t = t div nanos_per_sec"

text \<open>\<^verbatim>\<open>encode(..).map_err(|e| InternalError(e.to_string()))\<close>.\<close>

definition sign :: "jwt_codec \<Rightarrow> claims \<Rightarrow> jwt_service \<Rightarrow> uhorse_error + string" where
  "sign e c s = map_sum InternalError id (jc_encode e (jw_secret s) c)"

definition token_claims ::
  "token_clock \<Rightarrow> u64 \<Rightarrow> string \<Rightarrow> string option \<Rightarrow> string list \<Rightarrow> string \<Rightarrow> claims" where
  "token_claims k lifetime subject device_id scopes token_type =
     \<lparr>cl_sub = subject, cl_exp = timestamp (tk_now k + duration_seconds lifetime),
      cl_iat = timestamp (tk_now k), cl_device_id = device_id, cl_scopes = scopes,
      cl_token_type = token_type, cl_jti = generate_jti k\<rparr>"

definition create_access_token ::
  "jwt_codec \<Rightarrow> token_clock \<Rightarrow> string \<Rightarrow> string option \<Rightarrow> string list \<Rightarrow> jwt_service \<Rightarrow> uhorse_error + string" where
  "create_access_token e k subject device_id scopes s =
     sign e (token_claims k (jw_default_expiry s) subject device_id scopes ''access'') s"

definition create_refresh_token ::
  "jwt_codec \<Rightarrow> token_clock \<Rightarrow> string \<Rightarrow> string option \<Rightarrow> jwt_service \<Rightarrow> uhorse_error + string" where
  "create_refresh_token e k subject device_id s =
     sign e (token_claims k (jw_refresh_expiry s) subject device_id [''refresh''] ''refresh'') s"

definition is_revoked :: "string \<Rightarrow> jwt_service \<Rightarrow> bool" where
  "is_revoked jti s = hm_contains (jw_revoked s) jti"

definition blacklist :: "string \<Rightarrow> jwt_service \<Rightarrow> jwt_service" where
  "blacklist jti s = s\<lparr>jw_revoked := hm_insert jti () (jw_revoked s)\<rparr>"

text \<open>The half that goes is the first half in the order in which the set is walked.\<close>

definition cleanup_revoked :: "jwt_service \<Rightarrow> jwt_service" where
  "cleanup_revoked s =
     (if 10000 < length (jw_revoked s)
      then s\<lparr>jw_revoked := fold hm_remove (take (length (jw_revoked s) div 2) (hm_keys (jw_revoked s)))
                             (jw_revoked s)\<rparr>
      else s)"

definition subject_of :: "string option \<Rightarrow> string option \<Rightarrow> string" where
  "subject_of user_id device_id =
     (case user_id of Some u \<Rightarrow> u | None \<Rightarrow> (case device_id of Some d \<Rightarrow> d | None \<Rightarrow> []))"

definition create_token ::
  "jwt_codec \<Rightarrow> token_clock \<Rightarrow> string option \<Rightarrow> string option \<Rightarrow> string list \<Rightarrow> u64 \<Rightarrow> jwt_service \<Rightarrow>
   uhorse_error + string" where
  "create_token e k device_id user_id scopes expires_in s =
     sign e (token_claims k expires_in (subject_of user_id device_id) device_id scopes ''access'') s"

record access_token =
  at_token :: string
  at_device_id :: "string option"
  at_user_id :: "string option"
  at_scopes :: "string list"
  at_expires_at :: u64
  at_created_at :: u64

definition verify_token :: "jwt_codec \<Rightarrow> int \<Rightarrow> string \<Rightarrow> jwt_service \<Rightarrow> uhorse_error + access_token" where
  "verify_token e t token s =
     (case jc_decode e (jw_secret s) t token of
        None \<Rightarrow> Inl InvalidToken
      | Some c \<Rightarrow>
          if cl_token_type c \<noteq> ''access'' then Inl InvalidToken
          else if is_revoked (cl_jti c) s then Inl TokenExpired
          else Inr \<lparr>at_token = token, at_device_id = cl_device_id c, at_user_id = Some (cl_sub c),
                    at_scopes = cl_scopes c, at_expires_at = word_of_int (cl_exp c),
                    at_created_at = word_of_int (cl_iat c)\<rparr>)"

definition revoke_token :: "jwt_codec \<Rightarrow> int \<Rightarrow> string \<Rightarrow> jwt_service \<Rightarrow> (uhorse_error + unit) \<times> jwt_service" where
  "revoke_token e t token s =
     (case jc_decode e (jw_secret s) t token of
        None \<Rightarrow> (Inl InvalidToken, s)
      | Some c \<Rightarrow> (Inr (), blacklist (cl_jti c) s))"

text \<open>What both exchanges test before they spend the refresh token.\<close>

definition refresh_check :: "jwt_codec \<Rightarrow> int \<Rightarrow> string \<Rightarrow> jwt_service \<Rightarrow> uhorse_error + claims" where
  "refresh_check e t token s =
     (case jc_decode e (jw_secret s) t token of
        None \<Rightarrow> Inl InvalidToken
      | Some c \<Rightarrow>
          if cl_token_type c \<noteq> ''refresh'' then Inl InvalidToken
          else if is_revoked (cl_jti c) s then Inl TokenExpired
          else Inr c)"

definition refresh_token ::
  "jwt_codec \<Rightarrow> int \<Rightarrow> token_clock \<Rightarrow> string \<Rightarrow> jwt_service \<Rightarrow> (uhorse_error + string) \<times> jwt_service" where
  "refresh_token e t k token s =
     (case refresh_check e t token s of
        Inl err \<Rightarrow> (Inl err, s)
      | Inr c \<Rightarrow>
          (let s' = blacklist (cl_jti c) s
           in (create_access_token e k (cl_sub c) (cl_device_id c) [] s', s')))"

record token_pair =
  tp_access_token :: string
  tp_refresh_token :: string
  tp_token_type :: string
  tp_expires_in :: u64

definition create_token_pair ::
  "jwt_codec \<Rightarrow> token_clock \<Rightarrow> token_clock \<Rightarrow> string option \<Rightarrow> string option \<Rightarrow> string list \<Rightarrow> jwt_service \<Rightarrow>
   uhorse_error + token_pair" where
  "create_token_pair e k k' device_id user_id scopes s =
     (let subject = subject_of user_id device_id
      in case create_access_token e k subject device_id scopes s of
           Inl err \<Rightarrow> Inl err
         | Inr access \<Rightarrow>
             (case create_refresh_token e k' subject device_id s of
                Inl err \<Rightarrow> Inl err
              | Inr refresh \<Rightarrow>
                  Inr \<lparr>tp_access_token = access, tp_refresh_token = refresh,
                       tp_token_type = ''Bearer'', tp_expires_in = jw_default_expiry s\<rparr>))"

text \<open>The rest of \<^verbatim>\<open>refresh_access_token\<close> once the test has passed.\<close>

definition refresh_spend ::
  "jwt_codec \<Rightarrow> token_clock \<Rightarrow> token_clock \<Rightarrow> claims \<Rightarrow> jwt_service \<Rightarrow> (uhorse_error + token_pair) \<times> jwt_service" where
  "refresh_spend e k k' c s =
     (let s' = blacklist (cl_jti c) s
      in (create_token_pair e k k' (cl_device_id c) (Some (cl_sub c)) [] s', s'))"

definition refresh_access_token ::
  "jwt_codec \<Rightarrow> int \<Rightarrow> token_clock \<Rightarrow> token_clock \<Rightarrow> string \<Rightarrow> jwt_service \<Rightarrow>
   (uhorse_error + token_pair) \<times> jwt_service" where
  "refresh_access_token e t k k' token s =
     (case refresh_check e t token s of
        Inl err \<Rightarrow> (Inl err, s)
      | Inr c \<Rightarrow> refresh_spend e k k' c s)"

definition verify_with_auto_refresh :: "jwt_codec \<Rightarrow> int \<Rightarrow> string \<Rightarrow> jwt_service \<Rightarrow> uhorse_error + access_token" where
  "verify_with_auto_refresh e t token s =
     (case verify_token e t token s of
        Inr a \<Rightarrow> Inr a
      | Inl TokenExpired \<Rightarrow> Inl TokenExpired
      | Inl err \<Rightarrow> Inl err)"

subsection \<open>The node authenticator\<close>

record node_auth_info =
  nai_node_id :: node_id
  nai_access_token :: string
  nai_refresh_token :: string
  nai_expires_at :: instant
  nai_authenticated_at :: instant

record node_authenticator =
  na_jwt :: jwt_service
  na_authenticated_nodes :: "(node_id, node_auth_info) hmap"

definition node_authenticator_new :: "jwt_service \<Rightarrow> node_authenticator" where
  "node_authenticator_new jwt = \<lparr>na_jwt = jwt, na_authenticated_nodes = []\<rparr>"

definition with_secret :: "string \<Rightarrow> node_authenticator" where
  "with_secret secret = node_authenticator_new (jwt_service_new secret)"

record auth_clock =
  ak_access :: token_clock
  ak_refresh :: token_clock
  ak_expiry :: instant
  ak_now :: instant

definition authenticate_node ::
  "jwt_codec \<Rightarrow> auth_clock \<Rightarrow> node_id \<Rightarrow> string \<Rightarrow> node_authenticator \<Rightarrow>
   (hub_error + node_auth_info) \<times> node_authenticator" where
  "authenticate_node e k n credentials a =
     (if credentials = [] then (Inl (PermissionErr ''Empty credentials''), a)
      else
        (case create_token_pair e (ak_access k) (ak_refresh k) None (Some (node_id_as_str n)) [''node''] (na_jwt a) of
           Inl err \<Rightarrow> (Inl (PermissionErr (''Token generation failed: '' @ uhorse_error_display err)), a)
         | Inr pair \<Rightarrow>
             (let info = \<lparr>nai_node_id = n, nai_access_token = tp_access_token pair,
                          nai_refresh_token = tp_refresh_token pair,
                          nai_expires_at = ak_expiry k + 3600 * nanos_per_sec,
                          nai_authenticated_at = ak_now k\<rparr>
              in (Inr info, a\<lparr>na_authenticated_nodes := hm_insert n info (na_authenticated_nodes a)\<rparr>))))"

definition node_verify_token :: "jwt_codec \<Rightarrow> int \<Rightarrow> string \<Rightarrow> node_authenticator \<Rightarrow> hub_error + node_id" where
  "node_verify_token e t token a =
     (case verify_with_auto_refresh e t token (na_jwt a) of
        Inl err \<Rightarrow> Inl (PermissionErr (''Token verification failed: '' @ uhorse_error_display err))
      | Inr access \<Rightarrow> Inr (NodeId (case at_user_id access of Some u \<Rightarrow> u | None \<Rightarrow> ''unknown'')))"

definition node_refresh_token ::
  "jwt_codec \<Rightarrow> int \<Rightarrow> token_clock \<Rightarrow> token_clock \<Rightarrow> string \<Rightarrow> node_authenticator \<Rightarrow>
   (hub_error + token_pair) \<times> node_authenticator" where
  "node_refresh_token e t k k' token a =
     (let (r, jwt) = refresh_access_token e t k k' token (na_jwt a)
      in (map_sum (\<lambda>err. PermissionErr (''Token refresh failed: '' @ uhorse_error_display err)) id r,
          a\<lparr>na_jwt := jwt\<rparr>))"

definition revoke_node :: "node_id \<Rightarrow> node_authenticator \<Rightarrow> node_authenticator" where
  "revoke_node n a = a\<lparr>na_authenticated_nodes := hm_remove n (na_authenticated_nodes a)\<rparr>"

definition is_authenticated :: "instant \<Rightarrow> node_id \<Rightarrow> node_authenticator \<Rightarrow> bool" where
  "is_authenticated now n a =
     (case hm_get (na_authenticated_nodes a) n of
        None \<Rightarrow> False
      | Some info \<Rightarrow> now < nai_expires_at info)"

subsection \<open>What the blacklist does\<close>

lemma blacklist_simps [simp]:
  "is_revoked j (blacklist i s) \<longleftrightarrow> j = i \<or> is_revoked j s" "jw_secret (blacklist i s) = jw_secret s"
  "jw_default_expiry (blacklist i s) = jw_default_expiry s"
  by (auto simp: blacklist_def is_revoked_def hm_contains_def hm_simps)

lemma verify_token_Inr:
  "verify_token e t token s = Inr a \<longleftrightarrow>
     (\<exists>c. jc_decode e (jw_secret s) t token = Some c \<and> cl_token_type c = ''access'' \<and> \<not> is_revoked (cl_jti c) s \<and>
        a = \<lparr>at_token = token, at_device_id = cl_device_id c, at_user_id = Some (cl_sub c), at_scopes = cl_scopes c,
             at_expires_at = word_of_int (cl_exp c), at_created_at = word_of_int (cl_iat c)\<rparr>)"
  by (auto simp: verify_token_def split: option.splits)

lemma refresh_check_Inr:
  "refresh_check e t token s = Inr c \<longleftrightarrow>
     jc_decode e (jw_secret s) t token = Some c \<and> cl_token_type c = ''refresh'' \<and> \<not> is_revoked (cl_jti c) s"
  by (auto simp: refresh_check_def split: option.splits)

lemma auto_refresh_is_verify [simp]: "verify_with_auto_refresh e t token s = verify_token e t token s"
  by (auto simp: verify_with_auto_refresh_def split: sum.splits uhorse_error.splits)

text \<open>
  One operation, or one critical section of an exchange. The clean-up is a step while the set holds at
  most ten thousand entries; past that it forgets (\<open>cleanup_forgets\<close>).
\<close>

inductive jwt_step :: "jwt_codec \<Rightarrow> jwt_service \<Rightarrow> jwt_service \<Rightarrow> bool" for e where
  jw_revoke: "jwt_step e s (snd (revoke_token e t token s))"
| jw_refresh: "jwt_step e s (snd (refresh_token e t k token s))"
| jw_exchange: "jwt_step e s (snd (refresh_access_token e t k k' token s))"
| jw_spend: "jwt_step e s (snd (refresh_spend e k k' c s))"
| jw_cleanup: "length (jw_revoked s) \<le> 10000 \<Longrightarrow> jwt_step e s (cleanup_revoked s)"

inductive_cases jwt_stepE: "jwt_step e s s'"

definition remembers :: "string \<Rightarrow> string \<Rightarrow> jwt_service \<Rightarrow> bool" where
  "remembers secret jti s \<longleftrightarrow> jw_secret s = secret \<and> is_revoked jti s"

lemma jwt_step_remembers: "remembers secret jti s \<Longrightarrow> jwt_step e s s' \<Longrightarrow> remembers secret jti s'"
  by (erule jwt_stepE)
     (auto simp: remembers_def revoke_token_def refresh_token_def refresh_access_token_def refresh_spend_def
       cleanup_revoked_def Let_def split: option.splits sum.splits)

interpretation jw: step_system "remembers secret jti" "jwt_step e" "remembers secret jti"
  by unfold_locales (auto intro: jwt_step_remembers)

lemma revoke_remembers:
  "revoke_token e t token s = (Inr (), s') \<Longrightarrow>
     \<exists>c. jc_decode e (jw_secret s) t token = Some c \<and> remembers (jw_secret s) (cl_jti c) s'"
  by (auto simp: revoke_token_def remembers_def split: option.splits)

lemma exchange_remembers:
  assumes "refresh_token e t k token s = (Inr new, s') \<or> refresh_access_token e t k k' token s = (Inr pair, s')"
  shows "\<exists>c. jc_decode e (jw_secret s) t token = Some c \<and> remembers (jw_secret s) (cl_jti c) s'"
  using assms
  by (auto simp: refresh_token_def refresh_access_token_def refresh_spend_def refresh_check_Inr Let_def
      remembers_def split: sum.splits)

lemma remembered_refused:
  assumes "codec_stable e secret" and "jc_decode e secret t token = Some c" and "remembers secret (cl_jti c) s"
  shows "\<exists>err. verify_token e u token s = Inl err" and "\<exists>err. refresh_check e u token s = Inl err"
proof -
  have same: "jc_decode e (jw_secret s) u token = Some d \<Longrightarrow> d = c" for d
    using codec_stableD [OF assms(1,2)] assms(3) by (auto simp: remembers_def)
  have "verify_token e u token s \<noteq> Inr a" for a
    using same assms(3) by (auto simp: verify_token_Inr remembers_def)
  then show "\<exists>err. verify_token e u token s = Inl err" by (metis sum.exhaust)
  have "refresh_check e u token s \<noteq> Inr d" for d
    using same assms(3) by (auto simp: refresh_check_Inr remembers_def)
  then show "\<exists>err. refresh_check e u token s = Inl err" by (metis sum.exhaust)
qed

text \<open>
  The clean-up removes entries regardless of age: the token of the first one walked is good again.
\<close>

lemma fold_remove_get:
  "hm_get (fold hm_remove ks m) k = (if k \<in> set ks then None else hm_get m k)"
  by (induction ks arbitrary: m) (auto simp: hm_simps)

lemma cleanup_forgets:
  assumes "10000 < length (jw_revoked s)"
  shows "\<not> is_revoked (hd (hm_keys (jw_revoked s))) (cleanup_revoked s)"
proof -
  let ?m = "jw_revoked s"
  have "?m \<noteq> []" "length ?m div 2 \<noteq> 0" using assms by auto
  then have "hd (hm_keys ?m) \<in> set (take (length ?m div 2) (hm_keys ?m))"
    by (cases ?m) (auto simp: take_Cons' simp del: div_eq_0_iff)
  then show ?thesis
    using assms by (simp add: is_revoked_def cleanup_revoked_def hm_contains_def fold_remove_get)
qed

text \<open>
  Two exchanges of one token whose tests both come before either entry both succeed in spending it.
\<close>

lemma exchange_race:
  assumes "refresh_check e t token s = Inr c" and "refresh_check e u token s = Inr c"
    and "\<And>d. \<exists>new. jc_encode e (jw_secret s) d = Inr new"
  shows "\<exists>p s1 q s2. refresh_spend e k k' c s = (Inr p, s1) \<and> refresh_spend e l l' c s1 = (Inr q, s2)"
proof -
  have "\<exists>pair. create_token_pair e a b d v sc r = Inr pair" if r: "jw_secret r = jw_secret s" for a b d v sc r
    using assms(3) [of "token_claims a (jw_default_expiry r) (subject_of v d) d sc ''access''"]
      assms(3) [of "token_claims b (jw_refresh_expiry r) (subject_of v d) d [''refresh''] ''refresh''"]
    by (auto simp: create_token_pair_def create_access_token_def create_refresh_token_def sign_def r)
  then show ?thesis by (auto simp: refresh_spend_def Let_def)
qed

subsection \<open>Where a token came from\<close>

lemma sign_Inr: "sign e c s = Inr token \<longleftrightarrow> jc_encode e (jw_secret s) c = Inr token"
  by (cases "jc_encode e (jw_secret s) c") (auto simp: sign_def)

lemma create_token_pair_Inr:
  assumes "create_token_pair e k k' device_id user_id scopes s = Inr pair"
  shows "jc_encode e (jw_secret s)
      (token_claims k (jw_default_expiry s) (subject_of user_id device_id) device_id scopes ''access'')
      = Inr (tp_access_token pair)"
    and "jc_encode e (jw_secret s)
      (token_claims k' (jw_refresh_expiry s) (subject_of user_id device_id) device_id [''refresh''] ''refresh'')
      = Inr (tp_refresh_token pair)"
  using assms
  by (auto simp: create_token_pair_def create_access_token_def create_refresh_token_def sign_Inr Let_def
      split: sum.splits)

lemma authenticate_node_Inr:
  assumes "authenticate_node e k n credentials a = (Inr info, a')"
  shows "credentials \<noteq> []" and "na_jwt a' = na_jwt a" and "nai_node_id info = n"
    and "\<exists>pair. create_token_pair e (ak_access k) (ak_refresh k) None (Some (node_id_as_str n)) [''node''] (na_jwt a)
      = Inr pair \<and> nai_access_token info = tp_access_token pair \<and> nai_refresh_token info = tp_refresh_token pair"
  using assms by (auto simp: authenticate_node_def Let_def split: if_splits sum.splits)

text \<open>
  The runs of an authenticator, with the nodes that authenticated and the tokens that were issued: a
  refresh presents a token that was issued, since without the secret nobody else can make one that
  decodes.
\<close>

inductive auth_run :: "jwt_codec \<Rightarrow> string \<Rightarrow> node_authenticator \<Rightarrow> node_id list \<Rightarrow> string list \<Rightarrow> bool"
  for e secret where
  run_start: "auth_run e secret (with_secret secret) [] []"
| run_authenticate: "auth_run e secret a ns tokens \<Longrightarrow>
    authenticate_node e k n credentials a = (Inr info, a') \<Longrightarrow>
    auth_run e secret a' (n # ns) (nai_access_token info # nai_refresh_token info # tokens)"
| run_refresh: "auth_run e secret a ns tokens \<Longrightarrow> token \<in> set tokens \<Longrightarrow>
    node_refresh_token e t k k' token a = (Inr pair, a') \<Longrightarrow>
    auth_run e secret a' ns (tp_access_token pair # tp_refresh_token pair # tokens)"
| run_revoke: "auth_run e secret a ns tokens \<Longrightarrow> auth_run e secret (revoke_node n a) ns tokens"
| run_cleanup: "auth_run e secret a ns tokens \<Longrightarrow>
    auth_run e secret (a\<lparr>na_jwt := cleanup_revoked (na_jwt a)\<rparr>) ns tokens"

definition issued_for :: "jwt_codec \<Rightarrow> string \<Rightarrow> node_id list \<Rightarrow> string \<Rightarrow> bool" where
  "issued_for e secret ns token \<longleftrightarrow> (\<exists>c. jc_encode e secret c = Inr token \<and> NodeId (cl_sub c) \<in> set ns)"

lemma node_id_of_str [simp]: "NodeId (node_id_as_str n) = n"
  by (cases n) simp

lemma token_claims_sub [simp]:
  "cl_sub (token_claims k l u d sc ty) = u" "cl_token_type (token_claims k l u d sc ty) = ty"
  "cl_jti (token_claims k l u d sc ty) = generate_jti k"
  "cl_exp (token_claims k l u d sc ty) = timestamp (tk_now k + duration_seconds l)"
  by (simp_all add: token_claims_def)

lemma pair_issued:
  assumes "create_token_pair e k k' d (Some u) scopes s = Inr pair" and "NodeId u \<in> set ns" and "jw_secret s = secret"
  shows "issued_for e secret ns (tp_access_token pair)" and "issued_for e secret ns (tp_refresh_token pair)"
  using create_token_pair_Inr [OF assms(1)] assms(2,3) unfolding issued_for_def
  by (auto simp: subject_of_def intro!: exI)

lemma issued_for_Cons: "issued_for e secret ns token \<Longrightarrow> issued_for e secret (n # ns) token"
  by (auto simp: issued_for_def)

lemma node_refresh_Inr:
  assumes "node_refresh_token e t k k' token a = (Inr pair, a')"
  shows "\<exists>c. jc_decode e (jw_secret (na_jwt a)) t token = Some c \<and> jw_secret (na_jwt a') = jw_secret (na_jwt a) \<and>
    create_token_pair e k k' (cl_device_id c) (Some (cl_sub c)) [] (blacklist (cl_jti c) (na_jwt a)) = Inr pair"
proof -
  obtain r jwt where r: "refresh_access_token e t k k' token (na_jwt a) = (r, jwt)" by (metis surj_pair)
  then have "r = Inr pair" "a' = a\<lparr>na_jwt := jwt\<rparr>"
    using assms by (cases r; simp add: node_refresh_token_def)+
  then show ?thesis
    using r by (auto simp: refresh_access_token_def refresh_spend_def refresh_check_Inr Let_def split: sum.splits)
qed

lemma auth_run_inv:
  assumes "auth_run e secret a ns tokens" and "codec_ok e secret"
  shows "jw_secret (na_jwt a) = secret \<and> list_all (issued_for e secret ns) tokens"
  using assms(1)
proof induction
  case (run_authenticate a ns tokens k n credentials info a')
  obtain pair where pair: "create_token_pair e (ak_access k) (ak_refresh k) None (Some (node_id_as_str n)) [''node'']
        (na_jwt a) = Inr pair" "nai_access_token info = tp_access_token pair"
        "nai_refresh_token info = tp_refresh_token pair"
    using authenticate_node_Inr(4) [OF run_authenticate.hyps(2)] by blast
  show ?case
    using pair_issued [OF pair(1), of "n # ns" secret] pair(2,3) run_authenticate.IH
      authenticate_node_Inr(2) [OF run_authenticate.hyps(2)]
    by (auto simp: list_all_iff intro: issued_for_Cons)
next
  case (run_refresh a ns tokens token t k k' pair a')
  obtain c where c: "jc_decode e (jw_secret (na_jwt a)) t token = Some c" "jw_secret (na_jwt a') = jw_secret (na_jwt a)"
      "create_token_pair e k k' (cl_device_id c) (Some (cl_sub c)) [] (blacklist (cl_jti c) (na_jwt a)) = Inr pair"
    using node_refresh_Inr [OF run_refresh.hyps(3)] by blast
  have "issued_for e secret ns token" using run_refresh by (auto simp: list_all_iff)
  then have "NodeId (cl_sub c) \<in> set ns"
    using c(1) run_refresh.IH codec_okD(1) [OF assms(2)] by (auto simp: issued_for_def)
  then show ?case using pair_issued [OF c(3)] c(2) run_refresh.IH by (auto simp: list_all_iff)
qed (auto simp: with_secret_def node_authenticator_new_def jwt_service_new_def revoke_node_def cleanup_revoked_def)

lemma verified_issued:
  assumes "codec_ok e secret" and "auth_run e secret a ns tokens" and "token \<in> set tokens"
    and "node_verify_token e t token a = Inr n"
  shows "n \<in> set ns"
proof -
  have inv: "jw_secret (na_jwt a) = secret" "issued_for e secret ns token"
    using auth_run_inv [OF assms(2,1)] assms(3) by (auto simp: list_all_iff)
  obtain x where "verify_token e t token (na_jwt a) = Inr x" and n: "n = NodeId (case at_user_id x of Some u \<Rightarrow> u | None \<Rightarrow> ''unknown'')"
    using assms(4) by (auto simp: node_verify_token_def split: sum.splits)
  then obtain c where c: "jc_decode e secret t token = Some c" "n = NodeId (cl_sub c)"
    using inv(1) by (auto simp: verify_token_Inr)
  then show ?thesis using inv(2) codec_okD(1) [OF assms(1)] by (auto simp: issued_for_def)
qed

subsection \<open>Properties\<close>

text \<open>The codec of the examples: a table of the tokens there are.\<close>

definition table_codec :: "(string \<times> claims) list \<Rightarrow> jwt_codec" where
  "table_codec table =
     \<lparr>jc_encode = (\<lambda>_ c. case find (\<lambda>(_, d). d = c) table of Some (token, _) \<Rightarrow> Inr token | None \<Rightarrow> Inl ''no key''),
      jc_decode = (\<lambda>_ t token. case map_of table token of
         Some c \<Rightarrow> if t \<le> cl_exp c then Some c else None | None \<Rightarrow> None)\<rparr>"

lemma table_codec_ok:
  assumes "distinct (map fst table)"
  shows "codec_ok (table_codec table) secret"
proof -
  have "map_of table token = Some c" if "jc_encode (table_codec table) secret c = Inr token" for c token
  proof -
    have "\<exists>d. find (\<lambda>(_, d). d = c) table = Some (token, d)"
      using that by (simp add: table_codec_def split: option.splits prod.splits)
    then obtain d where "find (\<lambda>(_, d). d = c) table = Some (token, d)" ..
    then have "(token, c) \<in> set table" by (auto simp: find_Some_iff) (metis nth_mem)
    then show ?thesis by (rule map_of_is_SomeI [OF assms])
  qed
  then show ?thesis by (auto simp: codec_ok_def table_codec_def)
qed

lemma table_codec_stable: "codec_stable (table_codec table) secret"
  by (auto simp: codec_stable_def table_codec_def split: option.splits if_splits)

definition example_clock :: "nat \<Rightarrow> token_clock" where
  "example_clock n = \<lparr>tk_now = 0, tk_nanos = n\<rparr>"

definition example_codec :: jwt_codec where
  "example_codec = table_codec
     [(''access-1'', token_claims (example_clock 1) 3600 ''node-1'' None [''node''] ''access''),
      (''refresh-1'', token_claims (example_clock 2) 2592000 ''node-1'' None [''refresh''] ''refresh''),
      (''access-2'', token_claims (example_clock 3) 3600 ''node-1'' None [] ''access''),
      (''refresh-2'', token_claims (example_clock 4) 2592000 ''node-1'' None [''refresh''] ''refresh'')]"

definition example_auth_clock :: auth_clock where
  "example_auth_clock =
     \<lparr>ak_access = example_clock 1, ak_refresh = example_clock 2, ak_expiry = 0, ak_now = 0\<rparr>"

lemma example_codec_ok: "codec_ok example_codec secret" "codec_stable example_codec secret"
  by (simp_all add: example_codec_def table_codec_ok table_codec_stable)

lemma example_pair:
  "create_token_pair example_codec (example_clock 1) (example_clock 2) None (Some ''node-1'') [''node'']
     (jwt_service_new ''s'') =
   Inr \<lparr>tp_access_token = ''access-1'', tp_refresh_token = ''refresh-1'', tp_token_type = ''Bearer'', tp_expires_in = 3600\<rparr>"
  by (simp add: create_token_pair_def create_access_token_def create_refresh_token_def sign_def subject_of_def
      jwt_service_new_def example_codec_def table_codec_def token_claims_def generate_jti_def example_clock_def)

lemma example_exchange:
  "\<exists>pair s'. refresh_access_token example_codec 0 (example_clock 3) (example_clock 4) ''refresh-1''
     (jwt_service_new ''s'') = (Inr pair, s')"
  by (simp add: refresh_access_token_def refresh_check_def refresh_spend_def blacklist_def is_revoked_def
      hm_contains_def create_token_pair_def create_access_token_def create_refresh_token_def sign_def subject_of_def
      jwt_service_new_def example_codec_def table_codec_def token_claims_def generate_jti_def example_clock_def
      timestamp_def duration_seconds_def nanos_per_sec_def)

lemma example_decode:
  "jc_decode example_codec secret 5 ''access-1'' =
     Some (token_claims (example_clock 1) 3600 ''node-1'' None [''node''] ''access'')"
  by (simp add: example_codec_def table_codec_def example_clock_def timestamp_def duration_seconds_def nanos_per_sec_def)

lemma example_authenticated:
  "\<exists>info a. authenticate_node example_codec example_auth_clock (NodeId ''node-1'') ''c'' (with_secret ''s'') = (Inr info, a) \<and>
     nai_access_token info = ''access-1'' \<and> nai_refresh_token info = ''refresh-1'' \<and>
     node_verify_token example_codec 5 ''access-1'' a = Inr (NodeId ''node-1'')"
proof -
  have jwt: "na_jwt (with_secret ''s'') = jwt_service_new ''s''"
    by (simp add: with_secret_def node_authenticator_new_def)
  have pair: "create_token_pair example_codec (ak_access example_auth_clock) (ak_refresh example_auth_clock) None
      (Some (node_id_as_str (NodeId ''node-1''))) [''node''] (na_jwt (with_secret ''s'')) =
    Inr \<lparr>tp_access_token = ''access-1'', tp_refresh_token = ''refresh-1'', tp_token_type = ''Bearer'', tp_expires_in = 3600\<rparr>"
    using example_pair by (simp add: jwt example_auth_clock_def)
  then obtain info a where a: "authenticate_node example_codec example_auth_clock (NodeId ''node-1'') ''c'' (with_secret ''s'')
      = (Inr info, a)" "nai_access_token info = ''access-1''" "nai_refresh_token info = ''refresh-1''"
      "na_jwt a = jwt_service_new ''s''"
    by (simp add: authenticate_node_def Let_def jwt)
  moreover have "node_verify_token example_codec 5 ''access-1'' a = Inr (NodeId ''node-1'')"
    by (simp add: node_verify_token_def verify_token_def example_decode a(4) is_revoked_def hm_contains_def)
       (simp add: jwt_service_new_def)
  ultimately show ?thesis by blast
qed

text \<open>Any credentials do, as long as there are some.\<close>

lemma credentials_ignored:
  "c \<noteq> [] \<Longrightarrow> d \<noteq> [] \<Longrightarrow> authenticate_node e k n c a = authenticate_node e k n d a"
  by (simp add: authenticate_node_def)



text \<open>
  C18: what a node gets when it authenticates lets it in: until it expires, the access token verifies as
  that very node, whatever nodes were logged out meanwhile, and the refresh token never passes for an
  access token. Authentication needs no more than credentials that are not empty.
\<close>

theorem authenticated_node_verifies:
  assumes "codec_ok e (jw_secret (na_jwt a))" and "authenticate_node e k n credentials a = (Inr info, a')"
    and "\<not> is_revoked (generate_jti (ak_access k)) (na_jwt a)"
    and "t \<le> timestamp (tk_now (ak_access k) + duration_seconds (jw_default_expiry (na_jwt a)))"
  shows "node_verify_token e t (nai_access_token info) (revoke_node m a') = Inr n \<and>
    node_verify_token e t (nai_access_token info) a' = Inr n \<and>
    (\<exists>err. node_verify_token e u (nai_refresh_token info) a' = Inl err)"
proof -
  obtain pair where pair: "create_token_pair e (ak_access k) (ak_refresh k) None (Some (node_id_as_str n)) [''node'']
        (na_jwt a) = Inr pair" "nai_access_token info = tp_access_token pair"
        "nai_refresh_token info = tp_refresh_token pair"
    using authenticate_node_Inr(4) [OF assms(2)] by blast
  note enc = create_token_pair_Inr [OF pair(1)] and jwt = authenticate_node_Inr(2) [OF assms(2)]
  have dec: "jc_decode e (jw_secret (na_jwt a)) t (nai_access_token info) = Some (token_claims (ak_access k)
      (jw_default_expiry (na_jwt a)) (node_id_as_str n) None [''node''] ''access'')"
    using codec_okD(2) [OF assms(1) enc(1)] assms(4) pair(2) by (simp add: subject_of_def)
  have verified: "\<exists>x. verify_token e t (nai_access_token info) (na_jwt a) = Inr x \<and> at_user_id x = Some (node_id_as_str n)"
    using dec assms(3) by (auto simp: verify_token_Inr)
  have "verify_token e u (nai_refresh_token info) (na_jwt a) \<noteq> Inr x" for x
    using codec_okD(1) [OF assms(1) enc(2), of u] pair(3) by (auto simp: verify_token_Inr)
  then obtain err where "verify_token e u (nai_refresh_token info) (na_jwt a) = Inl err" by (metis sum.exhaust)
  then show ?thesis using verified jwt by (auto simp: node_verify_token_def revoke_node_def)
qed

theorem authenticated_node_verifies_witness:
  "\<exists>info a. authenticate_node example_codec example_auth_clock (NodeId ''node-1'') ''c'' (with_secret ''s'') = (Inr info, a) \<and>
     node_verify_token example_codec 3600 (nai_access_token info) (revoke_node (NodeId ''node-1'') a) = Inr (NodeId ''node-1'')"
proof -
  obtain info a where a: "authenticate_node example_codec example_auth_clock (NodeId ''node-1'') ''c'' (with_secret ''s'')
      = (Inr info, a)"
    using example_authenticated by blast
  have "codec_ok example_codec (jw_secret (na_jwt (with_secret ''s'')))" by (rule example_codec_ok)
  moreover have "\<not> is_revoked (generate_jti (ak_access example_auth_clock)) (na_jwt (with_secret ''s''))"
    by (simp add: with_secret_def node_authenticator_new_def jwt_service_new_def is_revoked_def hm_contains_def)
  moreover have "3600 \<le> timestamp (tk_now (ak_access example_auth_clock)
      + duration_seconds (jw_default_expiry (na_jwt (with_secret ''s''))))"
    by (simp add: with_secret_def node_authenticator_new_def jwt_service_new_def example_auth_clock_def
        example_clock_def timestamp_def duration_seconds_def nanos_per_sec_def)
  ultimately show ?thesis using authenticated_node_verifies [OF _ a] a by blast
qed

end
