(* ===== verification/Pairing.thy ===== *)
theory Pairing
  imports Sessions
begin

section \<open>Device pairing (\<^verbatim>\<open>uhorse-security/src/pairing.rs\<close>)\<close>

text \<open>
  Devices are paired by a six digit code: a request is stored under its id, the code indexes it, and
  whoever gives the code before the request expires pairs the device. Times are seconds since the
  epoch, 64 bits wide; clock readings, the uuid and the random number of a new request are arguments.
  The task spawned with each request is the operation \<open>pairing_expiry\<close>, guarded by its time. The
  invariant \<open>pm_inv\<close> says that the code index is sound. The order in which the operations take the
  locks of the three maps is modelled apart, at the end.
\<close>

subsection \<open>Requests and devices\<close>

datatype pairing_status =
    PairPending | AwaitingConfirmation | Paired | PairRejected | PairExpired | PairCancelled

record pairing_request =
  pr_request_id :: string
  pr_device_id :: string
  pr_device_name :: string
  pr_device_type :: string
  pr_user_id :: "string option"
  pr_pairing_code :: string
  pr_status :: pairing_status
  pr_created_at :: u64
  pr_expires_at :: u64
  pr_metadata :: json

record device_capabilities =
  dc_max_message_size :: nat
  dc_supported_tools :: "string list"
  dc_supported_channels :: "channel_type list"

definition device_capabilities_default :: device_capabilities where
  "device_capabilities_default =
     \<lparr>dc_max_message_size = 65536, dc_supported_tools = [], dc_supported_channels = [Telegram]\<rparr>"

record device_info =
  di_id :: string
  di_name :: string
  di_paired :: bool
  di_paired_at :: "u64 option"
  di_last_seen :: u64
  di_capabilities :: device_capabilities

text \<open>\<^verbatim>\<open>format!("{:06}", n)\<close> of the random number.\<close>

definition generate_pairing_code :: "nat \<Rightarrow> string" where
  "generate_pairing_code n = replicate (6 - length (dec_string n)) (CHR ''0'') @ dec_string n"

definition pairing_request_new ::
  "u64 \<Rightarrow> string \<Rightarrow> nat \<Rightarrow> string \<Rightarrow> string \<Rightarrow> string \<Rightarrow> pairing_request" where
  "pairing_request_new now uuid rnd device_id device_name device_type =
     \<lparr>pr_request_id = uuid, pr_device_id = device_id, pr_device_name = device_name,
      pr_device_type = device_type, pr_user_id = None, pr_pairing_code = generate_pairing_code rnd,
      pr_status = PairPending, pr_created_at = now, pr_expires_at = now + 300,
      pr_metadata = JObject []\<rparr>"

definition request_is_expired :: "u64 \<Rightarrow> pairing_request \<Rightarrow> bool" where
  "request_is_expired now r \<longleftrightarrow> pr_expires_at r < now"

definition request_confirm :: "string \<Rightarrow> pairing_request \<Rightarrow> pairing_request" where
  "request_confirm user_id r = r\<lparr>pr_status := Paired, pr_user_id := Some user_id\<rparr>"

definition request_reject :: "pairing_request \<Rightarrow> pairing_request" where
  "request_reject r = r\<lparr>pr_status := PairRejected\<rparr>"

definition request_cancel :: "pairing_request \<Rightarrow> pairing_request" where
  "request_cancel r = r\<lparr>pr_status := PairCancelled\<rparr>"

definition request_open :: "pairing_request \<Rightarrow> bool" where
  "request_open r \<longleftrightarrow> pr_status r = PairPending \<or> pr_status r = AwaitingConfirmation"

subsection \<open>The manager\<close>

record pairing_manager =
  pm_devices :: "(string, device_info) hmap"
  pm_requests :: "(string, pairing_request) hmap"
  pm_codes :: "(string, string) hmap"
  pm_ttl :: u64

definition pairing_manager_new :: pairing_manager where
  "pairing_manager_new = \<lparr>pm_devices = [], pm_requests = [], pm_codes = [], pm_ttl = 300\<rparr>"

definition with_pairing_ttl :: "u64 \<Rightarrow> pairing_manager \<Rightarrow> pairing_manager" where
  "with_pairing_ttl ttl m = m\<lparr>pm_ttl := ttl\<rparr>"

definition initiate_pairing ::
  "u64 \<Rightarrow> string \<Rightarrow> nat \<Rightarrow> string \<Rightarrow> string \<Rightarrow> string \<Rightarrow> pairing_manager \<Rightarrow>
   pairing_request \<times> pairing_manager" where
  "initiate_pairing now uuid rnd device_id device_name device_type m =
     (let r = pairing_request_new now uuid rnd device_id device_name device_type;
          r = r\<lparr>pr_expires_at := pr_created_at r + pm_ttl m\<rparr>;
          device = \<lparr>di_id = device_id, di_name = pr_device_name r, di_paired = False,
                    di_paired_at = None, di_last_seen = pr_created_at r,
                    di_capabilities = device_capabilities_default\<rparr>
      in (r, m\<lparr>pm_devices := hm_insert device_id device (pm_devices m),
               pm_requests := hm_insert uuid r (pm_requests m),
               pm_codes := hm_insert (pr_pairing_code r) uuid (pm_codes m)\<rparr>))"

text \<open>The rest of the spawned task, after its sleep.\<close>

definition pairing_expiry :: "string \<Rightarrow> pairing_manager \<Rightarrow> pairing_manager" where
  "pairing_expiry rid m =
     (case hm_get (pm_requests m) rid of
        None \<Rightarrow> m
      | Some r \<Rightarrow>
          if request_open r
          then m\<lparr>pm_requests := hm_insert rid (r\<lparr>pr_status := PairExpired\<rparr>) (pm_requests m),
                 pm_codes := hm_remove (pr_pairing_code r) (pm_codes m)\<rparr>
          else m)"

definition get_request_by_code :: "string \<Rightarrow> pairing_manager \<Rightarrow> uhorse_error + pairing_request" where
  "get_request_by_code code m =
     (case hm_get (pm_codes m) code of
        None \<Rightarrow> Inl (InternalError ''Invalid pairing code'')
      | Some rid \<Rightarrow>
          (case hm_get (pm_requests m) rid of
             None \<Rightarrow> Inl (InternalError ''Pairing request not found'')
           | Some r \<Rightarrow> Inr r))"

text \<open>\<open>now\<close> is read for the expiry and \<open>paired_at\<close> when the device is marked.\<close>

definition confirm_pairing ::
  "u64 \<Rightarrow> u64 \<Rightarrow> string \<Rightarrow> string \<Rightarrow> pairing_manager \<Rightarrow> (uhorse_error + device_info) \<times> pairing_manager" where
  "confirm_pairing now paired_at code user_id m =
     (case hm_get (pm_codes m) code of
        None \<Rightarrow> (Inl (InternalError ''Invalid pairing code''), m)
      | Some rid \<Rightarrow>
          (case hm_get (pm_requests m) rid of
             None \<Rightarrow> (Inl (InternalError ''Pairing request not found''), m)
           | Some r \<Rightarrow>
               if request_is_expired now r
               then (Inl (InternalError ''Pairing request expired''),
                     m\<lparr>pm_requests := hm_insert rid (r\<lparr>pr_status := PairExpired\<rparr>) (pm_requests m)\<rparr>)
               else
                 (let m' = m\<lparr>pm_requests := hm_insert rid (request_confirm user_id r) (pm_requests m)\<rparr>
                  in case hm_get (pm_devices m') (pr_device_id r) of
                       None \<Rightarrow> (Inl (DeviceNotPaired (pr_device_id r)), m')
                     | Some device \<Rightarrow>
                         (let device' = device\<lparr>di_paired := True, di_paired_at := Some paired_at\<rparr>
                          in (Inr device',
                              m'\<lparr>pm_devices := hm_insert (pr_device_id r) device' (pm_devices m'),
                                 pm_codes := hm_remove code (pm_codes m')\<rparr>)))))"

definition reject_pairing :: "string \<Rightarrow> pairing_manager \<Rightarrow> (uhorse_error + unit) \<times> pairing_manager" where
  "reject_pairing code m =
     (case hm_get (pm_codes m) code of
        None \<Rightarrow> (Inl (InternalError ''Invalid pairing code''), m)
      | Some rid \<Rightarrow>
          (case hm_get (pm_requests m) rid of
             None \<Rightarrow> (Inl (InternalError ''Pairing request not found''), m)
           | Some r \<Rightarrow>
               (Inr (), m\<lparr>pm_requests := hm_insert rid (request_reject r) (pm_requests m),
                          pm_codes := hm_remove code (pm_codes m)\<rparr>)))"

definition cancel_pairing :: "string \<Rightarrow> pairing_manager \<Rightarrow> (uhorse_error + unit) \<times> pairing_manager" where
  "cancel_pairing rid m =
     (case hm_get (pm_requests m) rid of
        None \<Rightarrow> (Inl (InternalError ''Pairing request not found''), m)
      | Some r \<Rightarrow>
          (Inr (), m\<lparr>pm_requests := hm_insert rid (request_cancel r) (pm_requests m),
                     pm_codes := hm_remove (pr_pairing_code r) (pm_codes m)\<rparr>))"

definition get_pairing_request :: "string \<Rightarrow> pairing_manager \<Rightarrow> uhorse_error + pairing_request" where
  "get_pairing_request rid m =
     (case hm_get (pm_requests m) rid of
        None \<Rightarrow> Inl (InternalError ''Pairing request not found'')
      | Some r \<Rightarrow> Inr r)"

definition list_pending_requests :: "pairing_manager \<Rightarrow> pairing_request list" where
  "list_pending_requests m = filter request_open (hm_values (pm_requests m))"

definition cleanup_due :: "u64 \<Rightarrow> pairing_request \<Rightarrow> bool" where
  "cleanup_due now r \<longleftrightarrow>
     request_is_expired now r \<or> pr_status r = PairRejected \<or> pr_status r = PairCancelled"

definition forget_pairing :: "string \<Rightarrow> pairing_manager \<Rightarrow> pairing_manager" where
  "forget_pairing rid m =
     (case hm_get (pm_requests m) rid of
        None \<Rightarrow> m
      | Some r \<Rightarrow> m\<lparr>pm_requests := hm_remove rid (pm_requests m),
                    pm_codes := hm_remove (pr_pairing_code r) (pm_codes m)\<rparr>)"

definition cleanup_expired_requests :: "u64 \<Rightarrow> pairing_manager \<Rightarrow> nat \<times> pairing_manager" where
  "cleanup_expired_requests now m =
     (let expired = map fst (filter (\<lambda>(_, r). cleanup_due now r) (pm_requests m))
      in (length expired, fold forget_pairing expired m))"

definition get_pairing_status :: "string \<Rightarrow> pairing_manager \<Rightarrow> uhorse_error + pairing_status" where
  "get_pairing_status device_id m =
     (case hm_get (pm_devices m) device_id of
        None \<Rightarrow> Inl (DeviceNotPaired device_id)
      | Some device \<Rightarrow>
          if di_paired device then Inr Paired
          else (case find (\<lambda>r. pr_device_id r = device_id) (hm_values (pm_requests m)) of
                  Some r \<Rightarrow> Inr (pr_status r)
                | None \<Rightarrow> Inr PairPending))"

subsection \<open>The device manager\<close>

definition register_device :: "device_info \<Rightarrow> pairing_manager \<Rightarrow> pairing_manager" where
  "register_device device m = m\<lparr>pm_devices := hm_insert (di_id device) device (pm_devices m)\<rparr>"

definition get_device :: "string \<Rightarrow> pairing_manager \<Rightarrow> device_info option" where
  "get_device i m = hm_get (pm_devices m) i"

definition update_device :: "device_info \<Rightarrow> pairing_manager \<Rightarrow> pairing_manager" where
  "update_device device m = m\<lparr>pm_devices := hm_insert (di_id device) device (pm_devices m)\<rparr>"

definition delete_device :: "string \<Rightarrow> pairing_manager \<Rightarrow> pairing_manager" where
  "delete_device i m = m\<lparr>pm_devices := hm_remove i (pm_devices m)\<rparr>"

definition pair_device :: "u64 \<Rightarrow> string \<Rightarrow> pairing_manager \<Rightarrow> (uhorse_error + unit) \<times> pairing_manager" where
  "pair_device now i m =
     (case hm_get (pm_devices m) i of
        None \<Rightarrow> (Inl (DeviceNotPaired i), m)
      | Some d \<Rightarrow>
          (Inr (), m\<lparr>pm_devices := hm_insert i (d\<lparr>di_paired := True, di_paired_at := Some now\<rparr>) (pm_devices m)\<rparr>))"

definition unpair_device :: "string \<Rightarrow> pairing_manager \<Rightarrow> (uhorse_error + unit) \<times> pairing_manager" where
  "unpair_device i m =
     (case hm_get (pm_devices m) i of
        None \<Rightarrow> (Inl (DeviceNotPaired i), m)
      | Some d \<Rightarrow>
          (Inr (), m\<lparr>pm_devices := hm_insert i (d\<lparr>di_paired := False, di_paired_at := None\<rparr>) (pm_devices m)\<rparr>))"

definition update_last_seen :: "string \<Rightarrow> u64 \<Rightarrow> pairing_manager \<Rightarrow> pairing_manager" where
  "update_last_seen i t m = m\<lparr>pm_devices := hm_modify i (\<lambda>d. d\<lparr>di_last_seen := t\<rparr>) (pm_devices m)\<rparr>"

definition list_devices :: "pairing_manager \<Rightarrow> device_info list" where
  "list_devices m = hm_values (pm_devices m)"

subsection \<open>Operations as steps\<close>

datatype pairing_op =
    Initiate u64 string nat string string string
  | ExpiryTask string
  | Confirm u64 u64 string string
  | Reject string
  | Cancel string
  | Cleanup u64
  | RegisterDevice device_info
  | UpdateDevice device_info
  | DeleteDevice string
  | PairDevice u64 string
  | UnpairDevice string
  | UpdateLastSeen string u64

fun pm_apply :: "pairing_op \<Rightarrow> pairing_manager \<Rightarrow> pairing_manager" where
  "pm_apply (Initiate now uuid rnd i n t) m = snd (initiate_pairing now uuid rnd i n t m)"
| "pm_apply (ExpiryTask rid) m = pairing_expiry rid m"
| "pm_apply (Confirm now pa code u) m = snd (confirm_pairing now pa code u m)"
| "pm_apply (Reject code) m = snd (reject_pairing code m)"
| "pm_apply (Cancel rid) m = snd (cancel_pairing rid m)"
| "pm_apply (Cleanup now) m = snd (cleanup_expired_requests now m)"
| "pm_apply (RegisterDevice d) m = register_device d m"
| "pm_apply (UpdateDevice d) m = update_device d m"
| "pm_apply (DeleteDevice i) m = delete_device i m"
| "pm_apply (PairDevice now i) m = snd (pair_device now i m)"
| "pm_apply (UnpairDevice i) m = snd (unpair_device i m)"
| "pm_apply (UpdateLastSeen i t) m = update_last_seen i t m"

text \<open>A new uuid is not in use, and the random number is below a million.\<close>

fun op_ok :: "pairing_op \<Rightarrow> pairing_manager \<Rightarrow> bool" where
  "op_ok (Initiate now uuid rnd i n t) m = (hm_get (pm_requests m) uuid = None \<and> rnd < 1000000)"
| "op_ok _ m = True"

inductive pm_step :: "pairing_manager \<Rightarrow> pairing_manager \<Rightarrow> bool" where
  op: "op_ok a m \<Longrightarrow> pm_step m (pm_apply a m)"
| reorder: "mset rs = mset (pm_requests m) \<Longrightarrow> mset ds = mset (pm_devices m) \<Longrightarrow>
    mset cs = mset (pm_codes m) \<Longrightarrow>
    pm_step m (m\<lparr>pm_requests := rs, pm_devices := ds, pm_codes := cs\<rparr>)"

text \<open>
  The maps are well formed, a request is stored under its id, and every code in the index leads to a
  stored request that carries this code and was neither rejected nor cancelled.
\<close>

definition index_ok :: "pairing_manager \<Rightarrow> bool" where
  "index_ok m \<longleftrightarrow>
     (\<forall>c rid. hm_get (pm_codes m) c = Some rid \<longrightarrow>
        (\<exists>r. hm_get (pm_requests m) rid = Some r \<and> pr_pairing_code r = c \<and>
             pr_status r \<noteq> PairRejected \<and> pr_status r \<noteq> PairCancelled))"

definition requests_ok :: "pairing_manager \<Rightarrow> bool" where
  "requests_ok m \<longleftrightarrow>
     (\<forall>rid r. hm_get (pm_requests m) rid = Some r \<longrightarrow>
        pr_request_id r = rid \<and> length (pr_pairing_code r) = 6 \<and>
        list_all is_digit_char (pr_pairing_code r))"

definition pm_inv :: "pairing_manager \<Rightarrow> bool" where
  "pm_inv m \<longleftrightarrow> hm_wf (pm_devices m) \<and> hm_wf (pm_requests m) \<and> hm_wf (pm_codes m) \<and>
     index_ok m \<and> requests_ok m"


subsection \<open>Pairing codes\<close>

lemma dec_string_length: "n < 10 ^ k \<Longrightarrow> 0 < k \<Longrightarrow> length (dec_string n) \<le> k"
proof (induction n arbitrary: k rule: dec_string.induct)
  case (1 n)
  show ?case
  proof (cases "n < 10")
    case True
    then show ?thesis using 1 by (simp add: dec_string.simps [of n])
  next
    case False
    obtain j where k: "k = Suc j" using 1(3) gr0_conv_Suc by blast
    have "0 < j" using False 1(2) k by (cases j) auto
    moreover have "n div 10 < 10 ^ j" using 1(2) k by (simp add: less_mult_imp_div_less mult.commute)
    ultimately have "length (dec_string (n div 10)) \<le> j" using 1(1) False by simp
    then show ?thesis using False k by (simp add: dec_string.simps [of n])
  qed
qed

lemma pairing_code_format:
  assumes "n < 1000000"
  shows "length (generate_pairing_code n) = 6" and "list_all is_digit_char (generate_pairing_code n)"
proof -
  have "length (dec_string n) \<le> 6" using assms by (intro dec_string_length) auto
  then show "length (generate_pairing_code n) = 6" by (simp add: generate_pairing_code_def)
  show "list_all is_digit_char (generate_pairing_code n)"
    by (auto simp: generate_pairing_code_def list_all_iff is_digit_char_def dest: dec_string_digits)
qed

subsection \<open>The invariant\<close>

lemma pm_inv_new: "pm_inv (with_pairing_ttl ttl pairing_manager_new)"
  by (simp add: pm_inv_def index_ok_def requests_ok_def with_pairing_ttl_def pairing_manager_new_def)

lemma pm_inv_devices: "pm_inv m \<Longrightarrow> hm_wf ds \<Longrightarrow> pm_inv (m\<lparr>pm_devices := ds\<rparr>)"
  by (simp add: pm_inv_def index_ok_def requests_ok_def)

text \<open>A request may be replaced when it keeps its id and code and, if it is still indexed, stays usable.\<close>

lemma pm_inv_replace:
  assumes "pm_inv m" and "hm_get (pm_requests m) rid = Some r"
    and "pr_request_id r' = pr_request_id r" and "pr_pairing_code r' = pr_pairing_code r"
    and "pr_status r' \<noteq> PairRejected" and "pr_status r' \<noteq> PairCancelled"
  shows "pm_inv (m\<lparr>pm_requests := hm_insert rid r' (pm_requests m)\<rparr>)"
  using assms by (auto simp: pm_inv_def index_ok_def requests_ok_def hm_get_insert) fastforce+

lemma pm_inv_finish:
  assumes "pm_inv m" and "hm_get (pm_requests m) rid = Some r"
    and "pr_request_id r' = pr_request_id r" and "pr_pairing_code r' = pr_pairing_code r"
  shows "pm_inv (m\<lparr>pm_requests := hm_insert rid r' (pm_requests m),
    pm_codes := hm_remove (pr_pairing_code r) (pm_codes m)\<rparr>)"
  using assms by (auto simp: pm_inv_def index_ok_def requests_ok_def hm_get_insert hm_get_remove) fastforce+

lemma pm_inv_unindex:
  "pm_inv m \<Longrightarrow> pm_inv (m\<lparr>pm_codes := hm_remove c (pm_codes m)\<rparr>)"
  by (auto simp: pm_inv_def index_ok_def requests_ok_def hm_get_remove)

lemma pm_inv_forget: "pm_inv m \<Longrightarrow> pm_inv (forget_pairing rid m)"
  by (auto simp: forget_pairing_def pm_inv_def index_ok_def requests_ok_def hm_get_remove
      split: option.splits) fastforce+

lemma pm_inv_fold_forget: "pm_inv m \<Longrightarrow> pm_inv (fold forget_pairing rids m)"
  by (induction rids arbitrary: m) (auto intro: pm_inv_forget)

lemma pm_inv_initiate:
  assumes "pm_inv m" and "hm_get (pm_requests m) uuid = None" and "rnd < 1000000"
  shows "pm_inv (snd (initiate_pairing now uuid rnd i n t m))"
  using assms pairing_code_format [OF assms(3)]
  by (auto simp: pm_inv_def index_ok_def requests_ok_def initiate_pairing_def Let_def
      pairing_request_new_def hm_get_insert) fastforce+

text \<open>The code that leads to a request is its own.\<close>

lemma indexed_code:
  assumes "pm_inv m" and "hm_get (pm_codes m) code = Some rid"
  obtains r where "hm_get (pm_requests m) rid = Some r" and "pr_pairing_code r = code"
  using assms by (auto simp: pm_inv_def index_ok_def)

lemma pm_inv_confirm:
  assumes "pm_inv m"
  shows "pm_inv (snd (confirm_pairing now pa code u m))"
proof (cases "hm_get (pm_codes m) code")
  case (Some rid)
  then obtain r where r: "hm_get (pm_requests m) rid = Some r" "pr_pairing_code r = code"
    using indexed_code [OF assms] by blast
  let ?m = "m\<lparr>pm_requests := hm_insert rid (request_confirm u r) (pm_requests m)\<rparr>"
  have e: "pm_inv (m\<lparr>pm_requests := hm_insert rid (r\<lparr>pr_status := PairExpired\<rparr>) (pm_requests m)\<rparr>)"
    and c: "pm_inv ?m"
    using pm_inv_replace [OF assms r(1)] by (simp_all add: request_confirm_def)
  have "hm_wf (pm_devices m)" using assms by (simp add: pm_inv_def)
  then have "pm_inv (?m\<lparr>pm_devices := hm_insert i d (pm_devices m), pm_codes := hm_remove code (pm_codes m)\<rparr>)" for i d
    using pm_inv_unindex [OF pm_inv_devices [OF c, of "hm_insert i d (pm_devices m)"], of code] by simp
  then show ?thesis using Some r e c
    by (auto simp: confirm_pairing_def Let_def split: option.splits)
qed (use assms in \<open>simp add: confirm_pairing_def\<close>)

lemma pm_inv_reject:
  assumes "pm_inv m"
  shows "pm_inv (snd (reject_pairing code m))"
proof (cases "hm_get (pm_codes m) code")
  case (Some rid)
  then obtain r where r: "hm_get (pm_requests m) rid = Some r" "pr_pairing_code r = code"
    using indexed_code [OF assms] by blast
  then show ?thesis using Some pm_inv_finish [OF assms r(1), of "request_reject r"]
    by (simp add: reject_pairing_def request_reject_def)
qed (use assms in \<open>simp add: reject_pairing_def\<close>)

lemma pm_inv_apply: "pm_inv m \<Longrightarrow> op_ok a m \<Longrightarrow> pm_inv (pm_apply a m)"
proof (cases a)
  case (ExpiryTask rid)
  assume "pm_inv m"
  then show ?thesis using ExpiryTask pm_inv_finish [of m rid]
    by (auto simp: pairing_expiry_def split: option.splits)
next
  case (Cancel rid)
  assume "pm_inv m"
  then show ?thesis using Cancel pm_inv_finish [of m rid]
    by (auto simp: cancel_pairing_def request_cancel_def split: option.splits)
qed (auto simp: pm_inv_initiate pm_inv_confirm pm_inv_reject pm_inv_fold_forget
      cleanup_expired_requests_def Let_def pm_inv_def [of m] register_device_def update_device_def
      delete_device_def pair_device_def unpair_device_def update_last_seen_def
      intro!: pm_inv_devices split: option.splits)

lemma pm_inv_step: "pm_step m m' \<Longrightarrow> pm_inv m \<Longrightarrow> pm_inv m'"
proof (induction rule: pm_step.induct)
  case (reorder rs m ds cs)
  then show ?case using hm_get_perm [of "pm_requests m" rs] hm_get_perm [of "pm_devices m" ds]
      hm_get_perm [of "pm_codes m" cs]
    by (simp add: pm_inv_def index_ok_def requests_ok_def)
qed (rule pm_inv_apply)

interpretation pairing_steps: step_system "\<lambda>m. \<exists>ttl. m = with_pairing_ttl ttl pairing_manager_new" pm_step pm_inv
  by unfold_locales (auto intro: pm_inv_new pm_inv_step)


subsection \<open>Confirmation\<close>

definition device_paired :: "pairing_manager \<Rightarrow> string \<Rightarrow> bool" where
  "device_paired m i = (case get_device i m of None \<Rightarrow> False | Some d \<Rightarrow> di_paired d)"

text \<open>A code that confirms: it leads to a request that carries it and has not expired.\<close>

definition code_confirms :: "u64 \<Rightarrow> string \<Rightarrow> pairing_manager \<Rightarrow> pairing_request \<Rightarrow> bool" where
  "code_confirms now code m r \<longleftrightarrow>
     get_request_by_code code m = Inr r \<and> pr_pairing_code r = code \<and> now \<le> pr_expires_at r \<and>
     pr_status r \<noteq> PairRejected \<and> pr_status r \<noteq> PairCancelled"

lemma confirm_cases:
  assumes "pm_inv m"
  obtains (invalid) "hm_get (pm_codes m) code = None"
      "confirm_pairing now pa code u m = (Inl (InternalError ''Invalid pairing code''), m)"
  | (expired) rid r where "hm_get (pm_codes m) code = Some rid" "hm_get (pm_requests m) rid = Some r"
      "pr_expires_at r < now"
      "confirm_pairing now pa code u m = (Inl (InternalError ''Pairing request expired''),
         m\<lparr>pm_requests := hm_insert rid (r\<lparr>pr_status := PairExpired\<rparr>) (pm_requests m)\<rparr>)"
  | (no_device) rid r where "code_confirms now code m r" "hm_get (pm_requests m) rid = Some r"
      "get_device (pr_device_id r) m = None"
      "confirm_pairing now pa code u m = (Inl (DeviceNotPaired (pr_device_id r)),
         m\<lparr>pm_requests := hm_insert rid (request_confirm u r) (pm_requests m)\<rparr>)"
  | (confirmed) rid r d where "code_confirms now code m r" "hm_get (pm_requests m) rid = Some r"
      "get_device (pr_device_id r) m = Some d"
      "confirm_pairing now pa code u m = (Inr (d\<lparr>di_paired := True, di_paired_at := Some pa\<rparr>),
         m\<lparr>pm_requests := hm_insert rid (request_confirm u r) (pm_requests m),
           pm_devices := hm_insert (pr_device_id r) (d\<lparr>di_paired := True, di_paired_at := Some pa\<rparr>) (pm_devices m),
           pm_codes := hm_remove code (pm_codes m)\<rparr>)"
proof (cases "hm_get (pm_codes m) code")
  case None
  then show ?thesis using invalid by (simp add: confirm_pairing_def)
next
  case (Some rid)
  then obtain r where r: "hm_get (pm_requests m) rid = Some r" "pr_pairing_code r = code"
      "pr_status r \<noteq> PairRejected" "pr_status r \<noteq> PairCancelled"
    using assms by (auto simp: pm_inv_def index_ok_def)
  show ?thesis
  proof (cases "pr_expires_at r < now")
    case True
    then show ?thesis using expired Some r by (simp add: confirm_pairing_def request_is_expired_def)
  next
    case False
    then have c: "code_confirms now code m r"
      using Some r by (simp add: code_confirms_def get_request_by_code_def)
    show ?thesis
    proof (cases "get_device (pr_device_id r) m")
      case None
      then show ?thesis using no_device [OF c r(1)] Some r(1) False
        by (simp add: confirm_pairing_def request_is_expired_def get_device_def Let_def)
    next
      case dev: (Some d)
      then show ?thesis using confirmed [OF c r(1)] Some r(1) False
        by (simp add: confirm_pairing_def request_is_expired_def get_device_def Let_def)
    qed
  qed
qed

text \<open>
  In a manager whose code index is sound, a confirmation succeeds exactly when the code leads to
  a request that has not expired, was neither rejected nor cancelled, and whose device is known. Then
  that device is paired and no other device changes, the user is recorded in the request, and the
  code is used up: confirming it again fails and changes nothing.
\<close>

theorem confirm_pairing_correct:
  assumes "pm_inv m"
  shows "(fst (confirm_pairing now pa code u m) = Inr d \<longleftrightarrow>
      (\<exists>r d0. code_confirms now code m r \<and> get_device (pr_device_id r) m = Some d0 \<and>
         d = d0\<lparr>di_paired := True, di_paired_at := Some pa\<rparr>)) \<and>
    (fst (confirm_pairing now pa code u m) = Inr d \<longrightarrow>
      (\<exists>r. code_confirms now code m r \<and>
         get_pairing_request (pr_request_id r) (snd (confirm_pairing now pa code u m)) =
           Inr (r\<lparr>pr_status := Paired, pr_user_id := Some u\<rparr>) \<and>
         (\<forall>i. get_device i (snd (confirm_pairing now pa code u m)) =
            (if i = pr_device_id r then Some d else get_device i m))) \<and>
      confirm_pairing now' pa' code u' (snd (confirm_pairing now pa code u m)) =
        (Inl (InternalError ''Invalid pairing code''), snd (confirm_pairing now pa code u m)))"
  using assms
proof (cases rule: confirm_cases [where now = now and pa = pa and code = code and u = u])
  case (confirmed rid r d0)
  have "pr_request_id r = rid"
    using assms confirmed(2) by (auto simp: pm_inv_def requests_ok_def)
  moreover have "code_confirms now code m r' \<longleftrightarrow> r' = r" for r'
    using confirmed(1) by (auto simp: code_confirms_def)
  ultimately show ?thesis
    using confirmed(3)
    by (auto simp: confirmed(4) get_pairing_request_def get_device_def hm_get_insert hm_get_remove
        request_confirm_def confirm_pairing_def [of now'])
next
  case invalid
  then show ?thesis by (simp add: code_confirms_def get_request_by_code_def)
next
  case (expired rid r)
  then show ?thesis by (simp add: code_confirms_def get_request_by_code_def not_le)
next
  case (no_device rid r)
  then show ?thesis by (auto simp: code_confirms_def)
qed

theorem confirm_pairing_correct_witness:
  "\<exists>m d. fst (confirm_pairing 100 101 ''000042'' ''u'' m) = Inr d \<and> di_paired d \<and>
     get_device ''dev'' m \<noteq> Some d \<and>
     get_device ''dev'' (snd (confirm_pairing 100 101 ''000042'' ''u'' m)) = Some d \<and>
     confirm_pairing 102 103 ''000042'' ''v'' (snd (confirm_pairing 100 101 ''000042'' ''u'' m)) =
       (Inl (InternalError ''Invalid pairing code''), snd (confirm_pairing 100 101 ''000042'' ''u'' m))"
proof -
  let ?start = "with_pairing_ttl 300 pairing_manager_new"
  let ?m = "snd (initiate_pairing 50 ''r'' 42 ''dev'' ''name'' ''type'' ?start)"
  have code: "generate_pairing_code 42 = ''000042''"
    by code_simp
  have inv: "pm_inv ?m"
    by (rule pm_inv_initiate [OF pm_inv_new]) (simp_all add: with_pairing_ttl_def pairing_manager_new_def)
  obtain d where d: "fst (confirm_pairing 100 101 ''000042'' ''u'' ?m) = Inr d" "di_paired d"
      "get_device ''dev'' ?m \<noteq> Some d"
      "get_device ''dev'' (snd (confirm_pairing 100 101 ''000042'' ''u'' ?m)) = Some d"
    by (auto simp: confirm_pairing_def initiate_pairing_def pairing_request_new_def code Let_def
        with_pairing_ttl_def pairing_manager_new_def request_is_expired_def get_device_def)
  then show ?thesis using confirm_pairing_correct [OF inv, of 100 101 "''000042''" "''u''" d 102 103 "''v''"]
    by blast
qed


subsection \<open>How a device comes to be paired\<close>

lemma fold_forget_devices [simp]: "pm_devices (fold forget_pairing rids m) = pm_devices m"
  by (induction rids arbitrary: m) (auto simp: forget_pairing_def split: option.splits)

lemma confirm_pairs:
  assumes "pm_inv m" and "\<not> device_paired m i"
    and "device_paired (snd (confirm_pairing now pa code u m)) i"
  shows "\<exists>r. code_confirms now code m r \<and> pr_device_id r = i"
  using assms(1)
proof (cases rule: confirm_cases [where now = now and pa = pa and code = code and u = u])
  case (confirmed rid r d)
  then have "pr_device_id r = i"
    using assms(2,3) by (auto simp: confirmed(4) device_paired_def get_device_def hm_get_insert split: if_splits)
  then show ?thesis using confirmed(1) by blast
qed (use assms(2,3) in \<open>auto simp: device_paired_def get_device_def\<close>)



text \<open>
  Two open requests can carry the same code. The index then leads to the later one, and ending the
  earlier one takes the code of the later one out.
\<close>

lemma code_collision_unindexes:
  assumes "hm_get (pm_requests m) rid = Some r" and "hm_get (pm_codes m) (pr_pairing_code r) = Some rid'"
  shows "get_request_by_code (pr_pairing_code r) (snd (cancel_pairing rid m)) =
    Inl (InternalError ''Invalid pairing code'')"
  using assms by (simp add: cancel_pairing_def get_request_by_code_def hm_get_remove)

subsection \<open>Locks\<close>

text \<open>
  The locks the operations hold at the same time, in the order they ask for them: a task is what it
  holds and what it will still do. A read lock is compatible with read locks only; a lock is not
  reentrant.
\<close>

datatype pm_lock = DevicesLock | RequestsLock | CodesLock

datatype lock_action = ReadLock pm_lock | WriteLock pm_lock | Unlock pm_lock

type_synonym lock_task = "(pm_lock \<times> bool) list \<times> lock_action list"

definition confirm_locks :: "lock_action list" where
  "confirm_locks =
     [ReadLock CodesLock, WriteLock RequestsLock, WriteLock DevicesLock, Unlock CodesLock,
      WriteLock CodesLock, Unlock CodesLock, Unlock DevicesLock, Unlock RequestsLock]"

definition cancel_locks :: "lock_action list" where
  "cancel_locks = [WriteLock RequestsLock, WriteLock CodesLock, Unlock CodesLock, Unlock RequestsLock]"

definition lock_free :: "lock_task list \<Rightarrow> pm_lock \<Rightarrow> bool \<Rightarrow> bool" where
  "lock_free ts l w = list_all (\<lambda>(held, _). list_all (\<lambda>(l', w'). l' = l \<longrightarrow> \<not> w \<and> \<not> w') held) ts"

fun lock_act :: "lock_task list \<Rightarrow> lock_task \<Rightarrow> lock_task option" where
  "lock_act ts (held, []) = None"
| "lock_act ts (held, ReadLock l # as) = (if lock_free ts l False then Some ((l, False) # held, as) else None)"
| "lock_act ts (held, WriteLock l # as) = (if lock_free ts l True then Some ((l, True) # held, as) else None)"
| "lock_act ts (held, Unlock l # as) = Some (filter (\<lambda>(l', _). l' \<noteq> l) held, as)"

inductive lock_step :: "lock_task list \<Rightarrow> lock_task list \<Rightarrow> bool" where
  "i < length ts \<Longrightarrow> lock_act ts (ts ! i) = Some t \<Longrightarrow> lock_step ts (ts[i := t])"

definition lock_stuck :: "lock_task list \<Rightarrow> bool" where
  "lock_stuck ts = list_all (\<lambda>t. snd t \<noteq> [] \<and> lock_act ts t = None) ts"

lemma lock_stuck_no_step: "lock_stuck ts \<Longrightarrow> \<not> lock_step ts ts'"
  by (auto simp: lock_stuck_def list_all_length elim!: lock_step.cases)

lemma lock_step_at: "i < length ts \<Longrightarrow> lock_act ts (ts ! i) = Some t \<Longrightarrow> ts' = ts[i := t] \<Longrightarrow> lock_step ts ts'"
  using lock_step.intros by blast

lemmas lock_eval = confirm_locks_def cancel_locks_def lock_free_def

text \<open>
  A confirmation and a cancellation that run at the same time can block each other for ever, and
  so can two confirmations: in some interleaving each holds a lock the other waits for, so neither
  has finished and no step is possible.
\<close>

theorem pairing_deadlock:
  "(\<exists>ts. lock_step\<^sup>*\<^sup>* [([], confirm_locks), ([], cancel_locks)] ts \<and>
      list_all (\<lambda>t. snd t \<noteq> []) ts \<and> \<not> (\<exists>ts'. lock_step ts ts')) \<and>
   (\<exists>ts. lock_step\<^sup>*\<^sup>* [([], confirm_locks), ([], confirm_locks)] ts \<and>
      list_all (\<lambda>t. snd t \<noteq> []) ts \<and> \<not> (\<exists>ts'. lock_step ts ts'))"
proof -
  have stuck: "list_all (\<lambda>t. snd t \<noteq> []) ts \<and> \<not> (\<exists>ts'. lock_step ts ts')" if "lock_stuck ts" for ts
    using that lock_stuck_no_step by (auto simp: lock_stuck_def list_all_iff)
  let ?c1 = "([(CodesLock, False)], tl confirm_locks)"
  let ?c2 = "([(RequestsLock, True), (CodesLock, False)], drop 2 confirm_locks)"
  let ?c3 = "([(DevicesLock, True), (RequestsLock, True), (CodesLock, False)], drop 3 confirm_locks)"
  let ?c4 = "([(DevicesLock, True), (RequestsLock, True)], drop 4 confirm_locks)"
  let ?k1 = "([(RequestsLock, True)], tl cancel_locks)"
  let ?c0 = "([], confirm_locks)"
  have "lock_step [?c0, ([], cancel_locks)] [?c1, ([], cancel_locks)]"
    by (rule lock_step_at [of 0]) (simp_all add: lock_eval)
  moreover have "lock_step [?c1, ([], cancel_locks)] [?c1, ?k1]"
    by (rule lock_step_at [of 1]) (simp_all add: lock_eval)
  ultimately have 1: "lock_step\<^sup>*\<^sup>* [?c0, ([], cancel_locks)] [?c1, ?k1]" by auto
  have "lock_step [?c0, ?c0] [?c1, ?c0]" "lock_step [?c1, ?c1] [?c2, ?c1]"
    "lock_step [?c2, ?c1] [?c3, ?c1]" "lock_step [?c3, ?c1] [?c4, ?c1]"
    by (rule lock_step_at [of 0]; simp add: lock_eval)+
  moreover have "lock_step [?c1, ?c0] [?c1, ?c1]"
    by (rule lock_step_at [of 1]) (simp_all add: lock_eval)
  ultimately have 2: "lock_step\<^sup>*\<^sup>* [?c0, ?c0] [?c4, ?c1]"
    by (meson rtranclp.rtrancl_into_rtrancl rtranclp.rtrancl_refl)
  have "lock_stuck [?c1, ?k1]" "lock_stuck [?c4, ?c1]"
    by (simp_all add: lock_stuck_def lock_eval)
  then show ?thesis using 1 2 stuck by blast
qed

end
