(* ===== verification/Reply.thy ===== *)
theory Reply
  imports Notifications Session_Runtime
begin

section \<open>Replies to a DingTalk conversation (\<^verbatim>\<open>uhorse-hub/src/web/mod.rs\<close>)\<close>

text \<open>
  How an answer reaches the user: the routes and reply handles kept per task
  (\<^verbatim>\<open>DingTalkReplyRuntime\<close>), the choice of the target of a reply, the clean-up of its text, and the
  adapter that creates a processing handle and later finalises it. What the channel does with a
  call is a parameter: \<open>rv_ok\<close> says which calls succeed, and an operation returns the calls it made
  in order.
\<close>

subsection \<open>Handles, routes and targets\<close>

record reaction_handle =
  rh_robot_code :: string
  rh_message_id :: string
  rh_conversation_id :: string
  rh_reaction_name :: string

datatype reply_handle =
    AiCard string instant
  | Reaction reaction_handle instant
  | LegacyTransient "bool option" instant
  | Noop

fun attached_at :: "reply_handle \<Rightarrow> instant option" where
  "attached_at (AiCard _ t) = Some t"
| "attached_at (Reaction _ t) = Some t"
| "attached_at (LegacyTransient _ t) = Some t"
| "attached_at Noop = None"

record reply_runtime =
  rr_routes :: "(task_id, ding_talk_reply_route) hmap"
  rr_handles :: "(task_id, reply_handle) hmap"

definition reply_runtime_default :: reply_runtime where
  "reply_runtime_default = \<lparr>rr_routes = [], rr_handles = []\<rparr>"

definition insert_route :: "task_id \<Rightarrow> ding_talk_reply_route \<Rightarrow> reply_runtime \<Rightarrow> reply_runtime" where
  "insert_route tid r s = s\<lparr>rr_routes := hm_insert tid r (rr_routes s)\<rparr>"

definition take_route :: "task_id \<Rightarrow> reply_runtime \<Rightarrow> ding_talk_reply_route option \<times> reply_runtime" where
  "take_route tid s = (hm_get (rr_routes s) tid, s\<lparr>rr_routes := hm_remove tid (rr_routes s)\<rparr>)"

definition insert_handle :: "task_id \<Rightarrow> reply_handle \<Rightarrow> reply_runtime \<Rightarrow> reply_runtime" where
  "insert_handle tid h s = s\<lparr>rr_handles := hm_insert tid h (rr_handles s)\<rparr>"

definition take_handle :: "task_id \<Rightarrow> reply_runtime \<Rightarrow> reply_handle option \<times> reply_runtime" where
  "take_handle tid s = (hm_get (rr_handles s) tid, s\<lparr>rr_handles := hm_remove tid (rr_handles s)\<rparr>)"

datatype reply_target =
    SessionWebhook string "string list"
  | GroupConversation string
  | DirectUser string

definition webhook_available :: "int \<Rightarrow> ding_talk_reply_route \<Rightarrow> capability_flags \<Rightarrow> bool" where
  "webhook_available now_ms rt flags =
     (flags_contains flags inbound_webhook_flag \<and> dr_session_webhook rt \<noteq> None
      \<and> (case dr_session_webhook_expired_time rt of
           Some expires_at \<Rightarrow> now_ms < expires_at | None \<Rightarrow> True))"

definition resolve_dingtalk_reply_target ::
  "int \<Rightarrow> ding_talk_reply_route \<Rightarrow> capability_flags \<Rightarrow> reply_target option" where
  "resolve_dingtalk_reply_target now_ms rt flags =
     (if webhook_available now_ms rt flags
      then map_option
             (\<lambda>webhook. SessionWebhook webhook
                (case dr_sender_staff_id rt of Some staff \<Rightarrow> [staff] | None \<Rightarrow> []))
             (dr_session_webhook rt)
      else if \<not> flags_contains flags send_to_recipient_flag then None
      else if dr_conversation_type rt = Some ''2''
      then Some (GroupConversation (dr_conversation_id rt))
      else map_option DirectUser (dr_sender_user_id rt))"

definition resolve_dingtalk_ai_card_target ::
  "ding_talk_reply_route \<Rightarrow> capability_flags \<Rightarrow> string option" where
  "resolve_dingtalk_ai_card_target rt flags =
     (if \<not> flags_contains flags reply_context_flag then None
      else if dr_robot_code rt = None then None
      else if dr_conversation_type rt \<noteq> Some ''2'' then None
      else Some (dr_conversation_id rt))"

definition supports_dingtalk_reply_handle :: "capability_flags \<Rightarrow> bool" where
  "supports_dingtalk_reply_handle flags =
     (flags_contains flags reply_context_flag \<or> flags_contains flags send_to_recipient_flag
      \<or> flags_contains flags inbound_webhook_flag)"

subsection \<open>The text of a reply\<close>

definition normalize_line :: "string \<Rightarrow> string option" where
  "normalize_line trimmed =
     (if trimmed = ''```'' then None
      else if starts_with trimmed ''### '' then Some (trim (drop 4 trimmed))
      else if starts_with trimmed ''## '' then Some (trim (drop 3 trimmed))
      else if starts_with trimmed ''# '' then Some (trim (drop 2 trimmed))
      else Some trimmed)"

fun format_lines :: "bool \<Rightarrow> string list \<Rightarrow> string list \<Rightarrow> string list" where
  "format_lines previous_blank formatted [] = formatted"
| "format_lines previous_blank formatted (line # ls) =
     (let trimmed = trim line
      in if trimmed = []
         then (if \<not> previous_blank \<and> formatted \<noteq> []
               then format_lines True (formatted @ [[]]) ls
               else format_lines previous_blank formatted ls)
         else (case normalize_line trimmed of
                 Some kept \<Rightarrow> format_lines False (formatted @ [kept]) ls
               | None \<Rightarrow> format_lines previous_blank formatted ls))"

definition drop_trailing_blank :: "string list \<Rightarrow> string list" where
  "drop_trailing_blank ls = rev (dropWhile (\<lambda>l. l = []) (rev ls))"

definition reply_lines :: "string \<Rightarrow> string list" where
  "reply_lines text = drop_trailing_blank (format_lines False [] (str_lines text))"

definition format_dingtalk_reply_text :: "string \<Rightarrow> string" where
  "format_dingtalk_reply_text text = join_with [CHR 0x0A] (reply_lines text)"

subsection \<open>The adapter\<close>

definition DINGTALK_PROCESSING_ACK_TEXT :: string where
  "DINGTALK_PROCESSING_ACK_TEXT = ''[Wait]''"

definition DINGTALK_CANCELLED_TEXT :: string where
  "DINGTALK_CANCELLED_TEXT = map char_of
     ([0xE4, 0xBB, 0xBB, 0xE5, 0x8A, 0xA1, 0xE5, 0xB7, 0xB2, 0xE5, 0x8F, 0x96, 0xE6, 0xB6, 0x88,
       0xE3, 0x80, 0x82] :: nat list)"

datatype channel_call =
    CreateAiCard string string string string
  | AddReaction string string string
  | FinalizeAiCard string string
  | RecallReaction reaction_handle
  | ClearProcessingAck "bool option"
  | ReplyWebhook string string "string list"
  | SendGroup string string
  | SendMarkdown string string

datatype reply_error = NoReplyTarget | NoCardTemplate | CallFailed channel_call

record reply_env =
  rv_flags :: capability_flags
  rv_now_ms :: int
  rv_now :: instant
  rv_card_template :: "string option"
  rv_ok :: "channel_call \<Rightarrow> bool"
  rv_card :: string
  rv_reaction :: reaction_handle

type_synonym 'a called = "(reply_error + 'a) \<times> channel_call list"

definition channel_do :: "reply_env \<Rightarrow> channel_call \<Rightarrow> unit called" where
  "channel_do v c = (if rv_ok v c then Inr () else Inl (CallFailed c), [c])"

definition after_call :: "channel_call list \<Rightarrow> 'a called \<Rightarrow> 'a called" where
  "after_call cs r = (fst r, cs @ snd r)"

fun target_call :: "reply_target \<Rightarrow> string \<Rightarrow> channel_call" where
  "target_call (SessionWebhook webhook at_user_ids) text = ReplyWebhook webhook text at_user_ids"
| "target_call (GroupConversation conversation_id) text = SendGroup conversation_id text"
| "target_call (DirectUser user_id) text = SendMarkdown user_id text"

definition adapter_send :: "reply_env \<Rightarrow> ding_talk_reply_route \<Rightarrow> string \<Rightarrow> unit called" where
  "adapter_send v rt text =
     (case resolve_dingtalk_reply_target (rv_now_ms v) rt (rv_flags v) of
        Some target \<Rightarrow> channel_do v (target_call target (format_dingtalk_reply_text text))
      | None \<Rightarrow> (Inl NoReplyTarget, []))"

fun send_or_finalize ::
  "reply_env \<Rightarrow> ding_talk_reply_route \<Rightarrow> string \<Rightarrow> reply_handle option \<Rightarrow> unit called" where
  "send_or_finalize v rt text (Some (AiCard h _)) =
     (case channel_do v (FinalizeAiCard h text) of
        (Inr _, cs) \<Rightarrow> (Inr (), cs)
      | (Inl _, cs) \<Rightarrow> after_call cs (adapter_send v rt text))"
| "send_or_finalize v rt text (Some (Reaction h _)) =
     after_call (snd (channel_do v (RecallReaction h))) (adapter_send v rt text)"
| "send_or_finalize v rt text (Some (LegacyTransient receipt _)) =
     (case channel_do v (ClearProcessingAck receipt) of
        (Inl err, cs) \<Rightarrow> (Inl err, cs)
      | (Inr _, cs) \<Rightarrow> after_call cs (adapter_send v rt text))"
| "send_or_finalize v rt text (Some Noop) =
     (if text \<noteq> DINGTALK_PROCESSING_ACK_TEXT then adapter_send v rt text else (Inr (), []))"
| "send_or_finalize v rt text None = adapter_send v rt text"

fun cleanup_processing_handle :: "reply_env \<Rightarrow> reply_handle option \<Rightarrow> unit called" where
  "cleanup_processing_handle v (Some (AiCard h _)) =
     (Inr (), snd (channel_do v (FinalizeAiCard h DINGTALK_CANCELLED_TEXT)))"
| "cleanup_processing_handle v (Some (Reaction h _)) = (Inr (), snd (channel_do v (RecallReaction h)))"
| "cleanup_processing_handle v (Some (LegacyTransient receipt _)) = channel_do v (ClearProcessingAck receipt)"
| "cleanup_processing_handle v (Some Noop) = (Inr (), [])"
| "cleanup_processing_handle v None = (Inr (), [])"

definition legacy_handle :: "reply_env \<Rightarrow> ding_talk_reply_route \<Rightarrow> reply_handle called" where
  "legacy_handle v rt =
     (case resolve_dingtalk_reply_target (rv_now_ms v) rt (rv_flags v) of
        Some (SessionWebhook _ _) \<Rightarrow> (Inr Noop, [])
      | Some _ \<Rightarrow> (Inr (LegacyTransient None (rv_now v)), [])
      | None \<Rightarrow> (Inl NoReplyTarget, []))"

definition reaction_or_legacy :: "reply_env \<Rightarrow> ding_talk_reply_route \<Rightarrow> reply_handle called" where
  "reaction_or_legacy v rt =
     (case (dr_source_message_id rt, dr_robot_code rt) of
        (Some source_message_id, Some robot_code) \<Rightarrow>
          if flags_contains (rv_flags v) reply_context_flag
          then (case channel_do v (AddReaction robot_code source_message_id (dr_conversation_id rt)) of
                  (Inr _, cs) \<Rightarrow> (Inr (Reaction (rv_reaction v) (rv_now v)), cs)
                | (Inl _, cs) \<Rightarrow> after_call cs (legacy_handle v rt))
          else legacy_handle v rt
      | _ \<Rightarrow> legacy_handle v rt)"

definition create_handle :: "reply_env \<Rightarrow> ding_talk_reply_route \<Rightarrow> reply_handle called" where
  "create_handle v rt =
     (case (resolve_dingtalk_ai_card_target rt (rv_flags v), dr_robot_code rt) of
        (Some target, Some robot_code) \<Rightarrow>
          (case rv_card_template v of
             None \<Rightarrow> (Inl NoCardTemplate, [])
           | Some template_id \<Rightarrow>
               (case channel_do v (CreateAiCard target robot_code template_id
                         (format_dingtalk_reply_text DINGTALK_PROCESSING_ACK_TEXT)) of
                  (Inl err, cs) \<Rightarrow> (Inl err, cs)
                | (Inr _, cs) \<Rightarrow> (Inr (AiCard (rv_card v) (rv_now v)), cs)))
      | _ \<Rightarrow> reaction_or_legacy v rt)"

subsection \<open>A reply is delivered once\<close>

fun delivers :: "channel_call \<Rightarrow> bool" where
  "delivers (FinalizeAiCard _ _) = True"
| "delivers (ReplyWebhook _ _ _) = True"
| "delivers (SendGroup _ _) = True"
| "delivers (SendMarkdown _ _) = True"
| "delivers _ = False"

definition delivered :: "reply_env \<Rightarrow> channel_call list \<Rightarrow> channel_call list" where
  "delivered v cs = filter (\<lambda>c. delivers c \<and> rv_ok v c) cs"

lemma target_call_delivers [simp]: "delivers (target_call t text)"
  by (cases t) auto

lemma adapter_send_delivered:
  "length (delivered v (snd (adapter_send v rt text))) = (if fst (adapter_send v rt text) = Inr () then 1 else 0)"
  by (auto simp: adapter_send_def channel_do_def delivered_def split: option.split)

lemma after_call_simps [simp]: "fst (after_call cs r) = fst r" "snd (after_call cs r) = cs @ snd r"
  by (simp_all add: after_call_def)

lemma delivered_Cons:
  "delivered v (c # cs) = (if delivers c \<and> rv_ok v c then c # delivered v cs else delivered v cs)"
  "delivered v [] = []"
  by (simp_all add: delivered_def)


subsection \<open>The shape of a reply\<close>

text \<open>
  Lines without blanks at their ends; no blank line first or last, and never two in a row.
\<close>

definition tidy :: "string list \<Rightarrow> bool" where
  "tidy ls = (successively (\<lambda>a b. a \<noteq> [] \<or> b \<noteq> []) ls \<and> (ls \<noteq> [] \<longrightarrow> hd ls \<noteq> [])
              \<and> list_all (\<lambda>l. trim l = l) ls)"

lemma trim_suffix:
  assumes "trim s = s" and "n < length s"
  shows "trim (drop n s) \<noteq> []"
proof
  assume "trim (drop n s) = []"
  then have "\<forall>c\<in>set (drop n s). is_whitespace c" by (simp add: trim_eq_Nil)
  moreover have "last s \<in> set (drop n s)" using assms(2) by (metis last_drop last_in_set drop_eq_Nil leD)
  moreover have "s \<noteq> []" using assms(2) by auto
  ultimately show False using trim_ends(2) [of s] assms(1) by simp
qed

lemma normalize_line_tidy:
  assumes "trim t = t" and "t \<noteq> []" and "normalize_line t = Some n"
  shows "trim n = n \<and> n \<noteq> []"
proof -
  have blank_end: "last t \<noteq> CHR '' ''"
    using trim_ends(2) [of t] assms(1, 2) by (auto simp: is_whitespace_def)
  have "4 < length t" if "starts_with t ''### ''"
    using that blank_end by (auto simp: prefix_def)
  moreover have "3 < length t" if "starts_with t ''## ''"
    using that blank_end by (auto simp: prefix_def)
  moreover have "2 < length t" if "starts_with t ''# ''"
    using that blank_end by (auto simp: prefix_def)
  ultimately show ?thesis
    using assms trim_suffix [OF assms(1)] by (auto simp: normalize_line_def split: if_splits)
qed

lemma tidy_snoc:
  "tidy (ls @ [l]) \<longleftrightarrow> tidy ls \<and> trim l = l \<and> (l = [] \<longrightarrow> ls \<noteq> [] \<and> last ls \<noteq> [])"
  by (cases "ls = []") (auto simp: tidy_def successively_append_iff)

lemma tidy_butlast: "tidy ls \<Longrightarrow> tidy (butlast ls)"
  by (cases ls rule: rev_cases) (auto simp: tidy_snoc)

lemma format_lines_tidy:
  "tidy formatted \<Longrightarrow> previous_blank = (formatted \<noteq> [] \<and> last formatted = []) \<Longrightarrow>
   tidy (format_lines previous_blank formatted ls)"
proof (induction previous_blank formatted ls rule: format_lines.induct)
  case (2 previous_blank formatted line ls)
  show ?case
  proof (cases "trim line = []")
    case True
    have "trim [] = ([] :: string)" by (simp add: trim_def)
    then show ?thesis using 2 True by (cases "formatted = []"; cases "last formatted = []") (simp_all add: Let_def tidy_snoc)
  next
    case False
    show ?thesis
    proof (cases "normalize_line (trim line)")
      case None
      then show ?thesis using 2 (3) [OF refl False None] 2 (5, 6) False by (simp add: Let_def)
    next
      case (Some n)
      then have "trim n = n \<and> n \<noteq> []" using normalize_line_tidy [OF trim_idem False] by blast
      then show ?thesis using 2 (4) [OF refl False Some] 2 (5) False Some by (simp add: Let_def tidy_snoc)
    qed
  qed
qed simp

lemma drop_trailing_blank_snoc:
  "drop_trailing_blank (ls @ [l]) = (if l = [] then drop_trailing_blank ls else ls @ [l])"
  by (simp add: drop_trailing_blank_def)

text \<open>
  A formatted reply has no blank line at either end and never two in a row, and each of its lines
  is trimmed.
\<close>

lemma reply_lines_tidy: "tidy (reply_lines s) \<and> (reply_lines s \<noteq> [] \<longrightarrow> last (reply_lines s) \<noteq> [])"
proof -
  have "tidy ls \<Longrightarrow> tidy (drop_trailing_blank ls) \<and>
      (drop_trailing_blank ls \<noteq> [] \<longrightarrow> last (drop_trailing_blank ls) \<noteq> [])" for ls
    by (induction ls rule: rev_induct)
       (auto simp: drop_trailing_blank_snoc tidy_snoc, simp_all add: drop_trailing_blank_def)
  moreover have "tidy (format_lines False [] (str_lines s))"
    by (rule format_lines_tidy) (simp_all add: tidy_def)
  ultimately show ?thesis by (simp add: reply_lines_def)
qed

end
