(* ===== verification/Url_Guard.thy ===== *)
theory Url_Guard
  imports Prelude
begin

section \<open>Browser targets (\<^verbatim>\<open>uhorse-hub/src/web/mod.rs\<close>)\<close>

text \<open>
  Before a planned browser command reaches a node the Hub checks the address it opens:
  \<^verbatim>\<open>validate_browser_target_url\<close> accepts http and https only, refuses \<^verbatim>\<open>localhost\<close>, and refuses
  host addresses of the local machine or of private networks. The host is compared after
  \<^verbatim>\<open>host.parse::<IpAddr>()\<close>, so the address parser of the standard library is part of the model
  (\<open>parse_ip_addr\<close>: strict dotted decimals, and groups with \<open>::\<close> and an embedded IPv4 tail). The
  URL parser is the \<^verbatim>\<open>url\<close> package's and stays a parameter: a function from the text to scheme
  and host.
\<close>


datatype ipv4_addr = Ipv4Addr u8 u8 u8 u8
datatype ipv6_addr = Ipv6Addr "u16 list"
datatype ip_addr = V4 ipv4_addr | V6 ipv6_addr

type_synonym 'a reader = "string \<Rightarrow> ('a \<times> string) option"

subsection \<open>The address parser of the standard library\<close>

definition to_digit :: "nat \<Rightarrow> char \<Rightarrow> nat option" where
  "to_digit radix c =
     (let n = (of_char c :: nat);
          d = (if 48 \<le> n \<and> n \<le> 57 then n - 48
               else if 97 \<le> n \<and> n \<le> 122 then n - 87
               else if 65 \<le> n \<and> n \<le> 90 then n - 55 else radix)
      in if d < radix then Some d else None)"

text \<open>
  The digits of a number, at most \<open>max_digits\<close> of them, as long as the value fits below \<open>limit\<close>
  (the checked multiplication and addition).
\<close>

fun read_digits :: "nat \<Rightarrow> int \<Rightarrow> nat \<Rightarrow> int \<Rightarrow> nat \<Rightarrow> string \<Rightarrow> (int \<times> nat \<times> string) option" where
  "read_digits radix limit max_digits result digits [] = Some (result, digits, [])"
| "read_digits radix limit max_digits result digits (c # r) =
     (case to_digit radix c of
        None \<Rightarrow> Some (result, digits, c # r)
      | Some d \<Rightarrow>
          if limit \<le> result * int radix + int d \<or> max_digits < digits + 1 then None
          else read_digits radix limit max_digits (result * int radix + int d) (digits + 1) r)"

definition read_number :: "nat \<Rightarrow> int \<Rightarrow> nat \<Rightarrow> bool \<Rightarrow> int reader" where
  "read_number radix limit max_digits allow_zero_prefix s =
     (case read_digits radix limit max_digits 0 0 s of
        None \<Rightarrow> None
      | Some (result, digits, r) \<Rightarrow>
          if digits = 0 then None
          else if \<not> allow_zero_prefix \<and> starts_with s ''0'' \<and> 1 < digits then None
          else Some (result, r))"

definition read_given_char :: "char \<Rightarrow> string \<Rightarrow> string option" where
  "read_given_char c s = (case s of [] \<Rightarrow> None | x # r \<Rightarrow> if x = c then Some r else None)"

definition read_separator :: "char \<Rightarrow> nat \<Rightarrow> 'a reader \<Rightarrow> 'a reader" where
  "read_separator sep index inner s =
     (if 0 < index
      then (case read_given_char sep s of None \<Rightarrow> None | Some r \<Rightarrow> inner r)
      else inner s)"

fun read_octets :: "nat \<Rightarrow> nat \<Rightarrow> u8 list reader" where
  "read_octets 0 i s = Some ([], s)"
| "read_octets (Suc n) i s =
     (case read_separator (CHR ''.'') i (read_number 10 256 3 False) s of
        None \<Rightarrow> None
      | Some (octet, r) \<Rightarrow>
          (case read_octets n (i + 1) r of
             None \<Rightarrow> None
           | Some (octets, r') \<Rightarrow> Some (of_int octet # octets, r')))"

definition read_ipv4_addr :: "ipv4_addr reader" where
  "read_ipv4_addr s =
     (case read_octets 4 0 s of
        Some ([a, b, c, d], r) \<Rightarrow> Some (Ipv4Addr a b c d, r)
      | _ \<Rightarrow> None)"

definition be_u16 :: "u8 \<Rightarrow> u8 \<Rightarrow> u16" where
  "be_u16 hi lo = ucast hi * 256 + ucast lo"

text \<open>
  \<open>read_groups\<close> over the remaining slots: the groups read, whether an embedded IPv4 address ended
  them, and the rest of the input.
\<close>

fun read_groups :: "nat \<Rightarrow> nat \<Rightarrow> string \<Rightarrow> u16 list \<times> bool \<times> string" where
  "read_groups 0 i s = ([], False, s)"
| "read_groups (Suc n) i s =
     (case (if 0 < n then read_separator (CHR '':'') i read_ipv4_addr s else None) of
        Some (Ipv4Addr a b c d, r) \<Rightarrow> ([be_u16 a b, be_u16 c d], True, r)
      | None \<Rightarrow>
          (case read_separator (CHR '':'') i (read_number 16 65536 4 True) s of
             None \<Rightarrow> ([], False, s)
           | Some (g, r) \<Rightarrow>
               (case read_groups n (i + 1) r of
                  (gs, v4, r') \<Rightarrow> (of_int g # gs, v4, r'))))"

definition read_ipv6_addr :: "ipv6_addr reader" where
  "read_ipv6_addr s =
     (case read_groups 8 0 s of
        (head, head_ipv4, r) \<Rightarrow>
          if length head = 8 then Some (Ipv6Addr head, r)
          else if head_ipv4 then None
          else (case read_given_char (CHR '':'') r of
                  None \<Rightarrow> None
                | Some r1 \<Rightarrow>
                    (case read_given_char (CHR '':'') r1 of
                       None \<Rightarrow> None
                     | Some r2 \<Rightarrow>
                         (case read_groups (8 - (length head + 1)) 0 r2 of
                            (tail, _, r3) \<Rightarrow>
                              Some (Ipv6Addr (head @ replicate (8 - length head - length tail) 0 @ tail),
                                    r3)))))"

definition read_ip_addr :: "ip_addr reader" where
  "read_ip_addr s =
     (case read_ipv4_addr s of
        Some (a, r) \<Rightarrow> Some (V4 a, r)
      | None \<Rightarrow> map_option (\<lambda>(a, r). (V6 a, r)) (read_ipv6_addr s))"

definition parse_ip_addr :: "string \<Rightarrow> ip_addr option" where
  "parse_ip_addr s = (case read_ip_addr s of Some (a, []) \<Rightarrow> Some a | _ \<Rightarrow> None)"

fun ipv4_display :: "ipv4_addr \<Rightarrow> string" where
  "ipv4_display (Ipv4Addr a b c d) =
     join_with ''.'' (map (\<lambda>o8. dec_string (unat o8)) [a, b, c, d])"

subsection \<open>Address classes of the standard library\<close>

fun ipv4_is_loopback :: "ipv4_addr \<Rightarrow> bool" where
  "ipv4_is_loopback (Ipv4Addr a b c d) = (a = 127)"

fun ipv4_is_private :: "ipv4_addr \<Rightarrow> bool" where
  "ipv4_is_private (Ipv4Addr a b c d) =
     (a = 10 \<or> (a = 172 \<and> 16 \<le> b \<and> b \<le> 31) \<or> (a = 192 \<and> b = 168))"

fun ipv4_is_link_local :: "ipv4_addr \<Rightarrow> bool" where
  "ipv4_is_link_local (Ipv4Addr a b c d) = (a = 169 \<and> b = 254)"

fun ipv4_is_unspecified :: "ipv4_addr \<Rightarrow> bool" where
  "ipv4_is_unspecified (Ipv4Addr a b c d) = (a = 0 \<and> b = 0 \<and> c = 0 \<and> d = 0)"

fun ipv4_is_broadcast :: "ipv4_addr \<Rightarrow> bool" where
  "ipv4_is_broadcast (Ipv4Addr a b c d) = (a = 255 \<and> b = 255 \<and> c = 255 \<and> d = 255)"

fun ipv4_is_documentation :: "ipv4_addr \<Rightarrow> bool" where
  "ipv4_is_documentation (Ipv4Addr a b c d) =
     ((a = 192 \<and> b = 0 \<and> c = 2) \<or> (a = 198 \<and> b = 51 \<and> c = 100) \<or> (a = 203 \<and> b = 0 \<and> c = 113))"

fun ipv6_is_loopback :: "ipv6_addr \<Rightarrow> bool" where
  "ipv6_is_loopback (Ipv6Addr gs) = (gs = [0, 0, 0, 0, 0, 0, 0, 1])"

fun ipv6_is_unspecified :: "ipv6_addr \<Rightarrow> bool" where
  "ipv6_is_unspecified (Ipv6Addr gs) = (gs = [0, 0, 0, 0, 0, 0, 0, 0])"

fun ipv6_is_unique_local :: "ipv6_addr \<Rightarrow> bool" where
  "ipv6_is_unique_local (Ipv6Addr gs) = (and (hd gs) 0xfe00 = 0xfc00)"

fun ipv6_is_unicast_link_local :: "ipv6_addr \<Rightarrow> bool" where
  "ipv6_is_unicast_link_local (Ipv6Addr gs) = (and (hd gs) 0xffc0 = 0xfe80)"

subsection \<open>The check\<close>

record parsed_url =
  url_scheme :: string
  url_host_str :: "string option"

datatype url_error =
  InvalidUrl | SchemeNotAllowed | MissingHost | LocalhostForbidden | PrivateIpv4 | PrivateIpv6

definition ipv4_blocked :: "ipv4_addr \<Rightarrow> bool" where
  "ipv4_blocked ip =
     (ipv4_is_loopback ip \<or> ipv4_is_private ip \<or> ipv4_is_link_local ip \<or> ipv4_is_unspecified ip
      \<or> ipv4_is_broadcast ip \<or> ipv4_is_documentation ip)"

definition ipv6_blocked :: "ipv6_addr \<Rightarrow> bool" where
  "ipv6_blocked ip =
     (ipv6_is_loopback ip \<or> ipv6_is_unique_local ip \<or> ipv6_is_unicast_link_local ip
      \<or> ipv6_is_unspecified ip)"

definition validate_browser_target_url ::
  "(string \<Rightarrow> parsed_url option) \<Rightarrow> string \<Rightarrow> url_error + unit" where
  "validate_browser_target_url url_parse url =
     (case url_parse url of
        None \<Rightarrow> Inl InvalidUrl
      | Some parsed \<Rightarrow>
          if url_scheme parsed \<noteq> ''http'' \<and> url_scheme parsed \<noteq> ''https'' then Inl SchemeNotAllowed
          else (case url_host_str parsed of
                  None \<Rightarrow> Inl MissingHost
                | Some host0 \<Rightarrow>
                    let host = to_lowercase (trim host0)
                    in if host = ''localhost'' \<or> host = ''localhost.localdomain''
                       then Inl LocalhostForbidden
                       else (case parse_ip_addr host of
                               Some (V4 ip) \<Rightarrow> if ipv4_blocked ip then Inl PrivateIpv4 else Inr ()
                             | Some (V6 ip) \<Rightarrow> if ipv6_blocked ip then Inl PrivateIpv6 else Inr ()
                             | None \<Rightarrow> Inr ())))"

subsection \<open>Dotted decimals are read back\<close>

definition no_digit :: "string \<Rightarrow> bool" where
  "no_digit r = (case r of [] \<Rightarrow> True | c # _ \<Rightarrow> \<not> is_digit_char c)"

lemma to_digit_decimal: "to_digit 10 c = (if is_digit_char c then Some (digit_val c) else None)"
  by (auto simp: to_digit_def is_digit_char_def digit_val_def Let_def)

lemma read_digits_decimal:
  assumes "list_all is_digit_char ds" and "digits + length ds \<le> max_digits"
    and "int (foldl (\<lambda>v c. v * 10 + digit_val c) result ds) < limit" and "no_digit r"
  shows "read_digits 10 limit max_digits (int result) digits (ds @ r)
           = Some (int (foldl (\<lambda>v c. v * 10 + digit_val c) result ds), digits + length ds, r)"
  using assms
proof (induction ds arbitrary: result digits)
  case Nil
  then show ?case by (cases r) (auto simp: to_digit_decimal no_digit_def)
next
  case (Cons c ds)
  have "v \<le> foldl (\<lambda>v c. v * 10 + digit_val c) v ds" for v
  proof (induction ds arbitrary: v)
    case (Cons a ds)
    have "v \<le> v * 10 + digit_val a" by simp
    also have "\<dots> \<le> foldl (\<lambda>v c. v * 10 + digit_val c) (v * 10 + digit_val a) ds" by (rule Cons)
    finally show ?case by simp
  qed simp
  from this [of "result * 10 + digit_val c"] Cons.prems(3)
  have "int (result * 10 + digit_val c) < limit" by simp
  then show ?case
    using Cons.prems Cons.IH [of "digits + 1" "result * 10 + digit_val c"]
    by (simp add: to_digit_decimal)
qed

lemma dec_string_octet_length: "n < 10 ^ Suc k \<Longrightarrow> length (dec_string n) \<le> Suc k"
proof (induction k arbitrary: n)
  case (Suc k)
  then have "n div 10 < 10 ^ Suc k" by (simp add: less_mult_imp_div_less mult.commute)
  then show ?case using Suc.IH [of "n div 10"] by (subst dec_string.simps) simp
qed (simp add: dec_string.simps)

lemma dec_string_zero: "dec_string 0 = ''0''"
  by code_simp

lemma dec_string_zero_prefix: "starts_with (dec_string n) ''0'' \<Longrightarrow> length (dec_string n) = 1"
proof (induction n rule: dec_string.induct)
  case (1 n)
  show ?case
  proof (cases "n < 10")
    case False
    then have e: "dec_string n = dec_string (n div 10) @ [digit_char (n mod 10)]"
      by (simp add: dec_string.simps [of n])
    then have z: "starts_with (dec_string (n div 10)) ''0''"
      using 1 (2) by (cases "dec_string (n div 10)") auto
    then have "length (dec_string (n div 10)) = 1" using 1 (1) False by blast
    then have "dec_string (n div 10) = dec_string 0"
      using z by (cases "dec_string (n div 10)") (auto simp: dec_string_zero)
    then show ?thesis using False by simp
  qed (simp add: dec_string.simps)
qed

lemma read_octet_display:
  "no_digit r \<Longrightarrow> read_number 10 256 3 False (dec_string (unat (o8 :: u8)) @ r) = Some (uint o8, r)"
proof -
  assume r: "no_digit r"
  have lt: "unat o8 < 256" using unsigned_less [of o8, where 'a = nat] by simp
  have ilt: "uint o8 < 256" using unsigned_less [of o8, where 'a = int] by simp
  have len: "length (dec_string (unat o8)) \<le> 3" using dec_string_octet_length [of "unat o8" 2] lt by simp
  have digits: "list_all is_digit_char (dec_string (unat o8))"
    by (auto simp: list_all_iff dest: dec_string_digits)
  have val: "foldl (\<lambda>v c. v * 10 + digit_val c) 0 (dec_string (unat o8)) = unat o8"
    using dec_value_dec_string [of "unat o8"] by (simp add: dec_value_def)
  have "starts_with (dec_string (unat o8) @ r) ''0'' \<Longrightarrow> starts_with (dec_string (unat o8)) ''0''"
    by (cases "dec_string (unat o8)") auto
  then have "starts_with (dec_string (unat o8) @ r) ''0'' \<Longrightarrow> length (dec_string (unat o8)) = 1"
    by (rule dec_string_zero_prefix)
  then show ?thesis
    using read_digits_decimal [OF digits, of 0 3 0 256 r] r len ilt val
    by (auto simp: read_number_def)
qed

lemma no_digit_dot [simp]: "no_digit []" "no_digit (CHR ''.'' # r)"
  by (simp_all add: no_digit_def is_digit_char_def)

text \<open>\<open>to_string\<close> followed by \<open>parse\<close> gives the address back.\<close>

lemma parse_ipv4_display: "parse_ip_addr (ipv4_display ip) = Some (V4 ip)"
proof (cases ip)
  case (Ipv4Addr a b c d)
  have "read_octets (Suc (Suc (Suc (Suc 0)))) 0 (ipv4_display ip) = Some ([a, b, c, d], [])"
    using read_octet_display [of "[]" d]
    by (simp add: Ipv4Addr read_separator_def read_given_char_def read_octet_display)
  then show ?thesis
    by (simp add: Ipv4Addr parse_ip_addr_def read_ip_addr_def read_ipv4_addr_def numeral_eq_Suc
        del: ipv4_display.simps read_octets.simps)
qed

lemma ipv4_display_chars: "c \<in> set (ipv4_display ip) \<Longrightarrow> is_digit_char c \<or> c = CHR ''.''"
  by (cases ip) (auto dest: dec_string_digits)

lemma ipv4_display_host: "to_lowercase (trim (ipv4_display ip)) = ipv4_display ip"
proof -
  have "\<not> is_whitespace c \<and> char_lower c = c" if "c \<in> set (ipv4_display ip)" for c
    using ipv4_display_chars [OF that] by (auto simp: is_whitespace_def is_digit_char_def char_lower_def)
  then show ?thesis
    by (simp add: trim_no_whitespace list_all_iff to_lowercase_def map_idI)
qed

text \<open>No address starts with a letter of \<^verbatim>\<open>localhost\<close> or with a bracket.\<close>

lemma ipv4_display_not_localhost:
  "ipv4_display ip \<noteq> ''localhost''" "ipv4_display ip \<noteq> ''localhost.localdomain''"
  using ipv4_display_chars [of "CHR ''l''" ip] by (auto simp: is_digit_char_def)

lemma parse_bracketed: "parse_ip_addr (CHR ''['' # s) = None"
proof -
  have n: "read_number 10 l m z (CHR ''['' # s) = None" "read_number 16 l m z (CHR ''['' # s) = None" for l m z
    by (simp_all add: read_number_def to_digit_def)
  have e: "(4::nat) = Suc 3" "(8::nat) = Suc 7" by simp_all
  have v4: "read_ipv4_addr (CHR ''['' # s) = None"
    unfolding read_ipv4_addr_def e(1) read_octets.simps by (simp add: read_separator_def n)
  then have "read_groups (Suc 7) 0 (CHR ''['' # s) = ([], False, CHR ''['' # s)"
    unfolding read_groups.simps by (simp add: read_separator_def n)
  then have "read_ipv6_addr (CHR ''['' # s) = None"
    unfolding read_ipv6_addr_def e(2) by (simp add: read_given_char_def del: read_groups.simps)
  then show ?thesis by (simp add: parse_ip_addr_def read_ip_addr_def v4)
qed

subsection \<open>The blocked ranges\<close>

fun ipv4_value :: "ipv4_addr \<Rightarrow> nat" where
  "ipv4_value (Ipv4Addr a b c d) = unat a * 2 ^ 24 + unat b * 2 ^ 16 + unat c * 2 ^ 8 + unat d"

text \<open>
  The networks the check refuses, as first and last address: 127/8, 10/8, 172.16/12, 192.168/16,
  169.254/16, 0.0.0.0, 255.255.255.255, 192.0.2/24, 198.51.100/24 and 203.0.113/24.
\<close>

definition blocked_networks :: "(nat \<times> nat) list" where
  "blocked_networks =
     [(0x7f000000, 0x7fffffff), (0x0a000000, 0x0affffff), (0xac100000, 0xac1fffff),
      (0xc0a80000, 0xc0a8ffff), (0xa9fe0000, 0xa9feffff), (0, 0), (0xffffffff, 0xffffffff),
      (0xc0000200, 0xc00002ff), (0xc6336400, 0xc63364ff), (0xcb007100, 0xcb0071ff)]"

definition in_networks :: "(nat \<times> nat) list \<Rightarrow> nat \<Rightarrow> bool" where
  "in_networks ns v = list_ex (\<lambda>(lo, hi). lo \<le> v \<and> v \<le> hi) ns"

lemma network_8:
  fixes x y z w k :: nat
  assumes "y < 256" "z < 256" "w < 256"
  shows "k * 16777216 \<le> x * 16777216 + y * 65536 + z * 256 + w
           \<and> x * 16777216 + y * 65536 + z * 256 + w \<le> k * 16777216 + 16777215 \<longleftrightarrow> x = k"
  using assms by linarith

lemma network_16:
  fixes x y z w k lo hi :: nat
  assumes lt: "y < 256" "z < 256" "w < 256" and "hi < 256"
  shows "k * 16777216 + lo * 65536 \<le> x * 16777216 + y * 65536 + z * 256 + w
           \<and> x * 16777216 + y * 65536 + z * 256 + w \<le> k * 16777216 + hi * 65536 + 65535
         \<longleftrightarrow> x = k \<and> lo \<le> y \<and> y \<le> hi" (is "?in \<longleftrightarrow> _")
proof
  assume a: ?in
  then have "x = k" using network_8 [OF lt, of k x] assms(4) by linarith
  then show "x = k \<and> lo \<le> y \<and> y \<le> hi" using a lt by simp
qed (use lt in simp)

lemma network_24:
  fixes x y z w j k l :: nat
  assumes lt: "y < 256" "z < 256" "w < 256" and "j < 256" "l < 256"
  shows "k * 16777216 + j * 65536 + l * 256 \<le> x * 16777216 + y * 65536 + z * 256 + w
           \<and> x * 16777216 + y * 65536 + z * 256 + w \<le> k * 16777216 + j * 65536 + l * 256 + 255
         \<longleftrightarrow> x = k \<and> y = j \<and> z = l" (is "?in \<longleftrightarrow> _")
proof
  assume a: ?in
  then have "x = k \<and> j \<le> y \<and> y \<le> j" using network_16 [OF lt assms(4), of k j x] assms(5) by linarith
  then have e: "x = k" "y = j" by simp_all
  moreover have "z = l" using a lt unfolding e by linarith
  ultimately show "x = k \<and> y = j \<and> z = l" by simp
qed (use lt in simp)

lemma ipv4_blocked_networks: "ipv4_blocked ip \<longleftrightarrow> in_networks blocked_networks (ipv4_value ip)"
proof (cases ip)
  case (Ipv4Addr a b c d)
  have eq: "(o8 = w) = (unat o8 = unat w)" for o8 w :: u8
    by (simp add: word_unat_eq_iff)
  have bnd: "unat o8 < 256" for o8 :: u8
    using unsigned_less [of o8, where 'a = nat] by simp
  obtain x y z w where n: "unat a = x" "unat b = y" "unat c = z" "unat d = w" by blast
  have lt: "x < 256" "y < 256" "z < 256" "w < 256" using bnd n by auto
  have "ipv4_blocked ip \<longleftrightarrow>
      x = 127 \<or> x = 10 \<or> (x = 172 \<and> 16 \<le> y \<and> y \<le> 31) \<or> (x = 192 \<and> y = 168) \<or> (x = 169 \<and> y = 254)
      \<or> (x = 0 \<and> y = 0 \<and> z = 0 \<and> w = 0) \<or> (x = 255 \<and> y = 255 \<and> z = 255 \<and> w = 255)
      \<or> (x = 192 \<and> y = 0 \<and> z = 2) \<or> (x = 198 \<and> y = 51 \<and> z = 100) \<or> (x = 203 \<and> y = 0 \<and> z = 113)"
    unfolding ipv4_blocked_def Ipv4Addr by (simp add: eq word_le_nat_alt n)
  moreover have "ipv4_value ip = x * 16777216 + y * 65536 + z * 256 + w"
    by (simp add: Ipv4Addr n)
  moreover define v where "v = x * 16777216 + y * 65536 + z * 256 + w"
  moreover have "0x7f000000 \<le> v \<and> v \<le> 0x7fffffff \<longleftrightarrow> x = 127"
    "0x0a000000 \<le> v \<and> v \<le> 0x0affffff \<longleftrightarrow> x = 10"
    using network_8 [OF lt(2-), of 127 x] network_8 [OF lt(2-), of 10 x] unfolding v_def by simp_all
  moreover have y: "168 \<le> y \<and> y \<le> 168 \<longleftrightarrow> y = 168" "254 \<le> y \<and> y \<le> 254 \<longleftrightarrow> y = 254"
    by auto
  moreover have "0xac100000 \<le> v \<and> v \<le> 0xac1fffff \<longleftrightarrow> x = 172 \<and> 16 \<le> y \<and> y \<le> 31"
    "0xc0a80000 \<le> v \<and> v \<le> 0xc0a8ffff \<longleftrightarrow> x = 192 \<and> y = 168"
    "0xa9fe0000 \<le> v \<and> v \<le> 0xa9feffff \<longleftrightarrow> x = 169 \<and> y = 254"
    using network_16 [OF lt(2-), of 31 172 16 x] network_16 [OF lt(2-), of 168 192 168 x]
      network_16 [OF lt(2-), of 254 169 254 x] unfolding v_def y by simp_all
  moreover have "0xc0000200 \<le> v \<and> v \<le> 0xc00002ff \<longleftrightarrow> x = 192 \<and> y = 0 \<and> z = 2"
    "0xc6336400 \<le> v \<and> v \<le> 0xc63364ff \<longleftrightarrow> x = 198 \<and> y = 51 \<and> z = 100"
    "0xcb007100 \<le> v \<and> v \<le> 0xcb0071ff \<longleftrightarrow> x = 203 \<and> y = 0 \<and> z = 113"
    using network_24 [OF lt(2-), of 0 2 192 x] network_24 [OF lt(2-), of 51 100 198 x]
      network_24 [OF lt(2-), of 0 113 203 x] unfolding v_def by simp_all
  moreover have "0 \<le> v \<and> v \<le> 0 \<longleftrightarrow> x = 0 \<and> y = 0 \<and> z = 0 \<and> w = 0"
    unfolding v_def by simp
  moreover have "0xffffffff \<le> v \<and> v \<le> 0xffffffff \<longleftrightarrow> x = 255 \<and> y = 255 \<and> z = 255 \<and> w = 255"
    using network_24 [OF lt(2-), of 255 255 255 x] lt unfolding v_def by auto
  ultimately show ?thesis
    by (simp only: in_networks_def blocked_networks_def list_ex_iff list.set bex_simps prod.case simp_thms)
qed

subsection \<open>What an accepted URL is\<close>

lemma validate_url_accepts:
  "validate_browser_target_url url_parse url = Inr () \<longleftrightarrow>
     (\<exists>parsed host. url_parse url = Some parsed \<and> url_scheme parsed \<in> {''http'', ''https''}
        \<and> url_host_str parsed = Some host
        \<and> to_lowercase (trim host) \<notin> {''localhost'', ''localhost.localdomain''}
        \<and> (case parse_ip_addr (to_lowercase (trim host)) of
             Some (V4 ip) \<Rightarrow> \<not> ipv4_blocked ip
           | Some (V6 ip) \<Rightarrow> \<not> ipv6_blocked ip
           | None \<Rightarrow> True))"
  by (auto simp: validate_browser_target_url_def Let_def split: option.splits ip_addr.splits)


text \<open>A URL parser for the evaluations: the text after the scheme is the host.\<close>

definition example_url_parse :: "string \<Rightarrow> parsed_url option" where
  "example_url_parse s =
     (if starts_with s ''http://'' then Some \<lparr>url_scheme = ''http'', url_host_str = Some (drop 7 s)\<rparr>
      else None)"


text \<open>
  The \<^verbatim>\<open>url\<close> package prints an IPv6 host between brackets, so the address parser refuses it and no
  IPv6 address is ever checked: with a bracketed host the verdict is acceptance.
\<close>

lemma bracketed_host_accepted:
  assumes "url_parse url = Some parsed" and "url_scheme parsed \<in> {''http'', ''https''}"
    and "url_host_str parsed = Some (CHR ''['' # h @ '']'')"
  shows "validate_browser_target_url url_parse url = Inr ()"
proof -
  have "dropWhile is_whitespace (CHR ''['' # h @ '']'') = CHR ''['' # h @ '']''"
    by (simp add: is_whitespace_def)
  then have "trim (CHR ''['' # h @ '']'') = CHR ''['' # h @ '']''"
    by (simp add: trim_def is_whitespace_def)
  moreover have "char_lower (CHR ''['') = CHR ''[''" by (simp add: char_lower_def)
  ultimately have "\<exists>t. to_lowercase (trim (CHR ''['' # h @ '']'')) = CHR ''['' # t"
    by (simp add: to_lowercase_def)
  then show ?thesis using assms by (auto simp: validate_url_accepts parse_bracketed)
qed

lemma bracketed_loopback_accepted:
  "parse_ip_addr ''::1'' = Some (V6 (Ipv6Addr [0, 0, 0, 0, 0, 0, 0, 1]))"
  "ipv6_blocked (Ipv6Addr [0, 0, 0, 0, 0, 0, 0, 1])"
  "validate_browser_target_url example_url_parse ''http://[::1]'' = Inr ()"
  by code_simp+

end
