(* ===== verification/Planner.thy ===== *)
theory Planner
  imports Node_Manager Url_Guard
begin

section \<open>The command planner (\<^verbatim>\<open>uhorse-hub/src/web/mod.rs\<close>)\<close>

text \<open>
  How the Hub turns the answer of a language model into the next step of a conversation: the first
  JSON object of the answer is extracted, decoded as a decision or (after normalisation of two
  older shapes) as a planned command, and every planned command is validated against the workspace
  it names before it is used. The model has the extraction, the normalisation, the validation of
  file, shell and browser commands, and the decision procedure with its fallbacks. What the packages
  decode is a parameter (\<open>planner_env\<close>): \<^verbatim>\<open>serde_json\<close> for the three target types, the URL parser,
  and the answer of the language model to a prompt. A text is its UTF-8 bytes.
\<close>

subsection \<open>Decisions and steps\<close>

record planned_ding_talk_command =
  pl_command :: command
  pl_workspace_path :: "string option"

datatype agent_decision =
    DirectReply string
  | ExecuteCommand command "string option"
  | DecideExecuteSkill string string
  | DecideListInstalledSkills
  | DecideQuerySkill string
  | DecideInstallSkill string

datatype planned_turn_step =
    Finalize string
  | SubmitTask command "string option"
  | ExecuteSkill string string
  | ListInstalledSkills
  | QuerySkill string
  | InstallSkill string

datatype planner_error =
    CommandNotAllowed
  | PathOutsideWorkspace
  | PathNotRelative
  | PathNotAllowed
  | GitForbidden string
  | BadUrl url_error
  | InvalidJson
  | UnrecognizedCommand
  | LlmNotConfigured
  | LlmFailed
  | AgentNotFound

text \<open>The prompts of the planner, by what their messages are built from.\<close>

datatype prompt =
    PlanPrompt string string "string list"
  | DecidePrompt string "string list" "string option"

record planner_env =
  pe_fs :: filesystem
  pe_url_parse :: "string \<Rightarrow> parsed_url option"
  pe_value_from_str :: "string \<Rightarrow> json option"
  pe_decision_from_str :: "string \<Rightarrow> agent_decision option"
  pe_planned_from_value :: "json \<Rightarrow> planned_ding_talk_command option"
  pe_llm :: "(prompt \<Rightarrow> string option) option"

definition utf8 :: "nat list \<Rightarrow> string" where
  "utf8 bytes = map char_of bytes"

fun planned_step_from_agent_decision :: "agent_decision \<Rightarrow> planned_turn_step" where
  "planned_step_from_agent_decision (DirectReply text) = Finalize text"
| "planned_step_from_agent_decision (ExecuteCommand command workspace_path) =
     SubmitTask command workspace_path"
| "planned_step_from_agent_decision (DecideExecuteSkill skill_name input) = ExecuteSkill skill_name input"
| "planned_step_from_agent_decision DecideListInstalledSkills = ListInstalledSkills"
| "planned_step_from_agent_decision (DecideQuerySkill skill_name) = QuerySkill skill_name"
| "planned_step_from_agent_decision (DecideInstallSkill query) = InstallSkill query"

subsection \<open>Workspaces of the online nodes\<close>

text \<open>
  Roots are compared as paths and kept as the text of the first node that has them.
\<close>

fun collect_roots :: "path list \<Rightarrow> node_info list \<Rightarrow> string list" where
  "collect_roots seen [] = []"
| "collect_roots seen (node # nodes) =
     (let root = wi_path (ni_workspace node); normalized = path_of_string root
      in if normalized \<in> set seen then collect_roots seen nodes
         else root # collect_roots (normalized # seen) nodes)"

definition collect_online_workspace_roots :: "node_info list \<Rightarrow> string list" where
  "collect_online_workspace_roots nodes = sort (collect_roots [] nodes)"

definition resolve_default_workspace_root :: "string list \<Rightarrow> string option" where
  "resolve_default_workspace_root online_workspace_roots =
     (if length online_workspace_roots = 1 then Some (hd online_workspace_roots) else None)"

subsection \<open>The first JSON object of a text\<close>

text \<open>
  The scan from the first brace: \<open>depth\<close>, \<open>in_string\<close> and \<open>escape\<close> are the loop's variables and
  \<open>acc\<close> the characters passed so far. Every character the loop looks for is ASCII, so the scan of
  bytes and the scan of characters agree.
\<close>

fun scan_json_object :: "nat \<Rightarrow> bool \<Rightarrow> bool \<Rightarrow> string \<Rightarrow> string \<Rightarrow> string option" where
  "scan_json_object depth in_string escape acc [] = None"
| "scan_json_object depth in_string escape acc (ch # rest) =
     (if in_string then
        (if escape then scan_json_object depth True False (acc @ [ch]) rest
         else if ch = CHR 0x5C then scan_json_object depth True True (acc @ [ch]) rest
         else if ch = CHR 0x22 then scan_json_object depth False escape (acc @ [ch]) rest
         else scan_json_object depth True escape (acc @ [ch]) rest)
      else if ch = CHR 0x22 then scan_json_object depth True escape (acc @ [ch]) rest
      else if ch = CHR ''{'' then scan_json_object (depth + 1) False escape (acc @ [ch]) rest
      else if ch = CHR ''}'' then
        (if depth = 0 then None
         else if depth - 1 = 0 then Some (acc @ [ch])
         else scan_json_object (depth - 1) False escape (acc @ [ch]) rest)
      else scan_json_object depth False escape (acc @ [ch]) rest)"

definition extract_first_json_object :: "string \<Rightarrow> string option" where
  "extract_first_json_object input =
     (if CHR ''{'' \<in> set input
      then scan_json_object 0 False False [] (dropWhile (\<lambda>ch. ch \<noteq> CHR ''{'') input)
      else None)"

subsection \<open>Normalisation of a command payload\<close>

text \<open>\<^verbatim>\<open>Map::insert\<close> and \<^verbatim>\<open>Map::remove\<close> on an object kept in key order.\<close>

fun obj_insert :: "string \<Rightarrow> json \<Rightarrow> (string \<times> json) list \<Rightarrow> (string \<times> json) list" where
  "obj_insert k v [] = [(k, v)]"
| "obj_insert k v ((k', v') # fs) =
     (if k = k' then (k, v) # fs
      else if k < k' then (k, v) # (k', v') # fs
      else (k', v') # obj_insert k v fs)"

definition obj_remove :: "string \<Rightarrow> (string \<times> json) list \<Rightarrow> (string \<times> json) list" where
  "obj_remove k fs = filter (\<lambda>(k', _). k' \<noteq> k) fs"

fun json_as_str :: "json \<Rightarrow> string option" where
  "json_as_str (JString s) = Some s"
| "json_as_str _ = None"

fun json_as_array :: "json \<Rightarrow> json list option" where
  "json_as_array (JArray vs) = Some vs"
| "json_as_array _ = None"

definition json_str_field :: "json \<Rightarrow> string \<Rightarrow> string option" where
  "json_str_field v k = Option.bind (json_get v k) json_as_str"

fun normalize_action_tagged_execute_command_payload :: "json \<Rightarrow> json" where
  "normalize_action_tagged_execute_command_payload (JObject normalized) =
     (if map_of normalized ''type'' \<noteq> None then JObject normalized
      else if json_str_field (JObject normalized) ''action'' \<noteq> Some ''execute_command''
      then JObject normalized
      else JObject (obj_insert ''type'' (JString ''execute_command'') normalized))"
| "normalize_action_tagged_execute_command_payload other = other"

definition copy_action_fields :: "(string \<times> json) list \<Rightarrow> (string \<times> json) list \<Rightarrow> (string \<times> json) list" where
  "copy_action_fields action_fields command_map =
     foldl (\<lambda>m (key, field_value). if key \<noteq> ''type'' then obj_insert key field_value m else m)
       command_map action_fields"

definition legacy_action :: "json \<Rightarrow> (json \<times> string) option" where
  "legacy_action command =
     (case Option.bind (json_get command ''actions'') json_as_array of
        Some (first_action # _) \<Rightarrow>
          map_option (Pair first_action) (json_str_field first_action ''type'')
      | _ \<Rightarrow> None)"

definition normalize_legacy_browser_actions_payload :: "json \<Rightarrow> json" where
  "normalize_legacy_browser_actions_payload value =
     (case json_get value ''command'' of
        None \<Rightarrow> value
      | Some command \<Rightarrow>
          if json_str_field command ''type'' \<noteq> Some ''browser'' then value
          else if json_get command ''action'' \<noteq> None then value
          else (case legacy_action command of
                  None \<Rightarrow> value
                | Some (first_action, action_name) \<Rightarrow>
                    (case (value, command) of
                       (JObject normalized, JObject command_map) \<Rightarrow>
                         (let command_map = obj_insert ''action'' (JString action_name)
                                              (obj_remove ''actions'' command_map);
                              command_map = (case first_action of
                                               JObject action_fields \<Rightarrow>
                                                 copy_action_fields action_fields command_map
                                             | _ \<Rightarrow> command_map)
                          in JObject (obj_insert ''command'' (JObject command_map)
                               (obj_remove ''command'' normalized)))
                     | (JObject normalized, _) \<Rightarrow> JObject (obj_remove ''command'' normalized)
                     | (other, _) \<Rightarrow> other)))"

definition normalize_planned_command_payload :: "json \<Rightarrow> json" where
  "normalize_planned_command_payload value =
     normalize_legacy_browser_actions_payload (normalize_action_tagged_execute_command_payload value)"

subsection \<open>Validation of a planned command\<close>

fun normal_components :: "path \<Rightarrow> path \<Rightarrow> planner_error + path" where
  "normal_components normalized [] = Inr normalized"
| "normal_components normalized (CurDir # cs) = normal_components normalized cs"
| "normal_components normalized (NormalComp part # cs) = normal_components (normalized @ [NormalComp part]) cs"
| "normal_components normalized (ParentDir # cs) = Inl PathNotAllowed"
| "normal_components normalized (RootDir # cs) = Inl PathNotAllowed"

definition normalize_relative_path :: "string \<Rightarrow> planner_error + string" where
  "normalize_relative_path value =
     (let p = path_of_string value
      in if is_absolute p then Inl PathNotRelative
         else (case normal_components [] p of
                 Inl err \<Rightarrow> Inl err
               | Inr normalized \<Rightarrow>
                   Inr (if normalized = [] then ''.'' else path_to_string normalized)))"

definition ensure_workspace_path :: "filesystem \<Rightarrow> string \<Rightarrow> string \<Rightarrow> planner_error + unit" where
  "ensure_workspace_path fs value workspace_root =
     (if is_absolute (path_of_string value)
      then (if workspace_matches_hint fs value workspace_root then Inr () else Inl PathOutsideWorkspace)
      else (case normalize_relative_path value of Inl err \<Rightarrow> Inl err | Inr _ \<Rightarrow> Inr ()))"

fun ensure_workspace_paths :: "filesystem \<Rightarrow> string list \<Rightarrow> string \<Rightarrow> planner_error + unit" where
  "ensure_workspace_paths fs [] workspace_root = Inr ()"
| "ensure_workspace_paths fs (value # values) workspace_root =
     (case ensure_workspace_path fs value workspace_root of
        Inl err \<Rightarrow> Inl err
      | Inr _ \<Rightarrow> ensure_workspace_paths fs values workspace_root)"

fun validated_paths :: "file_command \<Rightarrow> string list" where
  "validated_paths (Read path _ _) = [path]"
| "validated_paths (Write path _ _) = [path]"
| "validated_paths (Append path _) = [path]"
| "validated_paths (Delete path _) = [path]"
| "validated_paths (ListDir path _ _) = [path]"
| "validated_paths (Search _ path _ _) = [path]"
| "validated_paths (Info path) = [path]"
| "validated_paths (CreateDir path _) = [path]"
| "validated_paths (Exists path) = [path]"
| "validated_paths (Copy src dest _) = [src, dest]"
| "validated_paths (Move src dest _) = [src, dest]"

definition validate_file_command :: "filesystem \<Rightarrow> file_command \<Rightarrow> string \<Rightarrow> planner_error + unit" where
  "validate_file_command fs command workspace_root =
     ensure_workspace_paths fs (validated_paths command) workspace_root"

definition forbidden_git_patterns :: "string list" where
  "forbidden_git_patterns =
     [''git reset --hard'', ''git clean -fd'', ''git clean -f -d'', ''git checkout --'',
      ''git restore --source'', ''git push --force'', ''git push -f'']"

definition command_text :: "shell_command \<Rightarrow> string" where
  "command_text command = to_lowercase (join_with '' '' (sh_command command # sh_args command))"

definition validate_shell_command :: "filesystem \<Rightarrow> shell_command \<Rightarrow> string \<Rightarrow> planner_error + unit" where
  "validate_shell_command fs command workspace_root =
     (case (case sh_cwd command of
              None \<Rightarrow> Inr ()
            | Some cwd \<Rightarrow> ensure_workspace_path fs cwd workspace_root) of
        Inl err \<Rightarrow> Inl err
      | Inr _ \<Rightarrow>
          (case find (str_contains (command_text command)) forbidden_git_patterns of
             Some pattern \<Rightarrow> Inl (GitForbidden pattern)
           | None \<Rightarrow> Inr ()))"

fun validate_browser_command ::
  "(string \<Rightarrow> parsed_url option) \<Rightarrow> browser_command \<Rightarrow> url_error + unit" where
  "validate_browser_command url_parse (OpenSystem url) = validate_browser_target_url url_parse url"
| "validate_browser_command url_parse (Navigate url) = validate_browser_target_url url_parse url"
| "validate_browser_command url_parse _ = Inr ()"

fun validate_planned_command :: "planner_env \<Rightarrow> command \<Rightarrow> string \<Rightarrow> planner_error + unit" where
  "validate_planned_command e (File file_command) workspace_root =
     validate_file_command (pe_fs e) file_command workspace_root"
| "validate_planned_command e (Shell shell_command) workspace_root =
     validate_shell_command (pe_fs e) shell_command workspace_root"
| "validate_planned_command e (Browser browser_command) workspace_root =
     (case validate_browser_command (pe_url_parse e) browser_command of
        Inl err \<Rightarrow> Inl (BadUrl err)
      | Inr _ \<Rightarrow> Inr ())"
| "validate_planned_command e _ workspace_root = Inl CommandNotAllowed"

definition parse_planned_command ::
  "planner_env \<Rightarrow> string \<Rightarrow> string \<Rightarrow> planner_error + planned_ding_talk_command" where
  "parse_planned_command e response workspace_root =
     (case pe_value_from_str e response of
        None \<Rightarrow> Inl InvalidJson
      | Some value \<Rightarrow>
          (case pe_planned_from_value e (normalize_planned_command_payload value) of
             None \<Rightarrow> Inl UnrecognizedCommand
           | Some planned0 \<Rightarrow>
               (let planned = (if pl_workspace_path planned0 = None
                               then planned0\<lparr>pl_workspace_path := Some workspace_root\<rparr> else planned0);
                    effective_workspace = (case pl_workspace_path planned of
                                             Some w \<Rightarrow> w | None \<Rightarrow> workspace_root)
                in case validate_planned_command e (pl_command planned) effective_workspace of
                     Inl err \<Rightarrow> Inl err
                   | Inr _ \<Rightarrow> Inr planned)))"

subsection \<open>Forced planning\<close>

text \<open>
  The keywords that ask for live data: weather, temperature, rain, forecast, real-time, latest,
  exchange rate, share price, news, trending, flight, ticket, train, rail ticket, high-speed rail,
  traffic, map, navigation, search, look up, query, in Chinese and in English.
\<close>

definition planning_keywords :: "string list" where
  "planning_keywords =
     [utf8 [0xE5, 0xA4, 0xA9, 0xE6, 0xB0, 0x94], utf8 [0xE6, 0xB0, 0x94, 0xE6, 0xB8, 0xA9],
      utf8 [0xE6, 0xB8, 0xA9, 0xE5, 0xBA, 0xA6], utf8 [0xE9, 0x99, 0x8D, 0xE9, 0x9B, 0xA8],
      utf8 [0xE4, 0xB8, 0x8B, 0xE9, 0x9B, 0xA8], utf8 [0xE9, 0xA2, 0x84, 0xE6, 0x8A, 0xA5],
      utf8 [0xE5, 0xAE, 0x9E, 0xE6, 0x97, 0xB6], utf8 [0xE6, 0x9C, 0x80, 0xE6, 0x96, 0xB0],
      utf8 [0xE6, 0xB1, 0x87, 0xE7, 0x8E, 0x87], utf8 [0xE8, 0x82, 0xA1, 0xE4, 0xBB, 0xB7],
      utf8 [0xE6, 0x96, 0xB0, 0xE9, 0x97, 0xBB], utf8 [0xE7, 0x83, 0xAD, 0xE6, 0x90, 0x9C],
      utf8 [0xE8, 0x88, 0xAA, 0xE7, 0x8F, 0xAD], utf8 [0xE6, 0x9C, 0xBA, 0xE7, 0xA5, 0xA8],
      utf8 [0xE5, 0x88, 0x97, 0xE8, 0xBD, 0xA6], utf8 [0xE7, 0x81, 0xAB, 0xE8, 0xBD, 0xA6, 0xE7, 0xA5, 0xA8],
      utf8 [0xE9, 0xAB, 0x98, 0xE9, 0x93, 0x81], utf8 [0xE8, 0xB7, 0xAF, 0xE5, 0x86, 0xB5],
      utf8 [0xE5, 0x9C, 0xB0, 0xE5, 0x9B, 0xBE], utf8 [0xE5, 0xAF, 0xBC, 0xE8, 0x88, 0xAA],
      utf8 [0xE6, 0x90, 0x9C, 0xE4, 0xB8, 0x80, 0xE4, 0xB8, 0x8B], utf8 [0xE6, 0x9F, 0xA5, 0xE4, 0xB8, 0x80, 0xE4, 0xB8, 0x8B],
      utf8 [0xE6, 0x9F, 0xA5, 0xE8, 0xAF, 0xA2], utf8 [0xE5, 0xB8, 0xAE, 0xE6, 0x88, 0x91, 0xE6, 0x9F, 0xA5],
      utf8 [0xE8, 0xAF, 0xB7, 0xE6, 0x9F, 0xA5],
      ''what'' @ [CHR 0x27] @ ''s the weather'', ''weather'', ''temperature'', ''forecast'', ''real-time'', ''realtime'',
      ''live'', ''news'', ''stock price'', ''exchange rate'', ''flight'',
      ''train'', ''traffic'', ''map'', ''navigate'']"

definition should_force_dingtalk_command_planning :: "string \<Rightarrow> bool" where
  "should_force_dingtalk_command_planning text =
     (let trimmed = trim text
      in if trimmed = [] then False
         else let lower = to_lowercase trimmed
              in list_ex (\<lambda>keyword. str_contains trimmed keyword
                            \<or> str_contains lower (to_lowercase keyword)) planning_keywords)"

text \<open>That no node is online and the query cannot run; and that the request was not understood.\<close>

definition node_offline_reply :: string where
  "node_offline_reply = utf8
     [0xE5, 0xBD, 0x93, 0xE5, 0x89, 0x8D, 0x20, 0x4E, 0x6F, 0x64, 0x65, 0x20, 0x44, 0x65,
      0x73, 0x6B, 0x74, 0x6F, 0x70, 0x20, 0xE4, 0xB8, 0x8D, 0xE5, 0x9C, 0xA8, 0xE7,
      0xBA, 0xBF, 0xEF, 0xBC, 0x8C, 0xE6, 0x9A, 0x82, 0xE6, 0x97, 0xB6, 0xE6, 0x97,
      0xA0, 0xE6, 0xB3, 0x95, 0xE6, 0x89, 0xA7, 0xE8, 0xA1, 0x8C, 0xE5, 0xAE, 0x9E,
      0xE6, 0x97, 0xB6, 0xE6, 0x9F, 0xA5, 0xE8, 0xAF, 0xA2, 0xE3, 0x80, 0x82, 0xE8,
      0xAF, 0xB7, 0xE5, 0x85, 0x88, 0xE5, 0x90, 0xAF, 0xE5, 0x8A, 0xA8, 0x20, 0x4E,
      0x6F, 0x64, 0x65, 0x20, 0x44, 0x65, 0x73, 0x6B, 0x74, 0x6F, 0x70, 0xEF, 0xBC,
      0x8C, 0xE5, 0x90, 0xAF, 0xE5, 0x8A, 0xA8, 0xE5, 0x90, 0x8E, 0xE6, 0x88, 0x91,
      0xE5, 0xB0, 0xB1, 0xE5, 0x8F, 0xAF, 0xE4, 0xBB, 0xA5, 0xE7, 0xBB, 0xA7, 0xE7,
      0xBB, 0xAD, 0xE5, 0xB8, 0xAE, 0xE4, 0xBD, 0xA0, 0xE6, 0x9F, 0xA5, 0xE8, 0xAF,
      0xA2, 0xE3, 0x80, 0x82]"

definition misunderstood_reply :: string where
  "misunderstood_reply = utf8
     [0xE6, 0x88, 0x91, 0xE6, 0xB2, 0xA1, 0xE6, 0x9C, 0x89, 0xE6, 0xAD, 0xA3, 0xE7, 0xA1,
      0xAE, 0xE7, 0x90, 0x86, 0xE8, 0xA7, 0xA3, 0xE4, 0xBD, 0xA0, 0xE7, 0x9A, 0x84,
      0xE6, 0x84, 0x8F, 0xE6, 0x80, 0x9D, 0xE3, 0x80, 0x82, 0xE8, 0xAF, 0xB7, 0xE7,
      0x9B, 0xB4, 0xE6, 0x8E, 0xA5, 0xE5, 0x91, 0x8A, 0xE8, 0xAF, 0x89, 0xE6, 0x88,
      0x91, 0xE4, 0xBD, 0xA0, 0xE5, 0xB8, 0x8C, 0xE6, 0x9C, 0x9B, 0xE6, 0x88, 0x91,
      0xE6, 0x80, 0x8E, 0xE4, 0xB9, 0x88, 0xE5, 0xA4, 0x84, 0xE7, 0x90, 0x86, 0xE5,
      0x88, 0x9A, 0xE5, 0x88, 0x9A, 0xE4, 0xB8, 0x8A, 0xE4, 0xBC, 0xA0, 0xE7, 0x9A,
      0x84, 0xE9, 0x99, 0x84, 0xE4, 0xBB, 0xB6, 0xEF, 0xBC, 0x8C, 0xE4, 0xBE, 0x8B,
      0xE5, 0xA6, 0x82, 0xEF, 0xBC, 0x9A, 0xE5, 0xB8, 0xAE, 0xE6, 0x88, 0x91, 0xE5,
      0xAE, 0x89, 0xE8, 0xA3, 0x85, 0xE8, 0xBF, 0x99, 0xE4, 0xB8, 0xAA, 0xE6, 0x8A,
      0x80, 0xE8, 0x83, 0xBD, 0xE3, 0x80, 0x82]"

definition direct_reply_for_forced_planning_without_workspace :: "string \<Rightarrow> string option" where
  "direct_reply_for_forced_planning_without_workspace text =
     (if \<not> should_force_dingtalk_command_planning text then None else Some node_offline_reply)"

subsection \<open>From an answer to a decision\<close>

definition plan_dingtalk_command ::
  "planner_env \<Rightarrow> string \<Rightarrow> string \<Rightarrow> string list \<Rightarrow> planner_error + agent_decision" where
  "plan_dingtalk_command e text workspace_root online_workspace_roots =
     (case pe_llm e of
        None \<Rightarrow> Inl LlmNotConfigured
      | Some chat_completion \<Rightarrow>
          (case chat_completion (PlanPrompt text workspace_root online_workspace_roots) of
             None \<Rightarrow> Inl LlmFailed
           | Some response \<Rightarrow>
               (case parse_planned_command e response workspace_root of
                  Inl err \<Rightarrow> Inl err
                | Inr planned \<Rightarrow>
                    Inr (ExecuteCommand (pl_command planned) (pl_workspace_path planned)))))"

text \<open>The match on a decoded decision.\<close>

fun accept_decision ::
  "planner_env \<Rightarrow> string \<Rightarrow> string \<Rightarrow> string list \<Rightarrow> string option \<Rightarrow> agent_decision \<Rightarrow>
   planner_error + agent_decision" where
  "accept_decision e response text roots default_workspace_root (ExecuteCommand command workspace_path) =
     (let workspace_path = (case workspace_path of Some w \<Rightarrow> Some w | None \<Rightarrow> default_workspace_root)
      in case workspace_path of
           None \<Rightarrow> Inr (ExecuteCommand command None)
         | Some w \<Rightarrow>
             (case validate_planned_command e command w of
                Inl err \<Rightarrow> Inl err
              | Inr _ \<Rightarrow> Inr (ExecuteCommand command (Some w))))"
| "accept_decision e response text roots default_workspace_root (DirectReply reply) =
     (if should_force_dingtalk_command_planning text
      then (case default_workspace_root of
              Some base_root \<Rightarrow> plan_dingtalk_command e text base_root roots
            | None \<Rightarrow>
                Inr (DirectReply
                  (case direct_reply_for_forced_planning_without_workspace text of
                     Some r \<Rightarrow> r | None \<Rightarrow> trim response)))
      else Inr (DirectReply reply))"
| "accept_decision e response text roots default_workspace_root other = Inr other"

text \<open>\<open>parse_planned_command\<close> under the default root, where a failure is passed over.\<close>

definition planned_under_default ::
  "planner_env \<Rightarrow> string \<Rightarrow> string option \<Rightarrow> planned_ding_talk_command option" where
  "planned_under_default e payload default_workspace_root =
     (case default_workspace_root of
        None \<Rightarrow> None
      | Some base_root \<Rightarrow>
          (case parse_planned_command e payload base_root of Inl _ \<Rightarrow> None | Inr planned \<Rightarrow> Some planned))"

definition decide_without_json ::
  "planner_env \<Rightarrow> string \<Rightarrow> string \<Rightarrow> string list \<Rightarrow> string option \<Rightarrow> planner_error + agent_decision" where
  "decide_without_json e trimmed text roots default_workspace_root =
     (if trimmed \<noteq> [] then
        (case planned_under_default e trimmed default_workspace_root of
           Some planned \<Rightarrow> Inr (ExecuteCommand (pl_command planned) (pl_workspace_path planned))
         | None \<Rightarrow>
             if should_force_dingtalk_command_planning text
             then (case default_workspace_root of
                     Some base_root \<Rightarrow> plan_dingtalk_command e text base_root roots
                   | None \<Rightarrow>
                       Inr (DirectReply
                         (case direct_reply_for_forced_planning_without_workspace text of
                            Some r \<Rightarrow> r | None \<Rightarrow> trimmed)))
             else if starts_with trimmed ''{'' then Inr (DirectReply misunderstood_reply)
             else Inr (DirectReply trimmed))
      else (case default_workspace_root of
              None \<Rightarrow> Inr (DirectReply trimmed)
            | Some base_root \<Rightarrow> plan_dingtalk_command e text base_root roots))"

definition parse_agent_decision ::
  "planner_env \<Rightarrow> string \<Rightarrow> string \<Rightarrow> string list \<Rightarrow> string option \<Rightarrow> planner_error + agent_decision" where
  "parse_agent_decision e response text roots default_workspace_root =
     (let trimmed = trim response
      in case extract_first_json_object trimmed of
           None \<Rightarrow> decide_without_json e trimmed text roots default_workspace_root
         | Some json_payload \<Rightarrow>
             (case pe_decision_from_str e json_payload of
                Some decision \<Rightarrow> accept_decision e response text roots default_workspace_root decision
              | None \<Rightarrow>
                  (case planned_under_default e json_payload default_workspace_root of
                     Some planned \<Rightarrow>
                       Inr (ExecuteCommand (pl_command planned) (pl_workspace_path planned))
                   | None \<Rightarrow> decide_without_json e trimmed text roots default_workspace_root)))"

text \<open>
  \<open>agent_known\<close> is the outcome of the lookup of the agent in the catalogue, \<open>nodes\<close> the online
  nodes.
\<close>

definition decide_dingtalk_action ::
  "planner_env \<Rightarrow> bool \<Rightarrow> node_info list \<Rightarrow> string \<Rightarrow> planner_error + agent_decision" where
  "decide_dingtalk_action e agent_known nodes text =
     (case pe_llm e of
        None \<Rightarrow> Inl LlmNotConfigured
      | Some chat_completion \<Rightarrow>
          if \<not> agent_known then Inl AgentNotFound
          else let roots = collect_online_workspace_roots nodes;
                   default_root = resolve_default_workspace_root roots
               in case chat_completion (DecidePrompt text roots default_root) of
                    None \<Rightarrow> Inl LlmFailed
                  | Some response \<Rightarrow> parse_agent_decision e response text roots default_root)"

definition plan_next_dingtalk_step ::
  "planner_env \<Rightarrow> bool \<Rightarrow> node_info list \<Rightarrow> string \<Rightarrow> planner_error + planned_turn_step" where
  "plan_next_dingtalk_step e agent_known nodes text =
     map_sum id planned_step_from_agent_decision (decide_dingtalk_action e agent_known nodes text)"

definition parse_next_step_response ::
  "planner_env \<Rightarrow> bool \<Rightarrow> node_info list \<Rightarrow> string \<Rightarrow> string \<Rightarrow> planner_error + planned_turn_step" where
  "parse_next_step_response e agent_known nodes response original_text =
     (let trimmed = trim response;
          payload = extract_first_json_object trimmed;
          decided = Option.bind payload (pe_decision_from_str e);
          planned = Option.bind payload (\<lambda>p. planned_under_default e p (Some []))
      in case decided of
           Some step \<Rightarrow> Inr (planned_step_from_agent_decision step)
         | None \<Rightarrow>
             (case planned of
                Some p \<Rightarrow> Inr (SubmitTask (pl_command p) (pl_workspace_path p))
              | None \<Rightarrow>
                  if trimmed \<noteq> [] then
                    (case planned_under_default e trimmed (Some []) of
                       Some p \<Rightarrow> Inr (SubmitTask (pl_command p) (pl_workspace_path p))
                     | None \<Rightarrow> Inr (Finalize trimmed))
                  else plan_next_dingtalk_step e agent_known nodes original_text))"

subsection \<open>Extraction returns the first balanced object\<close>

text \<open>
  The texts between braces: characters other than quotes and braces, string literals (up to the
  first quote that is not escaped), and nested braces.
\<close>

inductive literal_rest :: "string \<Rightarrow> bool" where
  close: "literal_rest [CHR 0x22]"
| plain: "c \<noteq> CHR 0x22 \<Longrightarrow> c \<noteq> CHR 0x5C \<Longrightarrow> literal_rest l \<Longrightarrow> literal_rest (c # l)"
| escaped: "literal_rest l \<Longrightarrow> literal_rest (CHR 0x5C # c # l)"

inductive balanced :: "string \<Rightarrow> bool" where
  empty: "balanced []"
| other: "c \<noteq> CHR 0x22 \<Longrightarrow> c \<noteq> CHR ''{'' \<Longrightarrow> c \<noteq> CHR ''}'' \<Longrightarrow> balanced s \<Longrightarrow> balanced (c # s)"
| literal: "literal_rest l \<Longrightarrow> balanced s \<Longrightarrow> balanced (CHR 0x22 # l @ s)"
| nested: "balanced b \<Longrightarrow> balanced s \<Longrightarrow> balanced (CHR ''{'' # b @ CHR ''}'' # s)"

text \<open>\<open>closes n u\<close>: \<open>u\<close> closes \<open>n\<close> open braces, the last one with its last character.\<close>

inductive closes :: "nat \<Rightarrow> string \<Rightarrow> bool" where
  last: "balanced b \<Longrightarrow> closes (Suc 0) (b @ ''}'')"
| more: "balanced b \<Longrightarrow> closes n u \<Longrightarrow> closes (Suc n) (b @ CHR ''}'' # u)"

lemma balanced_append: "balanced a \<Longrightarrow> balanced b \<Longrightarrow> balanced (a @ b)"
proof (induction rule: balanced.induct)
  case (literal l s)
  then show ?case using balanced.literal [of l "s @ b"] by simp
next
  case (nested c s)
  then show ?case using balanced.nested [of c "s @ b"] by simp
qed (auto intro: balanced.intros)

lemma closes_append: "closes n u \<Longrightarrow> balanced a \<Longrightarrow> closes n (a @ u)"
proof (induction rule: closes.induct)
  case (last b)
  then show ?case using closes.last [of "a @ b"] by (simp add: balanced_append)
next
  case (more b n u)
  then show ?case using closes.more [of "a @ b" n u] by (simp add: balanced_append)
qed

inductive_cases closes_SucE: "closes (Suc n) u"

lemma closes_pos: "closes n u \<Longrightarrow> 0 < n"
  by (induction rule: closes.induct) auto

lemma scan_literal:
  "literal_rest l \<Longrightarrow> scan_json_object d True False acc (l @ r) = scan_json_object d False False (acc @ l) r"
  by (induction arbitrary: acc rule: literal_rest.induct) auto

lemma scan_balanced:
  "balanced b \<Longrightarrow> 0 < d \<Longrightarrow>
   scan_json_object d False False acc (b @ r) = scan_json_object d False False (acc @ b) r"
proof (induction arbitrary: acc d r rule: balanced.induct)
  case (literal l s)
  then show ?case by (simp add: scan_literal)
qed auto

lemma scan_in_literal:
  "scan_json_object d True esc acc s = Some t \<Longrightarrow>
   \<exists>l r. s = l @ r \<and> scan_json_object d False False (acc @ l) r = Some t
     \<and> (if esc then \<exists>c l'. l = c # l' \<and> literal_rest l' else literal_rest l)"
proof (induction s arbitrary: esc acc)
  case (Cons ch s)
  show ?case
  proof (cases "esc \<or> ch = CHR 0x5C \<or> ch \<noteq> CHR 0x22")
    case True
    then obtain esc' where e: "scan_json_object d True esc' (acc @ [ch]) s = Some t"
        "esc' = (\<not> esc \<and> ch = CHR 0x5C)"
      using Cons.prems by (auto split: if_splits)
    from Cons.IH [OF e(1)] obtain l r where
      l: "s = l @ r" "scan_json_object d False False (acc @ ch # l) r = Some t"
      "if esc' then \<exists>c l'. l = c # l' \<and> literal_rest l' else literal_rest l" by auto
    have "if esc then \<exists>c l'. ch # l = c # l' \<and> literal_rest l' else literal_rest (ch # l)"
      using True e(2) l(3) literal_rest.escaped literal_rest.plain by (cases esc; cases "ch = CHR 0x5C") auto
    then show ?thesis using l by (intro exI [of _ "ch # l"] exI [of _ r]) simp
  next
    case False
    then show ?thesis
      using Cons.prems by (intro exI [of _ "[ch]"] exI [of _ s]) (auto intro: literal_rest.intros)
  qed
qed simp

lemma scan_closes:
  "scan_json_object d False False acc s = Some t \<Longrightarrow> 0 < d \<Longrightarrow>
   \<exists>u r. s = u @ r \<and> t = acc @ u \<and> closes d u"
proof (induction s arbitrary: d acc rule: length_induct)
  case (1 s)
  have IH: "\<exists>u r'. r = u @ r' \<and> t = acc @ u \<and> closes d u"
    if "length r < length s" "scan_json_object d False False acc r = Some t" "0 < d" for r d acc
    using 1 (1) that by blast
  show ?case
  proof (cases s)
    case (Cons ch s')
    consider (quote) "ch = CHR 0x22" | (obrace) "ch = CHR ''{''" | (cbrace) "ch = CHR ''}''"
      | (plain) "ch \<noteq> CHR 0x22" "ch \<noteq> CHR ''{''" "ch \<noteq> CHR ''}''" by blast
    then show ?thesis
    proof cases
      case quote
      then obtain l r where l: "s' = l @ r" "literal_rest l"
          "scan_json_object d False False (acc @ ch # l) r = Some t"
        using 1 (2) scan_in_literal [of d False "acc @ [ch]" s' t] by (auto simp: Cons)
      moreover have "length r < length s" by (simp add: Cons l(1))
      ultimately obtain u r' where "r = u @ r'" "t = (acc @ ch # l) @ u" "closes d u"
        using IH [of r d "acc @ ch # l"] 1 (3) by blast
      then show ?thesis
        using l quote closes_append [of d u "CHR 0x22 # l"] balanced.literal [OF l(2) balanced.empty]
        by (intro exI [of _ "ch # l @ u"] exI [of _ r']) (auto simp: Cons)
    next
      case obrace
      then have "scan_json_object (Suc d) False False (acc @ [ch]) s' = Some t"
        using 1 (2) by (simp add: Cons)
      then obtain u r where u: "s' = u @ r" "t = acc @ ch # u" "closes (Suc d) u"
        using IH [of s' "Suc d" "acc @ [ch]"] by (auto simp: Cons)
      then obtain b u' where "u = b @ CHR ''}'' # u'" "balanced b" "closes d u'"
        using 1 (3) by (auto elim: closes_SucE)
      then show ?thesis
        using u obrace closes_append [of d u' "CHR ''{'' # b @ ''}''"] balanced.nested [of b "[]"]
        by (intro exI [of _ "ch # u"] exI [of _ r]) (auto simp: Cons balanced.empty)
    next
      case cbrace
      show ?thesis
      proof (cases "d = 1")
        case True
        then show ?thesis
          using 1 (2) cbrace closes.last [OF balanced.empty]
          by (intro exI [of _ "[ch]"] exI [of _ s']) (auto simp: Cons)
      next
        case False
        then have "scan_json_object (d - 1) False False (acc @ [ch]) s' = Some t"
          using 1 (2, 3) cbrace by (simp add: Cons)
        then obtain u r where "s' = u @ r" "t = acc @ ch # u" "closes (d - 1) u"
          using IH [of s' "d - 1" "acc @ [ch]"] 1 (3) False by (auto simp: Cons)
        then show ?thesis
          using 1 (3) cbrace closes.more [OF balanced.empty, of "d - 1" u]
          by (intro exI [of _ "ch # u"] exI [of _ r]) (auto simp: Cons)
      qed
    next
      case plain
      then have "scan_json_object d False False (acc @ [ch]) s' = Some t"
        using 1 (2) by (simp add: Cons)
      then obtain u r where "s' = u @ r" "t = acc @ ch # u" "closes d u"
        using IH [of s' d "acc @ [ch]"] 1 (3) by (auto simp: Cons)
      then show ?thesis
        using plain closes_append [of d u "[ch]"] balanced.other [OF plain balanced.empty]
        by (intro exI [of _ "ch # u"] exI [of _ r]) (auto simp: Cons)
    qed
  qed (use 1 (2) in simp)
qed

lemma split_first_brace:
  "CHR ''{'' \<in> set s \<Longrightarrow> \<exists>pre rest. s = pre @ CHR ''{'' # rest \<and> CHR ''{'' \<notin> set pre"
  by (meson split_list_first)

lemma extract_at_brace:
  "CHR ''{'' \<notin> set pre \<Longrightarrow>
   extract_first_json_object (pre @ CHR ''{'' # rest) = scan_json_object 1 False False ''{'' rest"
proof -
  assume "CHR ''{'' \<notin> set pre"
  then have "dropWhile (\<lambda>ch. ch \<noteq> CHR ''{'') (pre @ CHR ''{'' # rest) = CHR ''{'' # rest"
    by (induction pre) auto
  then show ?thesis by (simp add: extract_first_json_object_def)
qed

text \<open>
  C29: the text extracted from an answer is exactly the first balanced object: it starts at the
  first brace, ends at the brace that closes it (braces inside string literals, and quotes escaped
  there, do not count), and nothing is returned when no brace is ever closed.
\<close>

theorem extract_json_exact:
  "extract_first_json_object s = Some t \<longleftrightarrow>
     (\<exists>pre body rest. s = pre @ t @ rest \<and> CHR ''{'' \<notin> set pre
        \<and> t = ''{'' @ body @ ''}'' \<and> balanced body)"
proof
  assume e: "extract_first_json_object s = Some t"
  then have "CHR ''{'' \<in> set s" by (auto simp: extract_first_json_object_def split: if_splits)
  then obtain pre rest where s: "s = pre @ CHR ''{'' # rest" "CHR ''{'' \<notin> set pre"
    using split_first_brace by blast
  then obtain u r where u: "rest = u @ r" "t = ''{'' @ u" "closes (Suc 0) u"
    using e scan_closes [of 1 "''{''" rest t] by (auto simp: extract_at_brace)
  then obtain body where "u = body @ ''}''" "balanced body"
    by (auto elim: closes_SucE dest: closes_pos)
  then show "\<exists>pre body rest. s = pre @ t @ rest \<and> CHR ''{'' \<notin> set pre
        \<and> t = ''{'' @ body @ ''}'' \<and> balanced body"
    using s u by (intro exI [of _ pre] exI [of _ body] exI [of _ r]) auto
next
  assume "\<exists>pre body rest. s = pre @ t @ rest \<and> CHR ''{'' \<notin> set pre
        \<and> t = ''{'' @ body @ ''}'' \<and> balanced body"
  then show "extract_first_json_object s = Some t"
    using scan_balanced [of _ 1 "''{''"] by (auto simp: extract_at_brace)
qed

subsection \<open>Planned commands stay in their workspace\<close>

lemma normal_components_push:
  "normal_components acc p = Inr q \<Longrightarrow>
   q = acc @ filter (\<lambda>c. c \<noteq> CurDir) p \<and> (\<forall>rt. push_components rt p = rt @ filter (\<lambda>c. c \<noteq> CurDir) p)"
  by (induction acc p rule: normal_components.induct) (auto simp: push_components_def)

lemma ensure_relative:
  assumes "ensure_workspace_path fs v hint = Inr ()" and "\<not> is_absolute (path_of_string v)"
    and "canonical rt"
  shows "canonical (push_components rt (path_of_string v))
         \<and> path_starts_with (push_components rt (path_of_string v)) rt"
proof -
  obtain q where "normal_components [] (path_of_string v) = Inr q"
    using assms(1, 2) by (auto simp: ensure_workspace_path_def normalize_relative_path_def Let_def split: sum.splits)
  then have "path_starts_with (push_components rt (path_of_string v)) rt"
    using normal_components_push by simp
  then show ?thesis using canonical_push_components [OF assms(3)] by simp
qed

text \<open>
  What the file system promises besides \<open>fs_canonical\<close>: the root exists, and what exists has a
  canonical form.
\<close>

definition fs_resolves :: "filesystem \<Rightarrow> bool" where
  "fs_resolves fs \<longleftrightarrow> fs_exists fs [RootDir] \<and> (\<forall>p. fs_exists fs p \<longrightarrow> fs_canonicalize fs p \<noteq> None)"

lemma path_of_string_root_once: "RootDir \<notin> set (tl (path_of_string s))"
proof -
  have "RootDir \<notin> segment_component ` A" for A by (auto simp: segment_component_def)
  then show ?thesis by (auto simp: path_of_string_def split: list.splits)
qed

lemma normalized_hint_canonical:
  assumes "fs_canonical fs" and "fs_resolves fs" and "is_absolute (path_of_string s)"
  shows "canonical (normalize_workspace_hint_path fs s)"
proof -
  obtain a where a: "existing_ancestor fs (path_of_string s) = Some a"
    using existing_ancestor_absolute [OF assms(3) _ path_of_string_root_once, of fs] assms(2)
    by (auto simp: fs_resolves_def)
  then obtain n where n: "fs_canonicalize fs a = Some n"
    using existing_ancestor_sound assms(2) unfolding fs_resolves_def by blast
  have "canonicalize_existing_aware fs (path_of_string s)
      = Some (push_components n (drop (length a) (path_of_string s)))"
    using a n strip_prefix_ancestor [OF a] by (simp add: canonicalize_existing_aware_def)
  moreover have "canonical n" using n assms(1) by (auto simp: fs_canonical_def)
  ultimately show ?thesis
    using assms(3) wf_path_drop by (simp add: normalize_workspace_hint_path_def canonical_push_components)
qed

lemma ensure_absolute:
  assumes "ensure_workspace_path fs v hint = Inr ()" and "is_absolute (path_of_string v)"
  shows "path_starts_with (normalize_workspace_hint_path fs v) (normalize_workspace_hint_path fs hint)"
  using assms by (auto simp: ensure_workspace_path_def workspace_matches_hint_def Let_def split: if_splits)

fun command_paths :: "command \<Rightarrow> string list" where
  "command_paths (File c) = validated_paths c"
| "command_paths (Shell c) = (case sh_cwd c of None \<Rightarrow> [] | Some cwd \<Rightarrow> [cwd])"
| "command_paths _ = []"

lemma ensure_workspace_paths_all:
  "ensure_workspace_paths fs vs hint = Inr () \<longleftrightarrow> list_all (\<lambda>v. ensure_workspace_path fs v hint = Inr ()) vs"
  by (induction vs) (auto split: sum.splits)

lemma validate_planned_paths:
  "validate_planned_command e c hint = Inr () \<Longrightarrow> v \<in> set (command_paths c) \<Longrightarrow>
   ensure_workspace_path (pe_fs e) v hint = Inr ()"
  by (cases c) (auto simp: validate_file_command_def validate_shell_command_def list_all_iff
      ensure_workspace_paths_all split: option.splits sum.splits)

lemma validate_planned_shell:
  "validate_planned_command e (Shell c) hint = Inr () \<Longrightarrow>
   list_all (\<lambda>p. \<not> str_contains (command_text c) p) forbidden_git_patterns"
  by (auto simp: validate_shell_command_def find_None_iff list_all_iff split: option.splits sum.splits)

lemma validate_planned_type:
  "validate_planned_command e c hint = Inr () \<Longrightarrow> command_type c \<in> {FileType, ShellType, BrowserType}"
  by (cases c) auto

lemma parse_planned_valid:
  assumes "parse_planned_command e response hint = Inr planned"
  shows "\<exists>w. pl_workspace_path planned = Some w \<and> validate_planned_command e (pl_command planned) w = Inr ()"
  using assms
  by (auto simp: parse_planned_command_def Let_def split: option.splits sum.splits if_splits)

lemma planned_under_default_valid:
  "planned_under_default e payload hint = Some planned \<Longrightarrow>
   \<exists>w. pl_workspace_path planned = Some w \<and> validate_planned_command e (pl_command planned) w = Inr ()"
  using parse_planned_valid by (auto simp: planned_under_default_def split: option.splits sum.splits)

lemma plan_dingtalk_valid:
  assumes "plan_dingtalk_command e text hint roots = Inr (ExecuteCommand c w)"
  shows "\<exists>x. w = Some x \<and> validate_planned_command e c x = Inr ()"
  using assms parse_planned_valid
  by (fastforce simp: plan_dingtalk_command_def split: option.splits sum.splits)

lemma accept_decision_valid:
  assumes "accept_decision e response text roots dflt d = Inr (ExecuteCommand c (Some w))"
  shows "validate_planned_command e c w = Inr ()"
  using assms plan_dingtalk_valid
  by (cases d) (fastforce simp: Let_def split: option.splits sum.splits if_splits)+

lemma decide_without_json_valid:
  assumes "decide_without_json e trimmed text roots dflt = Inr (ExecuteCommand c (Some w))"
  shows "validate_planned_command e c w = Inr ()"
  using assms plan_dingtalk_valid planned_under_default_valid
  by (fastforce simp: decide_without_json_def split: option.splits if_splits)

lemma parse_agent_decision_valid:
  assumes "parse_agent_decision e response text roots dflt = Inr (ExecuteCommand c (Some w))"
  shows "validate_planned_command e c w = Inr ()"
  using assms accept_decision_valid decide_without_json_valid planned_under_default_valid
  by (fastforce simp: parse_agent_decision_def Let_def split: option.splits)


definition example_planner :: planner_env where
  "example_planner =
     \<lparr>pe_fs = \<lparr>fs_exists = (\<lambda>p. p = [RootDir]), fs_is_dir = (\<lambda>_. True),
               fs_canonicalize = (\<lambda>p. if p = [RootDir] then Some p else None)\<rparr>,
      pe_url_parse = example_url_parse,
      pe_value_from_str = (\<lambda>_. Some JNull),
      pe_decision_from_str = (\<lambda>s. if s = ''{copy}'' then
          Some (ExecuteCommand (File (Copy ''/srv/ws/a/../b'' ''c/d'' True)) None) else None),
      pe_planned_from_value = (\<lambda>_. Some \<lparr>pl_command = File (Info ''a''), pl_workspace_path = None\<rparr>),
      pe_llm = None\<rparr>"

lemma example_planner_fs: "fs_canonical (pe_fs example_planner)" "fs_resolves (pe_fs example_planner)"
  by (auto simp: example_planner_def fs_canonical_def fs_resolves_def canonical_def split: if_splits)


subsection \<open>A continuation without a workspace\<close>

text \<open>
  When the answer to a task result carries a command in the older shape and no workspace, the
  planner validates it against the empty text and records that as its workspace. The hint is then
  present, so the default root is not consulted, and it matches no node with an absolute workspace.
\<close>

lemma empty_hint_matches_none:
  assumes "fs_canonical fs" and "fs_resolves fs" and "is_absolute (path_of_string v)"
  shows "\<not> workspace_matches_hint fs v []"
proof -
  have "normalize_workspace_hint_path fs [] = [CurDir]"
    by (simp add: normalize_workspace_hint_path_def path_of_string_def path_segments_def is_absolute_def)
  then show ?thesis
    using canonical_no_dots [OF normalized_hint_canonical [OF assms]]
    by (auto simp: workspace_matches_hint_def Let_def prefix_def)
qed

lemma continuation_hint_empty:
  assumes "extract_first_json_object (trim response) = Some payload"
    and "pe_decision_from_str e payload = None" and "pe_value_from_str e payload = Some value"
    and "pe_planned_from_value e (normalize_planned_command_payload value)
           = Some \<lparr>pl_command = c, pl_workspace_path = None\<rparr>"
    and "validate_planned_command e c [] = Inr ()"
  shows "parse_next_step_response e agent_known nodes response text = Inr (SubmitTask c (Some []))"
  using assms by (simp add: parse_next_step_response_def planned_under_default_def parse_planned_command_def)

subsection \<open>Normalisation is stable\<close>

lemma map_of_obj_insert: "map_of (obj_insert k v fs) k' = (if k' = k then Some v else map_of fs k')"
  by (induction k v fs rule: obj_insert.induct) auto

lemma map_of_obj_remove: "map_of (obj_remove k fs) k' = (if k' = k then None else map_of fs k')"
  by (induction fs) (auto simp: obj_remove_def)

lemma copy_action_fields_keeps:
  "map_of m k \<noteq> None \<Longrightarrow> map_of (copy_action_fields fs m) k \<noteq> None"
  unfolding copy_action_fields_def
  by (induction fs arbitrary: m) (auto simp: map_of_obj_insert)

lemma action_tagged_idem:
  "normalize_action_tagged_execute_command_payload (normalize_action_tagged_execute_command_payload v)
     = normalize_action_tagged_execute_command_payload v"
  by (cases v) (auto simp: map_of_obj_insert)

lemma legacy_get_other:
  "k \<noteq> ''command'' \<Longrightarrow> json_get (normalize_legacy_browser_actions_payload v) k = json_get v k"
  by (cases v) (auto simp: normalize_legacy_browser_actions_payload_def Let_def map_of_obj_insert
      map_of_obj_remove split: option.splits json.splits)

lemma legacy_cases:
  "normalize_legacy_browser_actions_payload v = v
   \<or> (\<exists>fs. normalize_legacy_browser_actions_payload v = JObject (obj_remove ''command'' fs))
   \<or> (\<exists>fs cm. normalize_legacy_browser_actions_payload v = JObject (obj_insert ''command'' (JObject cm) fs)
        \<and> map_of cm ''action'' \<noteq> None)"
proof (cases "\<exists>fs command fa an. v = JObject fs \<and> map_of fs ''command'' = Some command
    \<and> json_str_field command ''type'' = Some ''browser'' \<and> json_get command ''action'' = None
    \<and> legacy_action command = Some (fa, an)")
  case True
  then obtain fs command fa an where c: "v = JObject fs" "map_of fs ''command'' = Some command"
      "json_str_field command ''type'' = Some ''browser''" "json_get command ''action'' = None"
      "legacy_action command = Some (fa, an)" by blast
  let ?m = "\<lambda>cm. obj_insert ''action'' (JString an) (obj_remove ''actions'' cm)"
  define filled where
    "filled = (\<lambda>cm. case fa of JObject afs \<Rightarrow> copy_action_fields afs (?m cm) | _ \<Rightarrow> ?m cm)"
  have "map_of (filled cm) ''action'' \<noteq> None" for cm
    using copy_action_fields_keeps [of "?m cm" "''action''"]
    unfolding filled_def by (simp add: map_of_obj_insert split: json.split)
  moreover have "normalize_legacy_browser_actions_payload v =
      (case command of
         JObject cm \<Rightarrow> JObject (obj_insert ''command'' (JObject (filled cm)) (obj_remove ''command'' fs))
       | _ \<Rightarrow> JObject (obj_remove ''command'' fs))"
    unfolding filled_def
    by (simp add: normalize_legacy_browser_actions_payload_def c Let_def split: json.split)
  ultimately show ?thesis by (cases command) (simp_all, blast+)
next
  case False
  then have "normalize_legacy_browser_actions_payload v = v"
    by (cases v) (auto simp: normalize_legacy_browser_actions_payload_def split: option.split)
  then show ?thesis by simp
qed

lemma legacy_idem:
  "normalize_legacy_browser_actions_payload (normalize_legacy_browser_actions_payload v)
     = normalize_legacy_browser_actions_payload v"
  using legacy_cases [of v]
  by (elim disjE exE conjE)
    (simp_all add: normalize_legacy_browser_actions_payload_def [of "JObject _"]
      map_of_obj_insert map_of_obj_remove)

text \<open>Normalising a payload twice is normalising it once.\<close>

lemma normalize_payload_idem:
  "normalize_planned_command_payload (normalize_planned_command_payload v)
     = normalize_planned_command_payload v"
proof -
  let ?t = "normalize_action_tagged_execute_command_payload"
  let ?l = "normalize_legacy_browser_actions_payload"
  have stable: "?t w = w \<longleftrightarrow> (case w of JObject fs \<Rightarrow> map_of fs ''type'' \<noteq> None
      \<or> json_str_field w ''action'' \<noteq> Some ''execute_command'' | _ \<Rightarrow> True)" for w
    by (cases w) (auto simp: map_of_obj_insert dest: arg_cong [of _ _ "\<lambda>m. map_of m ''type''"])
  have obj: "(\<exists>fs. ?l w = JObject fs) \<longleftrightarrow> (\<exists>fs. w = JObject fs)" for w
    by (cases w) (auto simp: normalize_legacy_browser_actions_payload_def Let_def split: option.splits json.splits)
  have "?t (?l (?t v)) = ?l (?t v)"
  proof (cases "?l (?t v)")
    case (JObject fs)
    then obtain gs where g: "?t v = JObject gs" using obj [of "?t v"] by blast
    have "map_of fs k = map_of gs k" if "k \<noteq> ''command''" for k
      using legacy_get_other [OF that, of "?t v"] unfolding JObject unfolding g json_get.simps .
    then show ?thesis
      using stable [of "?t v"] action_tagged_idem [of v]
      unfolding JObject unfolding g stable [of "JObject fs"] by (simp add: json_str_field_def)
  qed simp_all
  then show ?thesis by (simp add: normalize_planned_command_payload_def legacy_idem)
qed

end
