(* ===== verification/Skills.thy ===== *)
theory Skills
  imports Sessions "HOL-Library.Product_Lexorder"
begin

section \<open>Skills and agents in layers (\<^verbatim>\<open>uhorse-agent/src/skill.rs\<close>, \<^verbatim>\<open>uhorse-hub/src/web/mod.rs\<close>)\<close>

text \<open>
  A skill is a manifest, a configuration and an executor; registries of skills exist once globally
  and once per scope (tenant, enterprise, department, role, user), and a session sees the first
  match along its chain of scopes. The agents of the Hub are catalogued in the same way. The model
  has both registries with every lookup and listing, the loading of a skill from the files of its
  directory, and the verdict on a finished skill process. File contents, YAML, TOML and JSON
  decoding and the processes themselves are arguments.
\<close>

subsection \<open>A skill\<close>

record skill_parameter =
  sp_name :: string
  sp_description :: string
  sp_param_type :: string
  sp_required :: bool
  sp_default :: "json option"

record skill_manifest =
  sm_name :: string
  sm_description :: string
  sm_version :: string
  sm_author :: "string option"
  sm_parameters :: "skill_parameter list"
  sm_permissions :: "string list"

record skill_config =
  sc_enabled :: bool
  sc_timeout :: u64
  sc_max_retries :: nat
  sc_executable :: "string option"
  sc_args :: "string list"
  sc_env :: "(string, string) hmap"

definition default_timeout :: u64 where
  "default_timeout = 30"

definition default_max_retries :: nat where
  "default_max_retries = 3"

definition skill_config_default :: skill_config where
  "skill_config_default =
     \<lparr>sc_enabled = False, sc_timeout = default_timeout, sc_max_retries = default_max_retries,
      sc_executable = None, sc_args = [], sc_env = []\<rparr>"

record process_executor =
  px_name :: string
  px_description :: string
  px_executable :: string
  px_args :: "string list"
  px_env :: "(string, string) hmap"
  px_timeout_secs :: u64
  px_workdir :: string

datatype executor =
    DummyExecutor string string
  | ProcessExecutor process_executor

fun executor_name :: "executor \<Rightarrow> string" where
  "executor_name (DummyExecutor n _) = n"
| "executor_name (ProcessExecutor p) = px_name p"

record skill =
  sl_manifest :: skill_manifest
  sl_config :: skill_config
  sl_executor :: executor

abbreviation skill_name :: "skill \<Rightarrow> string" where
  "skill_name s \<equiv> sm_name (sl_manifest s)"

datatype skill_error =
    SkillDisabled string
  | SkillTimedOut string u64
  | SkillExecution string string
  | NoFrontmatter
  | InvalidFrontmatter
  | BadManifest
  | BadConfig
  | MissingFile

text \<open>
  How a process ends: not within the timeout, not started, or with its exit status and what it
  wrote.
\<close>

datatype process_outcome =
    ProcTimeout
  | ProcError string
  | ProcExit bool string string string

fun process_verdict :: "(string \<Rightarrow> string option) \<Rightarrow> process_executor \<Rightarrow> process_outcome \<Rightarrow> skill_error + string" where
  "process_verdict pretty p ProcTimeout = Inl (SkillTimedOut (px_name p) (px_timeout_secs p))"
| "process_verdict pretty p (ProcError err) = Inl (SkillExecution (px_name p) err)"
| "process_verdict pretty p (ProcExit success status out0 err0) =
     (let stdout = trim out0; stderr = trim err0
      in if \<not> success
         then Inl (SkillExecution (px_name p)
                (if stderr = [] then ''process exited with status '' @ status else stderr))
         else if stderr \<noteq> [] then Inl (SkillExecution (px_name p) stderr)
         else if stdout = [] then Inr []
         else (case pretty stdout of Some json \<Rightarrow> Inr json | None \<Rightarrow> Inr stdout))"

fun executor_execute ::
  "(string \<Rightarrow> string option) \<Rightarrow> (process_executor \<Rightarrow> string \<Rightarrow> process_outcome) \<Rightarrow> executor \<Rightarrow> string \<Rightarrow>
   skill_error + string" where
  "executor_execute pretty run (DummyExecutor n _) input =
     Inr (''[Skill: '' @ n @ ''] Executed with input: '' @ input)"
| "executor_execute pretty run (ProcessExecutor p) input = process_verdict pretty p (run p input)"

definition skill_execute ::
  "(string \<Rightarrow> string option) \<Rightarrow> (process_executor \<Rightarrow> string \<Rightarrow> process_outcome) \<Rightarrow> skill \<Rightarrow> string \<Rightarrow>
   skill_error + string" where
  "skill_execute pretty run s input =
     (if \<not> sc_enabled (sl_config s) then Inl (SkillDisabled (skill_name s))
      else executor_execute pretty run (sl_executor s) input)"

subsection \<open>Loading a skill\<close>

text \<open>The offset of the first occurrence of a substring, as \<^verbatim>\<open>str::find\<close>.\<close>

fun str_find :: "string \<Rightarrow> string \<Rightarrow> nat option" where
  "str_find p [] = (if p = [] then Some 0 else None)"
| "str_find p (c # s) = (if prefix p (c # s) then Some 0 else map_option Suc (str_find p s))"

definition frontmatter :: "string \<Rightarrow> skill_error + string" where
  "frontmatter content0 =
     (let content = trim content0
      in if \<not> starts_with content ''---'' then Inl NoFrontmatter
         else (case str_find ''---'' (drop 3 content) of
                 None \<Rightarrow> Inl InvalidFrontmatter
               | Some end_idx \<Rightarrow> Inr (take end_idx (drop 3 content))))"

definition parse_skill_md :: "(string \<Rightarrow> skill_manifest option) \<Rightarrow> string \<Rightarrow> skill_error + skill_manifest" where
  "parse_skill_md from_yaml content =
     (case frontmatter content of
        Inl err \<Rightarrow> Inl err
      | Inr yaml_content \<Rightarrow>
          (case from_yaml yaml_content of Some m \<Rightarrow> Inr m | None \<Rightarrow> Inl BadManifest))"

text \<open>A skill directory: the contents of its files, and which of the others exist.\<close>

record skill_dir =
  sd_path :: string
  sd_skill_md :: "string option"
  sd_skill_toml :: "string option"
  sd_has_skill_yaml :: bool
  sd_has_src_main_py :: bool
  sd_has_main_py :: bool

definition yaml_skill_config :: "skill_dir \<Rightarrow> skill_config" where
  "yaml_skill_config d =
     (let args = (if sd_has_src_main_py d then [''src/main.py'']
                  else if sd_has_main_py d then [''main.py''] else [])
      in \<lparr>sc_enabled = args \<noteq> [], sc_timeout = default_timeout, sc_max_retries = default_max_retries,
          sc_executable = (if args \<noteq> [] then Some ''python3'' else None), sc_args = args, sc_env = []\<rparr>)"

definition load_skill_config ::
  "(string \<Rightarrow> skill_config option) \<Rightarrow> skill_dir \<Rightarrow> skill_error + skill_config" where
  "load_skill_config from_toml d =
     (case sd_skill_toml d of
        Some toml \<Rightarrow> (case from_toml toml of Some c \<Rightarrow> Inr c | None \<Rightarrow> Inl BadConfig)
      | None \<Rightarrow> Inr (if sd_has_skill_yaml d then yaml_skill_config d else skill_config_default))"

definition skill_executor :: "skill_dir \<Rightarrow> skill_manifest \<Rightarrow> skill_config \<Rightarrow> executor" where
  "skill_executor d m c =
     (case sc_executable c of
        Some executable \<Rightarrow>
          ProcessExecutor \<lparr>px_name = sm_name m, px_description = sm_description m, px_executable = executable,
            px_args = sc_args c, px_env = sc_env c, px_timeout_secs = sc_timeout c, px_workdir = sd_path d\<rparr>
      | None \<Rightarrow> DummyExecutor (sm_name m) (sm_description m))"

definition load_skill ::
  "(string \<Rightarrow> skill_manifest option) \<Rightarrow> (string \<Rightarrow> skill_config option) \<Rightarrow> skill_dir \<Rightarrow> skill_error + skill" where
  "load_skill from_yaml from_toml d =
     (case sd_skill_md d of
        None \<Rightarrow> Inl MissingFile
      | Some content \<Rightarrow>
          (case parse_skill_md from_yaml content of
             Inl err \<Rightarrow> Inl err
           | Inr m \<Rightarrow>
               (case load_skill_config from_toml d of
                  Inl err \<Rightarrow> Inl err
                | Inr c \<Rightarrow> Inr \<lparr>sl_manifest = m, sl_config = c, sl_executor = skill_executor d m c\<rparr>)))"

subsection \<open>A registry of skills\<close>

type_synonym skill_registry = "(string, skill) hmap"

definition register_skill :: "skill \<Rightarrow> skill_registry \<Rightarrow> skill_registry" where
  "register_skill s r = hm_insert (skill_name s) s r"

definition skill_registry_get :: "skill_registry \<Rightarrow> string \<Rightarrow> skill option" where
  "skill_registry_get r n = hm_get r n"

definition registry_list_names :: "skill_registry \<Rightarrow> string list" where
  "registry_list_names r = hm_keys r"

text \<open>The directories of a skills directory, in the order they are read; what fails to load is skipped.\<close>

fun load_from_dir ::
  "(string \<Rightarrow> skill_manifest option) \<Rightarrow> (string \<Rightarrow> skill_config option) \<Rightarrow> skill_dir list \<Rightarrow> skill_registry \<Rightarrow>
   nat \<times> skill_registry" where
  "load_from_dir from_yaml from_toml [] r = (0, r)"
| "load_from_dir from_yaml from_toml (d # ds) r =
     (case load_skill from_yaml from_toml d of
        Inr s \<Rightarrow> (case load_from_dir from_yaml from_toml ds (register_skill s r) of (n, r') \<Rightarrow> (n + 1, r'))
      | Inl _ \<Rightarrow> load_from_dir from_yaml from_toml ds r)"

subsection \<open>Layers of skills\<close>

record layered_skills =
  ls_global :: skill_registry
  ls_scoped :: "(string, skill_registry) hmap"

record layered_skill_entry =
  le_skill :: skill
  le_source_layer :: string
  le_source_scope :: "string option"

definition layered_new :: "skill_registry \<Rightarrow> layered_skills" where
  "layered_new global = \<lparr>ls_global = global, ls_scoped = []\<rparr>"

definition register_scoped_registry :: "string \<Rightarrow> skill_registry \<Rightarrow> layered_skills \<Rightarrow> layered_skills" where
  "register_scoped_registry scope registry l =
     (if registry = [] then l\<lparr>ls_scoped := hm_remove scope (ls_scoped l)\<rparr>
      else l\<lparr>ls_scoped := hm_insert scope registry (ls_scoped l)\<rparr>)"

definition scoped_skill :: "layered_skills \<Rightarrow> string \<Rightarrow> string \<Rightarrow> skill option" where
  "scoped_skill l scope n = Option.bind (hm_get (ls_scoped l) scope) (\<lambda>r. skill_registry_get r n)"

definition scoped_entry :: "string \<Rightarrow> skill \<Rightarrow> layered_skill_entry" where
  "scoped_entry scope s =
     \<lparr>le_skill = s, le_source_layer = scope_layer_from_scope scope, le_source_scope = Some scope\<rparr>"

definition global_entry :: "skill \<Rightarrow> layered_skill_entry" where
  "global_entry s = \<lparr>le_skill = s, le_source_layer = ''global'', le_source_scope = None\<rparr>"

fun get_for_scopes_entry :: "layered_skills \<Rightarrow> string list \<Rightarrow> string \<Rightarrow> layered_skill_entry option" where
  "get_for_scopes_entry l [] n = map_option global_entry (skill_registry_get (ls_global l) n)"
| "get_for_scopes_entry l (scope # scopes) n =
     (case scoped_skill l scope n of
        Some s \<Rightarrow> Some (scoped_entry scope s)
      | None \<Rightarrow> get_for_scopes_entry l scopes n)"

definition get_for_scopes :: "layered_skills \<Rightarrow> string list \<Rightarrow> string \<Rightarrow> skill option" where
  "get_for_scopes l scopes n = map_option le_skill (get_for_scopes_entry l scopes n)"

definition source_for_scopes :: "layered_skills \<Rightarrow> string list \<Rightarrow> string \<Rightarrow> string option" where
  "source_for_scopes l scopes n = map_option le_source_layer (get_for_scopes_entry l scopes n)"

definition get_entry_by_source ::
  "layered_skills \<Rightarrow> string \<Rightarrow> string \<Rightarrow> string option \<Rightarrow> layered_skill_entry option" where
  "get_entry_by_source l n source_layer source_scope =
     (if source_layer = ''global''
      then (if source_scope \<noteq> None then None else map_option global_entry (skill_registry_get (ls_global l) n))
      else (case source_scope of
              None \<Rightarrow> None
            | Some scope \<Rightarrow>
                if scope_layer_from_scope scope = source_layer
                then map_option (scoped_entry scope) (scoped_skill l scope n)
                else None))"

text \<open>\<^verbatim>\<open>sort\<close> and \<^verbatim>\<open>dedup\<close>.\<close>

definition sort_dedup :: "string list \<Rightarrow> string list" where
  "sort_dedup xs = remdups_adj (sort xs)"

definition list_names_for_scopes :: "layered_skills \<Rightarrow> string list \<Rightarrow> string list" where
  "list_names_for_scopes l scopes =
     sort_dedup (registry_list_names (ls_global l)
       @ concat (map (\<lambda>scope. case hm_get (ls_scoped l) scope of
                               Some r \<Rightarrow> registry_list_names r | None \<Rightarrow> []) (rev scopes)))"

definition list_all_names :: "layered_skills \<Rightarrow> string list" where
  "list_all_names l =
     sort_dedup (registry_list_names (ls_global l) @ concat (map registry_list_names (hm_values (ls_scoped l))))"

definition sorted_scopes :: "(string, 'v) hmap \<Rightarrow> string list" where
  "sorted_scopes m = sort (hm_keys m)"

definition sorted_scopes_by_rank :: "(string, 'v) hmap \<Rightarrow> string list" where
  "sorted_scopes_by_rank m = sort_key (\<lambda>s. (scope_layer_rank (scope_layer_from_scope s), s)) (hm_keys m)"

definition scope_text :: "string option \<Rightarrow> string" where
  "scope_text s = (case s of Some scope \<Rightarrow> scope | None \<Rightarrow> [])"

definition unsorted_entries :: "layered_skills \<Rightarrow> layered_skill_entry list" where
  "unsorted_entries l =
     map global_entry (hm_values (ls_global l))
     @ concat (map (\<lambda>scope. case hm_get (ls_scoped l) scope of
                             Some r \<Rightarrow> map (scoped_entry scope) (hm_values r) | None \<Rightarrow> [])
                   (sorted_scopes (ls_scoped l)))"

definition list_all_entries :: "layered_skills \<Rightarrow> layered_skill_entry list" where
  "list_all_entries l =
     sort_key (\<lambda>e. (skill_name (le_skill e), scope_layer_rank (le_source_layer e), scope_text (le_source_scope e)))
       (unsorted_entries l)"

definition get_any_entry :: "layered_skills \<Rightarrow> string \<Rightarrow> layered_skill_entry option" where
  "get_any_entry l n = get_for_scopes_entry l (sorted_scopes_by_rank (ls_scoped l)) n"

definition get_any :: "layered_skills \<Rightarrow> string \<Rightarrow> skill option" where
  "get_any l n = map_option le_skill (get_any_entry l n)"

text \<open>
  The Hub's local execution of a skill for a session with the given chain of visible scopes;
  \<open>no_output\<close> is the text for a skill that printed nothing.
\<close>

definition execute_local_skill ::
  "(string \<Rightarrow> string option) \<Rightarrow> (process_executor \<Rightarrow> string \<Rightarrow> process_outcome) \<Rightarrow> (string \<Rightarrow> string) \<Rightarrow>
   layered_skills \<Rightarrow> string list \<Rightarrow> string \<Rightarrow> string \<Rightarrow> (skill_error option) + string" where
  "execute_local_skill pretty run no_output l chain n input =
     (case get_for_scopes l chain n of
        None \<Rightarrow> Inl None
      | Some s \<Rightarrow>
          (case skill_execute pretty run s input of
             Inl err \<Rightarrow> Inl (Some err)
           | Inr output \<Rightarrow> Inr (if trim output = [] then no_output n else output)))"

subsection \<open>Layers of agents\<close>

record agent =
  ag_agent_id :: string
  ag_name :: string
  ag_description :: string
  ag_workspace_dir :: string
  ag_system_prompt :: string
  ag_model :: "string option"
  ag_temperature :: "real option"
  ag_max_tokens :: "u32 option"
  ag_skills :: skill_registry
  ag_is_default :: bool

type_synonym agent_catalog = "(string, agent) hmap"

record layered_agents =
  la_global :: agent_catalog
  la_scoped :: "(string, agent_catalog) hmap"

record catalog_agent_entry =
  ca_agent :: agent
  ca_source_layer :: string
  ca_source_scope :: "string option"

definition catalog_new :: "agent_catalog \<Rightarrow> layered_agents" where
  "catalog_new global = \<lparr>la_global = global, la_scoped = []\<rparr>"

definition register_scoped_catalog :: "string \<Rightarrow> agent_catalog \<Rightarrow> layered_agents \<Rightarrow> layered_agents" where
  "register_scoped_catalog scope agents l =
     (if agents = [] then l\<lparr>la_scoped := hm_remove scope (la_scoped l)\<rparr>
      else l\<lparr>la_scoped := hm_insert scope agents (la_scoped l)\<rparr>)"

definition scoped_agent :: "layered_agents \<Rightarrow> string \<Rightarrow> string \<Rightarrow> agent option" where
  "scoped_agent l scope agent_id = Option.bind (hm_get (la_scoped l) scope) (\<lambda>c. hm_get c agent_id)"

definition scoped_agent_entry :: "string \<Rightarrow> agent \<Rightarrow> catalog_agent_entry" where
  "scoped_agent_entry scope a =
     \<lparr>ca_agent = a, ca_source_layer = scope_layer_from_scope scope, ca_source_scope = Some scope\<rparr>"

definition global_agent_entry :: "agent \<Rightarrow> catalog_agent_entry" where
  "global_agent_entry a = \<lparr>ca_agent = a, ca_source_layer = ''global'', ca_source_scope = None\<rparr>"

fun catalog_for_scopes_entry :: "layered_agents \<Rightarrow> string list \<Rightarrow> string \<Rightarrow> catalog_agent_entry option" where
  "catalog_for_scopes_entry l [] agent_id = map_option global_agent_entry (hm_get (la_global l) agent_id)"
| "catalog_for_scopes_entry l (scope # scopes) agent_id =
     (case scoped_agent l scope agent_id of
        Some a \<Rightarrow> Some (scoped_agent_entry scope a)
      | None \<Rightarrow> catalog_for_scopes_entry l scopes agent_id)"

definition catalog_for_scopes :: "layered_agents \<Rightarrow> string list \<Rightarrow> string \<Rightarrow> agent option" where
  "catalog_for_scopes l scopes agent_id = map_option ca_agent (catalog_for_scopes_entry l scopes agent_id)"

definition catalog_entry_by_source ::
  "layered_agents \<Rightarrow> string \<Rightarrow> string \<Rightarrow> string option \<Rightarrow> catalog_agent_entry option" where
  "catalog_entry_by_source l agent_id source_layer source_scope =
     (if source_layer = ''global''
      then (case hm_get (la_global l) agent_id of
              Some a \<Rightarrow> if source_scope = None then Some (global_agent_entry a) else None
            | None \<Rightarrow> None)
      else (case source_scope of
              None \<Rightarrow> None
            | Some scope \<Rightarrow>
                if scope_layer_from_scope scope = source_layer
                then map_option (scoped_agent_entry scope) (scoped_agent l scope agent_id)
                else None))"

definition list_all_ids :: "layered_agents \<Rightarrow> string list" where
  "list_all_ids l = sort_dedup (hm_keys (la_global l) @ concat (map hm_keys (hm_values (la_scoped l))))"

definition unsorted_agents :: "layered_agents \<Rightarrow> catalog_agent_entry list" where
  "unsorted_agents l =
     map global_agent_entry (hm_values (la_global l))
     @ concat (map (\<lambda>scope. case hm_get (la_scoped l) scope of
                             Some c \<Rightarrow> map (scoped_agent_entry scope) (hm_values c) | None \<Rightarrow> [])
                   (sorted_scopes (la_scoped l)))"

definition catalog_list_all_entries :: "layered_agents \<Rightarrow> catalog_agent_entry list" where
  "catalog_list_all_entries l =
     sort_key (\<lambda>e. (ag_agent_id (ca_agent e), scope_layer_rank (ca_source_layer e), scope_text (ca_source_scope e)))
       (unsorted_agents l)"

definition catalog_any_entry :: "layered_agents \<Rightarrow> string \<Rightarrow> catalog_agent_entry option" where
  "catalog_any_entry l agent_id = catalog_for_scopes_entry l (sorted_scopes_by_rank (la_scoped l)) agent_id"

definition catalog_any :: "layered_agents \<Rightarrow> string \<Rightarrow> agent option" where
  "catalog_any l agent_id = map_option ca_agent (catalog_any_entry l agent_id)"

definition catalog_contains_any :: "layered_agents \<Rightarrow> string \<Rightarrow> bool" where
  "catalog_contains_any l agent_id = (catalog_any l agent_id \<noteq> None)"

text \<open>The agent of a decision: the one the session sees, otherwise any of that name.\<close>

definition decision_agent :: "layered_agents \<Rightarrow> string list \<Rightarrow> string \<Rightarrow> agent option" where
  "decision_agent l chain agent_id =
     (case catalog_for_scopes l chain agent_id of Some a \<Rightarrow> Some a | None \<Rightarrow> catalog_any l agent_id)"

subsection \<open>Interface: a lookup through layers\<close>

text \<open>
  What both registries promise of a lookup along a chain of scopes: the first scope that has the
  name answers, the global layer comes last.
\<close>

locale layered_lookup =
  fixes global :: "'l \<Rightarrow> string \<Rightarrow> 'v option"
    and scoped :: "'l \<Rightarrow> string \<Rightarrow> string \<Rightarrow> 'v option"
    and lookup :: "'l \<Rightarrow> string list \<Rightarrow> string \<Rightarrow> 'e option"
    and at_scope :: "string \<Rightarrow> 'v \<Rightarrow> 'e"
    and at_global :: "'v \<Rightarrow> 'e"
  assumes lookup_Nil: "lookup l [] n = map_option at_global (global l n)"
    and lookup_Cons: "lookup l (scope # scopes) n =
      (case scoped l scope n of Some v \<Rightarrow> Some (at_scope scope v) | None \<Rightarrow> lookup l scopes n)"
begin

lemma lookup_skip: "list_all (\<lambda>p. scoped l p n = None) pre \<Longrightarrow> lookup l (pre @ scopes) n = lookup l scopes n"
  by (induction pre) (auto simp: lookup_Cons)

lemma lookup_iff:
  "lookup l scopes n = Some e \<longleftrightarrow>
     (\<exists>pre scope post v. scopes = pre @ scope # post \<and> list_all (\<lambda>p. scoped l p n = None) pre
        \<and> scoped l scope n = Some v \<and> e = at_scope scope v)
     \<or> list_all (\<lambda>p. scoped l p n = None) scopes \<and> (\<exists>v. global l n = Some v \<and> e = at_global v)"
  (is "_ \<longleftrightarrow> ?found scopes \<or> ?fallback scopes")
proof (induction scopes)
  case (Cons scope scopes)
  show ?case
  proof (cases "scoped l scope n")
    case None
    have "?found (scope # scopes) \<longleftrightarrow> ?found scopes"
    proof
      assume "?found (scope # scopes)"
      then obtain pre s post v where p: "scope # scopes = pre @ s # post" "list_all (\<lambda>p. scoped l p n = None) pre"
          "scoped l s n = Some v" "e = at_scope s v" by blast
      then obtain pre' where "pre = scope # pre'" using None by (cases pre) auto
      then show "?found scopes" using p by auto
    next
      assume "?found scopes"
      then obtain pre s post v where "scopes = pre @ s # post" "list_all (\<lambda>p. scoped l p n = None) pre"
          "scoped l s n = Some v" "e = at_scope s v" by blast
      then show "?found (scope # scopes)" using None
        by (intro exI [of _ "scope # pre"] exI [of _ s] exI [of _ post] exI [of _ v]) simp
    qed
    then show ?thesis using None Cons.IH by (simp add: lookup_Cons)
  next
    case (Some v)
    have "lookup l (scope # scopes) n = Some (at_scope scope v)" by (simp add: lookup_Cons Some)
    moreover have "?found (scope # scopes) \<longleftrightarrow> e = at_scope scope v"
    proof
      assume "?found (scope # scopes)"
      then obtain pre s post w where p: "scope # scopes = pre @ s # post" "list_all (\<lambda>p. scoped l p n = None) pre"
          "scoped l s n = Some w" "e = at_scope s w" by blast
      then have "pre = []" using Some by (cases pre) auto
      then show "e = at_scope scope v" using p Some by simp
    next
      assume "e = at_scope scope v"
      then show "?found (scope # scopes)" using Some
        by (intro exI [of _ "[]"] exI [of _ scope] exI [of _ scopes] exI [of _ v]) simp
    qed
    ultimately show ?thesis using Some by auto
  qed
qed (auto simp: lookup_Nil)

lemma lookup_defined: "lookup l scopes n \<noteq> None \<longleftrightarrow> global l n \<noteq> None \<or> list_ex (\<lambda>s. scoped l s n \<noteq> None) scopes"
  by (induction scopes) (auto simp: lookup_Nil lookup_Cons split: option.split)

lemma lookup_wider:
  "set scopes \<subseteq> set wider \<Longrightarrow> lookup l scopes n \<noteq> None \<Longrightarrow> lookup l wider n \<noteq> None"
  unfolding lookup_defined by (auto simp: list_ex_iff)

end

interpretation skills: layered_lookup "\<lambda>l. skill_registry_get (ls_global l)" scoped_skill get_for_scopes_entry
  scoped_entry global_entry
  by unfold_locales simp_all

interpretation agents: layered_lookup "\<lambda>l. hm_get (la_global l)" scoped_agent catalog_for_scopes_entry
  scoped_agent_entry global_agent_entry
  by unfold_locales simp_all

subsection \<open>Resolution, listing and lookup by source agree\<close>

text \<open>
  A session resolves a skill to the first scope of its chain that has it, and to the global
  registry only when none of them does.
\<close>

theorem skill_resolution_order:
  "get_for_scopes_entry l scopes n = Some e \<longleftrightarrow>
     (\<exists>pre scope post s. scopes = pre @ scope # post \<and> list_all (\<lambda>p. scoped_skill l p n = None) pre
        \<and> scoped_skill l scope n = Some s \<and> e = scoped_entry scope s)
     \<or> list_all (\<lambda>p. scoped_skill l p n = None) scopes \<and> (\<exists>s. skill_registry_get (ls_global l) n = Some s \<and> e = global_entry s)"
  by (rule skills.lookup_iff)

lemma distinct_remdups_adj_sorted: "sorted xs \<Longrightarrow> distinct (remdups_adj xs)"
  by (induction xs rule: remdups_adj.induct) (auto simp: less_le_not_le)

lemma sort_dedup_facts: "sorted (sort_dedup xs)" "distinct (sort_dedup xs)" "set (sort_dedup xs) = set xs"
  by (simp_all add: sort_dedup_def distinct_remdups_adj_sorted)

lemma hm_get_keys: "hm_get m k \<noteq> None \<longleftrightarrow> k \<in> set (hm_keys m)"
  by (simp add: map_of_eq_None_iff)

lemma scoped_skill_Some:
  "scoped_skill l scope n = Some s \<longleftrightarrow> (\<exists>r. hm_get (ls_scoped l) scope = Some r \<and> skill_registry_get r n = Some s)"
  by (auto simp: scoped_skill_def bind_eq_Some_conv)

text \<open>
  The names offered to a session, in order and without repetition, are exactly those its lookup
  resolves.
\<close>

theorem visible_names_resolve:
  "sorted (list_names_for_scopes l scopes) \<and> distinct (list_names_for_scopes l scopes)
   \<and> set (list_names_for_scopes l scopes) = {n. get_for_scopes l scopes n \<noteq> None}"
proof -
  have "n \<in> set (list_names_for_scopes l scopes) \<longleftrightarrow> get_for_scopes l scopes n \<noteq> None" for n
  proof -
    have "scoped_skill l s n \<noteq> None \<longleftrightarrow>
        n \<in> set (case hm_get (ls_scoped l) s of Some r \<Rightarrow> registry_list_names r | None \<Rightarrow> [])" for s
      using hm_get_keys [of _ n]
      by (cases "hm_get (ls_scoped l) s") (simp_all add: scoped_skill_def skill_registry_get_def registry_list_names_def)
    then have "get_for_scopes l scopes n \<noteq> None \<longleftrightarrow> n \<in> set (registry_list_names (ls_global l))
        \<or> (\<exists>s\<in>set scopes. n \<in> set (case hm_get (ls_scoped l) s of Some r \<Rightarrow> registry_list_names r | None \<Rightarrow> []))"
      using skills.lookup_defined [of l scopes n] hm_get_keys [of "ls_global l" n]
      by (simp add: get_for_scopes_def list_ex_iff skill_registry_get_def registry_list_names_def)
    then show ?thesis by (simp add: list_names_for_scopes_def sort_dedup_facts)
  qed
  then show ?thesis by (auto simp: list_names_for_scopes_def sort_dedup_facts)
qed

text \<open>
  The registries a directory gives: keyed by the name of the skill, with one entry per name; and
  layers of them, none registered under the name of the global layer.
\<close>

definition registry_ok :: "skill_registry \<Rightarrow> bool" where
  "registry_ok r = (hm_wf r \<and> list_all (\<lambda>(n, s). skill_name s = n) r)"

definition layered_ok :: "layered_skills \<Rightarrow> bool" where
  "layered_ok l =
     (registry_ok (ls_global l) \<and> hm_wf (ls_scoped l)
      \<and> list_all (\<lambda>(scope, r). scope_layer_from_scope scope \<noteq> ''global'' \<and> registry_ok r) (ls_scoped l))"

lemma registry_ok_register: "registry_ok r \<Longrightarrow> registry_ok (register_skill s r)"
proof -
  assume "registry_ok r"
  then have wf: "hm_wf r" and k: "\<And>n t. (n, t) \<in> set r \<Longrightarrow> skill_name t = n"
    by (auto simp: registry_ok_def list_all_iff)
  have "skill_name t = n" if "(n, t) \<in> set (register_skill s r)" for n t
  proof -
    have "hm_get (register_skill s r) n = Some t"
      using that wf by (simp add: register_skill_def hm_get_iff)
    then show ?thesis
      using wf k by (auto simp: register_skill_def hm_get_insert hm_get_iff split: if_splits)
  qed
  then show ?thesis using wf by (auto simp: registry_ok_def list_all_iff register_skill_def)
qed

lemma registry_ok_load: "registry_ok r \<Longrightarrow> registry_ok (snd (load_from_dir y t ds r))"
  by (induction y t ds r rule: load_from_dir.induct) (auto split: sum.split prod.split simp: registry_ok_register)

lemma layered_ok_new: "registry_ok r \<Longrightarrow> layered_ok (layered_new r)"
  by (simp add: layered_ok_def layered_new_def)

lemma layered_ok_register:
  assumes "layered_ok l" and "registry_ok r" and "scope_layer_from_scope scope \<noteq> ''global''"
  shows "layered_ok (register_scoped_registry scope r l)"
proof -
  have wf: "hm_wf (ls_scoped l)" using assms(1) by (simp add: layered_ok_def)
  have "\<forall>x\<in>set (hm_remove scope (ls_scoped l)). x \<in> set (ls_scoped l)"
    by (auto simp: AList.delete_eq)
  moreover have "(a, b) \<in> set (ls_scoped l) \<or> (a, b) = (scope, r)"
    if "(a, b) \<in> set (hm_insert scope r (ls_scoped l))" for a b
    using that wf hm_get_iff [of "hm_insert scope r (ls_scoped l)" a b]
    by (auto simp: hm_get_insert hm_get_iff split: if_splits)
  ultimately show ?thesis
    using assms wf by (fastforce simp: layered_ok_def register_scoped_registry_def list_all_iff)
qed

lemma registry_values:
  "registry_ok r \<Longrightarrow> s \<in> set (hm_values r) \<longleftrightarrow> skill_registry_get r (skill_name s) = Some s"
proof -
  assume "registry_ok r"
  then have wf: "hm_wf r" and k: "\<And>n t. (n, t) \<in> set r \<Longrightarrow> skill_name t = n"
    by (auto simp: registry_ok_def list_all_iff)
  have "s \<in> set (hm_values r) \<longleftrightarrow> (\<exists>n. (n, s) \<in> set r)" by force
  also have "\<dots> \<longleftrightarrow> (skill_name s, s) \<in> set r" using k by blast
  finally show ?thesis using hm_get_iff [OF wf, of "skill_name s" s] by (simp add: skill_registry_get_def)
qed

lemma unsorted_entries_iff:
  assumes "layered_ok l"
  shows "e \<in> set (unsorted_entries l) \<longleftrightarrow>
    (\<exists>s. e = global_entry s \<and> skill_registry_get (ls_global l) (skill_name s) = Some s)
    \<or> (\<exists>scope s. e = scoped_entry scope s \<and> scoped_skill l scope (skill_name s) = Some s)"
proof -
  have g: "registry_ok (ls_global l)" using assms by (simp add: layered_ok_def)
  have r: "registry_ok r" if "hm_get (ls_scoped l) scope = Some r" for scope r
    using that assms by (auto simp: layered_ok_def list_all_iff hm_get_iff)
  have "(\<exists>scope\<in>set (hm_keys (ls_scoped l)). e \<in> set (case hm_get (ls_scoped l) scope of
          Some r \<Rightarrow> map (scoped_entry scope) (hm_values r) | None \<Rightarrow> []))
        \<longleftrightarrow> (\<exists>scope r s. hm_get (ls_scoped l) scope = Some r \<and> e = scoped_entry scope s \<and> s \<in> set (hm_values r))"
  proof
    assume "\<exists>scope\<in>set (hm_keys (ls_scoped l)). e \<in> set (case hm_get (ls_scoped l) scope of
          Some r \<Rightarrow> map (scoped_entry scope) (hm_values r) | None \<Rightarrow> [])"
    then show "\<exists>scope r s. hm_get (ls_scoped l) scope = Some r \<and> e = scoped_entry scope s \<and> s \<in> set (hm_values r)"
    proof
      fix scope
      assume sc: "e \<in> set (case hm_get (ls_scoped l) scope of
          Some r \<Rightarrow> map (scoped_entry scope) (hm_values r) | None \<Rightarrow> [])"
      then obtain r where "hm_get (ls_scoped l) scope = Some r" by (cases "hm_get (ls_scoped l) scope") auto
      with sc show ?thesis by auto
    qed
  next
    assume "\<exists>scope r s. hm_get (ls_scoped l) scope = Some r \<and> e = scoped_entry scope s \<and> s \<in> set (hm_values r)"
    then obtain scope r s where *: "hm_get (ls_scoped l) scope = Some r" "e = scoped_entry scope s"
      "s \<in> set (hm_values r)" by blast
    show "\<exists>scope\<in>set (hm_keys (ls_scoped l)). e \<in> set (case hm_get (ls_scoped l) scope of
          Some r \<Rightarrow> map (scoped_entry scope) (hm_values r) | None \<Rightarrow> [])"
      using * by (intro bexI [of _ scope]) (auto dest: hm_get_SomeD)
  qed
  also have "\<dots> \<longleftrightarrow> (\<exists>scope s. e = scoped_entry scope s \<and> scoped_skill l scope (skill_name s) = Some s)"
    unfolding scoped_skill_Some using registry_values [OF r] by blast
  finally have scoped: "(\<exists>scope\<in>set (hm_keys (ls_scoped l)). e \<in> set (case hm_get (ls_scoped l) scope of
          Some r \<Rightarrow> map (scoped_entry scope) (hm_values r) | None \<Rightarrow> []))
        \<longleftrightarrow> (\<exists>scope s. e = scoped_entry scope s \<and> scoped_skill l scope (skill_name s) = Some s)" .
  have "e \<in> global_entry ` set (hm_values (ls_global l))
        \<longleftrightarrow> (\<exists>s. e = global_entry s \<and> skill_registry_get (ls_global l) (skill_name s) = Some s)"
    unfolding image_iff Bex_def registry_values [OF g] by blast
  with scoped show ?thesis
    by (simp only: unsorted_entries_def sorted_scopes_def set_append Un_iff set_map set_concat UN_iff set_sort
        image_image bex_simps)
qed

lemma scoped_layer:
  "layered_ok l \<Longrightarrow> scoped_skill l scope n = Some s \<Longrightarrow> scope_layer_from_scope scope \<noteq> ''global''"
  by (auto simp: layered_ok_def list_all_iff scoped_skill_def hm_get_iff bind_eq_Some_conv)

text \<open>
  An entry of the full listing is exactly what a lookup by its own name, layer and scope
  returns: nothing listed is out of reach, nothing reachable is unlisted.
\<close>

theorem entries_by_source:
  assumes "layered_ok l"
  shows "e \<in> set (list_all_entries l) \<longleftrightarrow>
    get_entry_by_source l (skill_name (le_skill e)) (le_source_layer e) (le_source_scope e) = Some e"
proof -
  have "get_entry_by_source l (skill_name (le_skill e)) (le_source_layer e) (le_source_scope e) = Some e \<longleftrightarrow>
    (\<exists>s. e = global_entry s \<and> skill_registry_get (ls_global l) (skill_name s) = Some s)
    \<or> (\<exists>scope s. e = scoped_entry scope s \<and> scoped_skill l scope (skill_name s) = Some s)"
  proof (cases "le_source_layer e = ''global''")
    case True
    then show ?thesis
      by (cases e) (auto simp: get_entry_by_source_def global_entry_def scoped_entry_def
          dest!: scoped_layer [OF assms])
  next
    case False
    then show ?thesis
      by (cases e) (auto simp: get_entry_by_source_def global_entry_def scoped_entry_def split: option.splits)
  qed
  then show ?thesis by (simp add: list_all_entries_def unsorted_entries_iff [OF assms])
qed

definition example_skill :: "string \<Rightarrow> skill" where
  "example_skill n =
     \<lparr>sl_manifest = \<lparr>sm_name = n, sm_description = [], sm_version = ''1.0'', sm_author = None, sm_parameters = [],
                     sm_permissions = []\<rparr>,
      sl_config = skill_config_default, sl_executor = DummyExecutor n []\<rparr>"

definition example_layers :: layered_skills where
  "example_layers = register_scoped_registry ''user:u2'' (register_skill (example_skill ''b'') [])
     (layered_new (register_skill (example_skill ''a'') []))"

lemma example_layers_ok: "layered_ok example_layers"
  by code_simp

theorem entries_by_source_witness:
  "scoped_entry ''user:u2'' (example_skill ''b'') \<in> set (list_all_entries example_layers)"
proof -
  have "get_entry_by_source example_layers ''b'' ''user'' (Some ''user:u2'')
      = Some (scoped_entry ''user:u2'' (example_skill ''b''))"
    by code_simp
  then show ?thesis
    unfolding entries_by_source [OF example_layers_ok]
    by (simp add: scoped_entry_def example_skill_def scope_layer_from_scope_def)
qed

text \<open>
  A query by name and the listing of a conversation ignore the scopes of the session: a skill of
  another user is found where the session's own lookup finds nothing.
\<close>

lemma any_ignores_scopes:
  "get_for_scopes example_layers [''user:u1'', ''global''] ''b'' = None"
  "get_any example_layers ''b'' = Some (example_skill ''b'')"
  by code_simp+

subsection \<open>The best of all scopes\<close>

text \<open>Among the scopes that have a name, \<open>get_any\<close> takes one of the lowest rank.\<close>

lemma any_entry_best:
  assumes "get_any_entry l n = Some (scoped_entry scope s)" and "scoped_skill l other n \<noteq> None"
  shows "scope_layer_rank (scope_layer_from_scope scope) \<le> scope_layer_rank (scope_layer_from_scope other)"
proof -
  let ?k = "\<lambda>s. (scope_layer_rank (scope_layer_from_scope s), s)"
  let ?ss = "sorted_scopes_by_rank (ls_scoped l)"
  obtain pre post where p: "?ss = pre @ scope # post" "list_all (\<lambda>p. scoped_skill l p n = None) pre"
    using assms(1) unfolding get_any_entry_def skills.lookup_iff
    by (auto simp: scoped_entry_def global_entry_def)
  have "other \<in> set (hm_keys (ls_scoped l))"
    using assms(2) by (auto simp: scoped_skill_Some dest: hm_get_SomeD)
  then have "other \<in> set ?ss" by (simp add: sorted_scopes_by_rank_def)
  then have "other = scope \<or> other \<in> set post" using p assms(2) by (auto simp: list_all_iff)
  moreover have "sorted (map ?k ?ss)" by (simp add: sorted_scopes_by_rank_def)
  ultimately have "?k scope \<le> ?k other" unfolding p(1) by (auto simp: sorted_append)
  then show ?thesis by (auto simp: less_eq_prod_def)
qed

subsection \<open>Execution\<close>

text \<open>
  A process counts as successful exactly when it exits with success and writes nothing but white
  space to its error output.
\<close>

lemma process_verdict_ok:
  "(\<exists>msg. process_verdict pretty p out = Inr msg) \<longleftrightarrow>
     (\<exists>status o' e'. out = ProcExit True status o' e' \<and> trim e' = [])"
  by (cases out) (auto simp: Let_def split: option.split)

text \<open>The front matter ends at the first three dashes, also inside a value.\<close>

lemma frontmatter_cut: "frontmatter ''---x: a---b---'' = Inr ''x: a''"
  by code_simp

end
