(* ===== verification/Cron.thy ===== *)
theory Cron
  imports Prelude
begin

section \<open>Cron expressions (\<^verbatim>\<open>uhorse-scheduler/src/cron.rs\<close>)\<close>

text \<open>
  The parser of five and six field cron expressions, the test whether an instant matches a
  schedule, and the search for the next matching instant. An instant counts nanoseconds since the
  Unix epoch. The calendar (\<^verbatim>\<open>Datelike\<close> and \<^verbatim>\<open>Timelike\<close> of the \<^verbatim>\<open>chrono\<close> package) is a parameter, a
  record of the functions the code calls; \<open>utc_calendar\<close> is the Gregorian calendar, for the
  witnesses. Against the parser stands the field syntax as a datatype \<open>field_spec\<close> with its printer
  and the set of values it denotes: parsing what is printed gives what is denoted.
\<close>

subsection \<open>Fields\<close>

record cron_field =
  cf_values :: "u32 set"
  cf_is_wildcard :: bool
  cf_step :: "u32 option"

text \<open>\<^verbatim>\<open>expr.find(c)\<close> with the two slices around the position.\<close>

fun find_split :: "char \<Rightarrow> string \<Rightarrow> (string \<times> string) option" where
  "find_split c [] = None"
| "find_split c (x # xs) =
     (if x = c then Some ([], xs)
      else (case find_split c xs of None \<Rightarrow> None | Some (a, b) \<Rightarrow> Some (x # a, b)))"

text \<open>\<^verbatim>\<open>(start..=end).step_by(k)\<close> for a positive \<open>k\<close>.\<close>

function range_step :: "nat \<Rightarrow> nat \<Rightarrow> nat \<Rightarrow> nat list" where
  "range_step s e k = (if k = 0 \<or> e < s then [] else s # range_step (s + k) e k)"
  by pat_completeness auto
termination by (relation "measure (\<lambda>(s, e, k). Suc e - s)") auto

declare range_step.simps [simp del]

definition range_values :: "u32 \<Rightarrow> u32 \<Rightarrow> u32 \<Rightarrow> u32 list" where
  "range_values s e k = map of_nat (range_step (unat s) (unat e) (unat k))"

text \<open>The loops \<^verbatim>\<open>for i in ... { if i >= min && i <= max { values.insert(i); } }\<close>.\<close>

definition insert_in_bounds :: "u32 list \<Rightarrow> u32 \<Rightarrow> u32 \<Rightarrow> u32 set \<Rightarrow> u32 set" where
  "insert_in_bounds is mn mx vs = vs \<union> set (filter (\<lambda>i. mn \<le> i \<and> i \<le> mx) is)"

definition conflict :: "string \<Rightarrow> string \<Rightarrow> failure" where
  "conflict msg arg = Fail (ScheduleConflict (msg @ arg))"

text \<open>\<^verbatim>\<open>s.parse::<u32>().map_err(...)\<close>.\<close>

definition parse_num :: "string \<Rightarrow> string \<Rightarrow> string \<Rightarrow> failure + u32" where
  "parse_num msg arg s = (case parse_u32 s of None \<Rightarrow> Inl (conflict msg arg) | Some n \<Rightarrow> Inr n)"

definition parse_bounds :: "string \<Rightarrow> string \<Rightarrow> string \<Rightarrow> string \<Rightarrow> failure + u32 \<times> u32" where
  "parse_bounds what arg a b =
     (case parse_num (''Invalid '' @ what @ '' start: '') arg a of
        Inl e \<Rightarrow> Inl e
      | Inr start \<Rightarrow>
          (case parse_num (''Invalid '' @ what @ '' end: '') arg b of
             Inl e \<Rightarrow> Inl e
           | Inr end \<Rightarrow> Inr (start, end)))"

fun parse_list :: "string list \<Rightarrow> u32 \<Rightarrow> u32 \<Rightarrow> u32 set \<Rightarrow> failure + u32 set" where
  "parse_list [] mn mx vs = Inr vs"
| "parse_list (part # parts) mn mx vs =
     (case find_split (CHR ''-'') part of
        Some (a, b) \<Rightarrow>
          (case parse_bounds ''list range'' part a b of
             Inl e \<Rightarrow> Inl e
           | Inr (start, end) \<Rightarrow>
               parse_list parts mn mx (insert_in_bounds (range_values start end 1) mn mx vs))
      | None \<Rightarrow>
          (case parse_num ''Invalid value: '' part part of
             Inl e \<Rightarrow> Inl e
           | Inr val \<Rightarrow>
               if val < mn \<or> mx < val
               then Inl (conflict ''Value '' (dec_string (unat val) @ '' out of range ('' @
                      dec_string (unat mn) @ ''-'' @ dec_string (unat mx) @ '')''))
               else parse_list parts mn mx (insert val vs)))"

text \<open>The part of \<open>parse_field\<close> after the step: a range, else a list.\<close>

definition parse_plain :: "string \<Rightarrow> u32 option \<Rightarrow> u32 \<Rightarrow> u32 \<Rightarrow> failure + cron_field" where
  "parse_plain expr step mn mx =
     (case find_split (CHR ''-'') expr of
        Some (a, b) \<Rightarrow>
          (case parse_bounds ''range'' expr a b of
             Inl e \<Rightarrow> Inl e
           | Inr (start, end) \<Rightarrow>
               Inr \<lparr>cf_values = insert_in_bounds (range_values start end 1) mn mx {},
                    cf_is_wildcard = False, cf_step = step\<rparr>)
      | None \<Rightarrow>
          (case parse_list (split_on (CHR '','') expr) mn mx {} of
             Inl e \<Rightarrow> Inl e
           | Inr vs \<Rightarrow> Inr \<lparr>cf_values = vs, cf_is_wildcard = False, cf_step = step\<rparr>))"

definition step_panic :: failure where
  "step_panic = Panic ''assertion failed: step != 0''"

definition parse_field :: "string \<Rightarrow> u32 \<Rightarrow> u32 \<Rightarrow> failure + cron_field" where
  "parse_field expr mn mx =
     (if expr = ''*''
      then Inr \<lparr>cf_values = set (range_values mn mx 1), cf_is_wildcard = True, cf_step = None\<rparr>
      else
        (case find_split (CHR ''/'') expr of
           None \<Rightarrow> parse_plain expr None mn mx
         | Some (base, rest) \<Rightarrow>
             (case parse_num ''Invalid step value: '' expr rest of
                Inl e \<Rightarrow> Inl e
              | Inr step \<Rightarrow>
                  if base = ''*'' then
                    (if step = 0 then Inl step_panic
                     else Inr \<lparr>cf_values = set (range_values mn mx step),
                               cf_is_wildcard = True, cf_step = Some step\<rparr>)
                  else
                    (case find_split (CHR ''-'') base of
                       None \<Rightarrow> parse_plain expr (Some step) mn mx
                     | Some (a, b) \<Rightarrow>
                         (case parse_bounds ''range'' base a b of
                            Inl e \<Rightarrow> Inl e
                          | Inr (start, end) \<Rightarrow>
                              if step = 0 then Inl step_panic
                              else Inr \<lparr>cf_values = insert_in_bounds (range_values start end step) mn mx {},
                                        cf_is_wildcard = False, cf_step = Some step\<rparr>)))))"

subsection \<open>Expressions\<close>

record cron_schedule =
  cs_expression :: string
  cs_include_seconds :: bool
  cs_seconds :: "cron_field option"
  cs_minutes :: cron_field
  cs_hours :: cron_field
  cs_days_of_month :: cron_field
  cs_months :: cron_field
  cs_days_of_week :: cron_field

record cron_parser =
  cp_include_seconds :: bool

definition cron_parser_new :: cron_parser where
  "cron_parser_new = \<lparr>cp_include_seconds = False\<rparr>"

definition cron_parser_with_seconds :: cron_parser where
  "cron_parser_with_seconds = \<lparr>cp_include_seconds = True\<rparr>"

text \<open>\<open>split_whitespace\<close>: the maximal runs of characters that are not white space.\<close>

fun split_ws :: "string \<Rightarrow> string \<Rightarrow> string list" where
  "split_ws acc [] = (if acc = [] then [] else [acc])"
| "split_ws acc (c # s) =
     (if is_whitespace c then (if acc = [] then split_ws [] s else acc # split_ws [] s)
      else split_ws (acc @ [c]) s)"

definition split_whitespace :: "string \<Rightarrow> string list" where
  "split_whitespace s = split_ws [] s"

text \<open>The fields in their order with their bounds; the first field that fails ends the parse.\<close>

fun parse_fields :: "(string \<times> u32 \<times> u32) list \<Rightarrow> failure + cron_field list" where
  "parse_fields [] = Inr []"
| "parse_fields ((expr, mn, mx) # fs) =
     (case parse_field expr mn mx of
        Inl e \<Rightarrow> Inl e
      | Inr f \<Rightarrow> (case parse_fields fs of Inl e \<Rightarrow> Inl e | Inr r \<Rightarrow> Inr (f # r)))"

definition field_bounds :: "(u32 \<times> u32) list" where
  "field_bounds = [(0, 59), (0, 23), (1, 31), (1, 12), (0, 6)]"

definition cron_parse :: "cron_parser \<Rightarrow> string \<Rightarrow> failure + cron_schedule" where
  "cron_parse p expression =
     (let parts = split_whitespace expression;
          expected_len = (if cp_include_seconds p then 6 else 5)
      in if length parts \<noteq> expected_len
         then Inl (conflict ''Invalid cron expression: expected ''
                (dec_string expected_len @ '' fields, got '' @ dec_string (length parts)))
         else
           (case parse_fields
                   (zip parts ((if cp_include_seconds p then [(0, 59)] else []) @ field_bounds)) of
              Inl e \<Rightarrow> Inl e
            | Inr fs \<Rightarrow>
                (let r = (if cp_include_seconds p then tl fs else fs) in
                 Inr \<lparr>cs_expression = expression, cs_include_seconds = cp_include_seconds p,
                      cs_seconds = (if cp_include_seconds p then Some (hd fs) else None),
                      cs_minutes = r ! 0, cs_hours = r ! 1, cs_days_of_month = r ! 2,
                      cs_months = r ! 3, cs_days_of_week = r ! 4\<rparr>)))"

definition parse_cron :: "string \<Rightarrow> failure + cron_schedule" where
  "parse_cron expression = cron_parse cron_parser_new expression"

definition parse_cron_with_seconds :: "string \<Rightarrow> failure + cron_schedule" where
  "parse_cron_with_seconds expression = cron_parse cron_parser_with_seconds expression"

subsection \<open>Matching and the next instant\<close>

record calendar =
  cal_second :: "instant \<Rightarrow> u32"
  cal_minute :: "instant \<Rightarrow> u32"
  cal_hour :: "instant \<Rightarrow> u32"
  cal_day :: "instant \<Rightarrow> u32"
  cal_month :: "instant \<Rightarrow> u32"
  cal_weekday :: "instant \<Rightarrow> u32"

definition cron_matches :: "calendar \<Rightarrow> cron_schedule \<Rightarrow> instant \<Rightarrow> bool" where
  "cron_matches cal s dt =
     (if (case cs_seconds s of None \<Rightarrow> False | Some f \<Rightarrow> cal_second cal dt \<notin> cf_values f) then False
      else if cal_minute cal dt \<notin> cf_values (cs_minutes s) then False
      else if cal_hour cal dt \<notin> cf_values (cs_hours s) then False
      else if cal_month cal dt \<notin> cf_values (cs_months s) then False
      else
        (let day_matches = cal_day cal dt \<in> cf_values (cs_days_of_month s);
             weekday_matches = cal_weekday cal dt \<in> cf_values (cs_days_of_week s);
             all_wildcard = cf_is_wildcard (cs_days_of_month s) \<and> cf_is_wildcard (cs_days_of_week s)
         in if \<not> all_wildcard \<and> \<not> day_matches \<and> \<not> weekday_matches then False else True))"

fun search_from :: "calendar \<Rightarrow> cron_schedule \<Rightarrow> nat \<Rightarrow> instant \<Rightarrow> instant option" where
  "search_from cal s 0 cur = None"
| "search_from cal s (Suc n) cur =
     (if cron_matches cal s cur then Some cur
      else search_from cal s n (cur + 60 * nanos_per_sec))"

text \<open>The number of rounds of the loop, \<^verbatim>\<open>365 * 4 * 24 * 60\<close>.\<close>

definition search_rounds :: nat where
  "search_rounds = 365 * 4 * 24 * 60"

definition next_after :: "calendar \<Rightarrow> cron_schedule \<Rightarrow> instant \<Rightarrow> instant" where
  "next_after cal s after_t =
     (case search_from cal s search_rounds (after_t + nanos_per_sec) of
        Some t \<Rightarrow> t
      | None \<Rightarrow> after_t + 365 * 4 * 86400 * nanos_per_sec)"

definition cron_description :: "cron_schedule \<Rightarrow> string" where
  "cron_description s = ''Cron schedule: '' @ cs_expression s"

subsection \<open>Presets\<close>

definition every_minute :: string where "every_minute = ''* * * * *''"
definition every_hour :: string where "every_hour = ''0 * * * *''"
definition daily_midnight :: string where "daily_midnight = ''0 0 * * *''"
definition daily_9am :: string where "daily_9am = ''0 9 * * *''"
definition weekly_monday_9am :: string where "weekly_monday_9am = ''0 9 * * 1''"
definition monthly_first_midnight :: string where "monthly_first_midnight = ''0 0 1 * *''"
definition every_5_minutes :: string where "every_5_minutes = ''*/5 * * * *''"
definition every_15_minutes :: string where "every_15_minutes = ''*/15 * * * *''"
definition every_30_minutes :: string where "every_30_minutes = ''*/30 * * * *''"
definition weekdays_9am :: string where "weekdays_9am = ''0 9 * * 1-5''"


subsection \<open>Ranges\<close>

lemma range_step_set:
  "0 < k \<Longrightarrow> set (range_step s e k) = {i. s \<le> i \<and> i \<le> e \<and> k dvd (i - s)}"
proof (induction s e k rule: range_step.induct)
  case (1 s e k)
  show ?case
  proof (cases "e < s")
    case True
    then show ?thesis by (auto simp: range_step.simps [of s e k])
  next
    case False
    have split: "(s \<le> i \<and> i \<le> e \<and> k dvd (i - s)) \<longleftrightarrow>
      i = s \<or> (s + k \<le> i \<and> i \<le> e \<and> k dvd (i - (s + k)))" for i
    proof (cases "s + k \<le> i")
      case True
      then have "k dvd (i - s) \<longleftrightarrow> k dvd (i - (s + k))"
        using dvd_minus_self [of k "i - s"] \<open>0 < k\<close> by auto
      then show ?thesis using True \<open>0 < k\<close> by auto
    next
      case ik: False
      then have "k dvd (i - s) \<Longrightarrow> i \<le> s"
        using dvd_imp_le [of k "i - s"] by linarith
      then show ?thesis using ik False by auto
    qed
    have "set (range_step s e k) = insert s (set (range_step (s + k) e k))"
      using False \<open>0 < k\<close> by (subst range_step.simps) simp
    also have "\<dots> = insert s {i. s + k \<le> i \<and> i \<le> e \<and> k dvd (i - (s + k))}"
      using 1 False by simp
    also have "\<dots> = {i. s \<le> i \<and> i \<le> e \<and> k dvd (i - s)}"
      using split by blast
    finally show ?thesis .
  qed
qed

lemma range_values_set:
  assumes "k \<noteq> 0"
  shows "set (range_values s e k) = {i. s \<le> i \<and> i \<le> e \<and> unat k dvd (unat i - unat s)}"
proof -
  have k: "0 < unat k" using assms by (simp add: unat_gt_0)
  have "x \<in> set (range_values s e k) \<longleftrightarrow> s \<le> x \<and> x \<le> e \<and> unat k dvd (unat x - unat s)" for x
  proof
    assume "x \<in> set (range_values s e k)"
    then obtain i where i: "unat s \<le> i" "i \<le> unat e" "unat k dvd (i - unat s)" "x = of_nat i"
      by (auto simp: range_values_def range_step_set [OF k])
    have "unat e < 2 ^ LENGTH(32)" by (rule unsigned_less)
    then have "unat x = i" using i by (simp add: unat_of_nat)
    then show "s \<le> x \<and> x \<le> e \<and> unat k dvd (unat x - unat s)"
      using i by (simp add: word_le_nat_alt)
  next
    assume x: "s \<le> x \<and> x \<le> e \<and> unat k dvd (unat x - unat s)"
    then have "unat x \<in> set (range_step (unat s) (unat e) (unat k))"
      by (auto simp: range_step_set [OF k] word_le_nat_alt)
    moreover have "x = of_nat (unat x)" by simp
    ultimately show "x \<in> set (range_values s e k)"
      unfolding range_values_def set_map by (rule rev_image_eqI)
  qed
  then show ?thesis by blast
qed

lemma range_values_1 [simp]: "set (range_values s e 1) = {s..e}"
  by (auto simp: range_values_set)

lemma insert_in_bounds_eq: "insert_in_bounds is mn mx vs = vs \<union> (set is \<inter> {mn..mx})"
  by (auto simp: insert_in_bounds_def)

subsection \<open>Parsed values are within their bounds\<close>

lemma parse_list_bounds:
  "parse_list parts mn mx vs = Inr r \<Longrightarrow> vs \<subseteq> {mn..mx} \<Longrightarrow> r \<subseteq> {mn..mx}"
proof (induction parts arbitrary: vs)
  case (Cons part parts)
  show ?case
  proof (cases "find_split (CHR ''-'') part")
    case None
    then show ?thesis using Cons
      by (auto simp: not_less split: sum.splits if_splits)
  next
    case (Some ab)
    then obtain st en where "parse_list parts mn mx (vs \<union> ({st..en} \<inter> {mn..mx})) = Inr r"
      using Cons.prems(1) by (auto simp: insert_in_bounds_eq simp del: Int_atLeastAtMost
          split: sum.splits prod.splits)
    from Cons.IH [OF this] show ?thesis using Cons.prems(2) by blast
  qed
qed simp

lemma parse_plain_bounds: "parse_plain expr st mn mx = Inr f \<Longrightarrow> cf_values f \<subseteq> {mn..mx}"
  by (auto simp: parse_plain_def insert_in_bounds_eq dest!: parse_list_bounds
      split: option.splits sum.splits)

lemma parse_field_bounds: "parse_field expr mn mx = Inr f \<Longrightarrow> cf_values f \<subseteq> {mn..mx}"
  unfolding parse_field_def
  by (split if_splits option.splits sum.splits prod.splits
    | force simp: insert_in_bounds_eq range_values_set dest: parse_plain_bounds)+


lemma parse_fields_bounds:
  "parse_fields fs = Inr r \<Longrightarrow>
     length r = length fs \<and> (\<forall>i<length fs. cf_values (r ! i) \<subseteq> {fst (snd (fs ! i))..snd (snd (fs ! i))})"
proof (induction fs arbitrary: r)
  case (Cons x fs)
  obtain expr mn mx where x: "x = (expr, mn, mx)" by (cases x)
  from Cons.prems x obtain f r' where f: "parse_field expr mn mx = Inr f" "parse_fields fs = Inr r'"
    and r: "r = f # r'"
    by (auto split: sum.splits)
  show ?case using Cons.IH [OF f(2)] parse_field_bounds [OF f(1)] r x
    by (auto simp: nth_Cons split: nat.splits)
qed simp

lemma parse_cron_bounds:
  assumes "parse_cron e = Inr s"
  shows "cf_values (cs_minutes s) \<subseteq> {0..59} \<and> cf_values (cs_hours s) \<subseteq> {0..23} \<and>
    cf_values (cs_days_of_month s) \<subseteq> {1..31} \<and> cf_values (cs_months s) \<subseteq> {1..12} \<and>
    cf_values (cs_days_of_week s) \<subseteq> {0..6}"
proof -
  let ?ps = "split_whitespace e"
  have len: "length ?ps = 5"
    using assms by (auto simp: parse_cron_def cron_parse_def cron_parser_new_def Let_def split: if_splits)
  obtain fs where fs: "parse_fields (zip ?ps field_bounds) = Inr fs"
    and s: "s = \<lparr>cs_expression = e, cs_include_seconds = False, cs_seconds = None,
      cs_minutes = fs ! 0, cs_hours = fs ! 1, cs_days_of_month = fs ! 2, cs_months = fs ! 3,
      cs_days_of_week = fs ! 4\<rparr>"
    using assms len
    by (auto simp: parse_cron_def cron_parse_def cron_parser_new_def Let_def split: sum.splits)
  have "length field_bounds = 5" by (simp add: field_bounds_def)
  then have "\<forall>i<5. cf_values (fs ! i) \<subseteq> {fst (field_bounds ! i)..snd (field_bounds ! i)}"
    using parse_fields_bounds [OF fs] len by simp
  then show ?thesis
    unfolding s by (auto simp: field_bounds_def numeral_eq_Suc All_less_Suc)
qed

subsection \<open>The field syntax and what it denotes\<close>

datatype field_spec =
    Every_value
  | Every_step u32
  | Span u32 u32
  | Span_step u32 u32 u32
  | Items "u32 list"

abbreviation num_print :: "u32 \<Rightarrow> string" where
  "num_print n \<equiv> dec_string (unat n)"

fun field_print :: "field_spec \<Rightarrow> string" where
  "field_print Every_value = ''*''"
| "field_print (Every_step k) = ''*'' @ CHR ''/'' # num_print k"
| "field_print (Span a b) = num_print a @ CHR ''-'' # num_print b"
| "field_print (Span_step a b k) = (num_print a @ CHR ''-'' # num_print b) @ CHR ''/'' # num_print k"
| "field_print (Items vs) = join_with '','' (map num_print vs)"

fun field_denotes :: "u32 \<Rightarrow> u32 \<Rightarrow> field_spec \<Rightarrow> u32 set" where
  "field_denotes mn mx Every_value = {mn..mx}"
| "field_denotes mn mx (Every_step k) = {i \<in> {mn..mx}. unat k dvd (unat i - unat mn)}"
| "field_denotes mn mx (Span a b) = {i \<in> {mn..mx}. a \<le> i \<and> i \<le> b}"
| "field_denotes mn mx (Span_step a b k) =
     {i \<in> {mn..mx}. a \<le> i \<and> i \<le> b \<and> unat k dvd (unat i - unat a)}"
| "field_denotes mn mx (Items vs) = set vs"

fun field_wildcard :: "field_spec \<Rightarrow> bool" where
  "field_wildcard Every_value = True"
| "field_wildcard (Every_step k) = True"
| "field_wildcard f = False"

fun field_step :: "field_spec \<Rightarrow> u32 option" where
  "field_step (Every_step k) = Some k"
| "field_step (Span_step a b k) = Some k"
| "field_step f = None"

text \<open>A step is positive; a list is not empty and stays within the bounds of its field.\<close>

fun field_ok :: "u32 \<Rightarrow> u32 \<Rightarrow> field_spec \<Rightarrow> bool" where
  "field_ok mn mx (Every_step k) = (k \<noteq> 0)"
| "field_ok mn mx (Span_step a b k) = (k \<noteq> 0)"
| "field_ok mn mx (Items vs) = (vs \<noteq> [] \<and> list_all (\<lambda>v. mn \<le> v \<and> v \<le> mx) vs)"
| "field_ok mn mx f = True"

lemma find_split_at: "c \<notin> set p \<Longrightarrow> find_split c (p @ c # s) = Some (p, s)"
  by (induction p) auto

lemma find_split_none: "c \<notin> set s \<Longrightarrow> find_split c s = None"
  by (induction s) auto

lemma not_in_num_print [simp]: "\<not> is_digit_char c \<Longrightarrow> c \<notin> set (num_print n)"
  using dec_string_digits by blast

lemma separators_not_digits [simp]:
  "\<not> is_digit_char (CHR ''-'')" "\<not> is_digit_char (CHR ''/'')" "\<not> is_digit_char (CHR '','')"
  "\<not> is_digit_char (CHR ''*'')" "is_whitespace c \<Longrightarrow> \<not> is_digit_char c"
  by (auto simp: is_digit_char_def is_whitespace_def Let_def)

lemma not_in_join:
  "x \<noteq> c \<Longrightarrow> \<forall>p\<in>set ps. x \<notin> set p \<Longrightarrow> x \<notin> set (join_with [c] ps)"
  by (induction "[c]" ps rule: join_with.induct) auto

lemma parse_num_print [simp]: "parse_num msg arg (num_print n) = Inr n"
  by (simp add: parse_num_def)

lemma parse_bounds_print [simp]: "parse_bounds what arg (num_print a) (num_print b) = Inr (a, b)"
  by (simp add: parse_bounds_def)

lemma parse_list_print:
  "list_all (\<lambda>v. mn \<le> v \<and> v \<le> mx) ns \<Longrightarrow>
     parse_list (map num_print ns) mn mx vs = Inr (vs \<union> set ns)"
  by (induction ns arbitrary: vs) (auto simp: find_split_none not_less [symmetric])

lemma num_print_not_star [simp]: "num_print n \<noteq> ''*''"
  by (metis list.set_intros(1) not_in_num_print separators_not_digits(4))

lemma items_print_not_star: "join_with '','' (map num_print vs) \<noteq> ''*''"
  using not_in_join [of "CHR ''*''" "CHR '',''" "map num_print vs"] by force

lemma parse_field_print:
  assumes "field_ok mn mx f"
  shows "parse_field (field_print f) mn mx =
    Inr \<lparr>cf_values = field_denotes mn mx f, cf_is_wildcard = field_wildcard f, cf_step = field_step f\<rparr>"
proof (cases f)
  case Every_value
  then show ?thesis by (simp add: parse_field_def)
next
  case (Every_step k)
  have "find_split (CHR ''/'') (''*'' @ CHR ''/'' # num_print k) = Some (''*'', num_print k)"
    by (rule find_split_at) simp
  then show ?thesis using Every_step assms
    by (auto simp: parse_field_def range_values_set)
next
  case (Span a b)
  have "find_split (CHR ''-'') (field_print f) = Some (num_print a, num_print b)"
    unfolding Span field_print.simps by (rule find_split_at) simp
  moreover have "find_split (CHR ''/'') (field_print f) = None"
    unfolding Span by (rule find_split_none) simp
  moreover have "field_print f \<noteq> ''*''" using Span by (cases "num_print a") auto
  ultimately show ?thesis using Span
    by (auto simp: parse_field_def parse_plain_def insert_in_bounds_eq)
next
  case (Span_step a b k)
  have "find_split (CHR ''/'') (field_print f) = Some (num_print a @ CHR ''-'' # num_print b, num_print k)"
    unfolding Span_step field_print.simps by (rule find_split_at) simp
  moreover have "find_split (CHR ''-'') (num_print a @ CHR ''-'' # num_print b) = Some (num_print a, num_print b)"
    by (rule find_split_at) simp
  moreover have "field_print f \<noteq> ''*''" "num_print a @ CHR ''-'' # num_print b \<noteq> ''*''"
    using Span_step by (cases "num_print a", auto)+
  ultimately show ?thesis using Span_step assms
    by (auto simp: parse_field_def insert_in_bounds_eq range_values_set)
next
  case (Items vs)
  have "c \<notin> set (field_print f)" if "\<not> is_digit_char c" "c \<noteq> CHR '',''" for c
    unfolding Items field_print.simps using that by (intro not_in_join) auto
  then have "find_split (CHR ''/'') (field_print f) = None" "find_split (CHR ''-'') (field_print f) = None"
    by (auto intro!: find_split_none)
  moreover have "split_on (CHR '','') (field_print f) = map num_print vs"
    unfolding Items field_print.simps using Items assms by (intro split_on_join) auto
  ultimately show ?thesis using Items assms
    by (simp add: parse_field_def parse_plain_def items_print_not_star parse_list_print)
qed

lemma field_print_nonempty: "field_ok mn mx f \<Longrightarrow> field_print f \<noteq> []"
proof (cases f)
  case (Items vs)
  then show "field_ok mn mx f \<Longrightarrow> field_print f \<noteq> []"
    by (cases vs rule: list.exhaust; cases "tl vs") auto
qed auto

lemma field_print_no_space:
  assumes "c \<in> set (field_print f)"
  shows "\<not> is_whitespace c"
proof
  assume w: "is_whitespace c"
  then have "c \<notin> {CHR ''*'', CHR ''/'', CHR ''-'', CHR '',''}"
    by (auto simp: is_whitespace_def Let_def)
  moreover have "c \<notin> set (num_print n)" for n
    using w by simp
  ultimately show False
    using assms not_in_join [of c "CHR '',''"] by (cases f) auto
qed

subsection \<open>Whole expressions\<close>

lemma split_ws_word:
  "\<forall>c\<in>set p. \<not> is_whitespace c \<Longrightarrow> split_ws acc (p @ s) = split_ws (acc @ p) s"
  by (induction p arbitrary: acc) auto

lemma split_whitespace_join:
  "\<forall>p\<in>set ps. p \<noteq> [] \<and> (\<forall>c\<in>set p. \<not> is_whitespace c) \<Longrightarrow>
     split_whitespace (join_with '' '' ps) = ps"
  unfolding split_whitespace_def
proof (induction "'' ''" ps rule: join_with.induct)
  case (2 p)
  then show ?case using split_ws_word [of p "[]" "[]"] by simp
next
  case (3 p q ps)
  have "is_whitespace (CHR '' '')" by (simp add: is_whitespace_def)
  then show ?case using 3 split_ws_word [of p "[]" "CHR '' '' # join_with '' '' (q # ps)"] by simp
qed simp

definition cron_print :: "field_spec list \<Rightarrow> string" where
  "cron_print fs = join_with '' '' (map field_print fs)"

definition field_of :: "u32 \<Rightarrow> u32 \<Rightarrow> field_spec \<Rightarrow> cron_field" where
  "field_of mn mx f =
     \<lparr>cf_values = field_denotes mn mx f, cf_is_wildcard = field_wildcard f, cf_step = field_step f\<rparr>"

lemma parse_fields_print:
  "list_all2 (\<lambda>f (mn, mx). field_ok mn mx f) fs bs \<Longrightarrow>
     parse_fields (zip (map field_print fs) bs) = Inr (map2 (\<lambda>f (mn, mx). field_of mn mx f) fs bs)"
  by (induction fs bs rule: list_all2_induct) (auto simp: parse_field_print field_of_def)

lemma split_cron_print:
  assumes "list_all2 (\<lambda>f (mn, mx). field_ok mn mx f) fs bs"
  shows "split_whitespace (cron_print fs) = map field_print fs"
proof -
  have "\<forall>f\<in>set fs. \<exists>mn mx. field_ok mn mx f"
    using assms by (induction fs bs rule: list_all2_induct) auto
  then show ?thesis
    unfolding cron_print_def
    by (intro split_whitespace_join) (auto dest: field_print_nonempty field_print_no_space)
qed

lemmas parse_print_simps = cron_parse_def Let_def split_cron_print parse_fields_print

lemma parse_cron_print:
  assumes "list_all2 (\<lambda>f (mn, mx). field_ok mn mx f) [m, h, d, mo, w] field_bounds"
  shows "parse_cron (cron_print [m, h, d, mo, w]) =
    Inr \<lparr>cs_expression = cron_print [m, h, d, mo, w], cs_include_seconds = False, cs_seconds = None,
         cs_minutes = field_of 0 59 m, cs_hours = field_of 0 23 h, cs_days_of_month = field_of 1 31 d,
         cs_months = field_of 1 12 mo, cs_days_of_week = field_of 0 6 w\<rparr>"
  using parse_fields_print [OF assms] split_cron_print [OF assms]
  by (simp add: parse_cron_def cron_parse_def cron_parser_new_def field_bounds_def)

lemma parse_cron_with_seconds_print:
  assumes "list_all2 (\<lambda>f (mn, mx). field_ok mn mx f) [sc, m, h, d, mo, w] ((0, 59) # field_bounds)"
  shows "parse_cron_with_seconds (cron_print [sc, m, h, d, mo, w]) =
    Inr \<lparr>cs_expression = cron_print [sc, m, h, d, mo, w], cs_include_seconds = True,
         cs_seconds = Some (field_of 0 59 sc),
         cs_minutes = field_of 0 59 m, cs_hours = field_of 0 23 h, cs_days_of_month = field_of 1 31 d,
         cs_months = field_of 1 12 mo, cs_days_of_week = field_of 0 6 w\<rparr>"
  using parse_fields_print [OF assms] split_cron_print [OF assms]
  by (simp add: parse_cron_with_seconds_def cron_parse_def cron_parser_with_seconds_def field_bounds_def)


subsection \<open>What a schedule matches\<close>

lemma cron_matches_iff:
  "cron_matches cal s t \<longleftrightarrow>
     (\<forall>f. cs_seconds s = Some f \<longrightarrow> cal_second cal t \<in> cf_values f) \<and>
     cal_minute cal t \<in> cf_values (cs_minutes s) \<and> cal_hour cal t \<in> cf_values (cs_hours s) \<and>
     cal_month cal t \<in> cf_values (cs_months s) \<and>
     (cal_day cal t \<in> cf_values (cs_days_of_month s) \<or>
      cal_weekday cal t \<in> cf_values (cs_days_of_week s) \<or>
      cf_is_wildcard (cs_days_of_month s) \<and> cf_is_wildcard (cs_days_of_week s))"
  by (auto simp: cron_matches_def split: option.splits)

text \<open>The Gregorian calendar in UTC, with the days counted in eras of 400 years from 1 March 0000.\<close>

definition utc_day_of_year :: "int \<Rightarrow> int" where
  "utc_day_of_year days =
     (let doe = (days + 719468) mod 146097;
          yoe = (doe - doe div 1460 + doe div 36524 - doe div 146096) div 365
      in doe - (365 * yoe + yoe div 4 - yoe div 100))"

definition utc_month_index :: "int \<Rightarrow> int" where
  "utc_month_index doy = (5 * doy + 2) div 153"

definition utc_calendar :: calendar where
  "utc_calendar =
     \<lparr>cal_second = (\<lambda>t. word_of_int (t div nanos_per_sec mod 60)),
      cal_minute = (\<lambda>t. word_of_int (t div nanos_per_sec div 60 mod 60)),
      cal_hour = (\<lambda>t. word_of_int (t div nanos_per_sec div 3600 mod 24)),
      cal_day = (\<lambda>t. let doy = utc_day_of_year (t div nanos_per_sec div 86400) in
        word_of_int (doy - (153 * utc_month_index doy + 2) div 5 + 1)),
      cal_month = (\<lambda>t. let mp = utc_month_index (utc_day_of_year (t div nanos_per_sec div 86400)) in
        word_of_int (if mp < 10 then mp + 3 else mp - 9)),
      cal_weekday = (\<lambda>t. word_of_int ((t div nanos_per_sec div 86400 + 3) mod 7))\<rparr>"

text \<open>What the code relies on: the day of a month is 1 to 31, a weekday 0 to 6.\<close>

definition calendar_ok :: "calendar \<Rightarrow> bool" where
  "calendar_ok cal \<longleftrightarrow> (\<forall>t. cal_day cal t \<in> {1..31} \<and> cal_weekday cal t \<in> {0..6})"

lemma word_of_int_between:
  fixes a b :: int
  assumes "0 \<le> a" "a \<le> i" "i \<le> b" "b < 2 ^ 32"
  shows "(word_of_int i :: u32) \<in> {word_of_int a..word_of_int b}"
  using assms by (simp add: word_le_def unsigned_of_int take_bit_int_eq_self)

lemma utc_calendar_ok: "calendar_ok utc_calendar"
  unfolding calendar_ok_def
proof (intro allI conjI)
  fix t
  let ?doy = "utc_day_of_year (t div nanos_per_sec div 86400)"
  let ?d = "?doy - (153 * utc_month_index ?doy + 2) div 5 + 1"
  have "1 \<le> ?d" "?d \<le> 31" unfolding utc_month_index_def by linarith+
  then show "cal_day utc_calendar t \<in> {1..31}"
    using word_of_int_between [of 1 ?d 31] by (simp add: utc_calendar_def Let_def)
  let ?w = "(t div nanos_per_sec div 86400 + 3) mod 7"
  have "0 \<le> ?w" "?w \<le> 6" by linarith+
  then show "cal_weekday utc_calendar t \<in> {0..6}"
    using word_of_int_between [of 0 ?w 6] by (simp add: utc_calendar_def)
qed

text \<open>Monday 15 January 2024, 09:05 UTC, and a minute later.\<close>

lemma utc_example:
  "cal_minute utc_calendar 1705309500000000000 = 5" "cal_minute utc_calendar 1705309560000000000 = 6"
  "cal_hour utc_calendar 1705309500000000000 = 9" "cal_day utc_calendar 1705309500000000000 = 15"
  "cal_month utc_calendar 1705309500000000000 = 1" "cal_weekday utc_calendar 1705309500000000000 = 0"
  by code_simp+

text \<open>The instants five fields stand for.\<close>

definition fields_match ::
  "calendar \<Rightarrow> field_spec \<Rightarrow> field_spec \<Rightarrow> field_spec \<Rightarrow> field_spec \<Rightarrow> field_spec \<Rightarrow> instant \<Rightarrow> bool" where
  "fields_match cal m h d mo w t \<longleftrightarrow>
     cal_minute cal t \<in> field_denotes 0 59 m \<and> cal_hour cal t \<in> field_denotes 0 23 h \<and>
     cal_month cal t \<in> field_denotes 1 12 mo \<and>
     (cal_day cal t \<in> field_denotes 1 31 d \<or> cal_weekday cal t \<in> field_denotes 0 6 w \<or>
      field_wildcard d \<and> field_wildcard w)"



text \<open>
  The two day fields are joined by a disjunction and a field \<^verbatim>\<open>*\<close> contains every day: one wildcard
  makes the other field ineffective.
\<close>

lemma day_field_ignored:
  assumes "calendar_ok cal"
    and "list_all2 (\<lambda>f (mn, mx). field_ok mn mx f) [m, h, d, mo, w] field_bounds"
    and "d = Every_value \<or> w = Every_value"
    and "parse_cron (cron_print [m, h, d, mo, w]) = Inr s"
  shows "cron_matches cal s t \<longleftrightarrow>
     cal_minute cal t \<in> field_denotes 0 59 m \<and> cal_hour cal t \<in> field_denotes 0 23 h \<and>
     cal_month cal t \<in> field_denotes 1 12 mo"
proof -
  have "cal_day cal t \<in> {1..31}" "cal_weekday cal t \<in> {0..6}"
    using assms(1) unfolding calendar_ok_def by blast+
  then show ?thesis
    using assms(3,4) unfolding parse_cron_print [OF assms(2)]
    by (auto simp: cron_matches_iff field_of_def)
qed

text \<open>So the presets for Mondays, for working days and for the first of a month run every day.\<close>

lemma presets_print:
  "weekly_monday_9am = cron_print [Items [0], Items [9], Every_value, Every_value, Items [1]]"
  "weekdays_9am = cron_print [Items [0], Items [9], Every_value, Every_value, Span 1 5]"
  "monthly_first_midnight = cron_print [Items [0], Items [0], Items [1], Every_value, Every_value]"
  by (simp_all add: cron_print_def weekly_monday_9am_def weekdays_9am_def monthly_first_midnight_def
      dec_string.simps digit_char_def char_of_def bit_0)

lemma weekly_preset_runs_daily:
  assumes "calendar_ok cal" and "parse_cron weekly_monday_9am = Inr s"
  shows "cron_matches cal s t \<longleftrightarrow>
    cal_minute cal t = 0 \<and> cal_hour cal t = 9 \<and> cal_month cal t \<in> {1..12}"
  using day_field_ignored [OF assms(1) _ _ assms(2) [unfolded presets_print]]
  by (simp add: field_bounds_def)

lemma weekdays_preset_runs_daily:
  assumes "calendar_ok cal" and "parse_cron weekdays_9am = Inr s"
  shows "cron_matches cal s t \<longleftrightarrow>
    cal_minute cal t = 0 \<and> cal_hour cal t = 9 \<and> cal_month cal t \<in> {1..12}"
  using day_field_ignored [OF assms(1) _ _ assms(2) [unfolded presets_print]]
  by (simp add: field_bounds_def)

lemma monthly_preset_runs_daily:
  assumes "calendar_ok cal" and "parse_cron monthly_first_midnight = Inr s"
  shows "cron_matches cal s t \<longleftrightarrow>
    cal_minute cal t = 0 \<and> cal_hour cal t = 0 \<and> cal_month cal t \<in> {1..12}"
  using day_field_ignored [OF assms(1) _ _ assms(2) [unfolded presets_print]]
  by (simp add: field_bounds_def)

text \<open>A list with a range in it, which the comments give as an example, is taken for a range.\<close>

lemma mixed_list_rejected:
  "parse_field ''1,3-5,7'' 0 59 = Inl (conflict ''Invalid range start: '' ''1,3-5,7'')"
  by (simp add: parse_field_def parse_plain_def parse_bounds_def parse_num_def parse_u32_def
      is_digit_char_def)

lemma zero_step_panics: "parse_field ''*/0'' mn mx = Inl step_panic"
  by (simp add: parse_field_def parse_num_def parse_u32_def is_digit_char_def dec_value_def
      digit_val_def)

subsection \<open>The next instant\<close>

definition search_grid :: "instant \<Rightarrow> nat \<Rightarrow> instant" where
  "search_grid cur k = cur + int k * (60 * nanos_per_sec)"

lemma search_from_find:
  "search_from cal s n cur = find (cron_matches cal s) (map (search_grid cur) [0..<n])"
proof (induction n arbitrary: cur)
  case (Suc n)
  have "map (search_grid cur) [0..<Suc n] = cur # map (search_grid (cur + 60 * nanos_per_sec)) [0..<n]"
    by (simp add: upt_conv_Cons map_Suc_upt [symmetric] search_grid_def algebra_simps del: upt_Suc)
  then show ?case using Suc.IH by (simp del: upt_Suc)
qed simp

lemma find_grid_bounds:
  assumes "find P (map (search_grid cur) [0..<n]) = Some t"
  shows "cur \<le> t \<and> t < cur + int n * (60 * nanos_per_sec)"
proof -
  obtain k where "k < n" "t = search_grid cur k"
    using assms by (auto simp: find_Some_iff)
  then show ?thesis by (simp add: search_grid_def nanos_per_sec_def)
qed

text \<open>
  C35: the search for the next run always returns: it gives the first matching instant among those one
  second and then whole minutes after the given one, within four years of 365 days, and the end of
  that period when none of them matches. The result is at least a second later and no later than the
  end of the period.
\<close>

theorem next_after_first:
  "next_after cal s a =
     (case find (cron_matches cal s) (map (search_grid (a + nanos_per_sec)) [0..<365 * 4 * 24 * 60]) of
        Some t \<Rightarrow> t
      | None \<Rightarrow> a + 365 * 4 * 86400 * nanos_per_sec) \<and>
   a + nanos_per_sec \<le> next_after cal s a \<and>
   next_after cal s a \<le> a + 365 * 4 * 86400 * nanos_per_sec"
proof -
  let ?f = "find (cron_matches cal s) (map (search_grid (a + nanos_per_sec)) [0..<search_rounds])"
  have n: "next_after cal s a =
      (case ?f of Some t \<Rightarrow> t | None \<Rightarrow> a + 365 * 4 * 86400 * nanos_per_sec)"
    by (simp only: next_after_def search_from_find)
  have "a + nanos_per_sec \<le> next_after cal s a \<and>
      next_after cal s a \<le> a + 365 * 4 * 86400 * nanos_per_sec"
  proof (cases ?f)
    case None
    then show ?thesis using n by (simp add: nanos_per_sec_def)
  next
    case (Some t)
    obtain k where "k < search_rounds" "t = search_grid (a + nanos_per_sec) k"
      using Some by (auto simp: find_Some_iff)
    then show ?thesis using n Some by (simp add: search_grid_def nanos_per_sec_def search_rounds_def)
  qed
  then show ?thesis using n unfolding search_rounds_def by simp
qed

text \<open>
  A five field schedule does not look at the seconds, so within a matching minute the next run is
  one second away: a job that runs at \<^verbatim>\<open>09:00\<close> is due at every second of that minute.
\<close>

lemma next_after_within_minute:
  assumes "cron_matches cal s (a + nanos_per_sec)"
  shows "next_after cal s a = a + nanos_per_sec"
proof -
  have "search_rounds = Suc (search_rounds - 1)" by (simp add: search_rounds_def)
  then have "search_from cal s search_rounds (a + nanos_per_sec) = Some (a + nanos_per_sec)"
    using assms by (metis search_from.simps(2))
  then show ?thesis by (simp add: next_after_def)
qed

end
