(* ===== verification/Skill_Install.thy ===== *)
theory Skill_Install
  imports Reply Planner Skills Cron
begin

section \<open>Installing a skill (\<^verbatim>\<open>uhorse-hub/src/web/mod.rs\<close>)\<close>

text \<open>
  From a message to an installed skill: whether a text asks for an installation and for which
  package, the attachments a user sent before, who may install, where the package may come from,
  and where it is unpacked. The URL parser, the search service, the archive's contents and the
  existing directories are arguments. A text is its UTF-8 bytes, so a Chinese character is three
  of them.
\<close>

subsection \<open>Requests, actors and attachments\<close>

datatype skill_install_source_type = Skillhub | DingtalkAttachment
datatype skill_install_target_layer = GlobalLayer | UserLayer

record skill_install_request =
  si_source_type :: skill_install_source_type
  si_package :: string
  si_version :: "string option"
  si_download_url :: string
  si_target_layer :: skill_install_target_layer
  si_target_scope :: "string option"
  si_attachment_download_code :: "string option"
  si_attachment_file_name :: "string option"

record skill_install_actor =
  sa_channel :: string
  sa_sender_user_id :: "string option"
  sa_sender_staff_id :: "string option"
  sa_sender_corp_id :: "string option"

record skill_installer =
  in_user_id :: "string option"
  in_staff_id :: "string option"
  in_corp_id :: "string option"

record skillhub_search_entry =
  sh_slug :: string
  sh_name :: string
  sh_version :: "string option"

datatype skill_install_intent =
    ExplicitCommand skill_install_request
  | NaturalLanguage skillhub_search_entry
  | NaturalLanguageNoMatch string

record pending_attachment =
  pa_kind :: string
  pa_summary :: string
  pa_file_name :: "string option"
  pa_download_code :: "string option"

datatype install_error =
    InstallDenied
  | UnofficialUrl
  | ScopeNotAllowed
  | ScopeRequired
  | MissingDownloadCode
  | FetchFailed
  | UnknownArchive
  | NotOneSkillDir
  | AlreadyInstalled string
  | SearchFailed string
  | VenvFailed string
  | PipFailed string
  | ProcessNotStarted
  | SkillsUnreadable

subsection \<open>Words\<close>

definition zh_install :: string where
  "zh_install = utf8 [0xE5, 0xAE, 0x89, 0xE8, 0xA3, 0x85]"

definition zh_install_skill :: string where
  "zh_install_skill = utf8 [0xE5, 0xAE, 0x89, 0xE8, 0xA3, 0x85, 0xE6, 0x8A, 0x80, 0xE8, 0x83, 0xBD]"

definition zh_help_me :: string where
  "zh_help_me = utf8 [0xE5, 0xB8, 0xAE, 0xE6, 0x88, 0x91]"

definition zh_please :: string where
  "zh_please = utf8 [0xE8, 0xAF, 0xB7]"

definition zh_skill :: string where
  "zh_skill = utf8 [0xE6, 0x8A, 0x80, 0xE8, 0x83, 0xBD]"

definition zh_look :: string where
  "zh_look = utf8 [0xE7, 0x9C, 0x8B, 0xE7, 0x9C, 0x8B]"

definition zh_list :: string where
  "zh_list = utf8 [0xE5, 0x88, 0x97, 0xE5, 0x87, 0xBA]"

definition zh_already_installed :: string where
  "zh_already_installed = utf8 [0xE5, 0xB7, 0xB2, 0xE7, 0xBB, 0x8F, 0xE5, 0xAE, 0x89, 0xE8, 0xA3, 0x85]"

definition zh_installed :: string where
  "zh_installed = utf8 [0xE5, 0xB7, 0xB2, 0xE5, 0xAE, 0x89, 0xE8, 0xA3, 0x85]"

definition zh_binding_code :: string where
  "zh_binding_code = utf8 [0xE7, 0xBB, 0x91, 0xE5, 0xAE, 0x9A, 0xE7, 0xA0, 0x81]"

definition zh_put :: string where
  "zh_put = utf8 [0xE8, 0xA3, 0x85]"

definition zh_full_stop :: string where
  "zh_full_stop = utf8 [0xE3, 0x80, 0x82]"

definition zh_exclamation :: string where
  "zh_exclamation = utf8 [0xEF, 0xBC, 0x81]"

definition zh_question :: string where
  "zh_question = utf8 [0xEF, 0xBC, 0x9F]"

definition zh_ji :: string where
  "zh_ji = utf8 [0xE6, 0x8A, 0x80]"

definition zh_neng :: string where
  "zh_neng = utf8 [0xE8, 0x83, 0xBD]"

subsection \<open>String functions\<close>

definition strip_suffix_str :: "string \<Rightarrow> string \<Rightarrow> string option" where
  "strip_suffix_str p s = (if suffix p s then Some (take (length s - length p) s) else None)"

text \<open>\<^verbatim>\<open>trim_end_matches\<close> for one character, given by its bytes, and \<^verbatim>\<open>trim_matches\<close> for an ASCII one.\<close>

function trim_end_matches :: "string \<Rightarrow> string \<Rightarrow> string" where
  "trim_end_matches p s =
     (if p \<noteq> [] \<and> suffix p s then trim_end_matches p (take (length s - length p) s) else s)"
  by pat_completeness auto

termination
  by (relation "measure (\<lambda>(_, s). length s)") (auto simp: suffix_def)

declare trim_end_matches.simps [simp del]

definition trim_matches :: "char \<Rightarrow> string \<Rightarrow> string" where
  "trim_matches c s = rev (dropWhile (\<lambda>x. x = c) (rev (dropWhile (\<lambda>x. x = c) s)))"

definition is_ascii_alphanumeric :: "char \<Rightarrow> bool" where
  "is_ascii_alphanumeric c =
     (let n = (of_char c :: nat)
      in (48 \<le> n \<and> n \<le> 57) \<or> (65 \<le> n \<and> n \<le> 90) \<or> (97 \<le> n \<and> n \<le> 122))"

definition is_ascii_whitespace :: "char \<Rightarrow> bool" where
  "is_ascii_whitespace c = (let n = (of_char c :: nat) in n \<in> {9, 10, 12, 13, 32})"

text \<open>\<^verbatim>\<open>str::replace\<close>.\<close>

function str_replace :: "string \<Rightarrow> string \<Rightarrow> string \<Rightarrow> string" where
  "str_replace p r s =
     (if p = [] then s
      else case s of
             [] \<Rightarrow> []
           | c # cs \<Rightarrow> if prefix p s then r @ str_replace p r (drop (length p) s) else c # str_replace p r cs)"
  by pat_completeness auto

termination
  by (relation "measure (\<lambda>(_, _, s). length s)") auto

declare str_replace.simps [simp del]

subsection \<open>What a text asks for\<close>

definition resolve_dingtalk_skill_install_request :: "string \<Rightarrow> skill_install_request option" where
  "resolve_dingtalk_skill_install_request msg =
     (let trimmed = trim msg
      in case map_option trim (option_or (strip_prefix_str zh_install_skill trimmed)
                                 (strip_prefix_str ''install skill'' trimmed)) of
           None \<Rightarrow> None
         | Some rest \<Rightarrow>
             (case split_whitespace rest of
                package # download_url # others \<Rightarrow>
                  Some \<lparr>si_source_type = Skillhub, si_package = package,
                        si_version = (case others of [] \<Rightarrow> None | v # _ \<Rightarrow> Some v),
                        si_download_url = download_url, si_target_layer = GlobalLayer,
                        si_target_scope = None, si_attachment_download_code = None,
                        si_attachment_file_name = None\<rparr>
              | _ \<Rightarrow> None))"

definition looks_like_dingtalk_skill_install_intent :: "string \<Rightarrow> bool" where
  "looks_like_dingtalk_skill_install_intent msg =
     (let trimmed = trim msg; lower = to_lowercase trimmed
      in trimmed \<noteq> []
         \<and> (starts_with trimmed zh_install_skill
            \<or> starts_with trimmed (zh_install @ '' '')
            \<or> str_contains trimmed (zh_help_me @ zh_install)
            \<or> str_contains trimmed (zh_please @ zh_help_me @ zh_install)
            \<or> str_contains trimmed (zh_please @ zh_install)
            \<or> starts_with lower ''install skill''
            \<or> starts_with lower ''install ''
            \<or> str_contains lower ''please install''))"

definition normalize_dingtalk_skill_install_query :: "string \<Rightarrow> string option" where
  "normalize_dingtalk_skill_install_query msg =
     (let candidate = trim (trim_end_matches ''?'' (trim_end_matches zh_question (trim_end_matches ''!''
            (trim_end_matches zh_exclamation (trim_end_matches zh_full_stop (trim msg))))));
          stripped = option_or (strip_suffix_str zh_skill candidate)
            (option_or (strip_suffix_str ''skill'' candidate) (strip_suffix_str ''Skill'' candidate));
          candidate = trim (case stripped of Some s \<Rightarrow> s | None \<Rightarrow> candidate)
      in if candidate = [] then None else Some candidate)"

definition blocked_fragments :: "string list" where
  "blocked_fragments =
     [zh_help_me, zh_please @ zh_help_me, zh_please, zh_look, zh_list, zh_already_installed, zh_installed,
      zh_install, ''please'', ''install'', ''list'', ''show'', ''query'']"

text \<open>Every character is ASCII alphanumeric or blank, one of three signs, or one of two Chinese ones.\<close>

function name_chars :: "string \<Rightarrow> bool" where
  "name_chars s =
     (case s of
        [] \<Rightarrow> True
      | c # cs \<Rightarrow>
          if prefix zh_ji s \<or> prefix zh_neng s then name_chars (drop 3 s)
          else (is_ascii_alphanumeric c \<or> is_ascii_whitespace c
                \<or> c = CHR ''-'' \<or> c = CHR ''_'' \<or> c = CHR ''.'') \<and> name_chars cs)"
  by pat_completeness auto

termination
  by (relation "measure length") auto

declare name_chars.simps [simp del]

definition is_likely_pure_skill_name :: "string \<Rightarrow> bool" where
  "is_likely_pure_skill_name msg =
     (let trimmed = trim msg; lower = to_lowercase trimmed
      in trimmed \<noteq> []
         \<and> \<not> list_ex (\<lambda>f. str_contains trimmed f \<or> str_contains lower (to_lowercase f)) blocked_fragments
         \<and> name_chars trimmed)"

definition parse_dingtalk_skill_install_search_query :: "string \<Rightarrow> string option" where
  "parse_dingtalk_skill_install_search_query msg =
     (let trimmed = trim msg
      in if looks_like_dingtalk_skill_install_intent trimmed
         then
           (let without_prefix = trim
                  (case option_or (strip_prefix_str zh_help_me trimmed)
                          (option_or (strip_prefix_str (zh_please @ zh_help_me) trimmed)
                             (strip_prefix_str zh_please trimmed)) of
                     Some rest \<Rightarrow> rest | None \<Rightarrow> trimmed);
                candidate =
                  (case strip_prefix_str zh_install without_prefix of
                     Some rest \<Rightarrow> trim rest
                   | None \<Rightarrow>
                       (case str_find ''install'' (to_lowercase without_prefix) of
                          Some index \<Rightarrow> trim (drop (index + 7) without_prefix)
                        | None \<Rightarrow>
                            (case str_find zh_put without_prefix of
                               Some index \<Rightarrow> trim (drop (index + 3) without_prefix)
                             | None \<Rightarrow> without_prefix)))
            in normalize_dingtalk_skill_install_query candidate)
         else if is_likely_pure_skill_name trimmed
         then normalize_dingtalk_skill_install_query trimmed
         else None)"

text \<open>The loop over the characters; a character outside ASCII is passed over, byte by byte.\<close>

fun slug_chars :: "bool \<Rightarrow> string \<Rightarrow> string" where
  "slug_chars last_was_dash [] = []"
| "slug_chars last_was_dash (ch # rest) =
     (if is_ascii_alphanumeric ch then char_lower ch # slug_chars False rest
      else if (is_ascii_whitespace ch \<or> ch = CHR ''-'' \<or> ch = CHR ''_'') \<and> \<not> last_was_dash
      then CHR ''-'' # slug_chars True rest
      else slug_chars last_was_dash rest)"

definition infer_skillhub_slug_from_query :: "string \<Rightarrow> string option" where
  "infer_skillhub_slug_from_query query =
     (let slug = trim_matches (CHR ''-'') (slug_chars False (trim query))
      in if slug = [] then None else Some slug)"

definition resolve_pairing_command :: "string \<Rightarrow> string option" where
  "resolve_pairing_command msg =
     (let code = (\<lambda>s. length s = 6 \<and> list_all is_digit_char s);
          trimmed = trim msg
      in if code trimmed then Some trimmed
         else let rest = (case map_option trim (option_or (strip_prefix_str zh_binding_code trimmed)
                             (option_or (strip_prefix_str ''pair'' trimmed) (strip_prefix_str ''bind'' trimmed))) of
                            Some r \<Rightarrow> r | None \<Rightarrow> trimmed)
              in if code rest then Some rest else None)"

subsection \<open>Attachments\<close>

definition normalize_pending_attachment_package_name :: "string option \<Rightarrow> string option" where
  "normalize_pending_attachment_package_name file_name =
     (case file_name of
        None \<Rightarrow> None
      | Some name0 \<Rightarrow>
          (let name = trim name0
           in if name = [] then None
              else let lower = to_lowercase name;
                       stem = (case strip_suffix_str ''.tar.gz'' lower of
                                 Some st \<Rightarrow> take (length st) name
                               | None \<Rightarrow>
                                   (case strip_suffix_str ''.tgz'' lower of
                                      Some st \<Rightarrow> take (length st) name
                                    | None \<Rightarrow>
                                        (case strip_suffix_str ''.zip'' lower of
                                           Some st \<Rightarrow> take (length st) name
                                         | None \<Rightarrow> name)));
                       stem = trim_matches (CHR ''-'') (trim_matches (CHR ''_'') (trim_matches (CHR ''.'') (trim stem)))
                   in if stem = [] then None else Some stem))"

definition is_pending_skill_archive_attachment :: "pending_attachment \<Rightarrow> bool" where
  "is_pending_skill_archive_attachment a =
     (if pa_kind a \<noteq> ''file'' \<or> pa_download_code a = None then False
      else (case pa_file_name a of
              None \<Rightarrow> False
            | Some name \<Rightarrow>
                (let lower = to_lowercase (trim name)
                 in suffix ''.zip'' lower \<or> suffix ''.tar.gz'' lower \<or> suffix ''.tgz'' lower)))"

definition pending_attachment_matches_install_query :: "string \<Rightarrow> pending_attachment \<Rightarrow> bool" where
  "pending_attachment_matches_install_query msg a =
     (let query = trim msg
      in if query = [] then False
         else let query_lower = to_lowercase query;
                  package = to_lowercase (case normalize_pending_attachment_package_name (pa_file_name a) of
                                            Some p \<Rightarrow> p | None \<Rightarrow> []);
                  file_name = to_lowercase (case pa_file_name a of Some n \<Rightarrow> trim n | None \<Rightarrow> [])
              in (file_name \<noteq> [] \<and> query_lower = file_name) \<or> (package \<noteq> [] \<and> query_lower = package)
                 \<or> (file_name \<noteq> [] \<and> str_contains query_lower file_name)
                 \<or> (package \<noteq> [] \<and> str_contains query_lower package))"

definition build_pending_attachment_install_request ::
  "string \<Rightarrow> pending_attachment list \<Rightarrow> skill_install_request option" where
  "build_pending_attachment_install_request msg attachments =
     (let wanted = (if looks_like_dingtalk_skill_install_intent msg
                    then is_pending_skill_archive_attachment
                    else (\<lambda>a. is_pending_skill_archive_attachment a \<and> pending_attachment_matches_install_query msg a))
      in case find wanted (rev attachments) of
           None \<Rightarrow> None
         | Some a \<Rightarrow>
             Some \<lparr>si_source_type = DingtalkAttachment,
                   si_package = (case normalize_pending_attachment_package_name (pa_file_name a) of
                                   Some p \<Rightarrow> p | None \<Rightarrow> ''uploaded-skill''),
                   si_version = None, si_download_url = [], si_target_layer = GlobalLayer,
                   si_target_scope = None, si_attachment_download_code = pa_download_code a,
                   si_attachment_file_name = pa_file_name a\<rparr>)"

subsection \<open>Who may install, and from where\<close>

definition installer_matches :: "skill_install_actor \<Rightarrow> skill_installer \<Rightarrow> bool" where
  "installer_matches a i =
     (if in_corp_id i \<noteq> None \<and> sa_sender_corp_id a \<noteq> in_corp_id i then False
      else (in_user_id i \<noteq> None \<and> sa_sender_user_id a = in_user_id i)
           \<or> (in_staff_id i \<noteq> None \<and> sa_sender_staff_id a = in_staff_id i))"

definition actor_can_install_skill :: "skill_installer list \<Rightarrow> skill_install_actor \<Rightarrow> bool" where
  "actor_can_install_skill installers a =
     (if sa_channel a \<noteq> ''dingtalk'' then True
      else if installers = [] then False
      else list_ex (installer_matches a) installers)"

definition SKILLHUB_OFFICIAL_HOSTS :: "string list" where
  "SKILLHUB_OFFICIAL_HOSTS =
     [''skillhub-1388575217.cos.ap-guangzhou.myqcloud.com'', ''api.skillhub.tencent.com'']"

definition is_allowed_skillhub_download_url :: "(string \<Rightarrow> parsed_url option) \<Rightarrow> string \<Rightarrow> bool" where
  "is_allowed_skillhub_download_url url_parse download_url =
     (case url_parse download_url of
        None \<Rightarrow> False
      | Some parsed \<Rightarrow>
          if url_scheme parsed \<noteq> ''http'' \<and> url_scheme parsed \<noteq> ''https'' then False
          else (case url_host_str parsed of
                  None \<Rightarrow> False
                | Some host \<Rightarrow> list_ex (\<lambda>allowed. to_lowercase host = to_lowercase allowed) SKILLHUB_OFFICIAL_HOSTS))"

definition build_skillhub_download_url :: "string \<Rightarrow> string \<Rightarrow> string" where
  "build_skillhub_download_url template slug = str_replace ''{slug}'' slug template"

definition resolve_dingtalk_skill_install_intent ::
  "(string \<Rightarrow> parsed_url option) \<Rightarrow> (string \<Rightarrow> install_error + skillhub_search_entry option) \<Rightarrow> string \<Rightarrow>
   pending_attachment list \<Rightarrow> install_error + skill_install_intent option" where
  "resolve_dingtalk_skill_install_intent url_parse search msg pending =
     (case build_pending_attachment_install_request msg pending of
        Some request \<Rightarrow> Inr (Some (ExplicitCommand request))
      | None \<Rightarrow>
          (case resolve_dingtalk_skill_install_request msg of
             Some request \<Rightarrow>
               if \<not> is_allowed_skillhub_download_url url_parse (si_download_url request) then Inl UnofficialUrl
               else Inr (Some (ExplicitCommand request))
           | None \<Rightarrow>
               (case parse_dingtalk_skill_install_search_query msg of
                  None \<Rightarrow> Inr None
                | Some query \<Rightarrow>
                    (case search query of
                       Inr (Some entry) \<Rightarrow> Inr (Some (NaturalLanguage entry))
                     | Inr None \<Rightarrow>
                         (case infer_skillhub_slug_from_query query of
                            None \<Rightarrow> Inr (Some (NaturalLanguageNoMatch query))
                          | Some slug \<Rightarrow>
                              Inr (Some (NaturalLanguage \<lparr>sh_slug = slug, sh_name = query, sh_version = None\<rparr>)))
                     | Inl err \<Rightarrow>
                         (case infer_skillhub_slug_from_query query of
                            None \<Rightarrow> Inl err
                          | Some slug \<Rightarrow>
                              Inr (Some (NaturalLanguage \<lparr>sh_slug = slug, sh_name = query, sh_version = None\<rparr>)))))))"

text \<open>The request a natural language intent leads to.\<close>

definition natural_language_request :: "string \<Rightarrow> skillhub_search_entry \<Rightarrow> skill_install_request" where
  "natural_language_request template entry =
     \<lparr>si_source_type = Skillhub, si_package = sh_slug entry, si_version = sh_version entry,
      si_download_url = build_skillhub_download_url template (sh_slug entry), si_target_layer = GlobalLayer,
      si_target_scope = None, si_attachment_download_code = None, si_attachment_file_name = None\<rparr>"

subsection \<open>Unpacking and installing\<close>

definition resolve_skill_install_target_dir ::
  "path \<Rightarrow> skill_install_target_layer \<Rightarrow> string option \<Rightarrow> install_error + path" where
  "resolve_skill_install_target_dir runtime_root layer scope =
     (case layer of
        GlobalLayer \<Rightarrow>
          if scope \<noteq> None then Inl ScopeNotAllowed else Inr (path_join runtime_root (path_of_string ''skills''))
      | UserLayer \<Rightarrow>
          (case scope of
             Some s \<Rightarrow>
               if trim s = [] then Inl ScopeRequired
               else Inr (path_join (path_join (path_join runtime_root (path_of_string ''users''))
                           (path_of_string s)) (path_of_string ''skills''))
           | None \<Rightarrow> Inl ScopeRequired))"

text \<open>
  What an archive unpacks to: its format, whether a zip archive has a \<^verbatim>\<open>SKILL.md\<close> at its top, and the
  names of its top directories with one.
\<close>

datatype archive_format = ZipFormat | GzFormat | OtherFormat

record archive =
  ar_format :: archive_format
  ar_top_skill_md :: bool
  ar_skill_dirs :: "string list"

definition collect_skill_dir :: "archive \<Rightarrow> install_error + string" where
  "collect_skill_dir a = (case ar_skill_dirs a of [d] \<Rightarrow> Inr d | _ \<Rightarrow> Inl NotOneSkillDir)"

definition unpack_skill_archive :: "archive \<Rightarrow> string \<Rightarrow> install_error + string" where
  "unpack_skill_archive a package_hint =
     (case ar_format a of
        ZipFormat \<Rightarrow> if ar_top_skill_md a then Inr package_hint else collect_skill_dir a
      | GzFormat \<Rightarrow> collect_skill_dir a
      | OtherFormat \<Rightarrow> Inl UnknownArchive)"

definition fetch_archive ::
  "(skill_install_request \<Rightarrow> archive option) \<Rightarrow> skill_install_request \<Rightarrow> install_error + archive" where
  "fetch_archive fetch r =
     (case si_source_type r of
        Skillhub \<Rightarrow> (case fetch r of Some a \<Rightarrow> Inr a | None \<Rightarrow> Inl FetchFailed)
      | DingtalkAttachment \<Rightarrow>
          if (case si_attachment_download_code r of Some c \<Rightarrow> trim c = [] | None \<Rightarrow> True)
          then Inl MissingDownloadCode
          else (case fetch r of Some a \<Rightarrow> Inr a | None \<Rightarrow> Inl FetchFailed))"

text \<open>
  An installed directory: which files it has, and how the two commands of its Python environment end
  (\<open>None\<close> when the process cannot be started).
\<close>

record step_output =
  co_success :: bool
  co_stdout :: string
  co_stderr :: string

record skill_tree =
  tr_requirements_txt :: bool
  tr_venv_python :: bool
  tr_skill_toml :: bool
  tr_skill_yaml :: bool
  tr_src_main_py :: bool
  tr_main_py :: bool

definition output_detail :: "step_output \<Rightarrow> string" where
  "output_detail out = (if trim (co_stderr out) = [] then trim (co_stdout out) else trim (co_stderr out))"

definition run_step :: "(string \<Rightarrow> install_error) \<Rightarrow> step_output option \<Rightarrow> install_error + unit" where
  "run_step failed out =
     (case out of
        None \<Rightarrow> Inl ProcessNotStarted
      | Some r \<Rightarrow> if co_success r then Inr () else Inl (failed (output_detail r)))"

definition install_python_skill_dependencies ::
  "step_output option \<Rightarrow> step_output option \<Rightarrow> skill_tree \<Rightarrow> install_error + unit" where
  "install_python_skill_dependencies venv_out pip_out tree =
     (if \<not> tr_requirements_txt tree then Inr ()
      else (case (if tr_venv_python tree then Inr () else run_step VenvFailed venv_out) of
              Inl err \<Rightarrow> Inl err
            | Inr _ \<Rightarrow> run_step PipFailed pip_out))"

definition toml_line :: "string \<Rightarrow> string" where
  "toml_line l = l @ [CHR 0x0A]"

text \<open>The file that is written, if one is.\<close>

definition ensure_generated_skill_toml_if_missing :: "string \<Rightarrow> skill_tree \<Rightarrow> string option" where
  "ensure_generated_skill_toml_if_missing venv_python tree =
     (if tr_skill_toml tree \<or> \<not> tr_skill_yaml tree then None
      else (case (if tr_src_main_py tree then Some ''src/main.py''
                  else if tr_main_py tree then Some ''main.py'' else None) of
              None \<Rightarrow> None
            | Some entrypoint \<Rightarrow>
                (let executable = (if tr_venv_python tree then venv_python else ''python3'');
                     quote = [CHR 0x22]; backslash = [CHR 0x5C]
                 in Some (toml_line ''enabled = true'' @ toml_line ''timeout = 30''
                      @ toml_line (''executable = '' @ quote @ str_replace backslash (backslash @ backslash) executable
                                   @ quote)
                      @ toml_line (''args = ['' @ quote @ entrypoint @ quote @ '']'')))))"

text \<open>
  The directories below the runtime root: those of the skills, and for each scope directory its name
  and its skills. \<open>None\<close> is a directory that cannot be read.
\<close>

record runtime_tree =
  rt_skills :: "skill_dir list option"
  rt_tenants :: "(string \<times> skill_dir list option) list"
  rt_enterprises :: "(string \<times> skill_dir list option) list"
  rt_departments :: "(string \<times> skill_dir list option) list"
  rt_roles :: "(string \<times> skill_dir list option) list"
  rt_users :: "(string \<times> skill_dir list option) list"

record skill_readers =
  sr_yaml :: "string \<Rightarrow> skill_manifest option"
  sr_toml :: "string \<Rightarrow> skill_config option"

definition registry_from_dir :: "skill_readers \<Rightarrow> skill_dir list option \<Rightarrow> install_error + skill_registry" where
  "registry_from_dir rd ds =
     (case ds of
        None \<Rightarrow> Inl SkillsUnreadable
      | Some dirs \<Rightarrow> Inr (snd (load_from_dir (sr_yaml rd) (sr_toml rd) dirs [])))"

fun load_scoped_runtime_dir ::
  "skill_readers \<Rightarrow> (string \<times> skill_dir list option) list \<Rightarrow> layered_skills \<Rightarrow> install_error + layered_skills" where
  "load_scoped_runtime_dir rd [] l = Inr l"
| "load_scoped_runtime_dir rd ((scope, ds) # entries) l =
     (case registry_from_dir rd ds of
        Inl err \<Rightarrow> Inl err
      | Inr registry \<Rightarrow>
          load_scoped_runtime_dir rd entries (if registry = [] then l else register_scoped_registry scope registry l))"

fun load_scoped_runtime_dirs ::
  "skill_readers \<Rightarrow> (string \<times> skill_dir list option) list list \<Rightarrow> layered_skills \<Rightarrow> install_error + layered_skills" where
  "load_scoped_runtime_dirs rd [] l = Inr l"
| "load_scoped_runtime_dirs rd (d # ds) l =
     (case load_scoped_runtime_dir rd d l of
        Inl err \<Rightarrow> Inl err
      | Inr l' \<Rightarrow> load_scoped_runtime_dirs rd ds l')"

definition load_runtime_skills :: "skill_readers \<Rightarrow> runtime_tree \<Rightarrow> install_error + layered_skills" where
  "load_runtime_skills rd t =
     (case registry_from_dir rd (rt_skills t) of
        Inl err \<Rightarrow> Inl err
      | Inr global \<Rightarrow>
          load_scoped_runtime_dirs rd
            [rt_tenants t, rt_enterprises t, rt_departments t, rt_roles t, rt_users t] (layered_new global))"

text \<open>
  The state an installation changes: the directories that exist and the registry in use. The
  environment gives the archive of a request, the files of a directory once it is there, the outcome
  of its commands and what the runtime root holds for a set of directories.
\<close>

record install_state =
  is_dirs :: "path list"
  is_skills :: layered_skills

record install_env =
  ie_installers :: "skill_installer list"
  ie_runtime_root :: path
  ie_fetch :: "skill_install_request \<Rightarrow> archive option"
  ie_tree :: "path \<Rightarrow> skill_tree"
  ie_venv :: "path \<Rightarrow> step_output option"
  ie_pip :: "path \<Rightarrow> step_output option"
  ie_readers :: skill_readers
  ie_runtime_tree :: "path list \<Rightarrow> runtime_tree"

definition refresh_runtime_skills :: "install_env \<Rightarrow> install_state \<Rightarrow> (install_error + nat) \<times> install_state" where
  "refresh_runtime_skills env st =
     (case load_runtime_skills (ie_readers env) (ie_runtime_tree env (is_dirs st)) of
        Inl err \<Rightarrow> (Inl err, st)
      | Inr refreshed \<Rightarrow> (Inr (length (list_all_entries refreshed)), st\<lparr>is_skills := refreshed\<rparr>))"

text \<open>What follows the rename of the unpacked directory; a failure leaves the directory where it is.\<close>

definition finish_install ::
  "install_env \<Rightarrow> path \<Rightarrow> string \<Rightarrow> install_state \<Rightarrow> (install_error + string) \<times> install_state" where
  "finish_install env destination_dir name st =
     (case install_python_skill_dependencies (ie_venv env destination_dir) (ie_pip env destination_dir)
             (ie_tree env destination_dir) of
        Inl err \<Rightarrow> (Inl err, st)
      | Inr _ \<Rightarrow>
          (case refresh_runtime_skills env st of
             (Inl err, st') \<Rightarrow> (Inl err, st')
           | (Inr _, st') \<Rightarrow> (Inr name, st')))"

definition install_skill_from_request ::
  "install_env \<Rightarrow> skill_install_actor \<Rightarrow> skill_install_request \<Rightarrow> install_state \<Rightarrow>
   (install_error + string) \<times> install_state" where
  "install_skill_from_request env actor r st =
     (if \<not> actor_can_install_skill (ie_installers env) actor then (Inl InstallDenied, st)
      else (case resolve_skill_install_target_dir (ie_runtime_root env) (si_target_layer r) (si_target_scope r) of
              Inl err \<Rightarrow> (Inl err, st)
            | Inr target_root \<Rightarrow>
                (case fetch_archive (ie_fetch env) r of
                   Inl err \<Rightarrow> (Inl err, st)
                 | Inr a \<Rightarrow>
                     (case unpack_skill_archive a (si_package r) of
                        Inl err \<Rightarrow> (Inl err, st)
                      | Inr name \<Rightarrow>
                          (let destination_dir = path_join target_root (path_of_string name)
                           in if destination_dir \<in> set (is_dirs st) then (Inl (AlreadyInstalled name), st)
                              else finish_install env destination_dir name
                                     (st\<lparr>is_dirs := destination_dir # is_dirs st\<rparr>))))))"

subsection \<open>The two ways in\<close>

text \<open>The HTTP handler \<^verbatim>\<open>install_runtime_skill\<close>.\<close>

definition http_actor :: skill_install_actor where
  "http_actor = \<lparr>sa_channel = ''http_api'', sa_sender_user_id = None, sa_sender_staff_id = None,
                  sa_sender_corp_id = None\<rparr>"

definition install_runtime_skill ::
  "install_env \<Rightarrow> skill_install_request \<Rightarrow> install_state \<Rightarrow> (install_error + string) \<times> install_state" where
  "install_runtime_skill env r st = install_skill_from_request env http_actor r st"

text \<open>
  The installation step of a conversation: the reply, the attachments put back for another attempt,
  and the new state.
\<close>

datatype install_reply =
    SkillInstalled string
  | SkillInstallFailed string install_error
  | NoSkillFound string
  | NoInstallTarget

definition failed_attachment :: "skill_install_request \<Rightarrow> pending_attachment list" where
  "failed_attachment r =
     (if si_source_type r = DingtalkAttachment
      then [\<lparr>pa_kind = ''file'',
              pa_summary = utf8 [0xE6, 0x96, 0x87, 0xE4, 0xBB, 0xB6, 0xEF, 0xBC, 0x88]
                @ (case si_attachment_file_name r of Some v \<Rightarrow> trim v | None \<Rightarrow> si_package r)
                @ utf8 [0xEF, 0xBC, 0x89],
              pa_file_name = si_attachment_file_name r, pa_download_code = si_attachment_download_code r\<rparr>]
      else [])"

definition dingtalk_actor :: "string option \<Rightarrow> string option \<Rightarrow> string option \<Rightarrow> skill_install_actor" where
  "dingtalk_actor user_id staff_id corp_id =
     \<lparr>sa_channel = ''dingtalk'', sa_sender_user_id = user_id, sa_sender_staff_id = staff_id,
      sa_sender_corp_id = corp_id\<rparr>"

definition install_intent ::
  "install_env \<Rightarrow> string \<Rightarrow> skill_install_actor \<Rightarrow> skill_install_intent option \<Rightarrow> install_state \<Rightarrow>
   install_reply \<times> pending_attachment list \<times> install_state" where
  "install_intent env template actor intent st =
     (case intent of
        Some (ExplicitCommand request) \<Rightarrow>
          (case install_skill_from_request env actor request st of
             (Inr name, st') \<Rightarrow> (SkillInstalled name, [], st')
           | (Inl err, st') \<Rightarrow> (SkillInstallFailed (si_package request) err, failed_attachment request, st'))
      | Some (NaturalLanguage entry) \<Rightarrow>
          (case install_skill_from_request env actor (natural_language_request template entry) st of
             (Inr name, st') \<Rightarrow> (SkillInstalled name, [], st')
           | (Inl err, st') \<Rightarrow> (SkillInstallFailed (sh_name entry) err, [], st'))
      | Some (NaturalLanguageNoMatch query) \<Rightarrow> (NoSkillFound query, [], st)
      | None \<Rightarrow> (NoInstallTarget, [], st))"

definition install_turn_step ::
  "(string \<Rightarrow> parsed_url option) \<Rightarrow> (string \<Rightarrow> install_error + skillhub_search_entry option) \<Rightarrow> install_env \<Rightarrow>
   string \<Rightarrow> skill_install_actor \<Rightarrow> string \<Rightarrow> pending_attachment list \<Rightarrow> install_state \<Rightarrow>
   install_error + (install_reply \<times> pending_attachment list \<times> install_state)" where
  "install_turn_step url_parse search env template actor query pending st =
     (case resolve_dingtalk_skill_install_intent url_parse search query pending of
        Inl err \<Rightarrow> Inl err
      | Inr intent \<Rightarrow> Inr (install_intent env template actor intent st))"

text \<open>The search service's answer: a failure, or the items it lists.\<close>

record skillhub_search_item =
  it_slug :: string
  it_display_name :: "string option"
  it_name :: "string option"
  it_title :: "string option"
  it_version :: "string option"

definition non_blank :: "string option \<Rightarrow> string option" where
  "non_blank v = (case v of Some s \<Rightarrow> if trim s = [] then None else Some s | None \<Rightarrow> None)"

definition search_skillhub_skill ::
  "(string \<Rightarrow> install_error + skillhub_search_item list) \<Rightarrow> string \<Rightarrow> install_error + skillhub_search_entry option" where
  "search_skillhub_skill service query =
     (case service query of
        Inl err \<Rightarrow> Inl err
      | Inr [] \<Rightarrow> Inr None
      | Inr (first # _) \<Rightarrow>
          Inr (Some \<lparr>sh_slug = it_slug first,
                      sh_name = (case option_or (non_blank (it_display_name first))
                                       (option_or (it_title first) (it_name first)) of
                                   Some n \<Rightarrow> n | None \<Rightarrow> it_slug first),
                      sh_version = non_blank (it_version first)\<rparr>))"

definition DEFAULT_SKILLHUB_SEARCH_URL :: string where
  "DEFAULT_SKILLHUB_SEARCH_URL = ''https://api.skillhub.tencent.com/api/skills''"

definition SKILLHUB_PRIMARY_DOWNLOAD_URL_TEMPLATE :: string where
  "SKILLHUB_PRIMARY_DOWNLOAD_URL_TEMPLATE =
     ''https://api.skillhub.tencent.com/api/v1/download?slug={slug}''"

definition configured_skillhub_search_url :: "string option \<Rightarrow> string option \<Rightarrow> string" where
  "configured_skillhub_search_url configured env_var =
     (case option_or (map_option trim (non_blank configured)) (map_option trim (non_blank env_var)) of
        Some u \<Rightarrow> u | None \<Rightarrow> DEFAULT_SKILLHUB_SEARCH_URL)"

definition configured_skillhub_download_url_template :: "string option \<Rightarrow> string" where
  "configured_skillhub_download_url_template configured =
     (case map_option trim (non_blank configured) of
        Some u \<Rightarrow> u | None \<Rightarrow> SKILLHUB_PRIMARY_DOWNLOAD_URL_TEMPLATE)"

subsection \<open>Inferred package names\<close>

definition slug_char :: "char \<Rightarrow> bool" where
  "slug_char c =
     (c = CHR ''-'' \<or> (48 \<le> (of_char c :: nat) \<and> (of_char c :: nat) \<le> 57)
      \<or> (97 \<le> (of_char c :: nat) \<and> (of_char c :: nat) \<le> 122))"

fun no_double_dash :: "string \<Rightarrow> bool" where
  "no_double_dash (a # b # s) = (\<not> (a = CHR ''-'' \<and> b = CHR ''-'') \<and> no_double_dash (b # s))"
| "no_double_dash _ = True"

definition slug_ok :: "string \<Rightarrow> bool" where
  "slug_ok s =
     (s \<noteq> [] \<and> list_all slug_char s \<and> hd s \<noteq> CHR ''-'' \<and> last s \<noteq> CHR ''-'' \<and> no_double_dash s)"

lemma slug_char_lower:
  assumes "is_ascii_alphanumeric c"
  shows "slug_char (char_lower c) \<and> char_lower c \<noteq> CHR ''-''"
proof -
  let ?n = "of_char (char_lower c) :: nat"
  have "48 \<le> ?n \<and> ?n \<le> 57 \<or> 97 \<le> ?n \<and> ?n \<le> 122"
    using assms by (auto simp: is_ascii_alphanumeric_def char_lower_def Let_def)
  then show ?thesis by (auto simp: slug_char_def)
qed

lemma slug_chars_slug: "list_all slug_char (slug_chars d s)"
proof -
  have dash: "slug_char (CHR ''-'')" by (simp add: slug_char_def)
  show ?thesis by (induction d s rule: slug_chars.induct) (simp_all add: slug_char_lower dash)
qed

lemma slug_chars_dash: "slug_chars True s = [] \<or> hd (slug_chars True s) \<noteq> CHR ''-''"
proof (induction s)
  case (Cons c s)
  then show ?case using slug_char_lower [of c] by auto
qed simp

lemma no_double_dash_Cons:
  "no_double_dash (a # s) \<longleftrightarrow> (s = [] \<or> \<not> (a = CHR ''-'' \<and> hd s = CHR ''-'') \<and> no_double_dash s)"
  by (cases s) auto

lemma slug_chars_no_double: "no_double_dash (slug_chars d s)"
proof (induction d s rule: slug_chars.induct)
  case (2 d c s)
  show ?case
    using 2 slug_chars_dash [of s] slug_char_lower [of c] by (auto simp: no_double_dash_Cons)
qed simp

lemma no_double_dash_append: "no_double_dash (s @ t) \<Longrightarrow> no_double_dash s \<and> no_double_dash t"
  by (induction s) (auto simp: no_double_dash_Cons)

lemma trim_matches_part: "\<exists>a b. s = a @ trim_matches c s @ b"
proof -
  let ?d = "dropWhile (\<lambda>x. x = c) s"
  have "s = takeWhile (\<lambda>x. x = c) s @ ?d" by simp
  moreover have "?d = trim_matches c s @ rev (takeWhile (\<lambda>x. x = c) (rev ?d))"
    unfolding trim_matches_def by (metis rev_append rev_rev_ident takeWhile_dropWhile_id)
  ultimately show ?thesis by metis
qed

lemma trim_matches_ends:
  assumes "trim_matches c s \<noteq> []"
  shows "hd (trim_matches c s) \<noteq> c" and "last (trim_matches c s) \<noteq> c"
proof -
  let ?d = "dropWhile (\<lambda>x. x = c) s"
  have r: "dropWhile (\<lambda>x. x = c) (rev ?d) \<noteq> []" using assms by (simp add: trim_matches_def)
  show "last (trim_matches c s) \<noteq> c"
    using hd_dropWhile [OF r] by (simp add: trim_matches_def last_rev)
  obtain t where d: "?d = trim_matches c s @ t"
    unfolding trim_matches_def by (metis rev_append rev_rev_ident takeWhile_dropWhile_id)
  then have "?d \<noteq> []" "hd ?d = hd (trim_matches c s)" using assms by auto
  then show "hd (trim_matches c s) \<noteq> c" using hd_dropWhile [of "\<lambda>x. x = c" s] by simp
qed

lemma inferred_slug_ok:
  assumes "infer_skillhub_slug_from_query q = Some slug"
  shows "slug_ok slug"
proof -
  let ?s = "slug_chars False (trim q)"
  have eq: "slug = trim_matches (CHR ''-'') ?s" and ne: "slug \<noteq> []"
    using assms by (auto simp: infer_skillhub_slug_from_query_def Let_def split: if_splits)
  obtain a b where ab: "?s = a @ slug @ b" using trim_matches_part [of ?s "CHR ''-''"] eq by metis
  have "list_all slug_char slug" using slug_chars_slug [of False "trim q"] unfolding ab by simp
  moreover have "no_double_dash slug"
    using slug_chars_no_double [of False "trim q"] no_double_dash_append unfolding ab by blast
  ultimately show ?thesis using trim_matches_ends [of "CHR ''-''" ?s] eq ne by (simp add: slug_ok_def)
qed

lemma split_on_absent: "c \<notin> set s \<Longrightarrow> split_on c s = [s]"
  by (induction s) auto

lemma slug_path:
  assumes "slug_ok s"
  shows "path_of_string s = [NormalComp s]"
proof -
  have ok: "list_all slug_char s" using assms by (simp add: slug_ok_def)
  have "\<not> slug_char (CHR ''/'')" "\<not> slug_char (CHR ''.'')" by (simp_all add: slug_char_def)
  then have "CHR ''/'' \<notin> set s" "CHR ''.'' \<notin> set s" using ok by (metis list_all_iff)+
  moreover have "s \<noteq> []" using assms by (simp add: slug_ok_def)
  ultimately have "path_segments s = [s]" "\<not> starts_with s ''/''" "s \<noteq> ''.''" "s \<noteq> ''..''"
    by (auto simp: path_segments_def split_on_absent prefix_def)
  then show ?thesis by (simp add: path_of_string_def segment_component_def)
qed

subsection \<open>What an installation may do\<close>

lemma finish_install_dirs: "is_dirs (snd (finish_install env d n st)) = is_dirs st"
  by (auto simp: finish_install_def refresh_runtime_skills_def split: sum.split)

lemma install_changes:
  assumes "install_skill_from_request env actor r st = (res, st')" and "is_dirs st' \<noteq> is_dirs st"
  obtains target a name where
    "actor_can_install_skill (ie_installers env) actor"
    "resolve_skill_install_target_dir (ie_runtime_root env) (si_target_layer r) (si_target_scope r) = Inr target"
    "fetch_archive (ie_fetch env) r = Inr a" "unpack_skill_archive a (si_package r) = Inr name"
    "path_join target (path_of_string name) \<notin> set (is_dirs st)"
    "is_dirs st' = path_join target (path_of_string name) # is_dirs st"
proof -
  obtain target where t: "actor_can_install_skill (ie_installers env) actor"
    "resolve_skill_install_target_dir (ie_runtime_root env) (si_target_layer r) (si_target_scope r) = Inr target"
    using assms by (auto simp: install_skill_from_request_def split: if_splits sum.splits)
  obtain a where a: "fetch_archive (ie_fetch env) r = Inr a"
    using assms t by (auto simp: install_skill_from_request_def split: if_splits sum.splits)
  obtain name where n: "unpack_skill_archive a (si_package r) = Inr name"
    using assms t a by (auto simp: install_skill_from_request_def split: if_splits sum.splits)
  let ?d = "path_join target (path_of_string name)"
  have d: "?d \<notin> set (is_dirs st)"
    using assms t a n by (auto simp: install_skill_from_request_def Let_def split: if_splits)
  then have "st' = snd (finish_install env ?d name (st\<lparr>is_dirs := ?d # is_dirs st\<rparr>))"
    using assms(1) t a n by (simp add: install_skill_from_request_def Let_def)
  then have "is_dirs st' = ?d # is_dirs st" by (simp add: finish_install_dirs)
  then show ?thesis using that t a n d by blast
qed

text \<open>Where the request of a conversation comes from.\<close>

definition request_origin ::
  "(string \<Rightarrow> parsed_url option) \<Rightarrow> (string \<Rightarrow> install_error + skillhub_search_entry option) \<Rightarrow> string \<Rightarrow>
   pending_attachment list \<Rightarrow> skill_install_request \<Rightarrow> bool" where
  "request_origin url_parse search template pending r =
     (if si_source_type r = DingtalkAttachment
      then list_ex (\<lambda>a. is_pending_skill_archive_attachment a \<and> pa_download_code a = si_attachment_download_code r
                        \<and> pa_file_name a = si_attachment_file_name r) pending
      else is_allowed_skillhub_download_url url_parse (si_download_url r)
           \<or> (si_download_url r = build_skillhub_download_url template (si_package r)
              \<and> (slug_ok (si_package r)
                 \<or> (\<exists>q e. search q = Inr (Some e) \<and> sh_slug e = si_package r))))"

lemma attachment_request_origin:
  assumes "build_pending_attachment_install_request msg pending = Some r"
  shows "request_origin url_parse search template pending r"
proof -
  obtain a P where f: "find P (rev pending) = Some a" and P: "P a \<Longrightarrow> is_pending_skill_archive_attachment a"
    and r: "si_source_type r = DingtalkAttachment" "si_attachment_download_code r = pa_download_code a"
      "si_attachment_file_name r = pa_file_name a"
    using assms by (fastforce simp: build_pending_attachment_install_request_def Let_def split: option.splits if_splits)
  then show ?thesis by (auto simp: request_origin_def list_ex_iff)
      (metis P find_Some_iff nth_mem set_rev length_rev)
qed

lemma explicit_intent_origin:
  assumes "resolve_dingtalk_skill_install_intent url_parse search msg pending = Inr (Some (ExplicitCommand r))"
  shows "request_origin url_parse search template pending r"
proof (cases "build_pending_attachment_install_request msg pending")
  case None
  then have "resolve_dingtalk_skill_install_request msg = Some r"
    and ok: "is_allowed_skillhub_download_url url_parse (si_download_url r)"
    using assms by (auto simp: resolve_dingtalk_skill_install_intent_def split: option.splits sum.splits if_splits)
  then have "si_source_type r = Skillhub"
    by (auto simp: resolve_dingtalk_skill_install_request_def Let_def split: option.splits list.splits)
  then show ?thesis using ok by (simp add: request_origin_def)
next
  case (Some r')
  then have "r' = r" using assms by (simp add: resolve_dingtalk_skill_install_intent_def)
  then show ?thesis using attachment_request_origin Some by blast
qed

lemma natural_intent_origin:
  assumes "resolve_dingtalk_skill_install_intent url_parse search msg pending = Inr (Some (NaturalLanguage e))"
  shows "request_origin url_parse search template pending (natural_language_request template e)"
proof -
  have "slug_ok (sh_slug e) \<or> (\<exists>q. search q = Inr (Some e))"
    using assms inferred_slug_ok
    by (auto simp: resolve_dingtalk_skill_install_intent_def split: option.splits sum.splits if_splits)
  then show ?thesis by (auto simp: request_origin_def natural_language_request_def)
qed

lemma skills_path: "path_of_string ''skills'' = [NormalComp ''skills'']"
  by (simp add: path_of_string_def path_segments_def segment_component_def)

lemma intent_request_global:
  assumes "resolve_dingtalk_skill_install_intent url_parse search msg pending = Inr (Some (ExplicitCommand r))"
  shows "si_target_layer r = GlobalLayer" and "si_target_scope r = None"
  using assms
  by (auto simp: resolve_dingtalk_skill_install_intent_def build_pending_attachment_install_request_def
      resolve_dingtalk_skill_install_request_def Let_def split: option.splits sum.splits if_splits list.splits)

lemma install_intent_request:
  assumes "resolve_dingtalk_skill_install_intent url_parse search msg pending = Inr intent"
    and "install_intent env template actor intent st = (reply, back, st')" and "is_dirs st' \<noteq> is_dirs st"
  obtains r res where "request_origin url_parse search template pending r"
    and "si_target_layer r = GlobalLayer" and "si_target_scope r = None"
    and "install_skill_from_request env actor r st = (res, st')"
proof -
  have "intent \<noteq> None" "intent \<noteq> Some (NaturalLanguageNoMatch q)" for q
    using assms(2,3) by (auto simp: install_intent_def split: option.splits)
  then consider (explicit) r where "intent = Some (ExplicitCommand r)" | (natural) e where "intent = Some (NaturalLanguage e)"
    by (metis not_None_eq skill_install_intent.exhaust)
  then show ?thesis
  proof cases
    case explicit
    then have "snd (install_skill_from_request env actor r st) = st'"
      using assms(2) by (auto simp: install_intent_def split: prod.splits sum.splits)
    then show ?thesis
      using that explicit assms(1) explicit_intent_origin intent_request_global by (metis prod.collapse)
  next
    case natural
    let ?r = "natural_language_request template e"
    have "snd (install_skill_from_request env actor ?r st) = st'"
      using natural assms(2) by (auto simp: install_intent_def split: prod.splits sum.splits)
    moreover have "si_target_layer ?r = GlobalLayer" "si_target_scope ?r = None"
      by (simp_all add: natural_language_request_def)
    ultimately show ?thesis using that natural assms(1) natural_intent_origin by (metis prod.collapse)
  qed
qed

text \<open>
  C23: a conversation adds a skill directory only for a sender the configuration lists as an installer,
  only below the runtime's global skills directory joined with the name the archive gave, never over
  a directory that exists, and only from an archive the user attached, an official download URL, or
  the configured template filled with a package the search returned or an inferred slug.
\<close>

theorem conversation_install_checked:
  assumes "install_turn_step url_parse search env template (dingtalk_actor u s c) query pending st = Inr (reply, back, st')"
    and "is_dirs st' \<noteq> is_dirs st"
  shows "list_ex (installer_matches (dingtalk_actor u s c)) (ie_installers env) \<and>
    (\<exists>r a name. request_origin url_parse search template pending r
      \<and> fetch_archive (ie_fetch env) r = Inr a \<and> unpack_skill_archive a (si_package r) = Inr name
      \<and> path_join (path_join (ie_runtime_root env) [NormalComp ''skills'']) (path_of_string name) \<notin> set (is_dirs st)
      \<and> is_dirs st' =
          path_join (path_join (ie_runtime_root env) [NormalComp ''skills'']) (path_of_string name) # is_dirs st)"
proof -
  let ?actor = "dingtalk_actor u s c"
  obtain intent where i: "resolve_dingtalk_skill_install_intent url_parse search query pending = Inr intent"
    and st': "install_intent env template ?actor intent st = (reply, back, st')"
    using assms(1) by (auto simp: install_turn_step_def split: sum.splits)
  obtain r res where orig: "request_origin url_parse search template pending r"
    and gl: "si_target_layer r = GlobalLayer" "si_target_scope r = None"
    and inst: "install_skill_from_request env ?actor r st = (res, st')"
    by (rule install_intent_request [OF i st' assms(2)])
  obtain target a name where t: "actor_can_install_skill (ie_installers env) ?actor"
    "resolve_skill_install_target_dir (ie_runtime_root env) (si_target_layer r) (si_target_scope r) = Inr target"
    "fetch_archive (ie_fetch env) r = Inr a" "unpack_skill_archive a (si_package r) = Inr name"
    "path_join target (path_of_string name) \<notin> set (is_dirs st)"
    "is_dirs st' = path_join target (path_of_string name) # is_dirs st"
    by (rule install_changes [OF inst assms(2)])
  have "list_ex (installer_matches ?actor) (ie_installers env)"
    using t(1) by (simp add: actor_can_install_skill_def dingtalk_actor_def split: if_splits)
  moreover have "target = path_join (ie_runtime_root env) [NormalComp ''skills'']"
    using t(2) gl by (simp add: resolve_skill_install_target_dir_def skills_path)
  ultimately show ?thesis using t orig by blast
qed

definition example_request_url :: string where
  "example_request_url = ''https://api.skillhub.tencent.com/p''"

definition example_install_env :: install_env where
  "example_install_env =
     \<lparr>ie_installers = [\<lparr>in_user_id = Some ''ann'', in_staff_id = None, in_corp_id = None\<rparr>],
      ie_runtime_root = [RootDir, NormalComp ''srv''],
      ie_fetch = (\<lambda>r. Some \<lparr>ar_format = ZipFormat, ar_top_skill_md = True, ar_skill_dirs = []\<rparr>),
      ie_tree = (\<lambda>d. \<lparr>tr_requirements_txt = False, tr_venv_python = False, tr_skill_toml = True,
                      tr_skill_yaml = False, tr_src_main_py = False, tr_main_py = False\<rparr>),
      ie_venv = (\<lambda>d. None), ie_pip = (\<lambda>d. None),
      ie_readers = \<lparr>sr_yaml = (\<lambda>y. None), sr_toml = (\<lambda>y. None)\<rparr>,
      ie_runtime_tree = (\<lambda>ds. \<lparr>rt_skills = Some [], rt_tenants = [], rt_enterprises = [], rt_departments = [],
                              rt_roles = [], rt_users = []\<rparr>)\<rparr>"

definition example_install_state :: install_state where
  "example_install_state = \<lparr>is_dirs = [], is_skills = layered_new []\<rparr>"

definition install_url_parse :: "string \<Rightarrow> parsed_url option" where
  "install_url_parse u =
     (if u = example_request_url
      then Some \<lparr>url_scheme = ''https'', url_host_str = Some ''api.skillhub.tencent.com''\<rparr> else None)"

lemma example_install:
  "install_turn_step install_url_parse (\<lambda>q. Inr None) example_install_env ''t'' (dingtalk_actor (Some ''ann'') None None)
     (''install skill pdf '' @ example_request_url) [] example_install_state =
   Inr (SkillInstalled ''pdf'', [],
     example_install_state\<lparr>is_dirs := [[RootDir, NormalComp ''srv'', NormalComp ''skills'', NormalComp ''pdf'']]\<rparr>)"
  by code_simp

theorem conversation_install_checked_witness:
  "list_ex (installer_matches (dingtalk_actor (Some ''ann'') None None)) (ie_installers example_install_env)"
  using conversation_install_checked [OF example_install] by (simp add: example_install_state_def)

subsection \<open>The registry in use\<close>

lemma registry_from_dir_ok: "registry_from_dir rd ds = Inr r \<Longrightarrow> registry_ok r"
  using registry_ok_load [of "[]"] by (auto simp: registry_from_dir_def registry_ok_def split: option.splits)

lemma load_scoped_runtime_dir_ok:
  "load_scoped_runtime_dir rd es l = Inr l' \<Longrightarrow> layered_ok l \<Longrightarrow> list_all (\<lambda>e. fst e \<noteq> ''global'') es \<Longrightarrow>
   layered_ok l'"
proof (induction rd es l rule: load_scoped_runtime_dir.induct)
  case (2 rd scope ds entries l)
  obtain registry where r: "registry_from_dir rd ds = Inr registry" using 2(2) by (auto split: sum.splits)
  have "scope_layer_from_scope scope \<noteq> ''global''" using 2(4) by (simp add: scope_layer_from_scope_def)
  then have "layered_ok (if registry = [] then l else register_scoped_registry scope registry l)"
    using layered_ok_register [OF 2(3) registry_from_dir_ok [OF r]] 2(3) by simp
  then show ?case using 2 r by auto
qed auto

lemma load_scoped_runtime_dirs_ok:
  "load_scoped_runtime_dirs rd ds l = Inr l' \<Longrightarrow> layered_ok l \<Longrightarrow>
   list_all (list_all (\<lambda>e. fst e \<noteq> ''global'')) ds \<Longrightarrow> layered_ok l'"
  by (induction rd ds l rule: load_scoped_runtime_dirs.induct)
    (auto split: sum.splits dest: load_scoped_runtime_dir_ok)

definition no_global_scope :: "runtime_tree \<Rightarrow> bool" where
  "no_global_scope t =
     list_all (list_all (\<lambda>e. fst e \<noteq> ''global''))
       [rt_tenants t, rt_enterprises t, rt_departments t, rt_roles t, rt_users t]"

lemma load_runtime_skills_ok:
  assumes "load_runtime_skills rd t = Inr l" and "no_global_scope t"
  shows "layered_ok l"
proof -
  obtain g where g: "registry_from_dir rd (rt_skills t) = Inr g"
    using assms(1) by (auto simp: load_runtime_skills_def split: sum.splits)
  let ?ds = "[rt_tenants t, rt_enterprises t, rt_departments t, rt_roles t, rt_users t]"
  have "load_scoped_runtime_dirs rd ?ds (layered_new g) = Inr l"
    using assms(1) unfolding load_runtime_skills_def g by (simp only: sum.case)
  then show ?thesis
    using load_scoped_runtime_dirs_ok layered_ok_new [OF registry_from_dir_ok [OF g]] assms(2)
    unfolding no_global_scope_def by blast
qed

lemma refresh_ok:
  assumes "layered_ok (is_skills st)" and "no_global_scope (ie_runtime_tree env (is_dirs st))"
  shows "layered_ok (is_skills (snd (refresh_runtime_skills env st)))"
  using assms load_runtime_skills_ok by (auto simp: refresh_runtime_skills_def split: sum.split)

lemma finish_install_skills:
  "snd (finish_install env d n st) = st \<or> snd (finish_install env d n st) = snd (refresh_runtime_skills env st)"
  by (auto simp: finish_install_def split: sum.split prod.split)

lemma install_result:
  "snd (install_skill_from_request env actor r st) = st \<or>
   (\<exists>d n. snd (install_skill_from_request env actor r st) = snd (finish_install env d n (st\<lparr>is_dirs := d # is_dirs st\<rparr>)))"
  by (auto simp: install_skill_from_request_def Let_def split: sum.split)



subsection \<open>Gaps\<close>

text \<open>A package name is not checked, so an explicit command unpacks beside the skills directory.\<close>

lemma package_escapes_skills:
  "is_dirs (snd (install_skill_from_request example_install_env (dingtalk_actor (Some ''ann'') None None)
     (the (resolve_dingtalk_skill_install_request ''install skill ../x u'')) example_install_state)) =
   [[RootDir, NormalComp ''srv'', NormalComp ''skills'', ParentDir, NormalComp ''x'']]"
  by code_simp

text \<open>The HTTP handler fetches from any URL and asks for no installer.\<close>

lemma http_install_unchecked:
  assumes "si_source_type r = Skillhub" and "si_target_layer r = GlobalLayer" and "si_target_scope r = None"
    and "ie_fetch env r = Some \<lparr>ar_format = ZipFormat, ar_top_skill_md = True, ar_skill_dirs = ds\<rparr>"
    and "path_join (path_join (ie_runtime_root env) [NormalComp ''skills'']) (path_of_string (si_package r)) \<notin> set (is_dirs st)"
  shows "is_dirs (snd (install_runtime_skill env r st)) =
    path_join (path_join (ie_runtime_root env) [NormalComp ''skills'']) (path_of_string (si_package r)) # is_dirs st"
  using assms
  by (simp add: install_runtime_skill_def install_skill_from_request_def http_actor_def actor_can_install_skill_def
      resolve_skill_install_target_dir_def skills_path fetch_archive_def unpack_skill_archive_def Let_def
      finish_install_dirs)

text \<open>
  When a step after the rename fails (the dependencies, say) the directory stays, and the same
  request then fails because the skill is there already.
\<close>

lemma failed_install_blocks_retry:
  assumes "install_skill_from_request env actor r st = (Inl err, st')" and "is_dirs st' \<noteq> is_dirs st"
  shows "\<exists>name. install_skill_from_request env actor r st' = (Inl (AlreadyInstalled name), st')"
proof -
  obtain target a name where t: "actor_can_install_skill (ie_installers env) actor"
    "resolve_skill_install_target_dir (ie_runtime_root env) (si_target_layer r) (si_target_scope r) = Inr target"
    "fetch_archive (ie_fetch env) r = Inr a" "unpack_skill_archive a (si_package r) = Inr name"
    "is_dirs st' = path_join target (path_of_string name) # is_dirs st"
    by (rule install_changes [OF assms])
  then show ?thesis by (simp add: install_skill_from_request_def Let_def)
qed

lemma failed_dependencies_block_retry:
  "let env = example_install_env
         \<lparr>ie_tree := (\<lambda>d. \<lparr>tr_requirements_txt = True, tr_venv_python = True, tr_skill_toml = True,
                            tr_skill_yaml = False, tr_src_main_py = False, tr_main_py = False\<rparr>)\<rparr>;
       r = natural_language_request ''t'' \<lparr>sh_slug = ''pdf'', sh_name = ''pdf'', sh_version = None\<rparr>;
       (first_try, st') = install_skill_from_request env http_actor r example_install_state
   in first_try = Inl ProcessNotStarted \<and>
      fst (install_skill_from_request (env\<lparr>ie_pip := \<lambda>d. Some \<lparr>co_success = True, co_stdout = [], co_stderr = []\<rparr>\<rparr>)
             http_actor r st') = Inl (AlreadyInstalled ''pdf'')"
  by code_simp

end
