(* ===== verification/Collaboration.thy ===== *)
theory Collaboration
  imports Sessions Task_Scheduler
begin

section \<open>Scopes of a task (\<^verbatim>\<open>uhorse-hub/src/web/mod.rs\<close>)\<close>

text \<open>
  How a task carries the namespace of its session and its collaboration workspace: both are written into
  the environment of its context and read back from it. Writing and parsing the list of roles as JSON is
  a parameter of the definitions that need it.
\<close>

subsection \<open>Namespaces in metadata\<close>

type_synonym metadata = "(string, string) hmap"

record role_codec =
  rc_parse :: "string \<Rightarrow> string list option"
  rc_print :: "string list \<Rightarrow> string option"

text \<open>Documented behaviour of \<^verbatim>\<open>serde_json\<close> on lists of strings.\<close>

definition role_codec_ok :: "role_codec \<Rightarrow> bool" where
  "role_codec_ok c \<longleftrightarrow> (\<forall>rs. \<exists>s. rc_print c rs = Some s \<and> rc_parse c s = Some rs)"

definition access_context_from_metadata :: "role_codec \<Rightarrow> metadata \<Rightarrow> access_context option" where
  "access_context_from_metadata c m =
     (let roles = (case Option.bind (hm_get m ''namespace_roles'') (rc_parse c) of None \<Rightarrow> [] | Some rs \<Rightarrow> rs);
          a = normalized \<lparr>ax_tenant = hm_get m ''namespace_tenant'', ax_enterprise = hm_get m ''namespace_enterprise'',
                          ax_department = hm_get m ''namespace_department'', ax_roles = roles\<rparr>
      in if ax_tenant a \<noteq> None \<or> ax_enterprise a \<noteq> None \<or> ax_department a \<noteq> None \<or> ax_roles a \<noteq> []
         then Some a else None)"

definition session_namespace_from_session_key :: "session_key \<Rightarrow> access_context option \<Rightarrow> session_namespace" where
  "session_namespace_from_session_key k ac = namespace_with_access_context ac k"

text \<open>\<^verbatim>\<open>metadata.get(key).cloned().unwrap_or_else(..)\<close>.\<close>

definition get_or :: "metadata \<Rightarrow> string \<Rightarrow> string \<Rightarrow> string" where
  "get_or m key d = (case hm_get m key of Some v \<Rightarrow> v | None \<Rightarrow> d)"

definition session_namespace_from_metadata ::
  "role_codec \<Rightarrow> session_key option \<Rightarrow> metadata \<Rightarrow> session_namespace option" where
  "session_namespace_from_metadata c key m =
     (let ac = access_context_from_metadata c m;
          base = (case key of
                    Some k \<Rightarrow> Some (session_namespace_from_session_key k ac)
                  | None \<Rightarrow>
                      (case hm_get m ''session_id'' of
                         None \<Rightarrow> None
                       | Some sid \<Rightarrow>
                           (case session_key_parse sid of
                              Inl _ \<Rightarrow> None
                            | Inr k \<Rightarrow> Some (session_namespace_from_session_key k ac))))
      in map_option (\<lambda>n. n\<lparr>ns_global := get_or m ''namespace_global'' (ns_global n),
                           ns_user := get_or m ''namespace_user'' (ns_user n),
                           ns_session := get_or m ''namespace_session'' (ns_session n)\<rparr>) base)"

text \<open>The stored state of a session enters by its id and its metadata.\<close>

definition session_namespace_for_session ::
  "role_codec \<Rightarrow> session_key \<Rightarrow> (string \<times> metadata) option \<Rightarrow> session_namespace" where
  "session_namespace_for_session c k state =
     (case Option.bind state (\<lambda>(sid, m). session_namespace_from_metadata c (Some k) (hm_insert ''session_id'' sid m)) of
        Some n \<Rightarrow> n
      | None \<Rightarrow> session_namespace_from_session_key k None)"

definition put_optional :: "string \<Rightarrow> string option \<Rightarrow> metadata \<Rightarrow> metadata" where
  "put_optional key v m = (case v of Some s \<Rightarrow> hm_insert key s m | None \<Rightarrow> hm_remove key m)"

definition write_namespace_metadata :: "role_codec \<Rightarrow> session_namespace \<Rightarrow> metadata \<Rightarrow> metadata" where
  "write_namespace_metadata c n m =
     (let m = hm_insert ''namespace_global'' (ns_global n) m;
          m = put_optional ''namespace_tenant'' (ns_tenant n) m;
          m = put_optional ''namespace_enterprise'' (ns_enterprise n) m;
          m = put_optional ''namespace_department'' (ns_department n) m;
          m = (if ns_roles n = [] then hm_remove ''namespace_roles'' m
               else (case rc_print c (ns_roles n) of
                       Some s \<Rightarrow> hm_insert ''namespace_roles'' s m
                     | None \<Rightarrow> m));
          m = hm_insert ''namespace_user'' (ns_user n) m
      in hm_insert ''namespace_session'' (ns_session n) m)"

definition task_context_namespace :: "role_codec \<Rightarrow> session_key option \<Rightarrow> task_context \<Rightarrow> session_namespace option" where
  "task_context_namespace c key ctx =
     (case key of
        Some k \<Rightarrow>
          option_or (session_namespace_from_metadata c (Some k) (tc_env ctx))
            (Some (session_namespace_from_session_key k None))
      | None \<Rightarrow>
          session_namespace_from_metadata c None
            (hm_insert ''session_id'' (session_id_as_str (tc_session_id ctx)) (tc_env ctx)))"

subsection \<open>Collaboration workspaces\<close>

record collaboration_workspace =
  cw_collaboration_workspace_id :: string
  cw_scope_owner :: string
  cw_members :: "string list"
  cw_default_agent_id :: "string option"
  cw_visible_scope_chain :: "string list"
  cw_bound_execution_workspace_id :: "string option"
  cw_materialization :: string

definition collaboration_workspace_id_for_session :: "session_key \<Rightarrow> string" where
  "collaboration_workspace_id_for_session k = ''collab:session:'' @ session_key_as_str k"

definition collaboration_workspace_id_from_metadata :: "metadata \<Rightarrow> session_key option \<Rightarrow> string option" where
  "collaboration_workspace_id_from_metadata m key =
     option_or (hm_get m ''collaboration_workspace_id'') (map_option collaboration_workspace_id_for_session key)"

definition session_owner :: "string \<Rightarrow> session_namespace option \<Rightarrow> metadata \<Rightarrow> string" where
  "session_owner cid n m =
     (case option_or (map_option ns_session n) (option_or (hm_get m ''namespace_session'') (hm_get m ''session_id'')) of
        Some owner \<Rightarrow> owner
      | None \<Rightarrow> cid)"

definition collaboration_scope_owner_from_metadata_or_default ::
  "string \<Rightarrow> session_namespace option \<Rightarrow> metadata \<Rightarrow> string" where
  "collaboration_scope_owner_from_metadata_or_default cid n m =
     (if starts_with cid ''collab:session:'' then session_owner cid n m
      else case hm_get m ''collaboration_scope_owner'' of
             Some owner \<Rightarrow> owner
           | None \<Rightarrow> session_owner cid n m)"

definition collaboration_materialization_from_metadata :: "metadata \<Rightarrow> string" where
  "collaboration_materialization_from_metadata m = get_or m ''collaboration_materialization'' ''none''"

definition write_collaboration_workspace_runtime_metadata ::
  "string \<Rightarrow> session_namespace option \<Rightarrow> metadata \<Rightarrow> metadata" where
  "write_collaboration_workspace_runtime_metadata cid n m =
     (let owner = collaboration_scope_owner_from_metadata_or_default cid n m;
          materialization = collaboration_materialization_from_metadata m;
          m = hm_insert ''collaboration_workspace_id'' cid m;
          m = hm_insert ''collaboration_scope_owner'' owner m
      in hm_insert ''collaboration_materialization'' materialization m)"

definition add_member :: "string option \<Rightarrow> string list \<Rightarrow> string list" where
  "add_member v members =
     (case v of None \<Rightarrow> members | Some x \<Rightarrow> if x \<in> set members then members else members @ [x])"

definition collaboration_workspace_from_parts ::
  "string option \<Rightarrow> session_namespace option \<Rightarrow> metadata \<Rightarrow> string option \<Rightarrow> collaboration_workspace option" where
  "collaboration_workspace_from_parts cid n m agent =
     map_option (\<lambda>cid.
       \<lparr>cw_collaboration_workspace_id = cid,
        cw_scope_owner = collaboration_scope_owner_from_metadata_or_default cid n m,
        cw_members = add_member (map_option ns_user n) (add_member (hm_get m ''sender_staff_id'')
                       (add_member (hm_get m ''sender_user_id'') [])),
        cw_default_agent_id = agent,
        cw_visible_scope_chain = (case n of None \<Rightarrow> [] | Some n \<Rightarrow> visibility_chain n),
        cw_bound_execution_workspace_id = hm_get m ''execution_workspace_id'',
        cw_materialization = collaboration_materialization_from_metadata m\<rparr>) cid"

definition resolve_collaboration_workspace ::
  "session_key option \<Rightarrow> string option \<Rightarrow> session_namespace option \<Rightarrow> metadata \<Rightarrow> string option \<Rightarrow>
   collaboration_workspace option" where
  "resolve_collaboration_workspace key cid n m agent =
     collaboration_workspace_from_parts (option_or cid (collaboration_workspace_id_from_metadata m key)) n m agent"

definition build_collaboration_workspace ::
  "session_key option \<Rightarrow> string option \<Rightarrow> session_namespace option \<Rightarrow> metadata \<Rightarrow> string option \<Rightarrow>
   collaboration_workspace option" where
  "build_collaboration_workspace key cid n m agent = resolve_collaboration_workspace key cid n m agent"

subsection \<open>The context of a task\<close>

definition populate_task_context_runtime_metadata ::
  "role_codec \<Rightarrow> session_key option \<Rightarrow> metadata option \<Rightarrow> task_context \<Rightarrow> task_context" where
  "populate_task_context_runtime_metadata c key source ctx =
     (let n = option_or (Option.bind source (\<lambda>m. Option.bind key (\<lambda>k. session_namespace_from_metadata c (Some k) m)))
                (task_context_namespace c key ctx);
          ctx = (case n of None \<Rightarrow> ctx | Some n \<Rightarrow> ctx\<lparr>tc_env := write_namespace_metadata c n (tc_env ctx)\<rparr>);
          ctx = (case tc_execution_workspace_id ctx of
                   None \<Rightarrow> ctx
                 | Some w \<Rightarrow> ctx\<lparr>tc_env := hm_insert ''execution_workspace_id'' w (tc_env ctx)\<rparr>)
      in case option_or (tc_collaboration_workspace_id ctx)
                (option_or (Option.bind source (\<lambda>m. collaboration_workspace_id_from_metadata m key))
                   (collaboration_workspace_id_from_metadata (tc_env ctx) key)) of
           None \<Rightarrow> ctx
         | Some cid \<Rightarrow>
             ctx\<lparr>tc_collaboration_workspace_id := Some cid,
                 tc_env := write_collaboration_workspace_runtime_metadata cid n (tc_env ctx)\<rparr>)"

subsection \<open>What the interface shows of a task\<close>

record task_info =
  ti_task_id :: string
  ti_status :: string
  ti_command_type :: string
  ti_priority :: string
  ti_execution_workspace_id :: "string option"
  ti_collaboration_workspace :: "collaboration_workspace option"
  ti_started_at :: "string option"

fun task_status_debug :: "task_status \<Rightarrow> string" where
  "task_status_debug Created = ''Created''"
| "task_status_debug Queued = ''Queued''"
| "task_status_debug Assigned = ''Assigned''"
| "task_status_debug Running = ''Running''"
| "task_status_debug Completed = ''Completed''"
| "task_status_debug Failed = ''Failed''"
| "task_status_debug Cancelled = ''Cancelled''"
| "task_status_debug Timeout = ''Timeout''"

text \<open>The lower-case name of the type of a command is the one it prints.\<close>

definition task_info_from_status_and_context ::
  "role_codec \<Rightarrow> (instant \<Rightarrow> string) \<Rightarrow> task_status_info \<Rightarrow> task_context option \<Rightarrow> task_info" where
  "task_info_from_status_and_context c rfc3339 status ctx =
     (let m = (case ctx of None \<Rightarrow> [] | Some x \<Rightarrow> tc_env x);
          m = (case ctx of None \<Rightarrow> m | Some x \<Rightarrow> hm_insert ''session_id'' (session_id_as_str (tc_session_id x)) m);
          m = (case Option.bind ctx tc_execution_workspace_id of
                 None \<Rightarrow> m | Some w \<Rightarrow> hm_insert ''execution_workspace_id'' w m);
          key = (case ctx of
                   None \<Rightarrow> None
                 | Some x \<Rightarrow> (case session_key_parse (session_id_as_str (tc_session_id x)) of
                               Inl _ \<Rightarrow> None | Inr k \<Rightarrow> Some k));
          n = Option.bind ctx (task_context_namespace c key)
      in \<lparr>ti_task_id = task_id_as_str (si_task_id status), ti_status = task_status_debug (si_status status),
          ti_command_type = (case si_command_type status of Some t \<Rightarrow> command_type_name t | None \<Rightarrow> ''unknown''),
          ti_priority = (case si_priority status of Some p \<Rightarrow> priority_display p | None \<Rightarrow> ''unknown''),
          ti_execution_workspace_id = Option.bind ctx tc_execution_workspace_id,
          ti_collaboration_workspace =
            build_collaboration_workspace key (Option.bind ctx tc_collaboration_workspace_id) n m
              (Option.bind ctx (\<lambda>x. hm_get (tc_env x) ''agent_id'')),
          ti_started_at = map_option rfc3339 (si_started_at status)\<rparr>)"

subsection \<open>What is written is read back\<close>

lemma normalize_optional_idem [simp]:
  "normalize_optional_scope (normalize_optional_scope v) = normalize_optional_scope v"
  by (auto simp: normalize_optional_scope_def split: option.splits)

lemma sort_remdups_adj: "sorted xs \<Longrightarrow> remdups_adj (sort (remdups_adj xs)) = remdups_adj (xs :: string list)"
  by (simp add: sorted_sort_id sorted_remdups_adj remdups_adj_distinct sorted_distinct_remdups_adj)

lemma normalize_roles_idem [simp]: "normalize_role_scopes (normalize_role_scopes rs) = normalize_role_scopes rs"
proof -
  have each: "trim r = r \<and> r \<noteq> []" if "r \<in> set (normalize_role_scopes rs)" for r
    using that by (auto simp: normalize_role_scopes_spec(3))
  have "map trim (normalize_role_scopes rs) = normalize_role_scopes rs"
    using each by (intro map_idI) blast
  moreover have "filter (\<lambda>r. r \<noteq> []) (normalize_role_scopes rs) = normalize_role_scopes rs"
    using each by (intro filter_True) blast
  ultimately show ?thesis
    using sort_remdups_adj [of "sort (filter (\<lambda>r. r \<noteq> []) (map trim rs))"]
    by (subst normalize_role_scopes_def) (simp add: normalize_role_scopes_def [of rs])
qed

text \<open>
  The namespaces a session of a key can have: the tenant is the team's, or else a normal form, and so are
  the other scopes that come from outside.
\<close>

definition scoped :: "session_key \<Rightarrow> session_namespace \<Rightarrow> bool" where
  "scoped k n \<longleftrightarrow>
     (case tenant_key k of Some t \<Rightarrow> ns_tenant n = Some t | None \<Rightarrow> normalize_optional_scope (ns_tenant n) = ns_tenant n) \<and>
     normalize_optional_scope (ns_enterprise n) = ns_enterprise n \<and>
     normalize_optional_scope (ns_department n) = ns_department n \<and>
     normalize_role_scopes (ns_roles n) = ns_roles n"

lemma from_key_fields [simp]:
  "ns_tenant (from_session_key k) = tenant_key k" "ns_enterprise (from_session_key k) = None"
  "ns_department (from_session_key k) = None" "ns_roles (from_session_key k) = []"
  by (simp_all add: from_session_key_def)

lemma normalize_None [simp]: "normalize_optional_scope None = None" "normalize_role_scopes [] = []"
  by (simp_all add: normalize_optional_scope_def normalize_role_scopes_def)

lemma key_namespace_scoped: "scoped k (session_namespace_from_session_key k ac)"
  by (cases ac; cases "tenant_key k")
     (simp_all add: scoped_def session_namespace_from_session_key_def namespace_with_access_context_def
       with_access_context_def normalized_def)

lemma metadata_namespace_scoped:
  "session_namespace_from_metadata c (Some k) m = Some n \<Longrightarrow> scoped k n"
  using key_namespace_scoped [of k "access_context_from_metadata c m"]
  by (auto simp: session_namespace_from_metadata_def scoped_def Let_def split: option.splits)

lemma put_optional_get [simp]:
  "hm_get (put_optional key v m) key' = (if key' = key then v else hm_get m key')"
  by (simp add: put_optional_def hm_simps split: option.splits)

lemma put_get: "hm_get (hm_insert k v m) k' = (if k' = k then Some v else hm_get m k')"
  "hm_get (hm_remove k m) k' = (if k' = k then None else hm_get m k')"
  by (rule hm_get_insert) (rule hm_get_remove)

definition namespace_keys :: "string list" where
  "namespace_keys =
     [''namespace_global'', ''namespace_tenant'', ''namespace_enterprise'', ''namespace_department'',
      ''namespace_roles'', ''namespace_user'', ''namespace_session'']"

lemma write_namespace_get:
  assumes "role_codec_ok c"
  shows "hm_get (write_namespace_metadata c n m) ''namespace_global'' = Some (ns_global n)"
    and "hm_get (write_namespace_metadata c n m) ''namespace_tenant'' = ns_tenant n"
    and "hm_get (write_namespace_metadata c n m) ''namespace_enterprise'' = ns_enterprise n"
    and "hm_get (write_namespace_metadata c n m) ''namespace_department'' = ns_department n"
    and "hm_get (write_namespace_metadata c n m) ''namespace_user'' = Some (ns_user n)"
    and "hm_get (write_namespace_metadata c n m) ''namespace_session'' = Some (ns_session n)"
    and "(case Option.bind (hm_get (write_namespace_metadata c n m) ''namespace_roles'') (rc_parse c) of
       None \<Rightarrow> [] | Some rs \<Rightarrow> rs) = ns_roles n"
    and "key \<notin> set namespace_keys \<Longrightarrow> hm_get (write_namespace_metadata c n m) key = hm_get m key"
proof -
  obtain s where s: "rc_print c (ns_roles n) = Some s" "rc_parse c s = Some (ns_roles n)"
    using assms unfolding role_codec_ok_def by metis
  show "(case Option.bind (hm_get (write_namespace_metadata c n m) ''namespace_roles'') (rc_parse c) of
       None \<Rightarrow> [] | Some rs \<Rightarrow> rs) = ns_roles n"
    using s by (auto simp: write_namespace_metadata_def Let_def put_get)
  show "key \<notin> set namespace_keys \<Longrightarrow> hm_get (write_namespace_metadata c n m) key = hm_get m key"
    using s by (auto simp: write_namespace_metadata_def Let_def put_get namespace_keys_def)
qed (auto simp: write_namespace_metadata_def Let_def put_get split: option.splits)

lemma reads_back:
  assumes "scoped k n" and "hm_get m ''namespace_global'' = Some (ns_global n)"
    and "hm_get m ''namespace_tenant'' = ns_tenant n" and "hm_get m ''namespace_enterprise'' = ns_enterprise n"
    and "hm_get m ''namespace_department'' = ns_department n" and "hm_get m ''namespace_user'' = Some (ns_user n)"
    and "hm_get m ''namespace_session'' = Some (ns_session n)"
    and "(case Option.bind (hm_get m ''namespace_roles'') (rc_parse c) of None \<Rightarrow> [] | Some rs \<Rightarrow> rs) = ns_roles n"
  shows "session_namespace_from_metadata c (Some k) m = Some n"
  using assms
  by (cases n; cases "tenant_key k")
     (auto simp: session_namespace_from_metadata_def access_context_from_metadata_def Let_def scoped_def get_or_def
       session_namespace_from_session_key_def namespace_with_access_context_def with_access_context_def
       normalized_def from_session_key_def)

lemma context_namespace_scoped:
  "\<exists>n. task_context_namespace c (Some k) ctx = Some n \<and> scoped k n"
  using metadata_namespace_scoped key_namespace_scoped
  by (auto simp: task_context_namespace_def option_or_def split: option.splits)

text \<open>An environment that names a user scope decides the scope, whoever the session belongs to.\<close>

lemma env_overrides_scope:
  assumes "hm_get (tc_env ctx) ''namespace_user'' = Some u"
  shows "\<exists>n. task_context_namespace c (Some k) ctx = Some n \<and> ns_user n = u"
  using assms
  by (simp add: task_context_namespace_def session_namespace_from_metadata_def option_or_def get_or_def Let_def)

lemma write_collaboration_get:
  "hm_get (write_collaboration_workspace_runtime_metadata cid n m) key =
     (if key = ''collaboration_materialization'' then Some (collaboration_materialization_from_metadata m)
      else if key = ''collaboration_scope_owner''
      then Some (collaboration_scope_owner_from_metadata_or_default cid n m)
      else if key = ''collaboration_workspace_id'' then Some cid else hm_get m key)"
  by (simp add: write_collaboration_workspace_runtime_metadata_def Let_def put_get)

subsection \<open>Properties\<close>

text \<open>
  C20: a task keeps its scope. After the context of a task of a session is populated, what is read back
  from it later is the namespace that the source metadata gives, or without them the one it had before,
  with the tenant, the other scopes and the roles; and the context names a collaboration workspace, its
  own if it had one, also in its environment.
\<close>

theorem populated_context_keeps_scope:
  assumes "role_codec_ok c"
  shows "task_context_namespace c (Some k) (populate_task_context_runtime_metadata c (Some k) source ctx) =
      (case source of
         Some m \<Rightarrow> session_namespace_from_metadata c (Some k) m
       | None \<Rightarrow> task_context_namespace c (Some k) ctx) \<and>
    (\<exists>cid. tc_collaboration_workspace_id (populate_task_context_runtime_metadata c (Some k) source ctx) = Some cid \<and>
       hm_get (tc_env (populate_task_context_runtime_metadata c (Some k) source ctx)) ''collaboration_workspace_id'' =
         Some cid \<and>
       tc_collaboration_workspace_id ctx \<in> {None, Some cid})"
proof -
  let ?n0 = "option_or (Option.bind source (\<lambda>m. session_namespace_from_metadata c (Some k) m))
    (task_context_namespace c (Some k) ctx)"
  have some: "\<exists>n. session_namespace_from_metadata c (Some k) m = Some n \<and> scoped k n" for m
    using metadata_namespace_scoped by (fastforce simp: session_namespace_from_metadata_def Let_def)
  have "\<exists>n. ?n0 = Some n \<and> scoped k n \<and>
      (case source of Some m \<Rightarrow> session_namespace_from_metadata c (Some k) m
       | None \<Rightarrow> task_context_namespace c (Some k) ctx) = Some n"
  proof (cases source)
    case None
    then show ?thesis using context_namespace_scoped [of c k ctx] by (auto simp: option_or_def)
  next
    case (Some m)
    then show ?thesis using some [of m] by (auto simp: option_or_def)
  qed
  then obtain n where n: "?n0 = Some n" "scoped k n"
    and n0: "(case source of Some m \<Rightarrow> session_namespace_from_metadata c (Some k) m
       | None \<Rightarrow> task_context_namespace c (Some k) ctx) = Some n"
    by blast
  let ?e1 = "write_namespace_metadata c n (tc_env ctx)"
  let ?e2 = "(case tc_execution_workspace_id ctx of None \<Rightarrow> ?e1 | Some w \<Rightarrow> hm_insert ''execution_workspace_id'' w ?e1)"
  have "\<exists>x. collaboration_workspace_id_from_metadata m (Some k) = Some x" for m
    by (cases "hm_get m ''collaboration_workspace_id''")
       (simp_all add: collaboration_workspace_id_from_metadata_def option_or_def)
  then have "\<exists>x. option_or a (option_or b (collaboration_workspace_id_from_metadata ?e2 (Some k))) = Some x" for a b
    by (cases a; cases b) (simp_all add: option_or_def)
  then obtain cid where cid: "option_or (tc_collaboration_workspace_id ctx)
      (option_or (Option.bind source (\<lambda>m. collaboration_workspace_id_from_metadata m (Some k)))
        (collaboration_workspace_id_from_metadata ?e2 (Some k))) = Some cid"
    by blast
  have p: "populate_task_context_runtime_metadata c (Some k) source ctx =
      ctx\<lparr>tc_env := write_collaboration_workspace_runtime_metadata cid (Some n) ?e2,
          tc_collaboration_workspace_id := Some cid\<rparr>"
    using n(1) cid unfolding populate_task_context_runtime_metadata_def Let_def
    by (cases "tc_execution_workspace_id ctx") simp_all
  have keep: "hm_get (write_collaboration_workspace_runtime_metadata cid (Some n) ?e2) key = hm_get ?e1 key"
    if "key \<in> set namespace_keys" for key
    using that by (cases "tc_execution_workspace_id ctx")
      (auto simp: write_collaboration_get put_get namespace_keys_def)
  have "session_namespace_from_metadata c (Some k) (write_collaboration_workspace_runtime_metadata cid (Some n) ?e2) = Some n"
    using keep write_namespace_get [OF assms, where n = n and m = "tc_env ctx"]
    by (intro reads_back n(2)) (simp_all add: namespace_keys_def)
  moreover have "tc_collaboration_workspace_id ctx \<in> {None, Some cid}"
    using cid by (cases "tc_collaboration_workspace_id ctx") (simp_all add: option_or_def)
  ultimately show ?thesis
    using p n0 by (simp add: task_context_namespace_def option_or_def write_collaboration_get)
qed

text \<open>A concrete codec: each character of a role after a mark, and a mark at its end.\<close>

fun parse_marked :: "string \<Rightarrow> string \<Rightarrow> string list option" where
  "parse_marked acc [] = Some []"
| "parse_marked acc (m # rest) =
     (if m = CHR ''e'' then map_option ((#) acc) (parse_marked [] rest)
      else case rest of [] \<Rightarrow> None | x # rest' \<Rightarrow> parse_marked (acc @ [x]) rest')"

definition print_marked :: "string list \<Rightarrow> string" where
  "print_marked rs = concat (map (\<lambda>r. concat (map (\<lambda>x. [CHR ''c'', x]) r) @ ''e'') rs)"

definition example_role_codec :: role_codec where
  "example_role_codec = \<lparr>rc_parse = parse_marked [], rc_print = (\<lambda>rs. Some (print_marked rs))\<rparr>"

lemma parse_marked_role:
  "parse_marked acc (concat (map (\<lambda>x. [CHR ''c'', x]) r) @ ''e'' @ s) = map_option ((#) (acc @ r)) (parse_marked [] s)"
  by (induction r arbitrary: acc) simp_all

lemma example_role_codec_ok: "role_codec_ok example_role_codec"
proof -
  have "parse_marked [] (print_marked rs) = Some rs" for rs
  proof (induction rs)
    case (Cons r rs)
    then show ?case using parse_marked_role [of "[]" r "print_marked rs"] by (simp add: print_marked_def)
  qed (simp add: print_marked_def)
  then show ?thesis by (simp add: role_codec_ok_def example_role_codec_def)
qed

theorem populated_context_keeps_scope_witness:
  "task_context_namespace example_role_codec (Some (session_key_new ''web'' ''ann''))
     (populate_task_context_runtime_metadata example_role_codec (Some (session_key_new ''web'' ''ann''))
        (Some [(''namespace_roles'', print_marked [''role:b'', ''role:a''])])
        (task_context_new 0 (UserId ''u'') (SessionId ''web:ann'') ''web'')) =
   session_namespace_from_metadata example_role_codec (Some (session_key_new ''web'' ''ann''))
     [(''namespace_roles'', print_marked [''role:b'', ''role:a''])]"
  using populated_context_keeps_scope [OF example_role_codec_ok, of "session_key_new ''web'' ''ann''"
      "Some [(''namespace_roles'', print_marked [''role:b'', ''role:a''])]"
      "task_context_new 0 (UserId ''u'') (SessionId ''web:ann'') ''web''"]
  by simp

end
