(* ===== verification/Hub_Server.thy ===== *)
theory Hub_Server
  imports Hub_Node Auth Pairing Skill_Install Collaboration
begin

section \<open>The server of the Hub (\<^verbatim>\<open>uhorse-hub/src/web/ws.rs\<close>, \<^verbatim>\<open>uhorse-hub/src/web/mod.rs\<close>)\<close>

text \<open>
  The doors to the Hub: the WebSocket of a node, from its registration to its end, and the handlers of
  the HTTP interface for tokens, accounts, permissions, tasks and approvals, with the status and the
  body each returns. The security manager is the authenticator together with the approver the Hub holds;
  it is configured when the Hub has an approver. The decoders of messages and the printed form of a date
  are parameters. Metrics, the audit log and tracing are left out: they are written and never read here.
\<close>

subsection \<open>State, environment and answers\<close>

record server =
  sv_hub :: hub
  sv_auth :: node_authenticator
  sv_pairing :: "pairing_manager option"

record server_env =
  se_hub :: hub_env
  se_codec :: jwt_codec
  se_roles :: role_codec
  se_rfc3339 :: "instant \<Rightarrow> string"
  se_decode_binary :: "string \<Rightarrow> node_to_hub option"
  se_decode_text :: "string \<Rightarrow> node_to_hub option"

abbreviation security_manager :: "server \<Rightarrow> operation_approver option" where
  "security_manager sv \<equiv> hb_approver (sv_hub sv)"

datatype status_code =
    OK | CREATED | BAD_REQUEST | UNAUTHORIZED | FORBIDDEN | NOT_FOUND | INTERNAL_SERVER_ERROR | SERVICE_UNAVAILABLE

record 'a api_response =
  ap_success :: bool
  ap_data :: "'a option"
  ap_error :: "string option"

type_synonym 'a answer = "status_code \<times> 'a api_response"

definition api_success :: "'a \<Rightarrow> 'a api_response" where
  "api_success d = \<lparr>ap_success = True, ap_data = Some d, ap_error = None\<rparr>"

definition api_error :: "string \<Rightarrow> 'a api_response" where
  "api_error message = \<lparr>ap_success = False, ap_data = None, ap_error = Some message\<rparr>"

lemma api_success_inject [simp]: "api_success x = api_success y \<longleftrightarrow> x = y"
  by (simp add: api_success_def)

fun hub_error_display :: "hub_error \<Rightarrow> string" where
  "hub_error_display (NodeNotFound n) = ''Node not found: '' @ node_id_as_str n"
| "hub_error_display NodeLimitReached = ''Maximum number of nodes reached''"
| "hub_error_display (NodeErr s) = ''Node error: '' @ s"
| "hub_error_display (TaskErr s) = ''Task error: '' @ s"
| "hub_error_display (ScheduleErr s) = ''Schedule error: '' @ s"
| "hub_error_display (CommunicationErr s) = ''Communication error: '' @ s"
| "hub_error_display (TimeoutErr s) = ''Timeout: '' @ s"
| "hub_error_display (PermissionErr s) = ''Permission denied: '' @ s"
| "hub_error_display (ConfigErr s) = ''Config error: '' @ s"
| "hub_error_display (InternalErr s) = ''Internal error: '' @ s"
| "hub_error_display (NotImplementedErr s) = ''Not implemented: '' @ s"

subsection \<open>The WebSocket of a node\<close>

datatype ws_event =
    WsBinary string
  | WsText string
  | WsPing string
  | WsClose
  | WsError
  | WsOther

record registration =
  rg_node_id :: node_id
  rg_name :: string
  rg_capabilities :: node_capabilities
  rg_workspace :: workspace_info
  rg_auth_token :: string

fun registration_of :: "node_to_hub \<Rightarrow> registration option" where
  "registration_of (Register _ n name capabilities workspace token _) =
     Some \<lparr>rg_node_id = n, rg_name = name, rg_capabilities = capabilities, rg_workspace = workspace,
           rg_auth_token = token\<rparr>"
| "registration_of _ = None"

text \<open>The first event, or none when the connection closed or thirty seconds passed.\<close>

definition wait_for_registration :: "server_env \<Rightarrow> ws_event option \<Rightarrow> registration option" where
  "wait_for_registration e first =
     (case first of
        Some (WsBinary data) \<Rightarrow> Option.bind (se_decode_binary e data) registration_of
      | Some (WsText data) \<Rightarrow> Option.bind (se_decode_text e data) registration_of
      | _ \<Rightarrow> None)"

definition authenticate_registration :: "server_env \<Rightarrow> int \<Rightarrow> registration \<Rightarrow> server \<Rightarrow> hub_error + unit" where
  "authenticate_registration e t r sv =
     (case security_manager sv of
        None \<Rightarrow> Inr ()
      | Some _ \<Rightarrow>
          if rg_auth_token r = [] then Inl (PermissionErr ''Missing auth token'')
          else
            (case node_verify_token (se_codec e) t (rg_auth_token r) (sv_auth sv) of
               Inl err \<Rightarrow> Inl err
             | Inr n \<Rightarrow>
                 if n \<noteq> rg_node_id r
                 then Inl (PermissionErr (''Token node_id '' @ node_id_as_str n @
                        '' does not match registration node_id '' @ node_id_as_str (rg_node_id r)))
                 else Inr ()))"

text \<open>The end of a connection, also when its registration or the acknowledgement fails.\<close>

definition drop_connection :: "node_id \<Rightarrow> server \<Rightarrow> server" where
  "drop_connection n sv =
     (let h = unregister_node_sender n (sv_hub sv)
      in sv\<lparr>sv_hub := snd (handle_node_disconnect n h)\<rparr>)"

text \<open>
  The socket up to its two loops: the node whose session goes on, or none with the reason of the close
  frame if there is one. \<open>sendable\<close> says whether the acknowledgement can be sent.
\<close>

definition open_socket ::
  "server_env \<Rightarrow> inputs \<Rightarrow> int \<Rightarrow> bool \<Rightarrow> ws_event option \<Rightarrow> server \<Rightarrow> (string option + node_id) \<times> server" where
  "open_socket e i t sendable first sv =
     (case wait_for_registration e first of
        None \<Rightarrow> (Inl None, sv)
      | Some r \<Rightarrow>
          (case authenticate_registration e t r sv of
             Inl err \<Rightarrow> (Inl (Some (hub_error_display err)), sv)
           | Inr _ \<Rightarrow>
               (let n = rg_node_id r;
                    h1 = register_node_sender n \<lparr>tx_open = True, tx_sent = []\<rparr> (sv_hub sv)
                in case handle_node_connection (se_hub e) i n (rg_name r) (rg_capabilities r) (rg_workspace r) [] h1 of
                     (Inl _, h2) \<Rightarrow> (Inl None, sv\<lparr>sv_hub := unregister_node_sender n h2\<rparr>)
                   | (Inr _, h2) \<Rightarrow>
                       if sendable then (Inr n, sv\<lparr>sv_hub := h2\<rparr>)
                       else (Inl None, drop_connection n (sv\<lparr>sv_hub := h2\<rparr>)))))"

text \<open>One event of the receiving loop of a node, and whether the loop goes on.\<close>

definition socket_event :: "server_env \<Rightarrow> inputs \<Rightarrow> node_id \<Rightarrow> ws_event \<Rightarrow> server \<Rightarrow> bool \<times> server" where
  "socket_event e i n ev sv =
     (let deliver = (\<lambda>decoded. case decoded of
            None \<Rightarrow> sv
          | Some msg \<Rightarrow> sv\<lparr>sv_hub := snd (handle_node_message (se_hub e) i n msg (sv_hub sv))\<rparr>)
      in case ev of
           WsBinary data \<Rightarrow> (True, deliver (se_decode_binary e data))
         | WsText data \<Rightarrow> (True, deliver (se_decode_text e data))
         | WsPing _ \<Rightarrow> (True, sv)
         | WsClose \<Rightarrow> (False, sv)
         | WsError \<Rightarrow> (False, sv)
         | WsOther \<Rightarrow> (True, sv))"

subsection \<open>Tokens and the authorisation of account requests\<close>

record issue_node_token_response =
  it_node_id :: string
  it_access_token :: string
  it_refresh_token :: string
  it_expires_at :: string

definition issue_node_token ::
  "server_env \<Rightarrow> auth_clock \<Rightarrow> string \<Rightarrow> string \<Rightarrow> server \<Rightarrow> issue_node_token_response answer \<times> server" where
  "issue_node_token e k node_id credentials sv =
     (case security_manager sv of
        None \<Rightarrow> ((SERVICE_UNAVAILABLE, api_error ''Security manager not configured''), sv)
      | Some _ \<Rightarrow>
          (case authenticate_node (se_codec e) k (NodeId node_id) credentials (sv_auth sv) of
             (Inr info, a) \<Rightarrow>
               ((OK, api_success \<lparr>it_node_id = node_id_as_str (nai_node_id info),
                                  it_access_token = nai_access_token info,
                                  it_refresh_token = nai_refresh_token info,
                                  it_expires_at = se_rfc3339 e (nai_expires_at info)\<rparr>),
                sv\<lparr>sv_auth := a\<rparr>)
           | (Inl err, a) \<Rightarrow> ((BAD_REQUEST, api_error (hub_error_display err)), sv\<lparr>sv_auth := a\<rparr>)))"

definition BEARER_AUTH_PREFIX :: string where
  "BEARER_AUTH_PREFIX = ''Bearer ''"

text \<open>The header is the value of \<^verbatim>\<open>Authorization\<close> if there is one and it is a string.\<close>

definition authorize_account_api_node ::
  "server_env \<Rightarrow> int \<Rightarrow> string option \<Rightarrow> string \<Rightarrow> server \<Rightarrow> (status_code \<times> string) + unit" where
  "authorize_account_api_node e t header requested sv =
     (case security_manager sv of
        None \<Rightarrow> Inl (SERVICE_UNAVAILABLE, ''Security manager not configured'')
      | Some _ \<Rightarrow>
          (case header of
             None \<Rightarrow> Inl (UNAUTHORIZED, ''Missing Authorization header'')
           | Some value \<Rightarrow>
               (case strip_prefix_str BEARER_AUTH_PREFIX value of
                  None \<Rightarrow> Inl (UNAUTHORIZED, ''Invalid Authorization header'')
                | Some rest \<Rightarrow>
                    (let token = trim rest
                     in if token = [] then Inl (UNAUTHORIZED, ''Missing bearer token'')
                        else
                          (case node_verify_token (se_codec e) t token (sv_auth sv) of
                             Inl _ \<Rightarrow> Inl (UNAUTHORIZED, ''Token verification failed'')
                           | Inr n \<Rightarrow>
                               if node_id_as_str n \<noteq> requested
                               then Inl (FORBIDDEN, ''Token node_id does not match requested node_id'')
                               else Inr ())))))"

subsection \<open>Accounts\<close>

record pairing_request_response =
  pq_request_id :: string
  pq_node_id :: string
  pq_node_name :: string
  pq_device_type :: string
  pq_pairing_code :: string
  pq_status :: string
  pq_created_at :: u64
  pq_expires_at :: u64
  pq_bound_user_id :: "string option"

definition pairing_enabled :: "server \<Rightarrow> bool" where
  "pairing_enabled sv = (sv_pairing sv \<noteq> None)"

fun pairing_status_label :: "pairing_status \<Rightarrow> string" where
  "pairing_status_label PairPending = ''pending''"
| "pairing_status_label AwaitingConfirmation = ''awaiting_confirmation''"
| "pairing_status_label Paired = ''paired''"
| "pairing_status_label PairRejected = ''rejected''"
| "pairing_status_label PairExpired = ''expired''"
| "pairing_status_label PairCancelled = ''cancelled''"

definition pairing_request_response :: "pairing_request \<Rightarrow> pairing_request_response" where
  "pairing_request_response r =
     \<lparr>pq_request_id = pr_request_id r, pq_node_id = pr_device_id r, pq_node_name = pr_device_name r,
      pq_device_type = pr_device_type r, pq_pairing_code = pr_pairing_code r,
      pq_status = pairing_status_label (pr_status r), pq_created_at = pr_created_at r,
      pq_expires_at = pr_expires_at r, pq_bound_user_id = pr_user_id r\<rparr>"

record start_pairing_payload =
  sp_node_id :: string
  sp_node_name :: "string option"
  sp_device_type :: "string option"

definition start_account_pairing ::
  "server_env \<Rightarrow> int \<Rightarrow> u64 \<Rightarrow> string \<Rightarrow> nat \<Rightarrow> string option \<Rightarrow> start_pairing_payload \<Rightarrow> server \<Rightarrow>
   pairing_request_response answer \<times> server" where
  "start_account_pairing e t now uuid rnd header p sv =
     (case authorize_account_api_node e t header (sp_node_id p) sv of
        Inl (status, message) \<Rightarrow> ((status, api_error message), sv)
      | Inr _ \<Rightarrow>
          (case sv_pairing sv of
             None \<Rightarrow> ((SERVICE_UNAVAILABLE, api_error ''Pairing manager not configured''), sv)
           | Some m \<Rightarrow>
               (let name = (case sp_node_name p of Some x \<Rightarrow> x | None \<Rightarrow> sp_node_id p);
                    ty = (case sp_device_type p of Some x \<Rightarrow> x | None \<Rightarrow> ''desktop'');
                    (request, m') = initiate_pairing now uuid rnd (sp_node_id p) name ty m
                in ((OK, api_success (pairing_request_response request)), sv\<lparr>sv_pairing := Some m'\<rparr>))))"

definition cancel_account_pairing ::
  "server_env \<Rightarrow> int \<Rightarrow> string option \<Rightarrow> string \<Rightarrow> server \<Rightarrow> string answer \<times> server" where
  "cancel_account_pairing e t header request_id sv =
     (case sv_pairing sv of
        None \<Rightarrow> ((SERVICE_UNAVAILABLE, api_error ''Pairing manager not configured''), sv)
      | Some m \<Rightarrow>
          (case get_pairing_request request_id m of
             Inl err \<Rightarrow> ((BAD_REQUEST, api_error (uhorse_error_display err)), sv)
           | Inr request \<Rightarrow>
               (case authorize_account_api_node e t header (pr_device_id request) sv of
                  Inl (status, message) \<Rightarrow> ((status, api_error message), sv)
                | Inr _ \<Rightarrow>
                    (case cancel_pairing request_id m of
                       (Inr _, m') \<Rightarrow> ((OK, api_success ''Pairing cancelled''), sv\<lparr>sv_pairing := Some m'\<rparr>)
                     | (Inl err, m') \<Rightarrow>
                         ((BAD_REQUEST, api_error (uhorse_error_display err)), sv\<lparr>sv_pairing := Some m'\<rparr>)))))"

record account_status_response =
  as_node_id :: string
  as_pairing_enabled :: bool
  as_bound_user_id :: "string option"
  as_pairing :: "pairing_request_response option"

definition get_account_status ::
  "server_env \<Rightarrow> int \<Rightarrow> string option \<Rightarrow> string \<Rightarrow> server \<Rightarrow> account_status_response answer" where
  "get_account_status e t header node_id sv =
     (case authorize_account_api_node e t header node_id sv of
        Inl (status, message) \<Rightarrow> (status, api_error message)
      | Inr _ \<Rightarrow>
          (let pairing =
                 (case sv_pairing sv of
                    None \<Rightarrow> None
                  | Some m \<Rightarrow>
                      (case get_pairing_status node_id m of
                         Inr Paired \<Rightarrow> None
                       | Inr _ \<Rightarrow> map_option pairing_request_response
                                   (find (\<lambda>r. pr_device_id r = node_id) (list_pending_requests m))
                       | Inl _ \<Rightarrow> None))
           in (OK, api_success \<lparr>as_node_id = node_id, as_pairing_enabled = pairing_enabled sv,
                                as_bound_user_id = get_user_id (hb_bindings (sv_hub sv)) node_id,
                                as_pairing = pairing\<rparr>)))"

definition delete_account_binding ::
  "server_env \<Rightarrow> int \<Rightarrow> string option \<Rightarrow> string \<Rightarrow> server \<Rightarrow> string answer \<times> server" where
  "delete_account_binding e t header node_id sv =
     (case authorize_account_api_node e t header node_id sv of
        Inl (status, message) \<Rightarrow> ((status, api_error message), sv)
      | Inr _ \<Rightarrow>
          (let h = sv_hub sv;
               sv = sv\<lparr>sv_hub := h\<lparr>hb_bindings := unbind node_id (hb_bindings h)\<rparr>\<rparr>
           in ((OK, api_success ''Binding removed''),
               sv\<lparr>sv_pairing := map_option (\<lambda>m. snd (unpair_device node_id m)) (sv_pairing sv)\<rparr>)))"

definition zh_bound_device :: string where
  "zh_bound_device =
     utf8 [0xE7, 0xBB, 0x91, 0xE5, 0xAE, 0x9A, 0xE6, 0x88, 0x90, 0xE5, 0x8A, 0x9F, 0xEF, 0xBC, 0x8C,
     0xE8, 0xAE, 0xBE, 0xE5, 0xA4, 0x87, 0x20]"

definition zh_bound_account :: string where
  "zh_bound_account =
     utf8 [0x20, 0xE5, 0xB7, 0xB2, 0xE5, 0x85, 0xB3, 0xE8, 0x81, 0x94, 0xE5, 0xBD, 0x93, 0xE5, 0x89,
     0x8D, 0x20, 0x44, 0x69, 0x6E, 0x67, 0x54, 0x61, 0x6C, 0x6B, 0x20, 0xE8, 0xB4, 0xA6, 0xE5,
     0x8F, 0xB7, 0xE3, 0x80, 0x82]"

definition zh_code_expired :: string where
  "zh_code_expired =
     utf8 [0xE7, 0xBB, 0x91, 0xE5, 0xAE, 0x9A, 0xE5, 0xA4, 0xB1, 0xE8, 0xB4, 0xA5, 0xEF, 0xBC, 0x9A,
     0xE7, 0xBB, 0x91, 0xE5, 0xAE, 0x9A, 0xE7, 0xA0, 0x81, 0xE5, 0xB7, 0xB2, 0xE8, 0xBF, 0x87,
     0xE6, 0x9C, 0x9F, 0xEF, 0xBC, 0x8C, 0xE8, 0xAF, 0xB7, 0xE5, 0x9C, 0xA8, 0xE6, 0xA1, 0x8C,
     0xE9, 0x9D, 0xA2, 0xE7, 0xAB, 0xAF, 0xE9, 0x87, 0x8D, 0xE6, 0x96, 0xB0, 0xE5, 0x8F, 0x91,
     0xE8, 0xB5, 0xB7, 0xE7, 0xBB, 0x91, 0xE5, 0xAE, 0x9A, 0xE3, 0x80, 0x82]"

definition zh_code_invalid :: string where
  "zh_code_invalid =
     utf8 [0xE7, 0xBB, 0x91, 0xE5, 0xAE, 0x9A, 0xE5, 0xA4, 0xB1, 0xE8, 0xB4, 0xA5, 0xEF, 0xBC, 0x9A,
     0xE7, 0xBB, 0x91, 0xE5, 0xAE, 0x9A, 0xE7, 0xA0, 0x81, 0xE6, 0x97, 0xA0, 0xE6, 0x95, 0x88,
     0xEF, 0xBC, 0x8C, 0xE8, 0xAF, 0xB7, 0xE6, 0xA3, 0x80, 0xE6, 0x9F, 0xA5, 0xE5, 0x90, 0x8E,
     0xE9, 0x87, 0x8D, 0xE8, 0xAF, 0x95, 0xE3, 0x80, 0x82]"

definition zh_bind_failed :: string where
  "zh_bind_failed =
     utf8 [0xE7, 0xBB, 0x91, 0xE5, 0xAE, 0x9A, 0xE5, 0xA4, 0xB1, 0xE8, 0xB4, 0xA5, 0xEF, 0xBC, 0x9A]"

text \<open>A text of a conversation, with the ids of its sender; the answer to a pairing code, if it is one.\<close>

definition process_dingtalk_pairing_command ::
  "u64 \<Rightarrow> u64 \<Rightarrow> string option \<Rightarrow> string option \<Rightarrow> string option \<Rightarrow> server \<Rightarrow>
   (string + string option) \<times> server" where
  "process_dingtalk_pairing_command now paired_at content sender_user_id sender_staff_id sv =
     (case sv_pairing sv of
        None \<Rightarrow> (Inr None, sv)
      | Some m \<Rightarrow>
          (case Option.bind (map_option trim content) resolve_pairing_command of
             None \<Rightarrow> (Inr None, sv)
           | Some code \<Rightarrow>
               (case option_or sender_user_id sender_staff_id of
                  None \<Rightarrow> (Inl ''DingTalk sender identity is missing'', sv)
                | Some user_id \<Rightarrow>
                    (case confirm_pairing now paired_at code user_id m of
                       (Inr device, m') \<Rightarrow>
                         (let h = sv_hub sv
                          in (Inr (Some (zh_bound_device @ di_name device @ zh_bound_account)),
                              sv\<lparr>sv_pairing := Some m',
                                 sv_hub := h\<lparr>hb_bindings := set_binding (di_id device) user_id (hb_bindings h)\<rparr>\<rparr>))
                     | (Inl err, m') \<Rightarrow>
                         (let message = uhorse_error_display err
                          in (Inr (Some (if str_contains message ''expired'' then zh_code_expired
                                         else if str_contains message ''Invalid pairing code'' then zh_code_invalid
                                         else zh_bind_failed @ message)),
                              sv\<lparr>sv_pairing := Some m'\<rparr>))))))"

subsection \<open>Who may do what\<close>

definition bearer :: "server_env \<Rightarrow> int \<Rightarrow> string option \<Rightarrow> string \<Rightarrow> server \<Rightarrow> bool" where
  "bearer e t header n sv \<longleftrightarrow>
     (case header of
        None \<Rightarrow> False
      | Some value \<Rightarrow>
          (case strip_prefix_str BEARER_AUTH_PREFIX value of
             None \<Rightarrow> False
           | Some rest \<Rightarrow> node_verify_token (se_codec e) t (trim rest) (sv_auth sv) = Inr (NodeId n)))"

lemma authorized_bearer:
  "authorize_account_api_node e t header n sv = Inr () \<Longrightarrow> bearer e t header n sv \<and> security_manager sv \<noteq> None"
  by (auto simp: authorize_account_api_node_def bearer_def Let_def split: option.splits if_splits sum.splits)

definition paired_device :: "server \<Rightarrow> string \<Rightarrow> device_info option" where
  "paired_device sv d = Option.bind (sv_pairing sv) (get_device d)"

text \<open>Nothing but the account of one node changed.\<close>

definition only_account :: "string \<Rightarrow> server \<Rightarrow> server \<Rightarrow> bool" where
  "only_account n sv sv' \<longleftrightarrow> sv_auth sv' = sv_auth sv \<and>
     (\<exists>b. sv_hub sv' = (sv_hub sv)\<lparr>hb_bindings := b\<rparr>) \<and>
     (\<forall>d. d \<noteq> n \<longrightarrow> paired_device sv' d = paired_device sv d \<and>
        get_user_id (hb_bindings (sv_hub sv')) d = get_user_id (hb_bindings (sv_hub sv)) d)"

lemma same_bindings: "\<exists>b. h = h\<lparr>hb_bindings := b\<rparr>"
  by (intro exI [where x = "hb_bindings h"]) simp

lemma start_only_account:
  "authorize_account_api_node e t header (sp_node_id p) sv = Inr () \<Longrightarrow>
     only_account (sp_node_id p) sv (snd (start_account_pairing e t now uuid rnd header p sv))"
  using same_bindings [of "sv_hub sv"]
  by (auto simp: start_account_pairing_def initiate_pairing_def only_account_def paired_device_def get_device_def
      hm_get_insert Let_def split: option.splits)

lemma cancel_only_account:
  "get_pairing_request rid m = Inr r \<Longrightarrow> sv_pairing sv = Some m \<Longrightarrow>
     authorize_account_api_node e t header (pr_device_id r) sv = Inr () \<Longrightarrow>
     only_account (pr_device_id r) sv (snd (cancel_account_pairing e t header rid sv))"
  using same_bindings [of "sv_hub sv"]
  by (auto simp: cancel_account_pairing_def cancel_pairing_def get_pairing_request_def only_account_def
      paired_device_def get_device_def split: option.splits)

lemma unbind_others: "d \<noteq> n \<Longrightarrow> get_user_id (unbind n b) d = get_user_id b d"
proof -
  assume "d \<noteq> n"
  then have "get_binding (unbind n b) d = get_binding b d"
    by (cases "hm_get (nm_runtime_bindings b) d") (simp_all add: get_binding_def unbind_def hm_get_insert)
  then show ?thesis by (simp add: get_user_id_def)
qed

lemma unpair_others: "d \<noteq> n \<Longrightarrow> get_device d (snd (unpair_device n m)) = get_device d m"
  by (simp add: get_device_def unpair_device_def hm_get_insert split: option.splits)

lemma delete_only_account:
  "authorize_account_api_node e t header n sv = Inr () \<Longrightarrow>
     only_account n sv (snd (delete_account_binding e t header n sv))"
  by (cases "sv_pairing sv")
     (auto simp: delete_account_binding_def only_account_def paired_device_def unbind_others unpair_others Let_def)


text \<open>A pairing code in a conversation binds the device of its request to the sender.\<close>

lemma pairing_command_binds:
  assumes "sv_pairing sv = Some m" and "Option.bind (map_option trim content) resolve_pairing_command = Some code"
    and "option_or uid staff = Some user" and "confirm_pairing now pt code user m = (Inr device, m')"
  shows "get_user_id (hb_bindings (sv_hub (snd (process_dingtalk_pairing_command now pt content uid staff sv)))) (di_id device)
    = Some user"
  using assms
  by (simp add: process_dingtalk_pairing_command_def set_binding_def set_channel_binding_def get_user_id_def
      get_binding_def hm_get_insert Let_def)

end
