(* ===== verification/Hub_Api.thy ===== *)
theory Hub_Api
  imports Hub_Server
begin

section \<open>Tasks, permissions and approvals over HTTP (\<^verbatim>\<open>uhorse-hub/src/web/mod.rs\<close>)\<close>

text \<open>
  The handlers that read or change tasks, send rules to a node, and decide approvals. A decision is stored
  first and sent to the node after that, so the handler can fail with the decision already made.
\<close>

subsection \<open>Nodes and tasks\<close>

definition list_nodes :: "server \<Rightarrow> node_info list api_response" where
  "list_nodes sv = api_success (get_all_nodes (hb_nodes (sv_hub sv)))"

definition get_node_by_id :: "string \<Rightarrow> server \<Rightarrow> node_info option answer" where
  "get_node_by_id node_id sv =
     (case find (\<lambda>i. node_id_as_str (ni_node_id i) = node_id) (get_all_nodes (hb_nodes (sv_hub sv))) of
        Some i \<Rightarrow> (OK, api_success (Some i))
      | None \<Rightarrow> (NOT_FOUND, api_error ''Node not found''))"

text \<open>The list of tasks is always empty.\<close>

definition list_tasks :: "server \<Rightarrow> task_info list api_response" where
  "list_tasks sv = api_success []"

definition api_get_task :: "server_env \<Rightarrow> string \<Rightarrow> server \<Rightarrow> task_info option answer" where
  "api_get_task e tid sv =
     (case get_task_status (hb_scheduler (sv_hub sv)) (TaskId tid) of
        Some status \<Rightarrow>
          (OK, api_success (Some (task_info_from_status_and_context (se_roles e) (se_rfc3339 e) status
                 (get_task_context (hb_scheduler (sv_hub sv)) (TaskId tid)))))
      | None \<Rightarrow> (NOT_FOUND, api_error ''Task not found''))"

text \<open>A task of a turn is given up together with its turn.\<close>

definition api_cancel_task :: "inputs \<Rightarrow> string \<Rightarrow> server \<Rightarrow> string answer \<times> server" where
  "api_cancel_task i tid sv =
     (let h = sv_hub sv;
          h1 = (case find_task_binding (hb_runtime h) (TaskId tid) of
                  None \<Rightarrow> h
                | Some b \<Rightarrow> h\<lparr>hb_runtime := cancel_turn (in_now i) (tb_session_key b) (hb_runtime h)\<rparr>)
      in case cancel_task i (TaskId tid) ''User cancelled'' h1 of
           (Inr _, h2) \<Rightarrow> ((OK, api_success ''Task cancelled''), sv\<lparr>sv_hub := h2\<rparr>)
         | (Inl err, h2) \<Rightarrow> ((INTERNAL_SERVER_ERROR, api_error (hub_error_display err)), sv\<lparr>sv_hub := h2\<rparr>))"

record submit_task_payload =
  su_command :: command
  su_user_id :: string
  su_session_id :: string
  su_channel :: string
  su_execution_workspace_id :: "string option"
  su_collaboration_workspace_id :: "string option"
  su_intent :: "string option"
  su_env :: metadata
  su_priority :: priority
  su_workspace_hint :: "string option"
  su_required_tags :: "string list"

definition submitted_context :: "server_env \<Rightarrow> instant \<Rightarrow> submit_task_payload \<Rightarrow> task_context" where
  "submitted_context e now p =
     (let ctx = task_context_new now (UserId (su_user_id p)) (SessionId (su_session_id p)) (su_channel p);
          ctx = (case su_execution_workspace_id p of None \<Rightarrow> ctx | Some w \<Rightarrow> with_execution_workspace_id ctx w);
          ctx = (case su_collaboration_workspace_id p of
                   None \<Rightarrow> ctx | Some w \<Rightarrow> ctx\<lparr>tc_collaboration_workspace_id := Some w\<rparr>);
          ctx = (case su_intent p of None \<Rightarrow> ctx | Some x \<Rightarrow> ctx\<lparr>tc_intent := Some x\<rparr>);
          ctx = fold (\<lambda>(k, v) x. x\<lparr>tc_env := hm_insert k v (tc_env x)\<rparr>) (su_env p) ctx;
          key = (case session_key_parse (session_id_as_str (tc_session_id ctx)) of Inl _ \<Rightarrow> None | Inr k \<Rightarrow> Some k)
      in populate_task_context_runtime_metadata (se_roles e) key None ctx)"

text \<open>The Hub accepts every task it is given, so the handler has one answer.\<close>

definition submit_task_api :: "server_env \<Rightarrow> inputs \<Rightarrow> submit_task_payload \<Rightarrow> server \<Rightarrow> string answer \<times> server" where
  "submit_task_api e i p sv =
     (let (tid, h) = submit_task (se_hub e) i (su_command p) (submitted_context e (in_now i) p) (su_priority p) None
            (su_required_tags p) (su_workspace_hint p) (sv_hub sv)
      in ((CREATED, api_success (task_id_as_str tid)), sv\<lparr>sv_hub := h\<rparr>))"

subsection \<open>Messages to a node\<close>

text \<open>The sender of a node, and a message into it.\<close>

definition send_message :: "node_id \<Rightarrow> hub_to_node \<Rightarrow> hub \<Rightarrow> hub_error + hub" where
  "send_message n msg h =
     (case hm_get (hb_senders h) n of
        None \<Rightarrow> Inl (NodeNotFound n)
      | Some tx \<Rightarrow>
          (case send_to_node n msg tx of
             Inl err \<Rightarrow> Inl err
           | Inr tx' \<Rightarrow> Inr (h\<lparr>hb_senders := hm_insert n tx' (hb_senders h)\<rparr>)))"

definition update_node_permissions ::
  "inputs \<Rightarrow> string \<Rightarrow> proto_permission_rule list \<Rightarrow> server \<Rightarrow> string answer \<times> server" where
  "update_node_permissions i node_id rules sv =
     (case send_message (NodeId node_id) (PermissionUpdate (in_message_id i) rules) (sv_hub sv) of
        Inr h \<Rightarrow> ((OK, api_success ''Permission update sent''), sv\<lparr>sv_hub := h\<rparr>)
      | Inl (NodeNotFound _) \<Rightarrow> ((NOT_FOUND, api_error ''Node not found''), sv)
      | Inl err \<Rightarrow> ((INTERNAL_SERVER_ERROR, api_error (hub_error_display err)), sv))"

subsection \<open>Approvals\<close>

text \<open>The queries of the approver (\<^verbatim>\<open>security_integration.rs\<close>), which cannot fail.\<close>

definition approver_get_request :: "string \<Rightarrow> operation_approver \<Rightarrow> approval_request option" where
  "approver_get_request rid a = get_request rid (oa_approval_manager a)"

definition approver_list_pending :: "operation_approver \<Rightarrow> approval_request list" where
  "approver_list_pending a = list_pending (oa_approval_manager a)"

definition list_approvals :: "server \<Rightarrow> approval_request list answer" where
  "list_approvals sv =
     (case security_manager sv of
        None \<Rightarrow> (SERVICE_UNAVAILABLE, api_error ''Security manager not configured'')
      | Some a \<Rightarrow> (OK, api_success (approver_list_pending a)))"

definition get_approval :: "string \<Rightarrow> server \<Rightarrow> approval_request answer" where
  "get_approval rid sv =
     (case security_manager sv of
        None \<Rightarrow> (SERVICE_UNAVAILABLE, api_error ''Security manager not configured'')
      | Some a \<Rightarrow>
          (case approver_get_request rid a of
             Some r \<Rightarrow> (OK, api_success r)
           | None \<Rightarrow> (NOT_FOUND, api_error ''Approval not found'')))"

record approval_decision_payload =
  dp_responder :: string
  dp_reason :: "string option"

definition notify_node_approval_decision ::
  "inputs \<Rightarrow> approval_request \<Rightarrow> approval_decision_payload \<Rightarrow> bool \<Rightarrow> hub \<Rightarrow> hub_error + hub" where
  "notify_node_approval_decision i request p approved h =
     (case json_str_field (ar_metadata request) ''node_id'' of
        None \<Rightarrow> Inl (InternalErr ''Approval request missing node_id metadata'')
      | Some n \<Rightarrow>
          (let rid = (case json_str_field (ar_metadata request) ''request_id'' of Some r \<Rightarrow> r | None \<Rightarrow> ar_id request)
           in send_message (NodeId n)
                (ApprovalResponse (in_message_id i) rid approved (dp_responder p) (dp_reason p) (in_now i)) h))"

text \<open>The decision, in the transcript of the session whose task asked for it.\<close>

definition note_decision ::
  "inputs \<Rightarrow> string \<Rightarrow> approval_request \<Rightarrow> approval_decision_payload \<Rightarrow> bool \<Rightarrow> session_runtime \<Rightarrow> session_runtime" where
  "note_decision i rid request p approved r =
     (case Option.bind (json_str_field (ar_metadata request) ''task_id'') (\<lambda>tid. find_task_binding r (TaskId tid)) of
        None \<Rightarrow> r
      | Some b \<Rightarrow>
          append_transcript_event (in_now i) (tb_session_key b)
            (if approved then ApprovalApproved else ApprovalRejected)
            (''request_id='' @ rid @ ''; responder='' @ dp_responder p) r)"

definition decide_approval ::
  "inputs \<Rightarrow> string \<Rightarrow> approval_decision_payload \<Rightarrow> bool \<Rightarrow> server \<Rightarrow> approval_request answer \<times> server" where
  "decide_approval i rid p approved sv =
     (case security_manager sv of
        None \<Rightarrow> ((SERVICE_UNAVAILABLE, api_error ''Security manager not configured''), sv)
      | Some a \<Rightarrow>
          (case approver_get_request rid a of
             None \<Rightarrow> ((NOT_FOUND, api_error ''Approval not found''), sv)
           | Some existing \<Rightarrow>
               (case (if approved then approver_approve (in_unix i) rid (dp_responder p) (dp_reason p) a
                      else approver_reject (in_unix i) rid (dp_responder p) (dp_reason p) a) of
                  Inl err \<Rightarrow> ((INTERNAL_SERVER_ERROR, api_error (hub_error_display err)), sv)
                | Inr a' \<Rightarrow>
                    (let h1 = (sv_hub sv)\<lparr>hb_approver := Some a'\<rparr>
                     in case approver_get_request rid a' of
                          None \<Rightarrow> ((INTERNAL_SERVER_ERROR, api_error ''Approval disappeared after decision''),
                                   sv\<lparr>sv_hub := h1\<rparr>)
                        | Some updated \<Rightarrow>
                            (let h2 = h1\<lparr>hb_runtime := note_decision i rid existing p approved (hb_runtime h1)\<rparr>
                             in case notify_node_approval_decision i existing p approved h2 of
                                  Inl err \<Rightarrow> ((INTERNAL_SERVER_ERROR, api_error (hub_error_display err)),
                                              sv\<lparr>sv_hub := h2\<rparr>)
                                | Inr h3 \<Rightarrow> ((OK, api_success updated), sv\<lparr>sv_hub := h3\<rparr>))))))"

definition approve_approval ::
  "inputs \<Rightarrow> string \<Rightarrow> approval_decision_payload \<Rightarrow> server \<Rightarrow> approval_request answer \<times> server" where
  "approve_approval i rid p sv = decide_approval i rid p True sv"

definition reject_approval ::
  "inputs \<Rightarrow> string \<Rightarrow> approval_decision_payload \<Rightarrow> server \<Rightarrow> approval_request answer \<times> server" where
  "reject_approval i rid p sv = decide_approval i rid p False sv"

subsection \<open>A request is filed\<close>

lemma no_rules [simp]:
  "\<not> evaluate_auto_approve rule_engine_new m" "\<not> evaluate_auto_reject rule_engine_new m"
  by (simp_all add: evaluate_auto_approve_def evaluate_auto_reject_def rule_engine_new_def)

definition filed_request :: "hub_env \<Rightarrow> inputs \<Rightarrow> node_id \<Rightarrow> json \<Rightarrow> command \<Rightarrow> approval_request" where
  "filed_request e i n metadata cmd =
     (approval_request_new (in_unix i) (in_uuid i) (approval_operation_for_command cmd) (node_id_as_str n) Single
        [hub_admin])\<lparr>ar_metadata := metadata\<rparr>"

lemma check_idempotency_manager:
  "oa_approval_manager (snd (check_idempotency now q ttl a)) = oa_approval_manager a"
  by (simp add: check_idempotency_def split: prod.splits)

lemma request_filed:
  assumes "hb_approver h = Some a" and "am_rule_engine (oa_approval_manager a) = rule_engine_new"
    and "\<not> fst (check_idempotency (in_unix i) q (approval_request_ttl_seconds t0 t1) a)"
  shows "\<exists>h1 a1. handle_node_message e i n (ApprovalRequestMsg m q tid cmd ctx reason t0 t1) h = (Inr (), h1) \<and>
    hb_approver h1 = Some a1 \<and> hb_senders h1 = hb_senders h \<and>
    hm_get (am_pending (oa_approval_manager a1)) (in_uuid i) =
      Some (filed_request e i n (approval_metadata e n q tid cmd ctx reason t0 t1) cmd)"
proof -
  obtain a0 where a0: "check_idempotency (in_unix i) q (approval_request_ttl_seconds t0 t1) a = (False, a0)"
    using assms(3) by (metis (full_types) prod.collapse)
  have "oa_approval_manager a0 = oa_approval_manager a"
    using check_idempotency_manager [of "in_unix i" q "approval_request_ttl_seconds t0 t1" a] a0 by simp
  then show ?thesis
    using assms(1,2) a0
    by (simp add: handle_node_message_def should_dispatch_def handle_approval_request_def request_approval_def
        create_request_def store_idempotency_response_def filed_request_def put_get Let_def split_beta
        approval_request_new_def)
qed

lemma metadata_fields [simp]:
  "json_str_field (approval_metadata e n q tid cmd ctx reason t0 t1) ''node_id'' = Some (node_id_as_str n)"
  "json_str_field (approval_metadata e n q tid cmd ctx reason t0 t1) ''request_id'' = Some q"
  by (simp_all add: approval_metadata_def json_str_field_def)

subsection \<open>A decision is made and sent\<close>

definition undecided :: "approval_request \<Rightarrow> bool" where
  "undecided r \<longleftrightarrow> ar_level r = Single \<and> ar_decisions r = [] \<and> ar_approved_count r = 0 \<and> ar_rejected_count r = 0"

lemma filed_undecided [simp]: "undecided (filed_request e i n metadata cmd)"
  by (simp add: undecided_def filed_request_def approval_request_new_def)

lemma filed_fields [simp]:
  "ar_metadata (filed_request e i n metadata cmd) = metadata"
  "is_expired now (filed_request e i n metadata cmd) \<longleftrightarrow> in_unix i + 86400 < now"
  by (simp_all add: filed_request_def approval_request_new_def is_expired_def)

definition decided :: "u64 \<Rightarrow> approval_decision_payload \<Rightarrow> bool \<Rightarrow> approval_request \<Rightarrow> approval_request" where
  "decided now p ok r =
     (let r' = r\<lparr>ar_decisions := [\<lparr>ad_approver_id = dp_responder p, ad_approved = ok, ad_comment = dp_reason p,
                                    ad_decided_at = now\<rparr>]\<rparr>
      in update_status now (if ok then r'\<lparr>ar_approved_count := 1\<rparr> else r'\<lparr>ar_rejected_count := 1\<rparr>))"

lemma decided_status:
  assumes "undecided r"
  shows "ar_status (decided now p ok r) =
    (if is_expired now r then ApTimedOut else if ok then ApApproved else ApRejected)"
  using assms by (simp add: decided_def update_status_def undecided_def is_expired_def is_completed_def)

lemma decision_stored:
  assumes "hm_get (am_pending (oa_approval_manager a)) rid = Some r" and "undecided r"
  shows "\<exists>a'. (if ok then approver_approve now rid (dp_responder p) (dp_reason p) a
       else approver_reject now rid (dp_responder p) (dp_reason p) a) = Inr a' \<and>
     hm_get (am_pending (oa_approval_manager a')) rid = None \<and>
     hm_get (am_history (oa_approval_manager a')) rid = Some (decided now p ok r)"
  using assms
  by (cases ok)
     (simp_all add: approver_approve_def approver_reject_def approve_request_def reject_request_def undecided_def
       can_approve_def add_decision_def decided_def is_completed_def to_history_def put_get Let_def)

lemma decide_made:
  assumes "security_manager sv = Some a" and r: "hm_get (am_pending (oa_approval_manager a)) rid = Some r"
    and "undecided r"
  shows "\<exists>h. hb_senders h = hb_senders (sv_hub sv) \<and>
    (\<exists>a'. hb_approver h = Some a' \<and> hm_get (am_pending (oa_approval_manager a')) rid = None \<and>
       hm_get (am_history (oa_approval_manager a')) rid = Some (decided (in_unix i) p ok r)) \<and>
    decide_approval i rid p ok sv =
      (case notify_node_approval_decision i r p ok h of
         Inl err \<Rightarrow> ((INTERNAL_SERVER_ERROR, api_error (hub_error_display err)), sv\<lparr>sv_hub := h\<rparr>)
       | Inr h' \<Rightarrow> ((OK, api_success (decided (in_unix i) p ok r)), sv\<lparr>sv_hub := h'\<rparr>))"
proof -
  obtain a' where a': "(if ok then approver_approve (in_unix i) rid (dp_responder p) (dp_reason p) a
       else approver_reject (in_unix i) rid (dp_responder p) (dp_reason p) a) = Inr a'"
      "hm_get (am_pending (oa_approval_manager a')) rid = None"
      "hm_get (am_history (oa_approval_manager a')) rid = Some (decided (in_unix i) p ok r)"
    using decision_stored [OF r assms(3)] by blast
  have "approver_get_request rid a = Some r" "approver_get_request rid a' = Some (decided (in_unix i) p ok r)"
    using r a'(2,3) by (simp_all add: approver_get_request_def get_request_def)
  then show ?thesis
    using assms(1) a'
    by (intro exI [where x = "(sv_hub sv)\<lparr>hb_approver := Some a',
          hb_runtime := note_decision i rid r p ok (hb_runtime (sv_hub sv))\<rparr>"])
       (simp add: decide_approval_def Let_def split: sum.splits)
qed

lemma send_message_open:
  assumes "hm_get (hb_senders h) n = Some tx" and "tx_open tx"
  shows "\<exists>h'. send_message n msg h = Inr h' \<and>
    hm_get (hb_senders h') n = Some (tx\<lparr>tx_sent := tx_sent tx @ [msg]\<rparr>)"
  using assms by (simp add: send_message_def send_to_node_def mpsc_send_def put_get)

text \<open>
  A decision whose node cannot be told is stored all the same: the handler answers with an error, and so
  does every later attempt, so the node never hears of it.
\<close>

lemma undelivered_decision_final:
  assumes "security_manager sv = Some a" and "hm_get (am_pending (oa_approval_manager a)) rid = Some r"
    and "undecided r" and "json_str_field (ar_metadata r) ''node_id'' = Some n"
    and "hm_get (hb_senders (sv_hub sv)) (NodeId n) = None"
    and "decide_approval i rid p ok sv = (answer, sv')"
  shows "fst answer = INTERNAL_SERVER_ERROR \<and>
    fst (fst (decide_approval j rid p' ok' sv')) = INTERNAL_SERVER_ERROR \<and> snd (decide_approval j rid p' ok' sv') = sv'"
proof -
  obtain h a' where h: "hb_senders h = hb_senders (sv_hub sv)" "hb_approver h = Some a'"
      "hm_get (am_pending (oa_approval_manager a')) rid = None"
      "hm_get (am_history (oa_approval_manager a')) rid = Some (decided (in_unix i) p ok r)"
      "decide_approval i rid p ok sv =
        (case notify_node_approval_decision i r p ok h of
           Inl err \<Rightarrow> ((INTERNAL_SERVER_ERROR, api_error (hub_error_display err)), sv\<lparr>sv_hub := h\<rparr>)
         | Inr h' \<Rightarrow> ((OK, api_success (decided (in_unix i) p ok r)), sv\<lparr>sv_hub := h'\<rparr>))"
    using decide_made [OF assms(1-3), of i p ok] by blast
  have "notify_node_approval_decision i r p ok h = Inl (NodeNotFound (NodeId n))"
    using assms(4,5) h(1) by (simp add: notify_node_approval_decision_def send_message_def Let_def)
  then have "fst answer = INTERNAL_SERVER_ERROR" "sv' = sv\<lparr>sv_hub := h\<rparr>" using assms(6) h(5) by auto
  then show ?thesis
    using h(2-4)
    by (simp add: decide_approval_def approver_get_request_def get_request_def approver_approve_def approver_reject_def
        approve_request_def reject_request_def)
qed

subsection \<open>A task that needs approval, from the question to its end\<close>

definition asked :: "handling \<Rightarrow> node_agent \<Rightarrow> task_id \<Rightarrow> command \<Rightarrow> task_context \<Rightarrow> string \<Rightarrow> node_to_hub" where
  "asked i a tid cmd ctx reason =
     ApprovalRequestMsg (hd_message_id i) (hd_approval_id i) tid cmd ctx reason (hd_now i)
       (hd_now i + duration_seconds (pm_approval_timeout_secs (ag_permissions a)))"

lemma node_asks:
  assumes "ag_outbound_open a" and "agent_check env i a cmd ctx = RequiresApproval x reason"
  shows "handle_hub_message env i (TaskAssignment mid tid cmd prio deadline ctx timeout retries) a =
    (Some None, a\<lparr>ag_running_tasks := hm_insert tid () (ag_running_tasks a),
       ag_permissions := snd (create_approval_request (hd_now i) (hd_approval_id i) (task_id_str tid) cmd ctx reason
         (ag_permissions a)),
       ag_outbox := ag_outbox a @ [asked i a tid cmd ctx reason]\<rparr>)"
  using assms
  by (simp add: handle_assignment_def agent_check_def create_approval_request_def send_outbound_def asked_def Let_def)

lemma task_id_of_str [simp]: "TaskId (task_id_str tid) = tid"
  by (cases tid) simp

text \<open>What the node does with the answer to its question.\<close>

lemma node_hears:
  assumes "agent_check env i a cmd ctx = RequiresApproval x reason" and "ag_outbound_open a"
    and "handle_hub_message env i (TaskAssignment mid tid cmd prio deadline ctx timeout retries) a = (res, a1)"
    and "hd_now k \<le> hd_now i + duration_seconds (pm_approval_timeout_secs (ag_permissions a))"
  shows "handle_hub_message env k (ApprovalResponse mid' (hd_approval_id i) ok who why t) a1 =
    (let a2 = a1\<lparr>ag_permissions := (ag_permissions a1)\<lparr>pm_pending_approvals :=
           hm_remove (hd_approval_id i) (pm_pending_approvals (ag_permissions a1))\<rparr>\<rparr>
     in if ok then run_task env k tid cmd (a2\<lparr>ag_running_tasks := hm_insert tid () (ag_running_tasks a2)\<rparr>)
        else (Some None, snd (finish_task env k tid 0
          (command_failure (permission_denied_error (case why of Some r \<Rightarrow> r | None \<Rightarrow> ''Approval rejected''))) a2)))"
proof -
  have a1: "a1 = a\<lparr>ag_running_tasks := hm_insert tid () (ag_running_tasks a),
       ag_permissions := snd (create_approval_request (hd_now i) (hd_approval_id i) (task_id_str tid) cmd ctx reason
         (ag_permissions a)),
       ag_outbox := ag_outbox a @ [asked i a tid cmd ctx reason]\<rparr>"
    using node_asks [OF assms(2,1)] assms(3) by simp
  show ?thesis
    using assms(2,4) unfolding a1
    by (simp add: handle_approval_def handle_approval_response_def create_approval_request_def put_get Let_def
        finish_task_def send_outbound_def)
qed

text \<open>
  C10: a task that needs approval gets its answer. A node whose check asks for approval sends one request;
  the Hub, which has not seen it before and has no automatic rules, files it under its node; when somebody
  decides the filed request over the interface, the answer goes into the channel of that node, under the
  id the node gave its request, with the decision; and the node, in time, then runs exactly the command of
  the task, or reports the task as refused without its executor having done anything. What is filed is
  the decision, or a time-out when it came after a day, and then too the node is told the decision.
\<close>

theorem approval_comes_back:
  assumes "agent_check env k0 ag cmd ctx = RequiresApproval x reason" and "ag_outbound_open ag"
    and "handle_hub_message env k0 (TaskAssignment mid tid cmd prio deadline ctx timeout retries) ag = (res, ag1)"
    and "hd_now k \<le> hd_now k0 + duration_seconds (pm_approval_timeout_secs (ag_permissions ag))"
    and "hb_approver h = Some a" and "am_rule_engine (oa_approval_manager a) = rule_engine_new"
    and "\<And>ttl. \<not> fst (check_idempotency (in_unix i) (hd_approval_id k0) ttl a)"
    and "hm_get (hb_senders h) n = Some tx" and "tx_open tx"
  shows "\<exists>question h1 r sv' answer.
    ag_outbox ag1 = ag_outbox ag @ [question] \<and> handle_node_message e i n question h = (Inr (), h1) \<and>
    decide_approval j (in_uuid i) p ok (sv\<lparr>sv_hub := h1\<rparr>) = ((OK, api_success r), sv') \<and>
    ar_status r = (if in_unix i + 86400 < in_unix j then ApTimedOut else if ok then ApApproved else ApRejected) \<and>
    hm_get (hb_senders (sv_hub sv')) n = Some (tx\<lparr>tx_sent := tx_sent tx @ [answer]\<rparr>) \<and>
    (if ok then (\<exists>ag2. handle_hub_message env k answer ag1 = run_task env k tid cmd ag2 \<and>
        ag_executor ag2 = ag_executor ag \<and> hm_contains (ag_running_tasks ag2) tid)
     else (\<exists>result ag2. handle_hub_message env k answer ag1 = (Some None, ag2) \<and>
        ag_outbox ag2 = ag_outbox ag1 @ [TaskResultMsg (hd_message_id k) tid result (metrics_of_duration 0)] \<and>
        \<not> cr_success result \<and> ag_executor ag2 = ag_executor ag))"
proof -
  let ?timeout = "hd_now k0 + duration_seconds (pm_approval_timeout_secs (ag_permissions ag))"
  let ?meta = "approval_metadata e n (hd_approval_id k0) tid cmd ctx reason (hd_now k0) ?timeout"
  note asks = node_asks [OF assms(2,1), of mid tid prio deadline timeout retries]
  have ag1: "ag_outbox ag1 = ag_outbox ag @ [asked k0 ag tid cmd ctx reason]" "ag_outbound_open ag1"
      "ag_executor ag1 = ag_executor ag"
    using asks assms(2,3) by auto
  obtain h1 a1 where h1: "handle_node_message e i n (asked k0 ag tid cmd ctx reason) h = (Inr (), h1)"
      "hb_approver h1 = Some a1" "hb_senders h1 = hb_senders h"
      "hm_get (am_pending (oa_approval_manager a1)) (in_uuid i) = Some (filed_request e i n ?meta cmd)"
    using request_filed [OF assms(5-7), of e n "hd_message_id k0" tid cmd ctx reason "hd_now k0" ?timeout]
    unfolding asked_def by blast
  let ?r = "filed_request e i n ?meta cmd" and ?sv = "sv\<lparr>sv_hub := h1\<rparr>"
  have sm: "security_manager ?sv = Some a1" using h1(2) by simp
  obtain h2 where h2: "hb_senders h2 = hb_senders h1"
      "decide_approval j (in_uuid i) p ok ?sv =
        (case notify_node_approval_decision j ?r p ok h2 of
           Inl err \<Rightarrow> ((INTERNAL_SERVER_ERROR, api_error (hub_error_display err)), ?sv\<lparr>sv_hub := h2\<rparr>)
         | Inr h' \<Rightarrow> ((OK, api_success (decided (in_unix j) p ok ?r)), ?sv\<lparr>sv_hub := h'\<rparr>))"
    using decide_made [OF sm h1(4), of j p ok] by auto
  let ?answer = "ApprovalResponse (in_message_id j) (hd_approval_id k0) ok (dp_responder p) (dp_reason p) (in_now j)"
  have "hm_get (hb_senders h2) n = Some tx" using assms(8) h1(3) h2(1) by simp
  then obtain h3 where h3: "send_message n ?answer h2 = Inr h3"
      "hm_get (hb_senders h3) n = Some (tx\<lparr>tx_sent := tx_sent tx @ [?answer]\<rparr>)"
    using send_message_open [OF _ assms(9)] by blast
  have "notify_node_approval_decision j ?r p ok h2 = Inr h3"
    using h3(1) by (simp add: notify_node_approval_decision_def)
  then have made: "decide_approval j (in_uuid i) p ok ?sv =
      ((OK, api_success (decided (in_unix j) p ok ?r)), sv\<lparr>sv_hub := h3\<rparr>)"
    using h2(2) by simp
  have status: "ar_status (decided (in_unix j) p ok ?r) =
      (if in_unix i + 86400 < in_unix j then ApTimedOut else if ok then ApApproved else ApRejected)"
    using decided_status [of ?r "in_unix j" p ok] by simp
  note hears = node_hears [OF assms(1-4), of "in_message_id j" ok "dp_responder p" "dp_reason p" "in_now j"]
  have "if ok then (\<exists>ag2. handle_hub_message env k ?answer ag1 = run_task env k tid cmd ag2 \<and>
        ag_executor ag2 = ag_executor ag \<and> hm_contains (ag_running_tasks ag2) tid)
     else (\<exists>result ag2. handle_hub_message env k ?answer ag1 = (Some None, ag2) \<and>
        ag_outbox ag2 = ag_outbox ag1 @ [TaskResultMsg (hd_message_id k) tid result (metrics_of_duration 0)] \<and>
        \<not> cr_success result \<and> ag_executor ag2 = ag_executor ag)"
  proof (cases ok)
    case True
    then show ?thesis
      using hears ag1(3) by (auto simp: Let_def hm_contains_def put_get intro!: exI)
  next
    case False
    then show ?thesis
      using hears ag1(2,3) by (auto simp: Let_def finish_task_def send_outbound_def command_failure_def)
  qed
  then show ?thesis using ag1(1) h1(1) made status h3(2) by fastforce
qed

definition example_server :: server where
  "example_server = \<lparr>sv_hub = example_hub, sv_auth = with_secret ''s'', sv_pairing = Some pairing_manager_new\<rparr>"

theorem approval_comes_back_witness:
  "\<exists>ag1 question h1 r sv' answer ag2.
     handle_hub_message example_exec_env example_handling
       (example_assignment (File (Write ''b'' ''new'' True))) asking_agent = (Some None, ag1) \<and>
     ag_outbox ag1 = [question] \<and>
     handle_node_message example_hub_env example_inputs (NodeId ''a'') question example_hub = (Inr (), h1) \<and>
     decide_approval (example_inputs\<lparr>in_unix := 200\<rparr>) ''u1'' \<lparr>dp_responder = ''bob'', dp_reason = None\<rparr> True
       (example_server\<lparr>sv_hub := h1\<rparr>) = ((OK, api_success r), sv') \<and>
     ar_status r = ApApproved \<and>
     handle_hub_message example_exec_env example_handling answer ag1 =
       run_task example_exec_env example_handling (TaskId ''t'') (File (Write ''b'' ''new'' True)) ag2"
proof -
  let ?a = "operation_approver_new approval_manager_new"
  have open_channel: "ag_outbound_open asking_agent" "ag_outbox asking_agent = []"
    by (simp_all add: asking_agent_def example_agent_def)
  obtain ag1 where ask: "handle_hub_message example_exec_env example_handling
       (example_assignment (File (Write ''b'' ''new'' True))) asking_agent = (Some None, ag1)"
    using node_asks [OF open_channel(1) asking_agent_check] unfolding example_assignment_def by blast
  have time: "hd_now example_handling \<le> hd_now example_handling +
      duration_seconds (pm_approval_timeout_secs (ag_permissions asking_agent))"
    by (simp add: asking_agent_def example_agent_def replace_rules_def load_default_rules_def add_rule_def
        permission_manager_new_def duration_seconds_def nanos_per_sec_def)
  have a: "hb_approver example_hub = Some ?a" "am_rule_engine (oa_approval_manager ?a) = rule_engine_new"
    by (simp_all add: example_hub_def hub_new_with_security_def hub_new_with_components_def
        operation_approver_new_def approval_manager_new_def)
  have new: "\<not> fst (check_idempotency (in_unix example_inputs) (hd_approval_id example_handling) ttl ?a)" for ttl
    by (simp add: check_idempotency_def check_or_record_def drop_expired_def operation_approver_new_def
        idempotency_new_def hm_retain_def)
  obtain tx where tx: "hm_get (hb_senders example_hub) (NodeId ''a'') = Some tx" "tx_open tx"
    by (simp add: example_senders_def)
  have uuid: "in_uuid example_inputs = ''u1''" "in_unix example_inputs = 100" by (simp_all add: example_inputs_def)
  show ?thesis
    using approval_comes_back [OF asking_agent_check open_channel(1) ask [unfolded example_assignment_def] time a new tx,
        of example_hub_env "example_inputs\<lparr>in_unix := 200\<rparr>" "\<lparr>dp_responder = ''bob'', dp_reason = None\<rparr>" True
        example_server] ask open_channel(2) uuid
    by auto blast
qed

end
