(* ===== verification/Hub_Gate.thy ===== *)
theory Hub_Gate
  imports Hub_Api
begin

section \<open>Which nodes the Hub talks to\<close>

text \<open>
  The composition of the authenticator, the WebSocket handler and the Hub: the runs of a server with the
  live connections, the nodes that authenticated and the tokens that were issued. Connections of one node
  may overlap. A first message carries a token that was issued or one that nobody can have made, which
  does not decode.
\<close>

subsection \<open>Channels to nodes\<close>

abbreviation reaches :: "hub \<Rightarrow> node_id \<Rightarrow> bool" where
  "reaches h n \<equiv> hm_contains (hb_senders h) n"

text \<open>Nodes with a channel, and whether there is an approver: what most operations leave as it is.\<close>

definition same_gate :: "hub \<Rightarrow> hub \<Rightarrow> bool" where
  "same_gate h h' \<longleftrightarrow> (\<forall>n. reaches h' n = reaches h n) \<and> (hb_approver h' = None \<longleftrightarrow> hb_approver h = None)"

lemma same_gate_refl [simp]: "same_gate h h"
  by (simp add: same_gate_def)

lemma same_gate_trans: "same_gate h h' \<Longrightarrow> same_gate h' h'' \<Longrightarrow> same_gate h h''"
  by (simp add: same_gate_def)

lemma same_gate_fields [simp]:
  "same_gate h (h\<lparr>hb_scheduler := s\<rparr>)" "same_gate h (h\<lparr>hb_nodes := m\<rparr>)" "same_gate h (h\<lparr>hb_runtime := r\<rparr>)"
  "same_gate h (h\<lparr>hb_bindings := b\<rparr>)" "same_gate h (h\<lparr>hb_channels := c\<rparr>)"
  "hb_approver h \<noteq> None \<Longrightarrow> same_gate h (h\<lparr>hb_approver := Some a\<rparr>)"
  by (simp_all add: same_gate_def)

lemma dispatch_rounds_reaches:
  "dispatch_rounds e rounds k nm senders s = (senders', s') \<Longrightarrow> hm_contains senders' n = hm_contains senders n"
proof (induction e rounds k nm senders s rule: dispatch_rounds.induct)
  case (1 e rounds k nm senders s)
  obtain r senders1 s1 where sn: "schedule_next e (fst (rounds k)) (snd (rounds k)) nm senders s = (r, senders1, s1)"
    by (metis prod_cases3)
  have one: "hm_contains senders1 n = hm_contains senders n"
    using schedule_next_cases [of e nm senders s "fst (rounds k)" "snd (rounds k)"]
    by cases (use sn in auto)
  show ?case
    using 1 sn one by (subst (asm) dispatch_rounds.simps) (auto split: if_splits option.splits)
qed

lemma dispatch_gate: "same_gate h (dispatch_pending_tasks e i h)"
  using dispatch_rounds_reaches
  by (auto simp: same_gate_def dispatch_pending_tasks_def Let_def split: prod.splits)

lemma with_nodes_gate: "same_gate h (snd (with_nodes r h))"
  by (simp add: with_nodes_def split: sum.splits)

lemma approval_gate:
  "same_gate h (snd (handle_approval_request e i n q tid cmd ctx why t0 t1 h))"
  by (auto simp: handle_approval_request_def same_gate_def Let_def split: option.splits prod.splits)

lemma route_gate: "same_gate h (snd (route_node_message e i n msg h))"
  by (cases msg) (auto simp: with_nodes_gate approval_gate split: option.splits)

lemma message_gate: "same_gate h (snd (handle_node_message e i n msg h))"
  using route_gate [of h e i n msg]
  by (auto simp: handle_node_message_def intro: same_gate_trans [OF _ dispatch_gate] split: prod.splits sum.splits)

lemma connection_gate: "same_gate h (snd (handle_node_connection e i n name caps ws tags h))"
  using with_nodes_gate [of h "register_node (in_now i) n name caps ws tags (hb_nodes h)"]
  by (auto simp: handle_node_connection_def intro: same_gate_trans [OF _ dispatch_gate] split: prod.splits sum.splits)

lemma disconnect_gate: "same_gate h (snd (handle_node_disconnect n h))"
  by (simp add: handle_node_disconnect_def with_nodes_gate)

lemma cancel_gate: "same_gate h (snd (cancel_task i tid why h))"
proof -
  have "hm_contains senders n = reaches h n" if "send_cancellation mid tid why h = Inr senders" for mid senders n
    using that by (auto simp: send_cancellation_def hm_contains_def put_get split: option.splits if_splits)
  then show ?thesis
    by (auto simp: cancel_task_def router_cancel_task_def same_gate_def Let_def split: sum.splits)
qed

lemma submit_gate: "same_gate h (snd (submit_task e i c ctx p caps tags hint h))"
proof -
  obtain tid s where "sched_submit_task (in_now i) c ctx p caps tags hint (hb_scheduler h) = (tid, s)"
    by (metis surj_pair)
  then show ?thesis
    using same_gate_trans [OF same_gate_fields(1) dispatch_gate] by (simp add: submit_task_def)
qed

lemma tick_gate: "same_gate h (background_tick i h)"
  by (simp add: background_tick_def same_gate_def Let_def)

lemma send_gate: "send_message n msg h = Inr h' \<Longrightarrow> same_gate h h'"
  by (auto simp: send_message_def same_gate_def send_to_node_def mpsc_send_def hm_contains_def put_get
      split: option.splits if_splits)

lemma notify_gate: "notify_node_approval_decision i r p ok h = Inr h' \<Longrightarrow> same_gate h h'"
  using send_gate by (auto simp: notify_node_approval_decision_def Let_def split: option.splits)

subsection \<open>Calls that are not connections\<close>

inductive server_call :: "server_env \<Rightarrow> server \<Rightarrow> server \<Rightarrow> bool" for e where
  call_submit: "server_call e sv (snd (submit_task_api e i p sv))"
| call_cancel: "server_call e sv (snd (api_cancel_task i tid sv))"
| call_permissions: "server_call e sv (snd (update_node_permissions i node_id rules sv))"
| call_decide: "server_call e sv (snd (decide_approval i rid d ok sv))"
| call_start: "server_call e sv (snd (start_account_pairing e t now uuid rnd header sp sv))"
| call_stop: "server_call e sv (snd (cancel_account_pairing e t header rid sv))"
| call_unbind: "server_call e sv (snd (delete_account_binding e t header node_id sv))"
| call_pair: "server_call e sv (snd (process_dingtalk_pairing_command now pt content uid staff sv))"
| call_tick: "server_call e sv (sv\<lparr>sv_hub := background_tick i (sv_hub sv)\<rparr>)"

inductive_cases server_callE: "server_call e sv sv'"

definition calm :: "server \<Rightarrow> server \<Rightarrow> bool" where
  "calm sv sv' \<longleftrightarrow> sv_auth sv' = sv_auth sv \<and> same_gate (sv_hub sv) (sv_hub sv')"

lemma decide_calm: "calm sv (snd (decide_approval i rid d ok sv))"
proof -
  have "same_gate (sv_hub sv) h'"
    if "notify_node_approval_decision i r d ok ((sv_hub sv)\<lparr>hb_approver := Some a, hb_runtime := x\<rparr>) = Inr h'"
      and "security_manager sv = Some b" for r a x h' b
    using notify_gate [OF that(1)] that(2) by (simp add: same_gate_def)
  then show ?thesis
    by (auto simp: decide_approval_def calm_def Let_def same_gate_def split: option.splits sum.splits)
qed

lemma submit_calm: "calm sv (snd (submit_task_api e i p sv))"
  using submit_gate [of "sv_hub sv" "se_hub e" i "su_command p" "submitted_context e (in_now i) p" "su_priority p" None
      "su_required_tags p" "su_workspace_hint p"]
  by (simp add: submit_task_api_def calm_def split_beta)

lemma cancel_calm: "calm sv (snd (api_cancel_task i tid sv))"
proof -
  have "same_gate (sv_hub sv) h'"
    if "cancel_task i (TaskId tid) ''User cancelled'' h = (r, h')" and "same_gate (sv_hub sv) h" for h r h'
    using cancel_gate [of h i "TaskId tid" "''User cancelled''"] that by (auto intro: same_gate_trans)
  then show ?thesis
    by (auto simp: api_cancel_task_def calm_def Let_def split: prod.splits sum.splits option.splits)
qed

lemma permissions_calm: "calm sv (snd (update_node_permissions i node_id rules sv))"
  using send_gate by (auto simp: update_node_permissions_def calm_def split: sum.splits hub_error.splits)

lemma account_calm:
  "calm sv (snd (start_account_pairing e t now uuid rnd header sp sv))"
  "calm sv (snd (cancel_account_pairing e t header rid sv))"
  "calm sv (snd (delete_account_binding e t header node_id sv))"
  "calm sv (snd (process_dingtalk_pairing_command now pt content uid staff sv))"
  by (auto simp: start_account_pairing_def cancel_account_pairing_def delete_account_binding_def
      process_dingtalk_pairing_command_def calm_def Let_def split: sum.splits option.splits prod.splits)

lemma server_call_calm: "server_call e sv sv' \<Longrightarrow> calm sv sv'"
  by (erule server_callE)
     (auto simp: submit_calm cancel_calm permissions_calm decide_calm account_calm, simp add: calm_def tick_gate)

subsection \<open>Opening and closing a connection\<close>

lemma authenticated_registration:
  assumes "authenticate_registration e t r sv = Inr ()" and "security_manager sv \<noteq> None"
  shows "node_verify_token (se_codec e) t (rg_auth_token r) (sv_auth sv) = Inr (rg_node_id r)"
  using assms by (auto simp: authenticate_registration_def split: option.splits if_splits sum.splits)

lemma register_reaches:
  "reaches (register_node_sender n tx h) m \<longleftrightarrow> m = n \<or> reaches h m"
  "reaches (unregister_node_sender n h) m \<longleftrightarrow> m \<noteq> n \<and> reaches h m"
  "hb_approver (register_node_sender n tx h) = hb_approver h"
  "hb_approver (unregister_node_sender n h) = hb_approver h"
  by (auto simp: register_node_sender_def unregister_node_sender_def hm_contains_def put_get)

lemma dropped:
  "sv_auth (drop_connection n sv) = sv_auth sv"
  "reaches (sv_hub (drop_connection n sv)) m \<longleftrightarrow> m \<noteq> n \<and> reaches (sv_hub sv) m"
  "security_manager (drop_connection n sv) = None \<longleftrightarrow> security_manager sv = None"
  using disconnect_gate [of "unregister_node_sender n (sv_hub sv)" n]
  by (auto simp: drop_connection_def same_gate_def register_reaches Let_def)

lemma opened:
  assumes "open_socket e i t ok first sv = (Inr n, sv')" and "security_manager sv \<noteq> None"
  shows "\<exists>r. wait_for_registration e first = Some r \<and>
      node_verify_token (se_codec e) t (rg_auth_token r) (sv_auth sv) = Inr n"
    and "sv_auth sv' = sv_auth sv" and "reaches (sv_hub sv') m \<longleftrightarrow> m = n \<or> reaches (sv_hub sv) m"
    and "security_manager sv' \<noteq> None"
proof -
  obtain r where r: "wait_for_registration e first = Some r" "authenticate_registration e t r sv = Inr ()"
      "n = rg_node_id r"
    using assms(1) by (auto simp: open_socket_def Let_def split: option.splits sum.splits prod.splits if_splits)
  let ?h = "register_node_sender n \<lparr>tx_open = True, tx_sent = []\<rparr> (sv_hub sv)"
  have sv': "sv' = sv\<lparr>sv_hub := snd (handle_node_connection (se_hub e) i n (rg_name r) (rg_capabilities r)
      (rg_workspace r) [] ?h)\<rparr>"
    using assms(1) r by (auto simp: open_socket_def Let_def split: sum.splits prod.splits if_splits)
  show "\<exists>r. wait_for_registration e first = Some r \<and>
      node_verify_token (se_codec e) t (rg_auth_token r) (sv_auth sv) = Inr n"
    using r authenticated_registration assms(2) by blast
  show "sv_auth sv' = sv_auth sv" by (simp add: sv')
  show "reaches (sv_hub sv') m \<longleftrightarrow> m = n \<or> reaches (sv_hub sv) m" "security_manager sv' \<noteq> None"
    using connection_gate [of ?h "se_hub e" i n "rg_name r" "rg_capabilities r" "rg_workspace r" "[]"] assms(2)
    by (simp_all add: sv' same_gate_def register_reaches)
qed

lemma refused:
  assumes "open_socket e i t ok first sv = (Inl why, sv')"
  shows "sv_auth sv' = sv_auth sv" and "reaches (sv_hub sv') m \<Longrightarrow> reaches (sv_hub sv) m"
    and "security_manager sv' = None \<longleftrightarrow> security_manager sv = None"
proof -
  have "sv_auth sv' = sv_auth sv \<and> (reaches (sv_hub sv') m \<longrightarrow> reaches (sv_hub sv) m) \<and>
      (security_manager sv' = None \<longleftrightarrow> security_manager sv = None)"
  proof (cases "\<exists>r. wait_for_registration e first = Some r \<and> authenticate_registration e t r sv = Inr ()")
    case True
    then obtain r where r: "wait_for_registration e first = Some r" "authenticate_registration e t r sv = Inr ()"
      by blast
    let ?n = "rg_node_id r" let ?h = "register_node_sender ?n \<lparr>tx_open = True, tx_sent = []\<rparr> (sv_hub sv)"
    obtain x h2 where h2: "handle_node_connection (se_hub e) i ?n (rg_name r) (rg_capabilities r) (rg_workspace r) [] ?h
        = (x, h2)"
      by (metis surj_pair)
    have g: "same_gate ?h h2"
      using connection_gate [of ?h "se_hub e" i ?n "rg_name r" "rg_capabilities r" "rg_workspace r" "[]"] h2 by simp
    have "sv' = sv\<lparr>sv_hub := unregister_node_sender ?n h2\<rparr> \<or> sv' = drop_connection ?n (sv\<lparr>sv_hub := h2\<rparr>)"
      using assms r h2 by (auto simp: open_socket_def Let_def split: sum.splits if_splits)
    then show ?thesis using g by (auto simp: register_reaches same_gate_def dropped)
  next
    case False
    then have "sv' = sv" using assms by (auto simp: open_socket_def Let_def split: option.splits sum.splits)
    then show ?thesis by simp
  qed
  then show "sv_auth sv' = sv_auth sv" "reaches (sv_hub sv') m \<Longrightarrow> reaches (sv_hub sv) m"
    "security_manager sv' = None \<longleftrightarrow> security_manager sv = None" by blast+
qed

lemma event_calm: "calm sv (snd (socket_event e i n ev sv))"
  by (auto simp: socket_event_def calm_def message_gate Let_def split: ws_event.splits option.splits)

subsection \<open>Runs of the server\<close>

inductive gate_run :: "server_env \<Rightarrow> string \<Rightarrow> server \<Rightarrow> node_id list \<Rightarrow> node_id list \<Rightarrow> string list \<Rightarrow> bool"
  for e secret where
  gate_start: "hb_senders h = [] \<Longrightarrow> hb_approver h \<noteq> None \<Longrightarrow>
    gate_run e secret \<lparr>sv_hub = h, sv_auth = with_secret secret, sv_pairing = m\<rparr> [] [] []"
| gate_token: "gate_run e secret sv conns ns tokens \<Longrightarrow>
    issue_node_token e k node_id credentials sv = ((OK, api_success resp), sv') \<Longrightarrow>
    gate_run e secret sv' conns (NodeId node_id # ns) (it_access_token resp # it_refresh_token resp # tokens)"
| gate_refresh: "gate_run e secret sv conns ns tokens \<Longrightarrow> token \<in> set tokens \<Longrightarrow>
    node_refresh_token (se_codec e) t k k' token (sv_auth sv) = (Inr pair, a) \<Longrightarrow>
    gate_run e secret (sv\<lparr>sv_auth := a\<rparr>) conns ns (tp_access_token pair # tp_refresh_token pair # tokens)"
| gate_open: "gate_run e secret sv conns ns tokens \<Longrightarrow>
    (\<And>r. wait_for_registration e first = Some r \<Longrightarrow> rg_auth_token r \<in> set tokens \<or>
       (\<forall>u. jc_decode (se_codec e) secret u (rg_auth_token r) = None)) \<Longrightarrow>
    open_socket e i t ok first sv = (Inr n, sv') \<Longrightarrow> gate_run e secret sv' (n # conns) ns tokens"
| gate_refused: "gate_run e secret sv conns ns tokens \<Longrightarrow>
    open_socket e i t ok first sv = (Inl why, sv') \<Longrightarrow> gate_run e secret sv' conns ns tokens"
| gate_event: "gate_run e secret sv conns ns tokens \<Longrightarrow> n \<in> set conns \<Longrightarrow>
    socket_event e i n ev sv = (True, sv') \<Longrightarrow> gate_run e secret sv' conns ns tokens"
| gate_close: "gate_run e secret sv conns ns tokens \<Longrightarrow> n \<in> set conns \<Longrightarrow>
    socket_event e i n ev sv = (False, sv') \<Longrightarrow>
    gate_run e secret (drop_connection n sv') (remove1 n conns) ns tokens"
| gate_call: "gate_run e secret sv conns ns tokens \<Longrightarrow> server_call e sv sv' \<Longrightarrow>
    gate_run e secret sv' conns ns tokens"

definition gate_ok :: "server_env \<Rightarrow> string \<Rightarrow> server \<Rightarrow> node_id list \<Rightarrow> node_id list \<Rightarrow> string list \<Rightarrow> bool" where
  "gate_ok e secret sv conns ns tokens \<longleftrightarrow>
     auth_run (se_codec e) secret (sv_auth sv) ns tokens \<and> security_manager sv \<noteq> None \<and> set conns \<subseteq> set ns \<and>
     (\<forall>n. reaches (sv_hub sv) n \<longrightarrow> n \<in> set conns)"

lemma gate_ok_calm: "gate_ok e secret sv conns ns tokens \<Longrightarrow> calm sv sv' \<Longrightarrow> gate_ok e secret sv' conns ns tokens"
  by (auto simp: gate_ok_def calm_def same_gate_def)

lemma token_issued:
  assumes "issue_node_token e k node_id credentials sv = ((OK, api_success resp), sv')"
  shows "\<exists>info. authenticate_node (se_codec e) k (NodeId node_id) credentials (sv_auth sv) = (Inr info, sv_auth sv') \<and>
      it_access_token resp = nai_access_token info \<and> it_refresh_token resp = nai_refresh_token info"
    and "sv_hub sv' = sv_hub sv"
  using assms by (auto simp: issue_node_token_def api_success_def split: option.splits prod.splits sum.splits)

lemma gate_run_ok:
  assumes "gate_run e secret sv conns ns tokens" and codec: "codec_ok (se_codec e) secret"
  shows "gate_ok e secret sv conns ns tokens"
  using assms(1)
proof induction
  case (gate_start h m)
  then show ?case by (auto simp: gate_ok_def hm_contains_def intro: run_start)
next
  case (gate_token sv conns ns tokens k node_id credentials resp sv')
  then show ?case
    using token_issued [OF gate_token.hyps(2)] run_authenticate [of "se_codec e" secret "sv_auth sv" ns tokens]
    by (fastforce simp: gate_ok_def)
next
  case (gate_refresh sv conns ns tokens token t k k' pair a)
  then show ?case
    using run_refresh [OF _ gate_refresh.hyps(2,3)] by (simp add: gate_ok_def)
next
  case (gate_open sv conns ns tokens first i t ok n sv')
  have sm: "security_manager sv \<noteq> None" and run: "auth_run (se_codec e) secret (sv_auth sv) ns tokens"
    using gate_open.IH by (simp_all add: gate_ok_def)
  note o = opened [OF gate_open.hyps(3) sm]
  obtain r where r: "wait_for_registration e first = Some r"
      "node_verify_token (se_codec e) t (rg_auth_token r) (sv_auth sv) = Inr n"
    using o(1) by blast
  have secret: "jw_secret (na_jwt (sv_auth sv)) = secret" using auth_run_inv [OF run codec] by simp
  have "jc_decode (se_codec e) secret t (rg_auth_token r) \<noteq> None"
    using r(2) secret by (auto simp: node_verify_token_def verify_token_def split: option.splits)
  then have "n \<in> set ns"
    using verified_issued [OF codec run _ r(2)] gate_open.hyps(2) [OF r(1)] by auto
  then show ?case using gate_open.IH o(2-4) by (auto simp: gate_ok_def)
next
  case (gate_refused sv conns ns tokens i t ok first why sv')
  then show ?case using refused [OF gate_refused.hyps(2)] by (auto simp: gate_ok_def)
next
  case (gate_event sv conns ns tokens n i ev sv')
  then show ?case using event_calm [of sv e i n ev] gate_ok_calm by simp
next
  case (gate_close sv conns ns tokens n i ev sv')
  have "gate_ok e secret sv' conns ns tokens"
    using event_calm [of sv e i n ev] gate_ok_calm [OF gate_close.IH] gate_close.hyps(3) by simp
  then show ?case
    using set_remove1_subset [of n conns] by (auto simp: gate_ok_def dropped in_set_remove1)
next
  case (gate_call sv conns ns tokens sv')
  then show ?case using server_call_calm gate_ok_calm by blast
qed

text \<open>
  A node that connects again before its first connection has ended loses its channel when the first one
  ends: the clean-up goes by the node, not by the connection. The Hub cannot reach it any more although
  its second connection is alive.
\<close>

lemma stale_close_cuts_live_node:
  assumes "gate_run e secret sv (n # n # conns) ns tokens" and "socket_event e i n WsClose sv = (False, sv')"
  shows "gate_run e secret (drop_connection n sv') (n # conns) ns tokens"
    and "\<not> reaches (sv_hub (drop_connection n sv')) n"
proof -
  show "gate_run e secret (drop_connection n sv') (n # conns) ns tokens"
    using gate_close [OF assms(1) _ assms(2)] by simp
  show "\<not> reaches (sv_hub (drop_connection n sv')) n" by (simp add: dropped)
qed

subsection \<open>Properties\<close>


definition example_server_env :: server_env where
  "example_server_env =
     \<lparr>se_hub = example_hub_env, se_codec = example_codec, se_roles = example_role_codec,
      se_rfc3339 = (\<lambda>_. ''now''), se_decode_binary = (\<lambda>_. None),
      se_decode_text = (\<lambda>_. Some (Register (MessageId ''r'') (NodeId ''node-1'') ''A'' node_capabilities_default
        example_workspace ''access-1'' 0))\<rparr>"

definition example_start :: server where
  "example_start = \<lparr>sv_hub = hub_new_with_security 0 hub_config_default (Some (operation_approver_new approval_manager_new)),
     sv_auth = with_secret ''s'', sv_pairing = None\<rparr>"

lemma example_token_issued:
  "\<exists>resp sv. issue_node_token example_server_env example_auth_clock ''node-1'' ''c'' example_start =
       ((OK, api_success resp), sv) \<and>
     it_access_token resp = ''access-1'' \<and> it_refresh_token resp = ''refresh-1'' \<and>
     sv_hub sv = sv_hub example_start \<and>
     node_verify_token example_codec 5 ''access-1'' (sv_auth sv) = Inr (NodeId ''node-1'')"
proof -
  obtain info a where a: "authenticate_node example_codec example_auth_clock (NodeId ''node-1'') ''c'' (with_secret ''s'')
      = (Inr info, a)" "nai_access_token info = ''access-1''" "nai_refresh_token info = ''refresh-1''"
      "node_verify_token example_codec 5 ''access-1'' a = Inr (NodeId ''node-1'')"
    using example_authenticated by blast
  have "hb_approver (sv_hub example_start) \<noteq> None"
    by (simp add: example_start_def hub_new_with_security_def hub_new_with_components_def)
  then show ?thesis
    using a by (auto simp: issue_node_token_def example_server_env_def example_start_def)
qed


end
