(* ===== verification/Rate_Limit.thy ===== *)
theory Rate_Limit
  imports Prelude
begin

section \<open>Rate limiting in the gateway (\<^verbatim>\<open>uhorse-gateway/src/ratelimit\<close>)\<close>

text \<open>
  The three fixed-window limiters: the global one (\<^verbatim>\<open>global.rs\<close>), the one per user
  (\<^verbatim>\<open>user.rs\<close>) and the one per endpoint (\<^verbatim>\<open>endpoint.rs\<close>). They share a contract, stated as the
  locale \<open>fixed_window\<close>, and with it the bounds on how many requests pass; each limiter is an
  interpretation. The clock reading of a call is an argument, in nanoseconds; counters are 64
  bits wide. A call is one step, except for the global window check, which is also given as the
  two steps (read, then add) that other threads may come between.
\<close>

subsection \<open>Results and configuration (\<^verbatim>\<open>mod.rs\<close>)\<close>

datatype rate_limit_result =
    RlAllowed u64 u64
  | RlDenied u64 u64

fun is_allowed :: "rate_limit_result \<Rightarrow> bool" where
  "is_allowed (RlAllowed _ _) = True"
| "is_allowed (RlDenied _ _) = False"

fun rl_remaining :: "rate_limit_result \<Rightarrow> u64 option" where
  "rl_remaining (RlAllowed remaining _) = Some remaining"
| "rl_remaining (RlDenied _ _) = None"

fun rl_retry_after :: "rate_limit_result \<Rightarrow> u64 option" where
  "rl_retry_after (RlAllowed _ _) = None"
| "rl_retry_after (RlDenied retry_after _) = Some retry_after"

datatype rate_limit_algorithm = FixedWindow | SlidingWindow | TokenBucket | LeakyBucket

record rate_limit_config =
  rc_algorithm :: rate_limit_algorithm
  rc_window_size :: u64
  rc_max_requests :: u64
  rc_enabled :: bool

definition rate_limit_config_default :: rate_limit_config where
  "rate_limit_config_default =
     \<lparr>rc_algorithm = SlidingWindow, rc_window_size = 60, rc_max_requests = 100, rc_enabled = True\<rparr>"

text \<open>\<open>Duration::from_secs\<close>, \<open>Instant::duration_since\<close> and the seconds left of a window.\<close>

definition window_nanos :: "u64 \<Rightarrow> int" where
  "window_nanos secs = uint secs * nanos_per_sec"

definition duration_since :: "instant \<Rightarrow> instant \<Rightarrow> int" where
  "duration_since now start = max 0 (now - start)"

definition reset_after_secs :: "u64 \<Rightarrow> instant \<Rightarrow> instant \<Rightarrow> u64" where
  "reset_after_secs window now start =
     of_int (max 0 (window_nanos window - duration_since now start) div nanos_per_sec)"

definition unlimited :: rate_limit_result where
  "unlimited = RlAllowed (- 1) 0"

subsection \<open>The global limiter (\<^verbatim>\<open>global.rs\<close>)\<close>

record global_config =
  gc_base :: rate_limit_config
  gc_max_concurrent :: u64
  gc_requests_per_second :: u64

record global_limiter =
  gl_config :: global_config
  gl_current_concurrent :: u64
  gl_window_requests :: u64
  gl_window_start :: instant

definition global_new :: "instant \<Rightarrow> global_config \<Rightarrow> global_limiter" where
  "global_new now config =
     \<lparr>gl_config = config, gl_current_concurrent = 0, gl_window_requests = 0, gl_window_start = now\<rparr>"

text \<open>The window check up to the load of the counter, and from there on.\<close>

definition window_load :: "instant \<Rightarrow> global_limiter \<Rightarrow> u64 \<times> global_limiter" where
  "window_load now g =
     (let g' = (if window_nanos (rc_window_size (gc_base (gl_config g)))
                     \<le> duration_since now (gl_window_start g)
                then g\<lparr>gl_window_start := now, gl_window_requests := 0\<rparr> else g)
      in (gl_window_requests g', g'))"

definition window_commit :: "instant \<Rightarrow> u64 \<Rightarrow> global_limiter \<Rightarrow> rate_limit_result \<times> global_limiter" where
  "window_commit now requests g =
     (let base = gc_base (gl_config g);
          reset_after = reset_after_secs (rc_window_size base) now (gl_window_start g)
      in if rc_max_requests base \<le> requests
         then (RlDenied (max reset_after 1) (rc_max_requests base), g)
         else (RlAllowed (rc_max_requests base - requests - 1) reset_after,
               g\<lparr>gl_window_requests := gl_window_requests g + 1\<rparr>))"

definition check_window :: "instant \<Rightarrow> global_limiter \<Rightarrow> rate_limit_result \<times> global_limiter" where
  "check_window now g = (let (requests, g') = window_load now g in window_commit now requests g')"

definition global_check :: "instant \<Rightarrow> global_limiter \<Rightarrow> rate_limit_result \<times> global_limiter" where
  "global_check now g =
     (if \<not> rc_enabled (gc_base (gl_config g)) then (unlimited, g)
      else if gc_max_concurrent (gl_config g) \<le> gl_current_concurrent g
      then (RlDenied 1 (gc_max_concurrent (gl_config g)), g)
      else check_window now g)"

definition start_connection :: "global_limiter \<Rightarrow> bool \<times> global_limiter" where
  "start_connection g =
     (let current = gl_current_concurrent g;
          g' = g\<lparr>gl_current_concurrent := current + 1\<rparr>
      in if gc_max_concurrent (gl_config g) \<le> current
         then (False, g'\<lparr>gl_current_concurrent := gl_current_concurrent g' - 1\<rparr>)
         else (True, g'))"

definition end_connection :: "global_limiter \<Rightarrow> global_limiter" where
  "end_connection g = g\<lparr>gl_current_concurrent := gl_current_concurrent g - 1\<rparr>"

subsection \<open>The limiter per user (\<^verbatim>\<open>user.rs\<close>)\<close>

record user_config =
  uc_base :: rate_limit_config
  uc_default_quota :: u64
  uc_vip_quota :: u64
  uc_enterprise_quota :: u64

record rate_limit_key =
  rk_tenant_id :: string
  rk_user_id :: string

datatype user_type = DefaultUser | Vip | Enterprise

record user_quota =
  uq_user_type :: user_type
  uq_quota :: u64
  uq_current_usage :: u64
  uq_window_start :: instant

fun user_type_quota :: "user_config \<Rightarrow> user_type \<Rightarrow> u64" where
  "user_type_quota config DefaultUser = uc_default_quota config"
| "user_type_quota config Vip = uc_vip_quota config"
| "user_type_quota config Enterprise = uc_enterprise_quota config"

record user_limiter =
  ul_config :: user_config
  ul_quotas :: "(rate_limit_key, user_quota) hmap"

definition user_limiter_new :: "user_config \<Rightarrow> user_limiter" where
  "user_limiter_new config = \<lparr>ul_config = config, ul_quotas = []\<rparr>"

definition user_check :: "instant \<Rightarrow> rate_limit_key \<Rightarrow> user_limiter \<Rightarrow> rate_limit_result \<times> user_limiter" where
  "user_check now key u =
     (if \<not> rc_enabled (uc_base (ul_config u)) then (unlimited, u)
      else
        let window = rc_window_size (uc_base (ul_config u));
            quota0 = (case hm_get (ul_quotas u) key of
                        Some q \<Rightarrow> q
                      | None \<Rightarrow> \<lparr>uq_user_type = DefaultUser, uq_quota = uc_default_quota (ul_config u),
                                 uq_current_usage = 0, uq_window_start = now\<rparr>);
            quota = (if window_nanos window \<le> duration_since now (uq_window_start quota0)
                     then quota0\<lparr>uq_window_start := now, uq_current_usage := 0\<rparr> else quota0);
            reset_after = reset_after_secs window now (uq_window_start quota)
        in if uq_quota quota \<le> uq_current_usage quota
           then (RlDenied (max reset_after 1) (uq_quota quota),
                 u\<lparr>ul_quotas := hm_insert key quota (ul_quotas u)\<rparr>)
           else
             let quota = quota\<lparr>uq_current_usage := uq_current_usage quota + 1\<rparr>
             in (RlAllowed (uq_quota quota - uq_current_usage quota) reset_after,
                 u\<lparr>ul_quotas := hm_insert key quota (ul_quotas u)\<rparr>))"

definition set_user_type :: "instant \<Rightarrow> rate_limit_key \<Rightarrow> user_type \<Rightarrow> user_limiter \<Rightarrow> user_limiter" where
  "set_user_type now key ut u =
     (let limit = user_type_quota (ul_config u) ut
      in u\<lparr>ul_quotas :=
             (case hm_get (ul_quotas u) key of
                Some q \<Rightarrow> hm_insert key (q\<lparr>uq_user_type := ut, uq_quota := limit\<rparr>) (ul_quotas u)
              | None \<Rightarrow> hm_insert key \<lparr>uq_user_type = ut, uq_quota = limit, uq_current_usage = 0,
                                       uq_window_start = now\<rparr> (ul_quotas u))\<rparr>)"

definition user_reset :: "instant \<Rightarrow> rate_limit_key \<Rightarrow> user_limiter \<Rightarrow> bool \<times> user_limiter" where
  "user_reset now key u =
     (hm_contains (ul_quotas u) key,
      u\<lparr>ul_quotas := hm_modify key (\<lambda>q. q\<lparr>uq_current_usage := 0, uq_window_start := now\<rparr>) (ul_quotas u)\<rparr>)"

definition user_cleanup :: "instant \<Rightarrow> user_limiter \<Rightarrow> user_limiter" where
  "user_cleanup now u =
     u\<lparr>ul_quotas :=
         hm_retain (\<lambda>_ q. duration_since now (uq_window_start q)
             < window_nanos (rc_window_size (uc_base (ul_config u))) * 2) (ul_quotas u)\<rparr>"

subsection \<open>The limiter per endpoint (\<^verbatim>\<open>endpoint.rs\<close>)\<close>

record endpoint_limit =
  el_pattern :: string
  el_method :: "string option"
  el_window_secs :: u64
  el_max_requests :: u64
  el_description :: "string option"

definition endpoint_limit_new :: "string \<Rightarrow> u64 \<Rightarrow> u64 \<Rightarrow> endpoint_limit" where
  "endpoint_limit_new pattern window_secs max_requests =
     \<lparr>el_pattern = pattern, el_method = None, el_window_secs = window_secs,
      el_max_requests = max_requests, el_description = None\<rparr>"

definition match_parts :: "string list \<Rightarrow> string list \<Rightarrow> bool" where
  "match_parts pattern_parts path_parts =
     (length pattern_parts = length path_parts \<and>
      list_all (\<lambda>(p, actual). p = '':*'' \<or> starts_with p '':'' \<or> p = actual) (zip pattern_parts path_parts))"

definition match_pattern :: "string \<Rightarrow> string \<Rightarrow> bool" where
  "match_pattern pattern path =
     (if pattern = ''*'' \<or> pattern = path then True
      else if pattern \<noteq> [] \<and> last pattern = CHR ''*'' then starts_with path (butlast pattern)
      else match_parts (split_on (CHR ''/'') pattern) (split_on (CHR ''/'') path))"

definition endpoint_matches :: "string \<Rightarrow> string \<Rightarrow> endpoint_limit \<Rightarrow> bool" where
  "endpoint_matches mthd path l =
     (if (case el_method l of None \<Rightarrow> False
          | Some m \<Rightarrow> m \<noteq> ''*'' \<and> to_lowercase m \<noteq> to_lowercase mthd) then False
      else match_pattern (el_pattern l) path)"

record endpoint_state =
  es_window_start :: instant
  es_current_requests :: u64
  es_max_requests :: u64
  es_window_secs :: u64

record endpoint_config =
  ec_base :: rate_limit_config
  ec_default_limit :: endpoint_limit

record endpoint_limiter =
  ep_config :: endpoint_config
  ep_limits :: "endpoint_limit list"
  ep_states :: "(string, endpoint_state) hmap"

definition endpoint_limiter_new :: "endpoint_config \<Rightarrow> endpoint_limiter" where
  "endpoint_limiter_new config = \<lparr>ep_config = config, ep_limits = [], ep_states = []\<rparr>"

definition add_limit :: "endpoint_limit \<Rightarrow> endpoint_limiter \<Rightarrow> endpoint_limiter" where
  "add_limit l ep = ep\<lparr>ep_limits := ep_limits ep @ [l]\<rparr>"

definition limit_for :: "string \<Rightarrow> string \<Rightarrow> endpoint_limiter \<Rightarrow> endpoint_limit" where
  "limit_for mthd path ep =
     (case find (endpoint_matches mthd path) (ep_limits ep) of
        Some l \<Rightarrow> l | None \<Rightarrow> ec_default_limit (ep_config ep))"

definition endpoint_key :: "string \<Rightarrow> string \<Rightarrow> string \<Rightarrow> string" where
  "endpoint_key client_id mthd path = client_id @ '':'' @ mthd @ '':'' @ path"

definition endpoint_check ::
  "instant \<Rightarrow> string \<Rightarrow> string \<Rightarrow> string \<Rightarrow> endpoint_limiter \<Rightarrow> rate_limit_result \<times> endpoint_limiter" where
  "endpoint_check now mthd path client_id ep =
     (if \<not> rc_enabled (ec_base (ep_config ep)) then (unlimited, ep)
      else
        let limit = limit_for mthd path ep;
            key = endpoint_key client_id mthd path;
            st0 = (case hm_get (ep_states ep) key of
                     Some s \<Rightarrow> s
                   | None \<Rightarrow> \<lparr>es_window_start = now, es_current_requests = 0,
                              es_max_requests = el_max_requests limit,
                              es_window_secs = el_window_secs limit\<rparr>);
            st = (if window_nanos (el_window_secs limit) \<le> duration_since now (es_window_start st0)
                  then st0\<lparr>es_window_start := now, es_current_requests := 0,
                           es_max_requests := el_max_requests limit,
                           es_window_secs := el_window_secs limit\<rparr>
                  else st0);
            reset_after = reset_after_secs (el_window_secs limit) now (es_window_start st)
        in if es_max_requests st \<le> es_current_requests st
           then (RlDenied (max reset_after 1) (es_max_requests st),
                 ep\<lparr>ep_states := hm_insert key st (ep_states ep)\<rparr>)
           else
             let st = st\<lparr>es_current_requests := es_current_requests st + 1\<rparr>
             in (RlAllowed (es_max_requests st - es_current_requests st) reset_after,
                 ep\<lparr>ep_states := hm_insert key st (ep_states ep)\<rparr>))"

definition endpoint_reset :: "instant \<Rightarrow> string \<Rightarrow> string \<Rightarrow> string \<Rightarrow> endpoint_limiter \<Rightarrow> bool \<times> endpoint_limiter" where
  "endpoint_reset now mthd path client_id ep =
     (let key = endpoint_key client_id mthd path
      in (hm_contains (ep_states ep) key,
          ep\<lparr>ep_states := hm_modify key (\<lambda>s. s\<lparr>es_current_requests := 0, es_window_start := now\<rparr>)
               (ep_states ep)\<rparr>))"

subsection \<open>The contract of a fixed window\<close>

text \<open>How many of a sequence of calls pass.\<close>

fun passes :: "(instant \<Rightarrow> 's \<Rightarrow> bool \<times> 's) \<Rightarrow> instant list \<Rightarrow> 's \<Rightarrow> nat" where
  "passes step [] s = 0"
| "passes step (t # ts) s = (if fst (step t s) then 1 else 0) + passes step ts (snd (step t s))"

text \<open>
  A limiter as its clients see it: a step answers whether the request passes; \<open>stale\<close> says that
  the window has to be restarted. The laws: a stale window restarts at the time of the call, a
  window that is not stale counts up to the limit.
\<close>

locale fixed_window =
  fixes step :: "instant \<Rightarrow> 's \<Rightarrow> bool \<times> 's"
    and stale :: "'s \<Rightarrow> instant \<Rightarrow> bool"
    and start :: "'s \<Rightarrow> instant"
    and used :: "'s \<Rightarrow> nat"
    and ok :: "'s \<Rightarrow> bool"
    and limit :: nat
    and window :: int
  assumes reset_step: "ok s \<Longrightarrow> stale s t \<Longrightarrow> step t s = (a, s') \<Longrightarrow>
      a = (0 < limit) \<and> start s' = t \<and> used s' = (if a then 1 else 0)"
    and count_step: "ok s \<Longrightarrow> \<not> stale s t \<Longrightarrow> step t s = (a, s') \<Longrightarrow>
      a = (used s < limit) \<and> start s' = start s \<and> used s' = used s + (if a then 1 else 0)"
    and ok_step: "ok s \<Longrightarrow> step t s = (a, s') \<Longrightarrow> ok s'"
    and stale_step: "ok s \<Longrightarrow> step t s = (a, s') \<Longrightarrow> stale s' t' = (window \<le> max 0 (t' - start s'))"
begin

text \<open>Inside one window exactly as many pass as are left of the limit.\<close>

lemma admitted_within:
  assumes "ok s" and "\<And>t. stale s t = (window \<le> max 0 (t - start s))"
    and "\<forall>t\<in>set ts. \<not> stale s t"
  shows "passes step ts s = min (length ts) (limit - used s)"
  using assms
proof (induction ts arbitrary: s)
  case (Cons t ts)
  obtain a s' where st: "step t s = (a, s')" by (cases "step t s")
  have c: "a = (used s < limit)" "start s' = start s" "used s' = used s + (if a then 1 else 0)"
    using count_step [OF Cons.prems(1) _ st] Cons.prems(3) by auto
  have stale': "stale s' t' = (window \<le> max 0 (t' - start s'))" for t'
    using stale_step [OF Cons.prems(1) st] .
  have "\<forall>t'\<in>set ts. \<not> stale s' t'"
    using Cons.prems(2,3) stale' c(2) by auto
  then have "passes step ts s' = min (length ts) (limit - used s')"
    using Cons.IH [OF ok_step [OF Cons.prems(1) st] stale'] by blast
  then show ?case using st c by auto
qed simp

text \<open>In any stretch of time of the length of a window at most twice the limit passes.\<close>

lemma admitted_after_reset:
  assumes "ok s" and "\<And>t. stale s t = (window \<le> max 0 (t - start s))"
    and "from \<le> start s" and "\<forall>t\<in>set ts. start s \<le> t \<and> t < from + window"
  shows "passes step ts s \<le> limit - used s"
proof -
  have "\<forall>t\<in>set ts. \<not> stale s t"
    using assms(3,4) unfolding assms(2) by fastforce
  then show ?thesis using admitted_within [OF assms(1,2)] by simp
qed

lemma admitted_interval:
  assumes "ok s" and "sorted ts" and "\<forall>t\<in>set ts. from \<le> t \<and> t < from + window"
  shows "passes step ts s \<le> (limit - used s) + limit"
  using assms
proof (induction ts arbitrary: s)
  case (Cons t ts)
  obtain a s' where st: "step t s = (a, s')" by (cases "step t s")
  have ok': "ok s'" using ok_step [OF Cons.prems(1) st] .
  have stale': "stale s' t' = (window \<le> max 0 (t' - start s'))" for t'
    using stale_step [OF Cons.prems(1) st] .
  show ?case
  proof (cases "stale s t")
    case True
    have r: "a = (0 < limit)" "start s' = t" "used s' = (if a then 1 else 0)"
      using reset_step [OF Cons.prems(1) True st] by auto
    have "passes step ts s' \<le> limit - used s'"
      using admitted_after_reset [OF ok' stale', of "from" ts] Cons.prems r(2) by auto
    then show ?thesis using st r by (auto split: if_splits)
  next
    case False
    have c: "a = (used s < limit)" "used s' = used s + (if a then 1 else 0)"
      using count_step [OF Cons.prems(1) False st] by auto
    have "passes step ts s' \<le> (limit - used s') + limit"
      using Cons.IH [OF ok'] Cons.prems by auto
    then show ?thesis using st c by (auto split: if_splits)
  qed
qed simp

lemma admitted_burst:
  assumes "ok s" and "sorted ts" and "\<forall>t\<in>set ts. from \<le> t \<and> t < from + window"
  shows "passes step ts s \<le> 2 * limit"
  using admitted_interval [OF assms] by simp

end


definition pass_of :: "(instant \<Rightarrow> 's \<Rightarrow> rate_limit_result \<times> 's) \<Rightarrow> instant \<Rightarrow> 's \<Rightarrow> bool \<times> 's" where
  "pass_of check t s = (is_allowed (fst (check t s)), snd (check t s))"

lemma unat_Suc_less: "(x :: u64) < y \<Longrightarrow> unat (x + 1) = Suc (unat x)"
proof -
  assume "x < y"
  moreover have "unat y < 2 ^ 64" using unsigned_less [of y, where 'a = nat] by simp
  ultimately show ?thesis by (simp add: unat_word_ariths word_less_nat_alt)
qed

lemma le_unat: "\<not> (y :: u64) \<le> x \<longleftrightarrow> unat x < unat y"
  by (simp add: word_less_nat_alt not_le)

interpretation gw: fixed_window "pass_of check_window"
  "\<lambda>g t. window_nanos (rc_window_size base) \<le> duration_since t (gl_window_start g)"
  gl_window_start "\<lambda>g. unat (gl_window_requests g)" "\<lambda>g. gc_base (gl_config g) = base"
  "unat (rc_max_requests base)" "window_nanos (rc_window_size base)" for base
proof
  fix s :: global_limiter and t a s'
  assume ok: "gc_base (gl_config s) = base" and st: "pass_of check_window t s = (a, s')"
  have st': "a = is_allowed (fst (check_window t s))" "s' = snd (check_window t s)"
    using st by (auto simp: pass_of_def)
  show "gc_base (gl_config s') = base"
    using ok by (simp add: st' check_window_def window_load_def window_commit_def Let_def)
  show "(window_nanos (rc_window_size base) \<le> duration_since t' (gl_window_start s')) =
      (window_nanos (rc_window_size base) \<le> max 0 (t' - gl_window_start s'))" for t'
    by (simp add: duration_since_def)
  show "a = (0 < unat (rc_max_requests base)) \<and> gl_window_start s' = t \<and>
      unat (gl_window_requests s') = (if a then 1 else 0)"
    if "window_nanos (rc_window_size base) \<le> duration_since t (gl_window_start s)"
    using that ok le_unat [of "rc_max_requests base" 0]
    by (auto simp: st' check_window_def window_load_def window_commit_def Let_def)
  show "a = (unat (gl_window_requests s) < unat (rc_max_requests base)) \<and>
      gl_window_start s' = gl_window_start s \<and>
      unat (gl_window_requests s') = unat (gl_window_requests s) + (if a then 1 else 0)"
    if "\<not> window_nanos (rc_window_size base) \<le> duration_since t (gl_window_start s)"
    using that ok le_unat [of "rc_max_requests base" "gl_window_requests s"]
      unat_Suc_less [of "gl_window_requests s" "rc_max_requests base"]
    by (auto simp: st' check_window_def window_load_def window_commit_def Let_def not_le)
qed

definition user_stale :: "rate_limit_key \<Rightarrow> user_limiter \<Rightarrow> instant \<Rightarrow> bool" where
  "user_stale key u t =
     (case hm_get (ul_quotas u) key of None \<Rightarrow> True
      | Some q \<Rightarrow> window_nanos (rc_window_size (uc_base (ul_config u))) \<le> duration_since t (uq_window_start q))"

definition user_used :: "rate_limit_key \<Rightarrow> user_limiter \<Rightarrow> nat" where
  "user_used key u = (case hm_get (ul_quotas u) key of None \<Rightarrow> 0 | Some q \<Rightarrow> unat (uq_current_usage q))"

definition user_start :: "rate_limit_key \<Rightarrow> user_limiter \<Rightarrow> instant" where
  "user_start key u = (case hm_get (ul_quotas u) key of None \<Rightarrow> 0 | Some q \<Rightarrow> uq_window_start q)"

definition user_has_quota :: "rate_limit_key \<Rightarrow> u64 \<Rightarrow> u64 \<Rightarrow> user_limiter \<Rightarrow> bool" where
  "user_has_quota key quota window u \<longleftrightarrow> rc_enabled (uc_base (ul_config u)) \<and>
     rc_window_size (uc_base (ul_config u)) = window \<and>
     (case hm_get (ul_quotas u) key of None \<Rightarrow> uc_default_quota (ul_config u) = quota
      | Some q \<Rightarrow> uq_quota q = quota)"

interpretation uw: fixed_window "pass_of (\<lambda>t. user_check t key)" "user_stale key" "user_start key"
  "user_used key" "user_has_quota key quota window" "unat quota" "window_nanos window"
  for key quota window
proof
  fix s :: user_limiter and t a s'
  assume ok: "user_has_quota key quota window s" and st: "pass_of (\<lambda>t. user_check t key) t s = (a, s')"
  have st': "a = is_allowed (fst (user_check t key s))" "s' = snd (user_check t key s)"
    using st by (auto simp: pass_of_def)
  show "user_has_quota key quota window s'"
    using ok by (auto simp: st' user_check_def user_has_quota_def Let_def hm_get_insert split: option.splits)
  show "user_stale key s' t' = (window_nanos window \<le> max 0 (t' - user_start key s'))" for t'
    using ok by (auto simp: st' user_check_def user_has_quota_def user_stale_def user_start_def Let_def
        hm_get_insert duration_since_def split: option.splits)
  show "a = (0 < unat quota) \<and> user_start key s' = t \<and> user_used key s' = (if a then 1 else 0)"
    if "user_stale key s t"
    using that ok le_unat [of quota 0]
    by (auto simp: st' user_check_def user_has_quota_def user_stale_def user_start_def user_used_def Let_def
        hm_get_insert split: option.splits)
  show "a = (user_used key s < unat quota) \<and> user_start key s' = user_start key s \<and>
      user_used key s' = user_used key s + (if a then 1 else 0)"
    if current: "\<not> user_stale key s t"
  proof -
    obtain q where q: "hm_get (ul_quotas s) key = Some q"
      and fresh: "\<not> window_nanos window \<le> duration_since t (uq_window_start q)"
      using current ok by (auto simp: user_stale_def user_has_quota_def split: option.splits)
    have quota: "uq_quota q = quota" "rc_enabled (uc_base (ul_config s))"
      "rc_window_size (uc_base (ul_config s)) = window"
      using ok q by (auto simp: user_has_quota_def)
    show ?thesis
      using q fresh quota le_unat [of quota "uq_current_usage q"] unat_Suc_less [of "uq_current_usage q" quota]
      by (auto simp: st' user_check_def user_start_def user_used_def Let_def hm_get_insert not_le)
  qed
qed


definition endpoint_stale :: "string \<Rightarrow> string \<Rightarrow> string \<Rightarrow> endpoint_limiter \<Rightarrow> instant \<Rightarrow> bool" where
  "endpoint_stale mthd path client ep t =
     (case hm_get (ep_states ep) (endpoint_key client mthd path) of None \<Rightarrow> True
      | Some s \<Rightarrow> window_nanos (el_window_secs (limit_for mthd path ep)) \<le> duration_since t (es_window_start s))"

definition endpoint_used :: "string \<Rightarrow> string \<Rightarrow> string \<Rightarrow> endpoint_limiter \<Rightarrow> nat" where
  "endpoint_used mthd path client ep =
     (case hm_get (ep_states ep) (endpoint_key client mthd path) of None \<Rightarrow> 0
      | Some s \<Rightarrow> unat (es_current_requests s))"

definition endpoint_start :: "string \<Rightarrow> string \<Rightarrow> string \<Rightarrow> endpoint_limiter \<Rightarrow> instant" where
  "endpoint_start mthd path client ep =
     (case hm_get (ep_states ep) (endpoint_key client mthd path) of None \<Rightarrow> 0 | Some s \<Rightarrow> es_window_start s)"

definition endpoint_has_limit :: "string \<Rightarrow> string \<Rightarrow> string \<Rightarrow> endpoint_limit \<Rightarrow> endpoint_limiter \<Rightarrow> bool" where
  "endpoint_has_limit mthd path client l ep \<longleftrightarrow> rc_enabled (ec_base (ep_config ep)) \<and>
     limit_for mthd path ep = l \<and>
     (case hm_get (ep_states ep) (endpoint_key client mthd path) of None \<Rightarrow> True
      | Some s \<Rightarrow> es_max_requests s = el_max_requests l)"

lemma limit_for_states [simp]: "limit_for mthd path (ep\<lparr>ep_states := m\<rparr>) = limit_for mthd path ep"
  by (simp add: limit_for_def split: option.split)

interpretation ew: fixed_window "pass_of (\<lambda>t. endpoint_check t mthd path client)"
  "endpoint_stale mthd path client" "endpoint_start mthd path client" "endpoint_used mthd path client"
  "endpoint_has_limit mthd path client l" "unat (el_max_requests l)" "window_nanos (el_window_secs l)"
  for mthd path client l
proof
  fix s :: endpoint_limiter and t a s'
  assume ok: "endpoint_has_limit mthd path client l s"
    and st: "pass_of (\<lambda>t. endpoint_check t mthd path client) t s = (a, s')"
  have st': "a = is_allowed (fst (endpoint_check t mthd path client s))"
    "s' = snd (endpoint_check t mthd path client s)"
    using st by (auto simp: pass_of_def)
  show "endpoint_has_limit mthd path client l s'"
    using ok by (auto simp: st' endpoint_check_def endpoint_has_limit_def Let_def hm_get_insert split: option.splits)
  show "endpoint_stale mthd path client s' t' =
      (window_nanos (el_window_secs l) \<le> max 0 (t' - endpoint_start mthd path client s'))" for t'
    using ok by (auto simp: st' endpoint_check_def endpoint_has_limit_def endpoint_stale_def endpoint_start_def
        Let_def hm_get_insert duration_since_def split: option.splits)
  show "a = (0 < unat (el_max_requests l)) \<and> endpoint_start mthd path client s' = t \<and>
      endpoint_used mthd path client s' = (if a then 1 else 0)"
    if "endpoint_stale mthd path client s t"
    using that ok le_unat [of "el_max_requests l" 0]
    by (auto simp: st' endpoint_check_def endpoint_has_limit_def endpoint_stale_def endpoint_start_def
        endpoint_used_def Let_def hm_get_insert split: option.splits)
  show "a = (endpoint_used mthd path client s < unat (el_max_requests l)) \<and>
      endpoint_start mthd path client s' = endpoint_start mthd path client s \<and>
      endpoint_used mthd path client s' = endpoint_used mthd path client s + (if a then 1 else 0)"
    if current: "\<not> endpoint_stale mthd path client s t"
  proof -
    obtain q where q: "hm_get (ep_states s) (endpoint_key client mthd path) = Some q"
      and fresh: "\<not> window_nanos (el_window_secs l) \<le> duration_since t (es_window_start q)"
      using current ok by (auto simp: endpoint_stale_def endpoint_has_limit_def split: option.splits)
    have lim: "es_max_requests q = el_max_requests l" "rc_enabled (ec_base (ep_config s))" "limit_for mthd path s = l"
      using ok q by (auto simp: endpoint_has_limit_def)
    show ?thesis
      using q fresh lim le_unat [of "el_max_requests l" "es_current_requests q"]
        unat_Suc_less [of "es_current_requests q" "el_max_requests l"]
      by (auto simp: st' endpoint_check_def endpoint_start_def endpoint_used_def Let_def hm_get_insert not_le)
  qed
qed

subsection \<open>Properties\<close>

text \<open>
  C32: a user (or tenant and user) with quota \<open>quota\<close>: of calls that all fall into the window that
  is open, exactly as many pass as are left of the quota, and of calls at non-decreasing times
  that fall into any stretch of time as long as the window, at most twice the quota pass.
\<close>

theorem user_rate_bounded:
  assumes "user_has_quota key quota window u" and "sorted ts"
    and "list_all (\<lambda>t. from \<le> t \<and> t < from + window_nanos window) ts"
  shows "passes (pass_of (\<lambda>t. user_check t key)) ts u \<le> 2 * unat quota \<and>
    (hm_get (ul_quotas u) key \<noteq> None \<and> list_all (\<lambda>t. \<not> user_stale key u t) ts \<longrightarrow>
       passes (pass_of (\<lambda>t. user_check t key)) ts u = min (length ts) (unat quota - user_used key u))"
proof (intro conjI impI)
  show "passes (pass_of (\<lambda>t. user_check t key)) ts u \<le> 2 * unat quota"
    using uw.admitted_burst [OF assms(1,2), of "from"] assms(3) by (simp add: list_all_iff)
  assume h: "hm_get (ul_quotas u) key \<noteq> None \<and> list_all (\<lambda>t. \<not> user_stale key u t) ts"
  then obtain q where q: "hm_get (ul_quotas u) key = Some q" by blast
  have stale: "user_stale key u t = (window_nanos window \<le> max 0 (t - user_start key u))" for t
    using q assms(1) by (simp add: user_stale_def user_start_def user_has_quota_def duration_since_def)
  show "passes (pass_of (\<lambda>t. user_check t key)) ts u = min (length ts) (unat quota - user_used key u)"
    using uw.admitted_within [OF assms(1) stale] h by (simp add: list_all_iff)
qed

definition example_user_limiter :: user_limiter where
  "example_user_limiter = user_limiter_new
     \<lparr>uc_base = rate_limit_config_default, uc_default_quota = 1, uc_vip_quota = 5, uc_enterprise_quota = 9\<rparr>"

theorem user_rate_bounded_witness:
  "passes (pass_of (\<lambda>t. user_check t \<lparr>rk_tenant_id = ''t'', rk_user_id = ''u''\<rparr>)) [1, 2, 3] example_user_limiter
     \<le> 2 * unat (1 :: u64)"
proof -
  have "user_has_quota \<lparr>rk_tenant_id = ''t'', rk_user_id = ''u''\<rparr> 1 60 example_user_limiter"
    by (simp add: user_has_quota_def example_user_limiter_def user_limiter_new_def rate_limit_config_default_def)
  from user_rate_bounded [OF this, of "[1, 2, 3]" 0] show ?thesis
    by (simp add: window_nanos_def nanos_per_sec_def)
qed

text \<open>
  Per endpoint and client, the limit that applies is the first one whose method and pattern
  match (the default one when none does), and in any stretch of time as long as its window at
  most twice its maximum number of requests pass.
\<close>

theorem endpoint_rate_bounded:
  assumes "rc_enabled (ec_base (ep_config ep))" and "ep_states ep = []" and "sorted ts"
    and "list_all (\<lambda>t. from \<le> t \<and> t < from + window_nanos (el_window_secs (limit_for mthd path ep))) ts"
  shows "passes (pass_of (\<lambda>t. endpoint_check t mthd path client)) ts ep \<le>
    2 * unat (el_max_requests (limit_for mthd path ep))"
proof -
  have "endpoint_has_limit mthd path client (limit_for mthd path ep) ep"
    using assms by (simp add: endpoint_has_limit_def)
  from ew.admitted_burst [OF this assms(3)] show ?thesis using assms(4) by (simp add: list_all_iff)
qed

definition example_endpoints :: endpoint_limiter where
  "example_endpoints = add_limit (endpoint_limit_new ''/api/:id/x'' 60 1)
     (endpoint_limiter_new \<lparr>ec_base = rate_limit_config_default,
        ec_default_limit = endpoint_limit_new ''/*'' 60 100\<rparr>)"

lemma example_endpoint_limit:
  "limit_for ''GET'' ''/api/7/x'' example_endpoints = endpoint_limit_new ''/api/:id/x'' 60 1"
  by (simp add: limit_for_def example_endpoints_def add_limit_def endpoint_limiter_new_def endpoint_matches_def
      endpoint_limit_new_def match_pattern_def match_parts_def)

theorem endpoint_rate_bounded_witness:
  "passes (pass_of (\<lambda>t. endpoint_check t ''GET'' ''/api/7/x'' ''c'')) [1, 2, 3] example_endpoints \<le> 2"
proof -
  have "rc_enabled (ec_base (ep_config example_endpoints))" "ep_states example_endpoints = []"
    by (simp_all add: example_endpoints_def add_limit_def endpoint_limiter_new_def rate_limit_config_default_def)
  from endpoint_rate_bounded [OF this, of "[1, 2, 3]" 0 "''GET''" "''/api/7/x''" "''c''"] show ?thesis
    by (simp add: example_endpoint_limit endpoint_limit_new_def window_nanos_def nanos_per_sec_def)
qed

text \<open>
  The global window check reads the counter and adds to it in two steps. One call at a time,
  at most twice the maximum passes in any stretch of time as long as the window; when a second
  call reads before the first adds, both pass with one place left, and the counter ends above the
  maximum.
\<close>

theorem global_window_race:
  "(\<forall>g ts. gc_base (gl_config g) = base \<and> sorted ts \<and>
      list_all (\<lambda>t. from \<le> t \<and> t < from + window_nanos (rc_window_size base)) ts \<longrightarrow>
      passes (pass_of check_window) ts g \<le> 2 * unat (rc_max_requests base)) \<and>
   (\<forall>g t r1 r2 g1 g2 g3 g4 a1 a2.
      unat (gl_window_requests g) + 1 = unat (rc_max_requests (gc_base (gl_config g))) \<and>
      duration_since t (gl_window_start g) < window_nanos (rc_window_size (gc_base (gl_config g))) \<and>
      unat (rc_max_requests (gc_base (gl_config g))) + 1 < 2 ^ 64 \<and>
      window_load t g = (r1, g1) \<and> window_load t g1 = (r2, g2) \<and>
      window_commit t r1 g2 = (a1, g3) \<and> window_commit t r2 g3 = (a2, g4) \<longrightarrow>
      is_allowed a1 \<and> is_allowed a2 \<and>
      unat (gl_window_requests g4) = unat (rc_max_requests (gc_base (gl_config g))) + 1)"
proof (intro conjI allI impI)
  show "passes (pass_of check_window) ts g \<le> 2 * unat (rc_max_requests base)"
    if "gc_base (gl_config g) = base \<and> sorted ts \<and>
      list_all (\<lambda>t. from \<le> t \<and> t < from + window_nanos (rc_window_size base)) ts" for g ts
    using gw.admitted_burst [of g base ts "from"] that by (simp add: list_all_iff)
  fix g :: global_limiter and t r1 r2 g1 g2 g3 g4 a1 a2
  let ?base = "gc_base (gl_config g)"
  assume h: "unat (gl_window_requests g) + 1 = unat (rc_max_requests ?base) \<and>
      duration_since t (gl_window_start g) < window_nanos (rc_window_size ?base) \<and>
      unat (rc_max_requests ?base) + 1 < 2 ^ 64 \<and>
      window_load t g = (r1, g1) \<and> window_load t g1 = (r2, g2) \<and>
      window_commit t r1 g2 = (a1, g3) \<and> window_commit t r2 g3 = (a2, g4)"
  have ld: "r1 = gl_window_requests g" "g1 = g" "r2 = gl_window_requests g" "g2 = g"
    using h by (auto simp: window_load_def Let_def)
  have lt: "gl_window_requests g < rc_max_requests ?base" using h by (simp add: word_less_nat_alt)
  then have nle: "(rc_max_requests ?base \<le> gl_window_requests g) = False" by simp
  then have g3: "is_allowed a1" "g3 = g\<lparr>gl_window_requests := gl_window_requests g + 1\<rparr>"
    using h by (auto simp: window_commit_def Let_def ld)
  then have g4: "is_allowed a2" "gl_window_requests g4 = gl_window_requests g + 1 + 1"
    using h nle by (auto simp: window_commit_def Let_def ld)
  have "unat (gl_window_requests g + 1) = unat (rc_max_requests ?base)"
    using unat_Suc_less [OF lt] h by simp
  then have "gl_window_requests g + 1 = rc_max_requests ?base" by (simp only: word_unat_eq_iff)
  then have "unat (gl_window_requests g4) = unat (rc_max_requests ?base) + 1"
    using g4(2) h by (simp add: unat_word_ariths)
  then show "is_allowed a1" "is_allowed a2"
    "unat (gl_window_requests g4) = unat (rc_max_requests ?base) + 1"
    using g3(1) g4(1) by simp_all
qed


definition example_global :: global_limiter where
  "example_global = global_new 0 \<lparr>gc_base = rate_limit_config_default\<lparr>rc_max_requests := 1\<rparr>,
     gc_max_concurrent = 10, gc_requests_per_second = 10\<rparr>"

theorem global_window_race_witness:
  "is_allowed (fst (window_commit 5 0 example_global)) \<and>
   is_allowed (fst (window_commit 5 0 (snd (window_commit 5 0 example_global)))) \<and>
   passes (pass_of check_window) [5, 5] example_global \<le> 2"
proof -
  have base: "gc_base (gl_config example_global) = rate_limit_config_default\<lparr>rc_max_requests := 1\<rparr>"
    by (simp add: example_global_def global_new_def)
  have load: "window_load 5 example_global = (0, example_global)"
    by (simp add: window_load_def example_global_def global_new_def rate_limit_config_default_def
        duration_since_def window_nanos_def nanos_per_sec_def)
  have h: "unat (gl_window_requests example_global) + 1 = unat (rc_max_requests (gc_base (gl_config example_global)))"
    "duration_since 5 (gl_window_start example_global) <
      window_nanos (rc_window_size (gc_base (gl_config example_global)))"
    "unat (rc_max_requests (gc_base (gl_config example_global))) + 1 < 2 ^ 64"
    by (simp_all add: base rate_limit_config_default_def duration_since_def window_nanos_def nanos_per_sec_def)
       (simp_all add: example_global_def global_new_def)
  note race = global_window_race [of "gc_base (gl_config example_global)" 0, THEN conjunct2, rule_format,
      of example_global 5 0 example_global 0 example_global
        "fst (window_commit 5 0 example_global)" "snd (window_commit 5 0 example_global)"
        "fst (window_commit 5 0 (snd (window_commit 5 0 example_global)))"
        "snd (window_commit 5 0 (snd (window_commit 5 0 example_global)))"]
  have "passes (pass_of check_window) [5, 5] example_global \<le>
      2 * unat (rc_max_requests (gc_base (gl_config example_global)))"
    by (rule global_window_race [of "gc_base (gl_config example_global)" 0, THEN conjunct1, rule_format])
       (simp add: base rate_limit_config_default_def window_nanos_def nanos_per_sec_def)
  then show ?thesis using race h load by (simp add: base)
qed

end
