(* ===== verification/Job_Scheduler.thy ===== *)
theory Job_Scheduler
  imports Cron
begin

section \<open>Job scheduler (\<^verbatim>\<open>uhorse-scheduler/src/scheduler.rs\<close>)\<close>

text \<open>
  Jobs that run once at a time, at an interval or on a cron schedule: the list of jobs, the map of
  their executors, and one round of the scheduling loop. A round takes a snapshot of the jobs and the
  time \<open>now\<close>, and for each job reads the clock again to compute its next run; the readings and
  whether \<open>try_write\<close> got the lock are arguments. What the code calls of the \<^verbatim>\<open>chrono\<close> package (the
  calendar, \<^verbatim>\<open>from_timestamp\<close> and the addition that panics on overflow) is the record \<open>chrono\<close>.
  Rounds are not interrupted by other operations in the model. The shell of an execution queue in
  \<^verbatim>\<open>queue.rs\<close> keeps nothing.
\<close>

subsection \<open>Jobs and state\<close>

datatype schedule = At u64 | Every u64 | CronSched string

datatype job_target = ToolTarget string json | PluginTarget string string json

record scheduled_job =
  sj_id :: string
  sj_name :: string
  sj_schedule :: schedule
  sj_target :: job_target
  sj_enabled :: bool
  sj_next_run :: "u64 option"
  sj_last_run :: "u64 option"

text \<open>An executor is a closure; the model keeps what identifies it, of any type.\<close>

record 'x job_scheduler =
  js_jobs :: "scheduled_job list"
  js_running :: bool
  js_executors :: "(string, 'x) hmap"

record chrono =
  ck_calendar :: calendar
  ck_from_timestamp :: "int \<Rightarrow> instant option"
  ck_add_seconds :: "instant \<Rightarrow> int \<Rightarrow> instant option"

definition job_scheduler_new :: "'x job_scheduler" where
  "job_scheduler_new = \<lparr>js_jobs = [], js_running = False, js_executors = []\<rparr>"

definition register_executor :: "string \<Rightarrow> 'x \<Rightarrow> 'x job_scheduler \<Rightarrow> 'x job_scheduler" where
  "register_executor i f st = st\<lparr>js_executors := hm_insert i f (js_executors st)\<rparr>"

definition add_panic :: failure where
  "add_panic = Panic ''`DateTime + TimeDelta` overflowed''"

subsection \<open>The next run of a job\<close>

text \<open>
  \<open>now\<close> is the reading of the clock inside the function. The addition of an interval and the parse
  of an expression with a step of zero panic; a parse error makes the result \<open>None\<close>.
\<close>

definition calculate_next_run :: "chrono \<Rightarrow> instant \<Rightarrow> scheduled_job \<Rightarrow> failure + instant option" where
  "calculate_next_run ck now job =
     (case sj_schedule job of
        At time \<Rightarrow>
          Inr (case ck_from_timestamp ck (sint time) of
                 None \<Rightarrow> None
               | Some dt \<Rightarrow> if now < dt then Some dt else None)
      | Every duration_secs \<Rightarrow>
          (case ck_add_seconds ck now (sint duration_secs) of
             None \<Rightarrow> Inl add_panic
           | Some t \<Rightarrow> Inr (Some t))
      | CronSched expression \<Rightarrow>
          (case parse_cron expression of
             Inl (Fail e) \<Rightarrow> Inr None
           | Inl (Panic m) \<Rightarrow> Inl (Panic m)
           | Inr s \<Rightarrow> Inr (Some (next_after (ck_calendar ck) s now))))"

text \<open>\<^verbatim>\<open>dt.timestamp() as u64\<close>.\<close>

definition timestamp_u64 :: "instant \<Rightarrow> u64" where
  "timestamp_u64 t = word_of_int (t div nanos_per_sec)"

definition execute_job :: "'x job_scheduler \<Rightarrow> scheduled_job \<Rightarrow> ('x \<times> scheduled_job) list" where
  "execute_job st job =
     (case hm_get (js_executors st) (sj_id job) of
        Some executor \<Rightarrow> [(executor, job)]
      | None \<Rightarrow> [])"

text \<open>\<open>iter_mut().find(...)\<close> and the change of the element found.\<close>

fun modify_job :: "string \<Rightarrow> (scheduled_job \<Rightarrow> scheduled_job) \<Rightarrow> scheduled_job list \<Rightarrow> scheduled_job list" where
  "modify_job i f [] = []"
| "modify_job i f (j # js) = (if sj_id j = i then f j # js else j # modify_job i f js)"

definition find_job :: "string \<Rightarrow> scheduled_job list \<Rightarrow> scheduled_job option" where
  "find_job i js = find (\<lambda>j. sj_id j = i) js"

definition retain_jobs :: "string \<Rightarrow> scheduled_job list \<Rightarrow> scheduled_job list" where
  "retain_jobs i js = filter (\<lambda>j. sj_id j \<noteq> i) js"

text \<open>What follows an execution when the write lock was free.\<close>

definition update_after_run ::
  "chrono \<Rightarrow> instant \<Rightarrow> string \<Rightarrow> scheduled_job list \<Rightarrow> failure + scheduled_job list" where
  "update_after_run ck now i js =
     (case find_job i js of
        None \<Rightarrow> Inr js
      | Some j \<Rightarrow>
          (case sj_schedule j of
             At _ \<Rightarrow> Inr (retain_jobs i js)
           | Every duration_secs \<Rightarrow>
               (case ck_add_seconds ck now (sint duration_secs) of
                  None \<Rightarrow> Inl add_panic
                | Some t \<Rightarrow> Inr (modify_job i (\<lambda>j. j\<lparr>sj_next_run := Some (timestamp_u64 t)\<rparr>) js))
           | CronSched expression \<Rightarrow>
               (case parse_cron expression of
                  Inl (Fail e) \<Rightarrow> Inr js
                | Inl (Panic m) \<Rightarrow> Inl (Panic m)
                | Inr s \<Rightarrow>
                    Inr (modify_job i (\<lambda>j. j\<lparr>sj_next_run :=
                      Some (timestamp_u64 (next_after (ck_calendar ck) s now))\<rparr>) js))))"

subsection \<open>One round of the scheduling loop\<close>

text \<open>
  The jobs of the snapshot come with the clock reading of \<open>calculate_next_run\<close> and whether the lock
  is free. A panic ends the task that runs the loop.
\<close>

fun run_due ::
  "chrono \<Rightarrow> instant \<Rightarrow> (scheduled_job \<times> instant \<times> bool) list \<Rightarrow> 'x job_scheduler \<Rightarrow>
   ('x \<times> scheduled_job) list \<Rightarrow> failure option \<times> 'x job_scheduler \<times> ('x \<times> scheduled_job) list" where
  "run_due ck now [] st evs = (None, st, evs)"
| "run_due ck now ((job, reading, free) # rest) st evs =
     (case calculate_next_run ck reading job of
        Inl e \<Rightarrow> (Some e, st, evs)
      | Inr None \<Rightarrow> run_due ck now rest st evs
      | Inr (Some next_run) \<Rightarrow>
          if next_run \<le> now + nanos_per_sec then
            (let evs' = evs @ execute_job st job in
             if free then
               (case update_after_run ck now (sj_id job) (js_jobs st) of
                  Inl e \<Rightarrow> (Some e, st, evs')
                | Inr js \<Rightarrow> run_due ck now rest (st\<lparr>js_jobs := js\<rparr>) evs')
             else run_due ck now rest st evs')
          else run_due ck now rest st evs)"

definition scheduling_round ::
  "chrono \<Rightarrow> instant \<Rightarrow> (instant \<times> bool) list \<Rightarrow> 'x job_scheduler \<Rightarrow>
   failure option \<times> 'x job_scheduler \<times> ('x \<times> scheduled_job) list" where
  "scheduling_round ck now env st =
     (if js_running st then run_due ck now (zip (js_jobs st) env) st [] else (None, st, []))"

subsection \<open>The interface of the scheduler\<close>

definition schedule_job ::
  "chrono \<Rightarrow> instant \<Rightarrow> scheduled_job \<Rightarrow> 'x job_scheduler \<Rightarrow> failure + 'x job_scheduler" where
  "schedule_job ck now job st =
     (case calculate_next_run ck now job of
        Inl e \<Rightarrow> Inl e
      | Inr next_run \<Rightarrow>
          Inr (st\<lparr>js_jobs := js_jobs st @ [job\<lparr>sj_next_run := map_option timestamp_u64 next_run\<rparr>]\<rparr>))"

definition cancel_job :: "string \<Rightarrow> 'x job_scheduler \<Rightarrow> (uhorse_error + unit) \<times> 'x job_scheduler" where
  "cancel_job i st =
     (let initial_len = length (js_jobs st);
          st' = st\<lparr>js_jobs := retain_jobs i (js_jobs st)\<rparr>
      in if length (js_jobs st') < initial_len then (Inr (), st') else (Inl (JobNotFound i), st'))"

definition get_job :: "string \<Rightarrow> 'x job_scheduler \<Rightarrow> scheduled_job option" where
  "get_job i st = find_job i (js_jobs st)"

definition list_jobs :: "'x job_scheduler \<Rightarrow> scheduled_job list" where
  "list_jobs st = js_jobs st"

text \<open>The flag says whether a scheduling loop was spawned.\<close>

definition scheduler_start :: "'x job_scheduler \<Rightarrow> bool \<times> 'x job_scheduler" where
  "scheduler_start st = (if js_running st then (False, st) else (True, st\<lparr>js_running := True\<rparr>))"

definition scheduler_stop :: "'x job_scheduler \<Rightarrow> 'x job_scheduler" where
  "scheduler_stop st = st\<lparr>js_running := False\<rparr>"

definition is_running :: "'x job_scheduler \<Rightarrow> bool" where
  "is_running st = js_running st"

subsection \<open>The queue shell\<close>

definition queue_push :: "string \<Rightarrow> uhorse_error + unit" where
  "queue_push job_id = Inr ()"

definition queue_pop :: "uhorse_error + string option" where
  "queue_pop = Inr None"

subsection \<open>Adding and cancelling jobs\<close>

lemma retain_none: "i \<notin> set (map sj_id js) \<Longrightarrow> retain_jobs i js = js"
  by (induction js) (auto simp: retain_jobs_def)

lemma retain_shorter: "length (retain_jobs i js) < length js \<longleftrightarrow> i \<in> set (map sj_id js)"
proof
  assume "length (retain_jobs i js) < length js"
  then show "i \<in> set (map sj_id js)" using retain_none [of i js] by (metis less_irrefl)
next
  assume "i \<in> set (map sj_id js)"
  then show "length (retain_jobs i js) < length js"
    unfolding retain_jobs_def by (auto intro: length_filter_less)
qed

lemma find_job_none: "find_job i js = None \<longleftrightarrow> i \<notin> set (map sj_id js)"
  by (auto simp: find_job_def find_None_iff)

lemma find_job_some: "find_job i js = Some j \<Longrightarrow> j \<in> set js \<and> sj_id j = i"
  by (auto simp: find_job_def find_Some_iff)

lemma find_job_distinct:
  assumes "distinct (map sj_id js)" and "j \<in> set js"
  shows "find_job (sj_id j) js = Some j"
  using find_by_key [OF assms] by (simp add: find_job_def)

lemma find_job_retain: "find_job i (retain_jobs i' js) = (if i = i' then None else find_job i js)"
  by (induction js) (auto simp: find_job_def retain_jobs_def)

lemma find_job_simps [simp]:
  "find_job i [] = None" "find_job i (j # js) = (if sj_id j = i then Some j else find_job i js)"
  by (simp_all add: find_job_def)

lemma find_job_append:
  "find_job i (js @ ks) = (case find_job i js of None \<Rightarrow> find_job i ks | Some j \<Rightarrow> Some j)"
  by (induction js) (auto simp: find_job_def)

text \<open>An instance of \<^verbatim>\<open>chrono\<close> and jobs for the witnesses.\<close>

definition witness_chrono :: chrono where
  "witness_chrono = \<lparr>ck_calendar = utc_calendar, ck_from_timestamp = (\<lambda>s. Some (s * nanos_per_sec)),
     ck_add_seconds = (\<lambda>t d. Some (t + d * nanos_per_sec))\<rparr>"

definition witness_job :: scheduled_job where
  "witness_job = \<lparr>sj_id = ''j'', sj_name = ''job'', sj_schedule = Every 30, sj_target = ToolTarget ''t'' JNull,
     sj_enabled = True, sj_next_run = None, sj_last_run = None\<rparr>"

text \<open>
  A job scheduled under an id that is not in use is found under it, with its next run filled in;
  cancelling it succeeds, after which it is not found and cancelling again reports that there is no
  such job; the other jobs are found as before throughout.
\<close>

theorem schedule_cancel_roundtrip:
  assumes "get_job (sj_id job) st = None" and "schedule_job ck now job st = Inr st'"
  shows "(\<exists>n. calculate_next_run ck now job = Inr n \<and>
      get_job (sj_id job) st' = Some (job\<lparr>sj_next_run := map_option timestamp_u64 n\<rparr>)) \<and>
    cancel_job (sj_id job) st' = (Inr (), st) \<and>
    cancel_job (sj_id job) st = (Inl (JobNotFound (sj_id job)), st) \<and>
    (i \<noteq> sj_id job \<longrightarrow> get_job i st' = get_job i st)"
proof -
  obtain n where n: "calculate_next_run ck now job = Inr n"
    and st': "st' = st\<lparr>js_jobs := js_jobs st @ [job\<lparr>sj_next_run := map_option timestamp_u64 n\<rparr>]\<rparr>"
    using assms(2) by (auto simp: schedule_job_def split: sum.splits)
  have fresh: "sj_id job \<notin> set (map sj_id (js_jobs st))"
    using assms(1) by (simp add: get_job_def find_job_none)
  then have "retain_jobs (sj_id job) (js_jobs st) = js_jobs st" by (rule retain_none)
  then have "retain_jobs (sj_id job) (js_jobs st') = js_jobs st"
    by (simp add: st' retain_jobs_def)
  then show ?thesis
    using n assms(1) \<open>retain_jobs (sj_id job) (js_jobs st) = js_jobs st\<close>
    by (auto simp: st' get_job_def find_job_append cancel_job_def Let_def
        split: option.splits)
qed

theorem schedule_cancel_roundtrip_witness:
  "\<exists>st'. schedule_job witness_chrono 0 witness_job (job_scheduler_new :: nat job_scheduler) = Inr st' \<and>
    get_job ''j'' st' = Some (witness_job\<lparr>sj_next_run := Some 30\<rparr>) \<and>
    cancel_job ''j'' st' = (Inr (), job_scheduler_new)"
proof -
  let ?st = "job_scheduler_new :: nat job_scheduler"
  let ?st' = "?st\<lparr>js_jobs := [witness_job\<lparr>sj_next_run := Some 30\<rparr>]\<rparr>"
  have a: "get_job (sj_id witness_job) ?st = None"
    by (simp add: get_job_def find_job_def job_scheduler_new_def)
  have b: "schedule_job witness_chrono 0 witness_job ?st = Inr ?st'"
    by (simp add: schedule_job_def calculate_next_run_def witness_job_def job_scheduler_new_def
        witness_chrono_def         timestamp_u64_def nanos_per_sec_def)
  show ?thesis
    using schedule_cancel_roundtrip [OF a b] b
    by (auto simp: witness_job_def get_job_def find_job_def)
qed


subsection \<open>What a round runs\<close>

text \<open>What the code relies on of \<^verbatim>\<open>chrono\<close>: time stamps and intervals count seconds.\<close>

definition chrono_ok :: "chrono \<Rightarrow> bool" where
  "chrono_ok ck \<longleftrightarrow>
     (\<forall>s t. ck_from_timestamp ck s = Some t \<longrightarrow> t = s * nanos_per_sec) \<and>
     (\<forall>t d t'. ck_add_seconds ck t d = Some t' \<longrightarrow> t' = t + d * nanos_per_sec)"

text \<open>A job of the snapshot is due when its next run after the reading is within a second of \<open>now\<close>.\<close>

definition due :: "chrono \<Rightarrow> instant \<Rightarrow> scheduled_job \<times> instant \<times> bool \<Rightarrow> bool" where
  "due ck now = (\<lambda>(job, reading, free).
     case calculate_next_run ck reading job of
       Inr (Some t) \<Rightarrow> t \<le> now + nanos_per_sec
     | _ \<Rightarrow> False)"

fun is_at :: "schedule \<Rightarrow> bool" where
  "is_at (At t) = True"
| "is_at _ = False"

abbreviation strip_next :: "scheduled_job \<Rightarrow> scheduled_job" where
  "strip_next j \<equiv> j\<lparr>sj_next_run := None\<rparr>"

text \<open>The one-time jobs a round takes out.\<close>

definition removed_ids :: "chrono \<Rightarrow> instant \<Rightarrow> (scheduled_job \<times> instant \<times> bool) list \<Rightarrow> string set" where
  "removed_ids ck now xs =
     {sj_id job |job reading free. (job, reading, free) \<in> set xs \<and> free \<and>
        due ck now (job, reading, free) \<and> is_at (sj_schedule job)}"

lemma removed_ids_Cons:
  "removed_ids ck now ((job, reading, free) # xs) =
     (if free \<and> due ck now (job, reading, free) \<and> is_at (sj_schedule job)
      then insert (sj_id job) (removed_ids ck now xs) else removed_ids ck now xs)"
  by (auto simp: removed_ids_def)

lemma modify_strip:
  "\<forall>j. strip_next (f j) = strip_next j \<Longrightarrow> map strip_next (modify_job i f js) = map strip_next js"
  by (induction js) auto

lemma modify_next_strip [simp]:
  "map strip_next (modify_job i (\<lambda>j. j\<lparr>sj_next_run := v\<rparr>) js) = map strip_next js"
  by (rule modify_strip) simp

lemma strip_ids: "map sj_id (map strip_next js) = map sj_id js"
  by simp

lemma strip_filter_ids:
  "map strip_next (filter (\<lambda>j. P (sj_id j)) js) = filter (\<lambda>j. P (sj_id j)) (map strip_next js)"
  by (induction js) auto

lemma update_after_run_strip:
  assumes "update_after_run ck now i js = Inr js'" and "find_job i js = Some j"
  shows "map strip_next js' =
    filter (\<lambda>j'. is_at (sj_schedule j) \<longrightarrow> sj_id j' \<noteq> i) (map strip_next js)"
proof (cases "sj_schedule j")
  case (At t)
  then have "js' = retain_jobs i js" using assms by (simp add: update_after_run_def)
  then show ?thesis using At strip_filter_ids [of "\<lambda>x. x \<noteq> i" js] by (simp add: retain_jobs_def)
next
  case (Every d)
  then show ?thesis using assms by (auto simp: update_after_run_def split: option.splits)
next
  case (CronSched e)
  then show ?thesis using assms
    by (auto simp: update_after_run_def split: sum.splits failure.splits)
qed

lemma update_after_run_ids:
  "update_after_run ck now i js = Inr js' \<Longrightarrow> i \<notin> set (map sj_id js) \<Longrightarrow> js' = js"
  using find_job_none [of i js] by (simp add: update_after_run_def)

text \<open>The first job of the snapshot: what it adds to the events and does to the jobs.\<close>

lemma run_due_ConsD:
  assumes "run_due ck now ((job, reading, free) # rest) st evs = (None, st', evs')"
  obtains js where
    "run_due ck now rest (st\<lparr>js_jobs := js\<rparr>)
       (evs @ (if due ck now (job, reading, free) then execute_job st job else [])) = (None, st', evs')"
    and "if due ck now (job, reading, free) \<and> free
         then update_after_run ck now (sj_id job) (js_jobs st) = Inr js else js = js_jobs st"
proof -
  have same: "st\<lparr>js_jobs := js_jobs st\<rparr> = st" by simp
  show thesis
  proof (cases "due ck now (job, reading, free)")
    case False
    then show thesis using assms that [of "js_jobs st"]
      by (auto simp: due_def split: sum.splits option.splits if_splits)
  next
    case True
    then obtain t where t: "calculate_next_run ck reading job = Inr (Some t)" "t \<le> now + nanos_per_sec"
      by (auto simp: due_def split: sum.splits option.splits)
    show thesis
    proof (cases free)
      case False
      then show thesis using assms t True that [of "js_jobs st"] by simp
    next
      case free: True
      then obtain js where "update_after_run ck now (sj_id job) (js_jobs st) = Inr js"
        using assms t by (auto simp: Let_def split: sum.splits)
      then show thesis using assms t True free that [of js] by simp
    qed
  qed
qed

lemma execute_job_jobs [simp]: "execute_job (st\<lparr>js_jobs := js\<rparr>) = execute_job st"
  by (rule ext) (simp add: execute_job_def)

text \<open>The events: the executors of the due jobs, in the order of the list.\<close>

lemma run_due_events:
  "run_due ck now xs st evs = (None, st', evs') \<Longrightarrow>
     evs' = evs @ concat (map (\<lambda>x. if due ck now x then execute_job st (fst x) else []) xs)"
proof (induction xs arbitrary: st evs)
  case (Cons x xs)
  obtain job reading free where x: "x = (job, reading, free)" by (cases x)
  from Cons.prems [unfolded x] obtain js where
    "run_due ck now xs (st\<lparr>js_jobs := js\<rparr>)
       (evs @ (if due ck now x then execute_job st job else [])) = (None, st', evs')"
    unfolding x by (rule run_due_ConsD)
  from Cons.IH [OF this] show ?case by (simp add: x cong: if_cong)
qed simp

text \<open>The jobs: one-time jobs that ran are gone, every other is there with all but its next run.\<close>

lemma run_due_jobs:
  assumes "run_due ck now xs st evs = (None, st', evs')"
    and "distinct (map (sj_id \<circ> fst) xs)" and "distinct (map sj_id (js_jobs st))"
    and "\<forall>x\<in>set xs. strip_next (fst x) \<in> set (map strip_next (js_jobs st))"
  shows "map strip_next (js_jobs st') =
    filter (\<lambda>j. sj_id j \<notin> removed_ids ck now xs) (map strip_next (js_jobs st))"
  using assms
proof (induction xs arbitrary: st evs)
  case Nil
  then show ?case by (simp add: removed_ids_def)
next
  case (Cons x xs)
  obtain job reading free where x: "x = (job, reading, free)" by (cases x)
  let ?gone = "free \<and> due ck now x \<and> is_at (sj_schedule job)"
  from Cons.prems(1) [unfolded x] obtain js where
    run: "run_due ck now xs (st\<lparr>js_jobs := js\<rparr>)
       (evs @ (if due ck now x then execute_job st job else [])) = (None, st', evs')"
    and upd: "if due ck now x \<and> free
         then update_after_run ck now (sj_id job) (js_jobs st) = Inr js else js = js_jobs st"
    unfolding x by (rule run_due_ConsD)
  obtain j where j: "j \<in> set (js_jobs st)" "strip_next j = strip_next job"
    using Cons.prems(4) x by auto
  then have jid: "sj_id j = sj_id job" "sj_schedule j = sj_schedule job"
    by (metis scheduled_job.select_convs scheduled_job.surjective scheduled_job.update_convs(6))+
  have found: "find_job (sj_id job) (js_jobs st) = Some j"
    using find_job_distinct [OF Cons.prems(3) j(1)] jid(1) by simp
  have js: "map strip_next js =
      filter (\<lambda>j'. ?gone \<longrightarrow> sj_id j' \<noteq> sj_id job) (map strip_next (js_jobs st))"
    using upd update_after_run_strip [OF _ found] jid(2) by (cases "due ck now x \<and> free") auto
  have "distinct (map sj_id js)"
    using arg_cong [OF js, of "map sj_id"] Cons.prems(3) strip_ids [of js] strip_ids [of "js_jobs st"]
    by (metis distinct_map_filter)
  moreover have "\<forall>y\<in>set xs. strip_next (fst y) \<in> set (map strip_next js)"
    using Cons.prems(2,4) x unfolding js by (auto simp: image_iff)
  ultimately have "map strip_next (js_jobs st') =
      filter (\<lambda>j. sj_id j \<notin> removed_ids ck now xs) (map strip_next js)"
    using Cons.IH [OF run] Cons.prems(2) by simp
  then show ?case unfolding js x removed_ids_Cons
    by (auto simp: x conj_commute intro!: filter_cong)
qed


text \<open>When a job is due, by the kind of its schedule.\<close>

lemma due_at:
  assumes "chrono_ok ck" and "sj_schedule job = At time" and "due ck now (job, reading, free)"
  shows "reading < sint time * nanos_per_sec \<and> sint time * nanos_per_sec \<le> now + nanos_per_sec"
  using assms by (auto simp: due_def calculate_next_run_def chrono_ok_def split: option.splits if_splits)

lemma due_every:
  assumes "chrono_ok ck" and "sj_schedule job = Every d" and "due ck now (job, reading, free)"
  shows "reading + sint d * nanos_per_sec \<le> now + nanos_per_sec"
  using assms by (auto simp: due_def calculate_next_run_def chrono_ok_def split: option.splits)

lemma next_after_later: "a + nanos_per_sec \<le> next_after cal s a"
proof (cases "search_from cal s search_rounds (a + nanos_per_sec)")
  case None
  then show ?thesis by (simp add: next_after_def nanos_per_sec_def)
next
  case (Some t)
  then show ?thesis using find_grid_bounds [of "cron_matches cal s" "a + nanos_per_sec" search_rounds t]
    by (simp add: next_after_def search_from_find)
qed

lemma due_cron:
  assumes "sj_schedule job = CronSched e" and "due ck now (job, reading, free)"
  shows "reading \<le> now"
proof -
  obtain s where "next_after (ck_calendar ck) s reading \<le> now + nanos_per_sec"
    using assms by (auto simp: due_def calculate_next_run_def split: sum.splits failure.splits)
  then show ?thesis using next_after_later [of reading "ck_calendar ck" s] by linarith
qed

lemma execute_job_in: "(f, job') \<in> set (execute_job st job) \<Longrightarrow> job' = job"
  by (auto simp: execute_job_def split: option.splits)

lemma run_due_Cons_cases:
  assumes "run_due ck now (x # rest) st evs = (r, st', evs')"
  defines "e \<equiv> (if due ck now x then execute_job st (fst x) else [])"
  shows "(\<exists>js. run_due ck now rest (st\<lparr>js_jobs := js\<rparr>) (evs @ e) = (r, st', evs')) \<or> evs' = evs @ e"
proof -
  have same: "st\<lparr>js_jobs := js_jobs st\<rparr> = st" by simp
  obtain job reading free where x: "x = (job, reading, free)" by (cases x)
  show ?thesis
  proof (cases "due ck now x")
    case True
    then obtain t where t: "calculate_next_run ck reading job = Inr (Some t)" "t \<le> now + nanos_per_sec"
      by (auto simp: due_def x split: sum.splits option.splits)
    have "run_due ck now rest (st\<lparr>js_jobs := js_jobs st\<rparr>) (evs @ e) = (r, st', evs')" if "\<not> free"
      using assms(1) t True that by (simp add: x e_def)
    moreover have ?thesis if free
      using assms(1) t True that by (auto simp: x e_def Let_def split: sum.splits)
    ultimately show ?thesis by blast
  next
    case False
    then have "run_due ck now rest st evs = (r, st', evs') \<or> evs' = evs"
      using assms(1) by (auto simp: due_def x split: sum.splits option.splits if_splits)
    then show ?thesis using False same unfolding e_def by (metis append_Nil2)
  qed
qed

lemma run_due_only_due:
  "run_due ck now xs st evs = (r, st', evs') \<Longrightarrow> (f, job) \<in> set evs' \<Longrightarrow> (f, job) \<notin> set evs \<Longrightarrow>
     \<exists>reading free. (job, reading, free) \<in> set xs \<and> due ck now (job, reading, free)"
proof (induction xs arbitrary: st evs)
  case (Cons x xs)
  let ?e = "if due ck now x then execute_job st (fst x) else []"
  show ?case
  proof (cases "(f, job) \<in> set ?e")
    case True
    then have "due ck now x" "fst x = job" by (auto dest: execute_job_in split: if_splits)
    then show ?thesis by (cases x) auto
  next
    case False
    then obtain js where "run_due ck now xs (st\<lparr>js_jobs := js\<rparr>) (evs @ ?e) = (r, st', evs')"
      using run_due_Cons_cases [OF Cons.prems(1)] Cons.prems(2,3) by auto
    then show ?thesis using Cons.IH Cons.prems(2,3) False by (metis Un_iff list.set_intros(2) set_append)
  qed
qed simp

definition witness_at :: scheduled_job where
  "witness_at = witness_job\<lparr>sj_id := ''a'', sj_schedule := At 1000\<rparr>"

definition witness_sched :: "nat job_scheduler" where
  "witness_sched =
     \<lparr>js_jobs = [witness_at, witness_job], js_running = True, js_executors = [(''a'', 7), (''j'', 8)]\<rparr>"

lemma witness_chrono_ok: "chrono_ok witness_chrono"
  by (simp add: chrono_ok_def witness_chrono_def)

lemma witness_round:
  "scheduling_round witness_chrono 999500000000 [(999500000001, True), (999500000001, True)] witness_sched =
     (None, witness_sched\<lparr>js_jobs := [witness_job]\<rparr>, [(7, witness_at)])"
  by (simp add: scheduling_round_def witness_sched_def witness_at_def witness_job_def calculate_next_run_def
      witness_chrono_def nanos_per_sec_def execute_job_def update_after_run_def retain_jobs_def)

text \<open>
  A round of the scheduling loop in which nothing panics hands exactly the due jobs that have an
  executor to it, in the order of the list, and afterwards the one-time jobs that ran (and whose
  update found the lock free) are gone, while every other job is in its place, changed in nothing but
  its next run.
\<close>

theorem round_runs_due:
  assumes "js_running st" and "distinct (map sj_id (js_jobs st))" and "length env = length (js_jobs st)"
    and "scheduling_round ck now env st = (None, st', evs)"
  shows "evs = concat (map (\<lambda>x. if due ck now x then execute_job st (fst x) else [])
      (zip (js_jobs st) env)) \<and>
    map strip_next (js_jobs st') =
      filter (\<lambda>j. sj_id j \<notin> removed_ids ck now (zip (js_jobs st) env)) (map strip_next (js_jobs st))"
proof -
  let ?xs = "zip (js_jobs st) env"
  have run: "run_due ck now ?xs st [] = (None, st', evs)"
    using assms(1,4) by (simp add: scheduling_round_def)
  have "map (sj_id \<circ> fst) ?xs = map sj_id (js_jobs st)"
    using assms(3) by (metis map_fst_zip map_map)
  moreover have "\<forall>x\<in>set ?xs. strip_next (fst x) \<in> set (map strip_next (js_jobs st))"
    by (auto dest: set_zip_leftD)
  ultimately show ?thesis
    using run_due_jobs [OF run] run_due_events [OF run] assms(2) by simp
qed

theorem round_runs_due_witness:
  "[(7, witness_at)] = concat (map
      (\<lambda>x. if due witness_chrono 999500000000 x then execute_job witness_sched (fst x) else [])
      (zip [witness_at, witness_job] [(999500000001, True), (999500000001, True)])) \<and>
   [witness_job] = filter (\<lambda>j. sj_id j \<notin> removed_ids witness_chrono 999500000000
      (zip [witness_at, witness_job] [(999500000001, True), (999500000001, True)])) [witness_at, witness_job]"
proof -
  have "js_running witness_sched" "distinct (map sj_id (js_jobs witness_sched))"
    by (simp_all add: witness_sched_def witness_at_def witness_job_def)
  from round_runs_due [OF this _ witness_round] show ?thesis
    by (simp add: witness_sched_def witness_at_def witness_job_def)
qed

text \<open>
  A round recomputes each next run from a fresh reading of the clock instead of using the stored
  one, so when the clock has advanced since the round began no cron job runs, and no interval job
  with a positive interval: whatever runs is a one-time job due within the second, or an interval of
  at most zero seconds.
\<close>

theorem recurring_jobs_never_run:
  assumes "chrono_ok ck" and "\<forall>(reading, free)\<in>set env. now < reading"
    and "scheduling_round ck now env st = (r, st', evs)" and "(f, job) \<in> set evs"
  shows "(\<exists>time. sj_schedule job = At time \<and> now < sint time * nanos_per_sec \<and>
      sint time * nanos_per_sec \<le> now + nanos_per_sec) \<or>
    (\<exists>d. sj_schedule job = Every d \<and> sint d \<le> 0)"
proof -
  obtain reading free where m: "(job, reading, free) \<in> set (zip (js_jobs st) env)"
    and d: "due ck now (job, reading, free)"
    using run_due_only_due [of ck now "zip (js_jobs st) env" st "[]" r st' evs f job] assms(3,4)
    by (auto simp: scheduling_round_def split: if_splits)
  have r: "now < reading" using assms(2) set_zip_rightD [OF m] by auto
  show ?thesis
  proof (cases "sj_schedule job")
    case (At time)
    then show ?thesis using due_at [OF assms(1) At d] r by simp
  next
    case (Every k)
    have "sint k * nanos_per_sec < 1 * nanos_per_sec"
      using due_every [OF assms(1) Every d] r by simp
    then have "sint k \<le> 0" by (simp add: nanos_per_sec_def)
    then show ?thesis using Every by simp
  next
    case (CronSched e)
    then show ?thesis using due_cron [OF CronSched d] r by simp
  qed
qed

theorem recurring_jobs_never_run_witness:
  "(\<exists>time. sj_schedule witness_at = At time \<and> 999500000000 < sint time * nanos_per_sec \<and>
      sint time * nanos_per_sec \<le> 999500000000 + nanos_per_sec) \<or>
    (\<exists>d. sj_schedule witness_at = Every d \<and> sint d \<le> 0)"
  by (rule recurring_jobs_never_run [OF witness_chrono_ok _ witness_round, of 7]) simp_all

end
