(* ===== verification/Task_Queue.thy ===== *)
theory Task_Queue
  imports Prelude
begin

section \<open>Task queue and dead letters (\<^verbatim>\<open>uhorse-queue\<close>)\<close>

text \<open>
  The in-memory queue of tasks with its pass over the pending ones (\<^verbatim>\<open>task_queue.rs\<close>), the retry
  strategies (\<^verbatim>\<open>retry.rs\<close>) and the dead letter queue (\<^verbatim>\<open>dead_letter.rs\<close>). A handler is a parameter of
  a pass: a function from the task to success or an error text, which may differ from pass to pass;
  so are the clock readings (in milliseconds, the \<open>k\<close>-th reading while the task at index \<open>i\<close> is
  processed) and the outcomes of serialisation and of the message broker. The pass works by index on
  the deque and removes the finished entries afterwards, from the back; it is shown equal to one
  traversal of the list. Delays are computed over the reals with the rounding of \<^verbatim>\<open>f64\<close> as a parameter.
\<close>

subsection \<open>Tasks\<close>

datatype tq_status = TqPending | TqRunning | TqCompleted | TqFailed | TqRetrying

datatype tq_priority = TqLow | TqNormal | TqHigh | TqCritical

fun tq_priority_rank :: "tq_priority \<Rightarrow> nat" where
  "tq_priority_rank TqLow = 0"
| "tq_priority_rank TqNormal = 1"
| "tq_priority_rank TqHigh = 2"
| "tq_priority_rank TqCritical = 3"

instantiation tq_priority :: linorder
begin

definition less_eq_tq_priority :: "tq_priority \<Rightarrow> tq_priority \<Rightarrow> bool" where
  "less_eq_tq_priority p q \<longleftrightarrow> tq_priority_rank p \<le> tq_priority_rank q"

definition less_tq_priority :: "tq_priority \<Rightarrow> tq_priority \<Rightarrow> bool" where
  "less_tq_priority p q \<longleftrightarrow> tq_priority_rank p < tq_priority_rank q"

instance
proof
  fix p q :: tq_priority
  show "p \<le> q \<Longrightarrow> q \<le> p \<Longrightarrow> p = q"
    by (cases p; cases q) (simp_all add: less_eq_tq_priority_def)
qed (auto simp: less_eq_tq_priority_def less_tq_priority_def)

end

record 'p qtask =
  qt_id :: string
  qt_task_type :: string
  qt_payload :: 'p
  qt_priority :: tq_priority
  qt_status :: tq_status
  qt_retry_count :: u32
  qt_max_retries :: u32
  qt_created_at :: u64
  qt_updated_at :: u64
  qt_scheduled_at :: "u64 option"
  qt_error :: "string option"
  qt_metadata :: json

definition qtask_new :: "u64 \<Rightarrow> string \<Rightarrow> string \<Rightarrow> 'p \<Rightarrow> 'p qtask" where
  "qtask_new now i ty payload =
     \<lparr>qt_id = i, qt_task_type = ty, qt_payload = payload, qt_priority = TqNormal,
      qt_status = TqPending, qt_retry_count = 0, qt_max_retries = 3, qt_created_at = now,
      qt_updated_at = now, qt_scheduled_at = None, qt_error = None, qt_metadata = JObject []\<rparr>"

definition with_priority :: "tq_priority \<Rightarrow> 'p qtask \<Rightarrow> 'p qtask" where
  "with_priority p t = t\<lparr>qt_priority := p\<rparr>"

definition with_max_retries :: "u32 \<Rightarrow> 'p qtask \<Rightarrow> 'p qtask" where
  "with_max_retries n t = t\<lparr>qt_max_retries := n\<rparr>"

definition with_schedule :: "u64 \<Rightarrow> u64 \<Rightarrow> 'p qtask \<Rightarrow> 'p qtask" where
  "with_schedule now delay_ms t = t\<lparr>qt_scheduled_at := Some (now + delay_ms)\<rparr>"

definition with_metadata :: "json \<Rightarrow> 'p qtask \<Rightarrow> 'p qtask" where
  "with_metadata md t = t\<lparr>qt_metadata := md\<rparr>"

definition can_retry :: "'p qtask \<Rightarrow> bool" where
  "can_retry t \<longleftrightarrow> qt_retry_count t < qt_max_retries t"

definition qtask_start :: "u64 \<Rightarrow> 'p qtask \<Rightarrow> 'p qtask" where
  "qtask_start now t = t\<lparr>qt_status := TqRunning, qt_updated_at := now\<rparr>"

definition qtask_complete :: "u64 \<Rightarrow> 'p qtask \<Rightarrow> 'p qtask" where
  "qtask_complete now t = t\<lparr>qt_status := TqCompleted, qt_updated_at := now\<rparr>"

definition qtask_fail :: "string \<Rightarrow> u64 \<Rightarrow> 'p qtask \<Rightarrow> 'p qtask" where
  "qtask_fail err now t =
     t\<lparr>qt_status := (if can_retry t then TqRetrying else TqFailed), qt_error := Some err,
       qt_updated_at := now\<rparr>"

definition increment_retry :: "u64 \<Rightarrow> 'p qtask \<Rightarrow> 'p qtask" where
  "increment_retry now t =
     t\<lparr>qt_retry_count := qt_retry_count t + 1, qt_status := TqPending, qt_updated_at := now\<rparr>"

subsection \<open>The queue\<close>

record ('p, 'h) task_queue =
  tq_handlers :: "(string, 'h) hmap"
  tq_pending :: "'p qtask list"

definition task_queue_new :: "('p, 'h) task_queue" where
  "task_queue_new = \<lparr>tq_handlers = [], tq_pending = []\<rparr>"

definition register_handler :: "string \<Rightarrow> 'h \<Rightarrow> ('p, 'h) task_queue \<Rightarrow> ('p, 'h) task_queue" where
  "register_handler ty h q = q\<lparr>tq_handlers := hm_insert ty h (tq_handlers q)\<rparr>"

text \<open>\<open>ser\<close> and \<open>pub\<close> are the outcomes of \<open>to_bytes\<close> and of the publication.\<close>

definition enqueue ::
  "string + unit \<Rightarrow> string + unit \<Rightarrow> 'p qtask \<Rightarrow> ('p, 'h) task_queue \<Rightarrow>
   (string + unit) \<times> ('p, 'h) task_queue" where
  "enqueue ser pub t q =
     (case ser of
        Inl e \<Rightarrow> (Inl e, q)
      | Inr _ \<Rightarrow>
          (case pub of
             Inl e \<Rightarrow> (Inl e, q)
           | Inr _ \<Rightarrow> (Inr (), q\<lparr>tq_pending := tq_pending q @ [t]\<rparr>)))"

text \<open>The surroundings of a pass.\<close>

record ('p, 'h) pass_env =
  pe_now :: u64
  pe_clock :: "nat \<Rightarrow> nat \<Rightarrow> u64"
  pe_handle :: "'h \<Rightarrow> 'p qtask \<Rightarrow> string + unit"

definition not_yet :: "u64 \<Rightarrow> 'p qtask \<Rightarrow> bool" where
  "not_yet now t = (case qt_scheduled_at t of None \<Rightarrow> False | Some s \<Rightarrow> now < s)"

text \<open>
  The body of the loop for the task at index \<open>i\<close>: the task afterwards, whether its index goes to
  \<open>to_remove\<close>, what \<open>processed\<close> grows by, and the call of the handler, if any.
\<close>

record ('p, 'h) pass_outcome =
  po_task :: "'p qtask"
  po_remove :: bool
  po_processed :: nat
  po_calls :: "('h \<times> 'p qtask) list"

definition process_one ::
  "('p, 'h) pass_env \<Rightarrow> (string, 'h) hmap \<Rightarrow> nat \<Rightarrow> 'p qtask \<Rightarrow> ('p, 'h) pass_outcome" where
  "process_one env hs i t =
     (if qt_status t \<noteq> TqPending \<or> not_yet (pe_now env) t
      then \<lparr>po_task = t, po_remove = False, po_processed = 0, po_calls = []\<rparr>
      else
        (case hm_get hs (qt_task_type t) of
           None \<Rightarrow> \<lparr>po_task = t, po_remove = True, po_processed = 0, po_calls = []\<rparr>
         | Some h \<Rightarrow>
             (let t1 = qtask_start (pe_clock env i 0) t in
              case pe_handle env h t1 of
                Inr _ \<Rightarrow> \<lparr>po_task = qtask_complete (pe_clock env i 1) t1, po_remove = True,
                          po_processed = 1, po_calls = [(h, t1)]\<rparr>
              | Inl e \<Rightarrow>
                  (let t2 = qtask_fail e (pe_clock env i 1) t1 in
                   if can_retry t2
                   then \<lparr>po_task = increment_retry (pe_clock env i 2) t2, po_remove = False,
                         po_processed = 0, po_calls = [(h, t1)]\<rparr>
                   else \<lparr>po_task = t2, po_remove = True, po_processed = 0, po_calls = [(h, t1)]\<rparr>))))"

text \<open>The loop over the indices of the deque.\<close>

function process_loop ::
  "('p, 'h) pass_env \<Rightarrow> (string, 'h) hmap \<Rightarrow> nat \<Rightarrow> 'p qtask list \<Rightarrow> nat list \<Rightarrow> nat \<Rightarrow>
   ('h \<times> 'p qtask) list \<Rightarrow> 'p qtask list \<times> nat list \<times> nat \<times> ('h \<times> 'p qtask) list" where
  "process_loop env hs i pending to_remove processed calls =
     (if i < length pending then
        (let r = process_one env hs i (pending ! i) in
         process_loop env hs (i + 1) (pending[i := po_task r])
           (if po_remove r then to_remove @ [i] else to_remove) (processed + po_processed r)
           (calls @ po_calls r))
      else (pending, to_remove, processed, calls))"
  by pat_completeness auto
termination
  by (relation "measure (\<lambda>(env, hs, i, pending, _). length pending - i)") (auto simp: Let_def)

declare process_loop.simps [simp del]

text \<open>\<^verbatim>\<open>VecDeque::remove\<close>.\<close>

definition remove_at :: "nat \<Rightarrow> 'a list \<Rightarrow> 'a list" where
  "remove_at i xs = take i xs @ drop (Suc i) xs"

definition process_pending ::
  "('p, 'h) pass_env \<Rightarrow> ('p, 'h) task_queue \<Rightarrow>
   nat \<times> ('p, 'h) task_queue \<times> ('h \<times> 'p qtask) list" where
  "process_pending env q =
     (case process_loop env (tq_handlers q) 0 (tq_pending q) [] 0 [] of
        (pending, to_remove, processed, calls) \<Rightarrow>
          (processed, q\<lparr>tq_pending := fold remove_at (rev to_remove) pending\<rparr>, calls))"

record task_queue_stats =
  ts_pending_count :: nat
  ts_pending_by_type :: "(string, nat) hmap"

text \<open>\<^verbatim>\<open>*acc.entry(k).or_insert(0) += 1\<close>.\<close>

definition bump :: "string \<Rightarrow> (string, nat) hmap \<Rightarrow> (string, nat) hmap" where
  "bump k m = hm_insert k ((case hm_get m k of None \<Rightarrow> 0 | Some n \<Rightarrow> n) + 1) m"

definition queue_stats :: "('p, 'h) task_queue \<Rightarrow> task_queue_stats" where
  "queue_stats q =
     \<lparr>ts_pending_count = length (tq_pending q),
      ts_pending_by_type =
        fold (\<lambda>t. bump (qt_task_type t)) (filter (\<lambda>t. qt_status t = TqPending) (tq_pending q)) []\<rparr>"

subsection \<open>Retry strategies\<close>

text \<open>A duration counts nanoseconds.\<close>

datatype retry_strategy =
    NoRetry
  | Fixed nat u32
  | ExponentialBackoff nat real nat u32
  | CustomIntervals "nat list"

definition exponential_backoff :: "u32 \<Rightarrow> retry_strategy" where
  "exponential_backoff n = ExponentialBackoff 100000000 2 60000000000 n"

text \<open>\<open>fl\<close> rounds a real to an \<^verbatim>\<open>f64\<close>, \<open>pw\<close> is the function \<^verbatim>\<open>powi\<close> of the standard library.\<close>

definition as_secs_f64 :: "(real \<Rightarrow> real) \<Rightarrow> nat \<Rightarrow> real" where
  "as_secs_f64 fl d = fl (real d / 1000000000)"

definition from_secs_f64 :: "real \<Rightarrow> failure + nat" where
  "from_secs_f64 x =
     (if x < 0 \<or> 2 ^ 64 \<le> x then Inl (Panic ''can not convert float seconds to Duration'')
      else Inr (nat (round (x * 1000000000))))"

fun get_delay ::
  "(real \<Rightarrow> real) \<Rightarrow> (real \<Rightarrow> int \<Rightarrow> real) \<Rightarrow> retry_strategy \<Rightarrow> u32 \<Rightarrow> failure + nat option" where
  "get_delay fl pw NoRetry attempt = Inr None"
| "get_delay fl pw (Fixed interval mr) attempt = Inr (if attempt < mr then Some interval else None)"
| "get_delay fl pw (ExponentialBackoff initial multiplier mi mr) attempt =
     (if attempt < mr then
        (let delay = fl (as_secs_f64 fl initial * pw multiplier (sint attempt));
             delay = min delay (as_secs_f64 fl mi)
         in case from_secs_f64 delay of Inl e \<Rightarrow> Inl e | Inr d \<Rightarrow> Inr (Some d))
      else Inr None)"
| "get_delay fl pw (CustomIntervals ds) attempt =
     Inr (if unat attempt < length ds then Some (ds ! unat attempt) else None)"

definition has_retry :: "(real \<Rightarrow> real) \<Rightarrow> (real \<Rightarrow> int \<Rightarrow> real) \<Rightarrow> retry_strategy \<Rightarrow> u32 \<Rightarrow> failure + bool" where
  "has_retry fl pw s attempt =
     (case get_delay fl pw s attempt of Inl e \<Rightarrow> Inl e | Inr d \<Rightarrow> Inr (d \<noteq> None))"

fun max_retries :: "retry_strategy \<Rightarrow> u32" where
  "max_retries NoRetry = 0"
| "max_retries (Fixed _ mr) = mr"
| "max_retries (ExponentialBackoff _ _ _ mr) = mr"
| "max_retries (CustomIntervals ds) = of_nat (length ds)"

subsection \<open>Dead letters\<close>

record 'p dead_letter_entry =
  de_task :: "'p qtask"
  de_reason :: string
  de_dead_lettered_at :: u64
  de_original_error :: string
  de_retry_attempts :: u32

definition dead_letter_entry_new :: "u64 \<Rightarrow> 'p qtask \<Rightarrow> string \<Rightarrow> 'p dead_letter_entry" where
  "dead_letter_entry_new now t reason =
     \<lparr>de_task = t, de_reason = reason, de_dead_lettered_at = now,
      de_original_error = (case qt_error t of None \<Rightarrow> [] | Some e \<Rightarrow> e),
      de_retry_attempts = qt_retry_count t\<rparr>"

record 'p dead_letter_queue =
  dl_max_entries :: nat
  dl_retention_ms :: u64
  dl_entries :: "'p dead_letter_entry list"

text \<open>The loop that makes room; removing from an empty vector panics.\<close>

fun make_room :: "nat \<Rightarrow> 'a list \<Rightarrow> failure + 'a list" where
  "make_room mx [] = (if mx = 0 then Inl (Panic ''removal index (is 0) should be < len (is 0)'') else Inr [])"
| "make_room mx (x # xs) = (if mx \<le> length (x # xs) then make_room mx xs else Inr (x # xs))"

definition dl_add :: "u64 \<Rightarrow> 'p qtask \<Rightarrow> string \<Rightarrow> 'p dead_letter_queue \<Rightarrow> failure + 'p dead_letter_queue" where
  "dl_add now t reason q =
     (case make_room (dl_max_entries q) (dl_entries q) of
        Inl e \<Rightarrow> Inl e
      | Inr es \<Rightarrow> Inr (q\<lparr>dl_entries := es @ [dead_letter_entry_new now t reason]\<rparr>))"

definition dl_get_by_type :: "string \<Rightarrow> 'p dead_letter_queue \<Rightarrow> 'p dead_letter_entry list" where
  "dl_get_by_type ty q = filter (\<lambda>e. qt_task_type (de_task e) = ty) (dl_entries q)"

definition dl_get_by_id :: "string \<Rightarrow> 'p dead_letter_queue \<Rightarrow> 'p dead_letter_entry option" where
  "dl_get_by_id i q = find (\<lambda>e. qt_id (de_task e) = i) (dl_entries q)"

text \<open>\<open>position\<close> and \<open>remove\<close>: the entry taken out and the rest.\<close>

fun take_entry :: "string \<Rightarrow> 'p dead_letter_entry list \<Rightarrow> ('p dead_letter_entry \<times> 'p dead_letter_entry list) option" where
  "take_entry i [] = None"
| "take_entry i (e # es) =
     (if qt_id (de_task e) = i then Some (e, es)
      else (case take_entry i es of None \<Rightarrow> None | Some (e', es') \<Rightarrow> Some (e', e # es')))"

definition dl_remove :: "string \<Rightarrow> 'p dead_letter_queue \<Rightarrow> bool \<times> 'p dead_letter_queue" where
  "dl_remove i q =
     (case take_entry i (dl_entries q) of
        None \<Rightarrow> (False, q)
      | Some (_, es) \<Rightarrow> (True, q\<lparr>dl_entries := es\<rparr>))"

definition dl_requeue :: "string \<Rightarrow> 'p dead_letter_queue \<Rightarrow> 'p qtask option \<times> 'p dead_letter_queue" where
  "dl_requeue i q =
     (case take_entry i (dl_entries q) of
        None \<Rightarrow> (None, q)
      | Some (e, es) \<Rightarrow>
          (Some ((de_task e)\<lparr>qt_status := TqPending, qt_retry_count := 0, qt_error := None\<rparr>),
           q\<lparr>dl_entries := es\<rparr>))"

definition dl_clear :: "'p dead_letter_queue \<Rightarrow> u64 \<times> 'p dead_letter_queue" where
  "dl_clear q = (of_nat (length (dl_entries q)), q\<lparr>dl_entries := []\<rparr>)"

text \<open>\<open>now.saturating_sub(e.dead_lettered_at)\<close>.\<close>

definition saturating_sub :: "u64 \<Rightarrow> u64 \<Rightarrow> u64" where
  "saturating_sub a b = (if b \<le> a then a - b else 0)"

definition dl_purge_expired :: "u64 \<Rightarrow> 'p dead_letter_queue \<Rightarrow> u64 \<times> 'p dead_letter_queue" where
  "dl_purge_expired now q =
     (let es = filter (\<lambda>e. saturating_sub now (de_dead_lettered_at e) < dl_retention_ms q) (dl_entries q)
      in (of_nat (length (dl_entries q) - length es), q\<lparr>dl_entries := es\<rparr>))"

definition dl_stats :: "'p dead_letter_queue \<Rightarrow> nat \<times> (string, nat) hmap \<times> nat" where
  "dl_stats q =
     (length (dl_entries q), fold (\<lambda>e. bump (qt_task_type (de_task e))) (dl_entries q) [], dl_max_entries q)"


subsection \<open>A pass is one traversal\<close>

lemma remove_at_simps [simp]:
  "remove_at 0 (x # xs) = xs" "remove_at (Suc i) (x # xs) = x # remove_at i xs"
  by (simp_all add: remove_at_def)

lemma fold_remove_Suc: "fold remove_at (map Suc is) (x # xs) = x # fold remove_at is xs"
  by (induction "is" arbitrary: xs) auto

text \<open>Removing the marked positions from the back leaves the elements that are not marked.\<close>

lemma fold_remove_marked:
  "length bs = length xs \<Longrightarrow>
     fold remove_at (rev (filter (\<lambda>i. bs ! i) [0..<length bs])) xs =
     map fst (filter (\<lambda>(x, b). \<not> b) (zip xs bs))"
proof (induction bs arbitrary: xs)
  case (Cons b bs)
  obtain y ys where xs: "xs = y # ys" using Cons.prems by (cases xs) auto
  let ?is = "filter (\<lambda>i. bs ! i) [0..<length bs]"
  have "[0..<length (b # bs)] = 0 # map Suc [0..<length bs]"
    by (simp add: upt_conv_Cons map_Suc_upt del: upt_Suc)
  then have idx: "filter (\<lambda>i. (b # bs) ! i) [0..<length (b # bs)] = (if b then [0] else []) @ map Suc ?is"
    by (simp add: filter_map comp_def del: upt_Suc)
  have "fold remove_at (rev (map Suc ?is)) (y # ys) = y # fold remove_at (rev ?is) ys"
    by (simp add: rev_map fold_remove_Suc)
  then show ?case using Cons.IH [of ys] Cons.prems unfolding idx xs by simp
qed simp

definition outcomes ::
  "('p, 'h) pass_env \<Rightarrow> (string, 'h) hmap \<Rightarrow> 'p qtask list \<Rightarrow> ('p, 'h) pass_outcome list" where
  "outcomes env hs ts = map (\<lambda>i. process_one env hs i (ts ! i)) [0..<length ts]"

lemma outcomes_length [simp]: "length (outcomes env hs ts) = length ts"
  by (simp add: outcomes_def)

lemma outcomes_nth [simp]: "i < length ts \<Longrightarrow> outcomes env hs ts ! i = process_one env hs i (ts ! i)"
  by (simp add: outcomes_def)

lemma process_loop_eq:
  assumes "i \<le> length ts"
    and "pending = map po_task (take i (outcomes env hs ts)) @ drop i ts"
    and "to_remove = filter (\<lambda>j. po_remove (outcomes env hs ts ! j)) [0..<i]"
    and "processed = sum_list (map po_processed (take i (outcomes env hs ts)))"
    and "calls = concat (map po_calls (take i (outcomes env hs ts)))"
  shows "process_loop env hs i pending to_remove processed calls =
    (map po_task (outcomes env hs ts),
     filter (\<lambda>j. po_remove (outcomes env hs ts ! j)) [0..<length ts],
     sum_list (map po_processed (outcomes env hs ts)), concat (map po_calls (outcomes env hs ts)))"
  using assms
proof (induction "length ts - i" arbitrary: i pending to_remove processed calls)
  case 0
  then have "i = length ts" by simp
  then show ?case using 0 by (simp add: process_loop.simps)
next
  case (Suc k)
  let ?r = "process_one env hs i (ts ! i)"
  have i: "i < length ts" using Suc.hyps(2) by simp
  have len: "length pending = length ts" using Suc.prems i by simp
  have at: "pending ! i = ts ! i" using Suc.prems i by (simp add: nth_append)
  have tk: "take (Suc i) (outcomes env hs ts) = take i (outcomes env hs ts) @ [?r]"
    using i by (simp add: take_Suc_conv_app_nth)
  have "process_loop env hs i pending to_remove processed calls =
      process_loop env hs (Suc i) (pending[i := po_task ?r])
        (if po_remove ?r then to_remove @ [i] else to_remove) (processed + po_processed ?r)
        (calls @ po_calls ?r)"
    using i len at by (subst process_loop.simps) (simp add: Let_def)
  also have "\<dots> = (map po_task (outcomes env hs ts),
     filter (\<lambda>j. po_remove (outcomes env hs ts ! j)) [0..<length ts],
     sum_list (map po_processed (outcomes env hs ts)), concat (map po_calls (outcomes env hs ts)))"
  proof (rule Suc.hyps(1))
    show "pending[i := po_task ?r] = map po_task (take (Suc i) (outcomes env hs ts)) @ drop (Suc i) ts"
      unfolding Suc.prems(2) tk using i
      by (simp add: list_update_append Cons_nth_drop_Suc [symmetric])
  qed (use Suc i tk in auto)
  finally show ?case .
qed

lemma kept_outcomes:
  "map fst (filter (\<lambda>(x, b). \<not> b) (zip (map po_task os) (map po_remove os))) =
     map po_task (filter (\<lambda>r. \<not> po_remove r) os)"
  by (induction os) auto

lemma process_pending_eq:
  "process_pending env q =
     (sum_list (map po_processed (outcomes env (tq_handlers q) (tq_pending q))),
      q\<lparr>tq_pending := map po_task (filter (\<lambda>r. \<not> po_remove r) (outcomes env (tq_handlers q) (tq_pending q)))\<rparr>,
      concat (map po_calls (outcomes env (tq_handlers q) (tq_pending q))))"
proof -
  let ?hs = "tq_handlers q" and ?ts = "tq_pending q"
  let ?os = "outcomes env ?hs ?ts"
  have loop: "process_loop env ?hs 0 ?ts [] 0 [] =
      (map po_task ?os, filter (\<lambda>j. po_remove (?os ! j)) [0..<length ?ts],
       sum_list (map po_processed ?os), concat (map po_calls ?os))"
    by (rule process_loop_eq) auto
  have "filter (\<lambda>j. po_remove (?os ! j)) [0..<length ?ts] =
      filter (\<lambda>j. map po_remove ?os ! j) [0..<length (map po_remove ?os)]"
    by (rule filter_cong) auto
  then have "fold remove_at (rev (filter (\<lambda>j. po_remove (?os ! j)) [0..<length ?ts])) (map po_task ?os) =
      map po_task (filter (\<lambda>r. \<not> po_remove r) ?os)"
    using fold_remove_marked [of "map po_remove ?os" "map po_task ?os"] by (simp add: kept_outcomes)
  then show ?thesis by (simp add: process_pending_def loop)
qed

lemma one_call:
  "po_calls (process_one env hs i t) = [] \<or>
   (\<exists>h t1. po_calls (process_one env hs i t) = [(h, t1)] \<and> qt_id t1 = qt_id t)"
  by (auto simp: process_one_def Let_def qtask_start_def split: option.splits sum.splits)

lemma calls_in_order:
  "map (\<lambda>(h, t). qt_id t) (concat (map (\<lambda>i. po_calls (process_one env hs i (ts ! i))) is)) =
     map (\<lambda>i. qt_id (ts ! i)) (filter (\<lambda>i. po_calls (process_one env hs i (ts ! i)) \<noteq> []) is)"
proof (induction "is")
  case (Cons i "is")
  then show ?case using one_call [of env hs i "ts ! i"] by auto
qed simp


subsection \<open>The queue drains\<close>

definition run_passes :: "('p, 'h) pass_env list \<Rightarrow> ('p, 'h) task_queue \<Rightarrow> ('p, 'h) task_queue" where
  "run_passes envs q = fold (\<lambda>env q. fst (snd (process_pending env q))) envs q"

text \<open>A task that waits with at most \<open>n\<close> retries left.\<close>

definition waiting :: "nat \<Rightarrow> 'p qtask \<Rightarrow> bool" where
  "waiting n t \<longleftrightarrow> qt_status t = TqPending \<and> unat (qt_max_retries t) \<le> unat (qt_retry_count t) + n"

lemma retry_uses_budget:
  assumes "waiting n t" and "\<not> not_yet (pe_now env) t" and "\<not> po_remove (process_one env hs i t)"
  shows "0 < n \<and> waiting (n - 1) (po_task (process_one env hs i t)) \<and>
    qt_scheduled_at (po_task (process_one env hs i t)) = qt_scheduled_at t"
proof -
  let ?t = "po_task (process_one env hs i t)"
  have r: "qt_status ?t = TqPending \<and> qt_retry_count ?t = qt_retry_count t + 1 \<and>
      qt_max_retries ?t = qt_max_retries t \<and> qt_scheduled_at ?t = qt_scheduled_at t \<and>
      qt_retry_count t < qt_max_retries t"
    using assms
    by (auto simp: waiting_def process_one_def Let_def can_retry_def qtask_fail_def qtask_start_def
        increment_retry_def split: option.splits sum.splits if_splits)
  then have lt: "qt_retry_count t < qt_max_retries t" by simp
  have lt': "unat (qt_retry_count t) < unat (qt_max_retries t)" using lt by (simp add: word_less_nat_alt)
  then have "unat (qt_retry_count t + 1) = Suc (unat (qt_retry_count t))"
    using unsigned_less [of "qt_max_retries t", where 'a = nat] by (simp add: unat_word_ariths)
  then show ?thesis using assms(1) lt' by (auto simp: r waiting_def)
qed

lemma pass_uses_budget:
  assumes "list_all (\<lambda>t. waiting n t \<and> \<not> not_yet (pe_now env) t) (tq_pending q)"
    and "t \<in> set (tq_pending (fst (snd (process_pending env q))))"
  shows "0 < n \<and> waiting (n - 1) t \<and> (\<exists>t0\<in>set (tq_pending q). qt_scheduled_at t = qt_scheduled_at t0)"
proof -
  obtain i where i: "i < length (tq_pending q)" "\<not> po_remove (process_one env (tq_handlers q) i (tq_pending q ! i))"
      "t = po_task (process_one env (tq_handlers q) i (tq_pending q ! i))"
    using assms(2) by (auto simp: process_pending_eq outcomes_def)
  then have w: "waiting n (tq_pending q ! i)" "\<not> not_yet (pe_now env) (tq_pending q ! i)"
    using assms(1) by (auto simp: list_all_length)
  show ?thesis using retry_uses_budget [OF w i(2)] i(1,3) nth_mem by blast
qed

text \<open>
  No task waits for ever: when every task of the queue is pending with at most \<open>n\<close> retries left
  and no scheduled time lies ahead, then after more than \<open>n\<close> passes the queue is empty, whatever the
  handlers return and whether there are handlers at all.
\<close>

theorem queue_drains:
  assumes "list_all (waiting n) (tq_pending q)" and "n < length envs"
    and "list_all (\<lambda>env. list_all (\<lambda>t. \<not> not_yet (pe_now env) t) (tq_pending q)) envs"
  shows "tq_pending (run_passes envs q) = []"
  using assms
proof (induction envs arbitrary: n q)
  case (Cons env envs)
  let ?q = "fst (snd (process_pending env q))"
  have ok: "list_all (\<lambda>t. waiting n t \<and> \<not> not_yet (pe_now env) t) (tq_pending q)"
    using Cons.prems(1,3) by (simp add: list_all_iff)
  note use = pass_uses_budget [OF ok]
  have rest: "list_all (\<lambda>e. list_all (\<lambda>t. \<not> not_yet (pe_now e) t) (tq_pending ?q)) envs"
    unfolding list_all_iff
  proof (intro ballI)
    fix e t
    assume "e \<in> set envs" "t \<in> set (tq_pending ?q)"
    moreover then obtain t0 where "t0 \<in> set (tq_pending q)" "qt_scheduled_at t = qt_scheduled_at t0"
      using use by blast
    ultimately show "\<not> not_yet (pe_now e) t"
      using Cons.prems(3) by (auto simp: list_all_iff not_yet_def)
  qed
  have "tq_pending (run_passes envs ?q) = []"
  proof (cases "n = 0")
    case True
    then have empty: "tq_pending ?q = []" using use by (metis list.set_intros(1) neq_Nil_conv less_irrefl)
    have "tq_pending (run_passes es q') = []" if "tq_pending q' = []" for es q'
      using that by (induction es arbitrary: q') (simp_all add: run_passes_def process_pending_eq outcomes_def)
    then show ?thesis using empty by blast
  next
    case False
    have "list_all (waiting (n - 1)) (tq_pending ?q)" using use by (simp add: list_all_iff)
    then show ?thesis using Cons.IH [OF _ _ rest] Cons.prems(2) False by simp
  qed
  then show ?case by (simp add: run_passes_def)
qed simp

theorem queue_drains_witness:
  "tq_pending (run_passes
     (replicate 4 \<lparr>pe_now = 100, pe_clock = (\<lambda>i k. 100), pe_handle = (\<lambda>h t. Inl ''down'')\<rparr>)
     \<lparr>tq_handlers = [(''mail'', 0 :: nat)], tq_pending = [qtask_new 5 ''a'' ''mail'' (), qtask_new 6 ''b'' ''none'' ()]\<rparr>) = []"
  by (rule queue_drains [of 3]) (simp_all add: waiting_def qtask_new_def not_yet_def list_all_iff)

subsection \<open>Retry strategies and dead letters\<close>

text \<open>A strategy has another attempt exactly below its number of retries.\<close>

lemma has_retry_iff:
  assumes "has_retry fl pw s attempt = Inr b" and "\<And>ds. s = CustomIntervals ds \<Longrightarrow> length ds < 2 ^ 32"
  shows "b \<longleftrightarrow> attempt < max_retries s"
proof (cases s)
  case (CustomIntervals ds)
  then have "unat (of_nat (length ds) :: u32) = length ds"
    using assms(2) by (simp add: unat_of_nat)
  then show ?thesis using assms(1) CustomIntervals
    by (auto simp: has_retry_def word_less_nat_alt split: if_splits)
qed (use assms(1) in \<open>auto simp: has_retry_def Let_def split: sum.splits if_splits\<close>)

lemma make_room_eq:
  "0 < mx \<Longrightarrow> make_room mx xs = Inr (drop (Suc (length xs) - mx) xs)"
proof (induction xs)
  case (Cons x xs)
  then show ?case by (cases "mx \<le> length (x # xs)") (auto simp: Suc_diff_le)
qed simp

text \<open>
  The dead letter queue keeps the newest entries: adding one to a queue with room for at least
  one entry succeeds, puts it last, drops as many of the oldest as needed and never exceeds the
  maximum, while with a maximum of zero the call panics.
\<close>

theorem dead_letters_bounded:
  "(0 < dl_max_entries q \<longrightarrow>
     (\<exists>q'. dl_add now t reason q = Inr q' \<and> length (dl_entries q') \<le> dl_max_entries q \<and>
        dl_entries q' = drop (Suc (length (dl_entries q)) - dl_max_entries q) (dl_entries q) @
          [dead_letter_entry_new now t reason])) \<and>
   (dl_max_entries q = 0 \<longrightarrow> (\<exists>msg. dl_add now t reason q = Inl (Panic msg)))"
proof -
  have "\<exists>msg. make_room 0 xs = Inl (Panic msg)" for xs :: "'a dead_letter_entry list"
    by (induction xs) auto
  then obtain msg where "make_room 0 (dl_entries q) = Inl (Panic msg)" by blast
  then show ?thesis by (auto simp: dl_add_def make_room_eq)
qed

theorem dead_letters_bounded_witness:
  "\<exists>q'. dl_add 7 (qtask_new 5 ''b'' ''mail'' ()) ''failed''
      \<lparr>dl_max_entries = 1, dl_retention_ms = 1000,
       dl_entries = [dead_letter_entry_new 6 (qtask_new 5 ''a'' ''mail'' ()) ''failed'']\<rparr> = Inr q' \<and>
    dl_entries q' = [dead_letter_entry_new 7 (qtask_new 5 ''b'' ''mail'' ()) ''failed'']"
  using dead_letters_bounded [of "\<lparr>dl_max_entries = 1, dl_retention_ms = 1000,
      dl_entries = [dead_letter_entry_new 6 (qtask_new 5 ''a'' ''mail'' ()) ''failed'']\<rparr>"
      7 "qtask_new 5 ''b'' ''mail'' ()" "''failed''"]
  by auto

end
