(* ===== verification/Sharding.thy ===== *)
theory Sharding
  imports Prelude
begin

section \<open>Shard routing (\<^verbatim>\<open>uhorse-storage/src/sharding/router.rs\<close>, \<^verbatim>\<open>strategy.rs\<close>)\<close>

text \<open>
  Which database shard a request goes to: by tenant with a cache of assignments, by the hash of a
  user, or by the month of a time stamp. Hashes are 64 bits wide and wrap. An index out of bounds and
  a remainder by zero panic. The configuration does not change after the router is built; the cache
  of assignments is its only state. Reading the configuration from TOML is left out.
\<close>

unbundle bit_operations_syntax

subsection \<open>Configuration\<close>

datatype shard_error = Anyhow string | ShardPanic string

datatype sharding_strategy = TenantBased | HashBased | RangeBased

definition strategy_from_str :: "string \<Rightarrow> shard_error + sharding_strategy" where
  "strategy_from_str s =
     (let l = to_lowercase s in
      if l = ''tenant_based'' \<or> l = ''tenant'' then Inr TenantBased
      else if l = ''hash_based'' \<or> l = ''hash'' then Inr HashBased
      else if l = ''range_based'' \<or> l = ''range'' then Inr RangeBased
      else Inl (Anyhow (''Unknown sharding strategy: '' @ s)))"

record shard_key =
  sk_tenant_id :: "string option"
  sk_user_id :: "string option"
  sk_timestamp :: "u64 option"

definition key_from_tenant :: "string \<Rightarrow> shard_key" where
  "key_from_tenant t = \<lparr>sk_tenant_id = Some t, sk_user_id = None, sk_timestamp = None\<rparr>"

definition key_from_user :: "string \<Rightarrow> shard_key" where
  "key_from_user u = \<lparr>sk_tenant_id = None, sk_user_id = Some u, sk_timestamp = None\<rparr>"

text \<open>The time stamp is an \<^verbatim>\<open>i64\<close>: 64 bits read as two's complement.\<close>

definition key_from_timestamp :: "u64 \<Rightarrow> shard_key" where
  "key_from_timestamp t = \<lparr>sk_tenant_id = None, sk_user_id = None, sk_timestamp = Some t\<rparr>"

record shard_config =
  sc_id :: u32
  sc_dsn :: string
  sc_weight :: u32
  sc_active :: bool

record replica_config =
  rc_shard_id :: u32
  rc_replica_id :: u32
  rc_dsn :: string
  rc_read_only :: bool

record sharding_config =
  sg_strategy :: sharding_strategy
  sg_shard_count :: u32
  sg_shards :: "shard_config list"
  sg_replicas :: "replica_config list"

definition sharding_config_default :: sharding_config where
  "sharding_config_default =
     \<lparr>sg_strategy = TenantBased, sg_shard_count = 1,
      sg_shards = [\<lparr>sc_id = 0, sc_dsn = ''sqlite://data/uhorse.db'', sc_weight = 1, sc_active = True\<rparr>],
      sg_replicas = []\<rparr>"

definition get_shard :: "u32 \<Rightarrow> sharding_config \<Rightarrow> shard_config option" where
  "get_shard i c = find (\<lambda>s. sc_id s = i) (sg_shards c)"

definition get_replicas :: "u32 \<Rightarrow> sharding_config \<Rightarrow> replica_config list" where
  "get_replicas i c = filter (\<lambda>r. rc_shard_id r = i) (sg_replicas c)"

definition active_shards :: "sharding_config \<Rightarrow> shard_config list" where
  "active_shards c = filter sc_active (sg_shards c)"

subsection \<open>The router\<close>

record route_result =
  rr_shard_id :: u32
  rr_shard :: shard_config
  rr_use_replica :: bool

record sharding_router =
  sr_config :: sharding_config
  sr_tenant_shard_map :: "(string, u32) hmap"
  sr_hash_ring :: "u32 list"

definition build_hash_ring :: "sharding_config \<Rightarrow> u32 list" where
  "build_hash_ring c = sort (map sc_id (active_shards c))"

definition sharding_router_new :: "sharding_config \<Rightarrow> sharding_router" where
  "sharding_router_new c =
     \<lparr>sr_config = c, sr_tenant_shard_map = [], sr_hash_ring = build_hash_ring c\<rparr>"

text \<open>The hash with the multiplier and the start value of the 32 bit FNV-1a, over 64 bits.\<close>

definition hash_byte :: "u64 \<Rightarrow> char \<Rightarrow> u64" where
  "hash_byte h c = (h XOR of_nat (of_char c)) * 0x01000193"

definition hash_key :: "string \<Rightarrow> u64" where
  "hash_key key = foldl hash_byte 0x811c9dc5 key"

definition shard_hash :: "u32 \<Rightarrow> u64" where
  "shard_hash i = hash_key (dec_string (unat i))"

text \<open>The first shard of the ring whose hash is not below the hash of the key, else \<^verbatim>\<open>ring[0]\<close>.\<close>

definition ring_choice :: "u32 list \<Rightarrow> u64 \<Rightarrow> shard_error + u32" where
  "ring_choice ring hash =
     (case find (\<lambda>i. hash \<le> shard_hash i) ring of
        Some i \<Rightarrow> Inr i
      | None \<Rightarrow>
          (case ring of
             [] \<Rightarrow> Inl (ShardPanic ''index out of bounds: the len is 0 but the index is 0'')
           | i # _ \<Rightarrow> Inr i))"

definition assign_shard_for_tenant :: "string \<Rightarrow> sharding_router \<Rightarrow> shard_error + u32" where
  "assign_shard_for_tenant tenant_id r =
     (if active_shards (sr_config r) = [] then Inl (Anyhow ''No active shards available'')
      else ring_choice (sr_hash_ring r) (hash_key tenant_id))"

definition route_by_tenant :: "shard_key \<Rightarrow> sharding_router \<Rightarrow> (shard_error + u32) \<times> sharding_router" where
  "route_by_tenant key r =
     (case sk_tenant_id key of
        None \<Rightarrow> (Inl (Anyhow ''Tenant ID required for tenant-based sharding''), r)
      | Some tenant_id \<Rightarrow>
          (case hm_get (sr_tenant_shard_map r) tenant_id of
             Some shard_id \<Rightarrow> (Inr shard_id, r)
           | None \<Rightarrow>
               (case assign_shard_for_tenant tenant_id r of
                  Inl e \<Rightarrow> (Inl e, r)
                | Inr shard_id \<Rightarrow>
                    (Inr shard_id,
                     r\<lparr>sr_tenant_shard_map := hm_insert tenant_id shard_id (sr_tenant_shard_map r)\<rparr>))))"

definition route_by_hash :: "shard_key \<Rightarrow> sharding_router \<Rightarrow> shard_error + u32" where
  "route_by_hash key r =
     (case sk_user_id key of
        None \<Rightarrow> Inl (Anyhow ''User ID required for hash-based sharding'')
      | Some user_id \<Rightarrow> ring_choice (sr_hash_ring r) (hash_key user_id))"

text \<open>\<^verbatim>\<open>(timestamp / (30 * 24 * 60 * 60)) as u32\<close>: the division truncates, the cast keeps 32 bits.\<close>

definition month_of :: "u64 \<Rightarrow> u32" where
  "month_of t = word_of_int (sgn (sint t) * (\<bar>sint t\<bar> div (30 * 24 * 60 * 60)))"

definition route_by_range :: "shard_key \<Rightarrow> sharding_router \<Rightarrow> shard_error + u32" where
  "route_by_range key r =
     (case sk_timestamp key of
        None \<Rightarrow> Inl (Anyhow ''Timestamp required for range-based sharding'')
      | Some timestamp \<Rightarrow>
          (let active = active_shards (sr_config r); shard_count = of_nat (length active) in
           if shard_count = 0
           then Inl (ShardPanic ''attempt to calculate the remainder with a divisor of zero'')
           else Inr (sc_id (active ! unat (month_of timestamp mod shard_count)))))"

definition route_to :: "shard_key \<Rightarrow> bool \<Rightarrow> sharding_router \<Rightarrow> (shard_error + route_result) \<times> sharding_router" where
  "route_to key is_read r =
     (let (target, r') =
        (case sg_strategy (sr_config r) of
           TenantBased \<Rightarrow> route_by_tenant key r
         | HashBased \<Rightarrow> (route_by_hash key r, r)
         | RangeBased \<Rightarrow> (route_by_range key r, r))
      in case target of
           Inl e \<Rightarrow> (Inl e, r')
         | Inr shard_id \<Rightarrow>
             (case get_shard shard_id (sr_config r) of
                None \<Rightarrow> (Inl (Anyhow (''Shard '' @ dec_string (unat shard_id) @ '' not found'')), r')
              | Some shard \<Rightarrow>
                  if \<not> sc_active shard
                  then (Inl (Anyhow (''Shard '' @ dec_string (unat shard_id) @ '' is not active'')), r')
                  else (Inr \<lparr>rr_shard_id = shard_id, rr_shard = shard, rr_use_replica = is_read\<rparr>, r')))"

definition assign_tenant_shard :: "string \<Rightarrow> u32 \<Rightarrow> sharding_router \<Rightarrow> (shard_error + unit) \<times> sharding_router" where
  "assign_tenant_shard tenant_id shard_id r =
     (if get_shard shard_id (sr_config r) = None
      then (Inl (Anyhow (''Shard '' @ dec_string (unat shard_id) @ '' does not exist'')), r)
      else (Inr (), r\<lparr>sr_tenant_shard_map := hm_insert tenant_id shard_id (sr_tenant_shard_map r)\<rparr>))"

definition remove_tenant_assignment :: "string \<Rightarrow> sharding_router \<Rightarrow> sharding_router" where
  "remove_tenant_assignment tenant_id r =
     r\<lparr>sr_tenant_shard_map := hm_remove tenant_id (sr_tenant_shard_map r)\<rparr>"

definition get_tenant_assignments :: "sharding_router \<Rightarrow> (string, u32) hmap" where
  "get_tenant_assignments r = sr_tenant_shard_map r"

definition rebuild_hash_ring :: "sharding_router \<Rightarrow> sharding_router" where
  "rebuild_hash_ring r = r\<lparr>sr_hash_ring := build_hash_ring (sr_config r)\<rparr>"

subsection \<open>The invariant\<close>

inductive router_step :: "sharding_router \<Rightarrow> sharding_router \<Rightarrow> bool" where
  "router_step r (snd (route_to key is_read r))"
| "router_step r (snd (assign_tenant_shard t i r))"
| "router_step r (remove_tenant_assignment t r)"
| "router_step r (rebuild_hash_ring r)"

text \<open>The ring is the sorted list of active shards, and every assignment is to a configured shard.\<close>

definition router_inv :: "sharding_config \<Rightarrow> sharding_router \<Rightarrow> bool" where
  "router_inv c r \<longleftrightarrow> sr_config r = c \<and> sr_hash_ring r = build_hash_ring c \<and>
     (\<forall>t i. hm_get (sr_tenant_shard_map r) t = Some i \<longrightarrow> i \<in> set (map sc_id (sg_shards c)))"

lemma ring_set: "set (build_hash_ring c) = sc_id ` set (active_shards c)"
  by (simp add: build_hash_ring_def)

lemma ring_choice_in:
  "ring_choice ring h = Inr i \<Longrightarrow> i \<in> set ring"
  by (auto simp: ring_choice_def find_Some_iff split: option.splits list.splits)

lemma ring_choice_total: "ring \<noteq> [] \<Longrightarrow> \<exists>i\<in>set ring. ring_choice ring h = Inr i"
  using ring_choice_in [of ring h]
  by (auto simp: ring_choice_def neq_Nil_conv split: option.splits)

lemma get_shard_known: "get_shard i c = None \<longleftrightarrow> i \<notin> set (map sc_id (sg_shards c))"
  by (auto simp: get_shard_def find_None_iff)

lemma get_shard_some: "get_shard i c = Some s \<Longrightarrow> s \<in> set (sg_shards c) \<and> sc_id s = i"
  by (auto simp: get_shard_def find_Some_iff)

lemma get_shard_distinct:
  "distinct (map sc_id (sg_shards c)) \<Longrightarrow> s \<in> set (sg_shards c) \<Longrightarrow> get_shard (sc_id s) c = Some s"
  unfolding get_shard_def by (rule find_by_key)

lemma active_subset: "set (active_shards c) \<subseteq> set (sg_shards c)"
  by (auto simp: active_shards_def)

lemma route_by_tenant_inv:
  assumes "router_inv c r"
  shows "router_inv c (snd (route_by_tenant key r))"
proof -
  have "i \<in> set (map sc_id (sg_shards c))" if "assign_shard_for_tenant t r = Inr i" for t i
    using that assms ring_choice_in [of "build_hash_ring c" "hash_key t" i] active_subset [of c]
    by (auto simp: assign_shard_for_tenant_def router_inv_def ring_set split: if_splits)
  then show ?thesis using assms
    by (auto simp: route_by_tenant_def router_inv_def hm_get_insert split: option.splits sum.splits)
qed

lemma route_to_state:
  "snd (route_to key is_read r) =
     (if sg_strategy (sr_config r) = TenantBased then snd (route_by_tenant key r) else r)"
  by (cases "sg_strategy (sr_config r)") (auto simp: route_to_def Let_def split: prod.splits sum.splits option.splits)

lemma router_step_inv: "router_step r r' \<Longrightarrow> router_inv c r \<Longrightarrow> router_inv c r'"
proof (induction rule: router_step.induct)
  case (1 r key is_read)
  then show ?case using route_by_tenant_inv by (simp add: route_to_state)
next
  case (2 r t i)
  then show ?case using get_shard_known [of i c]
    by (auto simp: assign_tenant_shard_def router_inv_def hm_get_insert)
next
  case (3 r t)
  then show ?case by (auto simp: remove_tenant_assignment_def router_inv_def hm_get_remove)
next
  case (4 r)
  then show ?case by (simp add: rebuild_hash_ring_def router_inv_def)
qed

lemma router_new_inv: "router_inv c (sharding_router_new c)"
  by (simp add: router_inv_def sharding_router_new_def)

interpretation router_steps: step_system "\<lambda>r. r = sharding_router_new c" router_step "router_inv c" for c
  by unfold_locales (auto intro: router_new_inv router_step_inv)


subsection \<open>Routing by tenant\<close>

text \<open>
  In every state a router with distinct shards, at least one of them active, can reach, a tenant
  goes to the shard it is assigned to, or else to the shard the ring gives for its hash, which is
  active; the request fails only when the assigned shard is inactive. The choice is then on record,
  other tenants keep theirs, and routing the tenant again gives the same result and changes nothing.
\<close>

theorem tenant_routing_sticky:
  assumes "router_step\<^sup>*\<^sup>* (sharding_router_new c) r" and "sg_strategy c = TenantBased"
    and "distinct (map sc_id (sg_shards c))" and "active_shards c \<noteq> []"
  shows "\<exists>i shard r'. get_shard i c = Some shard \<and>
    (case hm_get (sr_tenant_shard_map r) t of
       Some j \<Rightarrow> i = j
     | None \<Rightarrow> ring_choice (build_hash_ring c) (hash_key t) = Inr i \<and> sc_active shard) \<and>
    route_to (key_from_tenant t) b r =
      ((if sc_active shard then Inr \<lparr>rr_shard_id = i, rr_shard = shard, rr_use_replica = b\<rparr>
        else Inl (Anyhow (''Shard '' @ dec_string (unat i) @ '' is not active''))), r') \<and>
    hm_get (sr_tenant_shard_map r') = (hm_get (sr_tenant_shard_map r))(t \<mapsto> i) \<and>
    route_to (key_from_tenant t) b r' = (fst (route_to (key_from_tenant t) b r), r')"
proof -
  have inv: "router_inv c r" using router_steps.reachable_good assms(1) by blast
  then have cfg: "sr_config r = c" "sr_hash_ring r = build_hash_ring c" by (simp_all add: router_inv_def)
  let ?res = "\<lambda>i shard. if sc_active shard then Inr \<lparr>rr_shard_id = i, rr_shard = shard, rr_use_replica = b\<rparr>
        else Inl (Anyhow (''Shard '' @ dec_string (unat i) @ '' is not active''))"
  have cached: "route_to (key_from_tenant t) b r1 = (?res i shard, r1)"
    if "sr_config r1 = c" "hm_get (sr_tenant_shard_map r1) t = Some i" "get_shard i c = Some shard" for r1 i shard
    using that assms(2) by (simp add: route_to_def route_by_tenant_def key_from_tenant_def Let_def)
  show ?thesis
  proof (cases "hm_get (sr_tenant_shard_map r) t")
    case (Some i)
    then have "i \<in> set (map sc_id (sg_shards c))" using inv by (auto simp: router_inv_def)
    then obtain shard where sh: "get_shard i c = Some shard" using get_shard_known [of i c] by auto
    have "(hm_get (sr_tenant_shard_map r))(t \<mapsto> i) = hm_get (sr_tenant_shard_map r)"
      using Some by (simp add: fun_upd_idem)
    then show ?thesis using Some sh cached [OF cfg(1) Some sh] by auto
  next
    case None
    let ?r = "\<lambda>i. r\<lparr>sr_tenant_shard_map := hm_insert t i (sr_tenant_shard_map r)\<rparr>"
    have "build_hash_ring c \<noteq> []" using assms(4) ring_set [of c] by fastforce
    then obtain i where i: "i \<in> set (build_hash_ring c)" "ring_choice (build_hash_ring c) (hash_key t) = Inr i"
      using ring_choice_total by blast
    then obtain shard where s: "shard \<in> set (active_shards c)" "i = sc_id shard" by (auto simp: ring_set)
    then have sh: "get_shard i c = Some shard" "sc_active shard"
      using get_shard_distinct [OF assms(3)] active_subset [of c] by (auto simp: active_shards_def)
    have "route_to (key_from_tenant t) b r = (?res i shard, ?r i)"
      using None i(2) sh assms(2,4) cfg
      by (simp add: route_to_def route_by_tenant_def key_from_tenant_def assign_shard_for_tenant_def Let_def)
    moreover have "route_to (key_from_tenant t) b (?r i) = (?res i shard, ?r i)"
      using cached [of "?r i" i shard] cfg sh(1) by (simp add: hm_get_insert)
    moreover have "hm_get (sr_tenant_shard_map (?r i)) = (hm_get (sr_tenant_shard_map r))(t \<mapsto> i)"
      by (auto simp: hm_get_insert)
    ultimately show ?thesis using None i(2) sh by auto
  qed
qed

definition witness_shards :: sharding_config where
  "witness_shards = \<lparr>sg_strategy = TenantBased, sg_shard_count = 3,
     sg_shards = map (\<lambda>i. \<lparr>sc_id = i, sc_dsn = ''db'', sc_weight = 1, sc_active = True\<rparr>) [1, 2, 3],
     sg_replicas = []\<rparr>"

theorem tenant_routing_sticky_witness:
  "\<exists>i shard r'. get_shard i witness_shards = Some shard \<and>
     hm_get (sr_tenant_shard_map r') ''tenant-001'' = Some i \<and>
     route_to (key_from_tenant ''tenant-001'') False r' =
       (fst (route_to (key_from_tenant ''tenant-001'') False (sharding_router_new witness_shards)), r')"
proof -
  have "sg_strategy witness_shards = TenantBased" "distinct (map sc_id (sg_shards witness_shards))"
    "active_shards witness_shards \<noteq> []"
    by (simp_all add: witness_shards_def active_shards_def)
  from tenant_routing_sticky [OF rtranclp.rtrancl_refl this, of "''tenant-001''" False]
  obtain i shard r' where "get_shard i witness_shards = Some shard"
    and m: "hm_get (sr_tenant_shard_map r') =
      (hm_get (sr_tenant_shard_map (sharding_router_new witness_shards)))(''tenant-001'' \<mapsto> i)"
    and "route_to (key_from_tenant ''tenant-001'') False r' =
      (fst (route_to (key_from_tenant ''tenant-001'') False (sharding_router_new witness_shards)), r')"
    by (elim exE conjE) (rule that)
  moreover have "hm_get (sr_tenant_shard_map r') ''tenant-001'' = Some i" unfolding m by simp
  ultimately show ?thesis by blast
qed

subsection \<open>The ring prefers its first shard\<close>

lemma digit_hashes: "list_all (\<lambda>n. hash_key (dec_string n) < 2 ^ 56) [0..<10]"
  by code_simp

lemma shard_hash_digit:
  assumes "i < 10"
  shows "shard_hash i < 2 ^ 56"
proof -
  have "unat i < 10" using assms by (simp add: word_less_nat_alt)
  then show ?thesis using digit_hashes by (auto simp: shard_hash_def list_all_iff)
qed

text \<open>
  With shard ids below ten the ring is not a consistent hash: every key whose hash is at least
  two to the power of 56, which all but one key in 256 have, goes to the active shard with the least
  id, however many shards there are.
\<close>

theorem ring_first_shard:
  assumes "active_shards c \<noteq> []" and "\<forall>s\<in>set (active_shards c). sc_id s < 10" and "2 ^ 56 \<le> hash_key k"
  shows "ring_choice (build_hash_ring c) (hash_key k) = Inr (Min (sc_id ` set (active_shards c)))"
proof -
  have "\<not> hash_key k \<le> shard_hash i" if "i \<in> set (build_hash_ring c)" for i
  proof -
    have "i < 10" using that assms(2) by (auto simp: ring_set)
    then show ?thesis using shard_hash_digit [of i] assms(3) by (meson leD order_trans)
  qed
  then have "find (\<lambda>i. hash_key k \<le> shard_hash i) (build_hash_ring c) = None"
    by (simp add: find_None_iff)
  moreover obtain j js where ring: "build_hash_ring c = j # js"
    using assms(1) ring_set [of c] by (cases "build_hash_ring c") auto
  moreover have "sorted (j # js)" unfolding ring [symmetric] build_hash_ring_def by simp
  ultimately show ?thesis
    using ring_set [of c] by (auto simp: ring_choice_def ring intro!: Min_eqI [symmetric])
qed

theorem ring_first_shard_witness:
  "ring_choice (build_hash_ring witness_shards) (hash_key ''tenant-001'') = Inr 1 \<and>
   ring_choice (build_hash_ring witness_shards) (hash_key ''tenant-002'') = Inr 1 \<and>
   ring_choice (build_hash_ring witness_shards) (hash_key ''acme'') = Inr 1"
proof -
  have a: "active_shards witness_shards \<noteq> []" "\<forall>s\<in>set (active_shards witness_shards). sc_id s < 10"
    and m: "Min (sc_id ` set (active_shards witness_shards)) = 1"
    by (simp_all add: witness_shards_def active_shards_def)
  have "2 ^ 56 \<le> hash_key ''tenant-001''" "2 ^ 56 \<le> hash_key ''tenant-002''" "2 ^ 56 \<le> hash_key ''acme''"
    by code_simp+
  then show ?thesis using ring_first_shard [OF a] unfolding m by blast
qed

end
