(* ===== verification/Rbac.thy ===== *)
theory Rbac
  imports Prelude
begin

section \<open>Role-based access control (\<^verbatim>\<open>uhorse-gateway/src/auth/rbac.rs\<close>)\<close>

text \<open>
  Roles, the permissions each role has by default, and the check of an action on a resource. Names
  of the model carry the prefix \<open>rb_\<close> where another component uses the same word.
\<close>

datatype rb_role = Admin | Operator | Viewer

definition role_display :: "rb_role \<Rightarrow> string" where
  "role_display r = (case r of Admin \<Rightarrow> ''admin'' | Operator \<Rightarrow> ''operator'' | Viewer \<Rightarrow> ''viewer'')"

definition role_from_str :: "string \<Rightarrow> string + rb_role" where
  "role_from_str s =
     (let l = to_lowercase s in
      if l = ''admin'' then Inr Admin
      else if l = ''operator'' then Inr Operator
      else if l = ''viewer'' then Inr Viewer
      else Inl (''Unknown role: '' @ s))"

datatype rb_resource = RAgent | RSkill | RSession | RChannel | RSystem | RTenant

datatype rb_action = ACreate | ARead | AUpdate | ADelete | AExecute | AManage

record rb_permission =
  rp_resource :: rb_resource
  rp_actions :: "rb_action set"

definition rb_permission_new :: "rb_resource \<Rightarrow> rb_action list \<Rightarrow> rb_permission" where
  "rb_permission_new r as = \<lparr>rp_resource = r, rp_actions = set as\<rparr>"

definition permission_can :: "rb_action \<Rightarrow> rb_permission \<Rightarrow> bool" where
  "permission_can a p \<longleftrightarrow> a \<in> rp_actions p"

record user_role =
  ur_user_id :: string
  ur_role :: rb_role
  ur_tenant_id :: string
  ur_custom_permissions :: "rb_permission list"

definition user_role_new :: "string \<Rightarrow> rb_role \<Rightarrow> string \<Rightarrow> user_role" where
  "user_role_new u r t =
     \<lparr>ur_user_id = u, ur_role = r, ur_tenant_id = t, ur_custom_permissions = []\<rparr>"

type_synonym rbac_manager = "(rb_role, rb_permission list) hmap"

definition rbac_manager_new :: rbac_manager where
  "rbac_manager_new =
     [(Admin,
       [rb_permission_new RAgent [ACreate, ARead, AUpdate, ADelete, AExecute, AManage],
        rb_permission_new RSkill [ACreate, ARead, AUpdate, ADelete, AExecute],
        rb_permission_new RSession [ARead, ADelete, AManage],
        rb_permission_new RChannel [ACreate, ARead, AUpdate, ADelete, AManage],
        rb_permission_new RSystem [ARead, AManage],
        rb_permission_new RTenant [ARead, AManage]]),
      (Operator,
       [rb_permission_new RAgent [ACreate, ARead, AUpdate, AExecute],
        rb_permission_new RSkill [ACreate, ARead, AUpdate, AExecute],
        rb_permission_new RSession [ARead],
        rb_permission_new RChannel [ARead],
        rb_permission_new RSystem [ARead]]),
      (Viewer,
       [rb_permission_new RAgent [ARead],
        rb_permission_new RSkill [ARead],
        rb_permission_new RSession [ARead],
        rb_permission_new RChannel [ARead]])]"

text \<open>A loop with an early return.\<close>

fun any_permits :: "rb_permission list \<Rightarrow> rb_resource \<Rightarrow> rb_action \<Rightarrow> bool" where
  "any_permits [] res a = False"
| "any_permits (p # ps) res a =
     (if rp_resource p = res \<and> permission_can a p then True else any_permits ps res a)"

definition rbac_check_permission :: "rbac_manager \<Rightarrow> user_role \<Rightarrow> rb_resource \<Rightarrow> rb_action \<Rightarrow> bool" where
  "rbac_check_permission m u res a =
     (if (case hm_get m (ur_role u) of None \<Rightarrow> False | Some ps \<Rightarrow> any_permits ps res a) then True
      else any_permits (ur_custom_permissions u) res a)"

definition get_role_permissions :: "rbac_manager \<Rightarrow> rb_role \<Rightarrow> rb_permission list option" where
  "get_role_permissions m r = hm_get m r"

lemma any_permits_iff: "any_permits ps res a \<longleftrightarrow> (\<exists>p\<in>set ps. rp_resource p = res \<and> a \<in> rp_actions p)"
  by (induction ps) (auto simp: permission_can_def)

lemma role_roundtrip: "role_from_str (role_display r) = Inr r"
  by (cases r) (simp_all add: role_display_def role_from_str_def to_lowercase_def char_lower_def)

text \<open>The default table of a role.\<close>

definition role_allows :: "rb_role \<Rightarrow> rb_resource \<Rightarrow> rb_action \<Rightarrow> bool" where
  "role_allows r res a = any_permits (the (get_role_permissions rbac_manager_new r)) res a"

lemmas role_table = role_allows_def get_role_permissions_def rbac_manager_new_def any_permits_iff
  rb_permission_new_def

text \<open>
  An action is permitted exactly when the table of the role or a permission of the user's own
  allows it. The roles form a chain: what a viewer may do an operator may, and what an operator may do
  an administrator may; a viewer may only read; deleting and managing is for administrators. An
  administrator is not allowed everything: a session can be neither created, changed nor executed.
\<close>

theorem rbac_hierarchy:
  "(rbac_check_permission rbac_manager_new u res a \<longleftrightarrow>
      role_allows (ur_role u) res a \<or>
      (\<exists>p\<in>set (ur_custom_permissions u). rp_resource p = res \<and> a \<in> rp_actions p)) \<and>
   {x. role_allows Viewer (fst x) (snd x)} \<subset> {x. role_allows Operator (fst x) (snd x)} \<and>
   {x. role_allows Operator (fst x) (snd x)} \<subset> {x. role_allows Admin (fst x) (snd x)} \<and>
   {b. role_allows Viewer res b} \<subseteq> {ARead} \<and>
   {b. role_allows Operator res b} \<subseteq> {ACreate, ARead, AUpdate, AExecute} \<and>
   {b. role_allows Admin RSession b} = {ARead, ADelete, AManage}"
proof (intro conjI)
  have "\<exists>ps. hm_get rbac_manager_new (ur_role u) = Some ps"
    by (cases "ur_role u") (simp_all add: rbac_manager_new_def)
  then obtain ps where "hm_get rbac_manager_new (ur_role u) = Some ps" by blast
  then show "rbac_check_permission rbac_manager_new u res a \<longleftrightarrow>
      role_allows (ur_role u) res a \<or>
      (\<exists>p\<in>set (ur_custom_permissions u). rp_resource p = res \<and> a \<in> rp_actions p)"
    by (auto simp: rbac_check_permission_def role_allows_def get_role_permissions_def any_permits_iff)
  show "{x. role_allows Viewer (fst x) (snd x)} \<subset> {x. role_allows Operator (fst x) (snd x)}"
  proof (rule psubsetI)
    show "{x. role_allows Viewer (fst x) (snd x)} \<subseteq> {x. role_allows Operator (fst x) (snd x)}"
      by (auto simp: role_table)
    have "role_allows Operator RAgent ACreate" "\<not> role_allows Viewer RAgent ACreate"
      by (simp_all add: role_table)
    then show "{x. role_allows Viewer (fst x) (snd x)} \<noteq> {x. role_allows Operator (fst x) (snd x)}"
      by (metis fst_conv mem_Collect_eq snd_conv)
  qed
  show "{x. role_allows Operator (fst x) (snd x)} \<subset> {x. role_allows Admin (fst x) (snd x)}"
  proof (rule psubsetI)
    show "{x. role_allows Operator (fst x) (snd x)} \<subseteq> {x. role_allows Admin (fst x) (snd x)}"
      by (auto simp: role_table)
    have "role_allows Admin RAgent ADelete" "\<not> role_allows Operator RAgent ADelete"
      by (simp_all add: role_table)
    then show "{x. role_allows Operator (fst x) (snd x)} \<noteq> {x. role_allows Admin (fst x) (snd x)}"
      by (metis fst_conv mem_Collect_eq snd_conv)
  qed
qed (auto simp: role_table)

end
