(* ===== verification/Webhook_Retry.thy ===== *)
theory Webhook_Retry
  imports Prelude
begin

section \<open>Webhook retries (\<^verbatim>\<open>uhorse-webhook/src/retry.rs\<close>)\<close>

text \<open>
  The retry policy of the webhook client and the loop that runs an operation under it. The outcomes
  of the operation are a sequence, one per attempt. Delays are computed over the reals with the
  rounding \<open>fl\<close> of \<^verbatim>\<open>f64\<close> and the power \<open>pw\<close> of the standard library as parameters; the random number
  is drawn by \<open>rnd\<close> from the given half-open range, and drawing from an empty range panics, as the
  \<^verbatim>\<open>rand\<close> package documents. The counter of attempts stays below the 32 bit maximum of retries, so it
  is a \<open>nat\<close>.
\<close>

record retry_policy =
  wr_max_retries :: u32
  wr_initial_delay_ms :: u64
  wr_max_delay_ms :: u64
  wr_multiplier :: real
  wr_jitter :: real
  wr_retryable_status_codes :: "u16 list"

definition retry_policy_default :: retry_policy where
  "retry_policy_default =
     \<lparr>wr_max_retries = 5, wr_initial_delay_ms = 1000, wr_max_delay_ms = 60000, wr_multiplier = 2,
      wr_jitter = 1 / 10, wr_retryable_status_codes = [408, 429, 500, 502, 503, 504]\<rparr>"

definition retry_policy_new :: "u32 \<Rightarrow> retry_policy" where
  "retry_policy_new n = retry_policy_default\<lparr>wr_max_retries := n\<rparr>"

datatype retryable_error = Timeout | ConnectionError | HttpStatus u16 | OtherError string

fun retryable_error_display :: "retryable_error \<Rightarrow> string" where
  "retryable_error_display Timeout = ''Timeout''"
| "retryable_error_display ConnectionError = ''Connection error''"
| "retryable_error_display (HttpStatus code) = ''HTTP status: '' @ dec_string (unat code)"
| "retryable_error_display (OtherError m) = ''Error: '' @ m"

record retry_state =
  rs_attempts :: nat
  rs_last_error :: "string option"
  rs_delays_ms :: "u64 list"
  rs_exhausted :: bool

definition retry_state_new :: retry_state where
  "retry_state_new = \<lparr>rs_attempts = 0, rs_last_error = None, rs_delays_ms = [], rs_exhausted = False\<rparr>"

definition total_delay_ms :: "retry_state \<Rightarrow> u64" where
  "total_delay_ms s = sum_list (rs_delays_ms s)"

text \<open>The cast \<^verbatim>\<open>as u64\<close> of a float that is not negative truncates and saturates.\<close>

definition float_to_u64 :: "real \<Rightarrow> u64" where
  "float_to_u64 x = (if 2 ^ 64 \<le> x then - 1 else of_nat (nat \<lfloor>x\<rfloor>))"

definition wr_calculate_delay ::
  "(real \<Rightarrow> real) \<Rightarrow> (real \<Rightarrow> int \<Rightarrow> real) \<Rightarrow> (real \<Rightarrow> real \<Rightarrow> real) \<Rightarrow> retry_policy \<Rightarrow> nat \<Rightarrow> failure + u64" where
  "wr_calculate_delay fl pw rnd p attempt =
     (let base_delay = fl (fl (real (unat (wr_initial_delay_ms p))) * pw (wr_multiplier p) (int (attempt - 1)));
          delay = min base_delay (fl (real (unat (wr_max_delay_ms p))));
          jitter_range = fl (delay * wr_jitter p)
      in if - jitter_range < jitter_range
         then Inr (float_to_u64 (max (fl (delay + rnd (- jitter_range) jitter_range)) 0))
         else Inl (Panic ''cannot sample empty range''))"

definition should_retry :: "retry_policy \<Rightarrow> nat \<Rightarrow> retryable_error \<Rightarrow> bool" where
  "should_retry p attempt err =
     (if unat (wr_max_retries p) \<le> attempt then False
      else (case err of
              Timeout \<Rightarrow> True
            | ConnectionError \<Rightarrow> True
            | HttpStatus code \<Rightarrow> code \<in> set (wr_retryable_status_codes p)
            | OtherError _ \<Rightarrow> False))"

text \<open>
  The loop: \<open>op k\<close> is the outcome of attempt \<open>k\<close>, \<open>delay k\<close> what \<open>calculate_delay\<close> gives after it. The
  result carries the delays slept.
\<close>

datatype 't exec_result = Succeeded 't "u64 list" | GaveUp retry_state | ExecPanic failure

function execute_from ::
  "retry_policy \<Rightarrow> (nat \<Rightarrow> failure + u64) \<Rightarrow> (nat \<Rightarrow> retryable_error + 't) \<Rightarrow> nat \<Rightarrow> u64 list \<Rightarrow> 't exec_result" where
  "execute_from p delay op attempt delays =
     (let attempt = attempt + 1 in
      case op attempt of
        Inr result \<Rightarrow> Succeeded result delays
      | Inl err \<Rightarrow>
          if \<not> should_retry p attempt err
          then GaveUp \<lparr>rs_attempts = attempt, rs_last_error = Some (retryable_error_display err),
                       rs_delays_ms = delays, rs_exhausted = True\<rparr>
          else
            (case delay attempt of
               Inl e \<Rightarrow> ExecPanic e
             | Inr d \<Rightarrow> execute_from p delay op attempt (delays @ [d])))"
  by pat_completeness auto
termination
  by (relation "measure (\<lambda>(p, delay, op, attempt, delays). unat (wr_max_retries p) - attempt)")
    (auto simp: should_retry_def split: if_splits)

declare execute_from.simps [simp del]

definition execute ::
  "retry_policy \<Rightarrow> (nat \<Rightarrow> failure + u64) \<Rightarrow> (nat \<Rightarrow> retryable_error + 't) \<Rightarrow> 't exec_result" where
  "execute p delay op = execute_from p delay op 0 []"

subsection \<open>How often it tries\<close>

text \<open>An attempt is the last one when it succeeds or its error is not retried.\<close>

definition final_attempt :: "retry_policy \<Rightarrow> (nat \<Rightarrow> retryable_error + 't) \<Rightarrow> nat \<Rightarrow> bool" where
  "final_attempt p op k = (case op k of Inr _ \<Rightarrow> True | Inl err \<Rightarrow> \<not> should_retry p k err)"

lemma final_at_max: "unat (wr_max_retries p) \<le> k \<Longrightarrow> final_attempt p op k"
  by (auto simp: final_attempt_def should_retry_def split: sum.splits)

definition attempt_result ::
  "(nat \<Rightarrow> retryable_error + 't) \<Rightarrow> nat \<Rightarrow> u64 list \<Rightarrow> 't exec_result" where
  "attempt_result op k ds =
     (case op k of
        Inr r \<Rightarrow> Succeeded r ds
      | Inl err \<Rightarrow> GaveUp \<lparr>rs_attempts = k, rs_last_error = Some (retryable_error_display err),
                          rs_delays_ms = ds, rs_exhausted = True\<rparr>)"

lemma execute_from_final:
  assumes "\<forall>k. delay k = Inr (dl k)" and "k < n" and "final_attempt p op n"
    and "\<forall>j. k < j \<and> j < n \<longrightarrow> \<not> final_attempt p op j"
  shows "execute_from p delay op k ds = attempt_result op n (ds @ map dl [Suc k..<n])"
  using assms
proof (induction "n - k" arbitrary: k ds)
  case (Suc m)
  show ?case
  proof (cases "Suc k = n")
    case True
    then show ?thesis using Suc.prems(3)
      by (subst execute_from.simps) (auto simp: attempt_result_def final_attempt_def split: sum.splits)
  next
    case False
    then have lt: "Suc k < n" using Suc.prems(2) by simp
    then have "\<not> final_attempt p op (Suc k)" using Suc.prems(4) by simp
    then obtain err where err: "op (Suc k) = Inl err" "should_retry p (Suc k) err"
      by (auto simp: final_attempt_def split: sum.splits)
    have "execute_from p delay op k ds = execute_from p delay op (Suc k) (ds @ [dl (Suc k)])"
      using err Suc.prems(1) by (subst execute_from.simps) simp
    also have "\<dots> = attempt_result op n ((ds @ [dl (Suc k)]) @ map dl [Suc (Suc k)..<n])"
      using Suc.hyps(2) Suc.prems lt by (intro Suc.hyps(1)) auto
    also have "\<dots> = attempt_result op n (ds @ map dl [Suc k..<n])"
      using lt by (simp add: upt_conv_Cons)
    finally show ?thesis .
  qed
qed simp

text \<open>
  When the delays can be computed, the loop ends after the first attempt that succeeds or whose
  error is not retried, and returns its outcome; it makes at least one attempt and at most as many as
  the maximum of retries (one when that is zero), and sleeps once between two attempts.
\<close>

theorem execute_bounded:
  assumes "\<forall>k. delay k = Inr (dl k)"
  shows "\<exists>n. 1 \<le> n \<and> n \<le> max 1 (unat (wr_max_retries p)) \<and> final_attempt p op n \<and>
    (\<forall>j. 1 \<le> j \<and> j < n \<longrightarrow> \<not> final_attempt p op j) \<and>
    execute p delay op = attempt_result op n (map dl [1..<n])"
proof -
  define n where "n = (LEAST n. 1 \<le> n \<and> final_attempt p op n)"
  have ex: "1 \<le> max 1 (unat (wr_max_retries p)) \<and> final_attempt p op (max 1 (unat (wr_max_retries p)))"
    by (simp add: final_at_max)
  then have n: "1 \<le> n" "final_attempt p op n"
    unfolding n_def using LeastI [of "\<lambda>n. 1 \<le> n \<and> final_attempt p op n"] by blast+
  have le: "n \<le> max 1 (unat (wr_max_retries p))" unfolding n_def using ex by (rule Least_le)
  have least: "\<forall>j. 1 \<le> j \<and> j < n \<longrightarrow> \<not> final_attempt p op j"
    unfolding n_def using not_less_Least by blast
  have "execute_from p delay op 0 [] = attempt_result op n ([] @ map dl [Suc 0..<n])"
  proof (rule execute_from_final [OF assms _ n(2)])
    show "0 < n" using n(1) by simp
    show "\<forall>j. 0 < j \<and> j < n \<longrightarrow> \<not> final_attempt p op j" using least by (simp add: Suc_le_eq)
  qed
  then have "execute p delay op = attempt_result op n (map dl [1..<n])" by (simp add: execute_def)
  then show ?thesis using n le least by blast
qed

theorem execute_bounded_witness:
  "\<exists>n. 1 \<le> n \<and> n \<le> 3 \<and> execute (retry_policy_new 3) (\<lambda>k. Inr (of_nat k))
      (\<lambda>k. if k < 2 then Inl Timeout else Inr ''success'') =
    attempt_result (\<lambda>k. if k < 2 then Inl Timeout else Inr ''success'') n (map of_nat [1..<n]) \<and>
    final_attempt (retry_policy_new 3) (\<lambda>k. if k < 2 then Inl Timeout else Inr ''success'') n"
proof -
  let ?op = "\<lambda>k. if k < 2 then Inl Timeout else Inr ''success''"
  have "max 1 (unat (wr_max_retries (retry_policy_new 3))) = 3"
    unfolding retry_policy_new_def by simp
  moreover obtain n where "1 \<le> n" "n \<le> max 1 (unat (wr_max_retries (retry_policy_new 3)))"
    "final_attempt (retry_policy_new 3) ?op n"
    "execute (retry_policy_new 3) (\<lambda>k. Inr (of_nat k)) ?op = attempt_result ?op n (map of_nat [1..<n])"
    using execute_bounded [where delay = "\<lambda>k. Inr (of_nat k)" and dl = of_nat
        and p = "retry_policy_new 3" and op = ?op, OF allI [OF refl]]
    by (elim exE conjE) (rule that)
  ultimately show ?thesis by (intro exI [of _ n]) simp
qed

text \<open>A jitter of zero, which the documentation allows, leaves an empty range: the first retry panics.\<close>

lemma zero_jitter_panics:
  assumes "wr_jitter p = 0" and "fl 0 = 0" and "should_retry p 1 err"
  shows "execute p (wr_calculate_delay fl pw rnd p) (\<lambda>k. Inl err :: retryable_error + 't) =
    ExecPanic (Panic ''cannot sample empty range'')"
  using assms unfolding execute_def
  by (subst execute_from.simps) (simp add: wr_calculate_delay_def Let_def)

end
