(* ===== verification/Dialogue.thy ===== *)
theory Dialogue
  imports Hub Planner Reply
begin

section \<open>A turn of the conversation (\<^verbatim>\<open>uhorse-hub/src/web/mod.rs\<close>)\<close>

text \<open>
  The two handlers that drive a conversation over the Hub, the planner, the session runtime and the
  reply adapter: a user's message is planned and answered or submitted as a task
  (\<^verbatim>\<open>process_dingtalk_task_serialized\<close>), and the result of a task is fed back to the planner, which
  answers or submits the next task (\<^verbatim>\<open>reply_task_result\<close>). Both run in the session's lane, one at a
  time. Arguments of the model (\<open>flow_env\<close>): the clock at each event, fresh identifiers, the
  answers of the language model to the two attempts of a continuation, the texts summarising a
  result, and the outcome of a local skill step. What is written to the agents' memory is a log.
\<close>

subsection \<open>State and environment\<close>

datatype memory_write =
    TaskResultMemory task_id string
  | DirectReplyMemory string string string
  | SessionState string "task_id option" "string option"

record web_state =
  wb_hub :: hub
  wb_replies :: reply_runtime
  wb_calls :: "channel_call list"
  wb_memory :: "memory_write list"

datatype flow_error =
    PlanningFailed planner_error
  | NoOnlineNode
  | WorkspaceRequired "string list"
  | ContinuationWorkspaceRequired
  | TurnMissing
  | ReplyFailed reply_error
  | LocalStepFailed string
  | UnsupportedStep

record flow_env =
  fe_hub :: hub_env
  fe_inputs :: inputs
  fe_clock :: "nat \<Rightarrow> instant"
  fe_lane :: lane
  fe_turn_id :: string
  fe_tool_call_id :: string
  fe_planner :: planner_env
  fe_agent_known :: bool
  fe_answer :: "nat \<Rightarrow> string option"
  fe_override :: "command_result \<Rightarrow> string option"
  fe_summary :: "completed_task \<Rightarrow> string"
  fe_format :: "command_result \<Rightarrow> string"
  fe_result_json :: "command_result \<Rightarrow> string"
  fe_compact :: "completed_task \<Rightarrow> string"
  fe_step_debug :: "planned_turn_step \<Rightarrow> string"
  fe_error_text :: "planner_error \<Rightarrow> string"
  fe_local :: "planned_turn_step \<Rightarrow> string + string"
  fe_channel :: "reply_env option"
  fe_agent_id :: string
  fe_context :: "string option \<Rightarrow> task_context"
  fe_too_many_steps :: string

record inbound =
  ib_channel_user_id :: string
  ib_conversation_id :: string
  ib_message_id :: "string option"
  ib_conversation_type :: "string option"
  ib_sender_user_id :: "string option"
  ib_sender_staff_id :: "string option"
  ib_sender_corp_id :: "string option"
  ib_session_webhook :: "string option"
  ib_session_webhook_expired_time :: "int option"
  ib_robot_code :: "string option"

abbreviation runtime :: "web_state \<Rightarrow> session_runtime" where
  "runtime s \<equiv> hb_runtime (wb_hub s)"

definition on_runtime :: "(session_runtime \<Rightarrow> session_runtime) \<Rightarrow> web_state \<Rightarrow> web_state" where
  "on_runtime f s = s\<lparr>wb_hub := (wb_hub s)\<lparr>hb_runtime := f (runtime s)\<rparr>\<rparr>"

definition remember :: "memory_write \<Rightarrow> web_state \<Rightarrow> web_state" where
  "remember m s = s\<lparr>wb_memory := wb_memory s @ [m]\<rparr>"

definition perform :: "'a called \<Rightarrow> web_state \<Rightarrow> (flow_error + 'a) \<times> web_state" where
  "perform r s = (map_sum ReplyFailed id (fst r), s\<lparr>wb_calls := wb_calls s @ snd r\<rparr>)"

definition reply_route_from_inbound :: "inbound \<Rightarrow> ding_talk_reply_route" where
  "reply_route_from_inbound m =
     \<lparr>dr_conversation_id = ib_conversation_id m, dr_source_message_id = ib_message_id m,
      dr_conversation_type = ib_conversation_type m, dr_sender_user_id = ib_sender_user_id m,
      dr_sender_staff_id = ib_sender_staff_id m, dr_session_webhook = ib_session_webhook m,
      dr_session_webhook_expired_time = ib_session_webhook_expired_time m,
      dr_robot_code = ib_robot_code m\<rparr>"

definition nonempty :: "string option \<Rightarrow> string option" where
  "nonempty v = (case v of Some s \<Rightarrow> if s = [] then None else Some s | None \<Rightarrow> None)"

definition build_dingtalk_session_key ::
  "string \<Rightarrow> string option \<Rightarrow> string option \<Rightarrow> string option \<Rightarrow> session_key" where
  "build_dingtalk_session_key fallback_user_id sender_user_id sender_staff_id sender_corp_id =
     (let user = (case nonempty sender_user_id of
                    Some u \<Rightarrow> u
                  | None \<Rightarrow> (case nonempty sender_staff_id of Some st \<Rightarrow> st | None \<Rightarrow> fallback_user_id))
      in case nonempty sender_corp_id of
           Some team_id \<Rightarrow> session_key_with_team ''dingtalk'' user team_id
         | None \<Rightarrow> session_key_new ''dingtalk'' user)"

definition parse_dingtalk_binding_session_key :: "task_continuation_binding \<Rightarrow> session_key" where
  "parse_dingtalk_binding_session_key b =
     build_dingtalk_session_key (dr_conversation_id (tb_route b)) (dr_sender_user_id (tb_route b))
       (dr_sender_staff_id (tb_route b)) None"

subsection \<open>Replies for a task\<close>

definition build_task_result_reply_text :: "flow_env \<Rightarrow> task_result \<Rightarrow> web_state \<Rightarrow> string" where
  "build_task_result_reply_text e tr s =
     (case get_completed_task (hb_scheduler (wb_hub s)) (tr_task_id tr) of
        None \<Rightarrow> fe_format e (tr_result tr)
      | Some c \<Rightarrow> (case fe_override e (ct_result c) of Some reply \<Rightarrow> reply | None \<Rightarrow> fe_summary e c))"

definition persist_task_result_memory :: "completed_task \<Rightarrow> string \<Rightarrow> web_state \<Rightarrow> web_state" where
  "persist_task_result_memory c reply_text s =
     (if trim (case tc_intent (ct_context c) of Some t \<Rightarrow> t | None \<Rightarrow> []) = [] then s
      else remember (TaskResultMemory (ct_task_id c) reply_text) s)"

definition finalize_dingtalk_reply_handle ::
  "reply_env \<Rightarrow> task_id \<Rightarrow> ding_talk_reply_route \<Rightarrow> string \<Rightarrow> web_state \<Rightarrow> (flow_error + unit) \<times> web_state" where
  "finalize_dingtalk_reply_handle v tid rt reply_text s =
     (let (h, replies) = take_handle tid (wb_replies s)
      in perform (send_or_finalize v rt reply_text h) (s\<lparr>wb_replies := replies\<rparr>))"

definition finalize_task_result_reply ::
  "flow_env \<Rightarrow> task_id \<Rightarrow> ding_talk_reply_route \<Rightarrow> string \<Rightarrow> web_state \<Rightarrow> (flow_error + unit) \<times> web_state" where
  "finalize_task_result_reply e tid rt reply_text s =
     (case fe_channel e of
        None \<Rightarrow> (Inr (), s)
      | Some v \<Rightarrow> finalize_dingtalk_reply_handle v tid rt reply_text s)"

definition cleanup_dingtalk_reply_handle ::
  "reply_env \<Rightarrow> task_id \<Rightarrow> web_state \<Rightarrow> (flow_error + unit) \<times> web_state" where
  "cleanup_dingtalk_reply_handle v tid s =
     (let (h, replies) = take_handle tid (wb_replies s)
      in perform (cleanup_processing_handle v h) (s\<lparr>wb_replies := replies\<rparr>))"

definition reply_task_result_without_continuation ::
  "flow_env \<Rightarrow> task_result \<Rightarrow> ding_talk_reply_route \<Rightarrow> web_state \<Rightarrow> (flow_error + unit) \<times> web_state" where
  "reply_task_result_without_continuation e tr rt s =
     (let reply_text = build_task_result_reply_text e tr s;
          s' = (case get_completed_task (hb_scheduler (wb_hub s)) (tr_task_id tr) of
                  None \<Rightarrow> s | Some c \<Rightarrow> persist_task_result_memory c reply_text s)
      in finalize_task_result_reply e (tr_task_id tr) rt reply_text s')"

definition complete_continuation_with_reply ::
  "flow_env \<Rightarrow> string \<Rightarrow> task_id \<Rightarrow> ding_talk_reply_route \<Rightarrow> completed_task \<Rightarrow> string \<Rightarrow> web_state \<Rightarrow>
   (flow_error + unit) \<times> web_state" where
  "complete_continuation_with_reply e key tid rt c reply_text s =
     (case finalize_task_result_reply e tid rt reply_text (persist_task_result_memory c reply_text s) of
        (Inl err, s') \<Rightarrow> (Inl err, s')
      | (Inr _, s') \<Rightarrow>
          (Inr (), on_runtime (\<lambda>r. prune_completed_turn_transcript key 6 (complete_turn key (Some tid) r)) s'))"

definition handle_continuation_missing_completed_task ::
  "flow_env \<Rightarrow> string \<Rightarrow> task_result \<Rightarrow> ding_talk_reply_route \<Rightarrow> string \<Rightarrow> web_state \<Rightarrow>
   (flow_error + unit) \<times> web_state" where
  "handle_continuation_missing_completed_task e key tr rt reply_text s =
     (if fe_channel e = None
      then (Inr (), on_runtime (fail_turn key (Some (tr_task_id tr))) s)
      else (case finalize_task_result_reply e (tr_task_id tr) rt reply_text s of
              (Inl err, s') \<Rightarrow> (Inl err, s')
            | (Inr _, s') \<Rightarrow> (Inr (), on_runtime (complete_turn key (Some (tr_task_id tr))) s')))"

definition handle_continuation_cancelled_turn ::
  "flow_env \<Rightarrow> string \<Rightarrow> task_id \<Rightarrow> web_state \<Rightarrow> (flow_error + unit) \<times> web_state" where
  "handle_continuation_cancelled_turn e key tid s =
     (case (case fe_channel e of
              None \<Rightarrow> (Inr (), s) | Some v \<Rightarrow> cleanup_dingtalk_reply_handle v tid s) of
        (Inl err, s') \<Rightarrow> (Inl err, s')
      | (Inr _, s') \<Rightarrow> (Inr (), on_runtime (prune_completed_turn_transcript key 6) s'))"

definition handle_continuation_max_steps_exceeded ::
  "flow_env \<Rightarrow> string \<Rightarrow> task_id \<Rightarrow> ding_talk_reply_route \<Rightarrow> completed_task \<Rightarrow> web_state \<Rightarrow>
   (flow_error + unit) \<times> web_state" where
  "handle_continuation_max_steps_exceeded e key tid rt c s =
     (let reply_text = fe_summary e c
      in complete_continuation_with_reply e key tid rt c reply_text
           (on_runtime (append_transcript_event (fe_clock e 10) key AssistantFinal reply_text) s))"

subsection \<open>Planning a continuation\<close>

definition continue_task_result ::
  "flow_env \<Rightarrow> nat \<Rightarrow> completed_task \<Rightarrow> web_state \<Rightarrow> planner_error + planned_turn_step" where
  "continue_task_result e attempt c s =
     (case pe_llm (fe_planner e) of
        None \<Rightarrow> Inl LlmNotConfigured
      | Some _ \<Rightarrow>
          (case fe_answer e attempt of
             None \<Rightarrow> Inl LlmFailed
           | Some response \<Rightarrow>
               parse_next_step_response (fe_planner e) (fe_agent_known e)
                 (get_online_nodes (hb_nodes (wb_hub s))) (trim response)
                 (case tc_intent (ct_context c) of Some t \<Rightarrow> t | None \<Rightarrow> [])))"

definition retry_continuation ::
  "flow_env \<Rightarrow> string \<Rightarrow> completed_task \<Rightarrow> web_state \<Rightarrow> planned_turn_step \<times> web_state" where
  "retry_continuation e key c s =
     (let compact = fe_compact e c;
          events = (case transcript (runtime s) key of Some t \<Rightarrow> length (tx_events t) | None \<Rightarrow> 0);
          s' = on_runtime (\<lambda>r. append_transcript_event (fe_clock e 5) key TurnCompacted compact
                                 (record_compaction key compact events r)) s
      in case continue_task_result e 1 c s' of
           Inr step \<Rightarrow> (step, on_runtime (reset_planner_retry key) s')
         | Inl _ \<Rightarrow> (Finalize (fe_summary e c), s'))"

definition plan_continuation_step_with_retry ::
  "flow_env \<Rightarrow> string \<Rightarrow> completed_task \<Rightarrow> web_state \<Rightarrow> planned_turn_step \<times> web_state" where
  "plan_continuation_step_with_retry e key c s =
     (case continue_task_result e 0 c s of
        Inr step \<Rightarrow> (step, on_runtime (reset_planner_retry key) s)
      | Inl err \<Rightarrow>
          (let s1 = on_runtime (append_transcript_event (fe_clock e 4) key PlannerRetry (fe_error_text e err)) s;
               (retry_state, r) = increment_planner_retry key (runtime s1);
               s2 = on_runtime (\<lambda>_. r) s1
           in case retry_state of
                None \<Rightarrow> (Finalize (fe_summary e c), s2)
              | Some turn \<Rightarrow>
                  if tn_planner_retry_count turn \<le> tn_max_planner_retries turn
                  then retry_continuation e key c s2
                  else (Finalize (fe_summary e c), s2)))"

subsection \<open>Carrying out a step\<close>

definition required_capabilities_for :: "command \<Rightarrow> node_capabilities option" where
  "required_capabilities_for c =
     (case c of
        Browser _ \<Rightarrow> Some (node_capabilities_default\<lparr>nc_supported_commands := [BrowserType]\<rparr>)
      | _ \<Rightarrow> None)"

text \<open>
  The part both handlers share: the tool call is announced, the task submitted and bound to the
  turn.
\<close>

definition submit_tool_call ::
  "flow_env \<Rightarrow> string \<Rightarrow> (string \<Rightarrow> task_continuation_binding) \<Rightarrow> command \<Rightarrow> task_context \<Rightarrow> string \<Rightarrow>
   web_state \<Rightarrow> (flow_error + task_id) \<times> web_state" where
  "submit_tool_call e key bind_to command context hint s =
     (case begin_tool_call (fe_tool_call_id e) key ''hub_task'' (runtime s) of
        (None, r) \<Rightarrow> (Inl TurnMissing, s)
      | (Some call_id, r) \<Rightarrow>
          (let s1 = on_runtime (\<lambda>_. append_transcript_event (fe_clock e 8) key ToolCallPlanned
                                      (call_id @ '':hub_task'') r) s;
               (tid, h) = submit_task (fe_hub e) (fe_inputs e) command context Normal
                            (required_capabilities_for command) [] (Some hint) (wb_hub s1);
               s2 = s1\<lparr>wb_hub := h\<rparr>
           in (Inr tid, on_runtime (bind_task_to_turn (fe_clock e 9) tid (bind_to call_id)) s2)))"

definition execute_local_turn_step ::
  "flow_env \<Rightarrow> ding_talk_reply_route \<Rightarrow> string \<Rightarrow> string \<Rightarrow> planned_turn_step \<Rightarrow> reply_handle option \<Rightarrow>
   web_state \<Rightarrow> (flow_error + string) \<times> web_state" where
  "execute_local_turn_step e rt key user_text step h s =
     (case step of
        Finalize _ \<Rightarrow> (Inl UnsupportedStep, s)
      | SubmitTask _ _ \<Rightarrow> (Inl UnsupportedStep, s)
      | _ \<Rightarrow>
          (case fe_local e step of
             Inl err \<Rightarrow> (Inl (LocalStepFailed err), s)
           | Inr reply_text \<Rightarrow>
               (let s1 = remember (SessionState key None None)
                           (remember (DirectReplyMemory key user_text reply_text)
                             (on_runtime (\<lambda>r. complete_turn key None
                                (append_transcript_event (fe_clock e 11) key AssistantFinal reply_text r)) s))
                in case fe_channel e of
                     None \<Rightarrow> (Inr reply_text, s1)
                   | Some v \<Rightarrow>
                       (case perform (send_or_finalize v rt reply_text h) s1 of
                          (Inl err, s2) \<Rightarrow> (Inl err, s2)
                        | (Inr _, s2) \<Rightarrow> (Inr reply_text, s2)))))"

definition execute_continuation_step ::
  "flow_env \<Rightarrow> string \<Rightarrow> task_result \<Rightarrow> task_continuation_binding \<Rightarrow> completed_task \<Rightarrow> planned_turn_step \<Rightarrow>
   web_state \<Rightarrow> (flow_error + unit) \<times> web_state" where
  "execute_continuation_step e key tr b c step s =
     (case step of
        Finalize reply_text \<Rightarrow>
          complete_continuation_with_reply e key (tr_task_id tr) (tb_route b) c reply_text
            (on_runtime (append_transcript_event (fe_clock e 7) key AssistantFinal reply_text) s)
      | SubmitTask command workspace_path \<Rightarrow>
          (let roots = collect_online_workspace_roots (get_online_nodes (hb_nodes (wb_hub s)))
           in case (case workspace_path of Some w \<Rightarrow> Some w | None \<Rightarrow> resolve_default_workspace_root roots) of
                None \<Rightarrow> (Inl ContinuationWorkspaceRequired, s)
              | Some hint \<Rightarrow>
                  (case validate_planned_command (fe_planner e) command hint of
                     Inl err \<Rightarrow> (Inl (PlanningFailed err), s)
                   | Inr _ \<Rightarrow>
                       (case submit_tool_call e key (\<lambda>call_id. b\<lparr>tb_tool_call_id := call_id\<rparr>) command
                               (ct_context c) hint s of
                          (Inl err, s') \<Rightarrow> (Inl err, s')
                        | (Inr _, s') \<Rightarrow> (Inr (), s'))))
      | _ \<Rightarrow>
          (case execute_local_turn_step e (tb_route b)
                  (session_key_as_str (parse_dingtalk_binding_session_key b))
                  (case tc_intent (ct_context c) of Some t \<Rightarrow> t | None \<Rightarrow> []) step None s of
             (Inl err, s') \<Rightarrow> (Inl err, s')
           | (Inr _, s') \<Rightarrow> (Inr (), on_runtime (prune_completed_turn_transcript key 6) s')))"

subsection \<open>The result of a task\<close>

definition continue_turn ::
  "flow_env \<Rightarrow> string \<Rightarrow> task_result \<Rightarrow> task_continuation_binding \<Rightarrow> completed_task \<Rightarrow> web_state \<Rightarrow>
   (flow_error + unit) \<times> web_state" where
  "continue_turn e key tr b c s =
     (let s1 = on_runtime (\<lambda>r. append_transcript_event (fe_clock e 3) key TurnResumed
                             (''task_result:'' @ task_id_as_str (tr_task_id tr))
                             (snd (mark_turn_resuming key (Some (tr_task_id tr)) r))) s;
          (step, s2) = plan_continuation_step_with_retry e key c s1;
          s3 = on_runtime (append_transcript_event (fe_clock e 6) key AssistantStep (fe_step_debug e step)) s2;
          (turn_state, r) = increment_step_count key (runtime s3);
          s4 = on_runtime (\<lambda>_. r) s3
      in case turn_state of
           None \<Rightarrow> (Inl TurnMissing, s4)
         | Some turn \<Rightarrow>
             if tn_max_steps turn < tn_step_count turn
             then handle_continuation_max_steps_exceeded e key (tr_task_id tr) (tb_route b) c s4
             else execute_continuation_step e key tr b c step s4)"

definition continue_bound_task ::
  "flow_env \<Rightarrow> task_result \<Rightarrow> task_continuation_binding \<Rightarrow> web_state \<Rightarrow> (flow_error + unit) \<times> web_state" where
  "continue_bound_task e tr b s =
     (let key = tb_session_key b
      in case get_completed_task (hb_scheduler (wb_hub s)) (tr_task_id tr) of
           None \<Rightarrow>
             handle_continuation_missing_completed_task e key tr (tb_route b)
               (build_task_result_reply_text e tr s) s
         | Some c \<Rightarrow>
             (let s1 = on_runtime (append_transcript_event (fe_clock e 2) key ToolResultObserved
                                     (fe_result_json e (ct_result c))) s
              in if (case turn_state (runtime s1) key of
                       Some turn \<Rightarrow> tn_cancel_requested turn | None \<Rightarrow> False)
                 then handle_continuation_cancelled_turn e key (tr_task_id tr) s1
                 else continue_turn e key tr b c s1))"

definition reply_task_result ::
  "flow_env \<Rightarrow> task_result \<Rightarrow> web_state \<Rightarrow> (flow_error + unit) \<times> web_state" where
  "reply_task_result e tr s =
     (case take_task_binding (tr_task_id tr) (runtime s) of
        (Some b, r) \<Rightarrow> continue_bound_task e tr b (on_runtime (\<lambda>_. r) s)
      | (None, r) \<Rightarrow>
          (let s1 = on_runtime (\<lambda>_. r) s;
               (found, replies) = take_route (tr_task_id tr) (wb_replies s1);
               s2 = s1\<lparr>wb_replies := replies\<rparr>
           in case found of
                None \<Rightarrow> (Inr (), s2)
              | Some rt \<Rightarrow> reply_task_result_without_continuation e tr rt s2))"

subsection \<open>A user's message\<close>

fun should_send_dingtalk_immediate_ack :: "planned_turn_step \<Rightarrow> capability_flags \<Rightarrow> bool" where
  "should_send_dingtalk_immediate_ack (SubmitTask _ _) flags = False"
| "should_send_dingtalk_immediate_ack _ flags = supports_dingtalk_reply_handle flags"

definition submission_hint :: "string option \<Rightarrow> string list \<Rightarrow> flow_error + string" where
  "submission_hint workspace_path roots =
     (case (case workspace_path of Some w \<Rightarrow> Some w | None \<Rightarrow> resolve_default_workspace_root roots) of
        Some hint \<Rightarrow> Inr hint
      | None \<Rightarrow> Inl (if roots = [] then NoOnlineNode else WorkspaceRequired roots))"

definition execution_workspace ::
  "node_info list \<Rightarrow> string \<Rightarrow> node_capabilities option \<Rightarrow> string option" where
  "execution_workspace nodes hint required =
     (case find (\<lambda>n. case required of None \<Rightarrow> True | Some r \<Rightarrow> capabilities_meets (ni_capabilities n) r)
             (filter (\<lambda>n. wi_path (ni_workspace n) = hint) nodes) of
        None \<Rightarrow> None
      | Some n \<Rightarrow> wi_workspace_id (ni_workspace n))"

text \<open>After the submission: the route and the processing handle are kept for the task.\<close>

definition attach_reply ::
  "flow_env \<Rightarrow> task_id \<Rightarrow> ding_talk_reply_route \<Rightarrow> reply_handle option \<Rightarrow> web_state \<Rightarrow>
   (flow_error + unit) \<times> web_state" where
  "attach_reply e tid rt early s =
     (let s1 = s\<lparr>wb_replies := insert_route tid rt (wb_replies s)\<rparr>
      in case early of
           Some h \<Rightarrow> (Inr (), s1\<lparr>wb_replies := insert_handle tid h (wb_replies s1)\<rparr>)
         | None \<Rightarrow>
             (case fe_channel e of
                None \<Rightarrow> (Inr (), s1)
              | Some v \<Rightarrow>
                  (case perform (create_handle v rt) s1 of
                     (Inl err, s2) \<Rightarrow> (Inl err, s2)
                   | (Inr h, s2) \<Rightarrow> (Inr (), s2\<lparr>wb_replies := insert_handle tid h (wb_replies s2)\<rparr>))))"

definition submit_first_task ::
  "flow_env \<Rightarrow> string \<Rightarrow> string \<Rightarrow> ding_talk_reply_route \<Rightarrow> command \<Rightarrow> string option \<Rightarrow> reply_handle option \<Rightarrow>
   web_state \<Rightarrow> (flow_error + unit) \<times> web_state" where
  "submit_first_task e key turn_id rt command workspace_path early s =
     (let nodes = get_online_nodes (hb_nodes (wb_hub s))
      in case submission_hint workspace_path (collect_online_workspace_roots nodes) of
           Inl err \<Rightarrow> (Inl err, s)
         | Inr hint \<Rightarrow>
             (let ws = execution_workspace nodes hint (required_capabilities_for command)
              in case validate_planned_command (fe_planner e) command hint of
                   Inl err \<Rightarrow> (Inl (PlanningFailed err), s)
                 | Inr _ \<Rightarrow>
                     (case submit_tool_call e key
                             (\<lambda>call_id. \<lparr>tb_session_key = key, tb_turn_id = turn_id,
                                tb_tool_call_id = call_id, tb_agent_id = fe_agent_id e, tb_route = rt\<rparr>)
                             command (fe_context e ws) hint s of
                        (Inl err, s') \<Rightarrow> (Inl err, s')
                      | (Inr tid, s') \<Rightarrow>
                          attach_reply e tid rt early (remember (SessionState key (Some tid) ws) s'))))"

definition execute_first_step ::
  "flow_env \<Rightarrow> ding_talk_reply_route \<Rightarrow> string \<Rightarrow> string \<Rightarrow> string \<Rightarrow> string \<Rightarrow> reply_handle option \<Rightarrow>
   planned_turn_step \<Rightarrow> web_state \<Rightarrow> (flow_error + unit) \<times> web_state" where
  "execute_first_step e rt key turn_id user_text msg early step s =
     (let immediate_reply_handle =
            (case fe_channel e of
               Some v \<Rightarrow> if should_send_dingtalk_immediate_ack step (rv_flags v) then early else None
             | None \<Rightarrow> None)
      in case step of
           Finalize reply_text \<Rightarrow>
             (let s' = remember (SessionState key None None)
                         (remember (DirectReplyMemory key user_text reply_text)
                           (on_runtime (\<lambda>r. complete_turn key None
                              (append_transcript_event (fe_clock e 2) key AssistantFinal reply_text r)) s))
              in case fe_channel e of
                   None \<Rightarrow> (Inr (), s')
                 | Some v \<Rightarrow> perform (send_or_finalize v rt reply_text immediate_reply_handle) s')
         | SubmitTask command workspace_path \<Rightarrow>
             submit_first_task e key turn_id rt command workspace_path early s
         | _ \<Rightarrow>
             (case execute_local_turn_step e rt key msg step immediate_reply_handle s of
                (Inl err, s') \<Rightarrow> (Inl err, s')
              | (Inr _, s') \<Rightarrow> (Inr (), s')))"

definition process_dingtalk_task_serialized ::
  "flow_env \<Rightarrow> inbound \<Rightarrow> string \<Rightarrow> string \<Rightarrow> reply_handle option \<Rightarrow> string \<Rightarrow> web_state \<Rightarrow>
   (flow_error + unit) \<times> web_state" where
  "process_dingtalk_task_serialized e m key user_text early msg s =
     (let msg = trim msg;
          rt = reply_route_from_inbound m;
          (turn_id, r) = start_turn (fe_clock e 0) (fe_lane e) (fe_turn_id e) key user_text (runtime s);
          s1 = on_runtime (\<lambda>_. r) s
      in case plan_next_dingtalk_step (fe_planner e) (fe_agent_known e)
                (get_online_nodes (hb_nodes (wb_hub s1))) msg of
           Inl err \<Rightarrow> (Inl (PlanningFailed err), s1)
         | Inr step \<Rightarrow>
             (let s2 = on_runtime (append_transcript_event (fe_clock e 12) key AssistantStep (fe_step_debug e step)) s1;
                  (turn_state, r2) = increment_step_count key (runtime s2);
                  s3 = on_runtime (\<lambda>_. r2) s2
              in case turn_state of
                   None \<Rightarrow> (Inl TurnMissing, s3)
                 | Some turn \<Rightarrow>
                     if tn_max_steps turn < tn_step_count turn then
                       (let s4 = on_runtime (\<lambda>r. complete_turn key None
                                    (append_transcript_event (fe_clock e 2) key AssistantFinal (fe_too_many_steps e) r)) s3
                        in case fe_channel e of
                             None \<Rightarrow> (Inr (), s4)
                           | Some v \<Rightarrow> perform (adapter_send v rt (fe_too_many_steps e)) s4)
                     else execute_first_step e rt key turn_id user_text msg early step s3))"

subsection \<open>What the operations change\<close>

text \<open>The steps a turn has taken and may take.\<close>

definition step_view :: "session_runtime \<Rightarrow> string \<Rightarrow> (u32 \<times> u32) option" where
  "step_view r key = map_option (\<lambda>t. (tn_step_count t, tn_max_steps t)) (turn_state r key)"

lemma step_view_cong: "sr_turns r' = sr_turns r \<Longrightarrow> step_view r' = step_view r"
  by (auto simp: step_view_def turn_state_def)

lemma step_view_on_turn:
  assumes "\<And>t. tn_step_count (f t) = tn_step_count t \<and> tn_max_steps (f t) = tn_max_steps t"
  shows "step_view (on_turn k f r) = step_view r"
proof
  fix key
  show "step_view (on_turn k f r) key = step_view r key"
    using assms by (cases "hm_get (sr_turns r) key")
      (auto simp: step_view_def turn_state_def on_turn_def hm_get_modify)
qed

lemma step_view_append [simp]: "step_view (append_transcript_event now k kind c r) = step_view r"
  by (rule step_view_cong) (simp add: append_transcript_event_def Let_def)

lemma step_view_bindings [simp]: "step_view (r\<lparr>sr_task_bindings := b\<rparr>) = step_view r"
  by (rule step_view_cong) simp

lemma step_view_drop [simp]: "step_view (drop_binding tid r) = step_view r"
  by (simp add: drop_binding_def split: option.split)

lemma step_view_prune [simp]: "step_view (prune_completed_turn_transcript k n r) = step_view r"
  by (rule step_view_cong) (simp add: prune_completed_turn_transcript_def)

lemma step_view_settled [simp]:
  "step_view (complete_turn k tid r) = step_view r" "step_view (fail_turn k tid r) = step_view r"
  "step_view (reset_planner_retry k r) = step_view r" "step_view (record_compaction k c n r) = step_view r"
  by (simp_all add: complete_turn_def fail_turn_def reset_planner_retry_def record_compaction_def
      step_view_on_turn settle_tool_call_def)

lemma step_view_update:
  assumes "\<And>t. tn_step_count (f t) = tn_step_count t \<and> tn_max_steps (f t) = tn_max_steps t"
  shows "step_view (snd (update_turn k f r)) = step_view r"
  by (simp add: update_turn_def step_view_on_turn [OF assms] split: option.split)

lemma step_view_marks [simp]:
  "step_view (snd (mark_turn_resuming k tid r)) = step_view r"
  "step_view (snd (increment_planner_retry k r)) = step_view r"
  by (simp_all add: mark_turn_resuming_def increment_planner_retry_def step_view_update settle_tool_call_def)

lemma step_view_bind [simp]: "step_view (bind_task_to_turn now tid b r) = step_view r"
  by (simp add: bind_task_to_turn_def step_view_on_turn)

lemma step_view_take [simp]: "step_view (snd (take_task_binding tid r)) = step_view r"
  by (simp add: take_task_binding_def)

lemma step_view_begin: "step_view (snd (begin_tool_call c k n r)) = step_view r"
  by (auto simp: begin_tool_call_def step_view_def turn_state_def hm_get_insert split: option.split)

lemma step_view_count:
  "step_view (snd (increment_step_count key r)) key = map_option (\<lambda>(n, m). (n + 1, m)) (step_view r key)"
  "fst (increment_step_count key r) = turn_state (snd (increment_step_count key r)) key"
  by (auto simp: increment_step_count_def update_turn_def step_view_def turn_state_def on_turn_def
      hm_get_modify split: option.split)

lemma on_runtime_simps [simp]:
  "runtime (on_runtime f s) = f (runtime s)" "hb_scheduler (wb_hub (on_runtime f s)) = hb_scheduler (wb_hub s)"
  "wb_replies (on_runtime f s) = wb_replies s" "wb_calls (on_runtime f s) = wb_calls s"
  by (simp_all add: on_runtime_def)

lemma dispatch_rounds_counter:
  "ts_task_counter (snd (dispatch_rounds e rounds k nm senders s)) = ts_task_counter s"
proof (induction e rounds k nm senders s rule: dispatch_rounds.induct)
  case (1 e rounds k nm senders s)
  show ?case
    using 1 schedule_next_counter [of e "fst (rounds k)" "snd (rounds k)" nm senders s]
    by (subst dispatch_rounds.simps) (auto split: prod.split option.split)
qed

lemma submit_task_parts:
  "hb_runtime (snd (submit_task e i c ctx p caps tags hint h)) = hb_runtime h"
  "ts_task_counter (hb_scheduler (snd (submit_task e i c ctx p caps tags hint h)))
     = ts_task_counter (hb_scheduler h) + 1"
  by (simp_all add: submit_task_def dispatch_pending_tasks_def sched_submit_task_def generate_task_id_def
      Let_def split_beta dispatch_rounds_counter)

text \<open>No task is submitted, and no turn takes or gains a step.\<close>

definition quiet :: "web_state \<Rightarrow> web_state \<Rightarrow> bool" where
  "quiet s s' \<longleftrightarrow> hb_scheduler (wb_hub s') = hb_scheduler (wb_hub s) \<and> step_view (runtime s') = step_view (runtime s)"

lemma quiet_refl [simp]: "quiet s s"
  by (simp add: quiet_def)

lemma quiet_trans [trans]: "quiet s s1 \<Longrightarrow> quiet s1 s2 \<Longrightarrow> quiet s s2"
  by (simp add: quiet_def)

lemma quiet_on_runtime: "step_view (f (runtime s)) = step_view (runtime s) \<Longrightarrow> quiet s (on_runtime f s)"
  by (simp add: quiet_def)

lemma quiet_outside [simp]:
  "quiet s (remember m s)" "quiet s (snd (perform r s))" "quiet s (s\<lparr>wb_replies := x\<rparr>)"
  "quiet s (persist_task_result_memory c msg s)"
  by (simp_all add: quiet_def remember_def perform_def persist_task_result_memory_def)

lemma quiet_finalize: "finalize_task_result_reply e tid rt msg s = (res, s') \<Longrightarrow> quiet s s'"
  by (auto simp: finalize_task_result_reply_def finalize_dingtalk_reply_handle_def quiet_def perform_def
      Let_def split: option.splits prod.splits)

lemma quiet_complete:
  assumes "complete_continuation_with_reply e key tid rt c msg s = (res, s')"
  shows "quiet s s'"
proof -
  obtain res1 s1 where f:
    "finalize_task_result_reply e tid rt msg (persist_task_result_memory c msg s) = (res1, s1)" by fastforce
  have "quiet s s1" using quiet_finalize [OF f] quiet_outside(4) quiet_trans by blast
  moreover have "quiet s1 s'"
    using assms f by (cases res1) (auto simp: complete_continuation_with_reply_def intro: quiet_on_runtime)
  ultimately show ?thesis by (rule quiet_trans)
qed

lemma quiet_local:
  assumes "execute_local_turn_step e rt key msg step h s = (res, s')"
  shows "quiet s s'"
  using assms
  by (auto simp: execute_local_turn_step_def quiet_def perform_def remember_def Let_def
      split: planned_turn_step.splits sum.splits option.splits)

lemma planner_retry_view: "increment_planner_retry k r = (x, r') \<Longrightarrow> step_view r' = step_view r"
  using step_view_marks(2) [of k r] by simp

lemma quiet_plan:
  assumes "plan_continuation_step_with_retry e key c s = (step, s')"
  shows "quiet s s'"
  using assms
  by (auto simp: plan_continuation_step_with_retry_def retry_continuation_def quiet_def Let_def
      split: sum.splits option.splits prod.splits if_splits dest!: planner_retry_view)

lemma quiet_missing:
  assumes "handle_continuation_missing_completed_task e key tr rt msg s = (res, s')"
  shows "quiet s s'"
proof (cases "fe_channel e = None")
  case False
  obtain res1 s1 where f: "finalize_task_result_reply e (tr_task_id tr) rt msg s = (res1, s1)" by fastforce
  have "quiet s1 s'"
    using assms f False
    by (cases res1) (auto simp: handle_continuation_missing_completed_task_def intro: quiet_on_runtime)
  with quiet_finalize [OF f] show ?thesis by (rule quiet_trans)
qed (use assms in \<open>auto simp: handle_continuation_missing_completed_task_def intro: quiet_on_runtime\<close>)

lemma quiet_cancelled:
  "handle_continuation_cancelled_turn e key tid s = (res, s') \<Longrightarrow> quiet s s'"
  by (auto simp: handle_continuation_cancelled_turn_def cleanup_dingtalk_reply_handle_def quiet_def perform_def
      Let_def split: option.splits prod.splits sum.splits)

lemma quiet_max_steps:
  assumes "handle_continuation_max_steps_exceeded e key tid rt c s = (res, s')"
  shows "quiet s s'"
proof -
  have "quiet s (on_runtime (append_transcript_event (fe_clock e 10) key AssistantFinal (fe_summary e c)) s)"
    by (rule quiet_on_runtime) simp
  then show ?thesis
    using assms quiet_complete quiet_trans unfolding handle_continuation_max_steps_exceeded_def Let_def by blast
qed

lemma quiet_without_continuation:
  assumes "reply_task_result_without_continuation e tr rt s = (res, s')"
  shows "quiet s s'"
  using assms quiet_finalize quiet_trans [OF quiet_outside(4)]
  by (fastforce simp: reply_task_result_without_continuation_def Let_def split: option.splits)

subsection \<open>A submission takes a step\<close>

text \<open>
  \<open>submits e s s'\<close>: between the two states one task was submitted, with a command that passed the
  validation against the workspace it is submitted for, and nothing else reached the scheduler.
\<close>

definition submits :: "flow_env \<Rightarrow> web_state \<Rightarrow> web_state \<Rightarrow> bool" where
  "submits e s s' \<longleftrightarrow>
     (\<exists>c hint ctx h. validate_planned_command (fe_planner e) c hint = Inr ()
        \<and> hb_scheduler h = hb_scheduler (wb_hub s)
        \<and> hb_scheduler (wb_hub s') =
            hb_scheduler (snd (submit_task (fe_hub e) (fe_inputs e) c ctx Normal
              (required_capabilities_for c) [] (Some hint) h)))"

lemma submits_counter:
  "submits e s s' \<Longrightarrow> ts_task_counter (hb_scheduler (wb_hub s')) = ts_task_counter (hb_scheduler (wb_hub s)) + 1"
  by (auto simp: submits_def submit_task_parts)

lemma submits_quiet: "quiet s s1 \<Longrightarrow> submits e s1 s2 \<Longrightarrow> submits e s s2"
  by (simp add: submits_def quiet_def)

lemma submit_tool_call_effect:
  assumes "submit_tool_call e key f c ctx hint s = (res, s')"
    and "validate_planned_command (fe_planner e) c hint = Inr ()"
  shows "step_view (runtime s') = step_view (runtime s)
         \<and> (case res of Inl _ \<Rightarrow> s' = s | Inr _ \<Rightarrow> submits e s s')"
proof (cases "begin_tool_call (fe_tool_call_id e) key ''hub_task'' (runtime s)")
  case (Pair call r)
  have view: "step_view r = step_view (runtime s)"
    using step_view_begin [of "fe_tool_call_id e" key "''hub_task''" "runtime s"] by (simp add: Pair)
  show ?thesis
  proof (cases call)
    case None
    then show ?thesis using assms(1) by (auto simp: submit_tool_call_def Pair)
  next
    case (Some call_id)
    define s1 where "s1 = on_runtime (\<lambda>_. append_transcript_event (fe_clock e 8) key ToolCallPlanned
      (call_id @ '':hub_task'') r) s"
    obtain tid h where h: "submit_task (fe_hub e) (fe_inputs e) c ctx Normal (required_capabilities_for c)
        [] (Some hint) (wb_hub s1) = (tid, h)" by fastforce
    then have run: "hb_runtime h = runtime s1"
      using submit_task_parts(1) [of "fe_hub e" "fe_inputs e" c ctx Normal "required_capabilities_for c" "[]"
          "Some hint" "wb_hub s1"] by simp
    have res: "res = Inr tid" and s': "s' = on_runtime (bind_task_to_turn (fe_clock e 9) tid (f call_id))
        (s1\<lparr>wb_hub := h\<rparr>)"
      using assms(1) h by (simp_all add: submit_tool_call_def Pair Some s1_def Let_def)
    have "submits e s s'"
      unfolding submits_def
      using assms(2) h by (intro exI [of _ c] exI [of _ hint] exI [of _ ctx] exI [of _ "wb_hub s1"])
        (simp add: s' s1_def)
    then show ?thesis by (simp add: res s' run s1_def view)
  qed
qed

lemma quiet_continuation_local:
  assumes "execute_continuation_step e key tr b c step s = (res, s')"
    and "\<forall>msg. step \<noteq> Finalize msg" and "\<forall>cmd ws. step \<noteq> SubmitTask cmd ws"
  shows "quiet s s'"
proof -
  obtain r1 s1 where l: "execute_local_turn_step e (tb_route b)
      (session_key_as_str (parse_dingtalk_binding_session_key b))
      (case tc_intent (ct_context c) of Some t \<Rightarrow> t | None \<Rightarrow> []) step None s = (r1, s1)" by fastforce
  have "s' = s1 \<or> s' = on_runtime (prune_completed_turn_transcript key 6) s1"
    using assms l by (cases step; cases r1) (auto simp: execute_continuation_step_def)
  moreover have "quiet s1 (on_runtime (prune_completed_turn_transcript key 6) s1)"
    by (rule quiet_on_runtime) simp
  ultimately show ?thesis using quiet_local [OF l] quiet_trans by blast
qed

lemma continuation_step_cases:
  assumes "execute_continuation_step e key tr b c step s = (res, s')"
  shows "quiet s s' \<or> submits e s s' \<and> step_view (runtime s') = step_view (runtime s)"
proof -
  consider (finalize) msg where "step = Finalize msg" | (submit) cmd ws where "step = SubmitTask cmd ws"
    | (skill) "\<forall>msg. step \<noteq> Finalize msg" "\<forall>cmd ws. step \<noteq> SubmitTask cmd ws" by blast
  then show ?thesis
  proof cases
    case finalize
    have "quiet s (on_runtime (append_transcript_event (fe_clock e 7) key AssistantFinal msg) s)"
      by (rule quiet_on_runtime) simp
    then show ?thesis
      using assms quiet_complete quiet_trans unfolding execute_continuation_step_def finalize by fastforce
  next
    case submit
    then show ?thesis
      using assms submit_tool_call_effect [of e key "\<lambda>call_id. b\<lparr>tb_tool_call_id := call_id\<rparr>" cmd "ct_context c"]
      by (fastforce simp: execute_continuation_step_def Let_def split: option.splits sum.splits prod.splits)
  next
    case skill
    then show ?thesis using quiet_continuation_local [OF assms] by blast
  qed
qed

lemma continue_turn_cases:
  assumes "continue_turn e key tr b c s = (res, s')"
  shows "(ts_task_counter (hb_scheduler (wb_hub s')) = ts_task_counter (hb_scheduler (wb_hub s))
          \<or> submits e s s' \<and> (\<exists>n m. step_view (runtime s) key = Some (n, m) \<and> n + 1 \<le> m))
         \<and> step_view (runtime s') key = map_option (\<lambda>(n, m). (n + 1, m)) (step_view (runtime s) key)"
proof -
  define s1 where "s1 = on_runtime (\<lambda>r. append_transcript_event (fe_clock e 3) key TurnResumed
      (''task_result:'' @ task_id_as_str (tr_task_id tr)) (snd (mark_turn_resuming key (Some (tr_task_id tr)) r))) s"
  obtain step s2 where p: "plan_continuation_step_with_retry e key c s1 = (step, s2)" by fastforce
  define s3 where "s3 = on_runtime (append_transcript_event (fe_clock e 6) key AssistantStep (fe_step_debug e step)) s2"
  obtain turn r where i: "increment_step_count key (runtime s3) = (turn, r)" by fastforce
  define s4 where "s4 = on_runtime (\<lambda>_. r) s3"
  have "quiet s s1" unfolding s1_def by (rule quiet_on_runtime) simp
  also have "quiet s1 s2" by (rule quiet_plan [OF p])
  also have "quiet s2 s3" unfolding s3_def by (rule quiet_on_runtime) simp
  finally have q: "quiet s s3" .
  then have view: "step_view (runtime s4) key = map_option (\<lambda>(n, m). (n + 1, m)) (step_view (runtime s) key)"
    and sched: "hb_scheduler (wb_hub s4) = hb_scheduler (wb_hub s)"
    and turn: "turn = turn_state (runtime s4) key"
    using step_view_count [of key "runtime s3"] i by (simp_all add: quiet_def s4_def)
  have res: "(res, s') = (case turn of
      None \<Rightarrow> (Inl TurnMissing, s4)
    | Some t \<Rightarrow>
        if tn_max_steps t < tn_step_count t
        then handle_continuation_max_steps_exceeded e key (tr_task_id tr) (tb_route b) c s4
        else execute_continuation_step e key tr b c step s4)"
    using assms unfolding continue_turn_def s1_def [symmetric] Let_def p prod.case s3_def [symmetric] i
      s4_def [symmetric] by simp
  show ?thesis
  proof (cases "turn = None \<or> (\<exists>t. turn = Some t \<and> tn_max_steps t < tn_step_count t)")
    case True
    then have "quiet s4 s'" using res quiet_max_steps [OF sym] by (auto split: if_splits)
    then show ?thesis using view sched by (simp add: quiet_def)
  next
    case False
    then obtain t where t: "turn = Some t" "tn_step_count t \<le> tn_max_steps t"
      by (cases turn) (auto simp: not_less)
    then have b: "\<exists>n m. step_view (runtime s) key = Some (n, m) \<and> n + 1 \<le> m"
      using view turn by (cases "turn_state (runtime s) key") (auto simp: step_view_def)
    have "execute_continuation_step e key tr b c step s4 = (res, s')" using res t by (simp split: if_splits)
    then show ?thesis
      using continuation_step_cases b view sched by (fastforce simp: quiet_def submits_def)
  qed
qed

lemma reply_cases:
  assumes "reply_task_result e tr s = (res, s')"
  shows "step_view (runtime s') = step_view (runtime s)
           \<and> ts_task_counter (hb_scheduler (wb_hub s')) = ts_task_counter (hb_scheduler (wb_hub s))
         \<or> (\<exists>b. task_binding (runtime s) (tr_task_id tr) = Some b
              \<and> (ts_task_counter (hb_scheduler (wb_hub s')) = ts_task_counter (hb_scheduler (wb_hub s))
                 \<or> submits e s s' \<and> (\<exists>n m. step_view (runtime s) (tb_session_key b) = Some (n, m) \<and> n + 1 \<le> m))
              \<and> step_view (runtime s') (tb_session_key b)
                  = map_option (\<lambda>(n, m). (n + 1, m)) (step_view (runtime s) (tb_session_key b)))"
proof (cases "hm_get (sr_task_bindings (runtime s)) (tr_task_id tr)")
  case None
  define s1 where "s1 = (on_runtime (\<lambda>_. snd (take_task_binding (tr_task_id tr) (runtime s))) s)
    \<lparr>wb_replies := snd (take_route (tr_task_id tr) (wb_replies s))\<rparr>"
  have "quiet s s1" by (simp add: quiet_def s1_def)
  moreover have "quiet s1 s'"
    using assms None quiet_without_continuation
    by (auto simp: reply_task_result_def take_task_binding_def take_route_def s1_def Let_def split: option.splits)
  ultimately have "quiet s s'" by (rule quiet_trans)
  then show ?thesis by (simp add: quiet_def)
next
  case (Some b)
  define s1 where "s1 = on_runtime (\<lambda>_. snd (take_task_binding (tr_task_id tr) (runtime s))) s"
  have q1: "quiet s s1" by (simp add: quiet_def s1_def)
  have cont: "continue_bound_task e tr b s1 = (res, s')"
    using assms Some by (simp add: reply_task_result_def take_task_binding_def s1_def)
  show ?thesis
  proof (cases "get_completed_task (hb_scheduler (wb_hub s1)) (tr_task_id tr)")
    case None
    then have "quiet s1 s'" using cont quiet_missing by (simp add: continue_bound_task_def)
    then show ?thesis using quiet_trans [OF q1] by (simp add: quiet_def)
  next
    case (Some c)
    define s2 where "s2 = on_runtime (append_transcript_event (fe_clock e 2) (tb_session_key b) ToolResultObserved
      (fe_result_json e (ct_result c))) s1"
    have q2: "quiet s s2" using q1 by (simp add: quiet_def s2_def)
    have "quiet s2 s' \<or> continue_turn e (tb_session_key b) tr b c s2 = (res, s')"
      using cont Some quiet_cancelled
      by (auto simp: continue_bound_task_def s2_def Let_def split: if_splits)
    then show ?thesis
    proof
      assume "quiet s2 s'"
      then show ?thesis using quiet_trans [OF q2] by (simp add: quiet_def)
    next
      assume "continue_turn e (tb_session_key b) tr b c s2 = (res, s')"
      from continue_turn_cases [OF this] show ?thesis
        using q2 \<open>hm_get _ _ = Some b\<close> submits_quiet [OF q2] by (auto simp: quiet_def task_binding_def)
    qed
  qed
qed

subsection \<open>A message starts at most four tasks\<close>

lemma step_view_start: "step_view (snd (start_turn now fresh tid key msg r)) key = Some (0, 4)"
  by (simp add: start_turn_def step_view_def turn_state_def turn_new_def Let_def hm_get_insert)

lemma attach_reply_quiet: "attach_reply e tid rt early s = (res, s') \<Longrightarrow> quiet s s'"
  by (auto simp: attach_reply_def quiet_def perform_def Let_def split: option.splits sum.splits prod.splits)

lemma submit_first_cases:
  assumes "submit_first_task e key turn_id rt cmd ws early s = (res, s')"
  shows "step_view (runtime s') = step_view (runtime s) \<and> (quiet s s' \<or> submits e s s')"
proof -
  consider "s' = s" | hint f ctx res1 s1 where "validate_planned_command (fe_planner e) cmd hint = Inr ()"
      "submit_tool_call e key f cmd ctx hint s = (res1, s1)" "case res1 of Inl _ \<Rightarrow> s' = s1
        | Inr tid \<Rightarrow> \<exists>w. attach_reply e tid rt early (remember w s1) = (res, s')"
    using assms
    by (fastforce simp: submit_first_task_def Let_def split: sum.splits prod.splits)
  then show ?thesis
  proof cases
    case 2
    have v: "step_view (runtime s1) = step_view (runtime s)"
        "case res1 of Inl _ \<Rightarrow> s1 = s | Inr _ \<Rightarrow> submits e s s1"
      using submit_tool_call_effect [OF 2 (2, 1)] by simp_all
    show ?thesis
    proof (cases res1)
      case (Inl err)
      then show ?thesis using 2 (3) v by simp
    next
      case (Inr tid)
      then have "quiet s1 s'"
        using 2 (3) attach_reply_quiet quiet_trans [OF quiet_outside(1)] by fastforce
      then show ?thesis using v Inr by (auto simp: quiet_def submits_def)
    qed
  qed simp
qed

lemma first_step_cases:
  assumes "execute_first_step e rt key turn_id user_text msg early step s = (res, s')"
  shows "step_view (runtime s') = step_view (runtime s) \<and> (quiet s s' \<or> submits e s s')"
proof -
  consider (finalize) rep where "step = Finalize rep" | (submit) cmd ws where "step = SubmitTask cmd ws"
    | (skill) "\<forall>rep. step \<noteq> Finalize rep" "\<forall>cmd ws. step \<noteq> SubmitTask cmd ws" by blast
  then show ?thesis
  proof cases
    case finalize
    then have "quiet s s'"
      using assms
      by (auto simp: execute_first_step_def Let_def quiet_def perform_def remember_def split: option.splits)
    then show ?thesis by (simp add: quiet_def)
  next
    case submit
    then show ?thesis using assms submit_first_cases by (simp add: execute_first_step_def)
  next
    case skill
    then obtain h r1 where "execute_local_turn_step e rt key msg step h s = (r1, s')"
      using assms by (cases step) (auto simp: execute_first_step_def Let_def split: sum.splits prod.splits)
    then show ?thesis using quiet_local by (auto simp: quiet_def)
  qed
qed

lemma first_message_cases:
  assumes "process_dingtalk_task_serialized e m key user_text early msg s = (res, s')"
  shows "\<exists>k. step_view (runtime s') key = Some (k, 4) \<and> k \<in> {0, 1}
           \<and> (ts_task_counter (hb_scheduler (wb_hub s')) = ts_task_counter (hb_scheduler (wb_hub s))
              \<or> k = 1 \<and> submits e s s')"
proof -
  define rt where "rt = reply_route_from_inbound m"
  obtain turn_id r where st: "start_turn (fe_clock e 0) (fe_lane e) (fe_turn_id e) key user_text (runtime s)
      = (turn_id, r)" by fastforce
  define s1 where "s1 = on_runtime (\<lambda>_. r) s"
  have view1: "step_view (runtime s1) key = Some (0, 4)"
    using step_view_start [of "fe_clock e 0" "fe_lane e" "fe_turn_id e" key user_text "runtime s"] st
    by (simp add: s1_def)
  have sched1: "hb_scheduler (wb_hub s1) = hb_scheduler (wb_hub s)" by (simp add: s1_def)
  show ?thesis
  proof (cases "plan_next_dingtalk_step (fe_planner e) (fe_agent_known e)
      (get_online_nodes (hb_nodes (wb_hub s1))) (trim msg)")
    case (Inl err)
    then have "s' = s1" using assms st by (simp add: process_dingtalk_task_serialized_def Let_def s1_def)
    then show ?thesis using view1 sched1 by simp
  next
    case (Inr step)
    define s2 where "s2 = on_runtime (append_transcript_event (fe_clock e 12) key AssistantStep (fe_step_debug e step)) s1"
    obtain turn r2 where inc: "increment_step_count key (runtime s2) = (turn, r2)" by fastforce
    define s3 where "s3 = on_runtime (\<lambda>_. r2) s2"
    have view3: "step_view (runtime s3) key = Some (1, 4)" and turn: "turn = turn_state (runtime s3) key"
      using step_view_count [of key "runtime s2"] inc view1 by (simp_all add: s3_def s2_def)
    have sched3: "hb_scheduler (wb_hub s3) = hb_scheduler (wb_hub s)" by (simp add: s3_def s2_def sched1)
    obtain t where t: "turn = Some t" "tn_step_count t = 1" "tn_max_steps t = 4"
      using view3 turn by (auto simp: step_view_def)
    have "execute_first_step e rt key turn_id user_text (trim msg) early step s3 = (res, s')"
      using assms unfolding process_dingtalk_task_serialized_def Let_def st prod.case s1_def [symmetric] Inr
        sum.case s2_def [symmetric] inc s3_def [symmetric] t(1) option.case rt_def [symmetric]
      by (simp add: t)
    from first_step_cases [OF this] show ?thesis using view3 sched3 by (auto simp: quiet_def submits_def)
  qed
qed

text \<open>
  What follows a message in its session: results of its tasks (the counts are of submitted tasks
  and of results), and anything else that takes no step of the session's turn.
\<close>

inductive conversation :: "string \<Rightarrow> web_state \<Rightarrow> nat \<Rightarrow> nat \<Rightarrow> web_state \<Rightarrow> bool" for key s where
  start: "conversation key s 0 0 s"
| result: "conversation key s n r s1 \<Longrightarrow> task_binding (runtime s1) (tr_task_id tr) = Some b \<Longrightarrow>
    tb_session_key b = key \<Longrightarrow> reply_task_result e tr s1 = (res, s2) \<Longrightarrow>
    conversation key s
      (if ts_task_counter (hb_scheduler (wb_hub s2)) = ts_task_counter (hb_scheduler (wb_hub s1)) then n else n + 1)
      (r + 1) s2"
| other: "conversation key s n r s1 \<Longrightarrow> step_view (runtime s2) key = step_view (runtime s1) key \<Longrightarrow>
    conversation key s n r s2"

lemma conversation_bounded:
  assumes "conversation key s n r s'" and "step_view (runtime s) key = Some (k, m)" and "unat k + r < 2 ^ 32"
  shows "\<exists>k'. step_view (runtime s') key = Some (k', m) \<and> unat k + n \<le> unat k' \<and> unat k' \<le> unat k + r
           \<and> (n = 0 \<or> unat k + n \<le> unat m)"
  using assms
proof (induction rule: conversation.induct)
  case (result n r s1 tr b e res s2)
  then obtain k' where k': "step_view (runtime s1) key = Some (k', m)" "unat k + n \<le> unat k'"
      "unat k' \<le> unat k + r" "n = 0 \<or> unat k + n \<le> unat m" by auto
  have suc: "unat (k' + 1) = unat k' + 1"
    using k'(3) result.prems(2) by (subst unat_add_lem [THEN iffD1]) auto
  from reply_cases [OF result.hyps(4)] show ?case
  proof
    assume "step_view (runtime s2) = step_view (runtime s1) \<and>
      ts_task_counter (hb_scheduler (wb_hub s2)) = ts_task_counter (hb_scheduler (wb_hub s1))"
    then show ?thesis using k' by auto
  next
    assume "\<exists>b. task_binding (runtime s1) (tr_task_id tr) = Some b
        \<and> (ts_task_counter (hb_scheduler (wb_hub s2)) = ts_task_counter (hb_scheduler (wb_hub s1))
           \<or> submits e s1 s2 \<and> (\<exists>n m. step_view (runtime s1) (tb_session_key b) = Some (n, m) \<and> n + 1 \<le> m))
        \<and> step_view (runtime s2) (tb_session_key b)
            = map_option (\<lambda>(n, m). (n + 1, m)) (step_view (runtime s1) (tb_session_key b))"
    then have v: "step_view (runtime s2) key = Some (k' + 1, m)"
      and c: "ts_task_counter (hb_scheduler (wb_hub s2)) = ts_task_counter (hb_scheduler (wb_hub s1)) \<or> k' + 1 \<le> m"
      using result.hyps(2, 3) k'(1) by auto
    have "k' + 1 \<le> m \<Longrightarrow> unat k' + 1 \<le> unat m" using suc by (simp add: word_le_nat_alt)
    then show ?thesis using v c k' suc by auto
  qed
qed auto

text \<open>
  C22: a message of a user leads to at most four submitted tasks, the first one included, however
  the language model answers: every submission takes one of the turn's four steps, and the answer
  to a result beyond them is given without a further task.
\<close>

theorem message_tasks_bounded:
  assumes "process_dingtalk_task_serialized e m key user_text early msg s0 = (res, s)"
    and "conversation key s n r s'" and "r < 2 ^ 32 - 1"
  shows "(if ts_task_counter (hb_scheduler (wb_hub s)) = ts_task_counter (hb_scheduler (wb_hub s0)) then 0 else 1)
           + n \<le> 4"
proof -
  obtain k where k: "step_view (runtime s) key = Some (k, 4)" "k \<in> {0, 1}"
      "ts_task_counter (hb_scheduler (wb_hub s)) = ts_task_counter (hb_scheduler (wb_hub s0)) \<or> k = 1"
    using first_message_cases [OF assms(1)] by auto
  have "unat k + r < 2 ^ 32" using k(2) assms(3) by auto
  from conversation_bounded [OF assms(2) k(1) this] have "n = 0 \<or> unat k + n \<le> 4" by auto
  then show ?thesis using k by (auto split: if_splits)
qed

text \<open>
  C17: whatever the language model answers, a task reaches the scheduler from a conversation only
  with a command that passed the validation against the workspace it is submitted for: both
  handlers submit at most one task, through the validation.
\<close>

theorem submitted_commands_validated:
  assumes "process_dingtalk_task_serialized e m key user_text early msg s = (res, s')
           \<or> reply_task_result e tr s = (res, s')"
    and "ts_task_counter (hb_scheduler (wb_hub s')) \<noteq> ts_task_counter (hb_scheduler (wb_hub s))"
  shows "submits e s s'"
  using assms first_message_cases reply_cases by blast

subsection \<open>A run\<close>

definition go_command :: command where
  "go_command = File (Info ''a'')"

definition example_flow_planner :: planner_env where
  "example_flow_planner = example_planner
     \<lparr>pe_decision_from_str := (\<lambda>_. Some (ExecuteCommand go_command (Some ''/srv/ws''))),
      pe_llm := Some (\<lambda>_. Some ''{go}'')\<rparr>"

definition example_reply_env :: reply_env where
  "example_reply_env =
     \<lparr>rv_flags = send_to_recipient_flag, rv_now_ms = 0, rv_now = 0, rv_card_template = None,
      rv_ok = (\<lambda>_. True), rv_card = ''c'',
      rv_reaction = \<lparr>rh_robot_code = [], rh_message_id = [], rh_conversation_id = [], rh_reaction_name = []\<rparr>\<rparr>"

definition example_flow :: flow_env where
  "example_flow =
     \<lparr>fe_hub = example_hub_env,
      fe_inputs = example_inputs, fe_clock = int, fe_lane = 0, fe_turn_id = ''t'', fe_tool_call_id = ''call'',
      fe_planner = example_flow_planner, fe_agent_known = True, fe_answer = (\<lambda>_. Some ''{go}''),
      fe_override = (\<lambda>_. None), fe_summary = (\<lambda>_. ''done''), fe_format = (\<lambda>_. ''r''),
      fe_result_json = (\<lambda>_. ''r''), fe_compact = (\<lambda>_. ''c''), fe_step_debug = (\<lambda>_. ''step''),
      fe_error_text = (\<lambda>_. ''err''), fe_local = (\<lambda>_. Inr ''local''), fe_channel = Some example_reply_env,
      fe_agent_id = ''main'',
      fe_context = (\<lambda>_. task_context_new 0 (UserId ''u'') (SessionId ''dingtalk:u'') ''dingtalk''),
      fe_too_many_steps = ''enough''\<rparr>"

definition example_inbound :: inbound where
  "example_inbound =
     \<lparr>ib_channel_user_id = ''u'', ib_conversation_id = ''conv'', ib_message_id = None, ib_conversation_type = None,
      ib_sender_user_id = Some ''u'', ib_sender_staff_id = None, ib_sender_corp_id = Some ''corp'',
      ib_session_webhook = None, ib_session_webhook_expired_time = None, ib_robot_code = None\<rparr>"

definition example_web :: web_state where
  "example_web = \<lparr>wb_hub = hub_new 0 hub_config_default, wb_replies = reply_runtime_default, wb_calls = [],
                  wb_memory = []\<rparr>"

definition after_message :: web_state where
  "after_message = snd (process_dingtalk_task_serialized example_flow example_inbound ''k'' ''hello'' None ''hello''
     example_web)"

text \<open>The first task has completed.\<close>

definition first_completed :: completed_task where
  "first_completed =
     \<lparr>ct_task_id = task_id_of 0, ct_command = go_command, ct_context = fe_context example_flow None,
      ct_priority = Normal, ct_node_id = NodeId ''n'', ct_started_at = 0, ct_completed_at = 1,
      ct_status = Completed, ct_result = command_success (OutText ''ok'')\<rparr>"

definition task_done :: web_state where
  "task_done = after_message\<lparr>wb_hub := (wb_hub after_message)\<lparr>hb_scheduler :=
     (hb_scheduler (wb_hub after_message))\<lparr>ts_completed_tasks := [(task_id_of 0, first_completed)]\<rparr>\<rparr>\<rparr>"

definition first_result :: task_result where
  "first_result = \<lparr>tr_task_id = task_id_of 0, tr_node_id = NodeId ''n'',
                   tr_result = command_success (OutText ''ok'')\<rparr>"

definition after_result :: web_state where
  "after_result = snd (reply_task_result example_flow first_result task_done)"

lemma example_counters:
  "ts_task_counter (hb_scheduler (wb_hub example_web)) = 0"
  "ts_task_counter (hb_scheduler (wb_hub after_message)) = 1"
  "ts_task_counter (hb_scheduler (wb_hub task_done)) = 1"
  "ts_task_counter (hb_scheduler (wb_hub after_result)) = 2"
  "map_option tb_session_key (task_binding (runtime task_done) (tr_task_id first_result)) = Some ''k''"
  by code_simp+

lemma task_done_view: "step_view (runtime task_done) key = step_view (runtime after_message) key"
  by (simp add: task_done_def)

theorem message_tasks_bounded_witness:
  "ts_task_counter (hb_scheduler (wb_hub after_result)) = ts_task_counter (hb_scheduler (wb_hub example_web)) + 2
   \<and> (if ts_task_counter (hb_scheduler (wb_hub after_message)) = ts_task_counter (hb_scheduler (wb_hub example_web))
      then 0 else 1) + 1 \<le> (4 :: nat)"
proof -
  obtain res where p: "process_dingtalk_task_serialized example_flow example_inbound ''k'' ''hello'' None ''hello''
      example_web = (res, after_message)" unfolding after_message_def by (metis prod.collapse)
  obtain res2 where q: "reply_task_result example_flow first_result task_done = (res2, after_result)"
    unfolding after_result_def by (metis prod.collapse)
  obtain b where b: "task_binding (runtime task_done) (tr_task_id first_result) = Some b" "tb_session_key b = ''k''"
    using example_counters(5) by auto
  have "conversation ''k'' after_message 0 0 task_done"
    using conversation.other [OF conversation.start task_done_view] .
  from conversation.result [OF this b q] have "conversation ''k'' after_message 1 1 after_result"
    by (simp add: example_counters)
  from message_tasks_bounded [OF p this] show ?thesis by (simp add: example_counters)
qed

theorem submitted_commands_validated_witness: "submits example_flow task_done after_result"
proof -
  obtain res where "reply_task_result example_flow first_result task_done = (res, after_result)"
    unfolding after_result_def by (metis prod.collapse)
  then show ?thesis
    using submitted_commands_validated [of example_flow _ _ _ _ _ task_done res after_result first_result]
    by (simp add: example_counters)
qed

subsection \<open>Where a continuation loses its session and its handle\<close>

text \<open>
  A continuation rebuilds the key of its session from the reply route, which has no company: for a
  sender with one the key differs from the key the turn was started under.
\<close>

lemma continuation_key_drops_team:
  assumes "tb_route b = reply_route_from_inbound m" and "nonempty (ib_sender_corp_id m) = Some team"
  shows "parse_dingtalk_binding_session_key b
         \<noteq> build_dingtalk_session_key (ib_channel_user_id m) (ib_sender_user_id m) (ib_sender_staff_id m)
             (ib_sender_corp_id m)"
proof -
  have "nonempty None = None" by (simp add: nonempty_def)
  then show ?thesis
    using assms(2) unfolding parse_dingtalk_binding_session_key_def build_dingtalk_session_key_def
    by (simp add: session_key_with_team_def session_key_new_def Let_def)
qed

text \<open>So a local step that ends a continuation leaves the turn it belongs to as it was.\<close>

lemma continuation_skill_leaves_turn:
  assumes "execute_continuation_step e key tr b c ListInstalledSkills s = (res, s')"
    and "session_key_as_str (parse_dingtalk_binding_session_key b) \<noteq> key"
  shows "turn_state (runtime s') key = turn_state (runtime s) key"
  using assms
  by (auto simp: execute_continuation_step_def execute_local_turn_step_def perform_def remember_def Let_def
      turn_state_def complete_turn_def drop_binding_def on_turn_def hm_get_modify append_transcript_event_def
      prune_completed_turn_transcript_def split: sum.splits option.splits prod.splits)

text \<open>
  The reply handle of the first task is neither finalised nor handed to the next one when a
  continuation submits a task.
\<close>

lemma continuation_submit_keeps_handles:
  "execute_continuation_step e key tr b c (SubmitTask cmd ws) s = (res, s') \<Longrightarrow>
   wb_replies s' = wb_replies s \<and> wb_calls s' = wb_calls s"
  by (auto simp: execute_continuation_step_def submit_tool_call_def Let_def
      split: sum.splits option.splits prod.splits)

end
