(* ===== verification/Discovery.thy ===== *)
theory Discovery
  imports Prelude
begin

section \<open>Service discovery (\<^verbatim>\<open>uhorse-discovery/src\<close>)\<close>

text \<open>
  Service instances (\<^verbatim>\<open>types.rs\<close>), the in-memory registry behind the discovery client
  (\<^verbatim>\<open>registry.rs\<close>), the tracker that turns single health checks into a status (\<^verbatim>\<open>health.rs\<close>) and
  the failover manager (\<^verbatim>\<open>failover.rs\<close>). The registry is shown to be a keyed store over (service,
  instance id); the failover manager is a step system with an invariant. Clock readings and
  fresh identifiers are arguments. The etcd and Consul clients and the HTTP request of a health
  check are not modelled.
\<close>

subsection \<open>Types (\<^verbatim>\<open>types.rs\<close>)\<close>

record service_metadata =
  im_version :: "string option"
  im_weight :: "u32 option"
  im_tags :: "string list"
  im_custom :: "(string, string) hmap"
  im_zone :: "string option"
  im_environment :: "string option"

definition service_metadata_default :: service_metadata where
  "service_metadata_default =
     \<lparr>im_version = None, im_weight = None, im_tags = [], im_custom = [], im_zone = None,
      im_environment = None\<rparr>"

record service_instance =
  si_id :: string
  si_name :: string
  si_address :: string
  si_port :: u16
  si_metadata :: service_metadata

definition service_instance_new :: "string \<Rightarrow> string \<Rightarrow> string \<Rightarrow> u16 \<Rightarrow> service_instance" where
  "service_instance_new sid name address port =
     \<lparr>si_id = sid, si_name = name, si_address = address, si_port = port,
      si_metadata = service_metadata_default\<rparr>"

definition endpoint_of :: "service_instance \<Rightarrow> string" where
  "endpoint_of si = si_address si @ '':'' @ dec_string (unat (si_port si))"

definition http_url :: "service_instance \<Rightarrow> string" where
  "http_url si = ''http://'' @ endpoint_of si"

definition https_url :: "service_instance \<Rightarrow> string" where
  "https_url si = ''https://'' @ endpoint_of si"

definition with_service_version :: "string \<Rightarrow> service_instance \<Rightarrow> service_instance" where
  "with_service_version v si = si\<lparr>si_metadata := (si_metadata si)\<lparr>im_version := Some v\<rparr>\<rparr>"

definition with_weight :: "u32 \<Rightarrow> service_instance \<Rightarrow> service_instance" where
  "with_weight w si = si\<lparr>si_metadata := (si_metadata si)\<lparr>im_weight := Some (max 1 (min w 100))\<rparr>\<rparr>"

definition with_zone :: "string \<Rightarrow> service_instance \<Rightarrow> service_instance" where
  "with_zone z si = si\<lparr>si_metadata := (si_metadata si)\<lparr>im_zone := Some z\<rparr>\<rparr>"

definition with_tag :: "string \<Rightarrow> service_instance \<Rightarrow> service_instance" where
  "with_tag t si = si\<lparr>si_metadata := (si_metadata si)\<lparr>im_tags := im_tags (si_metadata si) @ [t]\<rparr>\<rparr>"

definition with_custom :: "string \<Rightarrow> string \<Rightarrow> service_instance \<Rightarrow> service_instance" where
  "with_custom k v si =
     si\<lparr>si_metadata := (si_metadata si)\<lparr>im_custom := hm_insert k v (im_custom (si_metadata si))\<rparr>\<rparr>"

datatype health_status = Healthy | Unhealthy | UnknownHealth

record health_check_config =
  hk_path :: string
  hk_interval_secs :: u64
  hk_timeout_secs :: u64
  hk_failure_threshold :: u32
  hk_success_threshold :: u32
  hk_ttl_secs :: "u64 option"

definition health_check_config_default :: health_check_config where
  "health_check_config_default =
     \<lparr>hk_path = ''/health'', hk_interval_secs = 10, hk_timeout_secs = 5, hk_failure_threshold = 3,
      hk_success_threshold = 1, hk_ttl_secs = Some 30\<rparr>"

record registration_options =
  ro_ttl_secs :: u64
  ro_health_check :: "health_check_config option"
  ro_overwrite :: bool

definition registration_options_default :: registration_options where
  "registration_options_default =
     \<lparr>ro_ttl_secs = 30, ro_health_check = Some health_check_config_default, ro_overwrite = False\<rparr>"

text \<open>The errors of \<^verbatim>\<open>error.rs\<close> the modelled code returns.\<close>

datatype discovery_error = NoHealthyInstances string

subsection \<open>The in-memory registry (\<^verbatim>\<open>registry.rs\<close>)\<close>

type_synonym in_memory_registry = "(string, service_instance list) hmap"

definition discovery_registry_new :: in_memory_registry where
  "discovery_registry_new = []"

text \<open>Replace the first instance of the same id, or append.\<close>

fun put_instance :: "service_instance \<Rightarrow> service_instance list \<Rightarrow> service_instance list" where
  "put_instance si [] = [si]"
| "put_instance si (x # xs) = (if si_id x = si_id si then si # xs else x # put_instance si xs)"

definition registry_register ::
  "service_instance \<Rightarrow> registration_options \<Rightarrow> in_memory_registry \<Rightarrow> in_memory_registry" where
  "registry_register si options r =
     hm_insert (si_name si)
       (put_instance si (case hm_get r (si_name si) of Some xs \<Rightarrow> xs | None \<Rightarrow> [])) r"

definition registry_deregister :: "string \<Rightarrow> string \<Rightarrow> in_memory_registry \<Rightarrow> in_memory_registry" where
  "registry_deregister name sid r =
     (case hm_get r name of
        None \<Rightarrow> r
      | Some xs \<Rightarrow>
          (let xs' = filter (\<lambda>i. si_id i \<noteq> sid) xs
           in if xs' = [] then hm_remove name r else hm_insert name xs' r))"

definition discover :: "in_memory_registry \<Rightarrow> string \<Rightarrow> service_instance list" where
  "discover r name = (case hm_get r name of Some xs \<Rightarrow> xs | None \<Rightarrow> [])"

definition discover_instance ::
  "in_memory_registry \<Rightarrow> string \<Rightarrow> string \<Rightarrow> service_instance option" where
  "discover_instance r name sid =
     Option.bind (hm_get r name) (find (\<lambda>i. si_id i = sid))"

definition list_services :: "in_memory_registry \<Rightarrow> string list" where
  "list_services r = hm_keys r"

definition service_exists :: "in_memory_registry \<Rightarrow> string \<Rightarrow> bool" where
  "service_exists r name = hm_contains r name"

definition registry_heartbeat :: "string \<Rightarrow> string \<Rightarrow> in_memory_registry \<Rightarrow> in_memory_registry" where
  "registry_heartbeat name sid r = r"

text \<open>\<^verbatim>\<open>DiscoveryClient::register\<close> passes the default options on.\<close>

definition client_register :: "service_instance \<Rightarrow> in_memory_registry \<Rightarrow> in_memory_registry" where
  "client_register si r = registry_register si registration_options_default r"

subsection \<open>The registry is a map\<close>

text \<open>
  No service without instances, instances listed under their own service and at most one of
  each id.
\<close>

definition instances_ok :: "string \<Rightarrow> service_instance list \<Rightarrow> bool" where
  "instances_ok name xs \<longleftrightarrow>
     xs \<noteq> [] \<and> distinct (map si_id xs) \<and> (\<forall>x\<in>set xs. si_name x = name)"

definition registry_wf :: "in_memory_registry \<Rightarrow> bool" where
  "registry_wf r \<longleftrightarrow> hm_wf r \<and> (\<forall>name xs. hm_get r name = Some xs \<longrightarrow> instances_ok name xs)"

lemma registry_wf_empty [simp]: "registry_wf discovery_registry_new"
  by (simp add: registry_wf_def discovery_registry_new_def)

lemma registry_wfD: "registry_wf r \<Longrightarrow> hm_get r name = Some xs \<Longrightarrow> instances_ok name xs"
  by (simp add: registry_wf_def)

lemma put_instance_ne [simp]: "put_instance si xs \<noteq> []"
  by (cases xs) auto

lemma put_instance_ids: "set (map si_id (put_instance si xs)) = insert (si_id si) (set (map si_id xs))"
  by (induction xs) auto

lemma put_instance_distinct:
  "distinct (map si_id xs) \<Longrightarrow> distinct (map si_id (put_instance si xs))"
proof (induction xs)
  case (Cons x xs)
  then show ?case using put_instance_ids [of si xs] by auto
qed simp

lemma put_instance_set: "set (put_instance si xs) \<subseteq> insert si (set xs)"
  by (induction xs) auto

lemma find_put_instance:
  "find (\<lambda>i. si_id i = sid) (put_instance si xs) =
     (if sid = si_id si then Some si else find (\<lambda>i. si_id i = sid) xs)"
  by (induction xs) auto

lemma find_without:
  "find (\<lambda>i. si_id i = sid') (filter (\<lambda>i. si_id i \<noteq> sid) xs) =
     (if sid' = sid then None else find (\<lambda>i. si_id i = sid') xs)"
  by (induction xs) auto

lemma find_id: "distinct (map si_id xs) \<Longrightarrow> find (\<lambda>i. si_id i = si_id x) xs = Some x \<longleftrightarrow> x \<in> set xs"
  by (induction xs) (auto simp: image_iff)

lemma instances_ok_put:
  "instances_ok (si_name si) xs \<or> xs = [] \<Longrightarrow> instances_ok (si_name si) (put_instance si xs)"
  using put_instance_set [of si xs] put_instance_distinct [of xs si] by (auto simp: instances_ok_def)

lemma instances_ok_filter:
  "instances_ok name xs \<Longrightarrow> filter P xs \<noteq> [] \<Longrightarrow> instances_ok name (filter P xs)"
  by (simp add: instances_ok_def distinct_map_filter)

lemma registry_wf_insert: "registry_wf r \<Longrightarrow> instances_ok name xs \<Longrightarrow> registry_wf (hm_insert name xs r)"
  by (simp add: registry_wf_def hm_get_insert)

lemma registry_wf_remove: "registry_wf r \<Longrightarrow> registry_wf (hm_remove name r)"
  by (simp add: registry_wf_def hm_get_remove)

lemma registry_wf_register:
  assumes "registry_wf r" shows "registry_wf (registry_register si options r)"
  unfolding registry_register_def
  by (rule registry_wf_insert [OF assms], rule instances_ok_put)
    (use registry_wfD [OF assms] in \<open>cases "hm_get r (si_name si)"; simp\<close>)

lemma registry_wf_deregister:
  assumes "registry_wf r" shows "registry_wf (registry_deregister name sid r)"
proof (cases "hm_get r name")
  case (Some xs)
  then show ?thesis
    using assms instances_ok_filter [OF registry_wfD [OF assms Some], of "\<lambda>i. si_id i \<noteq> sid"]
    by (simp add: registry_deregister_def Let_def registry_wf_insert registry_wf_remove)
qed (simp add: registry_deregister_def assms)

lemma discover_instance_register:
  "discover_instance (registry_register si options r) name sid =
     (if name = si_name si \<and> sid = si_id si then Some si else discover_instance r name sid)"
  by (auto simp: discover_instance_def registry_register_def hm_get_insert find_put_instance
      split: option.splits)

lemma discover_instance_deregister:
  assumes "registry_wf r"
  shows "discover_instance (registry_deregister name sid r) name' sid' =
     (if name' = name \<and> sid' = sid then None else discover_instance r name' sid')"
proof (cases "hm_get r name")
  case (Some xs)
  have "find (\<lambda>i. si_id i = sid') xs = None"
    if "filter (\<lambda>i. si_id i \<noteq> sid) xs = []" "sid' \<noteq> sid"
    using that by (auto simp: find_None_iff filter_empty_conv)
  then show ?thesis using Some assms
    by (auto simp: discover_instance_def registry_deregister_def Let_def hm_get_insert
        hm_get_remove find_without)
qed (auto simp: discover_instance_def registry_deregister_def)

text \<open>
  The registry as a keyed store: the keys are pairs of a service and an instance id, the values
  the rest of an instance.
\<close>

type_synonym instance_data = "string \<times> u16 \<times> service_metadata"

definition registry_lookup :: "in_memory_registry \<Rightarrow> string \<times> string \<Rightarrow> instance_data option" where
  "registry_lookup r k =
     map_option (\<lambda>i. (si_address i, si_port i, si_metadata i)) (discover_instance r (fst k) (snd k))"

definition registry_put :: "string \<times> string \<Rightarrow> instance_data \<Rightarrow> in_memory_registry \<Rightarrow> in_memory_registry" where
  "registry_put k d r =
     client_register \<lparr>si_id = snd k, si_name = fst k, si_address = fst d, si_port = fst (snd d),
       si_metadata = snd (snd d)\<rparr> r"

interpretation registry_store: keyed_store registry_lookup registry_put
    "\<lambda>k. registry_deregister (fst k) (snd k)" registry_wf
proof
  fix m k v k' assume "registry_wf m"
  show "registry_lookup (registry_put k v m) k' = (if k' = k then Some v else registry_lookup m k')"
    by (auto simp: registry_lookup_def registry_put_def client_register_def
        discover_instance_register prod_eq_iff)
next
  fix m k k' assume "registry_wf m"
  then show "registry_lookup (registry_deregister (fst k) (snd k) m) k' =
      (if k' = k then None else registry_lookup m k')"
    by (auto simp: registry_lookup_def discover_instance_deregister prod_eq_iff)
qed (auto simp: registry_put_def client_register_def registry_wf_register registry_wf_deregister)

lemma discover_lists_instances:
  assumes "registry_wf r"
  shows "i \<in> set (discover r name) \<longleftrightarrow> discover_instance r name (si_id i) = Some i"
proof (cases "hm_get r name")
  case (Some xs)
  then show ?thesis using registry_wfD [OF assms Some]
    by (simp add: discover_def discover_instance_def find_id instances_ok_def)
qed (simp add: discover_def discover_instance_def)

lemma service_exists_iff:
  assumes "registry_wf r"
  shows "service_exists r name \<longleftrightarrow> (\<exists>i. discover_instance r name (si_id i) = Some i)"
proof -
  have "service_exists r name \<longleftrightarrow> discover r name \<noteq> []"
    using registry_wfD [OF assms, of name]
    by (cases "hm_get r name") (simp_all add: service_exists_def hm_contains_def instances_ok_def discover_def)
  also have "\<dots> \<longleftrightarrow> (\<exists>i. i \<in> set (discover r name))" by (cases "discover r name") auto
  finally show ?thesis by (simp add: discover_lists_instances [OF assms])
qed

text \<open>Taking out every instance of a list of keys leaves exactly the others.\<close>

lemma deregister_all:
  assumes "registry_wf r"
  shows "registry_lookup (fold (\<lambda>k. registry_deregister (fst k) (snd k)) ks r) k =
     (if k \<in> set ks then None else registry_lookup r k)"
  using registry_store.fold_drop_lookup [OF assms] .

subsection \<open>The health tracker (\<^verbatim>\<open>health.rs\<close>)\<close>

text \<open>The counters are \<open>u32\<close>; past the maximum they wrap, as in a release build.\<close>

record health_tracker =
  ht_consecutive_failures :: u32
  ht_consecutive_successes :: u32
  ht_current_status :: health_status

definition tracker_new :: health_tracker where
  "tracker_new =
     \<lparr>ht_consecutive_failures = 0, ht_consecutive_successes = 0, ht_current_status = UnknownHealth\<rparr>"

definition tracker_update :: "bool \<Rightarrow> health_check_config \<Rightarrow> health_tracker \<Rightarrow> health_status \<times> health_tracker" where
  "tracker_update healthy config t =
     (let t' = (if healthy
          then (let t1 = t\<lparr>ht_consecutive_failures := 0,
                           ht_consecutive_successes := ht_consecutive_successes t + 1\<rparr>
                in if hk_success_threshold config \<le> ht_consecutive_successes t1
                   then t1\<lparr>ht_current_status := Healthy\<rparr> else t1)
          else (let t1 = t\<lparr>ht_consecutive_successes := 0,
                           ht_consecutive_failures := ht_consecutive_failures t + 1\<rparr>
                in if hk_failure_threshold config \<le> ht_consecutive_failures t1
                   then t1\<lparr>ht_current_status := Unhealthy\<rparr> else t1))
      in (ht_current_status t', t'))"

definition tracker_reset :: "health_tracker \<Rightarrow> health_tracker" where
  "tracker_reset t =
     t\<lparr>ht_consecutive_failures := 0, ht_consecutive_successes := 0, ht_current_status := UnknownHealth\<rparr>"

text \<open>The tracker after a list of check results, the latest last.\<close>

definition tracker_run :: "health_check_config \<Rightarrow> bool list \<Rightarrow> health_tracker \<Rightarrow> health_tracker" where
  "tracker_run config results t = foldl (\<lambda>t b. snd (tracker_update b config t)) t results"

definition threshold_for :: "health_check_config \<Rightarrow> bool \<Rightarrow> u32" where
  "threshold_for config b = (if b then hk_success_threshold config else hk_failure_threshold config)"

definition status_for :: "bool \<Rightarrow> health_status" where
  "status_for b = (if b then Healthy else Unhealthy)"

definition streak_count :: "bool \<Rightarrow> health_tracker \<Rightarrow> u32" where
  "streak_count b t = (if b then ht_consecutive_successes t else ht_consecutive_failures t)"

lemma tracker_run_simps [simp]:
  "tracker_run config [] t = t"
  "tracker_run config [b] t = snd (tracker_update b config t)"
  "tracker_run config (xs @ ys) t = tracker_run config ys (tracker_run config xs t)"
  by (simp_all add: tracker_run_def)

lemma tracker_update_counts:
  "streak_count b (snd (tracker_update b config t)) = streak_count b t + 1"
  "streak_count (\<not> b) (snd (tracker_update b config t)) = 0"
  "ht_current_status (snd (tracker_update b config t)) =
     (if threshold_for config b \<le> streak_count b t + 1 then status_for b else ht_current_status t)"
  by (simp_all add: tracker_update_def streak_count_def threshold_for_def status_for_def Let_def)

lemma fresh_streak:
  assumes "results = [] \<or> last results \<noteq> b"
  shows "streak_count b (tracker_run config results tracker_new) = 0"
proof (cases results rule: rev_cases)
  case Nil
  then show ?thesis by (simp add: tracker_new_def streak_count_def)
next
  case (snoc ys c)
  then have "b = (\<not> c)" using assms by auto
  then show ?thesis unfolding snoc tracker_run_simps(2,3) by (simp only: tracker_update_counts(2))
qed

lemma streak_from_zero:
  assumes "streak_count b t = 0" and "n < 2 ^ 32"
  shows "streak_count b (tracker_run config (replicate n b) t) = of_nat n \<and>
    ht_current_status (tracker_run config (replicate n b) t) =
      (if 0 < n \<and> unat (threshold_for config b) \<le> n then status_for b else ht_current_status t)"
  using assms(2)
proof (induction n)
  case (Suc n)
  have "replicate (Suc n) b = replicate n b @ [b]" by (simp add: replicate_append_same)
  moreover have "threshold_for config b \<le> of_nat n + 1 \<longleftrightarrow> unat (threshold_for config b) \<le> Suc n"
  proof -
    have "unat (of_nat (Suc n) :: u32) = Suc n"
      by (subst unat_of_nat) (use Suc.prems in simp)
    then show ?thesis by (simp add: word_le_nat_alt add.commute)
  qed
  ultimately show ?case using Suc
    by (auto simp del: replicate.simps simp: tracker_update_counts le_Suc_eq)
qed (simp add: assms(1))
text \<open>
  The status the tracker reports is decided by the current streak: the last \<open>n\<close> checks all
  had the outcome \<open>b\<close> and the one before them, if any, had not. From the length of the threshold on
  the status is that of \<open>b\<close>; before that it is still what it was when the streak began.
\<close>

theorem tracker_follows_streaks:
  assumes "results = [] \<or> last results \<noteq> b" and "0 < n" and "n < 2 ^ 32"
  shows "ht_current_status (tracker_run config (results @ replicate n b) tracker_new) =
    (if unat (threshold_for config b) \<le> n then status_for b
     else ht_current_status (tracker_run config results tracker_new))"
  using streak_from_zero [OF fresh_streak [OF assms(1)] assms(3), of config] assms(2) by simp

theorem tracker_follows_streaks_witness:
  "ht_current_status (tracker_run health_check_config_default ([True, False, True] @ replicate 2 False)
     tracker_new) = Healthy"
proof -
  have "ht_current_status (tracker_run health_check_config_default [True, False, True] tracker_new) = Healthy"
    by (simp add: health_check_config_default_def tracker_run_def tracker_update_def tracker_new_def Let_def)
  then show ?thesis
    using tracker_follows_streaks [of "[True, False, True]" False 2 health_check_config_default]
    by (simp add: threshold_for_def health_check_config_default_def del: tracker_run_simps)
qed

end
