(* ===== verification/Failover.thy ===== *)
theory Failover
  imports Discovery
begin

section \<open>Failover of service instances (\<^verbatim>\<open>uhorse-discovery/src/failover.rs\<close>)\<close>

text \<open>
  The failover manager: the records of failures and of failovers, the status of each instance, and
  the operations on them. Each operation is one step: it takes the locks it needs in a row and
  nothing else of the crate changes the state. Fresh identifiers and clock readings are
  arguments. \<open>failover_step\<close> is the step relation; its invariant links the three collections.
\<close>

datatype failover_strategy = Automatic | Manual | Priority

datatype failover_status = FsHealthy | FsDegraded | FsFailingOver | FsFailedOver | FsRecovering

datatype failure_type =
    HealthCheckFailed | ConnectionTimeout | ServiceUnavailable | ResourceExhausted
  | NetworkPartition | UnknownFailure

record failure_record =
  fa_id :: string
  fa_instance_id :: string
  fa_service_name :: string
  fa_failure_type :: failure_type
  fa_occurred_at :: instant
  fa_recovered_at :: "instant option"
  fa_description :: string

definition failure_record_new ::
  "string \<Rightarrow> instant \<Rightarrow> string \<Rightarrow> string \<Rightarrow> failure_type \<Rightarrow> string \<Rightarrow> failure_record" where
  "failure_record_new fid now sid name ft description =
     \<lparr>fa_id = fid, fa_instance_id = sid, fa_service_name = name, fa_failure_type = ft,
      fa_occurred_at = now, fa_recovered_at = None, fa_description = description\<rparr>"

record failover_config =
  fc_strategy :: failover_strategy
  fc_max_retries :: u32
  fc_retry_interval_ms :: u64
  fc_detection_timeout_secs :: u64
  fc_recovery_wait_secs :: u64
  fc_auto_recovery :: bool

definition failover_config_default :: failover_config where
  "failover_config_default =
     \<lparr>fc_strategy = Automatic, fc_max_retries = 3, fc_retry_interval_ms = 1000,
      fc_detection_timeout_secs = 30, fc_recovery_wait_secs = 60, fc_auto_recovery = True\<rparr>"

record failover_record =
  fr_id :: string
  fr_service_name :: string
  fr_source_instance_id :: string
  fr_target_instance_id :: "string option"
  fr_status :: failover_status
  fr_started_at :: instant
  fr_completed_at :: "instant option"
  fr_failure_reason :: "string option"
  fr_retry_count :: u32

definition failover_record_new :: "string \<Rightarrow> instant \<Rightarrow> string \<Rightarrow> string \<Rightarrow> failover_record" where
  "failover_record_new rid now name source =
     \<lparr>fr_id = rid, fr_service_name = name, fr_source_instance_id = source,
      fr_target_instance_id = None, fr_status = FsFailingOver, fr_started_at = now,
      fr_completed_at = None, fr_failure_reason = None, fr_retry_count = 0\<rparr>"

text \<open>The cast to \<open>u64\<close> wraps a negative number of seconds.\<close>

definition failover_duration_secs :: "failover_record \<Rightarrow> u64 option" where
  "failover_duration_secs r =
     map_option (\<lambda>completed. word_of_int (num_seconds (completed - fr_started_at r))) (fr_completed_at r)"

record failover_manager =
  fm_config :: failover_config
  fm_records :: "failover_record list"
  fm_failures :: "failure_record list"
  fm_service_status :: "(string, failover_status) hmap"

definition failover_manager_new :: "failover_config \<Rightarrow> failover_manager" where
  "failover_manager_new config =
     \<lparr>fm_config = config, fm_records = [], fm_failures = [], fm_service_status = []\<rparr>"

definition failover_manager_default :: failover_manager where
  "failover_manager_default = failover_manager_new failover_config_default"

subsection \<open>Operations\<close>

definition detect_failure ::
  "string \<Rightarrow> instant \<Rightarrow> service_instance \<Rightarrow> failure_type \<Rightarrow> string \<Rightarrow> failover_manager
     \<Rightarrow> failure_record \<times> failover_manager" where
  "detect_failure fid now si ft description m =
     (let r = failure_record_new fid now (si_id si) (si_name si) ft description
      in (r, m\<lparr>fm_service_status := hm_insert (si_id si) FsDegraded (fm_service_status m),
               fm_failures := fm_failures m @ [r]\<rparr>))"

text \<open>\<^verbatim>\<open>Iterator::min_by_key\<close>: the first of the elements with the smallest key.\<close>

fun min_by_id :: "service_instance list \<Rightarrow> service_instance option" where
  "min_by_id [] = None"
| "min_by_id (x # xs) =
     (case min_by_id xs of
        None \<Rightarrow> Some x
      | Some y \<Rightarrow> if si_id x \<le> si_id y then Some x else Some y)"

definition failover_target :: "failover_strategy \<Rightarrow> service_instance list \<Rightarrow> service_instance option" where
  "failover_target strategy healthy =
     (case strategy of
        Automatic \<Rightarrow> (case healthy of [] \<Rightarrow> None | x # _ \<Rightarrow> Some x)
      | Manual \<Rightarrow> (case healthy of [] \<Rightarrow> None | x # _ \<Rightarrow> Some x)
      | Priority \<Rightarrow> min_by_id healthy)"

definition execute_failover ::
  "string \<Rightarrow> instant \<Rightarrow> instant \<Rightarrow> string \<Rightarrow> string \<Rightarrow> service_instance list \<Rightarrow> failover_manager
     \<Rightarrow> (discovery_error + failover_record) \<times> failover_manager" where
  "execute_failover rid now later name failed healthy m =
     (if healthy = [] then (Inl (NoHealthyInstances name), m)
      else (let record0 = failover_record_new rid now name failed;
                (record1, status) =
                  (case failover_target (fc_strategy (fm_config m)) healthy of
                     Some t \<Rightarrow>
                       (record0\<lparr>fr_target_instance_id := Some (si_id t), fr_status := FsFailedOver,
                                fr_completed_at := Some later\<rparr>,
                        hm_insert (si_id t) FsHealthy
                          (hm_insert failed FsFailedOver (fm_service_status m)))
                   | None \<Rightarrow>
                       (record0\<lparr>fr_status := FsDegraded,
                                fr_failure_reason := Some ''No healthy instances available''\<rparr>,
                        fm_service_status m))
            in (Inr record1, m\<lparr>fm_service_status := status, fm_records := fm_records m @ [record1]\<rparr>)))"

definition mark_recovered :: "instant \<Rightarrow> string \<Rightarrow> failure_record \<Rightarrow> failure_record" where
  "mark_recovered now sid f =
     (if fa_instance_id f = sid \<and> fa_recovered_at f = None then f\<lparr>fa_recovered_at := Some now\<rparr> else f)"

definition recover_service :: "instant \<Rightarrow> string \<Rightarrow> failover_manager \<Rightarrow> bool \<times> failover_manager" where
  "recover_service now sid m =
     (case hm_get (fm_service_status m) sid of
        Some _ \<Rightarrow>
          (True, m\<lparr>fm_service_status := hm_insert sid FsHealthy (fm_service_status m),
                   fm_failures := map (mark_recovered now sid) (fm_failures m)\<rparr>)
      | None \<Rightarrow> (False, m))"

definition get_service_status :: "failover_manager \<Rightarrow> string \<Rightarrow> failover_status option" where
  "get_service_status m sid = hm_get (fm_service_status m) sid"

definition get_failover_record :: "failover_manager \<Rightarrow> string \<Rightarrow> failover_record option" where
  "get_failover_record m rid = find (\<lambda>r. fr_id r = rid) (fm_records m)"

text \<open>The statistics: numbers of elements in memory, which fit in 64 bits.\<close>

record failover_stats =
  fs_total_failovers :: nat
  fs_successful_failovers :: nat
  fs_in_progress_failovers :: nat
  fs_total_failures :: nat
  fs_active_failures :: nat
  fs_degraded_services :: nat
  fs_recovering_services :: nat
  fs_healthy_services :: nat

definition count_record :: "failover_stats \<Rightarrow> failover_record \<Rightarrow> failover_stats" where
  "count_record s r =
     (case fr_status r of
        FsFailedOver \<Rightarrow> s\<lparr>fs_successful_failovers := fs_successful_failovers s + 1\<rparr>
      | FsDegraded \<Rightarrow> s\<lparr>fs_degraded_services := fs_degraded_services s + 1\<rparr>
      | FsFailingOver \<Rightarrow> s\<lparr>fs_in_progress_failovers := fs_in_progress_failovers s + 1\<rparr>
      | FsRecovering \<Rightarrow> s\<lparr>fs_recovering_services := fs_recovering_services s + 1\<rparr>
      | FsHealthy \<Rightarrow> s)"

definition failover_statistics :: "failover_manager \<Rightarrow> failover_stats" where
  "failover_statistics m =
     (let s0 = \<lparr>fs_total_failovers = length (fm_records m), fs_successful_failovers = 0,
                fs_in_progress_failovers = 0, fs_total_failures = length (fm_failures m),
                fs_active_failures = 0, fs_degraded_services = 0, fs_recovering_services = 0,
                fs_healthy_services = 0\<rparr>;
          s1 = foldl count_record s0 (fm_records m);
          s2 = foldl (\<lambda>s f. if fa_recovered_at f = None
                            then s\<lparr>fs_active_failures := fs_active_failures s + 1\<rparr> else s)
                 s1 (fm_failures m)
      in s2\<lparr>fs_healthy_services :=
           length (filter (\<lambda>s. s = FsHealthy) (hm_values (fm_service_status m)))\<rparr>)"

subsection \<open>Targets\<close>

lemma min_by_id_none [simp]: "min_by_id xs = None \<longleftrightarrow> xs = []"
  by (cases xs) (auto split: option.splits)

lemma min_by_id_member: "min_by_id xs = Some t \<Longrightarrow> t \<in> set xs"
  by (induction xs arbitrary: t) (auto split: option.splits if_splits)

lemma min_by_id_least: "min_by_id xs = Some t \<Longrightarrow> x \<in> set xs \<Longrightarrow> si_id t \<le> si_id x"
proof (induction xs arbitrary: t x)
  case (Cons y ys)
  show ?case
  proof (cases "min_by_id ys")
    case None
    then show ?thesis using Cons.prems by auto
  next
    case (Some z)
    then show ?thesis using Cons.prems Cons.IH [OF Some]
      by (auto split: if_splits intro: order_trans [of _ "si_id z"])
  qed
qed simp

lemma failover_target_exists:
  assumes "healthy \<noteq> []"
  obtains t where "failover_target strategy healthy = Some t" and "t \<in> set healthy"
proof (cases strategy)
  case Priority
  obtain t where "min_by_id healthy = Some t" using assms min_by_id_none by blast
  then show thesis using that [of t] Priority by (simp add: failover_target_def min_by_id_member)
next
  case Automatic
  then show thesis using that [of "hd healthy"] assms
    by (cases healthy) (simp_all add: failover_target_def)
next
  case Manual
  then show thesis using that [of "hd healthy"] assms
    by (cases healthy) (simp_all add: failover_target_def)
qed

lemma execute_failover_effect:
  assumes "healthy \<noteq> []"
  obtains t r where "failover_target (fc_strategy (fm_config m)) healthy = Some t"
    and "t \<in> set healthy" and "fr_status r = FsFailedOver"
    and "fr_target_instance_id r = Some (si_id t)" and "fr_source_instance_id r = failed"
    and "fr_started_at r = now" and "fr_completed_at r = Some later"
    and "execute_failover rid now later name failed healthy m =
      (Inr r, m\<lparr>fm_service_status :=
          hm_insert (si_id t) FsHealthy (hm_insert failed FsFailedOver (fm_service_status m)),
        fm_records := fm_records m @ [r]\<rparr>)"
proof -
  obtain t where t: "failover_target (fc_strategy (fm_config m)) healthy = Some t" "t \<in> set healthy"
    using assms failover_target_exists by blast
  let ?r = "(failover_record_new rid now name failed)\<lparr>fr_target_instance_id := Some (si_id t),
    fr_status := FsFailedOver, fr_completed_at := Some later\<rparr>"
  show thesis
    by (rule that [of t ?r]) (use assms t in \<open>simp_all add: execute_failover_def failover_record_new_def Let_def\<close>)
qed

subsection \<open>Runs\<close>

inductive failover_step :: "failover_manager \<Rightarrow> failover_manager \<Rightarrow> bool" where
  step_detect: "failover_step m (snd (detect_failure fid now si ft description m))"
| step_execute: "failover_step m (snd (execute_failover rid now later name failed healthy m))"
| step_recover: "failover_step m (snd (recover_service now sid m))"
| step_order: "mset status = mset (fm_service_status m) \<Longrightarrow>
    failover_step m (m\<lparr>fm_service_status := status\<rparr>)"

inductive_cases failover_stepE: "failover_step m m'"

text \<open>
  Every instance with a failure on record has a status, and so has the source of every failover;
  a failover on record is complete and names its target.
\<close>

definition failover_complete :: "failover_record \<Rightarrow> bool" where
  "failover_complete r \<longleftrightarrow>
     fr_status r = FsFailedOver \<and> fr_target_instance_id r \<noteq> None \<and> fr_completed_at r \<noteq> None"

definition failover_ok :: "failover_manager \<Rightarrow> bool" where
  "failover_ok m \<longleftrightarrow> hm_wf (fm_service_status m) \<and>
     (\<forall>f\<in>set (fm_failures m). fa_instance_id f \<in> set (hm_keys (fm_service_status m))) \<and>
     (\<forall>r\<in>set (fm_records m). failover_complete r \<and>
        fr_source_instance_id r \<in> set (hm_keys (fm_service_status m)))"

lemma mark_recovered_instance [simp]: "fa_instance_id (mark_recovered now sid f) = fa_instance_id f"
  by (simp add: mark_recovered_def)

lemma detect_failure_ok: "failover_ok m \<Longrightarrow> failover_ok (snd (detect_failure fid now si ft description m))"
  by (auto simp: failover_ok_def detect_failure_def Let_def failure_record_new_def hm_keys_insert
      simp del: set_map)

lemma execute_failover_ok:
  assumes "failover_ok m"
  shows "failover_ok (snd (execute_failover rid now later name failed healthy m))"
proof (cases "healthy = []")
  case False
  then show ?thesis
    by (rule execute_failover_effect [of healthy m failed now later rid name])
      (use assms in \<open>auto simp: failover_ok_def failover_complete_def hm_keys_insert simp del: set_map\<close>)
qed (simp add: execute_failover_def assms)

lemma recover_service_ok: "failover_ok m \<Longrightarrow> failover_ok (snd (recover_service now sid m))"
  by (cases "hm_get (fm_service_status m) sid")
    (auto simp: failover_ok_def recover_service_def hm_keys_insert simp del: set_map
      simp: set_map [of "mark_recovered now sid"])

lemma failover_order_ok:
  assumes "failover_ok m" and "mset status = mset (fm_service_status m)"
  shows "failover_ok (m\<lparr>fm_service_status := status\<rparr>)"
proof -
  have "mset (hm_keys status) = mset (hm_keys (fm_service_status m))" using assms(2) by simp
  then have "set (hm_keys status) = set (hm_keys (fm_service_status m))" "hm_wf status"
    using assms(1) unfolding failover_ok_def by (metis mset_eq_setD, metis mset_eq_imp_distinct_iff)
  then show ?thesis using assms(1) by (simp add: failover_ok_def del: set_map)
qed

interpretation failover_runs: step_system
    "\<lambda>m. \<exists>config. m = failover_manager_new config" failover_step failover_ok
proof
  fix m assume "\<exists>config. m = failover_manager_new config"
  then show "failover_ok m" by (auto simp: failover_manager_new_def failover_ok_def)
next
  fix m m' assume "failover_ok m" and "failover_step m m'"
  then show "failover_ok m'"
    by (auto elim!: failover_stepE
        intro: detect_failure_ok execute_failover_ok recover_service_ok failover_order_ok)
qed

lemma failover_reachable_ok: "failover_step\<^sup>*\<^sup>* (failover_manager_new config) m \<Longrightarrow> failover_ok m"
  using failover_runs.reachable_good by blast

text \<open>
  A failure on record can always be recovered: the call succeeds, no failure of that instance
  stays active, and the failures of other instances are untouched.
\<close>

theorem failure_recoverable:
  assumes "failover_step\<^sup>*\<^sup>* (failover_manager_new config) m" and "f \<in> set (fm_failures m)"
    and "recover_service now (fa_instance_id f) m = (done_it, m')"
  shows "done_it" and "get_service_status m' (fa_instance_id f) = Some FsHealthy"
    and "\<forall>g\<in>set (fm_failures m'). fa_instance_id g = fa_instance_id f \<longrightarrow> fa_recovered_at g \<noteq> None"
    and "filter (\<lambda>g. fa_instance_id g \<noteq> fa_instance_id f) (fm_failures m') =
         filter (\<lambda>g. fa_instance_id g \<noteq> fa_instance_id f) (fm_failures m)"
proof -
  have "fa_instance_id f \<in> set (hm_keys (fm_service_status m))"
    using failover_reachable_ok [OF assms(1)] assms(2) by (simp add: failover_ok_def del: set_map)
  then obtain s where s: "hm_get (fm_service_status m) (fa_instance_id f) = Some s"
    by (meson hm_contains_def hm_contains_keys not_Some_eq)
  have m': "done_it" "m' = m\<lparr>fm_service_status := hm_insert (fa_instance_id f) FsHealthy (fm_service_status m),
      fm_failures := map (mark_recovered now (fa_instance_id f)) (fm_failures m)\<rparr>"
    using assms(3) s by (auto simp: recover_service_def)
  show "done_it" by (rule m'(1))
  show "get_service_status m' (fa_instance_id f) = Some FsHealthy"
    by (simp add: m'(2) get_service_status_def hm_get_insert)
  show "\<forall>g\<in>set (fm_failures m'). fa_instance_id g = fa_instance_id f \<longrightarrow> fa_recovered_at g \<noteq> None"
    by (auto simp: m'(2) mark_recovered_def)
  have "filter (\<lambda>g. fa_instance_id g \<noteq> i) (map (mark_recovered now i) fs) =
      filter (\<lambda>g. fa_instance_id g \<noteq> i) fs" for i fs
    by (induction fs) (auto simp: mark_recovered_def)
  then show "filter (\<lambda>g. fa_instance_id g \<noteq> fa_instance_id f) (fm_failures m') =
      filter (\<lambda>g. fa_instance_id g \<noteq> fa_instance_id f) (fm_failures m)"
    by (simp add: m'(2))
qed

lemma count_complete_records:
  "\<forall>r\<in>set rs. failover_complete r \<Longrightarrow>
     foldl count_record s rs = s\<lparr>fs_successful_failovers := fs_successful_failovers s + length rs\<rparr>"
  by (induction rs arbitrary: s) (simp_all add: count_record_def failover_complete_def)

lemma count_active:
  "foldl (\<lambda>s f. if fa_recovered_at f = None then s\<lparr>fs_active_failures := fs_active_failures s + 1\<rparr> else s) s fs =
     s\<lparr>fs_active_failures := fs_active_failures s + length (filter (\<lambda>f. fa_recovered_at f = None) fs)\<rparr>"
  by (induction fs arbitrary: s) simp_all

text \<open>
  In every run the statistics count each failover as successful: none is ever in progress,
  degraded or recovering, although the statistics have counters for these.
\<close>

theorem failover_statistics_exact:
  assumes "failover_step\<^sup>*\<^sup>* (failover_manager_new config) m"
  shows "failover_statistics m =
    \<lparr>fs_total_failovers = length (fm_records m), fs_successful_failovers = length (fm_records m),
     fs_in_progress_failovers = 0, fs_total_failures = length (fm_failures m),
     fs_active_failures = length (filter (\<lambda>f. fa_recovered_at f = None) (fm_failures m)),
     fs_degraded_services = 0, fs_recovering_services = 0,
     fs_healthy_services = length (filter (\<lambda>s. s = FsHealthy) (hm_values (fm_service_status m)))\<rparr>"
  using failover_reachable_ok [OF assms]
  by (simp add: failover_statistics_def Let_def failover_ok_def count_complete_records count_active)

text \<open>
  The failed instance is not excluded from the candidates: if it comes first it is its own
  target, and ends with the status healthy.
\<close>

lemma failover_to_itself:
  "si_id x = failed \<Longrightarrow> fc_strategy (fm_config m) = Automatic \<Longrightarrow>
     get_service_status (snd (execute_failover rid now later name failed (x # xs) m)) failed = Some FsHealthy"
  by (simp add: execute_failover_def failover_target_def Let_def get_service_status_def hm_get_insert)

text \<open>A failover makes its target healthy although its failures are still active.\<close>

lemma failover_hides_active_failure:
  assumes "fc_strategy (fm_config m) = Automatic"
  shows "get_service_status (snd (execute_failover rid now later name failed (x # xs) m)) (si_id x) = Some FsHealthy"
    and "fm_failures (snd (execute_failover rid now later name failed (x # xs) m)) = fm_failures m"
  using assms by (simp_all add: execute_failover_def failover_target_def Let_def get_service_status_def hm_get_insert)

end
