(* ===== verification/Load_Balance.thy ===== *)
theory Load_Balance
  imports Discovery
begin

section \<open>Load balancing in the gateway (\<^verbatim>\<open>uhorse-gateway/src/lb\<close>)\<close>

text \<open>
  The four load balancers behind the trait \<^verbatim>\<open>LoadBalancer\<close>: round robin, weighted, least
  connection and health aware, with the factory and the names of the strategies. A selection is
  one step; the counters are 64 bits wide (\<^verbatim>\<open>AtomicUsize\<close> on a 64-bit target) and wrap. Two
  interfaces carry the proofs: \<open>load_balancer\<close>, what every balancer promises, and
  \<open>cyclic_selection\<close>, the balancers that walk a list of slots with a counter; over one full cycle
  these return exactly the slots, rotated.
\<close>

subsection \<open>Statistics and strategies (\<^verbatim>\<open>mod.rs\<close>)\<close>

record instance_stats =
  st_active_connections :: u32
  st_total_requests :: u64
  st_failed_requests :: u64
  st_avg_response_time_ms :: real
  st_last_updated :: instant

definition instance_stats_default :: "instant \<Rightarrow> instance_stats" where
  "instance_stats_default now =
     \<lparr>st_active_connections = 0, st_total_requests = 0, st_failed_requests = 0,
      st_avg_response_time_ms = 0, st_last_updated = now\<rparr>"

datatype load_balance_strategy = RoundRobin | Weighted | HealthAware | LeastConnection

fun balance_strategy_display :: "load_balance_strategy \<Rightarrow> string" where
  "balance_strategy_display RoundRobin = ''round-robin''"
| "balance_strategy_display Weighted = ''weighted''"
| "balance_strategy_display HealthAware = ''health-aware''"
| "balance_strategy_display LeastConnection = ''least-connection''"

definition balance_strategy_from_str :: "string \<Rightarrow> string + load_balance_strategy" where
  "balance_strategy_from_str s =
     (let l = to_lowercase s
      in if l = ''round-robin'' \<or> l = ''roundrobin'' then Inr RoundRobin
         else if l = ''weighted'' then Inr Weighted
         else if l = ''health-aware'' \<or> l = ''healthaware'' then Inr HealthAware
         else if l = ''least-connection'' \<or> l = ''leastconnection'' then Inr LeastConnection
         else Inl (''Unknown load balance strategy: '' @ s))"

definition balance_strategy_default :: load_balance_strategy where
  "balance_strategy_default = RoundRobin"

subsection \<open>Round robin (\<^verbatim>\<open>round_robin.rs\<close>)\<close>

record round_robin =
  rr_counter :: u64

definition round_robin_new :: round_robin where
  "round_robin_new = \<lparr>rr_counter = 0\<rparr>"

definition round_robin_select ::
  "service_instance list \<Rightarrow> round_robin \<Rightarrow> service_instance option \<times> round_robin" where
  "round_robin_select instances b =
     (if instances = [] then (None, b)
      else (let index = rr_counter b
            in (Some (instances ! (unat index mod length instances)), b\<lparr>rr_counter := index + 1\<rparr>)))"

subsection \<open>Weighted (\<^verbatim>\<open>weighted.rs\<close>)\<close>

record weighted =
  wt_counter :: u64

definition weighted_new :: weighted where
  "weighted_new = \<lparr>wt_counter = 0\<rparr>"

definition get_weight :: "service_instance \<Rightarrow> u32" where
  "get_weight si = (case im_weight (si_metadata si) of Some w \<Rightarrow> w | None \<Rightarrow> 50)"

definition total_weight :: "service_instance list \<Rightarrow> u64" where
  "total_weight instances = sum_list (map (\<lambda>i. ucast (get_weight i)) instances)"

text \<open>The loop that looks for the instance at a position.\<close>

fun pick_position :: "u64 \<Rightarrow> u64 \<Rightarrow> service_instance list \<Rightarrow> service_instance option" where
  "pick_position current position [] = None"
| "pick_position current position (i # rest) =
     (let current' = current + ucast (get_weight i)
      in if position < current' then Some i else pick_position current' position rest)"

definition weighted_select ::
  "service_instance list \<Rightarrow> weighted \<Rightarrow> service_instance option \<times> weighted" where
  "weighted_select instances b =
     (if instances = [] then (None, b)
      else (let total = total_weight instances; index = wt_counter b; b' = b\<lparr>wt_counter := index + 1\<rparr>
            in if total = 0
               then (Some (instances ! (unat index mod length instances)), b')
               else (case pick_position 0 (index mod total) instances of
                       Some i \<Rightarrow> (Some i, b')
                     | None \<Rightarrow> (Some (last instances), b'))))"

subsection \<open>Least connection (\<^verbatim>\<open>least_connection.rs\<close>)\<close>

record least_connection =
  lc_connections :: "(string, u32) hmap"

definition least_connection_new :: least_connection where
  "least_connection_new = \<lparr>lc_connections = []\<rparr>"

definition get_connections :: "least_connection \<Rightarrow> string \<Rightarrow> u32" where
  "get_connections b sid = (case hm_get (lc_connections b) sid of Some n \<Rightarrow> n | None \<Rightarrow> 0)"

fun find_least ::
  "least_connection \<Rightarrow> u32 \<Rightarrow> service_instance option \<Rightarrow> service_instance list \<Rightarrow> service_instance option" where
  "find_least b min_connections selected [] = selected"
| "find_least b min_connections selected (i # rest) =
     (let connections = get_connections b (si_id i)
      in if connections < min_connections then find_least b connections (Some i) rest
         else find_least b min_connections selected rest)"

definition least_connection_select ::
  "service_instance list \<Rightarrow> least_connection \<Rightarrow> service_instance option \<times> least_connection" where
  "least_connection_select instances b =
     (if instances = [] then (None, b)
      else (case find_least b (- 1) None instances of
              None \<Rightarrow> (None, b)
            | Some i \<Rightarrow>
                (Some i, b\<lparr>lc_connections :=
                   hm_insert (si_id i) (get_connections b (si_id i) + 1) (lc_connections b)\<rparr>)))"

definition least_connection_update :: "string \<Rightarrow> instance_stats \<Rightarrow> least_connection \<Rightarrow> least_connection" where
  "least_connection_update sid stats b =
     b\<lparr>lc_connections := hm_insert sid (st_active_connections stats) (lc_connections b)\<rparr>"

subsection \<open>Health aware (\<^verbatim>\<open>health_aware.rs\<close>)\<close>

record health_aware =
  ha_inner :: round_robin
  ha_health_status :: "(string, bool) hmap"

definition health_aware_new :: health_aware where
  "health_aware_new = \<lparr>ha_inner = round_robin_new, ha_health_status = []\<rparr>"

definition is_healthy :: "health_aware \<Rightarrow> string \<Rightarrow> bool" where
  "is_healthy b sid = (case hm_get (ha_health_status b) sid of Some h \<Rightarrow> h | None \<Rightarrow> True)"

definition healthy_instances :: "health_aware \<Rightarrow> service_instance list \<Rightarrow> service_instance list" where
  "healthy_instances b instances = filter (\<lambda>i. is_healthy b (si_id i)) instances"

definition health_aware_select ::
  "service_instance list \<Rightarrow> health_aware \<Rightarrow> service_instance option \<times> health_aware" where
  "health_aware_select instances b =
     (if instances = [] then (None, b)
      else (let healthy = healthy_instances b instances
            in if healthy = [] then (None, b)
               else (let (chosen, inner) = round_robin_select healthy (ha_inner b)
                     in (chosen, b\<lparr>ha_inner := inner\<rparr>))))"

text \<open>The arithmetic on \<open>f64\<close> rounds with \<open>rnd\<close>.\<close>

definition stats_healthy :: "(real \<Rightarrow> real) \<Rightarrow> instance_stats \<Rightarrow> bool" where
  "stats_healthy rnd stats =
     (if 0 < st_total_requests stats
      then (let failure_rate = rnd (rnd (real (unat (st_failed_requests stats))) /
                                    rnd (real (unat (st_total_requests stats))))
            in failure_rate < 1 / 2)
      else True)"

definition health_aware_update ::
  "(real \<Rightarrow> real) \<Rightarrow> string \<Rightarrow> instance_stats \<Rightarrow> health_aware \<Rightarrow> health_aware" where
  "health_aware_update rnd sid stats b =
     b\<lparr>ha_health_status := hm_insert sid (stats_healthy rnd stats) (ha_health_status b)\<rparr>"

subsection \<open>The trait and the factory (\<^verbatim>\<open>mod.rs\<close>)\<close>

datatype balancer =
    RoundRobinBalancer round_robin
  | WeightedBalancer weighted
  | HealthAwareBalancer health_aware
  | LeastConnectionBalancer least_connection

fun create_balancer :: "load_balance_strategy \<Rightarrow> balancer" where
  "create_balancer RoundRobin = RoundRobinBalancer round_robin_new"
| "create_balancer Weighted = WeightedBalancer weighted_new"
| "create_balancer HealthAware = HealthAwareBalancer health_aware_new"
| "create_balancer LeastConnection = LeastConnectionBalancer least_connection_new"

fun lb_select :: "service_instance list \<Rightarrow> balancer \<Rightarrow> service_instance option \<times> balancer" where
  "lb_select instances (RoundRobinBalancer b) = apsnd RoundRobinBalancer (round_robin_select instances b)"
| "lb_select instances (WeightedBalancer b) = apsnd WeightedBalancer (weighted_select instances b)"
| "lb_select instances (HealthAwareBalancer b) = apsnd HealthAwareBalancer (health_aware_select instances b)"
| "lb_select instances (LeastConnectionBalancer b) =
     apsnd LeastConnectionBalancer (least_connection_select instances b)"

fun lb_update_stats :: "(real \<Rightarrow> real) \<Rightarrow> string \<Rightarrow> instance_stats \<Rightarrow> balancer \<Rightarrow> balancer" where
  "lb_update_stats rnd sid stats (RoundRobinBalancer b) = RoundRobinBalancer b"
| "lb_update_stats rnd sid stats (WeightedBalancer b) = WeightedBalancer b"
| "lb_update_stats rnd sid stats (HealthAwareBalancer b) =
     HealthAwareBalancer (health_aware_update rnd sid stats b)"
| "lb_update_stats rnd sid stats (LeastConnectionBalancer b) =
     LeastConnectionBalancer (least_connection_update sid stats b)"

fun lb_name :: "balancer \<Rightarrow> string" where
  "lb_name (RoundRobinBalancer _) = ''round-robin''"
| "lb_name (WeightedBalancer _) = ''weighted''"
| "lb_name (HealthAwareBalancer _) = ''health-aware''"
| "lb_name (LeastConnectionBalancer _) = ''least-connection''"

text \<open>A number of selections one after the other.\<close>

fun select_times ::
  "nat \<Rightarrow> ('s \<Rightarrow> service_instance option \<times> 's) \<Rightarrow> 's \<Rightarrow> service_instance option list \<times> 's" where
  "select_times 0 sel s = ([], s)"
| "select_times (Suc n) sel s =
     (let (i, s') = sel s; (is, s'') = select_times n sel s' in (i # is, s''))"

lemma fst_select_times [simp]:
  "fst (select_times (Suc n) sel s) = fst (sel s) # fst (select_times n sel (snd (sel s)))"
  "snd (select_times (Suc n) sel s) = snd (select_times n sel (snd (sel s)))"
  by (simp_all add: Let_def split_def)

declare select_times.simps(2) [simp del]

subsection \<open>Interface: what every balancer promises\<close>

text \<open>
  A selection comes from the instances it was given and is eligible in the state before, and
  nothing is selected only if nothing is eligible.
\<close>

locale load_balancer =
  fixes select :: "service_instance list \<Rightarrow> 's \<Rightarrow> service_instance option \<times> 's"
    and eligible :: "'s \<Rightarrow> service_instance \<Rightarrow> bool"
  assumes select_some: "select instances s = (Some i, s') \<Longrightarrow> i \<in> set instances \<and> eligible s i"
    and select_none: "select instances s = (None, s') \<longleftrightarrow> (\<forall>i\<in>set instances. \<not> eligible s i) \<and> s' = s"
begin

lemma select_available: "i \<in> set instances \<Longrightarrow> eligible s i \<Longrightarrow> fst (select instances s) \<noteq> None"
  by (metis prod.collapse select_none)

lemma select_empty: "select [] s = (None, s)"
  by (simp add: select_none)

lemma selected_given: "Some i \<in> set (fst (select_times n (select instances) s)) \<Longrightarrow> i \<in> set instances"
  by (induction n arbitrary: s) (auto, metis prod.collapse select_some)

end

text \<open>
  Balancers that walk a list of slots with a counter. The slots depend on the instances and on
  a part of the state a selection does not change.
\<close>

locale cyclic_selection =
  fixes select :: "service_instance list \<Rightarrow> 's \<Rightarrow> service_instance option \<times> 's"
    and counter :: "'s \<Rightarrow> u64"
    and slots :: "'s \<Rightarrow> service_instance list \<Rightarrow> service_instance list"
    and usable :: "service_instance list \<Rightarrow> bool"
  assumes slot: "usable instances \<Longrightarrow> slots s instances \<noteq> [] \<Longrightarrow>
      fst (select instances s) =
        Some (slots s instances ! (unat (counter s) mod length (slots s instances)))"
    and counted: "usable instances \<Longrightarrow> slots s instances \<noteq> [] \<Longrightarrow>
      counter (snd (select instances s)) = counter s + 1"
    and same_slots: "slots (snd (select instances s)) instances = slots s instances"
begin

lemma selections:
  assumes "usable instances" and "slots s instances \<noteq> []" and "unat (counter s) + n \<le> 2 ^ 64"
  shows "fst (select_times n (select instances) s) =
    map (\<lambda>k. Some (slots s instances ! ((unat (counter s) + k) mod length (slots s instances)))) [0..<n]"
  using assms(2,3)
proof (induction n arbitrary: s)
  case (Suc n)
  let ?s' = "snd (select instances s)"
  have same: "slots ?s' instances = slots s instances" by (rule same_slots)
  show ?case
  proof (cases n)
    case 0
    then show ?thesis using slot [OF assms(1) Suc.prems(1)] by simp
  next
    case (Suc m)
    have "unat (counter s) + 1 < 2 ^ 64" using Suc.prems(2) Suc by simp
    then have c: "unat (counter ?s') = unat (counter s) + 1"
      by (simp add: counted [OF assms(1) Suc.prems(1)] unat_add_lem [THEN iffD1])
    then show ?thesis
      using Suc.IH [of ?s'] Suc.prems slot [OF assms(1) Suc.prems(1)] same
      by (simp add: map_upt_Suc del: upt_Suc)
  qed
qed simp

text \<open>One full cycle returns the slots, rotated to where the counter stands.\<close>

lemma full_cycle:
  assumes "usable instances" and "slots s instances \<noteq> []"
    and "unat (counter s) + length (slots s instances) \<le> 2 ^ 64"
  shows "fst (select_times (length (slots s instances)) (select instances) s) =
    map Some (rotate (unat (counter s)) (slots s instances))"
  by (subst selections [OF assms])
    (auto intro!: nth_equalityI simp: nth_rotate)

lemma cycle_count:
  assumes "usable instances" and "slots s instances \<noteq> []"
    and "unat (counter s) + length (slots s instances) \<le> 2 ^ 64"
  shows "count_list (fst (select_times (length (slots s instances)) (select instances) s)) (Some i) =
    count_list (slots s instances) i"
proof -
  have "count_list (map Some xs) (Some i) = count_list xs i" for xs :: "service_instance list"
    by (induction xs) auto
  moreover have "count_list (rotate n xs) i = count_list xs i" for n and xs :: "service_instance list"
    by (simp add: rotate_drop_take) (metis add.commute append_take_drop_id count_list_append)
  ultimately show ?thesis by (simp add: full_cycle [OF assms])
qed

end

subsection \<open>Round robin and health aware\<close>

interpretation round_robin_lb: load_balancer round_robin_select "\<lambda>_ _. True"
  by unfold_locales (auto simp: round_robin_select_def Let_def split: if_splits)

interpretation round_robin_cycle: cyclic_selection round_robin_select rr_counter "\<lambda>_ instances. instances" "\<lambda>_. True"
  by unfold_locales (auto simp: round_robin_select_def Let_def)

lemma healthy_instances_set [simp]:
  "i \<in> set (healthy_instances b instances) \<longleftrightarrow> i \<in> set instances \<and> is_healthy b (si_id i)"
  by (auto simp: healthy_instances_def)

lemma health_aware_keeps_status:
  "ha_health_status (snd (health_aware_select instances b)) = ha_health_status b"
  by (auto simp: health_aware_select_def Let_def split: prod.splits)

interpretation health_aware_lb: load_balancer health_aware_select "\<lambda>b i. is_healthy b (si_id i)"
proof
  fix instances s i s' assume "health_aware_select instances s = (Some i, s')"
  then have "fst (round_robin_select (healthy_instances s instances) (ha_inner s)) = Some i"
    by (auto simp: health_aware_select_def Let_def split: if_splits prod.splits)
  then have "i \<in> set (healthy_instances s instances)" by (metis prod.collapse round_robin_lb.select_some)
  then show "i \<in> set instances \<and> is_healthy s (si_id i)" by simp
next
  fix instances s s'
  have "healthy_instances s instances = [] \<longleftrightarrow> (\<forall>i\<in>set instances. \<not> is_healthy s (si_id i))"
    by (simp add: healthy_instances_def filter_empty_conv)
  then show "health_aware_select instances s = (None, s') \<longleftrightarrow>
      (\<forall>i\<in>set instances. \<not> is_healthy s (si_id i)) \<and> s' = s"
    by (auto simp: health_aware_select_def round_robin_select_def Let_def)
qed

interpretation health_aware_cycle: cyclic_selection health_aware_select
    "\<lambda>b. rr_counter (ha_inner b)" healthy_instances "\<lambda>_. True"
proof
  fix instances s assume "healthy_instances s instances \<noteq> []"
  moreover from this have "instances \<noteq> []" by (auto simp: healthy_instances_def)
  ultimately show "fst (health_aware_select instances s) = Some (healthy_instances s instances !
        (unat (rr_counter (ha_inner s)) mod length (healthy_instances s instances)))"
    and "rr_counter (ha_inner (snd (health_aware_select instances s))) = rr_counter (ha_inner s) + 1"
    by (simp_all add: health_aware_select_def round_robin_select_def Let_def)
next
  fix instances s
  show "healthy_instances (snd (health_aware_select instances s)) instances = healthy_instances s instances"
    by (simp add: healthy_instances_def is_healthy_def health_aware_keeps_status)
qed

subsection \<open>Weighted\<close>

definition weight_sum :: "service_instance list \<Rightarrow> nat" where
  "weight_sum instances = sum_list (map (\<lambda>i. unat (get_weight i)) instances)"

definition weight_slots :: "service_instance list \<Rightarrow> service_instance list" where
  "weight_slots instances = concat (map (\<lambda>i. replicate (unat (get_weight i)) i) instances)"

definition weighted_slots :: "weighted \<Rightarrow> service_instance list \<Rightarrow> service_instance list" where
  "weighted_slots b instances = (if weight_sum instances = 0 then instances else weight_slots instances)"

lemma length_weight_slots [simp]: "length (weight_slots instances) = weight_sum instances"
  by (simp add: weight_slots_def weight_sum_def length_concat comp_def)

lemma weight_slots_Cons:
  "weight_slots (i # rest) = replicate (unat (get_weight i)) i @ weight_slots rest"
  by (simp add: weight_slots_def)

lemma weight_sum_Cons: "weight_sum (i # rest) = unat (get_weight i) + weight_sum rest"
  by (simp add: weight_sum_def)

lemma unat_ucast_weight: "unat (ucast (w :: u32) :: u64) = unat w"
proof -
  have "unat w < 2 ^ 64" using unsigned_less [of w, where ?'a = nat] by simp
  then show ?thesis by (simp add: unsigned_ucast_eq take_bit_nat_eq_self)
qed

lemma total_weight_sum: "total_weight instances = of_nat (weight_sum instances)"
proof (induction instances)
  case (Cons i rest)
  have "ucast (get_weight i) = (of_nat (unat (get_weight i)) :: u64)" by simp
  then show ?case using Cons by (simp add: total_weight_def weight_sum_def del: of_nat_unat)
qed (simp add: total_weight_def weight_sum_def)

lemma pick_position_slot:
  assumes "unat current + weight_sum instances < 2 ^ 64" and "unat current \<le> unat position"
    and "unat position < unat current + weight_sum instances"
  shows "pick_position current position instances =
    Some (weight_slots instances ! (unat position - unat current))"
  using assms
proof (induction instances arbitrary: current)
  case (Cons i rest)
  let ?w = "unat (get_weight i)"
  let ?c = "current + ucast (get_weight i)"
  have c: "unat ?c = unat current + ?w"
    using Cons.prems(1) by (simp add: unat_word_ariths unat_ucast_weight weight_sum_Cons)
  show ?case
  proof (cases "position < ?c")
    case True
    then have "unat position - unat current < ?w"
      using c Cons.prems(2) by (simp add: word_less_nat_alt)
    then show ?thesis using True by (simp add: weight_slots_Cons nth_append)
  next
    case False
    then have "unat ?c \<le> unat position" by (simp add: word_le_nat_alt not_less)
    then show ?thesis using False Cons.IH [of ?c] Cons.prems c
      by (simp add: weight_slots_Cons weight_sum_Cons nth_append)
  qed
qed (simp add: weight_sum_def)

lemma pick_position_member: "pick_position current position instances = Some i \<Longrightarrow> i \<in> set instances"
  by (induction instances arbitrary: current) (auto simp: Let_def split: if_splits)

interpretation weighted_lb: load_balancer weighted_select "\<lambda>_ _. True"
  by unfold_locales
    (auto simp: weighted_select_def Let_def dest: pick_position_member split: if_splits option.splits)

interpretation weighted_cycle: cyclic_selection weighted_select wt_counter weighted_slots
    "\<lambda>instances. weight_sum instances < 2 ^ 64"
proof
  fix instances s
  assume small: "weight_sum instances < 2 ^ 64" and ne: "weighted_slots s instances \<noteq> []"
  have i: "instances \<noteq> []" using ne by (auto simp: weighted_slots_def weight_slots_def weight_sum_def)
  have t: "unat (total_weight instances) = weight_sum instances"
    unfolding total_weight_sum by (subst unat_of_nat) (use small in simp)
  show "fst (weighted_select instances s) =
      Some (weighted_slots s instances ! (unat (wt_counter s) mod length (weighted_slots s instances)))"
  proof (cases "weight_sum instances = 0")
    case True
    then have "total_weight instances = 0" using t by (simp add: unat_eq_zero)
    then show ?thesis using True i by (simp add: weighted_select_def weighted_slots_def Let_def)
  next
    case False
    let ?p = "wt_counter s mod total_weight instances"
    have p: "unat ?p = unat (wt_counter s) mod weight_sum instances" by (simp add: unat_mod t)
    have "pick_position 0 ?p instances = Some (weight_slots instances ! unat ?p)"
      using pick_position_slot [of 0 instances ?p] small False p by simp
    moreover have "total_weight instances \<noteq> 0" using t False by auto
    ultimately show ?thesis using False i p by (simp add: weighted_select_def weighted_slots_def Let_def)
  qed
  show "wt_counter (snd (weighted_select instances s)) = wt_counter s + 1"
    using i by (simp add: weighted_select_def Let_def split: option.splits)
qed (simp add: weighted_slots_def)

lemma count_weight_slots:
  assumes "distinct instances"
  shows "count_list (weight_slots instances) i = (if i \<in> set instances then unat (get_weight i) else 0)"
proof -
  have r: "count_list (replicate n x) y = (if x = y then n else 0)" for n and x y :: service_instance
    by (induction n) auto
  show ?thesis using assms
    by (induction instances) (auto simp: weight_slots_Cons r, simp add: weight_slots_def)
qed

text \<open>
  C38: over one full cycle of the weighted balancer, that is as many selections as the weights
  add up to, every instance is selected exactly as often as its weight says, wherever the
  counter stands, as long as the 64-bit counter does not wrap during the cycle.
\<close>

theorem weighted_share:
  assumes "distinct instances" and "i \<in> set instances" and "0 < weight_sum instances"
    and "unat (wt_counter b) + weight_sum instances < 2 ^ 64"
  shows "count_list (fst (select_times (weight_sum instances) (weighted_select instances) b)) (Some i) =
    unat (get_weight i)"
proof -
  have w: "weighted_slots b instances = weight_slots instances"
    using assms(3) by (simp add: weighted_slots_def)
  then have "weighted_slots b instances \<noteq> []" using assms(3) by (metis length_greater_0_conv length_weight_slots)
  then show ?thesis
    using weighted_cycle.cycle_count [of instances b i] assms w by (simp add: count_weight_slots)
qed

definition sample_instances :: "service_instance list" where
  "sample_instances =
     [with_weight 1 (service_instance_new ''a'' ''svc'' ''10.0.0.1'' 8080),
      with_weight 3 (service_instance_new ''b'' ''svc'' ''10.0.0.2'' 8080)]"

lemmas sample_defs = sample_instances_def with_weight_def service_instance_new_def
  service_metadata_default_def

theorem weighted_share_witness:
  "count_list (fst (select_times 4 (weighted_select sample_instances) \<lparr>wt_counter = 7\<rparr>))
     (Some (sample_instances ! 1)) = 3"
  using weighted_share [of sample_instances "sample_instances ! 1" "\<lparr>wt_counter = 7\<rparr>"]
  by (simp add: sample_defs weight_sum_def get_weight_def)
subsection \<open>Least connection\<close>

abbreviation load_of :: "least_connection \<Rightarrow> service_instance \<Rightarrow> u32" where
  "load_of b i \<equiv> get_connections b (si_id i)"

lemma find_least_none: "\<forall>i\<in>set instances. m \<le> load_of b i \<Longrightarrow> find_least b m selected instances = selected"
  by (induction instances) (auto simp: Let_def)

lemma find_least_some:
  assumes "i \<in> set instances" and "load_of b i < m"
  shows "\<exists>j. find_least b m selected instances = Some j \<and> j \<in> set instances \<and> load_of b j < m \<and>
    (\<forall>k\<in>set instances. load_of b j \<le> load_of b k)"
  using assms
proof (induction instances arbitrary: m selected i)
  case (Cons x rest)
  show ?case
  proof (cases "load_of b x < m")
    case less: True
    show ?thesis
    proof (cases "\<exists>i\<in>set rest. load_of b i < load_of b x")
      case True
      then obtain i where "i \<in> set rest" "load_of b i < load_of b x" by blast
      from Cons.IH [OF this, of "Some x"] obtain j where "find_least b (load_of b x) (Some x) rest = Some j"
        "j \<in> set rest" "load_of b j < load_of b x" "\<forall>k\<in>set rest. load_of b j \<le> load_of b k" by blast
      then show ?thesis using less by (auto simp: Let_def intro: less_trans)
    next
      case False
      then have "find_least b (load_of b x) (Some x) rest = Some x"
        by (intro find_least_none) (auto simp: not_less)
      then show ?thesis using less False by (auto simp: not_less Let_def)
    qed
  next
    case False
    then have "i \<in> set rest" using Cons.prems by auto
    from Cons.IH [OF this Cons.prems(2), of selected] obtain j where
      "find_least b m selected rest = Some j" "j \<in> set rest" "load_of b j < m"
      "\<forall>k\<in>set rest. load_of b j \<le> load_of b k" by blast
    then show ?thesis using False by (auto simp: not_less Let_def)
  qed
qed simp

lemma below_max: "x < (- 1 :: u32) \<longleftrightarrow> x \<noteq> - 1"
  using word_order.not_eq_extremum [of x] by simp

text \<open>
  The selected instance has the fewest connections, its count goes up by one without wrapping
  and no other count changes.
\<close>

lemma least_connection_selects:
  assumes "i \<in> set instances" and "load_of b i \<noteq> - 1"
  obtains j where "least_connection_select instances b =
      (Some j, b\<lparr>lc_connections := hm_insert (si_id j) (load_of b j + 1) (lc_connections b)\<rparr>)"
    and "j \<in> set instances" and "load_of b j \<noteq> - 1" and "\<forall>k\<in>set instances. load_of b j \<le> load_of b k"
proof -
  have "load_of b i < - 1" using assms(2) by (simp add: below_max)
  from find_least_some [OF assms(1) this, of None] obtain j where
    "find_least b (- 1) None instances = Some j" "j \<in> set instances" "load_of b j < - 1"
    "\<forall>k\<in>set instances. load_of b j \<le> load_of b k" by blast
  then show thesis using assms(1)
    by (intro that [of j]) (auto simp: least_connection_select_def below_max)
qed

lemma least_connection_stuck:
  "\<forall>i\<in>set instances. load_of b i = - 1 \<Longrightarrow> least_connection_select instances b = (None, b)"
  by (simp add: least_connection_select_def find_least_none)

interpretation least_connection_lb: load_balancer least_connection_select "\<lambda>b i. load_of b i \<noteq> - 1"
proof
  fix instances s i s' assume r: "least_connection_select instances s = (Some i, s')"
  then obtain k where "k \<in> set instances" "load_of s k \<noteq> - 1"
    using least_connection_stuck [of instances s] by auto
  then show "i \<in> set instances \<and> load_of s i \<noteq> - 1"
    by (rule least_connection_selects) (use r in simp)
next
  fix instances s s'
  show "least_connection_select instances s = (None, s') \<longleftrightarrow>
      (\<forall>i\<in>set instances. \<not> load_of s i \<noteq> - 1) \<and> s' = s"
    by (metis least_connection_selects least_connection_stuck option.distinct(1) prod.inject)
qed

lemma get_connections_insert:
  "get_connections (b\<lparr>lc_connections := hm_insert sid n (lc_connections b)\<rparr>) sid' =
     (if sid' = sid then n else get_connections b sid')"
  by (simp add: get_connections_def hm_get_insert)

text \<open>The counts of the instances differ by one at most.\<close>

definition load_even :: "least_connection \<Rightarrow> service_instance list \<Rightarrow> bool" where
  "load_even b instances \<longleftrightarrow>
     (\<forall>i\<in>set instances. \<forall>j\<in>set instances. unat (load_of b i) \<le> unat (load_of b j) + 1)"

lemma least_connection_keeps_even:
  assumes "load_even b instances"
  shows "load_even (snd (least_connection_select instances b)) instances"
proof (cases "\<forall>i\<in>set instances. load_of b i = - 1")
  case False
  then obtain i where "i \<in> set instances" "load_of b i \<noteq> - 1" by blast
  then obtain j where j: "least_connection_select instances b =
      (Some j, b\<lparr>lc_connections := hm_insert (si_id j) (load_of b j + 1) (lc_connections b)\<rparr>)"
    and "load_of b j \<noteq> - 1" and least: "\<forall>k\<in>set instances. load_of b j \<le> load_of b k"
    by (rule least_connection_selects)
  then have "unat (load_of b j + 1) = unat (load_of b j) + 1"
    by (metis Suc_eq_plus1 add.commute add_eq_0_iff unatSuc)
  moreover have "unat (load_of b j) \<le> unat (load_of b k)" if "k \<in> set instances" for k
    using least that by (simp add: word_le_nat_alt)
  ultimately show ?thesis using assms
    by (fastforce simp: j load_even_def get_connections_insert)
qed (simp add: least_connection_stuck assms)



subsection \<open>All balancers\<close>

fun lb_eligible :: "balancer \<Rightarrow> service_instance \<Rightarrow> bool" where
  "lb_eligible (RoundRobinBalancer b) i = True"
| "lb_eligible (WeightedBalancer b) i = True"
| "lb_eligible (HealthAwareBalancer b) i = is_healthy b (si_id i)"
| "lb_eligible (LeastConnectionBalancer b) i = (load_of b i \<noteq> - 1)"

interpretation balancers: load_balancer lb_select lb_eligible
proof
  fix instances s i s' assume "lb_select instances s = (Some i, s')"
  then show "i \<in> set instances \<and> lb_eligible s i"
    by (cases s)
      (auto simp: apsnd_def map_prod_def split: prod.splits dest: round_robin_lb.select_some weighted_lb.select_some
        health_aware_lb.select_some least_connection_lb.select_some)
next
  fix instances s and s' :: balancer
  have ap: "apsnd f p = (None, s') \<longleftrightarrow> (\<exists>t. p = (None, t) \<and> f t = s')"
    for f and p :: "service_instance option \<times> 'a" by (cases p) auto
  show "lb_select instances s = (None, s') \<longleftrightarrow> (\<forall>i\<in>set instances. \<not> lb_eligible s i) \<and> s' = s"
    by (cases s)
      (auto simp: ap round_robin_lb.select_none weighted_lb.select_none
        health_aware_lb.select_none least_connection_lb.select_none)
qed

lemma strategy_roundtrip [simp]: "balance_strategy_from_str (balance_strategy_display strategy) = Inr strategy"
  by (cases strategy) (simp_all add: balance_strategy_from_str_def to_lowercase_def char_lower_def)

lemma created_balancer_name: "lb_name (create_balancer strategy) = balance_strategy_display strategy"
  by (cases strategy) simp_all

text \<open>
  A fresh balancer of any strategy selects, from a list that is not empty, an instance of it.
\<close>

theorem created_balancer_selects:
  assumes "instances \<noteq> []"
  shows "\<exists>i\<in>set instances. fst (lb_select instances (create_balancer strategy)) = Some i"
proof -
  have e: "lb_eligible (create_balancer strategy) (hd instances)"
    by (cases strategy)
      (simp_all add: health_aware_new_def is_healthy_def least_connection_new_def get_connections_def)
  obtain i where "fst (lb_select instances (create_balancer strategy)) = Some i"
    using balancers.select_available [OF hd_in_set [OF assms] e] by blast
  then show ?thesis by (metis balancers.select_some prod.collapse)
qed

text \<open>
  The health of an instance after a report: with exact arithmetic, fewer than half of its
  requests failed. At exactly half it counts as unhealthy.
\<close>

lemma below_half: "0 < b \<Longrightarrow> real a / real b < 1 / 2 \<longleftrightarrow> 2 * a < b"
  by (simp add: pos_divide_less_eq) linarith

lemma exact_health:
  "stats_healthy (\<lambda>x. x) stats \<longleftrightarrow>
     st_total_requests stats = 0 \<or> 2 * unat (st_failed_requests stats) < unat (st_total_requests stats)"
proof (cases "st_total_requests stats = 0")
  case False
  then have "0 < unat (st_total_requests stats)" by (simp add: unat_gt_0)
  moreover have "0 < st_total_requests stats" using False by (simp add: word_neq_0_conv)
  ultimately show ?thesis using False
    by (simp only: stats_healthy_def Let_def if_True below_half simp_thms)
qed (simp add: stats_healthy_def)

lemma half_failures_unhealthy:
  "\<not> stats_healthy (\<lambda>x. x) ((instance_stats_default now)\<lparr>st_total_requests := 100, st_failed_requests := 50\<rparr>)"
  by (simp add: exact_health)

end
