(* ===== verification/Api_Versions.thy ===== *)
theory Api_Versions
  imports Prelude
begin

section \<open>Versions of the HTTP interface (\<^verbatim>\<open>uhorse-gateway/src/versioning\<close>)\<close>

text \<open>
  Versions in URLs and their rewriting (\<^verbatim>\<open>url.rs\<close>), endpoints that are deprecated
  (\<^verbatim>\<open>deprecation.rs\<close>) and the comparison of two versions of an interface (\<^verbatim>\<open>compat.rs\<close>). The
  clock and the formatting of a date are arguments. The Chinese texts of warnings and
  descriptions are left out: a warning is the permission and the endpoint it names.
\<close>

subsection \<open>Versions and URLs (\<^verbatim>\<open>url.rs\<close>)\<close>

datatype api_version = ApiVersion (av_major: u32) (av_minor: u32) (av_patch: u32)

definition api_v1 :: api_version where
  "api_v1 = ApiVersion 1 0 0"

definition api_v2 :: api_version where
  "api_v2 = ApiVersion 2 0 0"

text \<open>The derived order compares the fields one after the other.\<close>

instantiation api_version :: linorder
begin

definition less_eq_api_version :: "api_version \<Rightarrow> api_version \<Rightarrow> bool" where
  "less_eq_api_version a b \<longleftrightarrow>
     av_major a < av_major b \<or>
     av_major a = av_major b \<and>
       (av_minor a < av_minor b \<or> av_minor a = av_minor b \<and> av_patch a \<le> av_patch b)"

definition less_api_version :: "api_version \<Rightarrow> api_version \<Rightarrow> bool" where
  "less_api_version a b \<longleftrightarrow> a \<le> b \<and> \<not> b \<le> a"

instance
  by standard (auto simp: less_eq_api_version_def less_api_version_def api_version.expand)

end

datatype version_parse_error = InvalidFormat | InvalidNumber

definition trim_start_char :: "char \<Rightarrow> string \<Rightarrow> string" where
  "trim_start_char c s = dropWhile (\<lambda>x. x = c) s"

definition api_version_parse :: "string \<Rightarrow> version_parse_error + api_version" where
  "api_version_parse s =
     (let parts = split_on (CHR ''.'') (trim_start_char (CHR ''V'') (trim_start_char (CHR ''v'') (trim s)))
      in (case map parse_u32 parts of
            [Some major] \<Rightarrow> Inr (ApiVersion major 0 0)
          | [Some major, Some minor] \<Rightarrow> Inr (ApiVersion major minor 0)
          | [Some major, Some minor, Some patch] \<Rightarrow> Inr (ApiVersion major minor patch)
          | _ \<Rightarrow> Inl InvalidFormat))"

definition version_to_path :: "api_version \<Rightarrow> string" where
  "version_to_path v = ''v'' @ dec_string (unat (av_major v))"

definition is_compatible_with :: "api_version \<Rightarrow> api_version \<Rightarrow> bool" where
  "is_compatible_with v w \<longleftrightarrow> av_major v = av_major w"

definition version_deprecated :: "api_version \<Rightarrow> api_version \<Rightarrow> bool" where
  "version_deprecated v current \<longleftrightarrow> av_major v < av_major current"

definition api_version_display :: "api_version \<Rightarrow> string" where
  "api_version_display v =
     ''v'' @ dec_string (unat (av_major v)) @ ''.'' @ dec_string (unat (av_minor v)) @ ''.'' @
     dec_string (unat (av_patch v))"

record versioned_path =
  vp_version :: api_version
  vp_path :: string

definition from_url :: "string \<Rightarrow> versioned_path option" where
  "from_url url =
     (let parts = split_on (CHR ''/'') (trim_start_char (CHR ''/'') url)
      in if length parts < 2 then None
         else if parts ! 0 = ''api'' \<and> starts_with (parts ! 1) ''v''
         then (case api_version_parse (parts ! 1) of
                 Inl _ \<Rightarrow> None
               | Inr version \<Rightarrow>
                   (let rest = join_with ''/'' (drop 2 parts)
                    in Some \<lparr>vp_version = version, vp_path = (if rest = [] then ''/'' else ''/'' @ rest)\<rparr>))
         else None)"

definition to_url :: "versioned_path \<Rightarrow> string" where
  "to_url vp =
     ''/api/'' @ version_to_path (vp_version vp) @ ''/'' @ trim_start_char (CHR ''/'') (vp_path vp)"

record version_parser =
  pa_supported_versions :: "api_version list"
  pa_default_version :: api_version

definition default_parser :: version_parser where
  "default_parser = \<lparr>pa_supported_versions = [api_v1, api_v2], pa_default_version = api_v1\<rparr>"

definition parse_version :: "string \<Rightarrow> api_version option" where
  "parse_version path = map_option vp_version (from_url path)"

definition is_version_supported :: "version_parser \<Rightarrow> api_version \<Rightarrow> bool" where
  "is_version_supported p v = list_ex (\<lambda>w. av_major w = av_major v) (pa_supported_versions p)"

definition rewrite_path :: "string \<Rightarrow> api_version \<Rightarrow> string option" where
  "rewrite_path path target =
     map_option (\<lambda>vp. to_url \<lparr>vp_version = target, vp_path = vp_path vp\<rparr>) (from_url path)"

subsection \<open>Round trips\<close>

lemma dec_string_not: "\<not> is_digit_char c \<Longrightarrow> c \<notin> set (dec_string n)"
  using dec_string_digits by blast

lemma dec_string_no_sep [simp]:
  "CHR ''.'' \<notin> set (dec_string n)" "CHR ''/'' \<notin> set (dec_string n)"
  by (auto intro!: dec_string_not simp: is_digit_char_def)

lemma dec_string_no_whitespace: "c \<in> set (dec_string n) \<Longrightarrow> \<not> is_whitespace c"
  using dec_string_digits [of c n] by (auto simp: is_digit_char_def is_whitespace_def)

lemma trim_start_dec [simp]:
  assumes "\<not> is_digit_char c" shows "trim_start_char c (dec_string n @ s) = dec_string n @ s"
proof -
  obtain d ds where d: "dec_string n = d # ds" by (meson dec_string_nonempty neq_Nil_conv)
  then have "d \<noteq> c" using dec_string_digits [of d n] assms by auto
  then show ?thesis by (simp add: trim_start_char_def d)
qed

lemma not_digits [simp]: "\<not> is_digit_char (CHR ''v'')" "\<not> is_digit_char (CHR ''V'')"
  by (simp_all add: is_digit_char_def)

lemma trim_start_v: "trim_start_char (CHR ''v'') (CHR ''v'' # s) = trim_start_char (CHR ''v'') s"
  by (simp add: trim_start_char_def)

lemma parse_display: "api_version_parse (api_version_display v) = Inr v"
proof -
  let ?s = "api_version_display v"
  have "trim ?s = ?s"
    by (rule trim_no_whitespace)
      (auto simp: list_all_iff api_version_display_def is_whitespace_def dest: dec_string_no_whitespace)
  then show ?thesis
    by (simp add: api_version_parse_def api_version_display_def trim_start_v split_on_append
        split_on_no_sep)
qed

lemma parse_to_path: "api_version_parse (version_to_path v) = Inr (ApiVersion (av_major v) 0 0)"
proof -
  let ?s = "version_to_path v"
  have "trim ?s = ?s"
    by (rule trim_no_whitespace)
      (auto simp: list_all_iff version_to_path_def is_whitespace_def dest: dec_string_no_whitespace)
  then show ?thesis
    using trim_start_dec [of "CHR ''v''" "unat (av_major v)" "[]"]
      trim_start_dec [of "CHR ''V''" "unat (av_major v)" "[]"]
    by (simp add: api_version_parse_def version_to_path_def trim_start_v split_on_no_sep)
qed

lemma from_to_url:
  "from_url (to_url vp) = Some \<lparr>vp_version = ApiVersion (av_major (vp_version vp)) 0 0,
     vp_path = ''/'' @ trim_start_char (CHR ''/'') (vp_path vp)\<rparr>"
proof -
  let ?p = "version_to_path (vp_version vp)" and ?r = "trim_start_char (CHR ''/'') (vp_path vp)"
  have slash: "CHR ''/'' \<notin> set ?p" by (simp add: version_to_path_def)
  have "trim_start_char (CHR ''/'') (to_url vp) = ''api'' @ CHR ''/'' # ?p @ CHR ''/'' # ?r"
    by (simp add: to_url_def trim_start_char_def)
  then have parts: "split_on (CHR ''/'') (trim_start_char (CHR ''/'') (to_url vp)) =
      ''api'' # ?p # split_on (CHR ''/'') ?r"
    using split_on_append [of "CHR ''/''" "''api''"] split_on_append [OF slash] by simp
  have "starts_with ?p ''v''" by (simp add: version_to_path_def)
  then show ?thesis
    by (simp add: from_url_def parts parse_to_path join_split_on Let_def)
qed

text \<open>
  A version is read back from its text, and a URL that is built from a version and a path is
  read back as the major version and the path with one leading slash.
\<close>

theorem version_roundtrip:
  "api_version_parse (api_version_display v) = Inr v \<and>
   from_url (to_url vp) = Some \<lparr>vp_version = ApiVersion (av_major (vp_version vp)) 0 0,
     vp_path = ''/'' @ trim_start_char (CHR ''/'') (vp_path vp)\<rparr>"
  by (simp add: parse_display from_to_url)

lemma rewrite_reaches_target:
  "rewrite_path path target = Some url \<Longrightarrow> parse_version url = Some (ApiVersion (av_major target) 0 0)"
  by (auto simp: rewrite_path_def parse_version_def from_to_url)

text \<open>Only the major version survives in a URL.\<close>

lemma minor_version_lost: "parse_version (to_url \<lparr>vp_version = ApiVersion 2 1 0, vp_path = ''/x''\<rparr>) = Some api_v2"
  by (simp add: parse_version_def from_to_url api_v2_def)
subsection \<open>Deprecated endpoints (\<^verbatim>\<open>deprecation.rs\<close>)\<close>

record deprecation_info =
  dp_path :: string
  dp_deprecated_at :: instant
  dp_removal_date :: instant
  dp_replacement :: "string option"
  dp_migration_guide :: "string option"
  dp_removed :: bool

definition deprecation_info_new :: "string \<Rightarrow> instant \<Rightarrow> instant \<Rightarrow> deprecation_info" where
  "deprecation_info_new path deprecated_at removal_date =
     \<lparr>dp_path = path, dp_deprecated_at = deprecated_at, dp_removal_date = removal_date,
      dp_replacement = None, dp_migration_guide = None, dp_removed = False\<rparr>"

definition deprecation_expired :: "instant \<Rightarrow> deprecation_info \<Rightarrow> bool" where
  "deprecation_expired now d \<longleftrightarrow> dp_removal_date d \<le> now"

text \<open>\<open>num_days\<close> truncates towards zero.\<close>

definition nanos_per_day :: int where
  "nanos_per_day = 86400 * nanos_per_sec"

definition days_until_removal :: "instant \<Rightarrow> deprecation_info \<Rightarrow> int" where
  "days_until_removal now d =
     (let left = dp_removal_date d - now in sgn left * (\<bar>left\<bar> div nanos_per_day))"

record deprecation_header =
  dh_deprecated_at :: instant
  dh_removal_date :: instant
  dh_replacement :: "string option"
  dh_link :: "string option"
  dh_extra :: "(string, string) hmap"

definition deprecation_header_new :: "instant \<Rightarrow> instant \<Rightarrow> deprecation_header" where
  "deprecation_header_new deprecated_at removal_date =
     \<lparr>dh_deprecated_at = deprecated_at, dh_removal_date = removal_date, dh_replacement = None,
      dh_link = None, dh_extra = []\<rparr>"

definition to_header :: "deprecation_info \<Rightarrow> deprecation_header" where
  "to_header d =
     (let h = deprecation_header_new (dp_deprecated_at d) (dp_removal_date d);
          h1 = (case dp_replacement d of Some r \<Rightarrow> h\<lparr>dh_replacement := Some r\<rparr> | None \<Rightarrow> h)
      in (case dp_migration_guide d of Some g \<Rightarrow> h1\<lparr>dh_link := Some g\<rparr> | None \<Rightarrow> h1))"

definition link_text :: "string \<Rightarrow> string \<Rightarrow> string" where
  "link_text url rel = ''<'' @ url @ ''>; rel='' @ [CHR 0x22] @ rel @ [CHR 0x22]"

definition to_headers :: "(instant \<Rightarrow> string) \<Rightarrow> deprecation_header \<Rightarrow> (string \<times> string) list" where
  "to_headers rfc3339 h =
     (let headers = [(''Deprecation'', ''true''), (''Sunset'', rfc3339 (dh_removal_date h))];
          headers1 = (case dh_replacement h of
              Some r \<Rightarrow> headers @ [(''Link'', link_text r ''successor-version'')]
            | None \<Rightarrow> headers)
      in (case dh_link h of
            None \<Rightarrow> headers1
          | Some u \<Rightarrow>
              (let link = link_text u ''deprecation''
               in (case find (\<lambda>(k, _). k = ''Link'') headers1 of
                     Some (_, existing) \<Rightarrow>
                       filter (\<lambda>(k, _). k \<noteq> ''Link'') headers1 @ [(''Link'', existing @ '', '' @ link)]
                   | None \<Rightarrow> headers1 @ [(''Link'', link)]))))"

type_synonym deprecation_manager = "(string, deprecation_info) hmap"

definition deprecation_add :: "deprecation_info \<Rightarrow> deprecation_manager \<Rightarrow> deprecation_manager" where
  "deprecation_add d m = hm_insert (dp_path d) d m"

definition deprecation_is_deprecated :: "deprecation_manager \<Rightarrow> string \<Rightarrow> bool" where
  "deprecation_is_deprecated m path = hm_contains m path"

definition deprecation_is_removed :: "instant \<Rightarrow> deprecation_manager \<Rightarrow> string \<Rightarrow> bool" where
  "deprecation_is_removed now m path =
     (case hm_get m path of Some d \<Rightarrow> deprecation_expired now d | None \<Rightarrow> False)"

definition deprecation_get_headers ::
  "(instant \<Rightarrow> string) \<Rightarrow> deprecation_manager \<Rightarrow> string \<Rightarrow> (string \<times> string) list option" where
  "deprecation_get_headers rfc3339 m path =
     map_option (\<lambda>d. to_headers rfc3339 (to_header d)) (hm_get m path)"

definition list_expired :: "instant \<Rightarrow> deprecation_manager \<Rightarrow> deprecation_info list" where
  "list_expired now m = filter (deprecation_expired now) (hm_values m)"

definition list_upcoming :: "instant \<Rightarrow> deprecation_manager \<Rightarrow> deprecation_info list" where
  "list_upcoming now m =
     filter (\<lambda>d. \<not> deprecation_expired now d \<and> days_until_removal now d \<le> 30) (hm_values m)"

definition mark_removed :: "string \<Rightarrow> deprecation_manager \<Rightarrow> bool \<times> deprecation_manager" where
  "mark_removed path m =
     (if hm_contains m path then (True, hm_modify path (\<lambda>d. d\<lparr>dp_removed := True\<rparr>) m) else (False, m))"

text \<open>The headers of an endpoint: never more than one \<open>Link\<close>, which holds both targets.\<close>

lemma to_headers_record:
  "to_headers rfc \<lparr>dh_deprecated_at = p, dh_removal_date = q, dh_replacement = r, dh_link = g, dh_extra = x\<rparr> =
     [(''Deprecation'', ''true''), (''Sunset'', rfc q)] @
     (case r of
        None \<Rightarrow> (case g of None \<Rightarrow> [] | Some u \<Rightarrow> [(''Link'', link_text u ''deprecation'')])
      | Some s \<Rightarrow>
          [(''Link'', link_text s ''successor-version'' @
             (case g of None \<Rightarrow> [] | Some u \<Rightarrow> '', '' @ link_text u ''deprecation''))])"
  by (cases r; cases g) (simp_all add: to_headers_def Let_def)

lemma to_header_record:
  "to_header d = \<lparr>dh_deprecated_at = dp_deprecated_at d, dh_removal_date = dp_removal_date d,
     dh_replacement = dp_replacement d, dh_link = dp_migration_guide d, dh_extra = []\<rparr>"
  by (cases "dp_replacement d"; cases "dp_migration_guide d")
    (simp_all add: to_header_def deprecation_header_new_def Let_def)

lemma headers_exact:
  "to_headers rfc (to_header d) =
     [(''Deprecation'', ''true''), (''Sunset'', rfc (dp_removal_date d))] @
     (case dp_replacement d of
        None \<Rightarrow> (case dp_migration_guide d of None \<Rightarrow> [] | Some u \<Rightarrow> [(''Link'', link_text u ''deprecation'')])
      | Some s \<Rightarrow>
          [(''Link'', link_text s ''successor-version'' @
             (case dp_migration_guide d of None \<Rightarrow> [] | Some u \<Rightarrow> '', '' @ link_text u ''deprecation''))])"
  unfolding to_header_record by (rule to_headers_record)

text \<open>Marking an endpoint as removed changes no answer about its removal.\<close>

lemma mark_removed_ignored:
  "deprecation_is_removed now (snd (mark_removed path m)) path' = deprecation_is_removed now m path'"
  by (simp add: deprecation_is_removed_def mark_removed_def hm_get_modify deprecation_expired_def
      split: option.split)

text \<open>The endpoints to be removed soon are those with fewer than 31 days left.\<close>

lemma div_at_most:
  assumes "0 < (n :: int)" shows "x div n \<le> k \<longleftrightarrow> x < (k + 1) * n"
proof -
  have x: "x = x div n * n + x mod n" "0 \<le> x mod n" "x mod n < n" using assms by simp_all
  show ?thesis
  proof
    assume "x div n \<le> k"
    then have "x div n * n \<le> k * n" using assms by (simp add: mult_right_mono)
    then have "x < k * n + n" using x by linarith
    then show "x < (k + 1) * n" by (simp add: distrib_right)
  next
    assume "x < (k + 1) * n"
    then have "x div n * n < (k + 1) * n" using x by linarith
    then show "x div n \<le> k" using assms by (simp add: mult_less_cancel_right)
  qed
qed

lemma days_until_removal_bound:
  assumes "now < dp_removal_date d"
  shows "days_until_removal now d \<le> 30 \<longleftrightarrow> dp_removal_date d - now < 31 * nanos_per_day"
proof -
  have "days_until_removal now d = (dp_removal_date d - now) div nanos_per_day"
    using assms by (simp add: days_until_removal_def)
  moreover have "0 < nanos_per_day" by (simp add: nanos_per_day_def nanos_per_sec_def)
  ultimately show ?thesis by (simp add: div_at_most)
qed

lemma list_upcoming_exact:
  "d \<in> set (list_upcoming now m) \<longleftrightarrow>
     d \<in> set (hm_values m) \<and> now < dp_removal_date d \<and> dp_removal_date d - now < 31 * nanos_per_day"
  unfolding list_upcoming_def set_filter mem_Collect_eq deprecation_expired_def not_le
  using days_until_removal_bound [of now d] by blast

subsection \<open>Compatibility of two versions (\<^verbatim>\<open>compat.rs\<close>)\<close>

datatype compatibility_level = FullyCompatible | BackwardCompatible | Breaking | Incompatible

datatype breaking_change =
    EndpointRemoved string
  | EndpointRenamed string string
  | RequestFieldRemoved string string
  | RequestFieldTypeChanged string string string string
  | RequiredFieldAdded string string
  | ResponseFieldRemoved string string
  | ResponseFieldTypeChanged string string string string
  | AuthenticationChanged string
  | PermissionChanged string string string

fun change_severity :: "breaking_change \<Rightarrow> u8" where
  "change_severity (EndpointRemoved _) = 5"
| "change_severity (EndpointRenamed _ _) = 4"
| "change_severity (RequestFieldRemoved _ _) = 4"
| "change_severity (RequestFieldTypeChanged _ _ _ _) = 3"
| "change_severity (RequiredFieldAdded _ _) = 3"
| "change_severity (ResponseFieldRemoved _ _) = 3"
| "change_severity (ResponseFieldTypeChanged _ _ _ _) = 2"
| "change_severity (AuthenticationChanged _) = 5"
| "change_severity (PermissionChanged _ _ _) = 2"

record api_field =
  af_name :: string
  af_type :: string
  af_required :: bool
  af_description :: "string option"

record endpoint_spec =
  es_path :: string
  es_method :: string
  es_request_params :: "api_field list"
  es_response_fields :: "api_field list"
  es_auth_required :: bool
  es_permissions :: "string list"

record compatibility_checker =
  cc_old_spec :: "(string, endpoint_spec) hmap"
  cc_new_spec :: "(string, endpoint_spec) hmap"

definition spec_key :: "endpoint_spec \<Rightarrow> string" where
  "spec_key s = es_method s @ '':'' @ es_path s"

definition spec_map :: "endpoint_spec list \<Rightarrow> (string, endpoint_spec) hmap" where
  "spec_map specs = foldl (\<lambda>m s. hm_insert (spec_key s) s m) [] specs"

definition compatibility_checker_new ::
  "endpoint_spec list \<Rightarrow> endpoint_spec list \<Rightarrow> compatibility_checker" where
  "compatibility_checker_new old new = \<lparr>cc_old_spec = spec_map old, cc_new_spec = spec_map new\<rparr>"

definition removed_endpoints :: "compatibility_checker \<Rightarrow> breaking_change list" where
  "removed_endpoints c =
     map (\<lambda>(k, e). EndpointRemoved (es_path e))
       (filter (\<lambda>(k, e). \<not> hm_contains (cc_new_spec c) k) (cc_old_spec c))"

definition request_changes :: "endpoint_spec \<Rightarrow> api_field \<Rightarrow> breaking_change list" where
  "request_changes new old_field =
     (case find (\<lambda>f. af_name f = af_name old_field) (es_request_params new) of
        None \<Rightarrow> [RequestFieldRemoved (es_path new) (af_name old_field)]
      | Some new_field \<Rightarrow>
          (if af_type new_field \<noteq> af_type old_field
           then [RequestFieldTypeChanged (es_path new) (af_name old_field) (af_type old_field) (af_type new_field)]
           else []) @
          (if af_required new_field \<and> \<not> af_required old_field
           then [RequiredFieldAdded (es_path new) (af_name old_field)] else []))"

definition response_changes :: "endpoint_spec \<Rightarrow> api_field \<Rightarrow> breaking_change list" where
  "response_changes new old_field =
     (case find (\<lambda>f. af_name f = af_name old_field) (es_response_fields new) of
        None \<Rightarrow> [ResponseFieldRemoved (es_path new) (af_name old_field)]
      | Some new_field \<Rightarrow>
          (if af_type new_field \<noteq> af_type old_field
           then [ResponseFieldTypeChanged (es_path new) (af_name old_field) (af_type old_field) (af_type new_field)]
           else []))"

definition endpoint_changes :: "endpoint_spec \<Rightarrow> endpoint_spec \<Rightarrow> breaking_change list" where
  "endpoint_changes old new =
     concat (map (request_changes new) (es_request_params old)) @
     concat (map (response_changes new) (es_response_fields old)) @
     (if es_auth_required new \<and> \<not> es_auth_required old then [AuthenticationChanged (es_path new)] else [])"

definition permission_warnings :: "endpoint_spec \<Rightarrow> endpoint_spec \<Rightarrow> (string \<times> string) list" where
  "permission_warnings old new =
     map (\<lambda>p. (p, es_path new)) (filter (\<lambda>p. p \<notin> set (es_permissions new)) (es_permissions old))"

record compatibility_report =
  cy_level :: compatibility_level
  cy_breaking_changes :: "breaking_change list"
  cy_warnings :: "(string \<times> string) list"

definition report_level :: "breaking_change list \<Rightarrow> compatibility_level" where
  "report_level changes =
     (if changes = [] then FullyCompatible
      else if 4 \<le> fold max (map change_severity changes) 0 then Incompatible
      else Breaking)"

definition check_compatibility :: "compatibility_checker \<Rightarrow> compatibility_report" where
  "check_compatibility c =
     (let changes = removed_endpoints c @
            concat (map (\<lambda>(k, new). case hm_get (cc_old_spec c) k of
              Some old \<Rightarrow> endpoint_changes old new | None \<Rightarrow> []) (cc_new_spec c));
          warnings =
            concat (map (\<lambda>(k, new). case hm_get (cc_old_spec c) k of
              Some old \<Rightarrow> permission_warnings old new | None \<Rightarrow> []) (cc_new_spec c))
      in \<lparr>cy_level = report_level changes, cy_breaking_changes = changes, cy_warnings = warnings\<rparr>)"

definition is_compatible :: "compatibility_report \<Rightarrow> bool" where
  "is_compatible r \<longleftrightarrow> cy_level r = FullyCompatible \<or> cy_level r = BackwardCompatible"

definition has_breaking_changes :: "compatibility_report \<Rightarrow> bool" where
  "has_breaking_changes r \<longleftrightarrow> cy_breaking_changes r \<noteq> []"
subsection \<open>What a compatible report means\<close>

lemma hm_wf_spec_map: "hm_wf (spec_map specs)"
proof -
  have "hm_wf (foldl (\<lambda>m s. hm_insert (spec_key s) s m) m specs)"
    if "hm_wf m" for m :: "(string, endpoint_spec) hmap"
    using that by (induction specs arbitrary: m) auto
  then show ?thesis by (simp add: spec_map_def)
qed

text \<open>
  The new endpoint serves the clients of the old one: each field they send is still there with
  its type and not newly required, each field they read is still there with its type, and no
  authentication has been added.
\<close>

definition field_named :: "api_field list \<Rightarrow> string \<Rightarrow> api_field option" where
  "field_named fs name = find (\<lambda>f. af_name f = name) fs"

definition endpoint_keeps :: "endpoint_spec \<Rightarrow> endpoint_spec \<Rightarrow> bool" where
  "endpoint_keeps old new \<longleftrightarrow>
     (\<forall>f\<in>set (es_request_params old). \<exists>g. field_named (es_request_params new) (af_name f) = Some g \<and>
        af_type g = af_type f \<and> (af_required g \<longrightarrow> af_required f)) \<and>
     (\<forall>f\<in>set (es_response_fields old). \<exists>g. field_named (es_response_fields new) (af_name f) = Some g \<and>
        af_type g = af_type f) \<and>
     (es_auth_required new \<longrightarrow> es_auth_required old)"

lemma request_changes_none:
  "request_changes new f = [] \<longleftrightarrow> (\<exists>g. field_named (es_request_params new) (af_name f) = Some g \<and>
     af_type g = af_type f \<and> (af_required g \<longrightarrow> af_required f))"
  by (cases "field_named (es_request_params new) (af_name f)")
    (simp_all add: request_changes_def field_named_def)

lemma response_changes_none:
  "response_changes new f = [] \<longleftrightarrow> (\<exists>g. field_named (es_response_fields new) (af_name f) = Some g \<and>
     af_type g = af_type f)"
  by (cases "field_named (es_response_fields new) (af_name f)")
    (simp_all add: response_changes_def field_named_def)

lemma endpoint_changes_none: "endpoint_changes old new = [] \<longleftrightarrow> endpoint_keeps old new"
  by (auto simp: endpoint_changes_def endpoint_keeps_def request_changes_none response_changes_none)

lemma changes_none:
  assumes "hm_wf (cc_old_spec c)" and "hm_wf (cc_new_spec c)"
  shows "cy_breaking_changes (check_compatibility c) = [] \<longleftrightarrow>
    (\<forall>k old. hm_get (cc_old_spec c) k = Some old \<longrightarrow>
       (\<exists>new. hm_get (cc_new_spec c) k = Some new \<and> endpoint_keeps old new))"
proof -
  have gone: "removed_endpoints c = [] \<longleftrightarrow>
      (\<forall>k old. hm_get (cc_old_spec c) k = Some old \<longrightarrow> hm_get (cc_new_spec c) k \<noteq> None)"
    by (auto simp: removed_endpoints_def filter_empty_conv hm_contains_def hm_get_iff [OF assms(1)])
  have "concat (map (\<lambda>(k, new). case hm_get (cc_old_spec c) k of
        Some old \<Rightarrow> endpoint_changes old new | None \<Rightarrow> []) (cc_new_spec c)) = [] \<longleftrightarrow>
      (\<forall>k new. hm_get (cc_new_spec c) k = Some new \<longrightarrow>
         (case hm_get (cc_old_spec c) k of Some old \<Rightarrow> endpoint_changes old new | None \<Rightarrow> []) = [])"
    unfolding hm_get_iff [OF assms(2)] concat_eq_Nil_conv 
      set_map ball_simps by (simp add: Ball_def split_paired_All)
  moreover have "(\<forall>k new. hm_get (cc_new_spec c) k = Some new \<longrightarrow>
         (case hm_get (cc_old_spec c) k of Some old \<Rightarrow> endpoint_changes old new | None \<Rightarrow> []) = []) \<longleftrightarrow>
      (\<forall>k old new. hm_get (cc_old_spec c) k = Some old \<longrightarrow> hm_get (cc_new_spec c) k = Some new \<longrightarrow>
         endpoint_keeps old new)"
    by (auto simp: endpoint_changes_none split: option.splits)
  ultimately have "cy_breaking_changes (check_compatibility c) = [] \<longleftrightarrow>
      removed_endpoints c = [] \<and>
      (\<forall>k old new. hm_get (cc_old_spec c) k = Some old \<longrightarrow> hm_get (cc_new_spec c) k = Some new \<longrightarrow>
         endpoint_keeps old new)"
    by (simp only: check_compatibility_def Let_def compatibility_report.simps append_is_Nil_conv)
  with gone show ?thesis by fastforce
qed

lemma level_of_changes:
  "cy_level (check_compatibility c) = report_level (cy_breaking_changes (check_compatibility c))"
  by (simp add: check_compatibility_def Let_def)

lemma is_compatible_iff: "is_compatible (check_compatibility c) \<longleftrightarrow> \<not> has_breaking_changes (check_compatibility c)"
  by (simp add: is_compatible_def has_breaking_changes_def level_of_changes report_level_def)


definition sample_endpoint :: endpoint_spec where
  "sample_endpoint =
     \<lparr>es_path = ''/tasks'', es_method = ''POST'',
      es_request_params = [\<lparr>af_name = ''command'', af_type = ''object'', af_required = True, af_description = None\<rparr>],
      es_response_fields = [\<lparr>af_name = ''id'', af_type = ''string'', af_required = True, af_description = None\<rparr>],
      es_auth_required = True, es_permissions = []\<rparr>"

definition sample_field :: api_field where
  "sample_field = \<lparr>af_name = ''note'', af_type = ''string'', af_required = False, af_description = None\<rparr>"


lemma fold_max_ge: "4 \<le> fold max xs (m :: u8) \<longleftrightarrow> 4 \<le> m \<or> (\<exists>x\<in>set xs. 4 \<le> x)"
  by (induction xs arbitrary: m) (auto simp: le_max_iff_disj)

text \<open>Incompatible means that some change is of severity four or five.\<close>

lemma incompatible_exact:
  "cy_level (check_compatibility c) = Incompatible \<longleftrightarrow>
     (\<exists>b\<in>set (cy_breaking_changes (check_compatibility c)). 4 \<le> change_severity b)"
  by (auto simp: level_of_changes report_level_def fold_max_ge)

text \<open>A version that only adds things is reported as fully compatible; the level for it is never used.\<close>

lemma never_backward_compatible: "cy_level (check_compatibility c) \<noteq> BackwardCompatible"
  by (simp add: level_of_changes report_level_def)

text \<open>A new required field of a request goes unnoticed: only fields of the old version are compared.\<close>

lemma new_required_field_unnoticed:
  assumes "\<forall>f\<in>set (es_request_params old). af_name f \<noteq> af_name g"
  shows "endpoint_changes old (new\<lparr>es_request_params := es_request_params new @ [g]\<rparr>) =
    endpoint_changes old new"
proof -
  have "find (\<lambda>h. af_name h = af_name f) (xs @ [g]) = find (\<lambda>h. af_name h = af_name f) xs"
    if "f \<in> set (es_request_params old)" for f xs
    using assms that by (induction xs) auto
  then have "map (request_changes (new\<lparr>es_request_params := es_request_params new @ [g]\<rparr>)) (es_request_params old) =
      map (request_changes new) (es_request_params old)"
    by (simp add: request_changes_def cong: option.case_cong if_cong)
  moreover have "response_changes (new\<lparr>es_request_params := es_request_params new @ [g]\<rparr>) = response_changes new"
    by (rule ext) (simp add: response_changes_def cong: option.case_cong if_cong)
  ultimately show ?thesis by (simp add: endpoint_changes_def cong: map_cong)
qed

text \<open>So does a permission the new version demands in addition.\<close>

lemma new_permission_unnoticed:
  "endpoint_changes old (new\<lparr>es_permissions := ps\<rparr>) = endpoint_changes old new"
  by (simp add: endpoint_changes_def request_changes_def [abs_def] response_changes_def [abs_def]
      cong: option.case_cong if_cong)

end
