(* ===== verification/Spec2Isabelle.thy ===== *)
theory Spec2Isabelle
  imports Hub_Gate Rate_Limit Job_Scheduler Pairing Task_Queue Sharding Rbac Webhook_Retry Dialogue Skill_Install Failover Load_Balance Api_Versions
begin

text \<open>
  \<^bold>\<open>A verification development of uHorse.\<close>

  uHorse is a multi-channel assistant. A \<^emph>\<open>Hub\<close> in the cloud keeps the queue of tasks and the
  registry of \<^emph>\<open>nodes\<close>; nodes run on the users' machines, hold a workspace and execute the commands
  the Hub sends them over a channel. Around these are the approval of sensitive operations, the
  sessions of users with agents, the planning of commands by a language model, skills and their
  installation, the replies and notifications to users, a gateway with rate limits, load balancing and roles, scheduled
  jobs, the pairing of devices, a task queue, the routing of requests to database shards, and webhooks.

  \<^bold>\<open>Theories.\<close>
  \<^item> \<open>Prelude\<close>: hash maps, strings, decimal numbers, JSON values, and the interfaces \<open>keyed_store\<close>,
    \<open>stable_ranking\<close> and \<open>step_system\<close>.
  \<^item> \<open>Protocol\<close> (\<^verbatim>\<open>uhorse-protocol\<close>): the types, commands, results and messages of the Hub-node
    protocol. \<open>Paths\<close>: the model of \<^verbatim>\<open>std::path\<close> and of the file system.
  \<^item> \<open>Node_Manager\<close>, \<open>Task_Scheduler\<close>, \<open>Session_Runtime\<close>, \<open>Notifications\<close>, \<open>Hub\<close>
    (\<^verbatim>\<open>uhorse-hub/src\<close>): the components of the Hub, each with its state as a record, one definition
    per operation, an invariant and a step relation; \<open>Hub\<close> composes them by the handlers of
    \<^verbatim>\<open>hub.rs\<close> and \<^verbatim>\<open>message_router.rs\<close>.
  \<^item> \<open>Idempotency\<close>, \<open>Approval\<close> (\<^verbatim>\<open>uhorse-security\<close> and the approver of
    \<^verbatim>\<open>uhorse-hub/src/security_integration.rs\<close>).
  \<^item> \<open>Workspace\<close>, \<open>Permission\<close> (\<^verbatim>\<open>uhorse-node-runtime\<close>): what a node lets a command do.
  \<^item> \<open>Disk\<close>: a file system of files and directories with the operations of \<^verbatim>\<open>std::fs\<close>, an instance of the
    file system \<open>Workspace\<close> is stated over. \<open>Node_Files\<close> and \<open>Node_Exec\<close> (\<^verbatim>\<open>executor.rs\<close>): what a node does
    for a command, on that disk; \<open>Browser\<close> (\<^verbatim>\<open>browser.rs\<close>): the browser commands; \<open>Versioning\<close>
    (\<^verbatim>\<open>versioning.rs\<close>): the workspace under git.
  \<^item> \<open>Node_Connection\<close> (\<^verbatim>\<open>connection.rs\<close>): the connection to the Hub and its reconnection. \<open>Node_Agent\<close>
    (\<^verbatim>\<open>node.rs\<close>, \<^verbatim>\<open>status.rs\<close>): the node, from its configuration to the handling of every message of
    the Hub. \<open>Hub_Node\<close>: a task from the Hub to a node and back.
  \<^item> \<open>Auth\<close> (\<^verbatim>\<open>uhorse-security/src/auth.rs\<close>, \<^verbatim>\<open>security_integration.rs\<close>): tokens and the authenticator of nodes.
    \<open>Hub_Server\<close>, \<open>Hub_Api\<close> (\<^verbatim>\<open>uhorse-hub/src/web\<close>): the WebSocket of a node from its registration to its
    end, and the HTTP handlers for tokens, accounts, tasks, permissions and approvals. \<open>Hub_Gate\<close>: the runs
    of the server with its connections and tokens. \<open>Collaboration\<close> (\<^verbatim>\<open>web/mod.rs\<close>): the scopes and the
    collaboration workspace a task carries.
  \<^item> \<open>Planner\<close>, \<open>Url_Guard\<close>, \<open>Reply\<close>, \<open>Dialogue\<close> (\<^verbatim>\<open>uhorse-hub/src/web/mod.rs\<close>): the decision read from
    the answer of the model and its validation, the URLs a browser may open, the replies to a
    conversation, and the turns of a conversation over the Hub, the sessions and the replies.
  \<^item> \<open>Skills\<close>, \<open>Skill_Install\<close> (\<^verbatim>\<open>uhorse-agent/src/skill.rs\<close>, \<^verbatim>\<open>uhorse-hub/src/web/mod.rs\<close>): manifests,
    layered registries, execution, and the installation of skills from a conversation or by HTTP.
  \<^item> \<open>Sessions\<close> (\<^verbatim>\<open>uhorse-agent\<close>): session keys, their scopes and the routing to agents.
  \<^item> \<open>Rate_Limit\<close> (\<^verbatim>\<open>uhorse-gateway/src/ratelimit\<close>): the global, user and endpoint limiters.
    \<open>Load_Balance\<close> (\<^verbatim>\<open>uhorse-gateway/src/lb\<close>): the balancers over the service instances.
    \<open>Api_Versions\<close> (\<^verbatim>\<open>uhorse-gateway/src/versioning\<close>): versions in URLs, deprecation, compatibility.
    \<open>Rbac\<close> (\<^verbatim>\<open>uhorse-gateway/src/auth/rbac.rs\<close>): roles and their permissions.
  \<^item> \<open>Discovery\<close>, \<open>Failover\<close> (\<^verbatim>\<open>uhorse-discovery/src\<close>): service instances, the in-memory registry, the
    health tracker, and failures and failovers of instances.
  \<^item> \<open>Cron\<close>, \<open>Job_Scheduler\<close> (\<^verbatim>\<open>uhorse-scheduler\<close>): cron expressions and the scheduling loop.
  \<^item> \<open>Pairing\<close> (\<^verbatim>\<open>uhorse-security/src/pairing.rs\<close>): pairing codes, devices and lock order.
  \<^item> \<open>Task_Queue\<close> (\<^verbatim>\<open>uhorse-queue\<close>): passes over the queue, retry strategies, dead letters.
  \<^item> \<open>Sharding\<close> (\<^verbatim>\<open>uhorse-storage/src/sharding\<close>): hash ring and tenant assignments.
  \<^item> \<open>Webhook_Retry\<close> (\<^verbatim>\<open>uhorse-webhook/src/retry.rs\<close>): the retry loop.

  \<^bold>\<open>What is shown.\<close>
  \<^item> The scheduler: which task starts on which node, uniqueness of task ids, the life cycle of a
    task, the stability of outcomes, the bounds of the store, exactness of the timeout sweep.
  \<^item> The Hub: the dispatch loop ends and leaves no task waiting for a node that could take it, a
    submitted task starts at once when it can, every handler is a sequence of operations of the
    components, and their invariants hold in every reachable Hub.
  \<^item> Nodes: the limit on their number, soundness of the workspace index, choice by load. On the node
    itself: no allowed file command leaves the workspace, and none changes a disk outside it; whatever
    messages come, nothing runs that was neither allowed nor approved; every assignment is answered
    once, and the metrics are the results sent; what is written is read back; registration precedes
    all other messages and reconnecting is bounded; looking at versions changes nothing.
  \<^item> Both together: a task the Hub sends to a node comes back and ends its life cycle there; one that
    needs approval is asked about, decided over the interface, and then run or reported as refused.
  \<^item> Access: a revoked or exchanged token is refused for good; a node the Hub has a channel to
    authenticated before; an account request touches only the account of the node whose token it carries;
    the scope written into a task is read back from it.
  \<^item> Conversations: only validated commands reach the Hub, in bounded number, and a reply is delivered
    once. Skills: the order of resolution, and that installations are checked and keep the registry.
  \<^item> Approvals are granted only by enough different approvers; requests and responses are
    processed once.
  \<^item> Sessions: serial execution per session, numbered transcripts, separation of scopes, routing.
  \<^item> Rate limits: no more than the limit passes within a window. Roles form a chain.
  \<^item> Services: the registry is a map from services and ids; the health of an instance follows the
    current streak of checks; a balancer selects only eligible instances, and over a cycle each as
    often as its weight; a recorded failure can always be recovered. Interfaces: what a report of
    compatibility means, and which changes it does not see.
  \<^item> Cron expressions: parsing what is printed gives what the fields denote; the next run is the first
    match on the grid searched. A round of the job scheduler runs exactly the due jobs; recurring jobs
    are never among them once the clock advances within the round.
  \<^item> Pairing: a device is paired only by an unexpired code of a request for it, and a code is used up;
    two operations can deadlock. Queue: a pass equals one traversal, and the queue drains. Shards:
    tenants stay where they are assigned; small shard ids make the ring prefer its first shard.
    Webhooks: the retry loop ends within its maximum.

  \<^bold>\<open>Conventions.\<close> \<open>u32\<close> and \<open>u64\<close> keep their width and wrap as in a release build; a count of
  elements is a \<open>nat\<close>. A clock reading, a UUID and a random number an operation takes are arguments.
  A hash map is an association list with distinct keys, whose order stands for the iteration order;
  the step relations have a rule that permutes it. Errors are values of the source's error types.
  Loops that end by their data are structural; the dispatch loop, the search for an existing
  ancestor, the walk over a directory, the pass over the task queue and the retry loop are \<open>function\<close>s
  with a measure, so no fuel is used anywhere. The wait for an element of a page is a
  \<open>partial_function\<close>, which ends when the clock reaches the limit. A panic is the value \<open>None\<close>. The
  disk has no symbolic links. An asynchronous handler runs
  without interruption in the model, except where the interleaving is the point: the lanes of
  \<open>run_serialized\<close>, the window of the global limiter, the exchange of a token, the locks of the expiry task and of pairing.

  \<^bold>\<open>Parameters.\<close> The file system and failures of the operating system, git, processes, HTTP calls, the
  calls of the Chrome library, the signing and checking of tokens, the language model, the parsers of URLs, YAML, TOML and times, archives,
  the glob matcher, the rounding of floating point arithmetic, the calendar, the handlers of queued
  tasks, the outcomes of webhook calls, the messaging service behind a channel, the events of a
  WebSocket and the JSON that \<open>serde\<close> makes of a command are arguments; where a statement relies on one
  of them (canonical paths are canonical, rounding is monotone, the clock passes the limit), the
  assumption is a named predicate or hypothesis with a witness.

  \<^bold>\<open>Not modelled.\<close> The pages and the runtime views of the web server, prompts, the clients of messaging and
  model services, the earlier copy of the node, storage, cryptography, metrics and logs, the etcd and
  Consul clients of the discovery, the
  Redis-backed limiter, the desktop application and the command line: they are input and output, or
  the work is done by a library. The manifest lists them.
\<close>



end
